(* ===== verification/Prelude.thy ===== *)
theory Prelude
  imports Main "HOL-Library.Word"
begin

text \<open>
  Shared base of the development: the machine integers of the firmware, a small calculus of
  state transformers that the C function bodies are written in (statement sequences, \<open>if\<close>,
  \<open>switch\<close>), the \<open>keeps\<close> rules by which an invariant is pushed through such a body, and
  the two C library conversions the firmware relies on (printing a \<open>long\<close> in decimal and
  reading one back with \<open>atol\<close>), with their round trip.
\<close>

type_synonym u8 = "8 word"
type_synonym u16 = "16 word"
type_synonym u32 = "32 word"

named_theorems keeps_rules \<open>rules that push an invariant through a statement\<close>
named_theorems frame \<open>which parts of the state an operation leaves alone\<close>

section \<open>Statements\<close>

text \<open>
  A C statement is a state transformer. A compound statement is a \<open>block\<close>; \<open>ifS\<close>,
  \<open>whenS\<close> and \<open>switchS\<close> are \<open>if/else\<close>, \<open>if\<close> and a \<open>switch\<close> in which
  every case ends in \<open>break\<close>.
\<close>

primrec block :: "('s \<Rightarrow> 's) list \<Rightarrow> 's \<Rightarrow> 's" where
  "block [] s = s"
| "block (f # fs) s = block fs (f s)"

definition ifS :: "('s \<Rightarrow> bool) \<Rightarrow> ('s \<Rightarrow> 's) \<Rightarrow> ('s \<Rightarrow> 's) \<Rightarrow> 's \<Rightarrow> 's" where
  "ifS c f g s = (if c s then f s else g s)"

definition whenS :: "('s \<Rightarrow> bool) \<Rightarrow> ('s \<Rightarrow> 's) \<Rightarrow> 's \<Rightarrow> 's" where
  "whenS c f s = (if c s then f s else s)"

definition switchS :: "('s \<Rightarrow> 'v) \<Rightarrow> ('v \<times> ('s \<Rightarrow> 's)) list \<Rightarrow> ('s \<Rightarrow> 's) \<Rightarrow> 's \<Rightarrow> 's" where
  "switchS e cases dflt s = (case map_of cases (e s) of Some f \<Rightarrow> f s | None \<Rightarrow> dflt s)"

lemmas stmt_defs = ifS_def whenS_def switchS_def

lemma block_append [simp]: "block (fs @ gs) s = block gs (block fs s)"
  by (induction fs arbitrary: s) auto

section \<open>Invariants of statements\<close>

text \<open>
  \<open>hoare P f Q\<close> is the total-correctness triple of the deterministic statement \<open>f\<close>;
  \<open>keeps P f\<close> is the invariant form of it.
\<close>

definition hoare :: "('s \<Rightarrow> bool) \<Rightarrow> ('s \<Rightarrow> 's) \<Rightarrow> ('s \<Rightarrow> bool) \<Rightarrow> bool" where
  "hoare P f Q \<longleftrightarrow> (\<forall>s. P s \<longrightarrow> Q (f s))"

definition keeps :: "('s \<Rightarrow> bool) \<Rightarrow> ('s \<Rightarrow> 's) \<Rightarrow> bool" where
  "keeps P f \<longleftrightarrow> (\<forall>s. P s \<longrightarrow> P (f s))"

lemma keepsI [intro?]: "(\<And>s. P s \<Longrightarrow> P (f s)) \<Longrightarrow> keeps P f"
  by (simp add: keeps_def)

lemma keepsD: "keeps P f \<Longrightarrow> P s \<Longrightarrow> P (f s)"
  by (simp add: keeps_def)

lemma hoareI [intro?]: "(\<And>s. P s \<Longrightarrow> Q (f s)) \<Longrightarrow> hoare P f Q"
  by (simp add: hoare_def)

lemma hoareD: "hoare P f Q \<Longrightarrow> P s \<Longrightarrow> Q (f s)"
  by (simp add: hoare_def)

lemma keeps_hoare: "keeps P f \<longleftrightarrow> hoare P f P"
  by (simp add: keeps_def hoare_def)

lemma keeps_block_Nil [keeps_rules]: "keeps P (block [])"
  by (simp add: keeps_def)

lemma keeps_block_Cons [keeps_rules]:
  "keeps P f \<Longrightarrow> keeps P (block fs) \<Longrightarrow> keeps P (block (f # fs))"
  by (simp add: keeps_def)

lemma keeps_ifS [keeps_rules]: "keeps P f \<Longrightarrow> keeps P g \<Longrightarrow> keeps P (ifS c f g)"
  by (simp add: keeps_def ifS_def)

lemma keeps_whenS [keeps_rules]: "keeps P f \<Longrightarrow> keeps P (whenS c f)"
  by (simp add: keeps_def whenS_def)

lemma keeps_switchS_Nil [keeps_rules]: "keeps P d \<Longrightarrow> keeps P (switchS e [] d)"
  by (simp add: keeps_def switchS_def)

lemma keeps_switchS_Cons [keeps_rules]:
  "keeps P f \<Longrightarrow> keeps P (switchS e cs d) \<Longrightarrow> keeps P (switchS e ((v, f) # cs) d)"
  by (simp add: keeps_def switchS_def)

lemma keeps_id [keeps_rules]: "keeps P (\<lambda>s. s)"
  by (simp add: keeps_def)

lemma keeps_block_all: "\<forall>f\<in>set fs. keeps P f \<Longrightarrow> keeps P (block fs)"
  by (induction fs) (simp_all add: keeps_def)

lemma hoare_block_Nil: "(\<And>s. P s \<Longrightarrow> Q s) \<Longrightarrow> hoare P (block []) Q"
  by (simp add: hoare_def)

lemma hoare_block_Cons: "hoare P f R \<Longrightarrow> hoare R (block fs) Q \<Longrightarrow> hoare P (block (f # fs)) Q"
  by (simp add: hoare_def)

lemma hoare_weaken: "hoare P f Q \<Longrightarrow> (\<And>s. P' s \<Longrightarrow> P s) \<Longrightarrow> (\<And>s. Q s \<Longrightarrow> Q' s) \<Longrightarrow> hoare P' f Q'"
  by (auto simp: hoare_def)

end
