(* ===== verification/CLib.thy ===== *)
theory CLib
  imports Prelude
begin

text \<open>
  The C library conversions the firmware uses: \<open>%ld\<close> and \<open>%0Nd\<close> of \<open>printf\<close> on a
  32-bit \<open>int\<close>/\<open>long\<close>, and \<open>atol\<close> (white space, sign, digits, saturating at the
  range of \<open>long\<close>). The main result is that reading back what was printed gives the same
  32-bit value.
\<close>

section \<open>Decimal printing\<close>

definition digit_char :: "nat \<Rightarrow> char" where
  "digit_char d = char_of (48 + d)"

fun dec_digits :: "nat \<Rightarrow> string" where
  "dec_digits n = (if n < 10 then [digit_char n]
                   else dec_digits (n div 10) @ [digit_char (n mod 10)])"

declare dec_digits.simps [simp del]

text \<open>\<open>%ld\<close> on a 32-bit target: the bits of the argument read as a signed \<open>long\<close>.\<close>

definition fmt_ld :: "u32 \<Rightarrow> string" where
  "fmt_ld v = (if sint v < 0 then CHR ''-'' # dec_digits (nat (- sint v))
               else dec_digits (nat (sint v)))"

text \<open>\<open>%0Nd\<close>: at least \<open>w\<close> characters, padded with zeros after the sign.\<close>

definition fmt_0d :: "nat \<Rightarrow> int \<Rightarrow> string" where
  "fmt_0d w i = (let ds = dec_digits (nat \<bar>i\<bar>); sg = (if i < 0 then ''-'' else [])
                 in sg @ replicate (w - length sg - length ds) (CHR ''0'') @ ds)"

section \<open>atol\<close>

definition is_digit :: "char \<Rightarrow> bool" where
  "is_digit c \<longleftrightarrow> 48 \<le> (of_char c :: nat) \<and> (of_char c :: nat) \<le> 57"

definition is_space :: "char \<Rightarrow> bool" where
  "is_space c \<longleftrightarrow> (of_char c :: nat) = 32 \<or> (9 \<le> (of_char c :: nat) \<and> (of_char c :: nat) \<le> 13)"

definition digit_val :: "char \<Rightarrow> nat" where
  "digit_val c = of_char c - 48"

fun read_digits :: "nat \<Rightarrow> string \<Rightarrow> nat" where
  "read_digits acc [] = acc"
| "read_digits acc (c # cs) = (if is_digit c then read_digits (10 * acc + digit_val c) cs else acc)"

definition sat_long :: "int \<Rightarrow> int" where
  "sat_long i = max (- (2 ^ 31)) (min (2 ^ 31 - 1) i)"

definition atol :: "string \<Rightarrow> int" where
  "atol cs = (case dropWhile is_space cs of
      [] \<Rightarrow> 0
    | c # r \<Rightarrow> if c = CHR ''-'' then sat_long (- int (read_digits 0 r))
               else if c = CHR ''+'' then sat_long (int (read_digits 0 r))
               else sat_long (int (read_digits 0 (c # r))))"

section \<open>Round trip\<close>

lemma of_char_digit [simp]: "d < 10 \<Longrightarrow> (of_char (digit_char d) :: nat) = 48 + d"
  by (simp add: digit_char_def)

lemma digit_char_facts [simp]:
  assumes "d < 10"
  shows "is_digit (digit_char d)" "digit_val (digit_char d) = d" "\<not> is_space (digit_char d)"
  using assms by (simp_all add: is_digit_def digit_val_def is_space_def)

lemma digit_char_not_sign:
  assumes "d < 10"
  shows "digit_char d \<noteq> CHR ''-''" "digit_char d \<noteq> CHR ''+''"
proof -
  have "(of_char (digit_char d) :: nat) \<noteq> of_char (CHR ''-'')"
    and "(of_char (digit_char d) :: nat) \<noteq> of_char (CHR ''+'')"
    using assms by simp_all
  then show "digit_char d \<noteq> CHR ''-''" "digit_char d \<noteq> CHR ''+''" by auto
qed

lemma dec_digits_first:
  "\<exists>d r. dec_digits n = digit_char d # r \<and> d < 10"
proof (induction n rule: dec_digits.induct)
  case (1 n)
  show ?case
  proof (cases "n < 10")
    case True
    then show ?thesis by (auto simp: dec_digits.simps [of n])
  next
    case False
    with "1.IH" obtain d r where "dec_digits (n div 10) = digit_char d # r" "d < 10" by blast
    with False show ?thesis by (auto simp: dec_digits.simps [of n])
  qed
qed

lemma dec_digits_all: "list_all is_digit (dec_digits n)"
proof (induction n rule: dec_digits.induct)
  case (1 n)
  then show ?case by (auto simp: dec_digits.simps [of n])
qed

lemma read_digits_append:
  "list_all is_digit xs \<Longrightarrow> read_digits acc (xs @ ys) = read_digits (read_digits acc xs) ys"
  by (induction xs arbitrary: acc) auto

lemma read_dec_digits: "read_digits 0 (dec_digits n) = n"
proof (induction n rule: dec_digits.induct)
  case (1 n)
  show ?case
  proof (cases "n < 10")
    case True
    then show ?thesis by (simp add: dec_digits.simps [of n])
  next
    case False
    with "1.IH" show ?thesis
      by (simp add: dec_digits.simps [of n] read_digits_append dec_digits_all)
  qed
qed

lemma dec_digits_nonempty [simp]: "dec_digits n \<noteq> []"
  using dec_digits_first [of n] by auto

lemma atol_dec_digits: "atol (dec_digits n) = sat_long (int n)"
proof -
  obtain d r where d: "dec_digits n = digit_char d # r" "d < 10"
    using dec_digits_first by blast
  then have "read_digits 0 (digit_char d # r) = n"
    using read_dec_digits [of n] by simp
  with d show ?thesis
    by (simp add: atol_def digit_char_not_sign del: read_digits.simps)
qed

lemma atol_minus_dec_digits: "atol (CHR ''-'' # dec_digits n) = sat_long (- int n)"
  by (simp add: atol_def is_space_def read_dec_digits)

lemma sint_range32: "- (2 ^ 31) \<le> sint (v :: u32)" "sint (v :: u32) \<le> 2 ^ 31 - 1"
  using sint_ge [of v] sint_lt [of v] by simp_all

lemma sat_long_sint [simp]: "sat_long (sint (v :: u32)) = sint v"
  using sint_range32 [of v] by (simp add: sat_long_def)

theorem atol_fmt_ld: "atol (fmt_ld v) = sint v"
  by (cases "sint v < 0") (simp_all add: fmt_ld_def atol_dec_digits atol_minus_dec_digits)

corollary atol_fmt_ld_u32: "word_of_int (atol (fmt_ld v)) = v"
  by (simp add: atol_fmt_ld)

lemma fmt_ld_nonempty [simp]: "fmt_ld v \<noteq> []"
  by (simp add: fmt_ld_def)

text \<open>Length of a printed number: what the fixed-size string buffers have to hold.\<close>

lemma length_dec_digits_le: "n < 10 ^ k \<Longrightarrow> 0 < k \<Longrightarrow> length (dec_digits n) \<le> k"
proof (induction n arbitrary: k rule: dec_digits.induct)
  case (1 n)
  show ?case
  proof (cases "n < 10")
    case True
    with "1.prems" show ?thesis by (simp add: dec_digits.simps [of n])
  next
    case False
    with "1.prems" obtain j where j: "k = Suc j" "0 < j"
      by (cases k; cases "k - 1") auto
    with "1.prems" have "n div 10 < 10 ^ j" by (simp add: less_mult_imp_div_less mult.commute)
    with False j have "length (dec_digits (n div 10)) \<le> j" using "1.IH" by blast
    with False j show ?thesis by (simp add: dec_digits.simps [of n])
  qed
qed

lemma length_fmt_0d:
  "length (fmt_0d w i) =
     max w ((if i < 0 then 1 else 0) + length (dec_digits (nat \<bar>i\<bar>)))"
  by (auto simp: fmt_0d_def Let_def)

end
