(* ===== verification/Rtos.thy ===== *)
theory Rtos
  imports CLib
begin

text \<open>
  The RT-Thread kernel services the application calls, from \<open>rt-thread/src/ipc.c\<close> and
  \<open>rt-thread/src/timer.c\<close>: counting semaphores, event sets, and one-shot soft timers with
  the sorted timer list. A thread that would block is put on the object's waiting list and the
  call has no return value yet (\<open>None\<close>). Kernel objects are values; the state that holds
  them is in the theory \<open>State\<close>.
\<close>

unbundle bit_operations_syntax

abbreviation RT_EOK :: int where "RT_EOK \<equiv> 0"
abbreviation RT_ERROR :: int where "RT_ERROR \<equiv> 1"
abbreviation RT_ETIMEOUT :: int where "RT_ETIMEOUT \<equiv> 2"

section \<open>Waiting lists\<close>

datatype ipc_flag = RT_IPC_FLAG_FIFO | RT_IPC_FLAG_PRIO

text \<open>A suspended thread: its identity and its current priority (a smaller number runs first).\<close>

record waiter =
  w_thread :: nat
  w_prio :: nat
  w_event_set :: u32
  w_event_info :: u8

definition mk_waiter :: "nat \<Rightarrow> nat \<Rightarrow> waiter" where
  "mk_waiter t p = \<lparr>w_thread = t, w_prio = p, w_event_set = 0, w_event_info = 0\<rparr>"

text \<open>The search for the first waiter of a strictly lower urgency, and the append at the end.\<close>

fun prio_insert :: "waiter \<Rightarrow> waiter list \<Rightarrow> waiter list" where
  "prio_insert w [] = [w]"
| "prio_insert w (v # vs) = (if w_prio w < w_prio v then w # v # vs else v # prio_insert w vs)"

definition rt_ipc_list_suspend :: "waiter list \<Rightarrow> waiter \<Rightarrow> ipc_flag \<Rightarrow> waiter list" where
  "rt_ipc_list_suspend ws w flag =
     (case flag of RT_IPC_FLAG_FIFO \<Rightarrow> ws @ [w] | RT_IPC_FLAG_PRIO \<Rightarrow> prio_insert w ws)"

section \<open>Semaphores\<close>

record rt_semaphore =
  sem_value :: u16
  sem_flag :: ipc_flag
  suspend_thread :: "waiter list"

definition rt_sem_init :: "u32 \<Rightarrow> ipc_flag \<Rightarrow> rt_semaphore" where
  "rt_sem_init v flag = \<lparr>sem_value = ucast v, sem_flag = flag, suspend_thread = []\<rparr>"

text \<open>Result \<open>Some err\<close>: the call returned; \<open>None\<close>: the calling thread is suspended.\<close>

definition rt_sem_take :: "waiter \<Rightarrow> int \<Rightarrow> rt_semaphore \<Rightarrow> int option \<times> rt_semaphore" where
  "rt_sem_take w time sem =
     (if sem_value sem > 0 then (Some RT_EOK, sem\<lparr>sem_value := sem_value sem - 1\<rparr>)
      else if time = 0 then (Some (- RT_ETIMEOUT), sem)
      else (None, sem\<lparr>suspend_thread := rt_ipc_list_suspend (suspend_thread sem) w (sem_flag sem)\<rparr>))"

text \<open>The calls with timeout 0 that the application makes never suspend.\<close>

definition rt_sem_trytake :: "rt_semaphore \<Rightarrow> int \<times> rt_semaphore" where
  "rt_sem_trytake sem = (case rt_sem_take (mk_waiter 0 0) 0 sem of
      (Some r, sem') \<Rightarrow> (r, sem') | (None, sem') \<Rightarrow> (- RT_ETIMEOUT, sem'))"

text \<open>Release hands the token to the first waiting thread, or else counts it (16 bits, wrapping).\<close>

definition rt_sem_release :: "rt_semaphore \<Rightarrow> nat option \<times> rt_semaphore" where
  "rt_sem_release sem = (case suspend_thread sem of
      w # ws \<Rightarrow> (Some (w_thread w), sem\<lparr>suspend_thread := ws\<rparr>)
    | [] \<Rightarrow> (None, sem\<lparr>sem_value := sem_value sem + 1\<rparr>))"

text \<open>\<open>rt_sem_control\<close> with \<open>RT_IPC_CMD_RESET\<close>: every waiter is resumed, the value is set.\<close>

definition rt_sem_reset :: "u32 \<Rightarrow> rt_semaphore \<Rightarrow> nat list \<times> rt_semaphore" where
  "rt_sem_reset v sem = (map w_thread (suspend_thread sem),
     sem\<lparr>suspend_thread := [], sem_value := ucast v\<rparr>)"

lemma rt_sem_trytake_eq:
  "rt_sem_trytake sem =
     (if sem_value sem = 0 then (- RT_ETIMEOUT, sem)
      else (RT_EOK, sem\<lparr>sem_value := sem_value sem - 1\<rparr>))"
  by (simp add: rt_sem_trytake_def rt_sem_take_def word_gt_0)

section \<open>Event sets\<close>

record rt_event =
  ev_set :: u32
  ev_waiters :: "waiter list"

abbreviation RT_EVENT_FLAG_AND :: u8 where "RT_EVENT_FLAG_AND \<equiv> 1"
abbreviation RT_EVENT_FLAG_OR :: u8 where "RT_EVENT_FLAG_OR \<equiv> 2"
abbreviation RT_EVENT_FLAG_CLEAR :: u8 where "RT_EVENT_FLAG_CLEAR \<equiv> 4"

definition rt_event_init :: rt_event where
  "rt_event_init = \<lparr>ev_set = 0, ev_waiters = []\<rparr>"

text \<open>
  The walk over the waiting threads in \<open>rt_event_send\<close>: the current set, the waiters still
  to look at; result: the set left, the resumed threads with what each received, the waiters
  that stay.
\<close>

fun event_resume :: "u32 \<Rightarrow> waiter list \<Rightarrow> u32 \<times> (nat \<times> u32) list \<times> waiter list" where
  "event_resume st [] = (st, [], [])"
| "event_resume st (w # ws) =
     (let is_and = (w_event_info w AND RT_EVENT_FLAG_AND \<noteq> 0);
          is_or = (w_event_info w AND RT_EVENT_FLAG_OR \<noteq> 0);
          ok = (if is_and then w_event_set w AND st = w_event_set w
                else is_or \<and> w_event_set w AND st \<noteq> 0);
          got = (if is_and then w_event_set w else w_event_set w AND st);
          st' = (if ok \<and> w_event_info w AND RT_EVENT_FLAG_CLEAR \<noteq> 0 then st AND NOT got else st);
          (st'', rs, ws') = event_resume st' ws
      in if ok then (st'', (w_thread w, got) # rs, ws') else (st'', rs, w # ws'))"

definition rt_event_send :: "u32 \<Rightarrow> rt_event \<Rightarrow> int \<times> (nat \<times> u32) list \<times> rt_event" where
  "rt_event_send st ev =
     (if st = 0 then (- RT_ERROR, [], ev)
      else let (st', rs, ws) = event_resume (ev_set ev OR st) (ev_waiters ev)
           in (RT_EOK, rs, ev\<lparr>ev_set := st', ev_waiters := ws\<rparr>))"

text \<open>
  \<open>EvRet err recved\<close>: the call returned (with what was stored through \<open>recved\<close>, if
  anything); \<open>EvSuspended\<close>: the thread waits; \<open>EvAssert\<close>: the failed \<open>RT_ASSERT(0)\<close>
  of a call that asks neither for AND nor for OR.
\<close>

datatype recv_result = EvRet int "u32 option" | EvSuspended | EvAssert

definition rt_event_recv ::
  "waiter \<Rightarrow> u32 \<Rightarrow> u8 \<Rightarrow> int \<Rightarrow> rt_event \<Rightarrow> recv_result \<times> rt_event" where
  "rt_event_recv w st opt timeout ev =
     (if st = 0 then (EvRet (- RT_ERROR) None, ev)
      else if opt AND RT_EVENT_FLAG_AND = 0 \<and> opt AND RT_EVENT_FLAG_OR = 0 then (EvAssert, ev)
      else if (if opt AND RT_EVENT_FLAG_AND \<noteq> 0 then ev_set ev AND st = st
               else ev_set ev AND st \<noteq> 0)
      then (EvRet RT_EOK (Some (ev_set ev AND st)),
            if opt AND RT_EVENT_FLAG_CLEAR \<noteq> 0 then ev\<lparr>ev_set := ev_set ev AND NOT st\<rparr> else ev)
      else if timeout = 0 then (EvRet (- RT_ETIMEOUT) None, ev)
      else (EvSuspended, ev\<lparr>ev_waiters := ev_waiters ev @
              [w\<lparr>w_event_set := st, w_event_info := opt\<rparr>]\<rparr>))"

text \<open>
  The receive the application uses: any of \<open>st\<close>, clear, no waiting. \<open>Some e\<close> is a
  return of \<open>RT_EOK\<close> with \<open>e\<close> received.
\<close>

definition event_poll :: "u32 \<Rightarrow> rt_event \<Rightarrow> u32 option \<times> rt_event" where
  "event_poll st ev =
     (case rt_event_recv (mk_waiter 0 0) st (RT_EVENT_FLAG_OR OR RT_EVENT_FLAG_CLEAR) 0 ev of
        (EvRet r got, ev') \<Rightarrow> (if r = RT_EOK then got else None, ev')
      | (_, ev') \<Rightarrow> (None, ev'))"

lemma event_poll_eq:
  assumes "st \<noteq> 0"
  shows "event_poll st ev =
     (if ev_set ev AND st = 0 then (None, ev)
      else (Some (ev_set ev AND st), ev\<lparr>ev_set := ev_set ev AND NOT st\<rparr>))"
  using assms by (simp add: event_poll_def rt_event_recv_def)

lemma rt_event_send_no_waiters:
  "ev_waiters ev = [] \<Longrightarrow> st \<noteq> 0 \<Longrightarrow>
   rt_event_send st ev = (RT_EOK, [], ev\<lparr>ev_set := ev_set ev OR st\<rparr>)"
  by (simp add: rt_event_send_def)

section \<open>Soft timers\<close>

text \<open>The callbacks of the application's timers, in place of C function pointers.\<close>

datatype timer_fun = LcdBacklightTimerCallback | LcdVccTimerCallback | Moto_Cycle_Timer_Callback
  | K2_Setjump_Sem_Release | LowPowerTimerCallback

record rt_timer =
  timeout_func :: timer_fun
  init_tick :: u32
  timeout_tick :: u32
  activated :: bool

text \<open>
  The timer objects by handle, the soft timer list in its list order, the next free handle,
  and whether the heap has room for another object.
\<close>

record timer_sys =
  tm_objs :: "nat \<Rightarrow> rt_timer option"
  tm_list :: "nat list"
  tm_next :: nat
  tm_mem :: bool

abbreviation RT_TICK_MAX :: u32 where "RT_TICK_MAX \<equiv> 0xFFFFFFFF"

definition rt_timer_create :: "timer_fun \<Rightarrow> u32 \<Rightarrow> timer_sys \<Rightarrow> nat option \<times> timer_sys" where
  "rt_timer_create f time ts =
     (if tm_mem ts then
        (Some (tm_next ts),
         ts\<lparr>tm_objs := (tm_objs ts)(tm_next ts \<mapsto>
              \<lparr>timeout_func = f, init_tick = time, timeout_tick = 0, activated = False\<rparr>),
            tm_next := Suc (tm_next ts)\<rparr>)
      else (None, ts))"

definition tick_of :: "timer_sys \<Rightarrow> nat \<Rightarrow> u32" where
  "tick_of ts h = (case tm_objs ts h of Some t \<Rightarrow> timeout_tick t | None \<Rightarrow> 0)"

text \<open>The insertion walk: past equal and earlier expiries, before the first later one.\<close>

fun timer_insert :: "(nat \<Rightarrow> u32) \<Rightarrow> nat \<Rightarrow> nat list \<Rightarrow> nat list" where
  "timer_insert tk h [] = [h]"
| "timer_insert tk h (t # ts) =
     (if tk t - tk h = 0 then t # timer_insert tk h ts
      else if tk t - tk h < RT_TICK_MAX div 2 then h # t # ts
      else t # timer_insert tk h ts)"

text \<open>\<open>None\<close> is a failed \<open>RT_ASSERT\<close>: no timer, or an interval of half the tick range.\<close>

definition rt_timer_start :: "u32 \<Rightarrow> nat \<Rightarrow> timer_sys \<Rightarrow> timer_sys option" where
  "rt_timer_start now h ts =
     (case tm_objs ts h of None \<Rightarrow> None
      | Some t \<Rightarrow>
          if init_tick t < RT_TICK_MAX div 2 then
            (let ts1 = ts\<lparr>tm_objs := (tm_objs ts)(h \<mapsto> t\<lparr>timeout_tick := now + init_tick t, activated := True\<rparr>)\<rparr>
             in Some (ts1\<lparr>tm_list := timer_insert (tick_of ts1) h (removeAll h (tm_list ts))\<rparr>))
          else None)"

definition rt_timer_stop :: "nat \<Rightarrow> timer_sys \<Rightarrow> (int \<times> timer_sys) option" where
  "rt_timer_stop h ts =
     (case tm_objs ts h of None \<Rightarrow> None
      | Some t \<Rightarrow>
          if \<not> activated t then Some (- RT_ERROR, ts)
          else Some (RT_EOK, ts\<lparr>tm_objs := (tm_objs ts)(h \<mapsto> t\<lparr>activated := False\<rparr>),
                                tm_list := removeAll h (tm_list ts)\<rparr>))"

text \<open>\<open>rt_timer_control\<close> with \<open>RT_TIMER_CTRL_SET_TIME\<close>.\<close>

definition rt_timer_set_time :: "nat \<Rightarrow> u32 \<Rightarrow> timer_sys \<Rightarrow> timer_sys option" where
  "rt_timer_set_time h v ts =
     (case tm_objs ts h of None \<Rightarrow> None
      | Some t \<Rightarrow> Some (ts\<lparr>tm_objs := (tm_objs ts)(h \<mapsto> t\<lparr>init_tick := v\<rparr>)\<rparr>))"

text \<open>
  One turn of \<open>rt_soft_timer_check\<close>: if the first timer of the list is due it is taken off
  the list and its callback is to be run; \<open>timer_done\<close> is what follows the callback of a
  one-shot timer. The firmware creates no periodic timer, so their restart is left out.
\<close>

definition timer_due :: "u32 \<Rightarrow> timer_sys \<Rightarrow> (nat \<times> timer_fun \<times> timer_sys) option" where
  "timer_due now ts = (case tm_list ts of [] \<Rightarrow> None
     | h # hs \<Rightarrow> (case tm_objs ts h of None \<Rightarrow> None
        | Some t \<Rightarrow> if now - timeout_tick t < RT_TICK_MAX div 2
                    then Some (h, timeout_func t, ts\<lparr>tm_list := hs\<rparr>) else None))"

definition timer_done :: "nat \<Rightarrow> timer_sys \<Rightarrow> timer_sys" where
  "timer_done h ts = (case tm_objs ts h of None \<Rightarrow> ts
     | Some t \<Rightarrow> ts\<lparr>tm_objs := (tm_objs ts)(h \<mapsto> t\<lparr>activated := False\<rparr>)\<rparr>)"

section \<open>Well-formedness and order of the timer list\<close>

definition timers_wf :: "timer_sys \<Rightarrow> bool" where
  "timers_wf ts \<longleftrightarrow> distinct (tm_list ts) \<and> (\<forall>h\<in>set (tm_list ts). h < tm_next ts) \<and>
     (\<forall>h. tm_objs ts h = None \<longleftrightarrow> tm_next ts \<le> h)"

lemma set_timer_insert [simp]: "set (timer_insert tk h ts) = insert h (set ts)"
  by (induction ts) auto

lemma distinct_timer_insert [simp]: "distinct (timer_insert tk h ts) \<longleftrightarrow> h \<notin> set ts \<and> distinct ts"
  by (induction ts) auto

lemma timers_wf_obj: "timers_wf ts \<Longrightarrow> tm_objs ts h = Some t \<Longrightarrow> h < tm_next ts"
  by (metis timers_wf_def not_le option.distinct(1))

lemma rt_timer_create_wf: "timers_wf ts \<Longrightarrow> timers_wf (snd (rt_timer_create f t ts))"
  by (auto simp: timers_wf_def rt_timer_create_def less_Suc_eq)

lemma rt_timer_start_wf:
  assumes "timers_wf ts" "rt_timer_start now h ts = Some ts'"
  shows "timers_wf ts'"
proof -
  obtain t where t: "tm_objs ts h = Some t" using assms(2) by (auto simp: rt_timer_start_def split: option.splits)
  then show ?thesis using assms timers_wf_obj [OF assms(1) t]
    by (auto simp: timers_wf_def rt_timer_start_def Let_def distinct_removeAll split: if_splits)
qed

lemma rt_timer_stop_wf:
  assumes "timers_wf ts" "rt_timer_stop h ts = Some (r, ts')"
  shows "timers_wf ts'"
proof -
  obtain t where t: "tm_objs ts h = Some t" using assms(2) by (auto simp: rt_timer_stop_def split: option.splits)
  then show ?thesis using assms timers_wf_obj [OF assms(1) t]
    by (auto simp: timers_wf_def rt_timer_stop_def distinct_removeAll split: if_splits)
qed

lemma rt_timer_set_time_wf:
  assumes "timers_wf ts" "rt_timer_set_time h v ts = Some ts'"
  shows "timers_wf ts'"
proof -
  obtain t where t: "tm_objs ts h = Some t" using assms(2) by (auto simp: rt_timer_set_time_def split: option.splits)
  then show ?thesis using assms timers_wf_obj [OF assms(1) t]
    by (auto simp: timers_wf_def rt_timer_set_time_def split: if_splits)
qed

lemma timer_done_wf:
  assumes "timers_wf ts"
  shows "timers_wf (timer_done h ts)"
proof (cases "tm_objs ts h")
  case (Some t)
  then show ?thesis using assms timers_wf_obj [OF assms Some]
    by (auto simp: timers_wf_def timer_done_def split: if_splits)
qed (simp add: timer_done_def assms)

text \<open>
  The list is kept in the order in which the timers expire, seen from the current tick: as long
  as every expiry is less than half the tick range ahead, the modular comparison of the
  insertion walk orders by the time that is left.
\<close>

definition time_left :: "u32 \<Rightarrow> (nat \<Rightarrow> u32) \<Rightarrow> nat \<Rightarrow> nat" where
  "time_left now tk h = unat (tk h - now)"

lemma tick_order:
  fixes a b now :: u32
  assumes "unat (a - now) < 0x7FFFFFFF" "unat (b - now) < 0x7FFFFFFF"
  shows "b - a < RT_TICK_MAX div 2 \<longleftrightarrow> unat (a - now) \<le> unat (b - now)"
proof -
  define x y where "x = a - now" and "y = b - now"
  have "b - a = y - x" by (simp add: x_def y_def)
  moreover have "y - x < RT_TICK_MAX div 2 \<longleftrightarrow> unat x \<le> unat y"
  proof (cases "x \<le> y")
    case True
    then have "unat (y - x) = unat y - unat x" by (simp add: unat_sub)
    with True assms show ?thesis by (simp add: word_less_nat_alt word_le_nat_alt x_def y_def unat_div)
  next
    case False
    then have "unat (y - x) = unat y + 2 ^ 32 - unat x"
      by (simp add: unat_sub_if_size word_size word_le_nat_alt not_le)
    with False assms show ?thesis
      by (simp add: word_less_nat_alt word_le_nat_alt x_def y_def unat_div)
  qed
  ultimately show ?thesis by (simp add: x_def y_def)
qed

lemma timer_insert_sorted:
  assumes "\<forall>t\<in>insert h (set ts). time_left now tk t < 0x7FFFFFFF"
    and "sorted (map (time_left now tk) ts)"
  shows "sorted (map (time_left now tk) (timer_insert tk h ts))"
  using assms
proof (induction ts)
  case (Cons t ts)
  have ord: "tk t - tk h < RT_TICK_MAX div 2 \<longleftrightarrow> time_left now tk h \<le> time_left now tk t"
    using tick_order [of "tk h" now "tk t"] Cons.prems(1) by (simp add: time_left_def)
  have "tk t - tk h = 0 \<Longrightarrow> time_left now tk t = time_left now tk h"
    by (simp add: time_left_def)
  with ord Cons show ?case by auto
qed simp

end
