(* ===== verification/State.thy ===== *)
theory State
  imports Rtos
begin

text \<open>
  The state of the firmware: one record per group of C globals, and the record \<open>sys\<close> that
  holds them all with the kernel objects and the environment (input pins, ADC readings, received
  bytes, the tick counter). Field names are the C names. Two components are ghosts: \<open>faults\<close>
  collects what the C program does outside its arrays, its assertions and its pointers, and
  \<open>pin_log\<close> and \<open>uart_tx\<close> record outputs in order, newest first.
\<close>

section \<open>Faults\<close>

datatype fault =
    BufOverflow string nat nat   \<comment> \<open>array, its size in bytes, bytes written by \<open>sprintf\<close>\<close>
  | BadIndex string nat          \<comment> \<open>array, index past its end\<close>
  | AssertFail string            \<comment> \<open>failed \<open>RT_ASSERT\<close> in the named kernel call\<close>
  | Endless string               \<comment> \<open>a loop of the named function that does not end\<close>
  | OutOfFuel                    \<comment> \<open>the model's bound on nested window calls was hit (it never is)\<close>

section \<open>Pins and board\<close>

datatype pin_mode_t = PIN_MODE_OUTPUT | PIN_MODE_INPUT | PIN_MODE_AF | PIN_MODE_ANALOG
datatype irq_handler = Delta_press_irq | button_wakeup_irq

record board_st =
  pin_mode :: "nat \<Rightarrow> pin_mode_t"
  pin_out :: "nat \<Rightarrow> u8"
  pin_in :: "nat \<Rightarrow> u8"
  pin_irq :: "nat \<Rightarrow> irq_handler option"
  pin_irq_on :: "nat \<Rightarrow> bool"
  pin_log :: "(nat \<times> u8) list"
  clk_spi2 :: bool
  clk_adc :: bool
  clk_usart2 :: bool
  adc_val :: "u8 \<Rightarrow> u32"
  tick_now :: u32
  cpu_reset :: bool

section \<open>Keys (DeviceInit.c, LowPower.c)\<close>

record key_st =
  K0_Sem :: rt_semaphore
  K1_Sem :: rt_semaphore
  K2_Sem :: rt_semaphore
  K2_Long_Sem :: rt_semaphore
  K2_Long_Counter :: u8
  K2_Long_Flag :: u8
  Delta_press_work_Flag :: u8
  Button_Wakeup_Flag :: u8

section \<open>Timers (handles; \<open>None\<close> is \<open>RT_NULL\<close>)\<close>

record timers_st =
  tsys :: timer_sys
  Screen_Backlight_Timer :: "nat option"
  Screen_Vcc_Timer :: "nat option"
  Moto_Cycle_Timer :: "nat option"
  SemJump_Timer :: "nat option"
  LowPowerTimer :: "nat option"

section \<open>Settings and counters (lcd_display.c)\<close>

record settings_st =
  Reminder_Week :: u8
  Reminder_Day :: u8
  Reminder_Enable :: u8
  Automatic_Week :: u8
  Automatic_Day :: u8
  Automatic_Enable :: u8
  Deltapress_Enable :: u8
  Counter_Manual :: u16
  Counter_Automatic :: u16
  Counter_Deltapress :: u16
  Counter_Error :: u16
  Setting_Deltapress :: u8
  Setting_Hardness :: u32
  Setting_Backwashtime :: u16
  Setting_Language :: u8

section \<open>Values being edited in a window (lcd_display.c)\<close>

record edit_st =
  Reminder_Week_Temp :: u8
  Reminder_Day_Temp :: u8
  Reminder_Enable_Temp :: u8
  Automatic_Week_Temp :: u8
  Automatic_Day_Temp :: u8
  Automatic_Enable_Temp :: u8
  Deltapress_Enable_Temp :: u8
  Set_Delta_Temp :: u8
  Set_Hardness_Temp :: u16
  Set_Backwash_Temp :: u16
  Set_Language_Temp :: u8
  Tds_Password :: u8
  Tds_Password_Temp :: u8
  TdsValueOffsetTemp :: u16

section \<open>Display (lkdGui, lcd_display.c, 12864.c)\<close>

record lkdButton =
  btn_x :: int
  btn_y :: int
  btn_wide :: u8
  btn_high :: u8
  btn_flag :: u8
  btn_name :: string
  btn_linesize :: u8

record lkdScroll =
  scr_x :: int
  scr_y :: int
  scr_hight :: int
  scr_max :: int
  scr_lump :: int

record lkdWin =
  win_x :: int
  win_y :: int
  win_wide :: int
  win_hight :: int
  win_title :: "string option"

datatype FontFlag = FONT_LEFT | FONT_MID | FONT_RIGHT

text \<open>
  \<open>x_to_page\<close> is the frame buffer, 128 columns of 8 pages; \<open>pZmBuff\<close> the 24 bytes of the
  font driver.
\<close>

record ui_st =
  FirstFlag :: "nat \<Rightarrow> u8"
  NowButtonId :: u8
  NowSetting :: u8
  NowWinid :: u8
  Win1PageID :: u8
  Win14PageID :: u8
  Jump_Flag :: u8
  K0_Status :: int
  K1_Status :: int
  K2_Status :: int
  K2_Long_Status :: int
  tButton :: "nat \<Rightarrow> lkdButton"
  tScroll :: "nat \<Rightarrow> lkdScroll"
  userMainWin :: "nat \<Rightarrow> lkdWin"
  winStack :: "nat \<Rightarrow> nat"
  pWin :: u8
  forecolor :: u8
  backcolor :: u8
  x_to_page :: "nat \<Rightarrow> nat \<Rightarrow> u8"
  pZmBuff :: "u8 list"
  LCD_Flag :: u8

record jump_st =
  JumptoReminderFlag :: u8
  JumpToBatteryEmptyFlag :: u8
  JumpToBatteryNewFlag :: u8
  JumptoAutomaticFlag :: u8
  lcd_jump_event :: rt_event

section \<open>Motor, clock, battery, water sensor\<close>

record moto_st =
  MotoWorkFlag :: u8
  Moto_Event :: rt_event
  Left_Status :: u8
  Right_Status :: u8

record rtc_st =
  RTC_Event_Flag :: u8
  RTC_Reminder_Time :: u32
  RTC_Automatic_Time :: u32
  Reminder_Time :: u32
  Automatic_Time :: u32
  RTC_Check_Sem :: rt_semaphore

record bat_st =
  NowBatVol :: u32
  PastBatVol :: u32
  LowVoltageFlag :: u8

record tds_st =
  data_parsing_id :: u8
  tds_data :: "nat \<Rightarrow> u8"
  TDS_Value :: u32
  uart_rx :: "u8 list"
  uart_tx :: "u8 list list"

section \<open>Environment variables in flash (EasyFlash)\<close>

text \<open>
  The contents of the ENV area as its API shows them. \<open>init_ok\<close> is EasyFlash's own flag;
  \<open>env_room\<close> says whether the next write finds space in the area.
\<close>

record env_st =
  env_kv :: "string \<Rightarrow> string option"
  init_ok :: bool
  env_room :: bool
  key_addr :: "nat \<Rightarrow> u32"

section \<open>The whole system\<close>

record sys =
  board :: board_st
  kys :: key_st
  tmr :: timers_st
  cfg :: settings_st
  edt :: edit_st
  ui :: ui_st
  jmp :: jump_st
  moto :: moto_st
  rtc :: rtc_st
  bat :: bat_st
  tds :: tds_st
  flash :: env_st
  faults :: "fault list"

type_synonym stmt = "sys \<Rightarrow> sys"

definition add_fault :: "fault \<Rightarrow> stmt" where
  "add_fault f = faults_update (\<lambda>fs. f # fs)"

end
