(* ===== verification/Board.thy ===== *)
theory Board
  imports State
begin

text \<open>
  Board level: pins, LEDs, ADC channels, the two screen timers and the display power states,
  from \<open>device/pin_config.h\<close>, \<open>device/DeviceInit.c\<close>, \<open>device/AdcWork.c\<close> and
  \<open>lcd/12864.c\<close>, with the bit-level transmission of a byte to the display controller.
\<close>

section \<open>pin_config.h\<close>

abbreviation LED_R_PIN :: nat where "LED_R_PIN \<equiv> 21"
abbreviation LED_G_PIN :: nat where "LED_G_PIN \<equiv> 22"
abbreviation LED_B_PIN :: nat where "LED_B_PIN \<equiv> 20"
abbreviation LCD_BL :: nat where "LCD_BL \<equiv> 42"
abbreviation LCD_CS :: nat where "LCD_CS \<equiv> 50"
abbreviation LCD_RST :: nat where "LCD_RST \<equiv> 19"
abbreviation LCD_SDA :: nat where "LCD_SDA \<equiv> 43"
abbreviation LCD_CLK :: nat where "LCD_CLK \<equiv> 44"
abbreviation LCD_EN :: nat where "LCD_EN \<equiv> 15"
abbreviation K0_PIN :: nat where "K0_PIN \<equiv> 18"
abbreviation K1_PIN :: nat where "K1_PIN \<equiv> 26"
abbreviation K2_PIN :: nat where "K2_PIN \<equiv> 27"
abbreviation MOTO_MODE :: nat where "MOTO_MODE \<equiv> 5"
abbreviation MOTO_VCC :: nat where "MOTO_VCC \<equiv> 4"
abbreviation MOTO_IN1 :: nat where "MOTO_IN1 \<equiv> 6"
abbreviation MOTO_IN2 :: nat where "MOTO_IN2 \<equiv> 7"
abbreviation MOTO_LEFT :: nat where "MOTO_LEFT \<equiv> 24"
abbreviation MOTO_RIGHT :: nat where "MOTO_RIGHT \<equiv> 25"
abbreviation FLASH_MOSI :: nat where "FLASH_MOSI \<equiv> 31"
abbreviation FLASH_MISO :: nat where "FLASH_MISO \<equiv> 30"
abbreviation FLASH_SCLK :: nat where "FLASH_SCLK \<equiv> 29"
abbreviation FLASH_CS :: nat where "FLASH_CS \<equiv> 28"
abbreviation FLASH_EN :: nat where "FLASH_EN \<equiv> 38"
abbreviation ADC_BAT :: nat where "ADC_BAT \<equiv> 34"
abbreviation ADC_DC :: nat where "ADC_DC \<equiv> 33"
abbreviation ADC_MOTO :: nat where "ADC_MOTO \<equiv> 17"
abbreviation TDS_EN :: nat where "TDS_EN \<equiv> 1"
abbreviation WIFI_EN :: nat where "WIFI_EN \<equiv> 41"
abbreviation WIFI_RST :: nat where "WIFI_RST \<equiv> 8"
abbreviation WATER_FLOW :: nat where "WATER_FLOW \<equiv> 35"

section \<open>Pin driver\<close>

definition rt_pin_write :: "nat \<Rightarrow> u8 \<Rightarrow> stmt" where
  "rt_pin_write p v = board_update (\<lambda>b. b\<lparr>pin_out := (pin_out b)(p := v), pin_log := (p, v) # pin_log b\<rparr>)"

definition rt_pin_mode :: "nat \<Rightarrow> pin_mode_t \<Rightarrow> stmt" where
  "rt_pin_mode p m = board_update (pin_mode_update (\<lambda>f. f(p := m)))"

definition rt_pin_read :: "nat \<Rightarrow> sys \<Rightarrow> u8" where
  "rt_pin_read p s = pin_in (board s) p"

definition rt_pin_attach_irq :: "nat \<Rightarrow> irq_handler \<Rightarrow> stmt" where
  "rt_pin_attach_irq p h = board_update (pin_irq_update (\<lambda>f. f(p \<mapsto> h)))"

definition rt_pin_irq_enable :: "nat \<Rightarrow> stmt" where
  "rt_pin_irq_enable p = board_update (pin_irq_on_update (\<lambda>f. f(p := True)))"

lemmas pin_defs = rt_pin_write_def rt_pin_mode_def rt_pin_read_def rt_pin_attach_irq_def
  rt_pin_irq_enable_def

section \<open>LEDs (DeviceInit.c): active low\<close>

definition Led_Init :: stmt where
  "Led_Init = block [
     rt_pin_mode LED_G_PIN PIN_MODE_OUTPUT, rt_pin_write LED_G_PIN 1,
     rt_pin_mode LED_R_PIN PIN_MODE_OUTPUT, rt_pin_write LED_R_PIN 1,
     rt_pin_mode LED_B_PIN PIN_MODE_OUTPUT, rt_pin_write LED_B_PIN 1]"

definition Led_DeInit :: stmt where
  "Led_DeInit = block [
     rt_pin_mode LED_G_PIN PIN_MODE_OUTPUT, rt_pin_write LED_G_PIN 1,
     rt_pin_mode LED_R_PIN PIN_MODE_OUTPUT, rt_pin_write LED_R_PIN 1,
     rt_pin_mode LED_B_PIN PIN_MODE_OUTPUT, rt_pin_write LED_B_PIN 1]"

definition Red_Off :: stmt where
  "Red_Off = rt_pin_write LED_R_PIN 1"

definition Green_Off :: stmt where
  "Green_Off = rt_pin_write LED_G_PIN 1"

definition Green_Light :: stmt where
  "Green_Light = block [Red_Off, rt_pin_write LED_G_PIN 0]"

definition Red_Light :: stmt where
  "Red_Light = block [Green_Off, rt_pin_write LED_R_PIN 0]"

definition Blue_Light :: stmt where
  "Blue_Light = rt_pin_write LED_B_PIN 0"

definition Blue_Off :: stmt where
  "Blue_Off = rt_pin_write LED_B_PIN 1"

definition Light_Red :: stmt where
  "Light_Red = block [
     rt_pin_mode LED_G_PIN PIN_MODE_OUTPUT, rt_pin_write LED_G_PIN 1,
     rt_pin_mode LED_R_PIN PIN_MODE_OUTPUT, rt_pin_write LED_R_PIN 0]"

definition Light_BackLight :: stmt where
  "Light_BackLight = block [rt_pin_mode LCD_BL PIN_MODE_OUTPUT, rt_pin_write LCD_BL 1]"

lemmas led_defs = Led_Init_def Led_DeInit_def Red_Off_def Green_Off_def Green_Light_def
  Red_Light_def Blue_Light_def Blue_Off_def

section \<open>ADC (AdcWork.c)\<close>

text \<open>The sampling loop runs once, so the sum is the one reading.\<close>

definition Get_Adc_Value :: "u8 \<Rightarrow> sys \<Rightarrow> u32" where
  "Get_Adc_Value channel s = 0 + adc_val (board s) channel"

definition Get_DC_Level :: "sys \<Rightarrow> u8" where
  "Get_DC_Level s = (if Get_Adc_Value 2 s > 3000 then 1 else 0)"

definition Get_Bat_Value :: "sys \<Rightarrow> u32" where
  "Get_Bat_Value s = Get_Adc_Value 3 s"

definition Get_Moto_Value :: "sys \<Rightarrow> u32" where
  "Get_Moto_Value s = Get_Adc_Value 16 s"

text \<open>Pins of port B and C in the driver's numbering: PC1 is 33, PC2 is 34, PB1 is 17.\<close>

definition ADC_Pin_Init :: stmt where
  "ADC_Pin_Init = block [
     board_update (clk_adc_update (\<lambda>_. True)),
     rt_pin_mode ADC_DC PIN_MODE_ANALOG, rt_pin_mode ADC_BAT PIN_MODE_ANALOG,
     rt_pin_mode ADC_MOTO PIN_MODE_ANALOG]"

definition ADC_Pin_DeInit :: stmt where
  "ADC_Pin_DeInit = block [
     board_update (clk_adc_update (\<lambda>_. False)),
     rt_pin_mode ADC_BAT PIN_MODE_INPUT,
     rt_pin_mode ADC_DC PIN_MODE_INPUT,
     rt_pin_mode ADC_MOTO PIN_MODE_INPUT]"

lemmas adc_defs = Get_Adc_Value_def Get_DC_Level_def Get_Bat_Value_def Get_Moto_Value_def

section \<open>Timers of the application\<close>

definition timer_start :: "(timers_st \<Rightarrow> nat option) \<Rightarrow> stmt" where
  "timer_start sel s =
     (case sel (tmr s) of None \<Rightarrow> add_fault (AssertFail ''rt_timer_start'') s
      | Some h \<Rightarrow> (case rt_timer_start (tick_now (board s)) h (tsys (tmr s)) of
            None \<Rightarrow> add_fault (AssertFail ''rt_timer_start'') s
          | Some ts \<Rightarrow> tmr_update (tsys_update (\<lambda>_. ts)) s))"

definition timer_stop :: "(timers_st \<Rightarrow> nat option) \<Rightarrow> stmt" where
  "timer_stop sel s =
     (case sel (tmr s) of None \<Rightarrow> add_fault (AssertFail ''rt_timer_stop'') s
      | Some h \<Rightarrow> (case rt_timer_stop h (tsys (tmr s)) of
            None \<Rightarrow> add_fault (AssertFail ''rt_timer_stop'') s
          | Some (r, ts) \<Rightarrow> tmr_update (tsys_update (\<lambda>_. ts)) s))"

definition timer_set_time :: "(timers_st \<Rightarrow> nat option) \<Rightarrow> u32 \<Rightarrow> stmt" where
  "timer_set_time sel v s =
     (case sel (tmr s) of None \<Rightarrow> add_fault (AssertFail ''rt_timer_control'') s
      | Some h \<Rightarrow> (case rt_timer_set_time h v (tsys (tmr s)) of
            None \<Rightarrow> add_fault (AssertFail ''rt_timer_control'') s
          | Some ts \<Rightarrow> tmr_update (tsys_update (\<lambda>_. ts)) s))"

definition timer_create ::
  "((nat option \<Rightarrow> nat option) \<Rightarrow> timers_st \<Rightarrow> timers_st) \<Rightarrow> timer_fun \<Rightarrow> u32 \<Rightarrow> stmt" where
  "timer_create upd f time s =
     (case rt_timer_create f time (tsys (tmr s)) of
        (h, ts) \<Rightarrow> tmr_update (\<lambda>t. upd (\<lambda>_. h) (t\<lparr>tsys := ts\<rparr>)) s)"

definition SreenTimerInit :: stmt where
  "SreenTimerInit = block [
     timer_create Screen_Backlight_Timer_update LcdBacklightTimerCallback (30 * 1000),
     whenS (\<lambda>s. Screen_Backlight_Timer (tmr s) \<noteq> None) (timer_start Screen_Backlight_Timer),
     timer_create Screen_Vcc_Timer_update LcdVccTimerCallback (60 * 1000),
     whenS (\<lambda>s. Screen_Vcc_Timer (tmr s) \<noteq> None) (timer_start Screen_Vcc_Timer)]"

definition ScreenTimerStop :: stmt where
  "ScreenTimerStop = block [timer_stop Screen_Backlight_Timer, timer_stop Screen_Vcc_Timer]"

definition ScreenTimerRefresh :: stmt where
  "ScreenTimerRefresh = block [timer_start Screen_Backlight_Timer, timer_start Screen_Vcc_Timer]"

section \<open>Display power and commands (12864.c)\<close>

text \<open>Field assignments of the display state.\<close>

abbreviation ui_set :: "((('a \<Rightarrow> 'a) \<Rightarrow> ui_st \<Rightarrow> ui_st)) \<Rightarrow> 'a \<Rightarrow> stmt" where
  "ui_set upd v \<equiv> ui_update (upd (\<lambda>_. v))"

text \<open>
  A byte goes out bit by bit, most significant bit first: the clock pin goes low, the data pin
  takes the bit, the clock pin goes high. The level of \<open>LCD_CS\<close> tells commands (low) from data
  (high).
\<close>

definition lcd_bit :: "u8 \<Rightarrow> stmt" where
  "lcd_bit b = block [
     rt_pin_write LCD_CLK 0,
     ifS (\<lambda>_. b AND 0x80 \<noteq> 0) (rt_pin_write LCD_SDA 1) (rt_pin_write LCD_SDA 0),
     rt_pin_write LCD_CLK 1]"

primrec lcd_shift :: "nat \<Rightarrow> u8 \<Rightarrow> stmt" where
  "lcd_shift 0 b = (\<lambda>s. s)"
| "lcd_shift (Suc n) b = block [lcd_bit b, lcd_shift n (push_bit 1 b)]"

definition WriteLcdCommand :: "u8 \<Rightarrow> stmt" where
  "WriteLcdCommand cmd = block [rt_pin_write LCD_CS 0, lcd_shift 8 cmd]"

definition WriteLcdData :: "u8 \<Rightarrow> stmt" where
  "WriteLcdData data = block [rt_pin_write LCD_CS 1, lcd_shift 8 data]"

definition SetLcdRow :: "u8 \<Rightarrow> stmt" where
  "SetLcdRow row = WriteLcdCommand (0xb0 + row)"

definition SetLcdCol :: "u8 \<Rightarrow> stmt" where
  "SetLcdCol col = block [
     WriteLcdCommand ((drop_bit 4 col AND 0x0f) + 0x10),
     WriteLcdCommand (col AND 0x0f)]"

definition lcd_address :: "u8 \<Rightarrow> u8 \<Rightarrow> stmt" where
  "lcd_address page column = block [
     WriteLcdCommand (0xb0 + page),
     WriteLcdCommand ((drop_bit 4 column AND 0x0f) + 0x10),
     WriteLcdCommand (column AND 0x0f)]"

definition fill_page :: "u8 \<Rightarrow> u8 \<Rightarrow> stmt" where
  "fill_page v i = block (lcd_address i 0 # replicate 128 (WriteLcdData v))"

definition clear_screen :: stmt where
  "clear_screen = block (map (fill_page 0) [0, 1, 2, 3, 4, 5, 6, 7])"

definition full_screen :: stmt where
  "full_screen = block (map (fill_page 0xff) [0, 1, 2, 3, 4, 5, 6, 7])"

definition LcdGpioConfig :: stmt where
  "LcdGpioConfig = block [
     rt_pin_mode LCD_BL PIN_MODE_OUTPUT, rt_pin_mode LCD_CS PIN_MODE_OUTPUT,
     rt_pin_mode LCD_RST PIN_MODE_OUTPUT, rt_pin_mode LCD_SDA PIN_MODE_OUTPUT,
     rt_pin_mode LCD_CLK PIN_MODE_OUTPUT, rt_pin_mode LCD_EN PIN_MODE_OUTPUT,
     rt_pin_write LCD_EN 1,
     rt_pin_write LCD_BL 1]"

definition testgpio :: stmt where
  "testgpio = block [
     rt_pin_mode LCD_BL PIN_MODE_OUTPUT, rt_pin_mode LCD_CS PIN_MODE_OUTPUT,
     rt_pin_mode LCD_RST PIN_MODE_OUTPUT, rt_pin_mode LCD_SDA PIN_MODE_OUTPUT,
     rt_pin_mode LCD_CLK PIN_MODE_OUTPUT, rt_pin_mode LCD_EN PIN_MODE_OUTPUT,
     rt_pin_write LCD_BL 0, rt_pin_write LCD_CS 1, rt_pin_write LCD_RST 1,
     rt_pin_write LCD_SDA 1, rt_pin_write LCD_CLK 1, rt_pin_write LCD_EN 1]"

definition LcdInit :: stmt where
  "LcdInit = block [
     rt_pin_write LCD_EN 1,
     LcdGpioConfig,
     rt_pin_write LCD_RST 0,
     rt_pin_write LCD_RST 1,
     WriteLcdCommand 0xe2,
     WriteLcdCommand 0x2c,
     WriteLcdCommand 0x2e,
     WriteLcdCommand 0x2f,
     WriteLcdCommand 0x24, WriteLcdCommand 0x81, WriteLcdCommand 0x15,
     WriteLcdCommand 0xa2, WriteLcdCommand 0xc8, WriteLcdCommand 0xa0,
     WriteLcdCommand 0x40, WriteLcdCommand 0xaf,
     clear_screen,
     rt_pin_write LCD_BL 1]"

definition display_test :: stmt where
  "display_test = block [LcdInit, full_screen]"

definition OpenLcdDisplay :: stmt where
  "OpenLcdDisplay = switchS (\<lambda>s. LCD_Flag (ui s)) [
     (1, ui_set LCD_Flag_update 0),
     (2, block [ui_set LCD_Flag_update 1, rt_pin_write LCD_BL 1]),
     (3, block [ui_set LCD_Flag_update 1, LcdInit])] (\<lambda>s. s)"

definition LcdDeinit :: stmt where
  "LcdDeinit = block [rt_pin_mode LCD_EN PIN_MODE_OUTPUT, rt_pin_write LCD_EN 0]"

definition CloseLcdVcc :: stmt where
  "CloseLcdVcc = block [
     ui_set LCD_Flag_update 3,
     rt_pin_mode LCD_EN PIN_MODE_OUTPUT, rt_pin_write LCD_EN 0,
     rt_pin_write LCD_CS 0, rt_pin_write LCD_RST 0,
     rt_pin_mode LCD_SDA PIN_MODE_OUTPUT, rt_pin_write LCD_SDA 0,
     rt_pin_write LCD_CLK 0]"

definition CloseLcdBacklight :: stmt where
  "CloseLcdBacklight = block [ui_set LCD_Flag_update 2, rt_pin_write LCD_BL 0]"

end
