(* ===== verification/EfUtils.thy ===== *)
theory EfUtils
  imports Prelude
begin

text \<open>
  The error codes of EasyFlash and its checksum, \<open>ef_utils.c\<close>: the table, \<open>ef_calc_crc32\<close>, and the proof
  that the table-driven routine is the bit-serial CRC-32 (reflected polynomial
  \<open>0xEDB88320\<close>) and that a buffer may be fed to it in pieces.
\<close>

unbundle bit_operations_syntax

datatype EfErrCode = EF_NO_ERR | EF_ERASE_ERR | EF_READ_ERR | EF_WRITE_ERR | EF_ENV_NAME_ERR
  | EF_ENV_NAME_EXIST | EF_ENV_FULL | EF_ENV_INIT_FAILED

abbreviation EF_ENV_NAME_MAX :: nat where "EF_ENV_NAME_MAX \<equiv> 128"
abbreviation EF_STR_ENV_VALUE_MAX_SIZE :: nat where "EF_STR_ENV_VALUE_MAX_SIZE \<equiv> 128"

section \<open>The routine (ef_utils.c)\<close>

definition crc32_table :: "u32 list" where
  "crc32_table = [
     0x00000000, 0x77073096, 0xee0e612c, 0x990951ba, 0x076dc419, 0x706af48f, 0xe963a535, 0x9e6495a3,
     0x0edb8832, 0x79dcb8a4, 0xe0d5e91e, 0x97d2d988, 0x09b64c2b, 0x7eb17cbd, 0xe7b82d07, 0x90bf1d91,
     0x1db71064, 0x6ab020f2, 0xf3b97148, 0x84be41de, 0x1adad47d, 0x6ddde4eb, 0xf4d4b551, 0x83d385c7,
     0x136c9856, 0x646ba8c0, 0xfd62f97a, 0x8a65c9ec, 0x14015c4f, 0x63066cd9, 0xfa0f3d63, 0x8d080df5,
     0x3b6e20c8, 0x4c69105e, 0xd56041e4, 0xa2677172, 0x3c03e4d1, 0x4b04d447, 0xd20d85fd, 0xa50ab56b,
     0x35b5a8fa, 0x42b2986c, 0xdbbbc9d6, 0xacbcf940, 0x32d86ce3, 0x45df5c75, 0xdcd60dcf, 0xabd13d59,
     0x26d930ac, 0x51de003a, 0xc8d75180, 0xbfd06116, 0x21b4f4b5, 0x56b3c423, 0xcfba9599, 0xb8bda50f,
     0x2802b89e, 0x5f058808, 0xc60cd9b2, 0xb10be924, 0x2f6f7c87, 0x58684c11, 0xc1611dab, 0xb6662d3d,
     0x76dc4190, 0x01db7106, 0x98d220bc, 0xefd5102a, 0x71b18589, 0x06b6b51f, 0x9fbfe4a5, 0xe8b8d433,
     0x7807c9a2, 0x0f00f934, 0x9609a88e, 0xe10e9818, 0x7f6a0dbb, 0x086d3d2d, 0x91646c97, 0xe6635c01,
     0x6b6b51f4, 0x1c6c6162, 0x856530d8, 0xf262004e, 0x6c0695ed, 0x1b01a57b, 0x8208f4c1, 0xf50fc457,
     0x65b0d9c6, 0x12b7e950, 0x8bbeb8ea, 0xfcb9887c, 0x62dd1ddf, 0x15da2d49, 0x8cd37cf3, 0xfbd44c65,
     0x4db26158, 0x3ab551ce, 0xa3bc0074, 0xd4bb30e2, 0x4adfa541, 0x3dd895d7, 0xa4d1c46d, 0xd3d6f4fb,
     0x4369e96a, 0x346ed9fc, 0xad678846, 0xda60b8d0, 0x44042d73, 0x33031de5, 0xaa0a4c5f, 0xdd0d7cc9,
     0x5005713c, 0x270241aa, 0xbe0b1010, 0xc90c2086, 0x5768b525, 0x206f85b3, 0xb966d409, 0xce61e49f,
     0x5edef90e, 0x29d9c998, 0xb0d09822, 0xc7d7a8b4, 0x59b33d17, 0x2eb40d81, 0xb7bd5c3b, 0xc0ba6cad,
     0xedb88320, 0x9abfb3b6, 0x03b6e20c, 0x74b1d29a, 0xead54739, 0x9dd277af, 0x04db2615, 0x73dc1683,
     0xe3630b12, 0x94643b84, 0x0d6d6a3e, 0x7a6a5aa8, 0xe40ecf0b, 0x9309ff9d, 0x0a00ae27, 0x7d079eb1,
     0xf00f9344, 0x8708a3d2, 0x1e01f268, 0x6906c2fe, 0xf762575d, 0x806567cb, 0x196c3671, 0x6e6b06e7,
     0xfed41b76, 0x89d32be0, 0x10da7a5a, 0x67dd4acc, 0xf9b9df6f, 0x8ebeeff9, 0x17b7be43, 0x60b08ed5,
     0xd6d6a3e8, 0xa1d1937e, 0x38d8c2c4, 0x4fdff252, 0xd1bb67f1, 0xa6bc5767, 0x3fb506dd, 0x48b2364b,
     0xd80d2bda, 0xaf0a1b4c, 0x36034af6, 0x41047a60, 0xdf60efc3, 0xa867df55, 0x316e8eef, 0x4669be79,
     0xcb61b38c, 0xbc66831a, 0x256fd2a0, 0x5268e236, 0xcc0c7795, 0xbb0b4703, 0x220216b9, 0x5505262f,
     0xc5ba3bbe, 0xb2bd0b28, 0x2bb45a92, 0x5cb36a04, 0xc2d7ffa7, 0xb5d0cf31, 0x2cd99e8b, 0x5bdeae1d,
     0x9b64c2b0, 0xec63f226, 0x756aa39c, 0x026d930a, 0x9c0906a9, 0xeb0e363f, 0x72076785, 0x05005713,
     0x95bf4a82, 0xe2b87a14, 0x7bb12bae, 0x0cb61b38, 0x92d28e9b, 0xe5d5be0d, 0x7cdcefb7, 0x0bdbdf21,
     0x86d3d2d4, 0xf1d4e242, 0x68ddb3f8, 0x1fda836e, 0x81be16cd, 0xf6b9265b, 0x6fb077e1, 0x18b74777,
     0x88085ae6, 0xff0f6a70, 0x66063bca, 0x11010b5c, 0x8f659eff, 0xf862ae69, 0x616bffd3, 0x166ccf45,
     0xa00ae278, 0xd70dd2ee, 0x4e048354, 0x3903b3c2, 0xa7672661, 0xd06016f7, 0x4969474d, 0x3e6e77db,
     0xaed16a4a, 0xd9d65adc, 0x40df0b66, 0x37d83bf0, 0xa9bcae53, 0xdebb9ec5, 0x47b2cf7f, 0x30b5ffe9,
     0xbdbdf21c, 0xcabac28a, 0x53b39330, 0x24b4a3a6, 0xbad03605, 0xcdd70693, 0x54de5729, 0x23d967bf,
     0xb3667a2e, 0xc4614ab8, 0x5d681b02, 0x2a6f2b94, 0xb40bbe37, 0xc30c8ea1, 0x5a05df1b, 0x2d02ef8d]"

text \<open>The turn of the \<open>while\<close> loop for one byte, and the routine.\<close>

definition crc32_byte :: "u32 \<Rightarrow> u8 \<Rightarrow> u32" where
  "crc32_byte crc p = crc32_table ! unat ((crc XOR ucast p) AND 0xFF) XOR drop_bit 8 crc"

definition ef_calc_crc32 :: "u32 \<Rightarrow> u8 list \<Rightarrow> u32" where
  "ef_calc_crc32 crc buf = foldl crc32_byte (crc XOR NOT 0) buf XOR NOT 0"

section \<open>Reference: the shift register\<close>

definition crc_shift :: "u32 \<Rightarrow> u32" where
  "crc_shift r = (if bit r 0 then drop_bit 1 r XOR 0xEDB88320 else drop_bit 1 r)"

definition crc_serial :: "u32 \<Rightarrow> u8 \<Rightarrow> u32" where
  "crc_serial r b = (crc_shift ^^ 8) (r XOR ucast b)"

lemma crc_shift_xor: "crc_shift (a XOR b) = crc_shift a XOR crc_shift b"
  by (auto simp: crc_shift_def bit_simps intro!: bit_eqI)

lemma crc_shifts_xor: "(crc_shift ^^ n) (a XOR b) = (crc_shift ^^ n) a XOR (crc_shift ^^ n) b"
  by (induction n) (simp_all add: crc_shift_xor)

lemma bit_u32_less: "bit (r :: u32) k \<Longrightarrow> k < 32"
  using bit_imp_le_length [of r k] by simp

lemma crc_shift_push:
  assumes "0 < n" "n \<le> 8"
  shows "crc_shift (push_bit n (drop_bit 8 r)) = push_bit (n - 1) (drop_bit 8 r)"
proof (rule bit_eqI)
  fix k
  assume "possible_bit TYPE(u32) k"
  then have "k < 32" by simp
  with assms show "bit (crc_shift (push_bit n (drop_bit 8 r))) k \<longleftrightarrow> bit (push_bit (n - 1) (drop_bit 8 r)) k"
    using bit_u32_less [of r "9 + k - n"] by (auto simp: crc_shift_def bit_simps)
qed

lemma crc_shifts_high: "n \<le> 8 \<Longrightarrow> (crc_shift ^^ n) (push_bit 8 (drop_bit 8 r)) = push_bit (8 - n) (drop_bit 8 r)"
  by (induction n) (simp_all add: crc_shift_push Suc_diff_Suc)



fun table_from :: "u32 \<Rightarrow> u32 list \<Rightarrow> bool" where
  "table_from i [] = True"
| "table_from i (t # ts) = (crc_shift (crc_shift (crc_shift (crc_shift (crc_shift (crc_shift (crc_shift (crc_shift i))))))) = t
     \<and> table_from (i + 1) ts)"

lemma crc_table: "table_from 0 crc32_table"
  by (simp add: crc32_table_def crc_shift_def bit_0)
lemma table_from_nth: "table_from i ts \<Longrightarrow> k < length ts \<Longrightarrow> ts ! k = (crc_shift ^^ 8) (i + of_nat k)"
proof (induction ts arbitrary: i k)
  case (Cons t ts)
  then show ?case by (cases k) (auto simp: eval_nat_numeral add.assoc)
qed simp

lemma crc32_table_nth: "k < 256 \<Longrightarrow> crc32_table ! k = (crc_shift ^^ 8) (of_nat k)"
  using table_from_nth [OF crc_table, of k] by (simp add: crc32_table_def)

lemma crc32_byte_serial: "crc32_byte r b = crc_serial r b"
proof -
  define x where "x = r XOR ucast b"
  have lt: "unat (x AND 0xFF) < 256"
    using word_and_le1 [of x "0xFF"] by (simp add: word_le_nat_alt)
  have split: "x = (x AND 0xFF) XOR push_bit 8 (drop_bit 8 x)"
  proof -
    have m: "(0xFF :: u32) = mask 8" by (simp add: mask_eq_exp_minus_1)
    show ?thesis unfolding m by (rule bit_eqI) (auto simp: bit_simps)
  qed
  have "\<not> bit b (8 + n)" for n using bit_imp_le_length [of b "8 + n"] by auto
  then have "drop_bit 8 x = drop_bit 8 r" by (intro bit_eqI) (auto simp: x_def bit_simps)
  then have "crc_serial r b = (crc_shift ^^ 8) (x AND 0xFF) XOR drop_bit 8 r"
    using crc_shifts_high [of 8 x]
    crc_shifts_xor [of 8 "x AND 0xFF" "push_bit 8 (drop_bit 8 x)"] split
    by (simp add: crc_serial_def flip: x_def del: funpow.simps)
  with lt show ?thesis by (simp add: crc32_byte_def crc32_table_nth flip: x_def)
qed

lemma crc32_byte_eq: "crc32_byte = crc_serial"
  by (intro ext) (rule crc32_byte_serial)

section \<open>Pieces\<close>

lemma ef_calc_crc32_append: "ef_calc_crc32 (ef_calc_crc32 c xs) ys = ef_calc_crc32 c (xs @ ys)"
  by (simp add: ef_calc_crc32_def)

lemma ef_calc_crc32_Nil [simp]: "ef_calc_crc32 c [] = c"
  by (simp add: ef_calc_crc32_def)

text \<open>
  C20. The table-driven checksum of EasyFlash is the bit-serial CRC-32 (register complemented
  before and after, reflected polynomial \<open>0xEDB88320\<close>), for every start value and every
  buffer, and feeding a buffer in two pieces gives the same value as feeding it at once.
\<close>

theorem crc32_is_serial:
  "ef_calc_crc32 c (xs @ ys) = foldl crc_serial (c XOR NOT 0) (xs @ ys) XOR NOT 0 \<and>
   ef_calc_crc32 (ef_calc_crc32 c xs) ys = ef_calc_crc32 c (xs @ ys)"
  by (simp add: ef_calc_crc32_append) (simp add: ef_calc_crc32_def crc32_byte_eq)

end
