(* ===== verification/FlashWork.thy ===== *)
theory FlashWork
  imports Board EfUtils
begin

text \<open>
  Parameters in flash: \<open>device/FlashWork.c\<close> over the string API of EasyFlash
  (\<open>ef_get_env\<close>, \<open>ef_set_env\<close>). The ENV area is taken at the level of that API, as a
  map from names to values with the two conditions under which a write is refused.

  \<open>Flash_Get\<close> and \<open>Flash_Set\<close> pass \<open>(const char*)&Key_list[id]\<close>: the address of the
  table entry, not the string it points to. The name EasyFlash sees is therefore the bytes of
  the pointers stored from entry \<open>id\<close> on, up to the first zero byte. The model computes that
  name from the addresses the linker gives the literals (\<open>key_addr\<close>).
\<close>

section \<open>EasyFlash string API (ef_env.c)\<close>

definition ef_is_str :: "string \<Rightarrow> bool" where
  "ef_is_str v \<longleftrightarrow> list_all (\<lambda>c. 32 \<le> (of_char c :: nat) \<and> (of_char c :: nat) < 127) v"

definition ef_get_env_blob :: "string \<Rightarrow> nat \<Rightarrow> env_st \<Rightarrow> string" where
  "ef_get_env_blob key buf_len e =
     (if \<not> init_ok e then []
      else case env_kv e key of None \<Rightarrow> [] | Some v \<Rightarrow> take buf_len v)"

text \<open>\<open>None\<close> is a returned \<open>NULL\<close>.\<close>

definition ef_get_env :: "string \<Rightarrow> env_st \<Rightarrow> string option" where
  "ef_get_env key e =
     (let v = ef_get_env_blob key EF_STR_ENV_VALUE_MAX_SIZE e
      in if v = [] then None else if ef_is_str v then Some v else None)"

definition ef_set_env :: "string \<Rightarrow> string \<Rightarrow> env_st \<Rightarrow> EfErrCode \<times> env_st" where
  "ef_set_env key v e =
     (if \<not> init_ok e then (EF_ENV_INIT_FAILED, e)
      else if \<not> env_room e then (EF_ENV_FULL, e)
      else if length key > EF_ENV_NAME_MAX then (EF_ENV_NAME_ERR, e)
      else (EF_NO_ERR, e\<lparr>env_kv := (env_kv e)(key \<mapsto> v)\<rparr>))"

section \<open>FlashWork.c\<close>

text \<open>The names in \<open>Key_list\<close>, entries 0 to 18; entry 19 is a null pointer.\<close>

definition Key_list :: "string list" where
  "Key_list = [''boot_times'', ''Reminder_Week'', ''Reminder_Day'', ''Reminder_Enable'',
     ''Automatic_Week'', ''Automatic_Day'', ''Automatic_Enable'', ''Deltapress_Enable'',
     ''Counter_Manual'', ''Counter_Automatic'', ''Counter_Deltapress'', ''Counter_Error'',
     ''Setting_Deltapress'', ''Setting_Hardness'', ''Setting_Backwashtime'', ''Setting_Language'',
     ''RTC_Reminder_Time'', ''RTC_Automatic_Time'', ''TDS_Offset'']"

text \<open>The default set of \<open>ef_sfud_port.c\<close>: the same names, each with value 0.\<close>

definition default_env_set :: "(string \<times> string) list" where
  "default_env_set = map (\<lambda>k. (k, ''0'')) Key_list"

definition le_bytes :: "u32 \<Rightarrow> string" where
  "le_bytes w = map (\<lambda>i. char_of (unat (drop_bit (8 * i) w AND 0xFF))) [0, 1, 2, 3]"

definition key_str :: "(nat \<Rightarrow> u32) \<Rightarrow> nat \<Rightarrow> string" where
  "key_str ka i =
     takeWhile (\<lambda>c. (of_char c :: nat) \<noteq> 0) (concat (map (\<lambda>j. le_bytes (ka j)) [i..<19]))"

definition flash_key :: "nat \<Rightarrow> sys \<Rightarrow> string" where
  "flash_key i s = key_str (key_addr (flash s)) i"

text \<open>
  \<open>None\<close>: the name is not stored and the code writes through the null pointer it was given
  (\<open>Counter_Temp[0] = '0'\<close>).
\<close>

definition Flash_Get :: "nat \<Rightarrow> sys \<Rightarrow> u32 option" where
  "Flash_Get i s = (case ef_get_env (flash_key i s) (flash s) of
      None \<Rightarrow> None | Some v \<Rightarrow> Some (word_of_int (atol v)))"

definition Flash_Set :: "nat \<Rightarrow> u32 \<Rightarrow> stmt" where
  "Flash_Set i v s = flash_update (\<lambda>e. snd (ef_set_env (flash_key i s) (fmt_ld v) e)) s"

definition Flash_Factory :: stmt where
  "Flash_Factory = block (map (\<lambda>i. Flash_Set i 0) [0..<18])"

text \<open>\<open>boot_time\<close> uses the literal name; \<open>c_new_boot_times\<close> has 11 bytes.\<close>

definition boot_time :: "sys \<Rightarrow> sys option" where
  "boot_time s = (case ef_get_env ''boot_times'' (flash s) of
      None \<Rightarrow> None
    | Some v \<Rightarrow>
        (let n = word_of_int (atol v) + 1; txt = fmt_ld n;
             s1 = (if length txt + 1 > 11 then add_fault (BufOverflow ''c_new_boot_times'' 11 (length txt + 1)) s else s)
         in Some (flash_update (\<lambda>e. snd (ef_set_env ''boot_times'' txt e)) s1)))"

section \<open>Interface of the store\<close>

text \<open>
  What the parameter layer relies on: a good store gives back an accepted value under its name
  and keeps the others. Numbers stored as text through any such store round-trip.
\<close>

locale env_store =
  fixes get :: "string \<Rightarrow> 'e \<Rightarrow> string option"
    and put :: "string \<Rightarrow> string \<Rightarrow> 'e \<Rightarrow> 'e"
    and good :: "'e \<Rightarrow> bool"
    and okkey :: "string \<Rightarrow> bool"
    and okval :: "string \<Rightarrow> bool"
  assumes get_put: "good e \<Longrightarrow> okkey k \<Longrightarrow> okval v \<Longrightarrow> get k (put k v e) = Some v"
    and get_put_other: "k \<noteq> k' \<Longrightarrow> get k' (put k v e) = get k' e"
    and good_put: "good e \<Longrightarrow> good (put k v e)"
    and okval_num: "okval (fmt_ld n)"
begin

definition num_get :: "string \<Rightarrow> 'e \<Rightarrow> u32 option" where
  "num_get k e = map_option (\<lambda>v. word_of_int (atol v)) (get k e)"

lemma num_round_trip: "good e \<Longrightarrow> okkey k \<Longrightarrow> num_get k (put k (fmt_ld n) e) = Some n"
  by (simp add: num_get_def get_put okval_num atol_fmt_ld)

lemma num_get_put_other: "k \<noteq> k' \<Longrightarrow> num_get k' (put k v e) = num_get k' e"
  by (simp add: num_get_def get_put_other)

lemma good_fold_put: "good e \<Longrightarrow> good (fold (\<lambda>k. put k (fmt_ld n)) ks e)"
  by (induction ks arbitrary: e) (auto simp: good_put)

lemma num_get_fold_put:
  "good e \<Longrightarrow> list_all okkey ks \<Longrightarrow> k \<in> set ks \<Longrightarrow>
   num_get k (fold (\<lambda>k. put k (fmt_ld n)) ks e) = Some n"
proof (induction ks arbitrary: e rule: rev_induct)
  case Nil
  then show ?case by simp
next
  case (snoc k' ks)
  then have g: "good (fold (\<lambda>k. put k (fmt_ld n)) ks e)" by (simp add: good_fold_put)
  show ?case
  proof (cases "k = k'")
    case True
    with snoc.prems g show ?thesis by (simp add: num_round_trip)
  next
    case False
    with snoc show ?thesis by (simp add: num_get_put_other)
  qed
qed

end

section \<open>EasyFlash provides the interface\<close>

lemma fmt_ld_length: "length (fmt_ld v) \<le> 11"
proof -
  have "nat (- sint v) < 10 ^ 10" "nat (sint v) < 10 ^ 10"
    using sint_range32 [of v] by auto
  then have "length (dec_digits (nat (- sint v))) \<le> 10" "length (dec_digits (nat (sint v))) \<le> 10"
    by (auto intro: length_dec_digits_le)
  then show ?thesis by (auto simp: fmt_ld_def)
qed

lemma is_digit_printable: "is_digit c \<Longrightarrow> 32 \<le> (of_char c :: nat) \<and> (of_char c :: nat) < 127"
  by (simp add: is_digit_def)

lemma ef_is_str_fmt_ld: "ef_is_str (fmt_ld v)"
  using dec_digits_all [of "nat (- sint v)"] dec_digits_all [of "nat (sint v)"]
  by (auto simp: ef_is_str_def fmt_ld_def list_all_iff dest: is_digit_printable)

definition env_ready :: "env_st \<Rightarrow> bool" where
  "env_ready e \<longleftrightarrow> init_ok e \<and> env_room e"

interpretation ef: env_store ef_get_env "\<lambda>k v e. snd (ef_set_env k v e)" env_ready
  "\<lambda>k. length k \<le> EF_ENV_NAME_MAX"
  "\<lambda>v. v \<noteq> [] \<and> length v \<le> EF_STR_ENV_VALUE_MAX_SIZE \<and> ef_is_str v"
proof unfold_locales
  fix n
  show "fmt_ld n \<noteq> [] \<and> length (fmt_ld n) \<le> EF_STR_ENV_VALUE_MAX_SIZE \<and> ef_is_str (fmt_ld n)"
    using fmt_ld_length [of n] by (simp add: ef_is_str_fmt_ld)
qed (auto simp: ef_get_env_def ef_get_env_blob_def ef_set_env_def env_ready_def Let_def)

lemma Flash_Get_num: "Flash_Get i s = ef.num_get (flash_key i s) (flash s)"
  by (simp add: Flash_Get_def ef.num_get_def split: option.splits)

lemma key_str_length: "i \<le> 18 \<Longrightarrow> length (key_str ka i) \<le> EF_ENV_NAME_MAX"
proof -
  have "length (key_str ka i) \<le> length (concat (map (\<lambda>j. le_bytes (ka j)) [i..<19]))"
    unfolding key_str_def by (rule length_takeWhile_le)
  also have "\<dots> = 4 * (19 - i)"
    by (simp add: length_concat comp_def le_bytes_def sum_list_triv)
  finally show "length (key_str ka i) \<le> EF_ENV_NAME_MAX" by simp
qed

lemma flash_key_Flash_Set [simp]: "flash_key j (Flash_Set i v s) = flash_key j s"
  by (simp add: flash_key_def Flash_Set_def ef_set_env_def)

lemma env_ready_Flash_Set [simp]: "env_ready (flash (Flash_Set i v s)) = env_ready (flash s)"
  by (simp add: Flash_Set_def ef_set_env_def env_ready_def)

end
