(* ===== verification/Services.thy ===== *)
theory Services
  imports FlashWork
begin

text \<open>
  The small services the tasks share: requests to the display task (the \<open>Jumpto\<close> functions
  and the jump events of \<open>lcd/lcd_display.c\<close>), reading the parameters at start
  (\<open>GotValue\<close>), the water sensor (\<open>device/TdsWork.c\<close>), the backwash clock
  (\<open>device/RTCWork.c\<close>) and the battery watcher (\<open>device/Battery.c\<close>).
\<close>

section \<open>Jump requests (lcd_display.c)\<close>

abbreviation JUMP_TDS :: u32 where "JUMP_TDS \<equiv> 2"
abbreviation JUMP_STALLING :: u32 where "JUMP_STALLING \<equiv> 4"
abbreviation JUMP_FINISH :: u32 where "JUMP_FINISH \<equiv> 8"
abbreviation JUMP_NOMOTO :: u32 where "JUMP_NOMOTO \<equiv> 16"
abbreviation JUMP_EXIT :: u32 where "JUMP_EXIT \<equiv> 32"

definition lcd_jump_send :: "u32 \<Rightarrow> stmt" where
  "lcd_jump_send e = jmp_update (lcd_jump_event_update (\<lambda>ev. snd (snd (rt_event_send e ev))))"

definition Lcd_Event_Init :: stmt where
  "Lcd_Event_Init = jmp_update (lcd_jump_event_update (\<lambda>_. rt_event_init))"

definition jumpa :: stmt where
  "jumpa = lcd_jump_send JUMP_TDS"

definition jumpb :: stmt where
  "jumpb = block [
     cfg_update (Counter_Error_update (\<lambda>c. c + 1)),
     (\<lambda>s. Flash_Set 11 (ucast (Counter_Error (cfg s))) s),
     lcd_jump_send JUMP_STALLING]"

definition jumpc :: stmt where
  "jumpc = lcd_jump_send JUMP_FINISH"

definition jumpd :: stmt where
  "jumpd = block [
     cfg_update (Counter_Error_update (\<lambda>c. c + 1)),
     (\<lambda>s. Flash_Set 11 (ucast (Counter_Error (cfg s))) s),
     lcd_jump_send JUMP_NOMOTO]"

definition jumpe :: stmt where
  "jumpe = lcd_jump_send JUMP_EXIT"

definition JumptoReminder :: stmt where
  "JumptoReminder = jmp_update (JumptoReminderFlag_update (\<lambda>_. 1))"

definition JumpToBatteryEmpty :: stmt where
  "JumpToBatteryEmpty = jmp_update (JumpToBatteryEmptyFlag_update (\<lambda>_. 1))"

definition JumpToBatteryNew :: stmt where
  "JumpToBatteryNew = jmp_update (JumpToBatteryNewFlag_update (\<lambda>_. 1))"

definition JumptoAutomatic :: stmt where
  "JumptoAutomatic = block [
     cfg_update (Counter_Automatic_update (\<lambda>c. c + 1)),
     (\<lambda>s. Flash_Set 9 (ucast (Counter_Automatic (cfg s))) s),
     jmp_update (JumptoAutomaticFlag_update (\<lambda>_. 1))]"

section \<open>Reading the parameters (GotValue)\<close>

text \<open>Assign a parameter from flash; \<open>None\<close> is the null-pointer write of \<open>Flash_Get\<close>.\<close>

definition load :: "nat \<Rightarrow> (u32 \<Rightarrow> settings_st \<Rightarrow> settings_st) \<Rightarrow> sys \<Rightarrow> sys option" where
  "load i st s = map_option (\<lambda>v. cfg_update (st v) s) (Flash_Get i s)"

fun load_all :: "(nat \<times> (u32 \<Rightarrow> settings_st \<Rightarrow> settings_st)) list \<Rightarrow> sys \<Rightarrow> sys option" where
  "load_all [] s = Some s"
| "load_all ((i, st) # r) s = Option.bind (load i st s) (load_all r)"

definition GotValue_head :: "(nat \<times> (u32 \<Rightarrow> settings_st \<Rightarrow> settings_st)) list" where
  "GotValue_head = [
     (1, \<lambda>v. Reminder_Week_update (\<lambda>_. ucast v)),
     (2, \<lambda>v. Reminder_Day_update (\<lambda>_. ucast v)),
     (3, \<lambda>v. Reminder_Enable_update (\<lambda>_. ucast v)),
     (4, \<lambda>v. Automatic_Week_update (\<lambda>_. ucast v)),
     (5, \<lambda>v. Automatic_Day_update (\<lambda>_. ucast v)),
     (6, \<lambda>v. Automatic_Enable_update (\<lambda>_. ucast v)),
     (7, \<lambda>v. Deltapress_Enable_update (\<lambda>_. ucast v)),
     (8, \<lambda>v. Counter_Manual_update (\<lambda>_. ucast v)),
     (9, \<lambda>v. Counter_Automatic_update (\<lambda>_. ucast v)),
     (10, \<lambda>v. Counter_Deltapress_update (\<lambda>_. ucast v)),
     (11, \<lambda>v. Counter_Error_update (\<lambda>_. ucast v)),
     (12, \<lambda>v. Setting_Deltapress_update (\<lambda>_. ucast v)),
     (13, \<lambda>v. Setting_Hardness_update (\<lambda>_. v))]"

definition fix_hardness :: stmt where
  "fix_hardness = whenS (\<lambda>s. Setting_Hardness (cfg s) = 0 \<or> Setting_Backwashtime (cfg s) > 10000)
     (block [cfg_update (Setting_Hardness_update (\<lambda>_. 100)),
             (\<lambda>s. Flash_Set 13 (Setting_Hardness (cfg s)) s)])"

definition fix_backwashtime :: stmt where
  "fix_backwashtime = whenS (\<lambda>s. Setting_Backwashtime (cfg s) = 0 \<or> Setting_Backwashtime (cfg s) > 120)
     (block [cfg_update (Setting_Backwashtime_update (\<lambda>_. 30)),
             (\<lambda>s. Flash_Set 14 (ucast (Setting_Backwashtime (cfg s))) s)])"

definition GotValue :: "sys \<Rightarrow> sys option" where
  "GotValue s =
     Option.bind (load_all GotValue_head s) (\<lambda>s1.
     Option.bind (load 14 (\<lambda>v. Setting_Backwashtime_update (\<lambda>_. ucast v)) (fix_hardness s1)) (\<lambda>s2.
     load 15 (\<lambda>v. Setting_Language_update (\<lambda>_. ucast v)) (fix_backwashtime s2)))"

section \<open>Water sensor (TdsWork.c)\<close>

abbreviation DATA_CMD_BEGIN :: u8 where "DATA_CMD_BEGIN \<equiv> 0x55"
abbreviation ONE_DATA_MAXLEN :: u8 where "ONE_DATA_MAXLEN \<equiv> 11"

text \<open>
  The turn of the receive loop of \<open>data_parsing\<close> for one character. The product
  \<open>0.1 * TDS_Value\<close> truncated to \<open>int\<close> is division by ten for every 16-bit operand.
\<close>

definition data_parsing_step :: "u8 \<Rightarrow> stmt" where
  "data_parsing_step ch = block [
     (\<lambda>s. if data_parsing_id (tds s) < ONE_DATA_MAXLEN
          then tds_update (tds_data_update (\<lambda>d. d(unat (data_parsing_id (tds s)) := ch))) s
          else add_fault (BadIndex ''data'' (unat (data_parsing_id (tds s)))) s),
     tds_update (data_parsing_id_update (\<lambda>i. i + 1)),
     whenS (\<lambda>s. data_parsing_id (tds s) = ONE_DATA_MAXLEN) (block [
       whenS (\<lambda>s. tds_data (tds s) 0 = DATA_CMD_BEGIN) (block [
         (\<lambda>s. tds_update (TDS_Value_update (\<lambda>_. push_bit 8 (ucast (tds_data (tds s) 4)) + ucast (tds_data (tds s) 5))) s),
         tds_update (TDS_Value_update (\<lambda>v. v div 10))]),
       tds_update (data_parsing_id_update (\<lambda>_. 0))])]"

definition TdsRead :: "u8 list" where
  "TdsRead = [0x55, 0x07, 0x05, 0x01, 0x00, 0x00, 0x00, 0x62]"

text \<open>The value read before the request and the state after it.\<close>

definition Tds_Work :: "sys \<Rightarrow> u32 \<times> sys" where
  "Tds_Work s = (TDS_Value (tds s),
     tds_update (\<lambda>t. t\<lparr>TDS_Value := 0, data_parsing_id := 0, uart_tx := TdsRead # uart_tx t\<rparr>) s)"

text \<open>PA2 and PA3 are pins 2 and 3.\<close>

definition Tds_Init :: stmt where
  "Tds_Init = block [
     board_update (clk_usart2_update (\<lambda>_. True)),
     rt_pin_mode 2 PIN_MODE_AF, rt_pin_mode 3 PIN_MODE_AF,
     rt_pin_mode TDS_EN PIN_MODE_OUTPUT]"

definition Tds_DeInit :: stmt where
  "Tds_DeInit = block [
     rt_pin_mode TDS_EN PIN_MODE_INPUT,
     board_update (clk_usart2_update (\<lambda>_. False)),
     rt_pin_mode 2 PIN_MODE_ANALOG, rt_pin_mode 3 PIN_MODE_ANALOG]"

section \<open>Backwash clock (RTCWork.c)\<close>

definition RTC_Timer_Entry :: stmt where
  "RTC_Timer_Entry = block [
     whenS (\<lambda>s. Reminder_Enable (cfg s) \<noteq> 0) (rtc_update (RTC_Reminder_Time_update (\<lambda>t. t + 1))),
     whenS (\<lambda>s. Automatic_Enable (cfg s) \<noteq> 0) (rtc_update (RTC_Automatic_Time_update (\<lambda>t. t + 1)))]"

definition RTC_Check :: stmt where
  "RTC_Check = rtc_update (RTC_Check_Sem_update (\<lambda>m. snd (rt_sem_release m)))"

definition RTC_Clear :: stmt where
  "RTC_Clear = block [
     rtc_update (RTC_Reminder_Time_update (\<lambda>_. 0)),
     rtc_update (RTC_Automatic_Time_update (\<lambda>_. 0))]"

text \<open>\<open>Week*7*24+Day*24\<close> in \<open>int\<close>; at most 48960, so no overflow and the comparison is exact.\<close>

definition rtc_period :: "u8 \<Rightarrow> u8 \<Rightarrow> u32" where
  "rtc_period w d = of_nat (unat w * 7 * 24 + unat d * 24)"

definition LowPowerTimerStart :: stmt where
  "LowPowerTimerStart = block [
     whenS (\<lambda>s. LowPowerTimer (tmr s) = None) (timer_create LowPowerTimer_update LowPowerTimerCallback 1000),
     timer_start LowPowerTimer]"

definition check_reminder :: stmt where
  "check_reminder = ifS (\<lambda>s. RTC_Reminder_Time (rtc s) \<ge> rtc_period (Reminder_Week (cfg s)) (Reminder_Day (cfg s)))
     (block [
        rtc_update (RTC_Reminder_Time_update (\<lambda>_. 0)),
        rtc_update (RTC_Event_Flag_update (\<lambda>_. 1)),
        Flash_Set 16 0,
        JumptoReminder])
     (\<lambda>s. Flash_Set 16 (RTC_Reminder_Time (rtc s)) s)"

definition check_automatic :: stmt where
  "check_automatic = ifS (\<lambda>s. RTC_Automatic_Time (rtc s) \<ge> rtc_period (Automatic_Week (cfg s)) (Automatic_Day (cfg s)))
     (block [
        rtc_update (RTC_Automatic_Time_update (\<lambda>_. 0)),
        rtc_update (RTC_Event_Flag_update (\<lambda>_. 1)),
        Flash_Set 17 0,
        JumptoAutomatic])
     (\<lambda>s. Flash_Set 17 (RTC_Automatic_Time (rtc s)) s)"

definition rtc_take :: "sys \<Rightarrow> int \<times> sys" where
  "rtc_take s = (case rt_sem_trytake (RTC_Check_Sem (rtc s)) of
      (r, m) \<Rightarrow> (r, rtc_update (RTC_Check_Sem_update (\<lambda>_. m)) s))"

text \<open>One turn of the loop of \<open>RTC_Check_Callback\<close>.\<close>

definition RTC_Check_pass :: stmt where
  "RTC_Check_pass s = (case rtc_take s of (r, s1) \<Rightarrow>
     if r = RT_EOK then
       block [
         rtc_update (RTC_Event_Flag_update (\<lambda>_. 0)),
         whenS (\<lambda>s. Reminder_Enable (cfg s) \<noteq> 0) check_reminder,
         whenS (\<lambda>s. Automatic_Enable (cfg s) \<noteq> 0) check_automatic,
         whenS (\<lambda>s. RTC_Event_Flag (rtc s) = 0) LowPowerTimerStart] s1
     else s1)"

text \<open>The hourly alarm: the interrupt handler restarts the hour, counts and wakes the check.\<close>

definition HAL_RTC_AlarmAEventCallback :: stmt where
  "HAL_RTC_AlarmAEventCallback = block [RTC_Timer_Entry, RTC_Check]"

text \<open>The part of \<open>RTC_Init\<close> that sets the variables; the HAL calls configure the peripheral.\<close>

definition RTC_Init :: "sys \<Rightarrow> sys option" where
  "RTC_Init s =
     Option.bind (Flash_Get 16 s) (\<lambda>r.
     Option.bind (Flash_Get 17 s) (\<lambda>a.
     Some (rtc_update (\<lambda>c. c\<lparr>RTC_Reminder_Time := r, RTC_Automatic_Time := a,
        Reminder_Time := rtc_period (Reminder_Week (cfg s)) (Reminder_Day (cfg s)),
        Automatic_Time := rtc_period (Automatic_Week (cfg s)) (Automatic_Day (cfg s)),
        RTC_Check_Sem := rt_sem_init 0 RT_IPC_FLAG_FIFO\<rparr>) s)))"

section \<open>Battery watcher (Battery.c)\<close>

text \<open>One turn of the loop of \<open>BatteryWatcherCallback\<close>, every five seconds.\<close>

definition Battery_pass :: stmt where
  "Battery_pass = block [
     bat_update (\<lambda>b. b\<lparr>PastBatVol := NowBatVol b\<rparr>),
     (\<lambda>s. bat_update (NowBatVol_update (\<lambda>_. Get_Bat_Value s)) s),
     ifS (\<lambda>s. LowVoltageFlag (bat s) \<noteq> 0)
       (whenS (\<lambda>s. NowBatVol (bat s) > PastBatVol (bat s) \<and> NowBatVol (bat s) > 200 + PastBatVol (bat s))
          (ifS (\<lambda>s. NowBatVol (bat s) > 3200)
             (bat_update (LowVoltageFlag_update (\<lambda>_. 0)))
             (block [bat_update (LowVoltageFlag_update (\<lambda>_. 0)), JumpToBatteryNew])))
       (ifS (\<lambda>s. NowBatVol (bat s) < 2650 \<and> NowBatVol (bat s) > 1000)
          (block [bat_update (LowVoltageFlag_update (\<lambda>_. 1)), JumpToBatteryEmpty])
          (bat_update (LowVoltageFlag_update (\<lambda>_. 0))))]"

end
