(* ===== verification/MotoControl.thy ===== *)
theory MotoControl
  imports Services
begin

text \<open>
  The backwash motor: \<open>device/MotoControl.c\<close>. Two pins drive an H-bridge (\<open>MOTO_IN1\<close>
  back, \<open>MOTO_IN2\<close> forward), two end switches read 0 when the valve has arrived,
  \<open>MotoWorkFlag\<close> is 0 idle, 1 going forward, 2 coming back. The motor thread polls every
  50 ms; \<open>Moto_pass\<close> is one turn of its loop.
\<close>

abbreviation Event_Moto_Free :: u32 where "Event_Moto_Free \<equiv> 1"
abbreviation Event_Moto_Forward :: u32 where "Event_Moto_Forward \<equiv> 2"
abbreviation Event_Moto_Back :: u32 where "Event_Moto_Back \<equiv> 4"
abbreviation Event_Moto_Cycle :: u32 where "Event_Moto_Cycle \<equiv> 8"

definition moto_send :: "u32 \<Rightarrow> stmt" where
  "moto_send e = moto_update (Moto_Event_update (\<lambda>ev. snd (snd (rt_event_send e ev))))"

abbreviation set_MotoWorkFlag :: "u8 \<Rightarrow> stmt" where
  "set_MotoWorkFlag v \<equiv> moto_update (MotoWorkFlag_update (\<lambda>_. v))"

definition Moto_Cycle_Timer_cb :: stmt where
  "Moto_Cycle_Timer_cb = ifS (\<lambda>s. rt_pin_read MOTO_RIGHT s = 0)
     (moto_send Event_Moto_Back)
     (block [moto_send Event_Moto_Free, ScreenTimerRefresh, jumpd])"

definition Moto_Pin_Init :: stmt where
  "Moto_Pin_Init = block [
     rt_pin_mode MOTO_MODE PIN_MODE_OUTPUT, rt_pin_write MOTO_MODE 0,
     rt_pin_mode MOTO_IN1 PIN_MODE_OUTPUT, rt_pin_write MOTO_IN1 0,
     rt_pin_mode MOTO_IN2 PIN_MODE_OUTPUT, rt_pin_write MOTO_IN2 0,
     rt_pin_mode MOTO_VCC PIN_MODE_OUTPUT, rt_pin_write MOTO_VCC 1,
     rt_pin_mode MOTO_LEFT PIN_MODE_INPUT, rt_pin_mode MOTO_RIGHT PIN_MODE_INPUT]"

definition Moto_Pin_DeInit :: stmt where
  "Moto_Pin_DeInit = block [
     rt_pin_mode MOTO_MODE PIN_MODE_OUTPUT, rt_pin_write MOTO_MODE 0,
     rt_pin_mode MOTO_IN1 PIN_MODE_OUTPUT, rt_pin_write MOTO_IN1 0,
     rt_pin_mode MOTO_IN2 PIN_MODE_OUTPUT, rt_pin_write MOTO_IN2 0,
     rt_pin_mode MOTO_VCC PIN_MODE_OUTPUT, rt_pin_write MOTO_VCC 0,
     rt_pin_mode MOTO_LEFT PIN_MODE_INPUT, rt_pin_mode MOTO_RIGHT PIN_MODE_INPUT]"

definition Moto_Init :: stmt where
  "Moto_Init = block [
     moto_update (Moto_Event_update (\<lambda>_. rt_event_init)),
     timer_create Moto_Cycle_Timer_update Moto_Cycle_Timer_Callback (15 * 1000),
     Moto_Pin_Init]"

definition moto_forward :: stmt where "moto_forward = moto_send Event_Moto_Forward"
definition moto_back :: stmt where "moto_back = moto_send Event_Moto_Back"
definition moto_stop :: stmt where "moto_stop = moto_send Event_Moto_Free"

definition Moto_Cycle :: stmt where
  "Moto_Cycle = block [
     RTC_Clear,
     ifS (\<lambda>s. LowVoltageFlag (bat s) = 0 \<or> Get_DC_Level s = 1)
       (whenS (\<lambda>s. MotoWorkFlag (moto s) = 0) (block [
          ScreenTimerStop,
          moto_send Event_Moto_Forward,
          (\<lambda>s. timer_set_time Moto_Cycle_Timer (ucast (Setting_Backwashtime (cfg s)) * 1000) s),
          timer_start Moto_Cycle_Timer,
          Green_Light]))
       (block [jumpe, JumpToBatteryEmpty])]"

definition Moto_Free_Event_Release :: stmt where
  "Moto_Free_Event_Release = block [
     (\<lambda>s. moto_update (Left_Status_update (\<lambda>_. rt_pin_read MOTO_LEFT s)) s),
     (\<lambda>s. moto_update (Right_Status_update (\<lambda>_. rt_pin_read MOTO_RIGHT s)) s),
     whenS (\<lambda>s. Right_Status (moto s) = 0 \<and> MotoWorkFlag (moto s) = 1) (block [
       moto_send Event_Moto_Free,
       rt_pin_write MOTO_IN1 0, rt_pin_write MOTO_IN2 0,
       set_MotoWorkFlag 0,
       (\<lambda>s. snd (Tds_Work s)),
       (\<lambda>s. snd (Tds_Work s))]),
     whenS (\<lambda>s. Left_Status (moto s) = 0 \<and> MotoWorkFlag (moto s) = 2) (block [
       rt_pin_write MOTO_IN1 0, rt_pin_write MOTO_IN2 0,
       set_MotoWorkFlag 0,
       ScreenTimerRefresh,
       ifS (\<lambda>s. TDS_Value (tds s) > Setting_Hardness (cfg s)) jumpa jumpc])]"

definition SleepAfterCycle :: stmt where
  "SleepAfterCycle = Moto_Cycle"

definition moto_overload :: stmt where
  "moto_overload = whenS (\<lambda>s. Get_Moto_Value s > 200) (block [
     rt_pin_write MOTO_IN1 0, rt_pin_write MOTO_IN2 0,
     set_MotoWorkFlag 0,
     jumpb,
     timer_stop Moto_Cycle_Timer,
     moto_send Event_Moto_Free,
     ScreenTimerRefresh])"

text \<open>The \<open>switch(e)\<close>: exact values, so a combination of events matches no case.\<close>

definition moto_event :: "u32 \<Rightarrow> stmt" where
  "moto_event e = switchS (\<lambda>_. e) [
     (Event_Moto_Free, block [rt_pin_write MOTO_IN1 0, rt_pin_write MOTO_IN2 0, set_MotoWorkFlag 0]),
     (Event_Moto_Forward, ifS (\<lambda>s. rt_pin_read MOTO_RIGHT s = 1)
        (block [rt_pin_write MOTO_IN1 0, rt_pin_write MOTO_IN2 1, set_MotoWorkFlag 1])
        (set_MotoWorkFlag 1)),
     (Event_Moto_Back, whenS (\<lambda>s. rt_pin_read MOTO_LEFT s = 1)
        (block [rt_pin_write MOTO_IN1 1, rt_pin_write MOTO_IN2 0, set_MotoWorkFlag 2]))] (\<lambda>s. s)"

definition moto_recv :: stmt where
  "moto_recv s = (case event_poll (Event_Moto_Free OR Event_Moto_Forward OR Event_Moto_Back OR Event_Moto_Cycle)
                        (Moto_Event (moto s)) of
      (got, ev) \<Rightarrow> (let s1 = moto_update (Moto_Event_update (\<lambda>_. ev)) s
                    in case got of None \<Rightarrow> s1 | Some e \<Rightarrow> moto_event e s1))"

definition Moto_pass :: stmt where
  "Moto_pass = block [
     whenS (\<lambda>s. MotoWorkFlag (moto s) > 0) (block [Moto_Free_Event_Release, moto_overload]),
     moto_recv]"

end
