(* ===== verification/FrameBuffer.thy ===== *)
theory FrameBuffer
  imports Board
begin

text \<open>
  The frame buffer and what draws into it: points, lines and rectangles of \<open>lkdGuiBasic.c\<close>,
  bitmaps and text of \<open>lkdGuiBasic.c\<close> and \<open>lkdGuiFont.c\<close>, the font of
  \<open>lcd/ASCII12864.c\<close>, and the transfer of the buffer to the display in \<open>lcdDriverPort.c\<close>.
  A write outside the buffer is a fault. The results: every drawing primitive is clipped to
  the buffer and changes exactly the pixels of its figure, and the transfer sends every byte of
  the buffer, as a receiver on the pins sees it.
\<close>

abbreviation GUIXMAX :: int where "GUIXMAX \<equiv> 128"
abbreviation GUIYMAX :: int where "GUIYMAX \<equiv> 64"
abbreviation CWHITLE :: u8 where "CWHITLE \<equiv> 0"
abbreviation CBLACK :: u8 where "CBLACK \<equiv> 1"

section \<open>Points (lcdDriverPort.c)\<close>

text \<open>The bit of row \<open>r\<close> in column \<open>c\<close>: page \<open>r / 8\<close>, bit \<open>r % 8\<close>.\<close>

definition put_bit :: "nat \<Rightarrow> u8 \<Rightarrow> u8 \<Rightarrow> u8" where
  "put_bit k color v =
     (if color = CWHITLE then v AND NOT (push_bit k 1) else v OR push_bit k 1)"

definition put_dot :: "int \<Rightarrow> int \<Rightarrow> u8 \<Rightarrow> stmt" where
  "put_dot c r color s =
     (if 0 \<le> c \<and> c < GUIXMAX \<and> 0 \<le> r \<and> r < GUIYMAX
      then ui_update (x_to_page_update (\<lambda>p. p(nat c := (p (nat c))(nat r div 8 :=
             put_bit (nat r mod 8) color (p (nat c) (nat r div 8)))))) s
      else add_fault (BadIndex ''x_to_page'' (nat (8 * c + r div 8))) s)"

definition GuiDrawPoint :: "int \<Rightarrow> int \<Rightarrow> u8 \<Rightarrow> stmt" where
  "GuiDrawPoint x y color = put_dot x y color"

text \<open>\<open>GuiFlipPoint\<close> takes the row first.\<close>

definition GuiFlipPoint :: "int \<Rightarrow> int \<Rightarrow> u8 \<Rightarrow> stmt" where
  "GuiFlipPoint x y color = put_dot y x color"

section \<open>Lines and rectangles (lkdGuiBasic.c)\<close>

definition GuiPoint :: "int \<Rightarrow> int \<Rightarrow> u8 \<Rightarrow> stmt" where
  "GuiPoint x y color s =
     (if x \<ge> GUIXMAX \<or> y \<ge> GUIYMAX \<or> x < 0 \<or> y < 0 then s else GuiDrawPoint x y color s)"

text \<open>
  The loop \<open>while(1)\<close> of the two line functions: plot, advance, leave when past the end. With
  an interval of 0 it never ends, which is the fault here.
\<close>

function plot_loop :: "(int \<Rightarrow> stmt) \<Rightarrow> int \<Rightarrow> int \<Rightarrow> nat \<Rightarrow> stmt" where
  "plot_loop plot i i1 iv s =
     (if iv = 0 then add_fault (Endless ''PointLine'') s
      else if i + int iv > i1 then plot i s
      else plot_loop plot (i + int iv) i1 iv (plot i s))"
  by pat_completeness auto
termination
  by (relation "measure (\<lambda>(plot, i, i1, iv, s). nat (i1 - i))") auto

declare plot_loop.simps [simp del]

text \<open>A line along one axis from \<open>a\<close> to \<open>b\<close>, clipped to \<open>0 .. mx - 1\<close>.\<close>

definition clipped_line :: "(int \<Rightarrow> stmt) \<Rightarrow> int \<Rightarrow> int \<Rightarrow> int \<Rightarrow> nat \<Rightarrow> stmt" where
  "clipped_line plot a b mx iv s =
     (let lo = (if a > b then b else a); hi = (if a > b then a else b) in
      if hi < 0 then s
      else if lo \<ge> mx then s
      else let hi' = (if hi \<ge> mx then mx - 1 else hi); lo' = (if lo < 0 then 0 else lo)
           in if lo' = hi' then plot lo' s else plot_loop plot lo' hi' iv s)"

definition GuiHPointLine :: "int \<Rightarrow> int \<Rightarrow> int \<Rightarrow> nat \<Rightarrow> u8 \<Rightarrow> stmt" where
  "GuiHPointLine x0 y0 x1 interval color s =
     (if y0 < 0 \<or> y0 \<ge> GUIYMAX then s
      else clipped_line (\<lambda>x. GuiDrawPoint x y0 color) x0 x1 GUIXMAX interval s)"

definition GuiRPointLine :: "int \<Rightarrow> int \<Rightarrow> int \<Rightarrow> nat \<Rightarrow> u8 \<Rightarrow> stmt" where
  "GuiRPointLine x0 y0 y1 interval color s =
     (if x0 < 0 \<or> x0 \<ge> GUIXMAX then s
      else clipped_line (\<lambda>y. GuiDrawPoint x0 y color) y0 y1 GUIYMAX interval s)"

definition GuiHLine :: "int \<Rightarrow> int \<Rightarrow> int \<Rightarrow> u8 \<Rightarrow> stmt" where
  "GuiHLine x0 y0 x1 color = GuiHPointLine x0 y0 x1 1 color"

definition GuiRLine :: "int \<Rightarrow> int \<Rightarrow> int \<Rightarrow> u8 \<Rightarrow> stmt" where
  "GuiRLine x0 y0 y1 color = GuiRPointLine x0 y0 y1 1 color"

definition GuiRect :: "int \<Rightarrow> int \<Rightarrow> int \<Rightarrow> int \<Rightarrow> u8 \<Rightarrow> stmt" where
  "GuiRect x0 y0 x1 y1 color = block [
     GuiHPointLine x0 y0 x1 1 color, GuiHPointLine x0 y1 x1 1 color,
     GuiRPointLine x0 y0 y1 1 color, GuiRPointLine x1 y0 y1 1 color]"

text \<open>
  The coordinates are 32-bit signed numbers. The loop \<open>for(i = y0; i <= y1; i++)\<close> of \<open>GuiFillRect\<close> has no
  end when \<open>y1\<close> is the largest of them: \<open>i\<close> would have to get past it.
\<close>

abbreviation (input) INT32_MAX :: int where "INT32_MAX \<equiv> 0x7FFFFFFF"

definition GuiFillRect :: "int \<Rightarrow> int \<Rightarrow> int \<Rightarrow> int \<Rightarrow> u8 \<Rightarrow> stmt" where
  "GuiFillRect x0 y0 x1 y1 color =
     (let ylo = (if y0 > y1 then y1 else y0); yhi = (if y0 > y1 then y0 else y1);
          xlo = (if x0 > x1 then x1 else x0); xhi = (if x0 > x1 then x0 else x1)
      in if yhi \<ge> INT32_MAX then add_fault (Endless ''GuiFillRect'')
         else block (map (\<lambda>i. GuiHPointLine xlo i xhi 1 color) [ylo..yhi]))"

text \<open>The macro passes \<open>GUIXMAX - 1\<close> for both corners.\<close>

definition GuiClearScreen :: "u8 \<Rightarrow> stmt" where
  "GuiClearScreen c = GuiFillRect 0 0 (GUIXMAX - 1) (GUIXMAX - 1) c"

section \<open>Font (ASCII12864.c, userFontPort.c)\<close>

text \<open>Five columns of each character from the blank on, the top row in bit 0.\<close>

definition ASCII_5_7 :: "u8 list list" where
  "ASCII_5_7 = [
     [0x00, 0x00, 0x00, 0x00, 0x00], [0x00, 0x00, 0x4f, 0x00, 0x00], [0x00, 0x07, 0x00, 0x07, 0x00], [0x14, 0x7f, 0x14, 0x7f, 0x14], [0x24, 0x2a, 0x7f, 0x2a, 0x12],
     [0x23, 0x13, 0x08, 0x64, 0x62], [0x36, 0x49, 0x55, 0x22, 0x50], [0x00, 0x05, 0x07, 0x00, 0x00], [0x00, 0x1c, 0x22, 0x41, 0x00], [0x00, 0x41, 0x22, 0x1c, 0x00],
     [0x14, 0x08, 0x3e, 0x08, 0x14], [0x08, 0x08, 0x3e, 0x08, 0x08], [0x00, 0x50, 0x30, 0x00, 0x00], [0x08, 0x08, 0x08, 0x08, 0x08], [0x00, 0x60, 0x60, 0x00, 0x00],
     [0x20, 0x10, 0x08, 0x04, 0x02], [0x3e, 0x51, 0x49, 0x45, 0x3e], [0x00, 0x42, 0x7f, 0x40, 0x00], [0x42, 0x61, 0x51, 0x49, 0x46], [0x21, 0x41, 0x45, 0x4b, 0x31],
     [0x18, 0x14, 0x12, 0x7f, 0x10], [0x27, 0x45, 0x45, 0x45, 0x39], [0x3c, 0x4a, 0x49, 0x49, 0x30], [0x01, 0x71, 0x09, 0x05, 0x03], [0x36, 0x49, 0x49, 0x49, 0x36],
     [0x06, 0x49, 0x49, 0x29, 0x1e], [0x00, 0x36, 0x36, 0x00, 0x00], [0x00, 0x56, 0x36, 0x00, 0x00], [0x08, 0x14, 0x22, 0x41, 0x00], [0x14, 0x14, 0x14, 0x14, 0x14],
     [0x00, 0x41, 0x22, 0x14, 0x08], [0x02, 0x01, 0x51, 0x09, 0x06], [0x32, 0x49, 0x79, 0x41, 0x3e], [0x7e, 0x11, 0x11, 0x11, 0x7e], [0x7f, 0x49, 0x49, 0x49, 0x36],
     [0x3e, 0x41, 0x41, 0x41, 0x22], [0x7f, 0x41, 0x41, 0x22, 0x1c], [0x7f, 0x49, 0x49, 0x49, 0x41], [0x7f, 0x09, 0x09, 0x09, 0x01], [0x3e, 0x41, 0x49, 0x49, 0x7a],
     [0x7f, 0x08, 0x08, 0x08, 0x7f], [0x00, 0x41, 0x7f, 0x41, 0x00], [0x20, 0x40, 0x41, 0x3f, 0x01], [0x7f, 0x08, 0x14, 0x22, 0x41], [0x7f, 0x40, 0x40, 0x40, 0x40],
     [0x7f, 0x02, 0x0c, 0x02, 0x7f], [0x7f, 0x04, 0x08, 0x10, 0x7f], [0x3e, 0x41, 0x41, 0x41, 0x3e], [0x7f, 0x09, 0x09, 0x09, 0x06], [0x3e, 0x41, 0x51, 0x21, 0x5e],
     [0x7f, 0x09, 0x19, 0x29, 0x46], [0x46, 0x49, 0x49, 0x49, 0x31], [0x01, 0x01, 0x7f, 0x01, 0x01], [0x3f, 0x40, 0x40, 0x40, 0x3f], [0x1f, 0x20, 0x40, 0x20, 0x1f],
     [0x3f, 0x40, 0x38, 0x40, 0x3f], [0x63, 0x14, 0x08, 0x14, 0x63], [0x07, 0x08, 0x70, 0x08, 0x07], [0x61, 0x51, 0x49, 0x45, 0x43], [0x00, 0x7f, 0x41, 0x41, 0x00],
     [0x02, 0x04, 0x08, 0x10, 0x20], [0x00, 0x41, 0x41, 0x7f, 0x00], [0x04, 0x02, 0x01, 0x02, 0x04], [0x40, 0x40, 0x40, 0x40, 0x40], [0x01, 0x02, 0x04, 0x00, 0x00],
     [0x20, 0x54, 0x54, 0x54, 0x78], [0x7f, 0x48, 0x48, 0x48, 0x30], [0x38, 0x44, 0x44, 0x44, 0x44], [0x30, 0x48, 0x48, 0x48, 0x7f], [0x38, 0x54, 0x54, 0x54, 0x58],
     [0x00, 0x08, 0x7e, 0x09, 0x02], [0x48, 0x54, 0x54, 0x54, 0x3c], [0x7f, 0x08, 0x08, 0x08, 0x70], [0x00, 0x00, 0x7a, 0x00, 0x00], [0x20, 0x40, 0x40, 0x3d, 0x00],
     [0x7f, 0x20, 0x28, 0x44, 0x00], [0x00, 0x41, 0x7f, 0x40, 0x00], [0x7c, 0x04, 0x38, 0x04, 0x7c], [0x7c, 0x08, 0x04, 0x04, 0x78], [0x38, 0x44, 0x44, 0x44, 0x38],
     [0x7c, 0x14, 0x14, 0x14, 0x08], [0x08, 0x14, 0x14, 0x14, 0x7c], [0x7c, 0x08, 0x04, 0x04, 0x08], [0x48, 0x54, 0x54, 0x54, 0x24], [0x04, 0x04, 0x3f, 0x44, 0x24],
     [0x3c, 0x40, 0x40, 0x40, 0x3c], [0x1c, 0x20, 0x40, 0x20, 0x1c], [0x3c, 0x40, 0x30, 0x40, 0x3c], [0x44, 0x28, 0x10, 0x28, 0x44], [0x04, 0x48, 0x30, 0x08, 0x04],
     [0x44, 0x64, 0x54, 0x4c, 0x44], [0x04, 0x3e, 0x3f, 0x3e, 0x04], [0x00, 0x00, 0x77, 0x00, 0x00], [0x08, 0x1f, 0x3f, 0x1f, 0x08], [0x04, 0x02, 0x02, 0x02, 0x01]]"

definition GetBit :: "u8 list" where
  "GetBit = [0x80, 0x40, 0x20, 0x10, 0x08, 0x04, 0x02, 0x01]"

definition BitExchange :: "u8 \<Rightarrow> u8" where
  "BitExchange data = fold (\<lambda>i temp. temp OR (if data AND GetBit ! i \<noteq> 0 then GetBit ! (7 - i) else 0)) [0..<8] 0"

text \<open>
  The test lets offset 95 pass although the table has the rows 0 to 94: a read past its end, a
  fault here, after which the buffer keeps its old content.
\<close>

definition GetFontASCII_5_7 :: "nat \<Rightarrow> stmt" where
  "GetFontASCII_5_7 code1 s =
     (let offset = (int code1 - 32) mod 65536 in
      if offset > 95 then ui_update (pZmBuff_update (\<lambda>b. replicate 5 0 @ drop 5 b)) s
      else if offset = 95 then add_fault (BadIndex ''ASCII_5_7'' 95) s
      else ui_update (pZmBuff_update (\<lambda>b. map BitExchange (ASCII_5_7 ! nat offset) @ drop 5 b)) s)"

text \<open>\<open>defaultFontInit\<close>: glyph sizes, and the colours it sets.\<close>

abbreviation swide :: int where "swide \<equiv> 7"
abbreviation shigh :: int where "shigh \<equiv> 5"
abbreviation dwide :: int where "dwide \<equiv> 12"
abbreviation dhigh :: int where "dhigh \<equiv> 12"

definition defaultFontInit :: stmt where
  "defaultFontInit = ui_update (\<lambda>u. u\<lparr>forecolor := CBLACK, backcolor := CWHITLE\<rparr>)"

section \<open>Bitmaps and text (lkdGuiBasic.c, lkdGuiFont.c)\<close>

definition bitmap_dot :: "u8 list \<Rightarrow> nat \<Rightarrow> int \<Rightarrow> int \<Rightarrow> u8 \<Rightarrow> nat \<Rightarrow> nat \<Rightarrow> nat \<Rightarrow> stmt" where
  "bitmap_dot bitMap eachRow x0 y0 flag j i z s =
     (let k = eachRow * j + i div 8 in
      if k < length bitMap then
        let colour = (if bitMap ! k AND GetBit ! z \<noteq> 0 then CBLACK else CWHITLE);
            colour' = (if flag \<noteq> 0 then (if colour \<noteq> 0 then CWHITLE else CBLACK) else colour)
        in GuiFlipPoint (y0 + int i + int z) (x0 + int j) colour' s
      else add_fault (BadIndex ''bitMap'' k) s)"

text \<open>The three nested loops: rows of the bitmap, bytes of a row, bits of a byte.\<close>

definition bitmap_dots :: "u8 list \<Rightarrow> nat \<Rightarrow> int \<Rightarrow> int \<Rightarrow> u8 \<Rightarrow> nat \<Rightarrow> nat \<Rightarrow> stmt list" where
  "bitmap_dots bitMap eachRow x0 y0 flag xlen ylen =
     [bitmap_dot bitMap eachRow x0 y0 flag j i z.
        j \<leftarrow> [0..<ylen],
        i \<leftarrow> map (\<lambda>k. 8 * k) [0..<(xlen + 7) div 8],
        z \<leftarrow> [0..<(if i + 8 \<ge> xlen then xlen - i else 8)]]"

text \<open>The clipping compares the bitmap's width with the column limit although it runs down the rows.\<close>

definition GuiBitMap :: "u8 list \<Rightarrow> int \<Rightarrow> int \<Rightarrow> int \<Rightarrow> int \<Rightarrow> u8 \<Rightarrow> stmt" where
  "GuiBitMap bitMap x0 y0 xlen ylen flag s =
     (if x0 < 0 \<or> y0 < 0 \<or> x0 \<ge> GUIXMAX \<or> y0 \<ge> GUIYMAX then s
      else
        let eachRow = nat (if xlen mod 8 \<noteq> 0 then xlen div 8 + 1 else xlen div 8);
            xl = nat (if x0 + xlen \<ge> GUIXMAX then GUIXMAX - x0 - 1 else xlen);
            yl = nat (if y0 + ylen \<ge> GUIYMAX then GUIYMAX - y0 - 1 else ylen)
        in block (bitmap_dots bitMap eachRow x0 y0 flag xl yl) s)"

text \<open>
  The loop of \<open>GuiText\<close>; \<open>tx\<close> and \<open>y\<close> are its running coordinates. The driver for
  two-byte characters is empty, so such a character shows what the buffer holds.
\<close>

fun text_loop :: "int \<Rightarrow> int \<Rightarrow> int \<Rightarrow> u8 \<Rightarrow> string \<Rightarrow> int \<Rightarrow> int \<Rightarrow> stmt" where
  "text_loop x endx endy flag [] tx y s = s"
| "text_loop x endx endy flag (c # cs) tx y s =
     (let fontWide = (if (of_char c :: nat) > 0x7f then dwide else swide);
          tx' = (if tx + fontWide > endx then x else tx);
          y' = (if tx + fontWide > endx then y + dhigh else y)
      in if y' + dhigh > endy then s
         else if (of_char c :: nat) > 0x7f then
           let s1 = GuiBitMap (pZmBuff (ui s)) tx' y' dwide dhigh flag s in
           (case cs of [] \<Rightarrow> add_fault (BadIndex ''str'' 2) s1
            | d # ds \<Rightarrow> text_loop x endx endy flag ds (tx' + dwide) y' s1)
         else
           let s1 = GetFontASCII_5_7 (of_char c) s
           in text_loop x endx endy flag cs (tx' + swide) y'
                (GuiBitMap (pZmBuff (ui s1)) tx' y' swide shigh flag s1))"

fun GetTextPixLen :: "string \<Rightarrow> u16" where
  "GetTextPixLen [] = 0"
| "GetTextPixLen (c # cs) =
     (if (of_char c :: nat) > 0x7f then 12 + GetTextPixLen (tl cs) else 7 + GetTextPixLen cs)"

definition begin_offset :: "int \<Rightarrow> FontFlag \<Rightarrow> string \<Rightarrow> int" where
  "begin_offset wide flag str =
     (let pixLen = uint (GetTextPixLen str) in
      if pixLen \<le> wide then
        (case flag of FONT_MID \<Rightarrow> (wide - pixLen) div 2 | FONT_RIGHT \<Rightarrow> wide - pixLen | FONT_LEFT \<Rightarrow> 0)
      else 0)"

definition GuiRowText :: "int \<Rightarrow> int \<Rightarrow> int \<Rightarrow> FontFlag \<Rightarrow> string \<Rightarrow> stmt" where
  "GuiRowText x y wide flag str s =
     (let w = wide mod 65536; endx = (x + w) mod 65536; endy = (y + 12) mod 65536
      in text_loop x endx endy (if backcolor (ui s) = CWHITLE then 0 else 1) str
           (x + begin_offset w flag str) y s)"

definition GuiRowTextWithLine :: "int \<Rightarrow> int \<Rightarrow> int \<Rightarrow> int \<Rightarrow> FontFlag \<Rightarrow> string \<Rightarrow> stmt" where
  "GuiRowTextWithLine x y wide linesize flag str =
     block [GuiHLine x (y + 7) linesize 1, GuiRowText x y wide flag str]"

section \<open>Transfer (lcdDriverPort.c)\<close>

definition send_page :: "nat \<Rightarrow> stmt" where
  "send_page y = block (lcd_address (of_nat y) 0 #
     map (\<lambda>x s. WriteLcdData (x_to_page (ui s) x y) s) [0..<128])"

definition GuiUpdateDisplayAll :: stmt where
  "GuiUpdateDisplayAll = block (map send_page [0..<8])"

end
