(* ===== verification/LkdGui.thy ===== *)
theory LkdGui
  imports MotoControl FrameBuffer
begin

text \<open>
  The part of lkdGui the application calls (\<open>packages/lkdGui-latest\<close>) above the frame buffer:
  buttons, the vertical scroll bar and the window stack.
\<close>

abbreviation GUIWINMANAGE_NUM :: u8 where "GUIWINMANAGE_NUM \<equiv> 16"

definition GuiExchangeColor :: stmt where
  "GuiExchangeColor = ui_update (\<lambda>u. u\<lparr>forecolor := backcolor u, backcolor := forecolor u\<rparr>)"

section \<open>Buttons (lkdGuiControl.c)\<close>

text \<open>An access to \<open>tButton[i]\<close>: the array has five elements.\<close>

definition tButton_upd :: "nat \<Rightarrow> (lkdButton \<Rightarrow> lkdButton) \<Rightarrow> stmt" where
  "tButton_upd i f s =
     (if i < 5 then ui_update (tButton_update (\<lambda>b. b(i := f (b i)))) s
      else add_fault (BadIndex ''tButton'' i) s)"

definition button_text :: "lkdButton \<Rightarrow> stmt" where
  "button_text b =
     (if btn_linesize b > 0
      then GuiRowTextWithLine (btn_x b + 4) (btn_y b + 4) (uint (btn_wide b) - 3) (uint (btn_linesize b)) FONT_LEFT (btn_name b)
      else GuiRowText (btn_x b + 4) (btn_y b + 4) (uint (btn_wide b) - 3) FONT_LEFT (btn_name b))"

definition draw_button :: "lkdButton \<Rightarrow> stmt" where
  "draw_button b s =
     (let endx = (btn_x b + uint (btn_wide b)) mod 65536;
          endy = (btn_y b + uint (btn_high b)) mod 65536;
          fore = forecolor (ui s); back = backcolor (ui s)
      in if btn_wide b < 6 \<or> btn_high b < 6 \<or> uint (btn_high b) - 12 - 3 < 0 then s
         else if btn_flag b = 0
         then block [GuiFillRect (btn_x b) (btn_y b + 2) endx (endy - 2) back, button_text b] s
         else block [GuiFillRect (btn_x b) (btn_y b + 2) endx (endy - 2) fore,
                     GuiExchangeColor, button_text b, GuiExchangeColor] s)"

definition GuiButton :: "nat \<Rightarrow> stmt" where
  "GuiButton i s =
     (if i < 5 then draw_button (tButton (ui s) i) s
      else add_fault (BadIndex ''tButton'' i) s)"

section \<open>Scroll bar (lkdGuiControl.c)\<close>

definition clamp_lump :: "lkdScroll \<Rightarrow> lkdScroll" where
  "clamp_lump p = (if scr_lump p < 0 then p\<lparr>scr_lump := 0\<rparr>
     else if scr_lump p \<ge> scr_max p then p\<lparr>scr_lump := scr_max p - 1\<rparr> else p)"

text \<open>
  The block position \<open>(uint8_t)(lump * ((float)hight / max))\<close> is the integer quotient for
  the three pairs of height and maximum the windows use (48 and 5, 38 and 4, 38 and 9).
\<close>

definition scroll_block :: "lkdScroll \<Rightarrow> int \<Rightarrow> u8 \<Rightarrow> stmt" where
  "scroll_block p lumpsize fore =
     (let lumpAdd = (scr_y p + (scr_lump p * scr_hight p) div scr_max p) mod 256
      in if scr_lump p < scr_max p - 1
         then GuiFillRect (scr_x p + 1) (lumpAdd + 1) (scr_x p + 8) (lumpAdd + lumpsize) fore
         else GuiFillRect (scr_x p + 1) (scr_y p + scr_hight p - lumpsize)
                (scr_x p + 8) (scr_y p + scr_hight p - 1) fore)"

definition scroll_dots :: "lkdScroll \<Rightarrow> u8 \<Rightarrow> stmt" where
  "scroll_dots p back = block (map (\<lambda>i.
     GuiRPointLine (scr_x p + i) (1 + scr_y p + i mod 2) (scr_y p + scr_hight p - 2) 2 back)
     [1, 2, 3, 4, 5, 6, 7])"

definition GuiVScroll :: "nat \<Rightarrow> stmt" where
  "GuiVScroll i s =
     (let p = tScroll (ui s) i; fore = forecolor (ui s); back = backcolor (ui s) in
      if scr_x p + 9 > GUIXMAX \<or> scr_y p + scr_hight p > GUIYMAX then s
      else let s1 = GuiFillRect (scr_x p) (scr_y p) (scr_x p + 9) (scr_y p + scr_hight p - 1) fore s in
        if scr_max p \<ge> 1 then
          let lumpsize = (if scr_max p > 5 then scr_hight p div 7 else scr_hight p div scr_max p) mod 256;
              q = clamp_lump p
          in block [ui_update (tScroll_update (\<lambda>t. t(i := q))), scroll_dots q back, scroll_block q lumpsize fore] s1
        else s1)"

section \<open>Windows (lkdGuiWin.c)\<close>

definition GuiWinDraw :: "nat \<Rightarrow> stmt" where
  "GuiWinDraw w s =
     (let p = userMainWin (ui s) w; fore = forecolor (ui s) in
      if win_x p + win_wide p - 1 > GUIXMAX \<or> win_y p + win_hight p - 1 > GUIYMAX \<or>
         win_x p < 0 \<or> win_y p < 0 \<or> win_wide p = 0 \<or> win_hight p = 0 then s
      else block [
        (case win_title p of None \<Rightarrow> (\<lambda>s. s)
         | Some t \<Rightarrow> block [
             GuiFillRect (win_x p) (win_y p) (win_x p + win_wide p - 1) 11 fore,
             GuiExchangeColor,
             GuiRowText (win_x p + 4) (win_y p + 2) (win_wide p - 4) FONT_MID t,
             GuiExchangeColor]),
        GuiUpdateDisplayAll] s)"

definition GuiWinAdd :: "nat \<Rightarrow> stmt" where
  "GuiWinAdd w = block [
     GuiWinDraw w,
     (\<lambda>s. if pWin (ui s) \<ge> GUIWINMANAGE_NUM then s
          else ui_update (\<lambda>u. u\<lparr>winStack := (winStack u)(unat (pWin u) := w), pWin := pWin u + 1\<rparr>) s)]"

definition GuiWinDeleteTop :: stmt where
  "GuiWinDeleteTop s =
     (if pWin (ui s) \<le> 1 \<or> pWin (ui s) > GUIWINMANAGE_NUM then s
      else let s1 = ui_update (pWin_update (\<lambda>n. n - 1)) s
           in GuiWinDraw (winStack (ui s1) (unat (pWin (ui s1) - 1))) s1)"

definition GuiGetTopWin :: "sys \<Rightarrow> nat option" where
  "GuiGetTopWin s = (if pWin (ui s) \<ge> 1 then Some (winStack (ui s) (unat (pWin (ui s) - 1))) else None)"

definition GuiWinInit :: stmt where
  "GuiWinInit = ui_set pWin_update 0"

text \<open>The windows of \<open>lcd_display.c\<close>; 1, 3 and 25 have no title.\<close>

definition win_titles :: "(nat \<times> string) list" where
  "win_titles = [(2, ''Manual''), (4, ''Reminder''), (5, ''Automatic''), (6, ''Delta Pressure''),
     (7, ''Info''), (8, ''Backwash Counter''), (9, ''Counter Reading''), (10, ''Counter Reading''),
     (11, ''Counter Reading''), (12, ''Counter Reading''), (13, ''Info''), (14, ''Settings''),
     (15, ''Delta Set''), (16, ''Hardness Set''), (17, ''Backwash Time''), (18, ''Version''),
     (19, ''Factory''), (20, ''Language''), (21, ''Password''), (22, ''TDS Calibration''),
     (23, ''Cuttent Value''), (24, ''Calibration Value''), (26, ''Battery Empty''),
     (27, ''Not New Battery'')]"

definition userMainWin_init :: "nat \<Rightarrow> lkdWin" where
  "userMainWin_init w = \<lparr>win_x = 0, win_y = 0, win_wide = 128, win_hight = 64,
     win_title = map_of win_titles w\<rparr>"

section \<open>Statements shared by the window functions (lcd_display.c)\<close>

abbreviation edt_set :: "((('a \<Rightarrow> 'a) \<Rightarrow> edit_st \<Rightarrow> edit_st)) \<Rightarrow> 'a \<Rightarrow> stmt" where
  "edt_set upd v \<equiv> edt_update (upd (\<lambda>_. v))"

abbreviation cfg_set :: "((('a \<Rightarrow> 'a) \<Rightarrow> settings_st \<Rightarrow> settings_st)) \<Rightarrow> 'a \<Rightarrow> stmt" where
  "cfg_set upd v \<equiv> cfg_update (upd (\<lambda>_. v))"

definition setFirst :: "nat \<Rightarrow> u8 \<Rightarrow> stmt" where
  "setFirst i v = ui_update (FirstFlag_update (\<lambda>f. f(i := v)))"

text \<open>\<open>memset(FirstFlag,0,27)\<close>: bytes 0 to 26 of the thirty.\<close>

definition memset_FirstFlag :: stmt where
  "memset_FirstFlag = ui_update (FirstFlag_update (\<lambda>f i. if i < 27 then 0 else f i))"

text \<open>\<open>!x\<close>.\<close>

definition lnot :: "'a::len word \<Rightarrow> 'b::len word" where
  "lnot x = (if x = 0 then 1 else 0)"

text \<open>
  \<open>sprintf\<close> into an array of \<open>cap\<close> bytes; the terminating zero counts. A text that is too long is recorded,
  and the model goes on as if it had stayed in the array; in C the neighbours of the array are overwritten.
\<close>

definition sprintf_to :: "string \<Rightarrow> nat \<Rightarrow> string \<Rightarrow> stmt" where
  "sprintf_to buf cap txt s =
     (if length txt + 1 > cap then add_fault (BufOverflow buf cap (length txt + 1)) s else s)"

definition take_key ::
  "(key_st \<Rightarrow> rt_semaphore) \<Rightarrow> ((rt_semaphore \<Rightarrow> rt_semaphore) \<Rightarrow> key_st \<Rightarrow> key_st) \<Rightarrow>
   ((int \<Rightarrow> int) \<Rightarrow> ui_st \<Rightarrow> ui_st) \<Rightarrow> stmt" where
  "take_key sel upd st s = (case rt_sem_trytake (sel (kys s)) of
      (r, m) \<Rightarrow> ui_set st r (kys_update (upd (\<lambda>_. m)) s))"

text \<open>The four \<open>rt_sem_take(..., 0)\<close> at the head of every window's key handling.\<close>

definition take_keys :: stmt where
  "take_keys = block [
     take_key K0_Sem K0_Sem_update K0_Status_update,
     take_key K1_Sem K1_Sem_update K1_Status_update,
     take_key K2_Sem K2_Sem_update K2_Status_update,
     take_key K2_Long_Sem K2_Long_Sem_update K2_Long_Status_update]"

abbreviation K0_pressed :: "sys \<Rightarrow> bool" where "K0_pressed s \<equiv> K0_Status (ui s) = RT_EOK"
abbreviation K1_pressed :: "sys \<Rightarrow> bool" where "K1_pressed s \<equiv> K1_Status (ui s) = RT_EOK"
abbreviation K2_pressed :: "sys \<Rightarrow> bool" where "K2_pressed s \<equiv> K2_Status (ui s) = RT_EOK"
abbreviation K2_long_pressed :: "sys \<Rightarrow> bool" where "K2_long_pressed s \<equiv> K2_Long_Status (ui s) = RT_EOK"

abbreviation now_btn :: "sys \<Rightarrow> nat" where "now_btn s \<equiv> unat (NowButtonId (ui s))"

definition GuiButton_now :: stmt where
  "GuiButton_now s = GuiButton (now_btn s) s"

definition set_flag_now :: "u8 \<Rightarrow> stmt" where
  "set_flag_now v s = tButton_upd (now_btn s) (btn_flag_update (\<lambda>_. v)) s"

definition scroll_to_now :: stmt where
  "scroll_to_now s = ui_update (tScroll_update (\<lambda>t. t(0 := (t 0)\<lparr>scr_lump := int (now_btn s)\<rparr>))) s"

definition set_scroll :: "int \<Rightarrow> int \<Rightarrow> int \<Rightarrow> int \<Rightarrow> int \<Rightarrow> stmt" where
  "set_scroll mx x y h l = ui_update (tScroll_update (\<lambda>t. t(0 :=
     \<lparr>scr_x = x, scr_y = y, scr_hight = h, scr_max = mx, scr_lump = l\<rparr>)))"

definition rt_hw_cpu_reset :: stmt where
  "rt_hw_cpu_reset = board_update (cpu_reset_update (\<lambda>_. True))"

end
