(* ===== verification/Windows1.thy ===== *)
theory Windows1
  imports LkdGui
begin

text \<open>
  The windows 1 to 6 of \<open>lcd/lcd_display.c\<close>, statement by statement. The function of a window
  draws it when its \<open>FirstFlag\<close> is 0 and handles the keys otherwise; \<open>disp\<close> is the call of
  \<open>GuiWinDisplay\<close>, which runs the function of the window then on top. A button's \<open>name\<close>
  points into a text or into the array last printed with \<open>sprintf\<close>; log calls and delays are
  left out.
\<close>

section \<open>Texts\<close>

abbreviation txt_Manual :: string where "txt_Manual \<equiv> ''Manual''"
abbreviation txt_Reminder :: string where "txt_Reminder \<equiv> ''Reminder''"
abbreviation txt_Automatic :: string where "txt_Automatic \<equiv> ''Automatic''"
abbreviation txt_Delta1 :: string where "txt_Delta1 \<equiv> ''Delta Press''"
abbreviation txt_Delta2 :: string where "txt_Delta2 \<equiv> ''Delta Press(M)''"
abbreviation txt_Delta3 :: string where "txt_Delta3 \<equiv> ''Delta Press(A)''"
abbreviation txt_Info :: string where "txt_Info \<equiv> ''Info''"
abbreviation txt_Back :: string where "txt_Back \<equiv> ''Back       Select''"
abbreviation txt_SingleYes :: string where "txt_SingleYes \<equiv> ''              Yes''"
abbreviation txt_SingleSelect :: string where "txt_SingleSelect \<equiv> ''           Select''"
abbreviation txt_SingleRightBack :: string where "txt_SingleRightBack \<equiv> ''             Back''"
abbreviation txt_LowSelect :: string where "txt_LowSelect \<equiv> ''<BAT LOW>  Select''"
abbreviation txt_YesOrNo :: string where "txt_YesOrNo \<equiv> ''No            Yes''"
abbreviation txt_Delta_Pressure :: string where "txt_Delta_Pressure \<equiv> ''Delta Pressure''"
abbreviation txt_Water_Hardness :: string where "txt_Water_Hardness \<equiv> ''Water Hardness''"
abbreviation txt_Backwash_Time :: string where "txt_Backwash_Time \<equiv> ''Backwash Time''"
abbreviation txt_Version :: string where "txt_Version \<equiv> ''Version''"
abbreviation txt_Factory :: string where "txt_Factory \<equiv> ''Factory''"
abbreviation txt_Language :: string where "txt_Language \<equiv> ''Language''"
abbreviation txt_Update_FW :: string where "txt_Update_FW \<equiv> ''Update FW''"
abbreviation txt_Smart_Link :: string where "txt_Smart_Link \<equiv> ''Smart Link''"
abbreviation txt_TDS_MODE :: string where "txt_TDS_MODE \<equiv> ''TDS Value''"

section \<open>Window 1: main menu\<close>

definition Win1_page0 :: stmt where
  "Win1_page0 = block [
     ui_set NowButtonId_update 0,
     set_scroll 5 119 2 48 0,
     GuiVScroll 0,
     tButton_upd 0 (\<lambda>b. b\<lparr>btn_x := 0, btn_y := 0, btn_wide := 117, btn_high := 15, btn_name := txt_Manual, btn_linesize := 0, btn_flag := 1\<rparr>),
     (\<lambda>s. tButton_upd 1 (\<lambda>b. b\<lparr>btn_x := 0, btn_y := 11, btn_wide := 117, btn_high := 15, btn_name := txt_Reminder, btn_linesize := 60 - (lnot (Reminder_Enable (cfg s))) * 60, btn_flag := 0\<rparr>) s),
     (\<lambda>s. tButton_upd 2 (\<lambda>b. b\<lparr>btn_x := 0, btn_y := 24, btn_wide := 117, btn_high := 15, btn_name := txt_Automatic, btn_linesize := 70 - (lnot (Automatic_Enable (cfg s))) * 70, btn_flag := 0\<rparr>) s),
     (\<lambda>s. tButton_upd 3 (\<lambda>b. b\<lparr>btn_x := 0, btn_y := 36, btn_high := 15, btn_wide := 117, btn_name := txt_Delta_Pressure, btn_linesize := 70 - (lnot (Deltapress_Enable (cfg s))) * 70\<rparr>) s),
     ifS (\<lambda>s. Deltapress_Enable (cfg s) \<noteq> 0)
       (ifS (\<lambda>s. Setting_Deltapress (cfg s) \<noteq> 0)
           (\<lambda>s. tButton_upd 3 (\<lambda>b. b\<lparr>btn_wide := 110, btn_linesize := 100 - (lnot (Deltapress_Enable (cfg s))) * 100, btn_name := txt_Delta3\<rparr>) s)
           (\<lambda>s. tButton_upd 3 (\<lambda>b. b\<lparr>btn_wide := 110, btn_linesize := 100 - (lnot (Deltapress_Enable (cfg s))) * 100, btn_name := txt_Delta2\<rparr>) s))
       (tButton_upd 3 (\<lambda>b. b\<lparr>btn_linesize := 0, btn_wide := 117, btn_name := txt_Delta1\<rparr>)),
     tButton_upd 3 (\<lambda>b. b\<lparr>btn_flag := 0\<rparr>),
     tButton_upd 4 (\<lambda>b. b\<lparr>btn_x := 0, btn_y := 51, btn_wide := 128, btn_high := 15\<rparr>),
     ifS (\<lambda>s. LowVoltageFlag (bat s) \<noteq> 0)
       (tButton_upd 4 (\<lambda>b. b\<lparr>btn_name := txt_LowSelect\<rparr>))
       (tButton_upd 4 (\<lambda>b. b\<lparr>btn_name := txt_SingleSelect\<rparr>)),
     tButton_upd 4 (\<lambda>b. b\<lparr>btn_flag := 1\<rparr>),
     GuiButton 4,
     GuiButton 0,
     GuiButton 1,
     GuiButton 2,
     GuiButton 3,
     setFirst 1 1]"

definition Win1_page1 :: stmt where
  "Win1_page1 = block [
     GuiClearScreen 0,
     (\<lambda>s. set_scroll 5 119 2 48 (int (now_btn s)) s),
     GuiVScroll 0,
     tButton_upd 0 (\<lambda>b. b\<lparr>btn_x := 0, btn_y := 0, btn_wide := 117, btn_high := 15, btn_name := txt_Info, btn_linesize := 0, btn_flag := 1\<rparr>),
     GuiButton 0,
     tButton_upd 4 (\<lambda>b. b\<lparr>btn_x := 0, btn_y := 51, btn_wide := 128, btn_high := 15\<rparr>),
     ifS (\<lambda>s. LowVoltageFlag (bat s) \<noteq> 0)
       (tButton_upd 4 (\<lambda>b. b\<lparr>btn_name := txt_LowSelect\<rparr>))
       (tButton_upd 4 (\<lambda>b. b\<lparr>btn_name := txt_SingleSelect\<rparr>)),
     tButton_upd 4 (\<lambda>b. b\<lparr>btn_flag := 1\<rparr>),
     GuiButton 4,
     setFirst 1 1]"

definition Win1_page2 :: stmt where
  "Win1_page2 = block [
     ui_set NowButtonId_update 3,
     GuiClearScreen 0,
     (\<lambda>s. set_scroll 5 119 2 48 (int (now_btn s)) s),
     GuiVScroll 0,
     tButton_upd 0 (\<lambda>b. b\<lparr>btn_x := 0, btn_y := 0, btn_wide := 117, btn_high := 15, btn_name := txt_Manual, btn_linesize := 0, btn_flag := 0\<rparr>),
     (\<lambda>s. tButton_upd 1 (\<lambda>b. b\<lparr>btn_x := 0, btn_y := 11, btn_wide := 117, btn_high := 15, btn_name := txt_Reminder, btn_linesize := 60 - (lnot (Reminder_Enable (cfg s))) * 60, btn_flag := 0\<rparr>) s),
     (\<lambda>s. tButton_upd 2 (\<lambda>b. b\<lparr>btn_x := 0, btn_y := 24, btn_wide := 117, btn_high := 15, btn_name := txt_Automatic, btn_linesize := 70 - (lnot (Automatic_Enable (cfg s))) * 70, btn_flag := 0\<rparr>) s),
     (\<lambda>s. tButton_upd 3 (\<lambda>b. b\<lparr>btn_x := 0, btn_y := 36, btn_high := 15, btn_wide := 117, btn_name := txt_Delta_Pressure, btn_linesize := 70 - (lnot (Deltapress_Enable (cfg s))) * 70\<rparr>) s),
     ifS (\<lambda>s. Deltapress_Enable (cfg s) \<noteq> 0)
       (ifS (\<lambda>s. Setting_Deltapress (cfg s) \<noteq> 0)
           (\<lambda>s. tButton_upd 3 (\<lambda>b. b\<lparr>btn_wide := 110, btn_linesize := 100 - (lnot (Deltapress_Enable (cfg s))) * 100, btn_name := txt_Delta3\<rparr>) s)
           (\<lambda>s. tButton_upd 3 (\<lambda>b. b\<lparr>btn_wide := 110, btn_linesize := 100 - (lnot (Deltapress_Enable (cfg s))) * 100, btn_name := txt_Delta2\<rparr>) s))
       (tButton_upd 3 (\<lambda>b. b\<lparr>btn_linesize := 0, btn_wide := 117, btn_name := txt_Delta1\<rparr>)),
     tButton_upd 3 (\<lambda>b. b\<lparr>btn_flag := 1\<rparr>),
     tButton_upd 4 (\<lambda>b. b\<lparr>btn_x := 0, btn_y := 51, btn_wide := 128, btn_high := 15\<rparr>),
     ifS (\<lambda>s. LowVoltageFlag (bat s) \<noteq> 0)
       (tButton_upd 4 (\<lambda>b. b\<lparr>btn_name := txt_LowSelect\<rparr>))
       (tButton_upd 4 (\<lambda>b. b\<lparr>btn_name := txt_SingleSelect\<rparr>)),
     tButton_upd 4 (\<lambda>b. b\<lparr>btn_flag := 1\<rparr>),
     GuiButton 4,
     GuiButton 0,
     GuiButton 1,
     GuiButton 2,
     GuiButton 3,
     setFirst 1 1]"

definition Win1_first :: stmt where
  "Win1_first = switchS (\<lambda>s. Win1PageID (ui s)) [(0, Win1_page0), (1, Win1_page1), (2, Win1_page2)] (\<lambda>s. s)"

definition Win1_keys :: "(sys \<Rightarrow> sys) \<Rightarrow> stmt" where
  "Win1_keys disp = block [
     ifS (\<lambda>s. LowVoltageFlag (bat s) \<noteq> 0)
       (tButton_upd 4 (\<lambda>b. b\<lparr>btn_name := txt_LowSelect\<rparr>))
       (tButton_upd 4 (\<lambda>b. b\<lparr>btn_name := txt_SingleSelect\<rparr>)),
     GuiButton 4,
     take_keys,
     whenS (\<lambda>s. K2_long_pressed s) (block [
       setFirst 1 0,
       GuiClearScreen 0,
       GuiWinAdd 14,
       disp]),
     whenS (\<lambda>s. K0_pressed s) (block [
       switchS (\<lambda>s. NowButtonId (ui s)) [
         (0, block [
           ui_set NowButtonId_update 4,
           ui_set Win1PageID_update 1,
           setFirst 1 0]),
         (4, block [
           ui_update (NowButtonId_update (\<lambda>v. v - 1)),
           ui_set Win1PageID_update 2,
           setFirst 1 0])]
         (block [
           set_flag_now 0,
           GuiButton_now,
           ifS (\<lambda>s. NowButtonId (ui s) \<ge> 1)
             (ui_update (NowButtonId_update (\<lambda>v. v - 1)))
             (ui_set NowButtonId_update 4),
           set_flag_now 1,
           GuiButton_now]),
       scroll_to_now,
       GuiVScroll 0]),
     whenS (\<lambda>s. K1_pressed s) (block [
       switchS (\<lambda>s. NowButtonId (ui s)) [
         (3, block [
           ui_set Win1PageID_update 1,
           setFirst 1 0,
           ui_update (NowButtonId_update (\<lambda>v. v + 1))]),
         (4, block [
           ui_update (NowButtonId_update (\<lambda>v. v + 1)),
           ui_set Win1PageID_update 0,
           setFirst 1 0])]
         (block [
           set_flag_now 0,
           GuiButton_now,
           ui_update (NowButtonId_update (\<lambda>v. v + 1)),
           set_flag_now 1,
           GuiButton_now]),
       scroll_to_now,
       GuiVScroll 0]),
     whenS (\<lambda>s. K2_pressed s) (block [
       ui_set Win1PageID_update 0,
       GuiClearScreen 0,
       switchS (\<lambda>s. NowButtonId (ui s)) [
         (0, GuiWinAdd 2),
         (1, GuiWinAdd 4),
         (2, block [
           ui_update (userMainWin_update (\<lambda>w. w(5 := (w 5)\<lparr>win_x := 0\<rparr>))),
           ui_update (userMainWin_update (\<lambda>w. w(5 := (w 5)\<lparr>win_y := 0\<rparr>))),
           GuiWinAdd 5]),
         (3, GuiWinAdd 6),
         (4, GuiWinAdd 7)]
         (\<lambda>s. s),
       setFirst 1 0])]"

definition UserMain1WinFun :: "(sys \<Rightarrow> sys) \<Rightarrow> stmt" where
  "UserMain1WinFun disp = ifS (\<lambda>s. FirstFlag (ui s) 1 = 0) Win1_first (Win1_keys disp)"

section \<open>Window 2: manual backwash\<close>

definition Win2_first :: stmt where
  "Win2_first = block [
     setFirst 2 1,
     ui_set NowButtonId_update 0,
     tButton_upd 0 (\<lambda>b. b\<lparr>btn_x := 20, btn_y := 15, btn_wide := 90, btn_high := 15, btn_name := ''Backwash Now'', btn_linesize := 0, btn_flag := 1\<rparr>),
     GuiButton 0,
     tButton_upd 1 (\<lambda>b. b\<lparr>btn_x := 45, btn_y := 30, btn_wide := 36, btn_high := 15, btn_name := ''Exit'', btn_linesize := 0, btn_flag := 0\<rparr>),
     GuiButton 1,
     tButton_upd 2 (\<lambda>b. b\<lparr>btn_x := 0, btn_y := 50, btn_wide := 128, btn_high := 15, btn_name := txt_SingleSelect, btn_linesize := 0, btn_flag := 1\<rparr>),
     GuiButton 2]"

definition Win2_keys :: stmt where
  "Win2_keys = block [
     take_keys,
     whenS (\<lambda>s. K0_pressed s) (switchS (\<lambda>s. NowButtonId (ui s)) [
         (0, block [
           ui_set NowButtonId_update 1,
           tButton_upd 0 (\<lambda>b. b\<lparr>btn_flag := 0\<rparr>),
           tButton_upd 1 (\<lambda>b. b\<lparr>btn_flag := 1\<rparr>),
           GuiButton 0,
           GuiButton 1]),
         (1, block [
           ui_set NowButtonId_update 0,
           tButton_upd 0 (\<lambda>b. b\<lparr>btn_flag := 1\<rparr>),
           tButton_upd 1 (\<lambda>b. b\<lparr>btn_flag := 0\<rparr>),
           GuiButton 0,
           GuiButton 1])]
         (\<lambda>s. s)),
     whenS (\<lambda>s. K1_pressed s) (switchS (\<lambda>s. NowButtonId (ui s)) [
         (0, block [
           ui_set NowButtonId_update 1,
           tButton_upd 0 (\<lambda>b. b\<lparr>btn_flag := 0\<rparr>),
           tButton_upd 1 (\<lambda>b. b\<lparr>btn_flag := 1\<rparr>),
           GuiButton 0,
           GuiButton 1]),
         (1, block [
           ui_set NowButtonId_update 0,
           tButton_upd 0 (\<lambda>b. b\<lparr>btn_flag := 1\<rparr>),
           tButton_upd 1 (\<lambda>b. b\<lparr>btn_flag := 0\<rparr>),
           GuiButton 0,
           GuiButton 1])]
         (\<lambda>s. s)),
     whenS (\<lambda>s. K2_pressed s) (ifS (\<lambda>s. NowButtonId (ui s) = 0)
         (block [
           setFirst 2 0,
           cfg_update (Counter_Manual_update (\<lambda>v. v + 1)),
           (\<lambda>s. Flash_Set 8 (ucast (Counter_Manual (cfg s))) s),
           Moto_Cycle,
           GuiClearScreen 0,
           GuiWinAdd 3])
         (block [
           GuiClearScreen 0,
           GuiWinDeleteTop,
           setFirst 2 0]))]"

definition UserMain2WinFun :: "(sys \<Rightarrow> sys) \<Rightarrow> stmt" where
  "UserMain2WinFun disp = ifS (\<lambda>s. FirstFlag (ui s) 2 = 0) Win2_first Win2_keys"

section \<open>Window 3: backwash in progress\<close>

text \<open>Four seconds after the finish message the display is closed by a synthetic key press.\<close>

definition SemJump :: stmt where
  "SemJump = block [
     timer_create SemJump_Timer_update K2_Setjump_Sem_Release 4000,
     timer_start SemJump_Timer]"

definition Win3_first :: stmt where
  "Win3_first = block [
     setFirst 3 1,
     ui_set Jump_Flag_update 0,
     GuiClearScreen 0,
     GuiRowText 35 15 57 FONT_LEFT ''Backwash'',
     GuiRowText 30 27 70 FONT_LEFT ''In progress'',
     GuiRowText 25 39 85 FONT_LEFT ''-->-->-->-->'',
     GuiRowText 106 56 30 FONT_LEFT ''   '']"

text \<open>The \<open>switch(e)\<close> of the window: exact values again.\<close>

definition Win3_event :: "u32 \<Rightarrow> stmt" where
  "Win3_event e = switchS (\<lambda>_. e) [
     (JUMP_TDS, block [
       GuiClearScreen 0,
       GuiRowText 0 1 125 FONT_LEFT ''Increased water'',
       GuiRowText 0 13 125 FONT_LEFT ''hardness'',
       GuiRowText 0 25 127 FONT_LEFT ''The use of a water'',
       GuiRowText 0 37 125 FONT_LEFT ''soft system'',
       GuiRowText 0 49 125 FONT_LEFT ''is recommended'',
       GuiRowText 106 56 30 FONT_LEFT ''Yes'',
       ui_set Jump_Flag_update 1]),
     (JUMP_STALLING, block [
       GuiClearScreen 0,
       GuiRowText 50 15 127 FONT_LEFT ''Error'',
       GuiRowText 15 30 127 FONT_LEFT ''Motor Stalling'',
       GuiRowText 106 56 30 FONT_LEFT ''Yes'',
       Red_Light,
       ui_set Jump_Flag_update 1]),
     (JUMP_FINISH, block [
       GuiClearScreen 0,
       GuiRowText 35 15 57 FONT_LEFT ''Backwash'',
       GuiRowText 40 27 70 FONT_LEFT ''Finish'',
       GuiRowText 106 56 30 FONT_LEFT ''Yes'',
       ui_set Jump_Flag_update 1,
       SemJump]),
     (JUMP_NOMOTO, block [
       GuiClearScreen 0,
       GuiRowText 50 15 127 FONT_LEFT ''Error'',
       GuiRowText 40 30 127 FONT_LEFT ''No Motor'',
       GuiRowText 106 56 30 FONT_LEFT ''Yes'',
       Red_Light,
       ui_set Jump_Flag_update 1]),
     (JUMP_EXIT, block [
       setFirst 3 0,
       GuiClearScreen 0,
       GuiWinInit,
       GuiWinAdd 1,
       Red_Off,
       Green_Off,
       ui_set Jump_Flag_update 1])] (\<lambda>s. s)"

definition Win3_recv :: stmt where
  "Win3_recv s = (case event_poll (JUMP_TDS OR JUMP_STALLING OR JUMP_FINISH OR JUMP_NOMOTO OR JUMP_EXIT)
                       (lcd_jump_event (jmp s)) of
      (got, ev) \<Rightarrow> (let s1 = jmp_update (lcd_jump_event_update (\<lambda>_. ev)) s
                    in case got of None \<Rightarrow> s1 | Some e \<Rightarrow> Win3_event e s1))"

definition Win3_keys :: stmt where
  "Win3_keys = block [
     Win3_recv,
     take_keys,
     whenS (\<lambda>s. K2_pressed s \<and> Jump_Flag (ui s) = 1) (block [
       setFirst 3 0,
       GuiClearScreen 0,
       GuiWinInit,
       GuiWinAdd 1,
       Red_Off,
       Green_Off])]"

definition UserMain3WinFun :: "(sys \<Rightarrow> sys) \<Rightarrow> stmt" where
  "UserMain3WinFun disp = ifS (\<lambda>s. FirstFlag (ui s) 3 = 0) Win3_first Win3_keys"

section \<open>Window 4: reminder period\<close>

definition Win4_first :: stmt where
  "Win4_first = block [
     (\<lambda>s. edt_set Reminder_Week_Temp_update (Reminder_Week (cfg s)) s),
     (\<lambda>s. edt_set Reminder_Day_Temp_update (Reminder_Day (cfg s)) s),
     (\<lambda>s. edt_set Reminder_Enable_Temp_update (Reminder_Enable (cfg s)) s),
     setFirst 4 1,
     tButton_upd 0 (\<lambda>b. b\<lparr>btn_x := 0, btn_y := 50, btn_wide := 128, btn_high := 15, btn_name := txt_SingleSelect, btn_linesize := 0, btn_flag := 1\<rparr>),
     GuiButton 0,
     (\<lambda>s. sprintf_to ''weekstring'' 3 (''Weeks:'' @ fmt_0d 2 (uint (Reminder_Week (cfg s)))) s),
     (\<lambda>s. tButton_upd 1 (\<lambda>b. b\<lparr>btn_x := 33, btn_y := 12, btn_wide := 60, btn_high := 15, btn_name := ''Weeks:'' @ fmt_0d 2 (uint (Reminder_Week (cfg s))), btn_linesize := 0, btn_flag := 1\<rparr>) s),
     GuiButton 1,
     (\<lambda>s. sprintf_to ''daystring'' 3 (''Days:'' @ fmt_0d 2 (uint (Reminder_Day (cfg s)))) s),
     (\<lambda>s. tButton_upd 2 (\<lambda>b. b\<lparr>btn_x := 34, btn_y := 24, btn_wide := 55, btn_high := 15, btn_name := ''Days:'' @ fmt_0d 2 (uint (Reminder_Day (cfg s))), btn_linesize := 0, btn_flag := 0\<rparr>) s),
     GuiButton 2,
     tButton_upd 3 (\<lambda>b. b\<lparr>btn_x := 36, btn_y := 36, btn_wide := 55, btn_high := 15\<rparr>),
     ifS (\<lambda>s. Reminder_Enable_Temp (edt s) \<noteq> 0)
       (tButton_upd 3 (\<lambda>b. b\<lparr>btn_name := ''Enable''\<rparr>))
       (tButton_upd 3 (\<lambda>b. b\<lparr>btn_name := ''Disable''\<rparr>)),
     tButton_upd 3 (\<lambda>b. b\<lparr>btn_linesize := 0, btn_flag := 0\<rparr>),
     GuiButton 3]"

definition Win4_keys :: "(sys \<Rightarrow> sys) \<Rightarrow> stmt" where
  "Win4_keys disp = block [
     take_keys,
     whenS (\<lambda>s. K0_pressed s) (switchS (\<lambda>s. NowSetting (ui s)) [
         (0, block [
           edt_update (Reminder_Week_Temp_update (\<lambda>v. if v = 0 then 51 else v - 1)),
           (\<lambda>s. sprintf_to ''weekstring'' 3 (''Weeks:'' @ fmt_0d 2 (uint (Reminder_Week_Temp (edt s)))) s),
           (\<lambda>s. tButton_upd 1 (\<lambda>b. b\<lparr>btn_name := ''Weeks:'' @ fmt_0d 2 (uint (Reminder_Week_Temp (edt s)))\<rparr>) s),
           GuiButton 1]),
         (1, block [
           edt_update (Reminder_Day_Temp_update (\<lambda>v. if v = 0 then 6 else v - 1)),
           (\<lambda>s. sprintf_to ''daystring'' 3 (''Days:'' @ fmt_0d 2 (uint (Reminder_Day_Temp (edt s)))) s),
           (\<lambda>s. tButton_upd 2 (\<lambda>b. b\<lparr>btn_name := ''Days:'' @ fmt_0d 2 (uint (Reminder_Day_Temp (edt s)))\<rparr>) s),
           GuiButton 2]),
         (2, block [
           ifS (\<lambda>s. Reminder_Enable_Temp (edt s) > 0)
             (edt_update (Reminder_Enable_Temp_update (\<lambda>v. v - 1)))
             (edt_set Reminder_Enable_Temp_update 2),
           ifS (\<lambda>s. Reminder_Enable_Temp (edt s) = 0)
             (block [
               tButton_upd 3 (\<lambda>b. b\<lparr>btn_name := ''Disable''\<rparr>),
               GuiButton 3])
             (ifS (\<lambda>s. Reminder_Enable_Temp (edt s) = 1)
                 (block [
                   tButton_upd 3 (\<lambda>b. b\<lparr>btn_name := ''Enable''\<rparr>),
                   GuiButton 3])
                 (whenS (\<lambda>s. Reminder_Enable_Temp (edt s) = 2) (block [
                     tButton_upd 3 (\<lambda>b. b\<lparr>btn_name := '' Exit''\<rparr>),
                     GuiButton 3])))])]
         (\<lambda>s. s)),
     whenS (\<lambda>s. K1_pressed s) (switchS (\<lambda>s. NowSetting (ui s)) [
         (0, block [
           edt_update (Reminder_Week_Temp_update (\<lambda>v. if v \<ge> 51 then 0 else v + 1)),
           (\<lambda>s. sprintf_to ''weekstring'' 3 (''Weeks:'' @ fmt_0d 2 (uint (Reminder_Week_Temp (edt s)))) s),
           (\<lambda>s. tButton_upd 1 (\<lambda>b. b\<lparr>btn_name := ''Weeks:'' @ fmt_0d 2 (uint (Reminder_Week_Temp (edt s)))\<rparr>) s),
           GuiButton 1]),
         (1, block [
           edt_update (Reminder_Day_Temp_update (\<lambda>v. if v \<ge> 6 then 0 else v + 1)),
           (\<lambda>s. sprintf_to ''daystring'' 3 (''Days:'' @ fmt_0d 2 (uint (Reminder_Day_Temp (edt s)))) s),
           (\<lambda>s. tButton_upd 2 (\<lambda>b. b\<lparr>btn_name := ''Days:'' @ fmt_0d 2 (uint (Reminder_Day_Temp (edt s)))\<rparr>) s),
           GuiButton 2]),
         (2, block [
           ifS (\<lambda>s. Reminder_Enable_Temp (edt s) < 2)
             (edt_update (Reminder_Enable_Temp_update (\<lambda>v. v + 1)))
             (edt_set Reminder_Enable_Temp_update 0),
           ifS (\<lambda>s. Reminder_Enable_Temp (edt s) = 0)
             (block [
               tButton_upd 3 (\<lambda>b. b\<lparr>btn_name := ''Disable''\<rparr>),
               GuiButton 3])
             (ifS (\<lambda>s. Reminder_Enable_Temp (edt s) = 1)
                 (block [
                   tButton_upd 3 (\<lambda>b. b\<lparr>btn_name := ''Enable''\<rparr>),
                   GuiButton 3])
                 (whenS (\<lambda>s. Reminder_Enable_Temp (edt s) = 2) (block [
                     tButton_upd 3 (\<lambda>b. b\<lparr>btn_name := '' Exit''\<rparr>),
                     GuiButton 3])))])]
         (\<lambda>s. s)),
     whenS (\<lambda>s. K2_pressed s) (ifS (\<lambda>s. Reminder_Enable_Temp (edt s) = 2)
         (block [
           ui_set NowSetting_update 0,
           GuiClearScreen 0,
           GuiWinDeleteTop,
           disp,
           setFirst 4 0])
         (switchS (\<lambda>s. NowSetting (ui s)) [
             (0, block [
               tButton_upd 1 (\<lambda>b. b\<lparr>btn_flag := 0\<rparr>),
               GuiButton 1,
               tButton_upd 2 (\<lambda>b. b\<lparr>btn_flag := 1\<rparr>),
               GuiButton 2,
               tButton_upd 3 (\<lambda>b. b\<lparr>btn_flag := 0\<rparr>),
               GuiButton 3,
               ui_update (NowSetting_update (\<lambda>v. v + 1))]),
             (1, block [
               tButton_upd 1 (\<lambda>b. b\<lparr>btn_flag := 0\<rparr>),
               GuiButton 1,
               tButton_upd 2 (\<lambda>b. b\<lparr>btn_flag := 0\<rparr>),
               GuiButton 2,
               tButton_upd 3 (\<lambda>b. b\<lparr>btn_flag := 1\<rparr>),
               GuiButton 3,
               ui_update (NowSetting_update (\<lambda>v. v + 1))]),
             (2, block [
               setFirst 4 0,
               ui_set NowSetting_update 0,
               whenS (\<lambda>s. Reminder_Week_Temp (edt s) = 0 \<and> Reminder_Day_Temp (edt s) = 0) (edt_set Reminder_Day_Temp_update 1),
               (\<lambda>s. cfg_set Reminder_Week_update (Reminder_Week_Temp (edt s)) s),
               (\<lambda>s. Flash_Set 1 (ucast (Reminder_Week_Temp (edt s))) s),
               (\<lambda>s. cfg_set Reminder_Day_update (Reminder_Day_Temp (edt s)) s),
               (\<lambda>s. Flash_Set 2 (ucast (Reminder_Day_Temp (edt s))) s),
               rtc_update (RTC_Reminder_Time_update (\<lambda>_. 0)),
               (\<lambda>s. cfg_set Reminder_Enable_update (Reminder_Enable_Temp (edt s)) s),
               (\<lambda>s. Flash_Set 3 (ucast (Reminder_Enable_Temp (edt s))) s),
               GuiClearScreen 0,
               GuiWinDeleteTop])]
             (\<lambda>s. s)))]"

definition UserMain4WinFun :: "(sys \<Rightarrow> sys) \<Rightarrow> stmt" where
  "UserMain4WinFun disp = ifS (\<lambda>s. FirstFlag (ui s) 4 = 0) Win4_first (Win4_keys disp)"

section \<open>Window 5: automatic period\<close>

definition Win5_first :: stmt where
  "Win5_first = block [
     (\<lambda>s. edt_set Automatic_Week_Temp_update (Automatic_Week (cfg s)) s),
     (\<lambda>s. edt_set Automatic_Day_Temp_update (Automatic_Day (cfg s)) s),
     (\<lambda>s. edt_set Automatic_Enable_Temp_update (Automatic_Enable (cfg s)) s),
     setFirst 5 1,
     tButton_upd 0 (\<lambda>b. b\<lparr>btn_x := 0, btn_y := 50, btn_wide := 128, btn_high := 15, btn_name := txt_SingleSelect, btn_linesize := 0, btn_flag := 1\<rparr>),
     GuiButton 0,
     (\<lambda>s. sprintf_to ''weekstring'' 3 (''Weeks:'' @ fmt_0d 2 (uint (Automatic_Week (cfg s)))) s),
     (\<lambda>s. tButton_upd 1 (\<lambda>b. b\<lparr>btn_x := 33, btn_y := 12, btn_wide := 60, btn_high := 15, btn_name := ''Weeks:'' @ fmt_0d 2 (uint (Automatic_Week (cfg s))), btn_linesize := 0, btn_flag := 1\<rparr>) s),
     GuiButton 1,
     (\<lambda>s. sprintf_to ''daystring'' 3 (''Days:'' @ fmt_0d 2 (uint (Automatic_Day (cfg s)))) s),
     (\<lambda>s. tButton_upd 2 (\<lambda>b. b\<lparr>btn_x := 34, btn_y := 24, btn_wide := 55, btn_high := 15, btn_name := ''Days:'' @ fmt_0d 2 (uint (Automatic_Day (cfg s))), btn_linesize := 0, btn_flag := 0\<rparr>) s),
     GuiButton 2,
     tButton_upd 3 (\<lambda>b. b\<lparr>btn_x := 36, btn_y := 36, btn_wide := 55, btn_high := 15\<rparr>),
     ifS (\<lambda>s. Automatic_Enable_Temp (edt s) \<noteq> 0)
       (tButton_upd 3 (\<lambda>b. b\<lparr>btn_name := ''Enable''\<rparr>))
       (tButton_upd 3 (\<lambda>b. b\<lparr>btn_name := ''Disable''\<rparr>)),
     tButton_upd 3 (\<lambda>b. b\<lparr>btn_linesize := 0, btn_flag := 0\<rparr>),
     GuiButton 3]"

definition Win5_keys :: "(sys \<Rightarrow> sys) \<Rightarrow> stmt" where
  "Win5_keys disp = block [
     take_keys,
     whenS (\<lambda>s. K0_pressed s) (switchS (\<lambda>s. NowSetting (ui s)) [
         (0, block [
           edt_update (Automatic_Week_Temp_update (\<lambda>v. if v = 0 then 51 else v - 1)),
           (\<lambda>s. sprintf_to ''weekstring'' 3 (''Weeks:'' @ fmt_0d 2 (uint (Automatic_Week_Temp (edt s)))) s),
           (\<lambda>s. tButton_upd 1 (\<lambda>b. b\<lparr>btn_name := ''Weeks:'' @ fmt_0d 2 (uint (Automatic_Week_Temp (edt s)))\<rparr>) s),
           GuiButton 1]),
         (1, block [
           edt_update (Automatic_Day_Temp_update (\<lambda>v. if v = 0 then 6 else v - 1)),
           (\<lambda>s. sprintf_to ''daystring'' 3 (''Days:'' @ fmt_0d 2 (uint (Automatic_Day_Temp (edt s)))) s),
           (\<lambda>s. tButton_upd 2 (\<lambda>b. b\<lparr>btn_name := ''Days:'' @ fmt_0d 2 (uint (Automatic_Day_Temp (edt s)))\<rparr>) s),
           GuiButton 2]),
         (2, block [
           ifS (\<lambda>s. Automatic_Enable_Temp (edt s) > 0)
             (edt_update (Automatic_Enable_Temp_update (\<lambda>v. v - 1)))
             (edt_set Automatic_Enable_Temp_update 2),
           ifS (\<lambda>s. Automatic_Enable_Temp (edt s) = 0)
             (block [
               tButton_upd 3 (\<lambda>b. b\<lparr>btn_name := ''Disable''\<rparr>),
               GuiButton 3])
             (ifS (\<lambda>s. Automatic_Enable_Temp (edt s) = 1)
                 (block [
                   tButton_upd 3 (\<lambda>b. b\<lparr>btn_name := ''Enable''\<rparr>),
                   GuiButton 3])
                 (whenS (\<lambda>s. Automatic_Enable_Temp (edt s) = 2) (block [
                     tButton_upd 3 (\<lambda>b. b\<lparr>btn_name := '' Exit''\<rparr>),
                     GuiButton 3])))])]
         (\<lambda>s. s)),
     whenS (\<lambda>s. K1_pressed s) (switchS (\<lambda>s. NowSetting (ui s)) [
         (0, block [
           edt_update (Automatic_Week_Temp_update (\<lambda>v. if v \<ge> 51 then 0 else v + 1)),
           (\<lambda>s. sprintf_to ''weekstring'' 3 (''Weeks:'' @ fmt_0d 2 (uint (Automatic_Week_Temp (edt s)))) s),
           (\<lambda>s. tButton_upd 1 (\<lambda>b. b\<lparr>btn_name := ''Weeks:'' @ fmt_0d 2 (uint (Automatic_Week_Temp (edt s)))\<rparr>) s),
           GuiButton 1]),
         (1, block [
           edt_update (Automatic_Day_Temp_update (\<lambda>v. if v \<ge> 6 then 0 else v + 1)),
           (\<lambda>s. sprintf_to ''daystring'' 3 (''Days:'' @ fmt_0d 2 (uint (Automatic_Day_Temp (edt s)))) s),
           (\<lambda>s. tButton_upd 2 (\<lambda>b. b\<lparr>btn_name := ''Days:'' @ fmt_0d 2 (uint (Automatic_Day_Temp (edt s)))\<rparr>) s),
           GuiButton 2]),
         (2, block [
           ifS (\<lambda>s. Automatic_Enable_Temp (edt s) < 2)
             (edt_update (Automatic_Enable_Temp_update (\<lambda>v. v + 1)))
             (edt_set Automatic_Enable_Temp_update 0),
           ifS (\<lambda>s. Automatic_Enable_Temp (edt s) = 0)
             (block [
               tButton_upd 3 (\<lambda>b. b\<lparr>btn_name := ''Disable''\<rparr>),
               GuiButton 3])
             (ifS (\<lambda>s. Automatic_Enable_Temp (edt s) = 1)
                 (block [
                   tButton_upd 3 (\<lambda>b. b\<lparr>btn_name := ''Enable''\<rparr>),
                   GuiButton 3])
                 (whenS (\<lambda>s. Automatic_Enable_Temp (edt s) = 2) (block [
                     tButton_upd 3 (\<lambda>b. b\<lparr>btn_name := '' Exit''\<rparr>),
                     GuiButton 3])))])]
         (\<lambda>s. s)),
     whenS (\<lambda>s. K2_pressed s) (ifS (\<lambda>s. Automatic_Enable_Temp (edt s) = 2)
         (block [
           ui_set NowSetting_update 0,
           GuiClearScreen 0,
           GuiWinDeleteTop,
           disp,
           setFirst 5 0])
         (switchS (\<lambda>s. NowSetting (ui s)) [
             (0, block [
               tButton_upd 1 (\<lambda>b. b\<lparr>btn_flag := 0\<rparr>),
               GuiButton 1,
               tButton_upd 2 (\<lambda>b. b\<lparr>btn_flag := 1\<rparr>),
               GuiButton 2,
               tButton_upd 3 (\<lambda>b. b\<lparr>btn_flag := 0\<rparr>),
               GuiButton 3,
               ui_update (NowSetting_update (\<lambda>v. v + 1))]),
             (1, block [
               tButton_upd 1 (\<lambda>b. b\<lparr>btn_flag := 0\<rparr>),
               GuiButton 1,
               tButton_upd 2 (\<lambda>b. b\<lparr>btn_flag := 0\<rparr>),
               GuiButton 2,
               tButton_upd 3 (\<lambda>b. b\<lparr>btn_flag := 1\<rparr>),
               GuiButton 3,
               ui_update (NowSetting_update (\<lambda>v. v + 1))]),
             (2, block [
               setFirst 5 0,
               ui_set NowSetting_update 0,
               whenS (\<lambda>s. Automatic_Week_Temp (edt s) = 0 \<and> Automatic_Day_Temp (edt s) = 0) (edt_set Automatic_Day_Temp_update 1),
               (\<lambda>s. cfg_set Automatic_Week_update (Automatic_Week_Temp (edt s)) s),
               (\<lambda>s. Flash_Set 4 (ucast (Automatic_Week_Temp (edt s))) s),
               (\<lambda>s. cfg_set Automatic_Day_update (Automatic_Day_Temp (edt s)) s),
               (\<lambda>s. Flash_Set 5 (ucast (Automatic_Day_Temp (edt s))) s),
               rtc_update (RTC_Automatic_Time_update (\<lambda>_. 0)),
               (\<lambda>s. cfg_set Automatic_Enable_update (Automatic_Enable_Temp (edt s)) s),
               (\<lambda>s. Flash_Set 6 (ucast (Automatic_Enable_Temp (edt s))) s),
               GuiClearScreen 0,
               GuiWinDeleteTop])]
             (\<lambda>s. s)))]"

definition UserMain5WinFun :: "(sys \<Rightarrow> sys) \<Rightarrow> stmt" where
  "UserMain5WinFun disp = ifS (\<lambda>s. FirstFlag (ui s) 5 = 0) Win5_first (Win5_keys disp)"

section \<open>Window 6: differential pressure switch\<close>

definition Win6_first :: stmt where
  "Win6_first = block [
     setFirst 6 1,
     (\<lambda>s. edt_set Deltapress_Enable_Temp_update (Deltapress_Enable (cfg s)) s),
     GuiRowText 27 15 100 FONT_LEFT ''Backwash is'',
     (\<lambda>s. tButton_upd 0 (\<lambda>b. b\<lparr>btn_x := 35, btn_y := 23, btn_wide := 55, btn_high := 15, btn_name := ''Disable'', btn_linesize := 0, btn_flag := lnot (Deltapress_Enable_Temp (edt s))\<rparr>) s),
     GuiButton 0,
     (\<lambda>s. tButton_upd 1 (\<lambda>b. b\<lparr>btn_x := 38, btn_y := 35, btn_wide := 48, btn_high := 15, btn_name := ''Enable'', btn_linesize := 0, btn_flag := Deltapress_Enable_Temp (edt s)\<rparr>) s),
     GuiButton 1,
     tButton_upd 3 (\<lambda>b. b\<lparr>btn_x := 0, btn_y := 50, btn_wide := 128, btn_high := 15, btn_name := txt_SingleSelect, btn_linesize := 0, btn_flag := 1\<rparr>),
     GuiButton 3]"

definition Win6_keys :: "(sys \<Rightarrow> sys) \<Rightarrow> stmt" where
  "Win6_keys disp = block [
     take_keys,
     whenS (\<lambda>s. K0_pressed s) (block [
       (\<lambda>s. edt_set Deltapress_Enable_Temp_update (lnot (Deltapress_Enable_Temp (edt s))) s),
       (\<lambda>s. tButton_upd 0 (\<lambda>b. b\<lparr>btn_flag := lnot (Deltapress_Enable_Temp (edt s))\<rparr>) s),
       (\<lambda>s. tButton_upd 1 (\<lambda>b. b\<lparr>btn_flag := Deltapress_Enable_Temp (edt s)\<rparr>) s),
       GuiButton 0,
       GuiButton 1]),
     whenS (\<lambda>s. K1_pressed s) (block [
       (\<lambda>s. edt_set Deltapress_Enable_Temp_update (lnot (Deltapress_Enable_Temp (edt s))) s),
       (\<lambda>s. tButton_upd 0 (\<lambda>b. b\<lparr>btn_flag := lnot (Deltapress_Enable_Temp (edt s))\<rparr>) s),
       (\<lambda>s. tButton_upd 1 (\<lambda>b. b\<lparr>btn_flag := Deltapress_Enable_Temp (edt s)\<rparr>) s),
       GuiButton 0,
       GuiButton 1]),
     whenS (\<lambda>s. K2_pressed s) (block [
       setFirst 6 0,
       (\<lambda>s. cfg_set Deltapress_Enable_update (Deltapress_Enable_Temp (edt s)) s),
       (\<lambda>s. Flash_Set 7 (ucast (Deltapress_Enable_Temp (edt s))) s),
       GuiClearScreen 0,
       GuiWinDeleteTop,
       disp])]"

definition UserMain6WinFun :: "(sys \<Rightarrow> sys) \<Rightarrow> stmt" where
  "UserMain6WinFun disp = ifS (\<lambda>s. FirstFlag (ui s) 6 = 0) Win6_first (Win6_keys disp)"

end
