(* ===== verification/Windows2.thy ===== *)
theory Windows2
  imports Windows1
begin

text \<open>
  The windows 7 to 14 of \<open>lcd/lcd_display.c\<close>: information, counters, battery, settings menu.
\<close>

section \<open>Window 7: information menu\<close>

definition Win7_first :: stmt where
  "Win7_first = block [
     setFirst 7 1,
     ui_set NowButtonId_update 0,
     set_scroll 4 119 13 38 0,
     GuiVScroll 0,
     tButton_upd 0 (\<lambda>b. b\<lparr>btn_x := 0, btn_y := 11, btn_wide := 117, btn_high := 15, btn_linesize := 0, btn_name := ''Backwash Counter'', btn_flag := 1\<rparr>),
     GuiButton 0,
     tButton_upd 1 (\<lambda>b. b\<lparr>btn_x := 0, btn_y := 24, btn_wide := 117, btn_high := 15, btn_linesize := 0, btn_name := ''Error Counter'', btn_flag := 0\<rparr>),
     GuiButton 1,
     tButton_upd 2 (\<lambda>b. b\<lparr>btn_x := 0, btn_y := 37, btn_wide := 117, btn_high := 15, btn_linesize := 0, btn_name := ''Battery States'', btn_flag := 0\<rparr>),
     GuiButton 2,
     tButton_upd 3 (\<lambda>b. b\<lparr>btn_x := 0, btn_y := 50, btn_wide := 40, btn_high := 15, btn_name := ''Back'', btn_linesize := 0, btn_flag := 0\<rparr>),
     GuiButton 3,
     tButton_upd 4 (\<lambda>b. b\<lparr>btn_x := 80, btn_y := 50, btn_wide := 48, btn_high := 15, btn_name := ''Select'', btn_linesize := 0, btn_flag := 1\<rparr>),
     GuiButton 4]"

definition Win7_keys :: "(sys \<Rightarrow> sys) \<Rightarrow> stmt" where
  "Win7_keys disp = block [
     take_keys,
     whenS (\<lambda>s. K0_pressed s) (block [
       set_flag_now 0,
       GuiButton_now,
       ifS (\<lambda>s. NowButtonId (ui s) > 0)
         (ui_update (NowButtonId_update (\<lambda>v. v - 1)))
         (ui_set NowButtonId_update 3),
       set_flag_now 1,
       GuiButton_now,
       scroll_to_now,
       GuiVScroll 0]),
     whenS (\<lambda>s. K1_pressed s) (block [
       set_flag_now 0,
       GuiButton_now,
       ui_update (NowButtonId_update (\<lambda>v. v + 1)),
       whenS (\<lambda>s. NowButtonId (ui s) = 4) (ui_set NowButtonId_update 0),
       set_flag_now 1,
       GuiButton_now,
       scroll_to_now,
       GuiVScroll 0]),
     whenS (\<lambda>s. K2_pressed s) (block [
       GuiClearScreen 0,
       switchS (\<lambda>s. NowButtonId (ui s)) [
         (0, GuiWinAdd 8),
         (1, GuiWinAdd 12),
         (2, GuiWinAdd 13),
         (3, block [
           GuiClearScreen 0,
           GuiWinDeleteTop,
           disp])]
         (\<lambda>s. s),
       setFirst 7 0])]"

definition UserMain7WinFun :: "(sys \<Rightarrow> sys) \<Rightarrow> stmt" where
  "UserMain7WinFun disp = ifS (\<lambda>s. FirstFlag (ui s) 7 = 0) Win7_first (Win7_keys disp)"

section \<open>Window 8: backwash counters\<close>

definition Win8_first :: stmt where
  "Win8_first = block [
     setFirst 8 1,
     ui_set NowButtonId_update 0,
     set_scroll 4 119 13 38 0,
     GuiVScroll 0,
     tButton_upd 0 (\<lambda>b. b\<lparr>btn_x := 0, btn_y := 11, btn_wide := 117, btn_high := 15, btn_linesize := 0, btn_name := ''Manual'', btn_flag := 1\<rparr>),
     GuiButton 0,
     tButton_upd 1 (\<lambda>b. b\<lparr>btn_x := 0, btn_y := 24, btn_wide := 117, btn_high := 15, btn_linesize := 0, btn_name := ''Automatic'', btn_flag := 0\<rparr>),
     GuiButton 1,
     tButton_upd 2 (\<lambda>b. b\<lparr>btn_x := 0, btn_y := 37, btn_wide := 117, btn_high := 15, btn_linesize := 0, btn_name := ''Delta Pressure'', btn_flag := 0\<rparr>),
     GuiButton 2,
     tButton_upd 3 (\<lambda>b. b\<lparr>btn_x := 0, btn_y := 50, btn_wide := 40, btn_high := 15, btn_name := ''Back'', btn_linesize := 0, btn_flag := 0\<rparr>),
     GuiButton 3,
     tButton_upd 4 (\<lambda>b. b\<lparr>btn_x := 80, btn_y := 50, btn_wide := 48, btn_high := 15, btn_name := ''Select'', btn_linesize := 0, btn_flag := 1\<rparr>),
     GuiButton 4]"

definition Win8_keys :: stmt where
  "Win8_keys = block [
     take_keys,
     whenS (\<lambda>s. K0_pressed s) (block [
       set_flag_now 0,
       GuiButton_now,
       ifS (\<lambda>s. NowButtonId (ui s) > 0)
         (ui_update (NowButtonId_update (\<lambda>v. v - 1)))
         (ui_set NowButtonId_update 3),
       set_flag_now 1,
       GuiButton_now,
       scroll_to_now,
       GuiVScroll 0]),
     whenS (\<lambda>s. K1_pressed s) (block [
       set_flag_now 0,
       GuiButton_now,
       ui_update (NowButtonId_update (\<lambda>v. v + 1)),
       whenS (\<lambda>s. NowButtonId (ui s) = 4) (ui_set NowButtonId_update 0),
       set_flag_now 1,
       GuiButton_now,
       scroll_to_now,
       GuiVScroll 0]),
     whenS (\<lambda>s. K2_pressed s) (block [
       GuiClearScreen 0,
       switchS (\<lambda>s. NowButtonId (ui s)) [
         (0, GuiWinAdd 9),
         (1, GuiWinAdd 10),
         (2, GuiWinAdd 11),
         (3, GuiWinDeleteTop)]
         (\<lambda>s. s),
       setFirst 8 0])]"

definition UserMain8WinFun :: "(sys \<Rightarrow> sys) \<Rightarrow> stmt" where
  "UserMain8WinFun disp = ifS (\<lambda>s. FirstFlag (ui s) 8 = 0) Win8_first Win8_keys"

section \<open>Window 9: manual counter\<close>

definition Win9_first :: stmt where
  "Win9_first = block [
     setFirst 9 1,
     ui_set NowButtonId_update 1,
     (\<lambda>s. sprintf_to ''ManualString'' 20 (''Manual:'' @ fmt_0d 4 (uint (Counter_Manual (cfg s)))) s),
     (\<lambda>s. tButton_upd 0 (\<lambda>b. b\<lparr>btn_x := 25, btn_y := 10, btn_wide := 100, btn_high := 15, btn_linesize := 0, btn_name := ''Manual:'' @ fmt_0d 4 (uint (Counter_Manual (cfg s))), btn_flag := 0\<rparr>) s),
     GuiButton 0,
     tButton_upd 1 (\<lambda>b. b\<lparr>btn_x := 40, btn_y := 22, btn_wide := 50, btn_high := 15, btn_name := ''Reset?'', btn_linesize := 0, btn_flag := 1\<rparr>),
     GuiButton 1,
     tButton_upd 2 (\<lambda>b. b\<lparr>btn_x := 45, btn_y := 34, btn_wide := 36, btn_high := 15, btn_name := ''Back'', btn_linesize := 0, btn_flag := 0\<rparr>),
     GuiButton 2,
     tButton_upd 3 (\<lambda>b. b\<lparr>btn_x := 0, btn_y := 50, btn_wide := 128, btn_high := 15, btn_name := txt_SingleSelect, btn_linesize := 0, btn_flag := 1\<rparr>),
     GuiButton 3]"

definition Win9_keys :: stmt where
  "Win9_keys = block [
     take_keys,
     whenS (\<lambda>s. K1_pressed s) (block [
       set_flag_now 0,
       GuiButton_now,
       ui_update (NowButtonId_update (\<lambda>v. v + 1)),
       whenS (\<lambda>s. NowButtonId (ui s) = 3) (ui_set NowButtonId_update 1),
       set_flag_now 1,
       GuiButton_now]),
     whenS (\<lambda>s. K2_pressed s) (block [
       GuiClearScreen 0,
       switchS (\<lambda>s. NowButtonId (ui s)) [
         (1, block [
           cfg_set Counter_Manual_update 0,
           Flash_Set 8 0,
           GuiWinDeleteTop]),
         (2, GuiWinDeleteTop)]
         (\<lambda>s. s),
       setFirst 9 0])]"

definition UserMain9WinFun :: "(sys \<Rightarrow> sys) \<Rightarrow> stmt" where
  "UserMain9WinFun disp = ifS (\<lambda>s. FirstFlag (ui s) 9 = 0) Win9_first Win9_keys"

section \<open>Window 10: automatic counter\<close>

definition Win10_first :: stmt where
  "Win10_first = block [
     setFirst 10 1,
     ui_set NowButtonId_update 1,
     (\<lambda>s. sprintf_to ''AutomaticString'' 15 (''Automatic:'' @ fmt_0d 4 (uint (Counter_Automatic (cfg s)))) s),
     (\<lambda>s. tButton_upd 0 (\<lambda>b. b\<lparr>btn_x := 15, btn_y := 10, btn_wide := 105, btn_high := 15, btn_linesize := 0, btn_name := ''Automatic:'' @ fmt_0d 4 (uint (Counter_Automatic (cfg s))), btn_flag := 0\<rparr>) s),
     GuiButton 0,
     tButton_upd 1 (\<lambda>b. b\<lparr>btn_x := 40, btn_y := 22, btn_wide := 50, btn_high := 15, btn_name := ''Reset?'', btn_linesize := 0, btn_flag := 1\<rparr>),
     GuiButton 1,
     tButton_upd 2 (\<lambda>b. b\<lparr>btn_x := 45, btn_y := 34, btn_wide := 36, btn_high := 15, btn_name := ''Back'', btn_linesize := 0, btn_flag := 0\<rparr>),
     GuiButton 2,
     tButton_upd 3 (\<lambda>b. b\<lparr>btn_x := 0, btn_y := 50, btn_wide := 128, btn_high := 15, btn_name := txt_SingleSelect, btn_linesize := 0, btn_flag := 1\<rparr>),
     GuiButton 3]"

definition Win10_keys :: stmt where
  "Win10_keys = block [
     take_keys,
     whenS (\<lambda>s. K1_pressed s) (block [
       set_flag_now 0,
       GuiButton_now,
       ui_update (NowButtonId_update (\<lambda>v. v + 1)),
       whenS (\<lambda>s. NowButtonId (ui s) = 3) (ui_set NowButtonId_update 1),
       set_flag_now 1,
       GuiButton_now]),
     whenS (\<lambda>s. K2_pressed s) (block [
       GuiClearScreen 0,
       switchS (\<lambda>s. NowButtonId (ui s)) [
         (1, block [
           cfg_set Counter_Automatic_update 0,
           Flash_Set 9 0,
           GuiWinDeleteTop]),
         (2, GuiWinDeleteTop)]
         (\<lambda>s. s),
       setFirst 10 0])]"

definition UserMain10WinFun :: "(sys \<Rightarrow> sys) \<Rightarrow> stmt" where
  "UserMain10WinFun disp = ifS (\<lambda>s. FirstFlag (ui s) 10 = 0) Win10_first Win10_keys"

section \<open>Window 11: differential pressure counter\<close>

definition Win11_first :: stmt where
  "Win11_first = block [
     setFirst 11 1,
     ui_set NowButtonId_update 1,
     (\<lambda>s. sprintf_to ''DeltaString'' 15 (''Delta Pressure:'' @ fmt_0d 2 (uint (Counter_Deltapress (cfg s)))) s),
     (\<lambda>s. tButton_upd 0 (\<lambda>b. b\<lparr>btn_x := 0, btn_y := 10, btn_wide := 128, btn_high := 15, btn_linesize := 0, btn_name := ''Delta Pressure:'' @ fmt_0d 2 (uint (Counter_Deltapress (cfg s))), btn_flag := 0\<rparr>) s),
     GuiButton 0,
     tButton_upd 1 (\<lambda>b. b\<lparr>btn_x := 40, btn_y := 22, btn_wide := 50, btn_high := 15, btn_name := ''Reset?'', btn_linesize := 0, btn_flag := 1\<rparr>),
     GuiButton 1,
     tButton_upd 2 (\<lambda>b. b\<lparr>btn_x := 45, btn_y := 34, btn_wide := 36, btn_high := 15, btn_name := ''Back'', btn_linesize := 0, btn_flag := 0\<rparr>),
     GuiButton 2,
     tButton_upd 3 (\<lambda>b. b\<lparr>btn_x := 0, btn_y := 50, btn_wide := 128, btn_high := 15, btn_name := txt_SingleSelect, btn_linesize := 0, btn_flag := 1\<rparr>),
     GuiButton 3]"

definition Win11_keys :: stmt where
  "Win11_keys = block [
     take_keys,
     whenS (\<lambda>s. K1_pressed s) (block [
       set_flag_now 0,
       GuiButton_now,
       ui_update (NowButtonId_update (\<lambda>v. v + 1)),
       whenS (\<lambda>s. NowButtonId (ui s) = 3) (ui_set NowButtonId_update 1),
       set_flag_now 1,
       GuiButton_now]),
     whenS (\<lambda>s. K2_pressed s) (block [
       GuiClearScreen 0,
       switchS (\<lambda>s. NowButtonId (ui s)) [
         (1, block [
           cfg_set Counter_Deltapress_update 0,
           Flash_Set 10 0,
           GuiWinDeleteTop]),
         (2, GuiWinDeleteTop)]
         (\<lambda>s. s),
       setFirst 11 0])]"

definition UserMain11WinFun :: "(sys \<Rightarrow> sys) \<Rightarrow> stmt" where
  "UserMain11WinFun disp = ifS (\<lambda>s. FirstFlag (ui s) 11 = 0) Win11_first Win11_keys"

section \<open>Window 12: error counter\<close>

definition Win12_first :: stmt where
  "Win12_first = block [
     setFirst 12 1,
     ui_set NowButtonId_update 1,
     (\<lambda>s. sprintf_to ''ErrorString'' 15 (''Error:'' @ fmt_0d 4 (uint (Counter_Error (cfg s)))) s),
     (\<lambda>s. tButton_upd 0 (\<lambda>b. b\<lparr>btn_x := 30, btn_y := 10, btn_wide := 128, btn_high := 15, btn_linesize := 0, btn_name := ''Error:'' @ fmt_0d 4 (uint (Counter_Error (cfg s))), btn_flag := 0\<rparr>) s),
     GuiButton 0,
     tButton_upd 1 (\<lambda>b. b\<lparr>btn_x := 40, btn_y := 22, btn_wide := 50, btn_high := 15, btn_name := ''Reset?'', btn_linesize := 0, btn_flag := 1\<rparr>),
     GuiButton 1,
     tButton_upd 2 (\<lambda>b. b\<lparr>btn_x := 45, btn_y := 34, btn_wide := 36, btn_high := 15, btn_name := ''Back'', btn_linesize := 0, btn_flag := 0\<rparr>),
     GuiButton 2,
     tButton_upd 3 (\<lambda>b. b\<lparr>btn_x := 0, btn_y := 50, btn_wide := 128, btn_high := 15, btn_name := txt_SingleSelect, btn_linesize := 0, btn_flag := 1\<rparr>),
     GuiButton 3]"

definition Win12_keys :: stmt where
  "Win12_keys = block [
     take_keys,
     whenS (\<lambda>s. K1_pressed s) (block [
       set_flag_now 0,
       GuiButton_now,
       ui_update (NowButtonId_update (\<lambda>v. v + 1)),
       whenS (\<lambda>s. NowButtonId (ui s) = 3) (ui_set NowButtonId_update 1),
       set_flag_now 1,
       GuiButton_now]),
     whenS (\<lambda>s. K2_pressed s) (block [
       GuiClearScreen 0,
       switchS (\<lambda>s. NowButtonId (ui s)) [
         (1, block [
           cfg_set Counter_Error_update 0,
           Flash_Set 11 0,
           GuiWinDeleteTop]),
         (2, GuiWinDeleteTop)]
         (\<lambda>s. s),
       setFirst 12 0])]"

definition UserMain12WinFun :: "(sys \<Rightarrow> sys) \<Rightarrow> stmt" where
  "UserMain12WinFun disp = ifS (\<lambda>s. FirstFlag (ui s) 12 = 0) Win12_first Win12_keys"

section \<open>Window 13: battery status\<close>

definition Win13_first :: stmt where
  "Win13_first = block [
     setFirst 13 1,
     tButton_upd 0 (\<lambda>b. b\<lparr>btn_x := 13, btn_y := 13, btn_wide := 115, btn_high := 15, btn_linesize := 0, btn_name := ''Battery Status'', btn_flag := 0\<rparr>),
     GuiButton 0,
     tButton_upd 1 (\<lambda>b. b\<lparr>btn_x := 52, btn_y := 25, btn_wide := 25, btn_high := 15\<rparr>),
     ifS (\<lambda>s. LowVoltageFlag (bat s) \<noteq> 0)
       (tButton_upd 1 (\<lambda>b. b\<lparr>btn_name := ''LOW''\<rparr>))
       (tButton_upd 1 (\<lambda>b. b\<lparr>btn_name := ''OK''\<rparr>)),
     tButton_upd 1 (\<lambda>b. b\<lparr>btn_linesize := 0, btn_flag := 1\<rparr>),
     GuiButton 1,
     tButton_upd 2 (\<lambda>b. b\<lparr>btn_x := 0, btn_y := 50, btn_wide := 128, btn_high := 15, btn_name := txt_SingleRightBack, btn_linesize := 0, btn_flag := 1\<rparr>),
     GuiButton 2]"

definition Win13_keys :: "(sys \<Rightarrow> sys) \<Rightarrow> stmt" where
  "Win13_keys disp = block [
     take_keys,
     whenS (\<lambda>s. K2_pressed s) (block [
       GuiClearScreen 0,
       GuiWinDeleteTop,
       disp,
       setFirst 13 0])]"

definition UserMain13WinFun :: "(sys \<Rightarrow> sys) \<Rightarrow> stmt" where
  "UserMain13WinFun disp = ifS (\<lambda>s. FirstFlag (ui s) 13 = 0) Win13_first (Win13_keys disp)"

section \<open>Window 14: settings menu\<close>

definition Win14_page0 :: stmt where
  "Win14_page0 = block [
     ui_set NowButtonId_update 0,
     set_scroll 9 119 13 38 0,
     GuiVScroll 0,
     tButton_upd 0 (\<lambda>b. b\<lparr>btn_x := 0, btn_y := 11, btn_wide := 117, btn_high := 15, btn_name := txt_Delta_Pressure, btn_linesize := 0, btn_flag := 1\<rparr>),
     GuiButton 0,
     tButton_upd 1 (\<lambda>b. b\<lparr>btn_x := 0, btn_y := 24, btn_wide := 117, btn_high := 15, btn_name := txt_Water_Hardness, btn_linesize := 0, btn_flag := 0\<rparr>),
     GuiButton 1,
     tButton_upd 2 (\<lambda>b. b\<lparr>btn_x := 0, btn_y := 37, btn_wide := 117, btn_high := 15, btn_name := txt_Backwash_Time, btn_linesize := 0, btn_flag := 0\<rparr>),
     GuiButton 2,
     tButton_upd 3 (\<lambda>b. b\<lparr>btn_x := 0, btn_y := 50, btn_wide := 40, btn_high := 15, btn_name := ''Back'', btn_linesize := 0, btn_flag := 0\<rparr>),
     GuiButton 3,
     tButton_upd 4 (\<lambda>b. b\<lparr>btn_x := 80, btn_y := 50, btn_wide := 48, btn_high := 15, btn_name := ''Select'', btn_linesize := 0, btn_flag := 1\<rparr>),
     GuiButton 4,
     setFirst 14 1]"

definition Win14_page1 :: stmt where
  "Win14_page1 = block [
     ui_set NowButtonId_update 0,
     set_scroll 9 119 13 38 3,
     GuiVScroll 0,
     tButton_upd 0 (\<lambda>b. b\<lparr>btn_x := 0, btn_y := 11, btn_wide := 117, btn_high := 15, btn_name := txt_Version, btn_linesize := 0, btn_flag := 1\<rparr>),
     GuiButton 0,
     tButton_upd 1 (\<lambda>b. b\<lparr>btn_x := 0, btn_y := 24, btn_wide := 117, btn_high := 15, btn_name := txt_Factory, btn_linesize := 0, btn_flag := 0\<rparr>),
     GuiButton 1,
     tButton_upd 2 (\<lambda>b. b\<lparr>btn_x := 0, btn_y := 37, btn_wide := 117, btn_high := 15, btn_name := txt_Language, btn_linesize := 0, btn_flag := 0\<rparr>),
     GuiButton 2,
     tButton_upd 3 (\<lambda>b. b\<lparr>btn_x := 0, btn_y := 50, btn_wide := 40, btn_high := 15, btn_name := ''Back'', btn_linesize := 0, btn_flag := 0\<rparr>),
     GuiButton 3,
     tButton_upd 4 (\<lambda>b. b\<lparr>btn_x := 80, btn_y := 50, btn_wide := 48, btn_high := 15, btn_name := ''Select'', btn_linesize := 0, btn_flag := 1\<rparr>),
     GuiButton 4,
     setFirst 14 1]"

definition Win14_page2 :: stmt where
  "Win14_page2 = block [
     ui_set NowButtonId_update 0,
     set_scroll 9 119 13 38 6,
     GuiVScroll 0,
     tButton_upd 0 (\<lambda>b. b\<lparr>btn_x := 0, btn_y := 11, btn_wide := 117, btn_high := 15, btn_name := txt_Update_FW, btn_linesize := 0, btn_flag := 1\<rparr>),
     GuiButton 0,
     tButton_upd 1 (\<lambda>b. b\<lparr>btn_x := 0, btn_y := 24, btn_wide := 117, btn_high := 15, btn_name := txt_Smart_Link, btn_linesize := 0, btn_flag := 0\<rparr>),
     GuiButton 1,
     tButton_upd 2 (\<lambda>b. b\<lparr>btn_x := 0, btn_y := 37, btn_wide := 117, btn_high := 15, btn_name := txt_TDS_MODE, btn_linesize := 0, btn_flag := 0\<rparr>),
     GuiButton 2,
     tButton_upd 3 (\<lambda>b. b\<lparr>btn_x := 0, btn_y := 50, btn_wide := 40, btn_high := 15, btn_name := ''Back'', btn_linesize := 0, btn_flag := 0\<rparr>),
     GuiButton 3,
     tButton_upd 4 (\<lambda>b. b\<lparr>btn_x := 80, btn_y := 50, btn_wide := 48, btn_high := 15, btn_name := ''Select'', btn_linesize := 0, btn_flag := 1\<rparr>),
     GuiButton 4,
     setFirst 14 1]"

definition Win14_page3 :: stmt where
  "Win14_page3 = block [
     ui_set NowButtonId_update 2,
     set_scroll 9 119 13 38 3,
     GuiVScroll 0,
     tButton_upd 0 (\<lambda>b. b\<lparr>btn_x := 0, btn_y := 11, btn_wide := 117, btn_high := 15, btn_name := txt_Delta_Pressure, btn_linesize := 0, btn_flag := 0\<rparr>),
     GuiButton 0,
     tButton_upd 1 (\<lambda>b. b\<lparr>btn_x := 0, btn_y := 24, btn_wide := 117, btn_high := 15, btn_name := txt_Water_Hardness, btn_linesize := 0, btn_flag := 0\<rparr>),
     GuiButton 1,
     tButton_upd 2 (\<lambda>b. b\<lparr>btn_x := 0, btn_y := 37, btn_wide := 117, btn_high := 15, btn_name := txt_Backwash_Time, btn_linesize := 0, btn_flag := 1\<rparr>),
     GuiButton 2,
     tButton_upd 3 (\<lambda>b. b\<lparr>btn_x := 0, btn_y := 50, btn_wide := 40, btn_high := 15, btn_name := ''Back'', btn_linesize := 0, btn_flag := 0\<rparr>),
     GuiButton 3,
     tButton_upd 4 (\<lambda>b. b\<lparr>btn_x := 80, btn_y := 50, btn_wide := 48, btn_high := 15, btn_name := ''Select'', btn_linesize := 0, btn_flag := 1\<rparr>),
     GuiButton 4,
     setFirst 14 1]"

definition Win14_page4 :: stmt where
  "Win14_page4 = block [
     ui_set NowButtonId_update 2,
     set_scroll 9 119 13 38 6,
     GuiVScroll 0,
     tButton_upd 0 (\<lambda>b. b\<lparr>btn_x := 0, btn_y := 11, btn_wide := 117, btn_high := 15, btn_name := txt_Version, btn_linesize := 0, btn_flag := 0\<rparr>),
     GuiButton 0,
     tButton_upd 1 (\<lambda>b. b\<lparr>btn_x := 0, btn_y := 24, btn_wide := 117, btn_high := 15, btn_name := txt_Factory, btn_linesize := 0, btn_flag := 0\<rparr>),
     GuiButton 1,
     tButton_upd 2 (\<lambda>b. b\<lparr>btn_x := 0, btn_y := 37, btn_wide := 117, btn_high := 15, btn_name := txt_Language, btn_linesize := 0, btn_flag := 1\<rparr>),
     GuiButton 2,
     tButton_upd 3 (\<lambda>b. b\<lparr>btn_x := 0, btn_y := 50, btn_wide := 40, btn_high := 15, btn_name := ''Back'', btn_linesize := 0, btn_flag := 0\<rparr>),
     GuiButton 3,
     tButton_upd 4 (\<lambda>b. b\<lparr>btn_x := 80, btn_y := 50, btn_wide := 48, btn_high := 15, btn_name := ''Select'', btn_linesize := 0, btn_flag := 1\<rparr>),
     GuiButton 4,
     setFirst 14 1]"

definition Win14_page5 :: stmt where
  "Win14_page5 = block [
     ui_set NowButtonId_update 2,
     set_scroll 9 119 13 38 9,
     GuiVScroll 0,
     tButton_upd 0 (\<lambda>b. b\<lparr>btn_x := 0, btn_y := 11, btn_wide := 117, btn_high := 15, btn_name := txt_Update_FW, btn_linesize := 0, btn_flag := 0\<rparr>),
     GuiButton 0,
     tButton_upd 1 (\<lambda>b. b\<lparr>btn_x := 0, btn_y := 24, btn_wide := 117, btn_high := 15, btn_name := txt_Smart_Link, btn_linesize := 0, btn_flag := 0\<rparr>),
     GuiButton 1,
     tButton_upd 2 (\<lambda>b. b\<lparr>btn_x := 0, btn_y := 37, btn_wide := 117, btn_high := 15, btn_name := txt_TDS_MODE, btn_linesize := 0, btn_flag := 1\<rparr>),
     GuiButton 2,
     tButton_upd 3 (\<lambda>b. b\<lparr>btn_x := 0, btn_y := 50, btn_wide := 40, btn_high := 15, btn_name := ''Back'', btn_linesize := 0, btn_flag := 0\<rparr>),
     GuiButton 3,
     tButton_upd 4 (\<lambda>b. b\<lparr>btn_x := 80, btn_y := 50, btn_wide := 48, btn_high := 15, btn_name := ''Select'', btn_linesize := 0, btn_flag := 1\<rparr>),
     GuiButton 4,
     setFirst 14 1]"

definition Win14_first :: stmt where
  "Win14_first = switchS (\<lambda>s. Win14PageID (ui s)) [(0, Win14_page0), (1, Win14_page1), (2, Win14_page2), (3, Win14_page3), (4, Win14_page4), (5, Win14_page5)] (\<lambda>s. s)"

definition Win14_K0 :: stmt where
  "Win14_K0 = switchS (\<lambda>s. NowButtonId (ui s)) [
       (0, block [
         switchS (\<lambda>s. Win14PageID (ui s)) [
           (0, ui_set Win14PageID_update 5),
           (1, ui_set Win14PageID_update 3),
           (2, ui_set Win14PageID_update 4),
           (3, ui_set Win14PageID_update 5),
           (4, ui_set Win14PageID_update 3),
           (5, ui_set Win14PageID_update 4)]
           (\<lambda>s. s),
         setFirst 14 0])]
       (block [
         set_flag_now 0,
         GuiButton_now,
         whenS (\<lambda>s. NowButtonId (ui s) > 0) (ui_update (NowButtonId_update (\<lambda>v. v - 1))),
         set_flag_now 1,
         GuiButton_now,
         ifS (\<lambda>s. Win14PageID (ui s) > 2)
           (\<lambda>s. ui_update (tScroll_update (\<lambda>t. t(0 := (t 0)\<lparr>scr_lump := 3 * (uint (Win14PageID (ui s)) - 3) + uint (NowButtonId (ui s))\<rparr>))) s)
           (\<lambda>s. ui_update (tScroll_update (\<lambda>t. t(0 := (t 0)\<lparr>scr_lump := uint (NowButtonId (ui s)) + 3 * (uint (Win14PageID (ui s)))\<rparr>))) s),
         GuiVScroll 0])"

definition Win14_K1 :: stmt where
  "Win14_K1 = switchS (\<lambda>s. NowButtonId (ui s)) [
       (3, block [
         switchS (\<lambda>s. Win14PageID (ui s)) [
           (0, ui_set Win14PageID_update 1),
           (1, ui_set Win14PageID_update 2),
           (2, ui_set Win14PageID_update 0),
           (3, ui_set Win14PageID_update 1),
           (4, ui_set Win14PageID_update 2),
           (5, ui_set Win14PageID_update 0)]
           (\<lambda>s. s),
         setFirst 14 0])]
       (block [
         set_flag_now 0,
         GuiButton_now,
         ui_update (NowButtonId_update (\<lambda>v. v + 1)),
         set_flag_now 1,
         GuiButton_now,
         ifS (\<lambda>s. Win14PageID (ui s) > 2)
           (\<lambda>s. ui_update (tScroll_update (\<lambda>t. t(0 := (t 0)\<lparr>scr_lump := 3 * (uint (Win14PageID (ui s)) - 3) + uint (NowButtonId (ui s))\<rparr>))) s)
           (\<lambda>s. ui_update (tScroll_update (\<lambda>t. t(0 := (t 0)\<lparr>scr_lump := uint (NowButtonId (ui s)) + 3 * (uint (Win14PageID (ui s)))\<rparr>))) s),
         GuiVScroll 0])"

definition Win14_K2 :: stmt where
  "Win14_K2 = block [
     setFirst 14 0,
     GuiClearScreen 0,
     switchS (\<lambda>s. Win14PageID (ui s)) [
       (0, switchS (\<lambda>s. NowButtonId (ui s)) [
           (0, GuiWinAdd 15),
           (1, GuiWinAdd 16),
           (2, GuiWinAdd 17),
           (3, block [
             GuiClearScreen 0,
             GuiWinDeleteTop])]
           (\<lambda>s. s)),
       (1, switchS (\<lambda>s. NowButtonId (ui s)) [
           (0, GuiWinAdd 18),
           (1, GuiWinAdd 19),
           (2, GuiWinAdd 20),
           (3, block [
             GuiClearScreen 0,
             GuiWinDeleteTop])]
           (\<lambda>s. s)),
       (2, switchS (\<lambda>s. NowButtonId (ui s)) [
           (2, GuiWinAdd 21),
           (3, block [
             GuiClearScreen 0,
             GuiWinDeleteTop])]
           (\<lambda>s. s)),
       (3, switchS (\<lambda>s. NowButtonId (ui s)) [
           (0, GuiWinAdd 15),
           (1, GuiWinAdd 16),
           (2, GuiWinAdd 17),
           (3, block [
             GuiClearScreen 0,
             GuiWinDeleteTop])]
           (\<lambda>s. s)),
       (4, switchS (\<lambda>s. NowButtonId (ui s)) [
           (0, GuiWinAdd 18),
           (1, GuiWinAdd 19),
           (2, GuiWinAdd 20),
           (3, block [
             GuiClearScreen 0,
             GuiWinDeleteTop])]
           (\<lambda>s. s)),
       (5, switchS (\<lambda>s. NowButtonId (ui s)) [
           (2, GuiWinAdd 21),
           (3, block [
             GuiClearScreen 0,
             GuiWinDeleteTop])]
           (\<lambda>s. s))]
       (\<lambda>s. s),
     ui_set Win14PageID_update 0,
     ui_set NowButtonId_update 0]"

definition Win14_keys :: stmt where
  "Win14_keys = block [
     take_keys,
     whenS (\<lambda>s. K0_pressed s) Win14_K0,
     whenS (\<lambda>s. K1_pressed s) Win14_K1,
     whenS (\<lambda>s. K2_pressed s) Win14_K2]"

definition UserMain14WinFun :: "(sys \<Rightarrow> sys) \<Rightarrow> stmt" where
  "UserMain14WinFun disp = ifS (\<lambda>s. FirstFlag (ui s) 14 = 0) Win14_first Win14_keys"

end
