(* ===== verification/Windows3.thy ===== *)
theory Windows3
  imports Windows2
begin

text \<open>
  The windows 15 to 27 of \<open>lcd/lcd_display.c\<close>: the settings, calibration, the reminder and the
  two battery messages.
\<close>

section \<open>Window 15: differential pressure mode\<close>

definition Win15_first :: stmt where
  "Win15_first = block [
     setFirst 15 1,
     (\<lambda>s. edt_set Set_Delta_Temp_update (Setting_Deltapress (cfg s)) s),
     (\<lambda>s. tButton_upd 0 (\<lambda>b. b\<lparr>btn_x := 20, btn_y := 12, btn_wide := 85, btn_high := 15, btn_name := ''Report Only'', btn_linesize := 100 - (Set_Delta_Temp (edt s)) * 100, btn_flag := lnot (Set_Delta_Temp (edt s))\<rparr>) s),
     GuiButton 0,
     (\<lambda>s. tButton_upd 1 (\<lambda>b. b\<lparr>btn_x := 27, btn_y := 24, btn_wide := 72, btn_high := 15, btn_name := ''Automatic'', btn_linesize := 94 - (lnot (Set_Delta_Temp (edt s))) * 94, btn_flag := Set_Delta_Temp (edt s)\<rparr>) s),
     GuiButton 1,
     tButton_upd 3 (\<lambda>b. b\<lparr>btn_x := 0, btn_y := 50, btn_wide := 128, btn_high := 15, btn_name := txt_SingleSelect, btn_linesize := 0, btn_flag := 1\<rparr>),
     GuiButton 3]"

definition Win15_keys :: "(sys \<Rightarrow> sys) \<Rightarrow> stmt" where
  "Win15_keys disp = block [
     take_keys,
     whenS (\<lambda>s. K0_pressed s) (block [
       (\<lambda>s. edt_set Set_Delta_Temp_update (lnot (Set_Delta_Temp (edt s))) s),
       (\<lambda>s. tButton_upd 0 (\<lambda>b. b\<lparr>btn_flag := lnot (Set_Delta_Temp (edt s))\<rparr>) s),
       GuiButton 0,
       (\<lambda>s. tButton_upd 1 (\<lambda>b. b\<lparr>btn_flag := Set_Delta_Temp (edt s)\<rparr>) s),
       GuiButton 1]),
     whenS (\<lambda>s. K1_pressed s) (block [
       (\<lambda>s. edt_set Set_Delta_Temp_update (lnot (Set_Delta_Temp (edt s))) s),
       (\<lambda>s. tButton_upd 0 (\<lambda>b. b\<lparr>btn_flag := lnot (Set_Delta_Temp (edt s))\<rparr>) s),
       GuiButton 0,
       (\<lambda>s. tButton_upd 1 (\<lambda>b. b\<lparr>btn_flag := Set_Delta_Temp (edt s)\<rparr>) s),
       GuiButton 1]),
     whenS (\<lambda>s. K2_pressed s) (block [
       (\<lambda>s. cfg_set Setting_Deltapress_update (Set_Delta_Temp (edt s)) s),
       (\<lambda>s. Flash_Set 12 (ucast (Set_Delta_Temp (edt s))) s),
       GuiClearScreen 0,
       GuiWinDeleteTop,
       disp,
       setFirst 15 0])]"

definition UserMain15WinFun :: "(sys \<Rightarrow> sys) \<Rightarrow> stmt" where
  "UserMain15WinFun disp = ifS (\<lambda>s. FirstFlag (ui s) 15 = 0) Win15_first (Win15_keys disp)"

section \<open>Window 16: water hardness\<close>

definition Win16_first :: stmt where
  "Win16_first = block [
     setFirst 16 1,
     edt_set Set_Hardness_Temp_update 100,
     ui_set NowButtonId_update 0,
     (\<lambda>s. sprintf_to ''HardnessString'' 15 (''Hardness:'' @ fmt_0d 4 (sint (Setting_Hardness (cfg s))) @ ''uS'') s),
     (\<lambda>s. tButton_upd 0 (\<lambda>b. b\<lparr>btn_x := 8, btn_y := 12, btn_wide := 115, btn_high := 15, btn_name := ''Hardness:'' @ fmt_0d 4 (sint (Setting_Hardness (cfg s))) @ ''uS'', btn_linesize := 0, btn_flag := 1\<rparr>) s),
     GuiButton 0,
     tButton_upd 1 (\<lambda>b. b\<lparr>btn_x := 45, btn_y := 24, btn_wide := 40, btn_high := 15, btn_name := ''Save'', btn_linesize := 0, btn_flag := 0\<rparr>),
     GuiButton 1,
     tButton_upd 2 (\<lambda>b. b\<lparr>btn_x := 45, btn_y := 36, btn_wide := 40, btn_high := 15, btn_name := ''Back'', btn_linesize := 0, btn_flag := 0\<rparr>),
     GuiButton 2,
     tButton_upd 3 (\<lambda>b. b\<lparr>btn_x := 0, btn_y := 50, btn_wide := 128, btn_high := 15, btn_name := txt_SingleSelect, btn_linesize := 0, btn_flag := 1\<rparr>),
     GuiButton 3]"

definition Win16_keys :: "(sys \<Rightarrow> sys) \<Rightarrow> stmt" where
  "Win16_keys disp = block [
     take_keys,
     whenS (\<lambda>s. K0_pressed s) (switchS (\<lambda>s. NowButtonId (ui s)) [
         (0, block [
           whenS (\<lambda>s. Set_Hardness_Temp (edt s) > 100) (edt_update (Set_Hardness_Temp_update (\<lambda>v. v - 10))),
           (\<lambda>s. sprintf_to ''HardnessString'' 15 (''Hardness:'' @ fmt_0d 4 (uint (Set_Hardness_Temp (edt s))) @ ''uS'') s),
           (\<lambda>s. tButton_upd 0 (\<lambda>b. b\<lparr>btn_name := ''Hardness:'' @ fmt_0d 4 (uint (Set_Hardness_Temp (edt s))) @ ''uS''\<rparr>) s),
           GuiButton 0]),
         (1, block [
           ui_set NowButtonId_update 2,
           tButton_upd 1 (\<lambda>b. b\<lparr>btn_flag := 0\<rparr>),
           GuiButton 1,
           tButton_upd 2 (\<lambda>b. b\<lparr>btn_flag := 1\<rparr>),
           GuiButton 2]),
         (2, block [
           ui_set NowButtonId_update 1,
           tButton_upd 1 (\<lambda>b. b\<lparr>btn_flag := 1\<rparr>),
           GuiButton 1,
           tButton_upd 2 (\<lambda>b. b\<lparr>btn_flag := 0\<rparr>),
           GuiButton 2])]
         (\<lambda>s. s)),
     whenS (\<lambda>s. K1_pressed s) (switchS (\<lambda>s. NowButtonId (ui s)) [
         (0, block [
           edt_update (Set_Hardness_Temp_update (\<lambda>v. v + 10)),
           (\<lambda>s. sprintf_to ''HardnessString'' 15 (''Hardness:'' @ fmt_0d 4 (uint (Set_Hardness_Temp (edt s))) @ ''uS'') s),
           (\<lambda>s. tButton_upd 0 (\<lambda>b. b\<lparr>btn_name := ''Hardness:'' @ fmt_0d 4 (uint (Set_Hardness_Temp (edt s))) @ ''uS''\<rparr>) s),
           GuiButton 0]),
         (1, block [
           ui_set NowButtonId_update 2,
           tButton_upd 1 (\<lambda>b. b\<lparr>btn_flag := 0\<rparr>),
           GuiButton 1,
           tButton_upd 2 (\<lambda>b. b\<lparr>btn_flag := 1\<rparr>),
           GuiButton 2]),
         (2, block [
           ui_set NowButtonId_update 1,
           tButton_upd 1 (\<lambda>b. b\<lparr>btn_flag := 1\<rparr>),
           GuiButton 1,
           tButton_upd 2 (\<lambda>b. b\<lparr>btn_flag := 0\<rparr>),
           GuiButton 2])]
         (\<lambda>s. s)),
     whenS (\<lambda>s. K2_pressed s) (switchS (\<lambda>s. NowButtonId (ui s)) [
         (0, block [
           ui_set NowButtonId_update 1,
           tButton_upd 0 (\<lambda>b. b\<lparr>btn_flag := 0\<rparr>),
           GuiButton 0,
           tButton_upd 1 (\<lambda>b. b\<lparr>btn_flag := 1\<rparr>),
           GuiButton 1]),
         (1, block [
           (\<lambda>s. cfg_set Setting_Hardness_update (ucast (Set_Hardness_Temp (edt s))) s),
           (\<lambda>s. Flash_Set 13 (ucast (Set_Hardness_Temp (edt s))) s),
           GuiClearScreen 0,
           GuiWinDeleteTop,
           disp,
           setFirst 16 0]),
         (2, block [
           GuiClearScreen 0,
           GuiWinDeleteTop,
           disp,
           setFirst 16 0])]
         (\<lambda>s. s))]"

definition UserMain16WinFun :: "(sys \<Rightarrow> sys) \<Rightarrow> stmt" where
  "UserMain16WinFun disp = ifS (\<lambda>s. FirstFlag (ui s) 16 = 0) Win16_first (Win16_keys disp)"

section \<open>Window 17: backwash time\<close>

definition Win17_first :: stmt where
  "Win17_first = block [
     setFirst 17 1,
     (\<lambda>s. edt_set Set_Backwash_Temp_update (Setting_Backwashtime (cfg s)) s),
     ui_set NowButtonId_update 0,
     (\<lambda>s. sprintf_to ''BackwashString'' 15 (''Time:'' @ fmt_0d 2 (uint (Setting_Backwashtime (cfg s))) @ ''S'') s),
     (\<lambda>s. tButton_upd 0 (\<lambda>b. b\<lparr>btn_x := 32, btn_y := 12, btn_wide := 73, btn_high := 15, btn_name := ''Time:'' @ fmt_0d 2 (uint (Setting_Backwashtime (cfg s))) @ ''S'', btn_linesize := 0, btn_flag := 1\<rparr>) s),
     GuiButton 0,
     tButton_upd 1 (\<lambda>b. b\<lparr>btn_x := 45, btn_y := 24, btn_wide := 40, btn_high := 15, btn_name := ''Save'', btn_linesize := 0, btn_flag := 0\<rparr>),
     GuiButton 1,
     tButton_upd 2 (\<lambda>b. b\<lparr>btn_x := 45, btn_y := 36, btn_wide := 40, btn_high := 15, btn_name := ''Back'', btn_linesize := 0, btn_flag := 0\<rparr>),
     GuiButton 2,
     tButton_upd 3 (\<lambda>b. b\<lparr>btn_x := 0, btn_y := 50, btn_wide := 128, btn_high := 15, btn_name := txt_SingleSelect, btn_linesize := 0, btn_flag := 1\<rparr>),
     GuiButton 3]"

definition Win17_keys :: "(sys \<Rightarrow> sys) \<Rightarrow> stmt" where
  "Win17_keys disp = block [
     take_keys,
     whenS (\<lambda>s. K0_pressed s) (switchS (\<lambda>s. NowButtonId (ui s)) [
         (0, block [
           whenS (\<lambda>s. Set_Backwash_Temp (edt s) > 30) (edt_update (Set_Backwash_Temp_update (\<lambda>v. v - 1))),
           (\<lambda>s. sprintf_to ''BackwashString'' 15 (''Time:'' @ fmt_0d 2 (uint (Set_Backwash_Temp (edt s))) @ ''S'') s),
           (\<lambda>s. tButton_upd 0 (\<lambda>b. b\<lparr>btn_name := ''Time:'' @ fmt_0d 2 (uint (Set_Backwash_Temp (edt s))) @ ''S''\<rparr>) s),
           GuiButton 0]),
         (1, block [
           ui_set NowButtonId_update 2,
           tButton_upd 1 (\<lambda>b. b\<lparr>btn_flag := 0\<rparr>),
           GuiButton 1,
           tButton_upd 2 (\<lambda>b. b\<lparr>btn_flag := 1\<rparr>),
           GuiButton 2]),
         (2, block [
           ui_set NowButtonId_update 1,
           tButton_upd 1 (\<lambda>b. b\<lparr>btn_flag := 1\<rparr>),
           GuiButton 1,
           tButton_upd 2 (\<lambda>b. b\<lparr>btn_flag := 0\<rparr>),
           GuiButton 2])]
         (\<lambda>s. s)),
     whenS (\<lambda>s. K1_pressed s) (switchS (\<lambda>s. NowButtonId (ui s)) [
         (0, block [
           whenS (\<lambda>s. Set_Backwash_Temp (edt s) < 100) (edt_update (Set_Backwash_Temp_update (\<lambda>v. v + 1))),
           (\<lambda>s. sprintf_to ''BackwashString'' 15 (''Time:'' @ fmt_0d 2 (uint (Set_Backwash_Temp (edt s))) @ ''S'') s),
           (\<lambda>s. tButton_upd 0 (\<lambda>b. b\<lparr>btn_name := ''Time:'' @ fmt_0d 2 (uint (Set_Backwash_Temp (edt s))) @ ''S''\<rparr>) s),
           GuiButton 0]),
         (1, block [
           ui_set NowButtonId_update 2,
           tButton_upd 1 (\<lambda>b. b\<lparr>btn_flag := 0\<rparr>),
           GuiButton 1,
           tButton_upd 2 (\<lambda>b. b\<lparr>btn_flag := 1\<rparr>),
           GuiButton 2]),
         (2, block [
           ui_set NowButtonId_update 1,
           tButton_upd 1 (\<lambda>b. b\<lparr>btn_flag := 1\<rparr>),
           GuiButton 1,
           tButton_upd 2 (\<lambda>b. b\<lparr>btn_flag := 0\<rparr>),
           GuiButton 2])]
         (\<lambda>s. s)),
     whenS (\<lambda>s. K2_pressed s) (switchS (\<lambda>s. NowButtonId (ui s)) [
         (0, block [
           ui_set NowButtonId_update 1,
           tButton_upd 0 (\<lambda>b. b\<lparr>btn_flag := 0\<rparr>),
           GuiButton 0,
           tButton_upd 1 (\<lambda>b. b\<lparr>btn_flag := 1\<rparr>),
           GuiButton 1]),
         (1, block [
           (\<lambda>s. cfg_set Setting_Backwashtime_update (Set_Backwash_Temp (edt s)) s),
           (\<lambda>s. Flash_Set 14 (ucast (Set_Backwash_Temp (edt s))) s),
           GuiClearScreen 0,
           GuiWinDeleteTop,
           disp,
           setFirst 17 0]),
         (2, block [
           GuiClearScreen 0,
           GuiWinDeleteTop,
           disp,
           setFirst 17 0])]
         (\<lambda>s. s))]"

definition UserMain17WinFun :: "(sys \<Rightarrow> sys) \<Rightarrow> stmt" where
  "UserMain17WinFun disp = ifS (\<lambda>s. FirstFlag (ui s) 17 = 0) Win17_first (Win17_keys disp)"

section \<open>Window 18: version\<close>

definition Win18_first :: stmt where
  "Win18_first = block [
     setFirst 18 1,
     GuiRowText 19 30 80 FONT_LEFT ''SYR BFC:'',
     GuiRowText 76 30 80 FONT_LEFT ''0.0.2'',
     tButton_upd 0 (\<lambda>b. b\<lparr>btn_x := 0, btn_y := 50, btn_wide := 128, btn_high := 15, btn_name := txt_SingleRightBack, btn_linesize := 0, btn_flag := 1\<rparr>),
     GuiButton 0]"

definition Win18_keys :: "(sys \<Rightarrow> sys) \<Rightarrow> stmt" where
  "Win18_keys disp = block [
     take_keys,
     whenS (\<lambda>s. K2_pressed s) (block [
       GuiClearScreen 0,
       GuiWinDeleteTop,
       disp,
       setFirst 18 0])]"

definition UserMain18WinFun :: "(sys \<Rightarrow> sys) \<Rightarrow> stmt" where
  "UserMain18WinFun disp = ifS (\<lambda>s. FirstFlag (ui s) 18 = 0) Win18_first (Win18_keys disp)"

section \<open>Window 19: factory reset\<close>

definition Win19_first :: stmt where
  "Win19_first = block [
     setFirst 19 1,
     ui_set NowButtonId_update 0,
     GuiRowText 10 15 120 FONT_LEFT ''Reset BFC Config'',
     tButton_upd 0 (\<lambda>b. b\<lparr>btn_x := 47, btn_y := 23, btn_wide := 38, btn_high := 15, btn_name := ''Reset'', btn_linesize := 0, btn_flag := 1\<rparr>),
     GuiButton 0,
     tButton_upd 1 (\<lambda>b. b\<lparr>btn_x := 47, btn_y := 36, btn_wide := 38, btn_high := 15, btn_name := ''Back'', btn_linesize := 0, btn_flag := 0\<rparr>),
     GuiButton 1,
     tButton_upd 2 (\<lambda>b. b\<lparr>btn_x := 0, btn_y := 50, btn_wide := 128, btn_high := 15, btn_name := txt_SingleSelect, btn_linesize := 0, btn_flag := 1\<rparr>),
     GuiButton 2]"

definition Win19_keys :: "(sys \<Rightarrow> sys) \<Rightarrow> stmt" where
  "Win19_keys disp = block [
     take_keys,
     whenS (\<lambda>s. K0_pressed s) (switchS (\<lambda>s. NowButtonId (ui s)) [
         (0, block [
           ui_set NowButtonId_update 1,
           tButton_upd 1 (\<lambda>b. b\<lparr>btn_flag := 0\<rparr>),
           GuiButton 0,
           tButton_upd 2 (\<lambda>b. b\<lparr>btn_flag := 1\<rparr>),
           GuiButton 1]),
         (1, block [
           ui_set NowButtonId_update 0,
           tButton_upd 1 (\<lambda>b. b\<lparr>btn_flag := 1\<rparr>),
           GuiButton 0,
           tButton_upd 2 (\<lambda>b. b\<lparr>btn_flag := 0\<rparr>),
           GuiButton 1])]
         (\<lambda>s. s)),
     whenS (\<lambda>s. K1_pressed s) (switchS (\<lambda>s. NowButtonId (ui s)) [
         (0, block [
           ui_set NowButtonId_update 1,
           tButton_upd 0 (\<lambda>b. b\<lparr>btn_flag := 0\<rparr>),
           GuiButton 0,
           tButton_upd 1 (\<lambda>b. b\<lparr>btn_flag := 1\<rparr>),
           GuiButton 1]),
         (1, block [
           ui_set NowButtonId_update 0,
           tButton_upd 0 (\<lambda>b. b\<lparr>btn_flag := 1\<rparr>),
           GuiButton 0,
           tButton_upd 1 (\<lambda>b. b\<lparr>btn_flag := 0\<rparr>),
           GuiButton 1])]
         (\<lambda>s. s)),
     whenS (\<lambda>s. K2_pressed s) (switchS (\<lambda>s. NowButtonId (ui s)) [
         (0, block [
           Flash_Factory,
           rt_hw_cpu_reset]),
         (1, block [
           GuiClearScreen 0,
           GuiWinDeleteTop,
           disp,
           setFirst 19 0])]
         (\<lambda>s. s))]"

definition UserMain19WinFun :: "(sys \<Rightarrow> sys) \<Rightarrow> stmt" where
  "UserMain19WinFun disp = ifS (\<lambda>s. FirstFlag (ui s) 19 = 0) Win19_first (Win19_keys disp)"

section \<open>Window 20: language\<close>

definition Win20_first :: stmt where
  "Win20_first = block [
     setFirst 20 1,
     ui_set NowButtonId_update 0,
     (\<lambda>s. edt_set Set_Language_Temp_update (Setting_Language (cfg s)) s),
     (\<lambda>s. tButton_upd 0 (\<lambda>b. b\<lparr>btn_x := 37, btn_y := 12, btn_wide := 56, btn_high := 15, btn_name := ''English'', btn_linesize := 90 - (Set_Language_Temp (edt s)) * 90, btn_flag := 1\<rparr>) s),
     GuiButton 0,
     (\<lambda>s. tButton_upd 1 (\<lambda>b. b\<lparr>btn_x := 41, btn_y := 24, btn_wide := 48, btn_high := 15, btn_name := ''Deutsh'', btn_linesize := 85 - (lnot (Set_Language_Temp (edt s))) * 85, btn_flag := 0\<rparr>) s),
     GuiButton 1,
     tButton_upd 2 (\<lambda>b. b\<lparr>btn_x := 45, btn_y := 36, btn_wide := 37, btn_high := 15, btn_name := ''Back'', btn_linesize := 0, btn_flag := 0\<rparr>),
     GuiButton 2,
     tButton_upd 3 (\<lambda>b. b\<lparr>btn_x := 0, btn_y := 50, btn_wide := 128, btn_high := 15, btn_name := txt_SingleSelect, btn_linesize := 0, btn_flag := 1\<rparr>),
     GuiButton 3]"

definition Win20_keys :: stmt where
  "Win20_keys = block [
     take_keys,
     whenS (\<lambda>s. K0_pressed s) (block [
       set_flag_now 0,
       GuiButton_now,
       ui_update (NowButtonId_update (\<lambda>v. v + 1)),
       whenS (\<lambda>s. NowButtonId (ui s) = 3) (ui_set NowButtonId_update 0),
       set_flag_now 1,
       GuiButton_now]),
     whenS (\<lambda>s. K1_pressed s) (block [
       set_flag_now 0,
       GuiButton_now,
       ifS (\<lambda>s. NowButtonId (ui s) > 0)
         (ui_update (NowButtonId_update (\<lambda>v. v - 1)))
         (ui_set NowButtonId_update 2),
       set_flag_now 1,
       GuiButton_now]),
     whenS (\<lambda>s. K2_pressed s) (switchS (\<lambda>s. NowButtonId (ui s)) [
         (0, block [
           cfg_set Setting_Language_update 0,
           (\<lambda>s. Flash_Set 15 (ucast (Setting_Language (cfg s))) s),
           GuiClearScreen 0,
           GuiWinDeleteTop,
           setFirst 20 0]),
         (1, block [
           cfg_set Setting_Language_update 1,
           (\<lambda>s. Flash_Set 15 (ucast (Setting_Language (cfg s))) s),
           GuiClearScreen 0,
           GuiWinDeleteTop,
           setFirst 20 0]),
         (2, block [
           GuiClearScreen 0,
           GuiWinDeleteTop,
           setFirst 20 0])]
         (\<lambda>s. s))]"

definition UserMain20WinFun :: "(sys \<Rightarrow> sys) \<Rightarrow> stmt" where
  "UserMain20WinFun disp = ifS (\<lambda>s. FirstFlag (ui s) 20 = 0) Win20_first Win20_keys"

section \<open>Window 21: calibration password\<close>

definition Win21_first :: stmt where
  "Win21_first = block [
     setFirst 21 1,
     edt_set Tds_Password_Temp_update 0,
     ui_set NowWinid_update 21,
     GuiRowText 15 20 100 FONT_LEFT ''Input Password'',
     (\<lambda>s. sprintf_to ''Tds_PasswordString'' 4 (fmt_0d 2 (uint (Tds_Password_Temp (edt s)))) s),
     (\<lambda>s. GuiRowText 57 32 85 FONT_LEFT (fmt_0d 2 (uint (Tds_Password_Temp (edt s)))) s),
     tButton_upd 3 (\<lambda>b. b\<lparr>btn_x := 0, btn_y := 50, btn_wide := 128, btn_high := 15, btn_name := txt_SingleSelect, btn_linesize := 0, btn_flag := 1\<rparr>),
     GuiButton 3]"

definition Win21_keys :: stmt where
  "Win21_keys = block [
     take_keys,
     whenS (\<lambda>s. K0_pressed s) (block [
       whenS (\<lambda>s. Tds_Password_Temp (edt s) > 0) (edt_update (Tds_Password_Temp_update (\<lambda>v. v - 1))),
       (\<lambda>s. sprintf_to ''Tds_PasswordString'' 4 (fmt_0d 2 (uint (Tds_Password_Temp (edt s)))) s),
       (\<lambda>s. GuiRowText 57 32 85 FONT_LEFT (fmt_0d 2 (uint (Tds_Password_Temp (edt s)))) s)]),
     whenS (\<lambda>s. K1_pressed s) (block [
       edt_update (Tds_Password_Temp_update (\<lambda>v. v + 1)),
       (\<lambda>s. sprintf_to ''Tds_PasswordString'' 4 (fmt_0d 2 (uint (Tds_Password_Temp (edt s)))) s),
       (\<lambda>s. GuiRowText 57 32 85 FONT_LEFT (fmt_0d 2 (uint (Tds_Password_Temp (edt s)))) s)]),
     whenS (\<lambda>s. K2_pressed s) (block [
       GuiClearScreen 0,
       ifS (\<lambda>s. Tds_Password_Temp (edt s) = Tds_Password (edt s))
         (GuiWinAdd 23)
         GuiWinDeleteTop,
       setFirst 21 0])]"

definition UserMain21WinFun :: "(sys \<Rightarrow> sys) \<Rightarrow> stmt" where
  "UserMain21WinFun disp = ifS (\<lambda>s. FirstFlag (ui s) 21 = 0) Win21_first Win21_keys"

section \<open>Window 22: calibration menu\<close>

definition Win22_first :: stmt where
  "Win22_first = block [
     setFirst 22 1,
     ui_set NowButtonId_update 0,
     tButton_upd 0 (\<lambda>b. b\<lparr>btn_x := 0, btn_y := 11, btn_wide := 128, btn_high := 15, btn_name := ''Current Value'', btn_linesize := 0, btn_flag := 1\<rparr>),
     GuiButton 0,
     tButton_upd 3 (\<lambda>b. b\<lparr>btn_x := 0, btn_y := 50, btn_wide := 128, btn_high := 15, btn_name := txt_Back, btn_linesize := 0, btn_flag := 1\<rparr>),
     GuiButton 3]"

definition Win22_keys :: stmt where
  "Win22_keys = block [
     take_keys,
     whenS (\<lambda>s. K0_pressed s) (block [
       GuiClearScreen 0,
       GuiWinDeleteTop,
       setFirst 22 0]),
     whenS (\<lambda>s. K2_pressed s) (block [
       setFirst 22 0,
       GuiClearScreen 0,
       whenS (\<lambda>s. NowButtonId (ui s) = 0) (GuiWinAdd 23)])]"

definition UserMain22WinFun :: "(sys \<Rightarrow> sys) \<Rightarrow> stmt" where
  "UserMain22WinFun disp = ifS (\<lambda>s. FirstFlag (ui s) 22 = 0) Win22_first Win22_keys"

section \<open>Window 23: current TDS value\<close>

definition Win23_first :: stmt where
  "Win23_first = block [
     setFirst 23 1,
     ui_set NowWinid_update 23,
     sprintf_to ''CurrentTdsString'' 10 (fmt_0d 5 0 @ ''us/cm''),
     GuiRowText 30 25 110 FONT_LEFT (fmt_0d 5 0 @ ''us/cm''),
     tButton_upd 3 (\<lambda>b. b\<lparr>btn_x := 0, btn_y := 50, btn_wide := 128, btn_high := 15, btn_name := txt_SingleRightBack, btn_linesize := 0, btn_flag := 1\<rparr>),
     GuiButton 3]"

definition Win23_show :: stmt where
  "Win23_show s = (case Tds_Work s of (TdsValue, s1) \<Rightarrow> block [
     sprintf_to ''CurrentTdsString'' 10 (fmt_0d 5 (sint TdsValue) @ ''us/cm''),
     GuiRowText 30 25 110 FONT_LEFT (fmt_0d 5 (sint TdsValue) @ ''us/cm'')] s1)"

definition Win23_keys :: stmt where
  "Win23_keys = block [
     Win23_show,
     take_keys,
     whenS (\<lambda>s. K2_pressed s) (block [
       GuiClearScreen 0,
       GuiWinDeleteTop,
       GuiWinDeleteTop,
       setFirst 23 0])]"

definition UserMain23WinFun :: "(sys \<Rightarrow> sys) \<Rightarrow> stmt" where
  "UserMain23WinFun disp = ifS (\<lambda>s. FirstFlag (ui s) 23 = 0) Win23_first Win23_keys"

section \<open>Window 24: calibration value\<close>

definition Win24_first :: stmt where
  "Win24_first = block [
     setFirst 24 1,
     ui_set NowWinid_update 24,
     edt_set TdsValueOffsetTemp_update 0,
     sprintf_to ''CurrentTdsString'' 10 (fmt_0d 5 0),
     GuiRowText 30 25 110 FONT_LEFT (fmt_0d 5 0),
     GuiRowText 70 25 110 FONT_LEFT ''us/cm'',
     tButton_upd 3 (\<lambda>b. b\<lparr>btn_x := 0, btn_y := 50, btn_wide := 128, btn_high := 15, btn_name := txt_Back, btn_linesize := 0, btn_flag := 1\<rparr>),
     GuiButton 3]"

definition Win24_keys :: "(sys \<Rightarrow> sys) \<Rightarrow> stmt" where
  "Win24_keys disp = block [
     take_keys,
     whenS (\<lambda>s. K0_pressed s) (block [
       GuiClearScreen 0,
       GuiWinDeleteTop,
       disp,
       setFirst 24 0]),
     whenS (\<lambda>s. K1_pressed s) (block [
       edt_update (TdsValueOffsetTemp_update (\<lambda>v. v + 100)),
       (\<lambda>s. sprintf_to ''CurrentTdsString'' 10 (fmt_0d 5 (uint (TdsValueOffsetTemp (edt s)))) s),
       (\<lambda>s. GuiRowText 30 25 110 FONT_LEFT (fmt_0d 5 (uint (TdsValueOffsetTemp (edt s)))) s)]),
     whenS (\<lambda>s. K2_pressed s) (block [
       GuiClearScreen 0,
       GuiWinDeleteTop,
       disp,
       setFirst 24 0])]"

definition UserMain24WinFun :: "(sys \<Rightarrow> sys) \<Rightarrow> stmt" where
  "UserMain24WinFun disp = ifS (\<lambda>s. FirstFlag (ui s) 24 = 0) Win24_first (Win24_keys disp)"

section \<open>Window 25: reminder\<close>

definition Win25_first :: stmt where
  "Win25_first = block [
     setFirst 25 1,
     ui_set NowWinid_update 25,
     GuiClearScreen 0,
     GuiRowText 16 15 110 FONT_LEFT ''Backwash Filter'',
     GuiRowText 53 30 57 FONT_LEFT ''Now'',
     tButton_upd 3 (\<lambda>b. b\<lparr>btn_x := 0, btn_y := 50, btn_wide := 128, btn_high := 15, btn_name := txt_YesOrNo, btn_linesize := 0, btn_flag := 1\<rparr>),
     GuiButton 3]"

definition Win25_keys :: "(sys \<Rightarrow> sys) \<Rightarrow> stmt" where
  "Win25_keys disp = block [
     take_keys,
     whenS (\<lambda>s. K0_pressed s) (block [
       setFirst 25 0,
       GuiClearScreen 0,
       GuiWinInit,
       GuiWinAdd 1,
       disp]),
     whenS (\<lambda>s. K2_pressed s) JumptoAutomatic]"

definition UserMain25WinFun :: "(sys \<Rightarrow> sys) \<Rightarrow> stmt" where
  "UserMain25WinFun disp = ifS (\<lambda>s. FirstFlag (ui s) 25 = 0) Win25_first (Win25_keys disp)"

section \<open>Window 26: battery empty\<close>

definition Win26_first :: stmt where
  "Win26_first = block [
     setFirst 26 1,
     GuiRowText 25 20 110 FONT_LEFT ''Low Voltage'',
     GuiRowText 20 35 110 FONT_LEFT ''Renew Battery'',
     tButton_upd 0 (\<lambda>b. b\<lparr>btn_x := 0, btn_y := 50, btn_wide := 128, btn_high := 15, btn_name := txt_SingleYes, btn_linesize := 0, btn_flag := 1\<rparr>),
     GuiButton 0]"

definition Win26_keys :: stmt where
  "Win26_keys = block [
     take_keys,
     whenS (\<lambda>s. K2_pressed s) (block [
       GuiClearScreen 0,
       GuiWinDeleteTop,
       setFirst 26 0])]"

definition UserMain26WinFun :: "(sys \<Rightarrow> sys) \<Rightarrow> stmt" where
  "UserMain26WinFun disp = ifS (\<lambda>s. FirstFlag (ui s) 26 = 0) Win26_first Win26_keys"

section \<open>Window 27: battery not new\<close>

definition Win27_first :: stmt where
  "Win27_first = block [
     setFirst 27 1,
     GuiRowText 13 20 115 FONT_LEFT ''Abnormal Voltage'',
     GuiRowText 20 35 110 FONT_LEFT ''Renew Battery'',
     tButton_upd 0 (\<lambda>b. b\<lparr>btn_x := 0, btn_y := 50, btn_wide := 128, btn_high := 15, btn_name := txt_SingleYes, btn_linesize := 0, btn_flag := 1\<rparr>),
     GuiButton 0]"

definition Win27_keys :: stmt where
  "Win27_keys = block [
     take_keys,
     whenS (\<lambda>s. K2_pressed s) (block [
       GuiClearScreen 0,
       GuiWinDeleteTop,
       setFirst 27 0])]"

definition UserMain27WinFun :: "(sys \<Rightarrow> sys) \<Rightarrow> stmt" where
  "UserMain27WinFun disp = ifS (\<lambda>s. FirstFlag (ui s) 27 = 0) Win27_first Win27_keys"

end
