(* ===== verification/LcdTask.thy ===== *)
theory LcdTask
  imports Windows3
begin

text \<open>
  The display task (\<open>lcd_task_entry\<close> of \<open>lcd/lcd_display.c\<close>): dispatch to the window on
  top, the jumps requested by other tasks, the differential pressure switch
  (\<open>device/DeviceInit.c\<close>), the key callbacks of \<open>device/DeviceInit.c\<close> and the sleep
  sequence of \<open>device/LowPower.c\<close>.
\<close>

section \<open>Dispatch (lkdGuiWin.c)\<close>

text \<open>The \<open>WindowFunction\<close> pointers of \<open>userMain1Win\<close> to \<open>userMain27Win\<close>.\<close>

definition WindowFunctions :: "(nat \<times> ((sys \<Rightarrow> sys) \<Rightarrow> stmt)) list" where
  "WindowFunctions = [
     (1, UserMain1WinFun), (2, UserMain2WinFun), (3, UserMain3WinFun), (4, UserMain4WinFun),
     (5, UserMain5WinFun), (6, UserMain6WinFun), (7, UserMain7WinFun), (8, UserMain8WinFun),
     (9, UserMain9WinFun), (10, UserMain10WinFun), (11, UserMain11WinFun), (12, UserMain12WinFun),
     (13, UserMain13WinFun), (14, UserMain14WinFun), (15, UserMain15WinFun), (16, UserMain16WinFun),
     (17, UserMain17WinFun), (18, UserMain18WinFun), (19, UserMain19WinFun), (20, UserMain20WinFun),
     (21, UserMain21WinFun), (22, UserMain22WinFun), (23, UserMain23WinFun), (24, UserMain24WinFun),
     (25, UserMain25WinFun), (26, UserMain26WinFun), (27, UserMain27WinFun)]"

definition WindowFunction :: "nat \<Rightarrow> (sys \<Rightarrow> sys) \<Rightarrow> stmt" where
  "WindowFunction w disp = (case map_of WindowFunctions w of
      Some f \<Rightarrow> f disp | None \<Rightarrow> add_fault (BadIndex ''WindowFunction'' w))"

text \<open>
  \<open>GuiWinDisplay\<close> with a bound on the depth of nested calls. Every nested call is made by a
  window that has just taken a key press, so the number of presses waiting bounds the depth:
  \<open>userAppPortRun\<close> starts with one more than that.
\<close>

primrec GuiWinDisplay :: "nat \<Rightarrow> stmt" where
  "GuiWinDisplay 0 = add_fault OutOfFuel"
| "GuiWinDisplay (Suc n) = (\<lambda>s.
     if pWin (ui s) = 0 \<or> pWin (ui s) > GUIWINMANAGE_NUM then s
     else WindowFunction (winStack (ui s) (unat (pWin (ui s)) - 1)) (GuiWinDisplay n) s)"

definition presses :: "key_st \<Rightarrow> nat" where
  "presses k = unat (sem_value (K0_Sem k)) + unat (sem_value (K1_Sem k)) +
               unat (sem_value (K2_Sem k)) + unat (sem_value (K2_Long_Sem k))"

definition userAppPortRun :: stmt where
  "userAppPortRun s = GuiWinDisplay (Suc (presses (kys s))) s"

definition userAppPortInit :: stmt where
  "userAppPortInit = block [LcdInit, defaultFontInit, GuiWinInit, GuiWinAdd 1]"

definition test_drawpoint :: stmt where
  "test_drawpoint = block [
     userAppPortInit, GuiClearScreen 0,
     GuiDrawPoint 0 0 1, GuiDrawPoint 0 63 1, GuiDrawPoint 62 30 1, GuiDrawPoint 62 31 1,
     GuiDrawPoint 63 30 1, GuiDrawPoint 63 31 1, GuiDrawPoint 127 0 1, GuiDrawPoint 127 63 1]"

section \<open>Jumps\<close>

definition JumptoMainWin :: stmt where
  "JumptoMainWin = block [memset_FirstFlag, GuiClearScreen 0, GuiWinInit, GuiWinAdd 1]"

definition LcdtoReminder :: stmt where
  "LcdtoReminder = ifS (\<lambda>s. FirstFlag (ui s) 25 = 0 \<and> Jump_Flag (ui s) = 1)
     (block [memset_FirstFlag, GuiClearScreen 0, GuiWinAdd 25])
     (setFirst 25 0)"

definition LcdtoBackwash :: stmt where
  "LcdtoBackwash = block [
     ifS (\<lambda>s. FirstFlag (ui s) 3 = 0)
       (block [memset_FirstFlag, GuiClearScreen 0, GuiWinAdd 3])
       (setFirst 3 0),
     Moto_Cycle]"

text \<open>The interrupt of the flow sensor and the work it asks for (DeviceInit.c).\<close>

definition Delta_press :: stmt where
  "Delta_press = kys_update (Delta_press_work_Flag_update (\<lambda>_. 1))"

definition Delta_press_work :: stmt where
  "Delta_press_work = whenS (\<lambda>s. Delta_press_work_Flag (kys s) \<noteq> 0) (block [
     kys_update (Delta_press_work_Flag_update (\<lambda>_. 0)),
     whenS (\<lambda>s. Deltapress_Enable (cfg s) \<noteq> 0) (block [
       cfg_update (Counter_Deltapress_update (\<lambda>c. c + 1)),
       (\<lambda>s. Flash_Set 10 (ucast (Counter_Deltapress (cfg s))) s),
       OpenLcdDisplay,
       ifS (\<lambda>s. Setting_Deltapress (cfg s) \<noteq> 0) JumptoAutomatic JumptoReminder])])"

section \<open>The task\<close>

definition jump_reminder :: stmt where
  "jump_reminder = whenS (\<lambda>s. JumptoReminderFlag (jmp s) = 1) (block [
     jmp_update (JumptoReminderFlag_update (\<lambda>_. 0)), LcdtoReminder, OpenLcdDisplay, ScreenTimerRefresh])"

definition jump_automatic :: stmt where
  "jump_automatic = whenS (\<lambda>s. JumptoAutomaticFlag (jmp s) = 1) (block [
     jmp_update (JumptoAutomaticFlag_update (\<lambda>_. 0)), LcdtoBackwash, OpenLcdDisplay])"

definition jump_battery_empty :: stmt where
  "jump_battery_empty = whenS (\<lambda>s. JumpToBatteryEmptyFlag (jmp s) = 1) (block [
     jmp_update (JumpToBatteryEmptyFlag_update (\<lambda>_. 0)), GuiClearScreen 0, GuiWinAdd 26,
     memset_FirstFlag, OpenLcdDisplay])"

definition jump_battery_new :: stmt where
  "jump_battery_new = whenS (\<lambda>s. JumpToBatteryNewFlag (jmp s) = 1) (block [
     jmp_update (JumpToBatteryNewFlag_update (\<lambda>_. 0)), GuiClearScreen 0, GuiWinAdd 27,
     memset_FirstFlag, OpenLcdDisplay])"

text \<open>One turn of the loop of \<open>lcd_task_entry\<close>, every ten milliseconds.\<close>

definition lcd_pass :: stmt where
  "lcd_pass = block [
     userAppPortRun,
     Delta_press_work,
     whenS (\<lambda>s. LCD_Flag (ui s) \<noteq> 3) GuiUpdateDisplayAll,
     jump_reminder,
     jump_automatic,
     jump_battery_empty,
     jump_battery_new]"

text \<open>The part of \<open>lcd_task_entry\<close> before the loop; \<open>None\<close> when \<open>GotValue\<close> writes through null.\<close>

definition lcd_task_start :: "sys \<Rightarrow> sys option" where
  "lcd_task_start s = map_option (block [Lcd_Event_Init, userAppPortInit, ui_set LCD_Flag_update 0]) (GotValue s)"

section \<open>Key callbacks (DeviceInit.c)\<close>

definition Key_Sem_init :: stmt where
  "Key_Sem_init = kys_update (\<lambda>k. k\<lparr>K0_Sem := rt_sem_init 0 RT_IPC_FLAG_FIFO,
     K1_Sem := rt_sem_init 0 RT_IPC_FLAG_FIFO, K2_Sem := rt_sem_init 0 RT_IPC_FLAG_FIFO,
     K2_Long_Sem := rt_sem_init 0 RT_IPC_FLAG_FIFO\<rparr>)"

definition Key_Init :: stmt where
  "Key_Init = block [
     Key_Sem_init, SreenTimerInit,
     rt_pin_mode K0_PIN PIN_MODE_INPUT, rt_pin_mode K1_PIN PIN_MODE_INPUT, rt_pin_mode K2_PIN PIN_MODE_INPUT,
     rt_pin_mode MOTO_LEFT PIN_MODE_INPUT, rt_pin_mode MOTO_RIGHT PIN_MODE_INPUT,
     rt_pin_mode WATER_FLOW PIN_MODE_INPUT,
     rt_pin_attach_irq WATER_FLOW Delta_press_irq,
     rt_pin_irq_enable WATER_FLOW]"

definition K0_Sem_Release :: stmt where
  "K0_Sem_Release = block [
     OpenLcdDisplay, ScreenTimerRefresh,
     whenS (\<lambda>s. LCD_Flag (ui s) = 0) (kys_update (K0_Sem_update (\<lambda>m. snd (rt_sem_release m))))]"

definition K1_Sem_Release :: stmt where
  "K1_Sem_Release = block [
     OpenLcdDisplay, ScreenTimerRefresh,
     whenS (\<lambda>s. LCD_Flag (ui s) = 0) (kys_update (K1_Sem_update (\<lambda>m. snd (rt_sem_release m))))]"

definition K2_Sem_Release :: stmt where
  "K2_Sem_Release = block [
     OpenLcdDisplay, ScreenTimerRefresh,
     whenS (\<lambda>s. LCD_Flag (ui s) = 0) (kys_update (K2_Sem_update (\<lambda>m. snd (rt_sem_release m))))]"

definition K2_Long_Sem_Release :: stmt where
  "K2_Long_Sem_Release = block [
     OpenLcdDisplay, ScreenTimerRefresh,
     whenS (\<lambda>s. K2_Long_Flag (kys s) \<noteq> 1) (block [
       kys_update (K2_Long_Counter_update (\<lambda>c. c + 1)),
       whenS (\<lambda>s. K2_Long_Counter (kys s) > 10) (block [
         kys_update (K2_Long_Flag_update (\<lambda>_. 1)),
         kys_update (K2_Long_Counter_update (\<lambda>_. 0)),
         kys_update (K2_Long_Sem_update (\<lambda>m. snd (rt_sem_release m)))])])]"

definition K2_Long_Free_Release :: stmt where
  "K2_Long_Free_Release = block [
     OpenLcdDisplay, ScreenTimerRefresh,
     kys_update (K2_Long_Flag_update (\<lambda>_. 0)),
     kys_update (K2_Long_Counter_update (\<lambda>_. 0))]"

section \<open>Sleep (LowPower.c)\<close>

definition button_wakeup :: stmt where
  "button_wakeup = kys_update (Button_Wakeup_Flag_update (\<lambda>_. 1))"

definition FlashInit :: stmt where
  "FlashInit = block [
     board_update (clk_spi2_update (\<lambda>_. True)),
     rt_pin_mode FLASH_SCLK PIN_MODE_AF, rt_pin_mode FLASH_MISO PIN_MODE_AF, rt_pin_mode FLASH_MOSI PIN_MODE_AF,
     rt_pin_write FLASH_EN 1]"

definition FlashDeInit :: stmt where
  "FlashDeInit = block [
     rt_pin_write FLASH_EN 0,
     board_update (clk_spi2_update (\<lambda>_. False)),
     rt_pin_mode FLASH_MOSI PIN_MODE_OUTPUT, rt_pin_write FLASH_MOSI 0,
     rt_pin_mode FLASH_MISO PIN_MODE_OUTPUT, rt_pin_write FLASH_MISO 0,
     rt_pin_mode FLASH_SCLK PIN_MODE_OUTPUT, rt_pin_write FLASH_SCLK 0,
     rt_pin_mode FLASH_CS PIN_MODE_OUTPUT, rt_pin_write FLASH_CS 0]"

definition WifiDeInit :: stmt where
  "WifiDeInit = block [
     rt_pin_mode WIFI_EN PIN_MODE_OUTPUT, rt_pin_write WIFI_EN 0,
     rt_pin_mode WIFI_RST PIN_MODE_OUTPUT, rt_pin_write WIFI_RST 0]"

definition BeforSleep :: stmt where
  "BeforSleep = block [
     rt_pin_attach_irq K0_PIN button_wakeup_irq, rt_pin_attach_irq K1_PIN button_wakeup_irq,
     rt_pin_attach_irq K2_PIN button_wakeup_irq,
     rt_pin_irq_enable K0_PIN, rt_pin_irq_enable K1_PIN, rt_pin_irq_enable K2_PIN,
     Led_DeInit, Moto_Pin_DeInit, FlashDeInit, ADC_Pin_DeInit, WifiDeInit, Tds_DeInit, CloseLcdVcc]"

definition AfterWake :: stmt where
  "AfterWake = block [Led_Init, Moto_Pin_Init, FlashInit, ADC_Pin_Init, Tds_Init]"

text \<open>
  What ends the stop mode: a key, the flow sensor or the hourly alarm. The handler of the
  interrupt runs before the statement after the wait.
\<close>

datatype wake = WakeKey | WakeWater | WakeRtc

definition wake_isr :: "wake \<Rightarrow> stmt" where
  "wake_isr w = (case w of WakeKey \<Rightarrow> button_wakeup | WakeWater \<Rightarrow> Delta_press | WakeRtc \<Rightarrow> HAL_RTC_AlarmAEventCallback)"

definition EnterLowPower :: "wake \<Rightarrow> stmt" where
  "EnterLowPower w = block [
     BeforSleep,
     kys_update (Button_Wakeup_Flag_update (\<lambda>_. 0)),
     wake_isr w,
     ifS (\<lambda>s. Button_Wakeup_Flag (kys s) \<noteq> 0) (block [AfterWake, JumptoMainWin]) AfterWake]"

section \<open>Timer callbacks\<close>

text \<open>\<open>w\<close> is what ends the sleep, for the two callbacks that sleep.\<close>

definition timer_callback :: "wake \<Rightarrow> timer_fun \<Rightarrow> stmt" where
  "timer_callback w f = (case f of
      LcdBacklightTimerCallback \<Rightarrow> block [ui_set LCD_Flag_update 2, CloseLcdBacklight]
    | LcdVccTimerCallback \<Rightarrow> block [ui_set LCD_Flag_update 3, EnterLowPower w]
    | Moto_Cycle_Timer_Callback \<Rightarrow> Moto_Cycle_Timer_cb
    | K2_Setjump_Sem_Release \<Rightarrow> kys_update (K2_Sem_update (\<lambda>m. snd (rt_sem_release m)))
    | LowPowerTimerCallback \<Rightarrow> EnterLowPower w)"

text \<open>One turn of \<open>rt_soft_timer_check\<close>.\<close>

definition timer_thread :: "wake \<Rightarrow> stmt" where
  "timer_thread w s = (case timer_due (tick_now (board s)) (tsys (tmr s)) of None \<Rightarrow> s
     | Some (h, f, ts) \<Rightarrow> block [
         tmr_update (tsys_update (\<lambda>_. ts)),
         timer_callback w f,
         tmr_update (tsys_update (timer_done h))] s)"

end
