(* ===== verification/WinInv.thy ===== *)
theory WinInv
  imports LcdTask
begin

text \<open>
  How a property of the state is carried through the display task. The locale \<open>draw_part\<close> is
  the contract of a property towards the drawing layer, \<open>gui_part\<close> adds the controls and the
  window stack: what a property must survive for every window to keep it. \<open>window_part\<close> adds the other effects of the window functions, and
  \<open>task_part\<close> those of the rest of the task. Each gives the preservation result for the
  code built on it, once, for all properties that are later shown to satisfy the contract.
\<close>

section \<open>The drawing layer\<close>

locale draw_part =
  fixes I :: "sys \<Rightarrow> bool"
  assumes fault: "I s \<Longrightarrow> I (add_fault x s)"
    and fbuf: "I s \<Longrightarrow> I (ui_update (x_to_page_update f) s)"
    and zmb: "I s \<Longrightarrow> I (ui_update (pZmBuff_update z) s)"
    and lcd_pin: "p = LCD_CS \<or> p = LCD_SDA \<or> p = LCD_CLK \<Longrightarrow> I s \<Longrightarrow> I (rt_pin_write p v s)"
    and colors: "I s \<Longrightarrow> I (ui_update (\<lambda>u. u\<lparr>forecolor := a u, backcolor := b u\<rparr>) s)"
begin

lemma keeps_exchange [keeps_rules]: "keeps I GuiExchangeColor" "keeps I defaultFontInit"
  using colors [of _ "\<lambda>_. CBLACK" "\<lambda>_. CWHITLE"]
  by (simp_all add: keeps_def GuiExchangeColor_def defaultFontInit_def colors)

lemma keeps_lcd_pin: "p = LCD_CS \<or> p = LCD_SDA \<or> p = LCD_CLK \<Longrightarrow> keeps I (rt_pin_write p v)"
  by (simp add: keeps_def lcd_pin)

lemma keeps_lcd_shift: "keeps I (lcd_shift n b)"
  by (induction n arbitrary: b)
    (auto intro!: keeps_block_Cons keeps_block_Nil keeps_ifS keeps_id keeps_lcd_pin simp: lcd_bit_def)

lemma keeps_lcd_bytes [keeps_rules]: "keeps I (WriteLcdCommand b)" "keeps I (\<lambda>s. WriteLcdData (F s) s)"
proof -
  have w: "keeps I (WriteLcdCommand b)" "keeps I (WriteLcdData b)" for b
    unfolding WriteLcdCommand_def WriteLcdData_def
    by (intro keeps_block_Cons keeps_block_Nil keeps_lcd_shift keeps_lcd_pin; simp)+
  show "keeps I (WriteLcdCommand b)" by (rule w)
  show "keeps I (\<lambda>s. WriteLcdData (F s) s)" using w by (simp add: keeps_def)
qed

lemma keeps_address [keeps_rules]: "keeps I (lcd_address page col)"
  unfolding lcd_address_def by (intro keeps_rules)

lemma keeps_update_all [keeps_rules]: "keeps I GuiUpdateDisplayAll"
  unfolding GuiUpdateDisplayAll_def send_page_def
  by (auto intro!: keeps_block_all keeps_block_Cons keeps_address keeps_lcd_bytes)

lemma keeps_fill_page: "keeps I (fill_page v i)"
  unfolding fill_page_def by (auto intro!: keeps_block_all keeps_address keeps_lcd_bytes)

lemma keeps_clear_screen [keeps_rules]: "keeps I clear_screen" "keeps I full_screen"
  unfolding clear_screen_def full_screen_def by (auto intro!: keeps_block_all keeps_fill_page)

lemma keeps_point [keeps_rules]: "keeps I (GuiDrawPoint x y c)" "keeps I (GuiFlipPoint x y c)"
  by (auto simp: keeps_def GuiDrawPoint_def GuiFlipPoint_def put_dot_def fbuf fault)

lemma keeps_plot_loop:
  assumes "\<And>i. keeps I (plot i)"
  shows "keeps I (plot_loop plot i i1 iv)"
proof
  fix s assume "I s"
  then show "I (plot_loop plot i i1 iv s)"
    using assms
  proof (induction plot i i1 iv s rule: plot_loop.induct)
    case (1 plot i i1 iv s)
    then show ?case by (subst plot_loop.simps) (simp add: fault keepsD)
  qed
qed

lemma keeps_clipped_line: "(\<And>i. keeps I (plot i)) \<Longrightarrow> keeps I (clipped_line plot a b mx iv)"
  using keeps_plot_loop [of plot] by (simp add: keeps_def clipped_line_def Let_def)

lemma keeps_lines [keeps_rules]: "keeps I (GuiHPointLine x0 y0 x1 iv c)" "keeps I (GuiRPointLine x0 y0 y1 iv c)"
proof -
  have "keeps I (clipped_line (\<lambda>x. GuiDrawPoint x y0 c) x0 x1 GUIXMAX iv)"
    "keeps I (clipped_line (\<lambda>y. GuiDrawPoint x0 y c) y0 y1 GUIYMAX iv)"
    by (intro keeps_clipped_line keeps_point)+
  then show "keeps I (GuiHPointLine x0 y0 x1 iv c)" "keeps I (GuiRPointLine x0 y0 y1 iv c)"
    by (simp_all add: keeps_def GuiHPointLine_def GuiRPointLine_def)
qed

lemma keeps_fill [keeps_rules]: "keeps I (GuiFillRect x0 y0 x1 y1 c)"
proof -
  have "keeps I (block (map (\<lambda>i. GuiHPointLine a i b 1 c) is))" for a b "is"
    by (rule keeps_block_all) (auto simp: keeps_lines)
  then show ?thesis by (simp add: keeps_def GuiFillRect_def Let_def fault)
qed

lemma keeps_clear [keeps_rules]: "keeps I (GuiClearScreen c)"
  unfolding GuiClearScreen_def by (rule keeps_fill)

lemma keeps_font: "keeps I (GetFontASCII_5_7 code)"
  by (simp add: keeps_def GetFontASCII_5_7_def Let_def zmb fault)

lemma keeps_bitmap: "I s \<Longrightarrow> I (GuiBitMap bm x0 y0 xl yl fl s)"
proof -
  have "keeps I (bitmap_dot bm er x0 y0 fl j i z)" for er j i z
    using keeps_point(2) by (simp add: keeps_def bitmap_dot_def Let_def fault)
  then have "keeps I (block (bitmap_dots bm er x0 y0 fl xl yl))" for er xl yl
    by (intro keeps_block_all) (auto simp: bitmap_dots_def)
  then show "I s \<Longrightarrow> I (GuiBitMap bm x0 y0 xl yl fl s)"
    by (simp add: keeps_def GuiBitMap_def Let_def)
qed

lemma keeps_text_loop: "I s \<Longrightarrow> I (text_loop x ex ey fl str tx y s)"
  by (induction x ex ey fl str tx y s rule: text_loop.induct)
    (auto simp: Let_def keeps_bitmap keepsD [OF keeps_font] fault split: list.split)

lemma keeps_text [keeps_rules]: "keeps I (\<lambda>s. GuiRowText x y w fl (F s) s)"
  by (simp add: keeps_def GuiRowText_def Let_def keeps_text_loop)

lemma keeps_line [keeps_rules]: "keeps I (GuiRowTextWithLine x y w ls fl str)"
  unfolding GuiRowTextWithLine_def GuiHLine_def by (intro keeps_rules)

lemma keeps_button_text [keeps_rules]: "keeps I (button_text b)"
  unfolding button_text_def by (simp add: keeps_line keeps_text)

lemma keeps_draw_button:
  assumes "I s"
  shows "I (draw_button b s)"
proof -
  have "\<And>x0 y0 x1 y1 c. keeps I (block [GuiFillRect x0 y0 x1 y1 c, button_text b])"
    "\<And>x0 y0 x1 y1 c. keeps I (block [GuiFillRect x0 y0 x1 y1 c, GuiExchangeColor, button_text b, GuiExchangeColor])"
    by (intro keeps_rules)+
  then show ?thesis using assms by (simp add: draw_button_def Let_def keeps_def)
qed

lemma keeps_dots [keeps_rules]: "keeps I (scroll_dots p c)"
  unfolding scroll_dots_def list.map by (intro keeps_rules)

lemma keeps_lump [keeps_rules]: "keeps I (scroll_block p n c)"
  unfolding scroll_block_def Let_def by (simp add: keeps_fill)

lemma keeps_windraw [keeps_rules]: "keeps I (GuiWinDraw w)"
proof
  fix s assume "I s"
  moreover have "\<And>x0 y0 x1 y1 c x y wd t. keeps I (block [GuiFillRect x0 y0 x1 y1 c, GuiExchangeColor,
      GuiRowText x y wd FONT_MID t, GuiExchangeColor])"
    by (intro keeps_rules)
  ultimately show "I (GuiWinDraw w s)"
    unfolding GuiWinDraw_def Let_def using keeps_update_all by (simp add: keeps_def split: option.split)
qed

end

text \<open>Buttons, scroll bars and the window stack.\<close>

locale gui_part = draw_part +
  assumes btn: "I s \<Longrightarrow> I (ui_update (tButton_update g) s)"
    and scr: "I s \<Longrightarrow> I (ui_update (tScroll_update h) s)"
    and flag: "I s \<Longrightarrow> I (ui_update (FirstFlag_update k) s)"
    and nbi: "I s \<Longrightarrow> I (ui_update (NowButtonId_update l) s)"
    and nst: "I s \<Longrightarrow> I (ui_update (NowSetting_update l) s)"
    and nwi: "I s \<Longrightarrow> I (ui_update (NowWinid_update l) s)"
    and pg1: "I s \<Longrightarrow> I (ui_update (Win1PageID_update l) s)"
    and pg14: "I s \<Longrightarrow> I (ui_update (Win14PageID_update l) s)"
    and jfl: "I s \<Longrightarrow> I (ui_update (Jump_Flag_update l) s)"
    and wpos: "I s \<Longrightarrow> I (ui_update (userMainWin_update (\<lambda>w. w(n := (w n)\<lparr>win_x := 0\<rparr>))) s)"
      "I s \<Longrightarrow> I (ui_update (userMainWin_update (\<lambda>w. w(n := (w n)\<lparr>win_y := 0\<rparr>))) s)"
    and win_add: "1 \<le> w \<Longrightarrow> w \<le> 27 \<Longrightarrow> I s \<Longrightarrow> pWin (ui s) < GUIWINMANAGE_NUM \<Longrightarrow>
      I (ui_update (\<lambda>u. u\<lparr>winStack := (winStack u)(unat (pWin u) := w), pWin := pWin u + 1\<rparr>) s)"
    and win_del: "I s \<Longrightarrow> 1 < pWin (ui s) \<Longrightarrow> pWin (ui s) \<le> GUIWINMANAGE_NUM \<Longrightarrow>
      I (ui_update (pWin_update (\<lambda>n. n - 1)) s)"
    and win_init: "I s \<Longrightarrow> I (ui_update (pWin_update (\<lambda>_. 0)) s)"
begin

lemma keeps_ui [keeps_rules]:
  "keeps I (ui_update (FirstFlag_update k))" "keeps I (ui_update (NowButtonId_update l))"
  "keeps I (ui_update (NowSetting_update l))" "keeps I (ui_update (NowWinid_update l))"
  "keeps I (ui_update (Win1PageID_update l))" "keeps I (ui_update (Win14PageID_update l))"
  "keeps I (ui_update (Jump_Flag_update l))"
  "keeps I (ui_update (userMainWin_update (\<lambda>w. w(n := (w n)\<lparr>win_x := 0\<rparr>))))"
  "keeps I (ui_update (userMainWin_update (\<lambda>w. w(n := (w n)\<lparr>win_y := 0\<rparr>))))"
  by (auto simp: keeps_def flag nbi nst nwi pg1 pg14 jfl wpos)

lemma keeps_scroll [keeps_rules]: "keeps I (\<lambda>s. ui_update (tScroll_update (F s)) s)"
  by (simp add: keeps_def scr)

lemma keeps_tButton [keeps_rules]: "keeps I (\<lambda>s. tButton_upd i (F s) s)"
  by (simp add: keeps_def tButton_upd_def btn fault)

lemma keeps_button [keeps_rules]: "keeps I (GuiButton i)" "keeps I GuiButton_now" "keeps I (set_flag_now v)"
  by (auto simp: keeps_def GuiButton_def GuiButton_now_def set_flag_now_def tButton_upd_def
      keeps_draw_button fault btn)

lemma keeps_vscroll [keeps_rules]: "keeps I (GuiVScroll i)"
proof
  fix s assume "I s"
  moreover have "\<And>q l c f. keeps I (block [ui_update (tScroll_update (\<lambda>t. t(i := q))), scroll_dots q c, scroll_block q l f])"
    by (intro keeps_rules)
  ultimately show "I (GuiVScroll i s)"
    unfolding GuiVScroll_def Let_def using keeps_fill by (simp add: keeps_def)
qed

lemma keeps_scroll_ops [keeps_rules]:
  "keeps I scroll_to_now" "keeps I (\<lambda>s. set_scroll mx x y h (F s) s)"
  by (auto simp: keeps_def scroll_to_now_def set_scroll_def scr)

lemma keeps_sprintf [keeps_rules]: "keeps I (\<lambda>s. sprintf_to b c (F s) s)"
  by (simp add: keeps_def sprintf_to_def fault)

lemma keeps_first [keeps_rules]: "keeps I (setFirst i v)" "keeps I memset_FirstFlag"
  by (auto simp: keeps_def setFirst_def memset_FirstFlag_def flag)

lemma keeps_winadd [keeps_rules]: "1 \<le> w \<Longrightarrow> w \<le> 27 \<Longrightarrow> keeps I (GuiWinAdd w)"
  unfolding GuiWinAdd_def
  by (intro keeps_block_Cons keeps_block_Nil keeps_windraw) (auto simp: keeps_def not_le win_add)

lemma keeps_windel [keeps_rules]: "keeps I GuiWinDeleteTop"
proof
  fix s assume "I s"
  then show "I (GuiWinDeleteTop s)"
    unfolding GuiWinDeleteTop_def Let_def using keeps_windraw win_del by (simp add: keeps_def not_le not_less)
qed

lemma keeps_wininit [keeps_rules]: "keeps I GuiWinInit"
  by (simp add: keeps_def GuiWinInit_def win_init)

end

section \<open>The window functions\<close>

locale effects_base = gui_part +
  assumes rtc: "I s \<Longrightarrow> I (rtc_update r s)"
    and jmp: "I s \<Longrightarrow> I (jmp_update j s)"
    and tds: "I s \<Longrightarrow> I (snd (Tds_Work s))"
    and counters: "I s \<Longrightarrow> I (cfg_update (Counter_Manual_update c) s)"
      "I s \<Longrightarrow> I (cfg_update (Counter_Automatic_update c) s)"
      "I s \<Longrightarrow> I (cfg_update (Counter_Deltapress_update c) s)"
      "I s \<Longrightarrow> I (cfg_update (Counter_Error_update c) s)"
    and keys: "I s \<Longrightarrow> I (take_keys s)"
    and cycle: "I s \<Longrightarrow> I (Moto_Cycle s)"
    and pins: "p \<in> {LED_R_PIN, LED_G_PIN} \<Longrightarrow> I s \<Longrightarrow> I (rt_pin_write p x s)"
    and semjump: "I s \<Longrightarrow> I (SemJump s)"
    and reset: "I s \<Longrightarrow> I (rt_hw_cpu_reset s)"
begin

lemma keeps_parts [keeps_rules]:
  "keeps I (\<lambda>s. rtc_update (R s) s)" "keeps I (\<lambda>s. jmp_update (J s) s)"
  "keeps I (\<lambda>s. cfg_update (Counter_Manual_update (C s)) s)"
  "keeps I (\<lambda>s. cfg_update (Counter_Automatic_update (C s)) s)"
  "keeps I (\<lambda>s. cfg_update (Counter_Deltapress_update (C s)) s)"
  "keeps I (\<lambda>s. cfg_update (Counter_Error_update (C s)) s)"
  "keeps I take_keys" "keeps I Moto_Cycle" "keeps I SemJump" "keeps I rt_hw_cpu_reset"
  by (auto simp: keeps_def rtc jmp counters keys cycle semjump reset)

end

text \<open>
  The windows that edit no setting store only the counters and the clock values; the factory
  reset stores all parameters and restarts.
\<close>

locale window_effects = effects_base +
  assumes flash_counter: "i \<in> {8, 9, 10, 11, 16, 17, 18} \<Longrightarrow> I s \<Longrightarrow> I (Flash_Set i v s)"
    and factory: "I s \<Longrightarrow> I (rt_hw_cpu_reset (Flash_Factory s))"
begin

lemma keeps_flash_counters [keeps_rules]:
  "keeps I (\<lambda>s. Flash_Set 8 (V s) s)" "keeps I (\<lambda>s. Flash_Set 9 (V s) s)" "keeps I (\<lambda>s. Flash_Set 10 (V s) s)"
  "keeps I (\<lambda>s. Flash_Set 11 (V s) s)" "keeps I (\<lambda>s. Flash_Set 16 (V s) s)" "keeps I (\<lambda>s. Flash_Set 17 (V s) s)"
  "keeps I (\<lambda>s. Flash_Set 18 (V s) s)"
  by (simp_all add: keeps_def flash_counter)

lemma keeps_leds [keeps_rules]: "keeps I Red_Off" "keeps I Green_Off" "keeps I Red_Light" "keeps I Green_Light"
  by (auto simp: keeps_def led_defs pins)

lemma keeps_factory_reset: "keeps I (block [Flash_Factory, rt_hw_cpu_reset])"
  by (simp add: keeps_def factory)

lemma keeps_automatic [keeps_rules]: "keeps I JumptoAutomatic"
  unfolding JumptoAutomatic_def by (intro keeps_rules)

lemma keeps_Win3_event: "keeps I (Win3_event e)"
  unfolding Win3_event_def by (intro keeps_rules; simp)

lemma keeps_Win3_recv [keeps_rules]: "keeps I Win3_recv"
  using keeps_Win3_event by (auto simp: keeps_def Win3_recv_def Let_def jmp split: prod.split option.split)

lemma keeps_Win23_show [keeps_rules]: "keeps I Win23_show"
proof
  fix s assume "I s"
  then have "I (snd (Tds_Work s))" by (rule tds)
  moreover have "\<And>x. keeps I (block [sprintf_to ''CurrentTdsString'' 10 x, GuiRowText 30 25 110 FONT_LEFT x])"
    by (intro keeps_rules)
  ultimately show "I (Win23_show s)" by (auto simp: Win23_show_def keeps_def split: prod.split)
qed

lemma keeps_win1: "keeps I disp \<Longrightarrow> keeps I (UserMain1WinFun disp)"
  unfolding UserMain1WinFun_def Win1_page0_def Win1_page1_def Win1_page2_def Win1_first_def Win1_keys_def
  by (intro keeps_rules; simp)

lemma keeps_win2: "keeps I disp \<Longrightarrow> keeps I (UserMain2WinFun disp)"
  unfolding UserMain2WinFun_def Win2_first_def Win2_keys_def
  by (intro keeps_rules; simp)

lemma keeps_win3: "keeps I disp \<Longrightarrow> keeps I (UserMain3WinFun disp)"
  unfolding UserMain3WinFun_def Win3_first_def Win3_keys_def
  by (intro keeps_rules; simp)

lemma keeps_win7: "keeps I disp \<Longrightarrow> keeps I (UserMain7WinFun disp)"
  unfolding UserMain7WinFun_def Win7_first_def Win7_keys_def
  by (intro keeps_rules; simp)

lemma keeps_win8: "keeps I disp \<Longrightarrow> keeps I (UserMain8WinFun disp)"
  unfolding UserMain8WinFun_def Win8_first_def Win8_keys_def
  by (intro keeps_rules; simp)

lemma keeps_win9: "keeps I disp \<Longrightarrow> keeps I (UserMain9WinFun disp)"
  unfolding UserMain9WinFun_def Win9_first_def Win9_keys_def
  by (intro keeps_rules; simp)

lemma keeps_win10: "keeps I disp \<Longrightarrow> keeps I (UserMain10WinFun disp)"
  unfolding UserMain10WinFun_def Win10_first_def Win10_keys_def
  by (intro keeps_rules; simp)

lemma keeps_win11: "keeps I disp \<Longrightarrow> keeps I (UserMain11WinFun disp)"
  unfolding UserMain11WinFun_def Win11_first_def Win11_keys_def
  by (intro keeps_rules; simp)

lemma keeps_win12: "keeps I disp \<Longrightarrow> keeps I (UserMain12WinFun disp)"
  unfolding UserMain12WinFun_def Win12_first_def Win12_keys_def
  by (intro keeps_rules; simp)

lemma keeps_win13: "keeps I disp \<Longrightarrow> keeps I (UserMain13WinFun disp)"
  unfolding UserMain13WinFun_def Win13_first_def Win13_keys_def
  by (intro keeps_rules; simp)

lemma keeps_win14: "keeps I disp \<Longrightarrow> keeps I (UserMain14WinFun disp)"
  unfolding UserMain14WinFun_def Win14_page0_def Win14_page1_def Win14_page2_def Win14_page3_def Win14_page4_def Win14_page5_def Win14_first_def Win14_K0_def Win14_K1_def Win14_K2_def Win14_keys_def
  by (intro keeps_rules; simp)

lemma keeps_win18: "keeps I disp \<Longrightarrow> keeps I (UserMain18WinFun disp)"
  unfolding UserMain18WinFun_def Win18_first_def Win18_keys_def
  by (intro keeps_rules; simp)

lemma keeps_win19: "keeps I disp \<Longrightarrow> keeps I (UserMain19WinFun disp)"
  unfolding UserMain19WinFun_def Win19_first_def Win19_keys_def
  by (intro keeps_factory_reset keeps_rules; simp)

lemma keeps_win22: "keeps I disp \<Longrightarrow> keeps I (UserMain22WinFun disp)"
  unfolding UserMain22WinFun_def Win22_first_def Win22_keys_def
  by (intro keeps_rules; simp)

lemma keeps_win23: "keeps I disp \<Longrightarrow> keeps I (UserMain23WinFun disp)"
  unfolding UserMain23WinFun_def Win23_first_def Win23_keys_def
  by (intro keeps_rules; simp)

lemma keeps_win25: "keeps I disp \<Longrightarrow> keeps I (UserMain25WinFun disp)"
  unfolding UserMain25WinFun_def Win25_first_def Win25_keys_def
  by (intro keeps_rules; simp)

lemma keeps_win26: "keeps I disp \<Longrightarrow> keeps I (UserMain26WinFun disp)"
  unfolding UserMain26WinFun_def Win26_first_def Win26_keys_def
  by (intro keeps_rules; simp)

lemma keeps_win27: "keeps I disp \<Longrightarrow> keeps I (UserMain27WinFun disp)"
  unfolding UserMain27WinFun_def Win27_first_def Win27_keys_def
  by (intro keeps_rules; simp)

end

text \<open>A property that any change of a stored parameter keeps.\<close>

locale effects_part = effects_base +
  assumes flash_set: "I s \<Longrightarrow> I (Flash_Set i v s)"
begin

lemma keeps_flash [keeps_rules]: "keeps I (\<lambda>s. Flash_Set i (V s) s)"
  by (simp add: keeps_def flash_set)

lemma keeps_factory [keeps_rules]: "keeps I Flash_Factory"
  unfolding Flash_Factory_def by (rule keeps_block_all) (auto simp: keeps_def flash_set)

end

sublocale effects_part \<subseteq> window_effects
  by unfold_locales
    (auto intro: flash_set reset keepsD [OF keeps_factory])

text \<open>A property that survives the editing of settings too survives every window.\<close>

locale window_part = window_effects +
  assumes edit_windows: "keeps I disp \<Longrightarrow> keeps I (UserMain4WinFun disp)"
    "keeps I disp \<Longrightarrow> keeps I (UserMain5WinFun disp)"
    "keeps I disp \<Longrightarrow> keeps I (UserMain6WinFun disp)"
    "keeps I disp \<Longrightarrow> keeps I (UserMain15WinFun disp)"
    "keeps I disp \<Longrightarrow> keeps I (UserMain16WinFun disp)"
    "keeps I disp \<Longrightarrow> keeps I (UserMain17WinFun disp)"
    "keeps I disp \<Longrightarrow> keeps I (UserMain20WinFun disp)"
    "keeps I disp \<Longrightarrow> keeps I (UserMain21WinFun disp)"
    "keeps I disp \<Longrightarrow> keeps I (UserMain24WinFun disp)"
begin

lemmas keeps_windows = edit_windows keeps_win1 keeps_win2 keeps_win3 keeps_win7 keeps_win8 keeps_win9 keeps_win10 keeps_win11 keeps_win12 keeps_win13 keeps_win14 keeps_win18 keeps_win19 keeps_win22 keeps_win23 keeps_win25 keeps_win26 keeps_win27

lemma keeps_WindowFunction: "keeps I disp \<Longrightarrow> keeps I (WindowFunction w disp)"
  unfolding WindowFunction_def
  by (auto simp: WindowFunctions_def keeps_windows split: option.split dest!: map_of_SomeD)
    (simp add: keeps_def fault)

lemma keeps_GuiWinDisplay [keeps_rules]: "keeps I (GuiWinDisplay n)"
proof (induction n)
  case 0
  then show ?case by (simp add: keeps_def fault)
next
  case (Suc n)
  then show ?case using keeps_WindowFunction [of "GuiWinDisplay n"] by (simp add: keeps_def)
qed

lemma keeps_userAppPortRun [keeps_rules]: "keeps I userAppPortRun"
  using keeps_GuiWinDisplay unfolding keeps_def userAppPortRun_def by blast

end

text \<open>A property that does not look at the settings.\<close>

locale window_free = effects_part +
  assumes edt: "I s \<Longrightarrow> I (edt_update e s)"
    and cfg: "I s \<Longrightarrow> I (cfg_update f s)"
begin

lemma keeps_edit [keeps_rules]: "keeps I (\<lambda>s. edt_update (E s) s)" "keeps I (\<lambda>s. cfg_update (G s) s)"
  by (auto simp: keeps_def edt cfg)

lemma keeps_win4: "keeps I disp \<Longrightarrow> keeps I (UserMain4WinFun disp)"
  unfolding UserMain4WinFun_def Win4_first_def Win4_keys_def
  by (intro keeps_rules; simp)

lemma keeps_win5: "keeps I disp \<Longrightarrow> keeps I (UserMain5WinFun disp)"
  unfolding UserMain5WinFun_def Win5_first_def Win5_keys_def
  by (intro keeps_rules; simp)

lemma keeps_win6: "keeps I disp \<Longrightarrow> keeps I (UserMain6WinFun disp)"
  unfolding UserMain6WinFun_def Win6_first_def Win6_keys_def
  by (intro keeps_rules; simp)

lemma keeps_win15: "keeps I disp \<Longrightarrow> keeps I (UserMain15WinFun disp)"
  unfolding UserMain15WinFun_def Win15_first_def Win15_keys_def
  by (intro keeps_rules; simp)

lemma keeps_win16: "keeps I disp \<Longrightarrow> keeps I (UserMain16WinFun disp)"
  unfolding UserMain16WinFun_def Win16_first_def Win16_keys_def
  by (intro keeps_rules; simp)

lemma keeps_win17: "keeps I disp \<Longrightarrow> keeps I (UserMain17WinFun disp)"
  unfolding UserMain17WinFun_def Win17_first_def Win17_keys_def
  by (intro keeps_rules; simp)

lemma keeps_win20: "keeps I disp \<Longrightarrow> keeps I (UserMain20WinFun disp)"
  unfolding UserMain20WinFun_def Win20_first_def Win20_keys_def
  by (intro keeps_rules; simp)

lemma keeps_win21: "keeps I disp \<Longrightarrow> keeps I (UserMain21WinFun disp)"
  unfolding UserMain21WinFun_def Win21_first_def Win21_keys_def
  by (intro keeps_rules; simp)

lemma keeps_win24: "keeps I disp \<Longrightarrow> keeps I (UserMain24WinFun disp)"
  unfolding UserMain24WinFun_def Win24_first_def Win24_keys_def
  by (intro keeps_rules; simp)

lemmas keeps_edit_windows = keeps_win4 keeps_win5 keeps_win6 keeps_win15 keeps_win16 keeps_win17 keeps_win20 keeps_win21 keeps_win24

end

sublocale window_free \<subseteq> window_part
  by unfold_locales (rule keeps_edit_windows; assumption)+

section \<open>The display task\<close>

locale task_part = window_part +
  assumes delta: "I s \<Longrightarrow> I (kys_update (Delta_press_work_Flag_update d) s)"
    and open_lcd: "I s \<Longrightarrow> I (OpenLcdDisplay s)"
    and refresh: "I s \<Longrightarrow> I (ScreenTimerRefresh s)"
begin

lemma keeps_task [keeps_rules]:
  "keeps I (kys_update (Delta_press_work_Flag_update d))" "keeps I OpenLcdDisplay" "keeps I ScreenTimerRefresh"
  by (auto simp: keeps_def delta open_lcd refresh)

lemma keeps_jumps [keeps_rules]:
  "keeps I JumptoReminder" "keeps I LcdtoReminder" "keeps I LcdtoBackwash" "keeps I JumptoMainWin"
  "keeps I Delta_press_work"
  unfolding JumptoReminder_def LcdtoReminder_def LcdtoBackwash_def JumptoMainWin_def Delta_press_work_def
  by (intro keeps_rules; simp)+

lemma keeps_lcd_pass: "keeps I lcd_pass"
  unfolding lcd_pass_def jump_reminder_def jump_automatic_def jump_battery_empty_def jump_battery_new_def
  by (intro keeps_rules; simp)

end

end
