(* ===== verification/Display.thy ===== *)
theory Display
  imports WinInv
begin

text \<open>
  The nested calls of \<open>GuiWinDisplay\<close> end. A window calls it again only after it has taken a
  key press, so the depth is bounded by the presses that wait; the bound of
  \<open>userAppPortRun\<close> is never met and the function satisfies the recursion of the C code.
\<close>

section \<open>Statements that agree\<close>

definition agree :: "(sys \<Rightarrow> bool) \<Rightarrow> stmt \<Rightarrow> stmt \<Rightarrow> bool" where
  "agree P f g \<longleftrightarrow> (\<forall>s. P s \<longrightarrow> f s = g s \<and> P (g s))"

text \<open>At most \<open>n\<close> presses wait; fewer; fewer if the last \<open>take_keys\<close> got one.\<close>

definition le_presses :: "nat \<Rightarrow> sys \<Rightarrow> bool" where
  "le_presses n s \<longleftrightarrow> presses (kys s) \<le> n"

definition lt_presses :: "nat \<Rightarrow> sys \<Rightarrow> bool" where
  "lt_presses n s \<longleftrightarrow> presses (kys s) < n"

definition taken :: "nat \<Rightarrow> sys \<Rightarrow> bool" where
  "taken n s \<longleftrightarrow> presses (kys s) \<le> n \<and>
     (K0_pressed s \<or> K1_pressed s \<or> K2_pressed s \<or> K2_long_pressed s \<longrightarrow> presses (kys s) < n)"

named_theorems agree_rules \<open>rules for statements that differ in the nested call only\<close>

lemma agree_refl [agree_rules]: "keeps P f \<Longrightarrow> agree P f f"
  by (simp add: agree_def keeps_def)

lemma agree_keys_Cons [agree_rules]:
  "agree (taken n) f g \<Longrightarrow> agree (taken n) (block fs) (block gs) \<Longrightarrow> agree (taken n) (block (f # fs)) (block (g # gs))"
  by (simp add: agree_def)

lemma agree_low_Cons [agree_rules]:
  "agree (lt_presses n) f g \<Longrightarrow> agree (lt_presses n) (block fs) (block gs) \<Longrightarrow>
   agree (lt_presses n) (block (f # fs)) (block (g # gs))"
  by (simp add: agree_def)

lemma agree_low_ifS [agree_rules]:
  "agree (lt_presses n) f f' \<Longrightarrow> agree (lt_presses n) g g' \<Longrightarrow> agree (lt_presses n) (ifS c f g) (ifS c f' g')"
  by (simp add: agree_def ifS_def)

lemma agree_low_switchS [agree_rules]:
  "agree (lt_presses n) d d' \<Longrightarrow> agree (lt_presses n) (switchS e [] d) (switchS e [] d')"
  "agree (lt_presses n) f f' \<Longrightarrow> agree (lt_presses n) (switchS e cs d) (switchS e cs' d') \<Longrightarrow>
   agree (lt_presses n) (switchS e ((v, f) # cs) d) (switchS e ((v, f') # cs') d')"
  by (simp_all add: agree_def switchS_def)

lemma lt_taken: "lt_presses n s \<Longrightarrow> taken n s"
  by (simp add: lt_presses_def taken_def)

lemma agree_whenS_taken:
  assumes "agree (lt_presses n) f g" "\<And>s. taken n s \<Longrightarrow> c s \<Longrightarrow> lt_presses n s"
  shows "agree (taken n) (whenS c f) (whenS c g)"
  unfolding agree_def
proof (intro allI impI)
  fix s assume s: "taken n s"
  show "whenS c f s = whenS c g s \<and> taken n (whenS c g s)"
  proof (cases "c s")
    case True
    then have "f s = g s" "lt_presses n (g s)" using assms s unfolding agree_def by blast+
    with True show ?thesis by (simp add: whenS_def lt_taken)
  qed (simp add: whenS_def s)
qed

lemma agree_whenS_key [agree_rules]:
  assumes "agree (lt_presses n) f g"
  shows "agree (taken n) (whenS (\<lambda>s. K0_pressed s) f) (whenS (\<lambda>s. K0_pressed s) g)"
    "agree (taken n) (whenS (\<lambda>s. K1_pressed s) f) (whenS (\<lambda>s. K1_pressed s) g)"
    "agree (taken n) (whenS (\<lambda>s. K2_pressed s) f) (whenS (\<lambda>s. K2_pressed s) g)"
    "agree (taken n) (whenS (\<lambda>s. K2_long_pressed s) f) (whenS (\<lambda>s. K2_long_pressed s) g)"
  by (rule agree_whenS_taken [OF assms], simp add: taken_def lt_presses_def)+

lemma agree_ifS_first:
  "keeps P f \<Longrightarrow> agree P g g' \<Longrightarrow> agree P (ifS c f g) (ifS c f g')"
  by (simp add: agree_def keeps_def ifS_def)

lemma agree_pre: "keeps P f \<Longrightarrow> agree P (block fs) (block gs) \<Longrightarrow> agree P (block (f # fs)) (block (f # gs))"
  by (simp add: agree_def keeps_def)

section \<open>Taking the keys\<close>

lemma take_keys_presses:
  "presses (kys (take_keys s)) \<le> presses (kys s)"
  "K0_pressed (take_keys s) \<or> K1_pressed (take_keys s) \<or> K2_pressed (take_keys s) \<or> K2_long_pressed (take_keys s) \<Longrightarrow>
   presses (kys (take_keys s)) < presses (kys s)"
  by (auto simp: take_keys_def take_key_def rt_sem_trytake_eq presses_def unat_minus_one unat_gt_0 [symmetric]
      split: prod.split if_splits)

lemma agree_take_keys:
  assumes "agree (taken n) (block fs) (block gs)"
  shows "agree (le_presses n) (block (take_keys # fs)) (block (take_keys # gs))"
  unfolding agree_def
proof (intro allI impI)
  fix s assume "le_presses n s"
  then have "taken n (take_keys s)" using take_keys_presses [of s] by (auto simp: taken_def le_presses_def)
  then show "block (take_keys # fs) s = block (take_keys # gs) s \<and> le_presses n (block (take_keys # gs) s)"
    using assms by (simp add: agree_def taken_def le_presses_def)
qed

section \<open>What does not change the waiting presses\<close>

lemma kys_frame [frame]:
  "kys (timer_start sel s) = kys s" "kys (timer_stop sel s) = kys s" "kys (timer_set_time sel v s) = kys s"
  "kys (timer_create upd f t s) = kys s" "kys (Flash_Set i v s) = kys s" "ui (Flash_Set i v s) = ui s"
  "ui (timer_start sel s) = ui s" "ui (timer_stop sel s) = ui s" "ui (timer_set_time sel v s) = ui s"
  "ui (timer_create upd f t s) = ui s"
  by (auto simp: timer_start_def timer_stop_def timer_set_time_def timer_create_def add_fault_def Flash_Set_def
      split: option.split prod.split)

lemma kys_cycle [frame]: "kys (Moto_Cycle s) = kys s" "ui (Moto_Cycle s) = ui s"
  "kys (SemJump s) = kys s" "ui (SemJump s) = ui s"
  by (simp_all add: Moto_Cycle_def RTC_Clear_def ScreenTimerStop_def moto_send_def led_defs pin_defs jumpe_def
      lcd_jump_send_def JumpToBatteryEmpty_def SemJump_def stmt_defs frame)

lemmas presses_defs = le_presses_def lt_presses_def taken_def add_fault_def Tds_Work_def pin_defs rt_hw_cpu_reset_def

interpretation le: window_free "le_presses n"
  using le_trans [OF take_keys_presses(1)] by unfold_locales (auto simp: presses_defs frame)

interpretation lt: window_free "lt_presses n"
  using le_less_trans [OF take_keys_presses(1)] by unfold_locales (auto simp: presses_defs frame)

lemma taken_take_keys: "taken n s \<Longrightarrow> taken n (take_keys s)"
  using take_keys_presses [of s] by (auto simp: taken_def)

interpretation tk: window_free "taken n"
  by unfold_locales (simp_all add: taken_take_keys, auto simp: presses_defs frame)

section \<open>Every window\<close>

lemma agree_win1: "agree (lt_presses n) D D' \<Longrightarrow> agree (le_presses n) (UserMain1WinFun D) (UserMain1WinFun D')"
  unfolding UserMain1WinFun_def Win1_first_def Win1_page0_def Win1_page1_def Win1_page2_def Win1_keys_def
  by (rule agree_ifS_first, intro keeps_rules, rule agree_pre, intro keeps_rules, rule agree_pre, intro keeps_rules,
      rule agree_take_keys) (intro agree_rules keeps_rules; simp)

lemma agree_win4: "agree (lt_presses n) D D' \<Longrightarrow> agree (le_presses n) (UserMain4WinFun D) (UserMain4WinFun D')"
  unfolding UserMain4WinFun_def Win4_first_def Win4_keys_def
  by (rule agree_ifS_first, intro keeps_rules, rule agree_take_keys) (intro agree_rules keeps_rules; simp)

lemma agree_win5: "agree (lt_presses n) D D' \<Longrightarrow> agree (le_presses n) (UserMain5WinFun D) (UserMain5WinFun D')"
  unfolding UserMain5WinFun_def Win5_first_def Win5_keys_def
  by (rule agree_ifS_first, intro keeps_rules, rule agree_take_keys) (intro agree_rules keeps_rules; simp)

lemma agree_win6: "agree (lt_presses n) D D' \<Longrightarrow> agree (le_presses n) (UserMain6WinFun D) (UserMain6WinFun D')"
  unfolding UserMain6WinFun_def Win6_first_def Win6_keys_def
  by (rule agree_ifS_first, intro keeps_rules, rule agree_take_keys) (intro agree_rules keeps_rules; simp)

lemma agree_win7: "agree (lt_presses n) D D' \<Longrightarrow> agree (le_presses n) (UserMain7WinFun D) (UserMain7WinFun D')"
  unfolding UserMain7WinFun_def Win7_first_def Win7_keys_def
  by (rule agree_ifS_first, intro keeps_rules, rule agree_take_keys) (intro agree_rules keeps_rules; simp)

lemma agree_win13: "agree (lt_presses n) D D' \<Longrightarrow> agree (le_presses n) (UserMain13WinFun D) (UserMain13WinFun D')"
  unfolding UserMain13WinFun_def Win13_first_def Win13_keys_def
  by (rule agree_ifS_first, intro keeps_rules, rule agree_take_keys) (intro agree_rules keeps_rules; simp)

lemma agree_win15: "agree (lt_presses n) D D' \<Longrightarrow> agree (le_presses n) (UserMain15WinFun D) (UserMain15WinFun D')"
  unfolding UserMain15WinFun_def Win15_first_def Win15_keys_def
  by (rule agree_ifS_first, intro keeps_rules, rule agree_take_keys) (intro agree_rules keeps_rules; simp)

lemma agree_win16: "agree (lt_presses n) D D' \<Longrightarrow> agree (le_presses n) (UserMain16WinFun D) (UserMain16WinFun D')"
  unfolding UserMain16WinFun_def Win16_first_def Win16_keys_def
  by (rule agree_ifS_first, intro keeps_rules, rule agree_take_keys) (intro agree_rules keeps_rules; simp)

lemma agree_win17: "agree (lt_presses n) D D' \<Longrightarrow> agree (le_presses n) (UserMain17WinFun D) (UserMain17WinFun D')"
  unfolding UserMain17WinFun_def Win17_first_def Win17_keys_def
  by (rule agree_ifS_first, intro keeps_rules, rule agree_take_keys) (intro agree_rules keeps_rules; simp)

lemma agree_win18: "agree (lt_presses n) D D' \<Longrightarrow> agree (le_presses n) (UserMain18WinFun D) (UserMain18WinFun D')"
  unfolding UserMain18WinFun_def Win18_first_def Win18_keys_def
  by (rule agree_ifS_first, intro keeps_rules, rule agree_take_keys) (intro agree_rules keeps_rules; simp)

lemma agree_win19: "agree (lt_presses n) D D' \<Longrightarrow> agree (le_presses n) (UserMain19WinFun D) (UserMain19WinFun D')"
  unfolding UserMain19WinFun_def Win19_first_def Win19_keys_def
  by (rule agree_ifS_first, intro keeps_rules, rule agree_take_keys) (intro agree_rules keeps_rules; simp)

lemma agree_win24: "agree (lt_presses n) D D' \<Longrightarrow> agree (le_presses n) (UserMain24WinFun D) (UserMain24WinFun D')"
  unfolding UserMain24WinFun_def Win24_first_def Win24_keys_def
  by (rule agree_ifS_first, intro keeps_rules, rule agree_take_keys) (intro agree_rules keeps_rules; simp)

lemma agree_win25: "agree (lt_presses n) D D' \<Longrightarrow> agree (le_presses n) (UserMain25WinFun D) (UserMain25WinFun D')"
  unfolding UserMain25WinFun_def Win25_first_def Win25_keys_def
  by (rule agree_ifS_first, intro keeps_rules, rule agree_take_keys) (intro agree_rules keeps_rules; simp)

text \<open>The other windows make no nested call.\<close>

lemma agree_const:
  assumes "\<And>D D'. W D = W D'" "\<And>D. keeps P D \<Longrightarrow> keeps P (W D)"
  shows "agree P (W D) (W D')"
  using assms(1) [of D D'] assms(1) [of D' "\<lambda>s. s"] assms(2) [OF keeps_id] by (auto simp: agree_def keeps_def)

lemma agree_win2: "agree (le_presses n) (UserMain2WinFun D) (UserMain2WinFun D')"
  by (rule agree_const [where W = UserMain2WinFun], simp add: UserMain2WinFun_def, rule le.keeps_win2)

lemma agree_win3: "agree (le_presses n) (UserMain3WinFun D) (UserMain3WinFun D')"
  by (rule agree_const [where W = UserMain3WinFun], simp add: UserMain3WinFun_def, rule le.keeps_win3)

lemma agree_win8: "agree (le_presses n) (UserMain8WinFun D) (UserMain8WinFun D')"
  by (rule agree_const [where W = UserMain8WinFun], simp add: UserMain8WinFun_def, rule le.keeps_win8)

lemma agree_win9: "agree (le_presses n) (UserMain9WinFun D) (UserMain9WinFun D')"
  by (rule agree_const [where W = UserMain9WinFun], simp add: UserMain9WinFun_def, rule le.keeps_win9)

lemma agree_win10: "agree (le_presses n) (UserMain10WinFun D) (UserMain10WinFun D')"
  by (rule agree_const [where W = UserMain10WinFun], simp add: UserMain10WinFun_def, rule le.keeps_win10)

lemma agree_win11: "agree (le_presses n) (UserMain11WinFun D) (UserMain11WinFun D')"
  by (rule agree_const [where W = UserMain11WinFun], simp add: UserMain11WinFun_def, rule le.keeps_win11)

lemma agree_win12: "agree (le_presses n) (UserMain12WinFun D) (UserMain12WinFun D')"
  by (rule agree_const [where W = UserMain12WinFun], simp add: UserMain12WinFun_def, rule le.keeps_win12)

lemma agree_win14: "agree (le_presses n) (UserMain14WinFun D) (UserMain14WinFun D')"
  by (rule agree_const [where W = UserMain14WinFun], simp add: UserMain14WinFun_def, rule le.keeps_win14)

lemma agree_win20: "agree (le_presses n) (UserMain20WinFun D) (UserMain20WinFun D')"
  by (rule agree_const [where W = UserMain20WinFun], simp add: UserMain20WinFun_def, rule le.keeps_win20)

lemma agree_win21: "agree (le_presses n) (UserMain21WinFun D) (UserMain21WinFun D')"
  by (rule agree_const [where W = UserMain21WinFun], simp add: UserMain21WinFun_def, rule le.keeps_win21)

lemma agree_win22: "agree (le_presses n) (UserMain22WinFun D) (UserMain22WinFun D')"
  by (rule agree_const [where W = UserMain22WinFun], simp add: UserMain22WinFun_def, rule le.keeps_win22)

lemma agree_win23: "agree (le_presses n) (UserMain23WinFun D) (UserMain23WinFun D')"
  by (rule agree_const [where W = UserMain23WinFun], simp add: UserMain23WinFun_def, rule le.keeps_win23)

lemma agree_win26: "agree (le_presses n) (UserMain26WinFun D) (UserMain26WinFun D')"
  by (rule agree_const [where W = UserMain26WinFun], simp add: UserMain26WinFun_def, rule le.keeps_win26)

lemma agree_win27: "agree (le_presses n) (UserMain27WinFun D) (UserMain27WinFun D')"
  by (rule agree_const [where W = UserMain27WinFun], simp add: UserMain27WinFun_def, rule le.keeps_win27)

lemmas agree_others = agree_win2 agree_win3 agree_win8 agree_win9 agree_win10 agree_win11 agree_win12 agree_win14 agree_win20 agree_win21 agree_win22 agree_win23 agree_win26 agree_win27

lemmas agree_nested = agree_win1 agree_win4 agree_win5 agree_win6 agree_win7 agree_win13 agree_win15 agree_win16 agree_win17 agree_win18 agree_win19 agree_win24 agree_win25

lemma agree_WindowFunction:
  assumes "agree (lt_presses n) D D'"
  shows "agree (le_presses n) (WindowFunction w D) (WindowFunction w D')"
proof (cases "map_of WindowFunctions w")
  case None
  then show ?thesis by (simp add: WindowFunction_def agree_def le.fault)
next
  case (Some W)
  then have "(w, W) \<in> set WindowFunctions" by (rule map_of_SomeD)
  then have "agree (le_presses n) (W D) (W D')"
    unfolding WindowFunctions_def by (auto simp: agree_nested [OF assms] agree_others)
  with Some show ?thesis by (simp add: WindowFunction_def)
qed

section \<open>The recursion of the C code\<close>

text \<open>
  \<open>GuiWinDisplay\<close> with an arbitrary statement \<open>btm\<close> in place of the fault at the bottom of the bounded
  recursion. When the result does not depend on \<open>btm\<close>, the bottom is never reached.
\<close>

primrec GuiWinDisplay_or :: "stmt \<Rightarrow> nat \<Rightarrow> stmt" where
  "GuiWinDisplay_or btm 0 = btm"
| "GuiWinDisplay_or btm (Suc n) = (\<lambda>s.
     if pWin (ui s) = 0 \<or> pWin (ui s) > GUIWINMANAGE_NUM then s
     else WindowFunction (winStack (ui s) (unat (pWin (ui s)) - 1)) (GuiWinDisplay_or btm n) s)"

lemma GuiWinDisplay_or_fault: "GuiWinDisplay n = GuiWinDisplay_or (add_fault OutOfFuel) n"
  by (induction n) (simp_all only: GuiWinDisplay.simps GuiWinDisplay_or.simps)

lemma GuiWinDisplay_agree:
  "k \<le> i \<Longrightarrow> k \<le> j \<Longrightarrow> agree (lt_presses k) (GuiWinDisplay_or b i) (GuiWinDisplay_or b' j)"
proof (induction k arbitrary: i j)
  case 0
  show ?case by (simp add: agree_def lt_presses_def)
next
  case (Suc k)
  then obtain i' j' where ij: "i = Suc i'" "j = Suc j'" "k \<le> i'" "k \<le> j'"
    by (metis Suc_le_D Suc_le_mono)
  have "lt_presses (Suc k) = le_presses k" by (auto simp: lt_presses_def le_presses_def)
  moreover have "agree (le_presses k) (WindowFunction w (GuiWinDisplay_or b i')) (WindowFunction w (GuiWinDisplay_or b' j'))" for w
    using ij Suc.IH by (intro agree_WindowFunction) simp
  ultimately show ?case by (simp add: ij agree_def)
qed

lemma userAppPortRun_agree: "agree (lt_presses k) (GuiWinDisplay_or b k) userAppPortRun"
  unfolding agree_def
proof (intro allI impI)
  fix s assume s: "lt_presses k s"
  define p where "p = Suc (presses (kys s))"
  have p: "p \<le> k" "lt_presses p s" using s by (auto simp: p_def lt_presses_def)
  then have "GuiWinDisplay_or b k s = userAppPortRun s"
    using GuiWinDisplay_agree [of p k p b "add_fault OutOfFuel"]
    by (simp add: agree_def userAppPortRun_def p_def GuiWinDisplay_or_fault)
  moreover have "lt_presses k (userAppPortRun s)"
    using s keepsD [OF lt.keeps_GuiWinDisplay s, of "Suc (presses (kys s))"] by (simp add: userAppPortRun_def)
  ultimately show "GuiWinDisplay_or b k s = userAppPortRun s \<and> lt_presses k (userAppPortRun s)" by simp
qed

text \<open>
  C6. The nested calls of the window functions end. In C, a window function calls \<open>GuiWinDisplay\<close> again,
  without any bound. The bounded recursion of the model, started with more levels than key presses are
  waiting, gives the same result \<open>userAppPortRun\<close> for every such bound and for every statement \<open>btm\<close> at
  its bottom: the bottom is never reached. And this result satisfies the equation of the C function.
\<close>

theorem GuiWinDisplay_recursion:
  "GuiWinDisplay_or btm (Suc (presses (kys s)) + n) s = userAppPortRun s \<and>
   userAppPortRun s =
     (if pWin (ui s) = 0 \<or> pWin (ui s) > GUIWINMANAGE_NUM then s
      else WindowFunction (winStack (ui s) (unat (pWin (ui s)) - 1)) userAppPortRun s)"
proof
  have "lt_presses (Suc (presses (kys s)) + n) s" by (simp add: lt_presses_def)
  then show "GuiWinDisplay_or btm (Suc (presses (kys s)) + n) s = userAppPortRun s"
    using userAppPortRun_agree unfolding agree_def by blast
  define p where "p = presses (kys s)"
  have "le_presses p s" by (simp add: le_presses_def p_def)
  then have "WindowFunction w (GuiWinDisplay p) s = WindowFunction w userAppPortRun s" for w
    using agree_WindowFunction [OF userAppPortRun_agree [of p], of w] unfolding agree_def GuiWinDisplay_or_fault by blast
  then show "userAppPortRun s =
     (if pWin (ui s) = 0 \<or> pWin (ui s) > GUIWINMANAGE_NUM then s
      else WindowFunction (winStack (ui s) (unat (pWin (ui s)) - 1)) userAppPortRun s)"
    unfolding userAppPortRun_def [of s] p_def [symmetric] by simp
qed

end
