(* ===== verification/Button.thy ===== *)
theory Button
  imports Prelude
begin

text \<open>
  The key driver \<open>packages/button-v1.0.1/button.c\<close> as it is configured in \<open>rtconfig.h\<close> and
  \<open>button.h\<close> (no continuous triggering, no long press on release). The state of one key is
  polled every ten milliseconds by \<open>button_task_entry\<close>; a poll takes the level of the pin and
  yields the events whose callbacks are called. \<open>LongFlag\<close> is one variable for all keys.
\<close>

section \<open>Configuration and state\<close>

abbreviation BUTTON_DEBOUNCE_TIME :: u8 where "BUTTON_DEBOUNCE_TIME \<equiv> 1"
abbreviation BUTTON_LONG_CYCLE :: u8 where "BUTTON_LONG_CYCLE \<equiv> 25"
abbreviation BUTTON_DOUBLE_TIME :: u8 where "BUTTON_DOUBLE_TIME \<equiv> 15"
abbreviation BUTTON_LONG_TIME :: u8 where "BUTTON_LONG_TIME \<equiv> 100"

datatype Button_Event = BUTTON_DOWM | BUTTON_UP | BUTTON_DOUBLE | BUTTON_LONG | BUTTON_LONG_FREE
  | BUTTON_CONTINUOS | BUTTON_CONTINUOS_FREE | BUTTON_ALL_RIGGER | number_of_event | NONE_TRIGGER

record Button_t =
  Button_State :: Button_Event
  Button_Last_State :: Button_Event
  Button_Trigger_Level :: "2 word"
  Button_Last_Level :: "2 word"
  Button_Trigger_Event :: Button_Event
  Button_Cycle :: u8
  Timer_Count :: u8
  Debounce_Time :: u8
  Long_Time :: u8

type_synonym key_poll = "Button_Event list \<times> u8 \<times> Button_t"

text \<open>\<open>level\<close> is what the pin reads when the button is created.\<close>

definition Button_Create :: "u8 \<Rightarrow> u8 \<Rightarrow> Button_t" where
  "Button_Create level btn_trigger_level =
     \<lparr>Button_State = NONE_TRIGGER, Button_Last_State = NONE_TRIGGER,
      Button_Trigger_Level = ucast btn_trigger_level, Button_Last_Level = ucast level,
      Button_Trigger_Event = NONE_TRIGGER, Button_Cycle = 0, Timer_Count = 0,
      Debounce_Time = 0, Long_Time = 0\<rparr>"

section \<open>One poll\<close>

definition debounce :: "u8 \<Rightarrow> Button_t \<Rightarrow> Button_t" where
  "debounce current_level btn =
     (if current_level = ucast (Button_Last_Level btn) then btn
      else let b1 = btn\<lparr>Debounce_Time := Debounce_Time btn + 1\<rparr> in
        if Debounce_Time b1 \<ge> BUTTON_DEBOUNCE_TIME then
          b1\<lparr>Button_Last_Level := ucast current_level, Debounce_Time := 0,
             Button_State := (if Button_State b1 = NONE_TRIGGER \<or> Button_State b1 = BUTTON_DOUBLE then BUTTON_DOWM
                              else if Button_State b1 = BUTTON_DOWM then BUTTON_UP
                              else Button_State b1)\<rparr>
        else b1)"

definition on_down :: "u8 \<Rightarrow> Button_t \<Rightarrow> key_poll" where
  "on_down lf btn =
     (if Button_Last_Level btn = Button_Trigger_Level btn then
        let b1 = btn\<lparr>Button_Trigger_Event := BUTTON_DOWM, Long_Time := Long_Time btn + 1\<rparr> in
        if Long_Time b1 \<ge> BUTTON_LONG_TIME then
          let b2 = b1\<lparr>Button_Cycle := Button_Cycle b1 + 1\<rparr>;
              (evs, lf', b3) = (if Button_Cycle b2 \<ge> BUTTON_LONG_CYCLE
                 then ([BUTTON_LONG], 1, b2\<lparr>Button_Cycle := 0, Button_Trigger_Event := BUTTON_LONG\<rparr>)
                 else ([], lf, b2))
          in (evs, lf', if Long_Time b3 = 0xFF then b3\<lparr>Long_Time := BUTTON_LONG_TIME\<rparr> else b3)
        else ([], lf, b1)
      else ([], lf, btn))"

definition on_up :: "u8 \<Rightarrow> Button_t \<Rightarrow> key_poll" where
  "on_up lf btn =
     (if lf \<noteq> 0 then ([BUTTON_LONG_FREE], 0,
        btn\<lparr>Long_Time := 0, Button_State := NONE_TRIGGER, Button_Last_State := BUTTON_LONG\<rparr>)
      else if Button_Trigger_Event btn = BUTTON_DOWM then
        if Timer_Count btn \<le> BUTTON_DOUBLE_TIME \<and> Button_Last_State btn = BUTTON_DOUBLE
        then ([BUTTON_DOUBLE], lf, btn\<lparr>Button_Trigger_Event := BUTTON_DOUBLE,
                Button_State := NONE_TRIGGER, Button_Last_State := NONE_TRIGGER\<rparr>)
        else ([BUTTON_DOWM], lf, btn\<lparr>Timer_Count := 0, Long_Time := 0,
                Button_State := BUTTON_DOUBLE, Button_Last_State := BUTTON_DOUBLE\<rparr>)
      else ([], lf, btn))"

definition on_double :: "u8 \<Rightarrow> Button_t \<Rightarrow> key_poll" where
  "on_double lf btn =
     (let b1 = btn\<lparr>Timer_Count := Timer_Count btn + 1\<rparr> in
      ([], lf, if Timer_Count b1 \<ge> BUTTON_DOUBLE_TIME
               then b1\<lparr>Button_State := NONE_TRIGGER, Button_Last_State := NONE_TRIGGER\<rparr> else b1))"

definition Button_Cycle_Process :: "u8 \<Rightarrow> u8 \<Rightarrow> Button_t \<Rightarrow> key_poll" where
  "Button_Cycle_Process current_level lf btn =
     (let b = debounce current_level btn in
      case Button_State b of
        BUTTON_DOWM \<Rightarrow> on_down lf b
      | BUTTON_UP \<Rightarrow> on_up lf b
      | BUTTON_DOUBLE \<Rightarrow> on_double lf b
      | _ \<Rightarrow> ([], lf, b))"

text \<open>A key polled alone over a sequence of pin levels, oldest first.\<close>

fun key_run :: "u8 list \<Rightarrow> u8 \<Rightarrow> Button_t \<Rightarrow> key_poll" where
  "key_run [] lf b = ([], lf, b)"
| "key_run (l # ls) lf b =
     (case Button_Cycle_Process l lf b of (es, lf', b') \<Rightarrow>
        case key_run ls lf' b' of (es', lf'', b'') \<Rightarrow> (es @ es', lf'', b''))"

text \<open>
  \<open>Button_Process\<close> walks the linked list, newest button first, so the list here is
  Key2, Key1, Key0; the result pairs each event with the index of its key in the list.
\<close>

fun Button_Process :: "(u8 \<times> Button_t) list \<Rightarrow> u8 \<Rightarrow> Button_Event list list \<times> u8 \<times> Button_t list" where
  "Button_Process [] lf = ([], lf, [])"
| "Button_Process ((level, b) # bs) lf =
     (case Button_Cycle_Process level lf b of (es, lf', b') \<Rightarrow>
        case Button_Process bs lf' of (ess, lf'', bs') \<Rightarrow> (es # ess, lf'', b' # bs'))"

lemmas poll_defs = Button_Cycle_Process_def debounce_def on_down_def on_up_def on_double_def Let_def

section \<open>Runs of polls\<close>

lemma key_run_append:
  "key_run (xs @ ys) lf b =
     (case key_run xs lf b of (es, lf', b') \<Rightarrow>
        case key_run ys lf' b' of (es', lf'', b'') \<Rightarrow> (es @ es', lf'', b''))"
  by (induction xs arbitrary: lf b) (auto split: prod.splits)

text \<open>
  A key at rest: released (level 1, trigger level 0) and not within the double click interval.
  \<open>Button_Cycle\<close> may still hold a rest \<open>c\<close> from an earlier press.
\<close>

definition idle :: "nat \<Rightarrow> Button_t \<Rightarrow> bool" where
  "idle c b \<longleftrightarrow> Button_State b = NONE_TRIGGER \<and> Button_Last_State b \<noteq> BUTTON_DOUBLE \<and>
     Button_Trigger_Level b = 0 \<and> Button_Last_Level b = 1 \<and> Debounce_Time b = 0 \<and>
     Long_Time b = 0 \<and> unat (Button_Cycle b) = c \<and> c < 25"

text \<open>The number of long press events in \<open>n\<close> polls of a held key, with rest \<open>c\<close>.\<close>

definition long_events :: "nat \<Rightarrow> nat \<Rightarrow> nat" where
  "long_events c n = (if n < 100 then 0 else (n - 99 + c) div 25)"

definition held :: "nat \<Rightarrow> nat \<Rightarrow> u8 \<Rightarrow> key_poll \<Rightarrow> bool" where
  "held c n lf = (\<lambda>(es, lf', b). es = replicate (long_events c n) BUTTON_LONG \<and>
     lf' = (if long_events c n = 0 then lf else 1) \<and>
     Button_State b = BUTTON_DOWM \<and> Button_Trigger_Level b = 0 \<and> Button_Last_Level b = 0 \<and>
     Debounce_Time b = 0 \<and> Button_Last_State b \<noteq> BUTTON_DOUBLE \<and>
     (if n < 100 then unat (Long_Time b) = n else 100 \<le> unat (Long_Time b) \<and> unat (Long_Time b) < 255) \<and>
     unat (Button_Cycle b) = (if n < 100 then c else (n - 99 + c) mod 25) \<and>
     (long_events c n = 0 \<longrightarrow> Button_Trigger_Event b = BUTTON_DOWM))"

lemma replicate_snoc: "replicate (Suc n) x = replicate n x @ [x]"
  by (simp add: replicate_append_same)

lemma unat_inc: "unat (x :: 8 word) < 255 \<Longrightarrow> unat (x + 1) = unat x + 1"
  by (simp add: unat_word_ariths)

lemma long_events_0 [simp]: "long_events c (Suc 0) = 0"
  by (simp add: long_events_def)

lemma held_first:
  assumes "idle c b"
  shows "held c 1 lf (key_run [0] lf b)"
  using assms by (simp add: held_def idle_def poll_defs word_le_nat_alt unat_inc)

lemma poll_down:
  assumes "Button_State b = BUTTON_DOWM" "Button_Last_Level b = 0" "Button_Trigger_Level b = 0"
  shows "Button_Cycle_Process 0 lf b = on_down lf b"
  using assms by (simp add: Button_Cycle_Process_def debounce_def)

lemma on_down_short:
  assumes "Button_Last_Level b = 0" "Button_Trigger_Level b = 0" "unat (Long_Time b) < 99"
  shows "on_down lf b = ([], lf, b\<lparr>Button_Trigger_Event := BUTTON_DOWM, Long_Time := Long_Time b + 1\<rparr>)"
  using assms by (simp add: on_down_def Let_def word_le_nat_alt unat_inc)

lemma on_down_long:
  assumes "Button_Last_Level b = 0" "Button_Trigger_Level b = 0"
    and "99 \<le> unat (Long_Time b)" "unat (Long_Time b) < 255" "unat (Button_Cycle b) < 25"
  shows "\<exists>b'. on_down lf b = (if unat (Button_Cycle b) = 24 then [BUTTON_LONG] else [],
            if unat (Button_Cycle b) = 24 then 1 else lf, b') \<and>
     Button_State b' = Button_State b \<and> Button_Trigger_Level b' = 0 \<and> Button_Last_Level b' = 0 \<and>
     Debounce_Time b' = Debounce_Time b \<and> Button_Last_State b' = Button_Last_State b \<and>
     100 \<le> unat (Long_Time b') \<and> unat (Long_Time b') < 255 \<and>
     unat (Button_Cycle b') = (if unat (Button_Cycle b) = 24 then 0 else unat (Button_Cycle b) + 1) \<and>
     (unat (Button_Cycle b) \<noteq> 24 \<longrightarrow> Button_Trigger_Event b' = BUTTON_DOWM)"
proof -
  have l: "unat (Long_Time b + 1) = unat (Long_Time b) + 1" and c: "unat (Button_Cycle b + 1) = unat (Button_Cycle b) + 1"
    using assms by (auto simp: unat_inc)
  have "Long_Time b + 1 = 0xFF \<longleftrightarrow> unat (Long_Time b + 1) = unat (0xFF :: 8 word)"
    by (rule word_unat_eq_iff)
  then have "Long_Time b + 1 = 0xFF \<longleftrightarrow> unat (Long_Time b) = 254"
    using l by simp
  then show ?thesis
    using assms l c by (auto simp: on_down_def Let_def word_le_nat_alt)
qed

lemma held_step:
  assumes "held c n lf (es, lf', b)" "1 \<le> n" "c < 25"
  shows "held c (Suc n) lf (case Button_Cycle_Process 0 lf' b of (es', lf'', b') \<Rightarrow> (es @ es', lf'', b'))"
proof (cases "n < 99")
  case True
  then show ?thesis
    using assms by (auto simp: held_def poll_down on_down_short long_events_def unat_inc)
next
  case False
  define m where "m = n - 99 + c"
  have cyc: "unat (Button_Cycle b) = m mod 25"
    using False assms by (auto simp: held_def m_def split: if_splits)
  have le: "long_events c n = m div 25" "long_events c (Suc n) = Suc m div 25"
    using False assms(3) by (auto simp: long_events_def m_def Suc_diff_le)
  have lt: "99 \<le> unat (Long_Time b)" "unat (Long_Time b) < 255"
    using False assms by (auto simp: held_def split: if_splits)
  obtain b' where b': "on_down lf' b = (if unat (Button_Cycle b) = 24 then [BUTTON_LONG] else [],
        if unat (Button_Cycle b) = 24 then 1 else lf', b')"
    "Button_State b' = Button_State b" "Button_Trigger_Level b' = 0" "Button_Last_Level b' = 0"
    "Debounce_Time b' = Debounce_Time b" "Button_Last_State b' = Button_Last_State b"
    "100 \<le> unat (Long_Time b')" "unat (Long_Time b') < 255"
    "unat (Button_Cycle b') = (if unat (Button_Cycle b) = 24 then 0 else unat (Button_Cycle b) + 1)"
    "unat (Button_Cycle b) \<noteq> 24 \<longrightarrow> Button_Trigger_Event b' = BUTTON_DOWM"
    using on_down_long [of b lf'] assms lt cyc by (auto simp: held_def)
  have nl: "\<not> Suc n < 100" "Suc n - 99 + c = Suc m"
    using False by (auto simp: m_def)
  show ?thesis
    using assms b' cyc le nl
    by (auto simp: held_def poll_down div_Suc mod_Suc replicate_append_same [symmetric])
qed

lemma held_run:
  assumes "idle c b" "1 \<le> n"
  shows "held c n lf (key_run (replicate n 0) lf b)"
  using assms(2)
proof (induction n rule: nat_induct_at_least)
  case base
  show ?case using held_first [OF assms(1)] by simp
next
  case (Suc n)
  obtain es lf' b' where r: "key_run (replicate n 0) lf b = (es, lf', b')"
    by (metis prod_cases3)
  have "key_run (replicate (Suc n) 0) lf b =
      (case Button_Cycle_Process 0 lf' b' of (es', lf'', b'') \<Rightarrow> (es @ es', lf'', b''))"
    using r by (subst replicate_snoc) (simp add: key_run_append split: prod.split)
  then show ?case
    using held_step [of c n lf es lf' b'] Suc r assms(1) by (simp add: idle_def)
qed

section \<open>What a press does\<close>

lemma long_events_range: "c < 25 \<Longrightarrow> n \<le> 99 \<Longrightarrow> long_events c n = 0" "124 \<le> n \<Longrightarrow> long_events c n \<noteq> 0"
  by (auto simp: long_events_def)

text \<open>
  C32. A key at rest that is pressed for \<open>n\<close> polls and then released, while \<open>LongFlag\<close> is 0. Let \<open>c < 25\<close>
  be what an earlier long press left in its cycle counter. No long press is reported in the first 99
  polls; from the 100th poll on the cycle counter runs from \<open>c\<close> and reports one long press for every
  25 polls. A press with at least one such event ends with one long release and no click, and a press
  without one ends with exactly one click. So up to 99 polls are always a click, from 124 polls on
  there is never one, and in between it depends on \<open>c\<close>.
\<close>

theorem key_press_release:
  assumes "idle c b" "1 \<le> n"
  shows "fst (key_run (replicate n 0 @ [1]) 0 b) =
     (if long_events c n = 0 then [BUTTON_DOWM]
      else replicate (long_events c n) BUTTON_LONG @ [BUTTON_LONG_FREE])"
proof -
  obtain es lf' b' where r: "key_run (replicate n 0) 0 b = (es, lf', b')"
    by (metis prod_cases3)
  then have "held c n 0 (es, lf', b')"
    using held_run [OF assms, of 0] by simp
  then show ?thesis
    by (auto simp: key_run_append r held_def poll_defs split: if_splits)
qed

text \<open>A press of 150 polls with two long press events, and one of 123 polls, which is still a click.\<close>

theorem key_press_release_witness:
  "fst (key_run (replicate 150 0 @ [1]) 0 (Button_Create 1 0)) = [BUTTON_LONG, BUTTON_LONG, BUTTON_LONG_FREE] \<and>
   fst (key_run (replicate 123 0 @ [1]) 0 (Button_Create 1 0)) = [BUTTON_DOWM]"
proof -
  have i: "idle 0 (Button_Create 1 0)" by (simp add: idle_def Button_Create_def)
  have n: "1 \<le> (150 :: nat)" "1 \<le> (123 :: nat)" by simp_all
  have l: "long_events 0 150 = Suc (Suc 0)" "long_events 0 123 = 0" by (simp_all add: long_events_def)
  show ?thesis unfolding key_press_release [OF i n(1)] key_press_release [OF i n(2)] l by simp
qed

section \<open>Keys that do not report\<close>

definition stuck :: "Button_t \<Rightarrow> bool" where
  "stuck b \<longleftrightarrow> Button_Trigger_Level b = 0 \<and> Button_Trigger_Event b = NONE_TRIGGER \<and>
     (Button_State b = NONE_TRIGGER \<and> Button_Last_Level b = 0 \<or>
      Button_State b = BUTTON_DOWM \<and> Button_Last_Level b = 1 \<or> Button_State b = BUTTON_UP)"

lemma stuck_step:
  assumes "stuck b" "l = 0 \<or> l = 1"
  shows "\<exists>b'. Button_Cycle_Process l 0 b = ([], 0, b') \<and> stuck b'"
  using assms by (auto simp: stuck_def poll_defs)

lemma stuck_run: "stuck b \<Longrightarrow> set ls \<subseteq> {0, 1} \<Longrightarrow> fst (key_run ls 0 b) = []"
proof (induction ls arbitrary: b)
  case (Cons l ls)
  then obtain b' where "Button_Cycle_Process l 0 b = ([], 0, b')" "stuck b'"
    using stuck_step [of b l] by auto
  with Cons show ?case by (auto split: prod.split simp: fst_def)
qed simp

text \<open>
  A key that is held down while its button is created never reports anything afterwards,
  whatever its pin does, as long as no other key sets \<open>LongFlag\<close>.
\<close>

theorem key_held_at_boot_is_dead:
  "set ls \<subseteq> {0, 1} \<Longrightarrow> fst (key_run ls 0 (Button_Create 0 0)) = []"
  by (rule stuck_run) (simp_all add: stuck_def Button_Create_def)

theorem key_held_at_boot_is_dead_witness:
  "fst (key_run [0, 1, 1, 0, 0, 1] 0 (Button_Create 0 0)) = []"
  using key_held_at_boot_is_dead [of "[0, 1, 1, 0, 0, 1]"] by simp

end
