(* ===== verification/System.thy ===== *)
theory System
  imports WinInv Button
begin

text \<open>
  The whole firmware: the start sequence of \<open>applications/main.c\<close>, and the steps it makes
  afterwards. A step is one turn of a task loop, one expired timer, one interrupt, one shell
  command or one change of the environment. Reachability is rule induction over these steps,
  so the order in which the tasks, the interrupts and the environment act is arbitrary.
\<close>

section \<open>Start\<close>

record machine =
  sysm :: sys
  btns :: "Button_t list"
  LongFlag :: u8

text \<open>The C initialisers: \<open>e\<close> is the content of the flash, \<open>b\<close> what the board gives.\<close>

definition sem0 :: rt_semaphore where
  "sem0 = rt_sem_init 0 RT_IPC_FLAG_FIFO"

definition reset_ui :: ui_st where
  "reset_ui = \<lparr>FirstFlag = (\<lambda>_. 0), NowButtonId = 0, NowSetting = 0, NowWinid = 0, Win1PageID = 0,
     Win14PageID = 0, Jump_Flag = 1, K0_Status = 0, K1_Status = 0, K2_Status = 0, K2_Long_Status = 0,
     tButton = (\<lambda>_. \<lparr>btn_x = 0, btn_y = 0, btn_wide = 0, btn_high = 0, btn_flag = 0, btn_name = [], btn_linesize = 0\<rparr>),
     tScroll = (\<lambda>_. \<lparr>scr_x = 0, scr_y = 0, scr_hight = 0, scr_max = 0, scr_lump = 0\<rparr>),
     userMainWin = userMainWin_init, winStack = (\<lambda>_. 0), pWin = 0, forecolor = CBLACK, backcolor = CWHITLE,
     x_to_page = (\<lambda>_ _. 0), pZmBuff = replicate 24 0, LCD_Flag = 0\<rparr>"

definition reset_sys :: "env_st \<Rightarrow> board_st \<Rightarrow> sys" where
  "reset_sys e b = \<lparr>
     board = b\<lparr>pin_mode := (\<lambda>_. PIN_MODE_ANALOG), pin_out := (\<lambda>_. 0), pin_irq := (\<lambda>_. None),
               pin_irq_on := (\<lambda>_. False), cpu_reset := False\<rparr>,
     kys = \<lparr>K0_Sem = sem0, K1_Sem = sem0, K2_Sem = sem0, K2_Long_Sem = sem0, K2_Long_Counter = 0,
            K2_Long_Flag = 0, Delta_press_work_Flag = 0, Button_Wakeup_Flag = 0\<rparr>,
     tmr = \<lparr>tsys = \<lparr>tm_objs = (\<lambda>_. None), tm_list = [], tm_next = 0, tm_mem = True\<rparr>,
            Screen_Backlight_Timer = None, Screen_Vcc_Timer = None, Moto_Cycle_Timer = None,
            SemJump_Timer = None, LowPowerTimer = None\<rparr>,
     cfg = \<lparr>Reminder_Week = 0, Reminder_Day = 0, Reminder_Enable = 0, Automatic_Week = 0, Automatic_Day = 0,
            Automatic_Enable = 0, Deltapress_Enable = 0, Counter_Manual = 0, Counter_Automatic = 0,
            Counter_Deltapress = 0, Counter_Error = 0, Setting_Deltapress = 0, Setting_Hardness = 0,
            Setting_Backwashtime = 0, Setting_Language = 0\<rparr>,
     edt = \<lparr>Reminder_Week_Temp = 0, Reminder_Day_Temp = 0, Reminder_Enable_Temp = 0, Automatic_Week_Temp = 0,
            Automatic_Day_Temp = 0, Automatic_Enable_Temp = 0, Deltapress_Enable_Temp = 0, Set_Delta_Temp = 0,
            Set_Hardness_Temp = 0, Set_Backwash_Temp = 0, Set_Language_Temp = 0, Tds_Password = 3,
            Tds_Password_Temp = 0, TdsValueOffsetTemp = 0\<rparr>,
     ui = reset_ui,
     jmp = \<lparr>JumptoReminderFlag = 0, JumpToBatteryEmptyFlag = 0, JumpToBatteryNewFlag = 0,
            JumptoAutomaticFlag = 0, lcd_jump_event = rt_event_init\<rparr>,
     moto = \<lparr>MotoWorkFlag = 0, Moto_Event = rt_event_init, Left_Status = 0, Right_Status = 0\<rparr>,
     rtc = \<lparr>RTC_Event_Flag = 0, RTC_Reminder_Time = 0, RTC_Automatic_Time = 0, Reminder_Time = 0,
            Automatic_Time = 0, RTC_Check_Sem = sem0\<rparr>,
     bat = \<lparr>NowBatVol = 0, PastBatVol = 0, LowVoltageFlag = 0\<rparr>,
     tds = \<lparr>data_parsing_id = 0, tds_data = (\<lambda>_. 0), TDS_Value = 0, uart_rx = [], uart_tx = []\<rparr>,
     flash = e,
     faults = []\<rparr>"

text \<open>
  \<open>main\<close> with a working flash chip, and the parts of the threads it starts that come before
  their loops; \<open>None\<close> is a write through a null pointer in \<open>boot_time\<close> or \<open>Flash_Get\<close>.
\<close>

definition main_start :: "sys \<Rightarrow> machine option" where
  "main_start s =
     Option.bind (boot_time (Led_Init s)) (\<lambda>s1.
     Option.bind (RTC_Init s1) (\<lambda>s2.
     map_option (\<lambda>s3. \<lparr>sysm = block [Moto_Init, Tds_Init] s3,
           btns = map (\<lambda>p. Button_Create (rt_pin_read p s2) 0) [K2_PIN, K1_PIN, K0_PIN],
           LongFlag = 0\<rparr>) (lcd_task_start (Key_Init s2))))"

section \<open>The button task\<close>

text \<open>The callbacks attached in \<open>button_task_entry\<close>; the list is Key2, Key1, Key0.\<close>

definition key_callback :: "nat \<Rightarrow> Button_Event \<Rightarrow> stmt" where
  "key_callback k e = (case (k, e) of
      (0, BUTTON_DOWM) \<Rightarrow> K2_Sem_Release
    | (0, BUTTON_LONG) \<Rightarrow> K2_Long_Sem_Release
    | (0, BUTTON_LONG_FREE) \<Rightarrow> K2_Long_Free_Release
    | (Suc 0, BUTTON_DOWM) \<Rightarrow> K1_Sem_Release
    | (Suc 0, BUTTON_LONG) \<Rightarrow> K1_Sem_Release
    | (Suc (Suc 0), BUTTON_DOWM) \<Rightarrow> K0_Sem_Release
    | _ \<Rightarrow> (\<lambda>s. s))"

definition callbacks :: "Button_Event list list \<Rightarrow> stmt" where
  "callbacks ess = block (concat (map (\<lambda>(k, es). map (key_callback k) es) (enumerate 0 ess)))"

definition button_pass :: "machine \<Rightarrow> machine" where
  "button_pass m =
     (let levels = map (\<lambda>p. rt_pin_read p (sysm m)) [K2_PIN, K1_PIN, K0_PIN] in
      case Button_Process (zip levels (btns m)) (LongFlag m) of
        (ess, lf, bs) \<Rightarrow> m\<lparr>sysm := callbacks ess (sysm m), btns := bs, LongFlag := lf\<rparr>)"

section \<open>Steps\<close>

text \<open>
  The shell commands that act on the state (\<open>MSH_CMD_EXPORT\<close>), except those that start a second
  copy of a thread (\<open>lcd\<close>, \<open>Moto_TaskUp\<close>, \<open>BatterWatcher\<close>, \<open>RTC_Init\<close>, \<open>TDS__Uart_Init\<close>).
\<close>

definition shell_commands :: "wake \<Rightarrow> stmt list" where
  "shell_commands w = [moto_forward, moto_back, moto_stop, Moto_Cycle, jumpa, jumpb, jumpc, jumpd, jumpe,
     JumptoReminder, JumpToBatteryEmpty, JumpToBatteryNew, EnterLowPower w,
     Light_Red, Light_BackLight, Green_Light, Red_Light, Blue_Light, (\<lambda>s. snd (Tds_Work s)), Flash_Factory,
     LcdGpioConfig, testgpio, clear_screen, full_screen, display_test, test_drawpoint]"

inductive step :: "machine \<Rightarrow> machine \<Rightarrow> bool" where
  lcd: "step m (sysm_update lcd_pass m)"
| motor: "step m (sysm_update Moto_pass m)"
| clock: "step m (sysm_update RTC_Check_pass m)"
| battery: "step m (sysm_update Battery_pass m)"
| button: "step m (button_pass m)"
| timer: "step m (sysm_update (timer_thread w) m)"
| sensor: "step m (sysm_update (data_parsing_step ch) m)"
| alarm: "step m (sysm_update HAL_RTC_AlarmAEventCallback m)"
| water: "pin_irq_on (board (sysm m)) WATER_FLOW \<Longrightarrow> step m (sysm_update Delta_press m)"
| key_irq: "p \<in> {K0_PIN, K1_PIN, K2_PIN} \<Longrightarrow> pin_irq_on (board (sysm m)) p \<Longrightarrow>
    step m (sysm_update button_wakeup m)"
| shell: "c \<in> set (shell_commands w) \<Longrightarrow> step m (sysm_update c m)"
| pins: "step m (sysm_update (board_update (pin_in_update f)) m)"
| adc: "step m (sysm_update (board_update (adc_val_update g)) m)"
| tick: "step m (sysm_update (board_update (tick_now_update (\<lambda>t. t + 1))) m)"
| heap: "step m (sysm_update (tmr_update (tsys_update (tm_mem_update h))) m)"
| room: "step m (sysm_update (flash_update (env_room_update h)) m)"
| reboot: "cpu_reset (board (sysm m)) \<Longrightarrow>
    main_start (reset_sys (flash (sysm m)) (board (sysm m))) = Some m' \<Longrightarrow> step m m'"

inductive reach :: "machine \<Rightarrow> bool" where
  start: "main_start (reset_sys e b) = Some m \<Longrightarrow> reach m"
| more: "reach m \<Longrightarrow> step m m' \<Longrightarrow> reach m'"

inductive_cases stepE: "step m m'"

end
