(* ===== verification/Firmware.thy ===== *)
theory Firmware
  imports System
begin

text \<open>
  Properties of every reachable state. The locale \<open>prim_part\<close> lists the primitive effects of
  the firmware a property has to survive; from these follow, once and for all, the task loops,
  the callbacks, the interrupts, the shell and the sleep sequence, and so every step.
\<close>

section \<open>Primitive effects\<close>

locale prim_part = gui_part +
  assumes p_lcd_flag: "I s \<Longrightarrow> v \<le> 3 \<Longrightarrow> I (ui_update (LCD_Flag_update (\<lambda>_. v)) s)"
    and p_status: "I s \<Longrightarrow> I (ui_update (K0_Status_update f2) s)" "I s \<Longrightarrow> I (ui_update (K1_Status_update f2) s)"
      "I s \<Longrightarrow> I (ui_update (K2_Status_update f2) s)" "I s \<Longrightarrow> I (ui_update (K2_Long_Status_update f2) s)"
    and p_kys: "I s \<Longrightarrow> I (kys_update f3 s)"
    and p_rtc: "I s \<Longrightarrow> I (rtc_update f4 s)"
    and p_jmp: "I s \<Longrightarrow> I (jmp_update f5 s)"
    and p_bat: "I s \<Longrightarrow> I (bat_update f6 s)"
    and p_tds: "I s \<Longrightarrow> I (tds_update (\<lambda>t. t\<lparr>TDS_Value := 0, data_parsing_id := 0, uart_tx := f7 t\<rparr>) s)"
    and p_parse: "I s \<Longrightarrow> I (data_parsing_step ch s)"
    and p_counters: "I s \<Longrightarrow> I (cfg_update (Counter_Manual_update c) s)"
      "I s \<Longrightarrow> I (cfg_update (Counter_Automatic_update c) s)"
      "I s \<Longrightarrow> I (cfg_update (Counter_Deltapress_update c) s)"
      "I s \<Longrightarrow> I (cfg_update (Counter_Error_update c) s)"
    and p_flash: "I s \<Longrightarrow> I (flash_update (\<lambda>e. snd (ef_set_env key str e)) s)"
    and p_room: "I s \<Longrightarrow> I (flash_update (env_room_update f8) s)"
    and p_pin: "p \<noteq> MOTO_IN1 \<Longrightarrow> p \<noteq> MOTO_IN2 \<Longrightarrow> I s \<Longrightarrow> I (rt_pin_write p x s)"
    and p_low: "p = MOTO_IN1 \<or> p = MOTO_IN2 \<Longrightarrow> I s \<Longrightarrow> I (rt_pin_write p 0 s)"
    and p_board: "I s \<Longrightarrow> I (board_update (pin_mode_update g1) s)" "I s \<Longrightarrow> I (board_update (pin_irq_update g2) s)"
      "I s \<Longrightarrow> I (board_update (pin_irq_on_update g3) s)" "I s \<Longrightarrow> I (board_update (pin_in_update g4) s)"
      "I s \<Longrightarrow> I (board_update (clk_spi2_update g5) s)" "I s \<Longrightarrow> I (board_update (clk_adc_update g5) s)"
      "I s \<Longrightarrow> I (board_update (clk_usart2_update g5) s)" "I s \<Longrightarrow> I (board_update (adc_val_update g6) s)"
      "I s \<Longrightarrow> I (board_update (tick_now_update g7) s)" "I s \<Longrightarrow> I (board_update (cpu_reset_update g5) s)"
    and p_event: "I s \<Longrightarrow> I (moto_update (Moto_Event_update h1) s)"
    and p_switches: "I s \<Longrightarrow> I (moto_update (Left_Status_update h2) s)" "I s \<Longrightarrow> I (moto_update (Right_Status_update h2) s)"
    and p_off: "I s \<Longrightarrow> I (set_MotoWorkFlag 0 (rt_pin_write MOTO_IN2 0 (rt_pin_write MOTO_IN1 0 s)))"
    and p_forward: "I s \<Longrightarrow> I (set_MotoWorkFlag 1 (rt_pin_write MOTO_IN2 1 (rt_pin_write MOTO_IN1 0 s)))"
    and p_covered: "I s \<Longrightarrow> I (set_MotoWorkFlag 1 s)"
    and p_back: "I s \<Longrightarrow> I (set_MotoWorkFlag 2 (rt_pin_write MOTO_IN2 0 (rt_pin_write MOTO_IN1 1 s)))"
    and p_start: "I s \<Longrightarrow> I (timer_start sel s)"
    and p_stop: "I s \<Longrightarrow> I (timer_stop sel s)"
    and p_set_time: "I s \<Longrightarrow> I (timer_set_time sel tv s)"
    and p_create: "I s \<Longrightarrow> I (timer_create Screen_Backlight_Timer_update tf tt s)"
      "I s \<Longrightarrow> I (timer_create Screen_Vcc_Timer_update tf tt s)"
      "I s \<Longrightarrow> I (timer_create Moto_Cycle_Timer_update tf tt s)"
      "I s \<Longrightarrow> I (timer_create SemJump_Timer_update tf tt s)"
      "I s \<Longrightarrow> I (timer_create LowPowerTimer_update tf tt s)"
    and p_due: "I s \<Longrightarrow> timer_due (tick_now (board s)) (tsys (tmr s)) = Some (h, fn, ts) \<Longrightarrow>
      I (tmr_update (tsys_update (\<lambda>_. ts)) s)"
    and p_done: "I s \<Longrightarrow> I (tmr_update (tsys_update (timer_done h)) s)"
    and p_mem: "I s \<Longrightarrow> I (tmr_update (tsys_update (tm_mem_update m)) s)"
begin

lemma keeps_prims [keeps_rules]:
  "v \<le> 3 \<Longrightarrow> keeps I (ui_update (LCD_Flag_update (\<lambda>_. v)))"
  "keeps I (\<lambda>s. kys_update (F3 s) s)" "keeps I (\<lambda>s. rtc_update (F4 s) s)" "keeps I (\<lambda>s. jmp_update (F5 s) s)"
  "keeps I (\<lambda>s. bat_update (F6 s) s)" "keeps I (data_parsing_step ch)"
  "keeps I (cfg_update (Counter_Manual_update c))" "keeps I (cfg_update (Counter_Automatic_update c))"
  "keeps I (cfg_update (Counter_Deltapress_update c))" "keeps I (cfg_update (Counter_Error_update c))"
  "keeps I (\<lambda>s. Flash_Set i (V s) s)" "keeps I (flash_update (env_room_update f8))"
  "keeps I (board_update (clk_spi2_update g5))" "keeps I (board_update (clk_adc_update g5))"
  "keeps I (board_update (clk_usart2_update g5))" "keeps I rt_hw_cpu_reset"
  "keeps I (rt_pin_mode p md)" "keeps I (rt_pin_attach_irq p hh)" "keeps I (rt_pin_irq_enable p)"
  "keeps I (moto_send ev)" "keeps I (\<lambda>s. moto_update (Left_Status_update (H2 s)) s)"
  "keeps I (\<lambda>s. moto_update (Right_Status_update (H2 s)) s)"
  "keeps I (\<lambda>s. snd (Tds_Work s))"
  by (auto simp: keeps_def p_lcd_flag p_kys p_rtc p_jmp p_bat p_parse p_counters Flash_Set_def p_flash p_room p_board
      rt_hw_cpu_reset_def pin_defs moto_send_def p_event p_switches Tds_Work_def p_tds)

lemma keeps_pin [keeps_rules]: "p \<noteq> MOTO_IN1 \<Longrightarrow> p \<noteq> MOTO_IN2 \<Longrightarrow> keeps I (rt_pin_write p x)"
  by (simp add: keeps_def p_pin)

lemma keeps_low [keeps_rules]: "keeps I (rt_pin_write MOTO_IN1 0)" "keeps I (rt_pin_write MOTO_IN2 0)"
  by (simp_all add: keeps_def p_low)

lemma keeps_timers [keeps_rules]:
  "keeps I (timer_start sel)" "keeps I (timer_stop sel)" "keeps I (\<lambda>s. timer_set_time sel (V s) s)"
  "keeps I (timer_create Screen_Backlight_Timer_update tf tt)" "keeps I (timer_create Screen_Vcc_Timer_update tf tt)"
  "keeps I (timer_create Moto_Cycle_Timer_update tf tt)" "keeps I (timer_create SemJump_Timer_update tf tt)"
  "keeps I (timer_create LowPowerTimer_update tf tt)"
  "keeps I (tmr_update (tsys_update (timer_done h)))"
  by (auto simp: keeps_def p_start p_stop p_set_time p_create p_done)

section \<open>Operations built from them\<close>

lemma keeps_leds0 [keeps_rules]:
  "keeps I Led_Init" "keeps I Led_DeInit" "keeps I Red_Off" "keeps I Green_Off" "keeps I Green_Light" "keeps I Red_Light"
  "keeps I Blue_Light" "keeps I Light_Red" "keeps I Light_BackLight"
  unfolding led_defs Light_Red_def Light_BackLight_def by (intro keeps_rules; simp)+

lemma keeps_screen_timers [keeps_rules]:
  "keeps I SreenTimerInit" "keeps I ScreenTimerStop" "keeps I ScreenTimerRefresh" "keeps I LowPowerTimerStart"
  "keeps I SemJump"
  unfolding SreenTimerInit_def ScreenTimerStop_def ScreenTimerRefresh_def LowPowerTimerStart_def SemJump_def
  by (intro keeps_rules)+

lemma keeps_adc [keeps_rules]: "keeps I ADC_Pin_Init" "keeps I ADC_Pin_DeInit" "keeps I Tds_Init" "keeps I Tds_DeInit"
  unfolding ADC_Pin_Init_def ADC_Pin_DeInit_def Tds_Init_def Tds_DeInit_def by (intro keeps_rules)+

lemma keeps_LcdInit [keeps_rules]: "keeps I LcdInit" "keeps I LcdGpioConfig" "keeps I testgpio"
  unfolding LcdInit_def LcdGpioConfig_def testgpio_def by (intro keeps_rules; simp)+

lemma keeps_userAppPortInit [keeps_rules]: "keeps I userAppPortInit"
  unfolding userAppPortInit_def by (intro keeps_rules; simp)

lemma keeps_display_tests [keeps_rules]: "keeps I display_test" "keeps I test_drawpoint"
  unfolding display_test_def test_drawpoint_def by (intro keeps_rules)+

lemma keeps_Flash_Factory [keeps_rules]: "keeps I Flash_Factory"
  unfolding Flash_Factory_def by (auto intro!: keeps_block_all keeps_prims)

lemma keeps_OpenLcdDisplay [keeps_rules]: "keeps I OpenLcdDisplay"
  unfolding OpenLcdDisplay_def by (intro keeps_rules; simp)

lemma keeps_close [keeps_rules]: "keeps I CloseLcdVcc" "keeps I CloseLcdBacklight"
  unfolding CloseLcdVcc_def CloseLcdBacklight_def by (intro keeps_rules; simp)+

lemma keeps_take_keys: "keeps I take_keys"
  unfolding take_keys_def
  by (intro keeps_rules) (auto simp: keeps_def take_key_def p_kys p_status split: prod.split)

lemma keeps_jump_events [keeps_rules]:
  "keeps I jumpa" "keeps I jumpb" "keeps I jumpc" "keeps I jumpd" "keeps I jumpe"
  "keeps I JumptoReminder" "keeps I JumpToBatteryEmpty" "keeps I JumpToBatteryNew" "keeps I JumptoAutomatic"
  unfolding jumpa_def jumpb_def jumpc_def jumpd_def jumpe_def lcd_jump_send_def JumptoReminder_def
    JumpToBatteryEmpty_def JumpToBatteryNew_def JumptoAutomatic_def
  by (intro keeps_rules)+

lemma keeps_Moto_Cycle [keeps_rules]: "keeps I Moto_Cycle"
  unfolding Moto_Cycle_def RTC_Clear_def by (intro keeps_rules)

end

sublocale prim_part \<subseteq> effects_part
  by unfold_locales (auto simp: keepsD [OF keeps_take_keys] p_rtc p_jmp p_counters p_pin
      intro: keepsD [OF keeps_Moto_Cycle] keepsD [OF keeps_screen_timers(5)] keepsD [OF keeps_prims(16)]
      keepsD [OF keeps_prims(11)] keepsD [OF keeps_prims(23)])

section \<open>Motor, clock, battery, keys, sleep\<close>

context prim_part
begin

lemma keeps_off: "keeps I (block [rt_pin_write MOTO_IN1 0, rt_pin_write MOTO_IN2 0, set_MotoWorkFlag 0])"
  by (simp add: keeps_def p_off)

lemma keeps_off_then: "keeps I (block fs) \<Longrightarrow>
    keeps I (block (rt_pin_write MOTO_IN1 0 # rt_pin_write MOTO_IN2 0 # set_MotoWorkFlag 0 # fs))"
  using keeps_off by (simp add: keeps_def)

lemma keeps_release [keeps_rules]: "keeps I Moto_Free_Event_Release"
  unfolding Moto_Free_Event_Release_def
  by (intro keeps_block_Cons [where f = "moto_send e" for e] keeps_off_then keeps_block_Cons [where f = "whenS c f" for c f]
      keeps_whenS keeps_prims keeps_block_Nil keeps_block_Cons [where f = "\<lambda>s. moto_update (F s) s" for F]
      keeps_block_Cons [where f = "\<lambda>s. snd (Tds_Work s)"] keeps_block_Cons [where f = ScreenTimerRefresh]
      keeps_block_Cons [where f = "ifS c f g" for c f g] keeps_ifS keeps_screen_timers keeps_jump_events)

lemma keeps_overload [keeps_rules]: "keeps I moto_overload"
proof -
  have "keeps I (block [jumpb, timer_stop Moto_Cycle_Timer, moto_send Event_Moto_Free, ScreenTimerRefresh])"
    by (intro keeps_rules)
  then show ?thesis unfolding moto_overload_def by (intro keeps_whenS keeps_off_then)
qed

lemma keeps_moto_event: "keeps I (moto_event e)"
  unfolding moto_event_def
  by (intro keeps_switchS_Cons keeps_switchS_Nil keeps_ifS keeps_whenS)
    (simp_all add: keeps_def p_off p_forward p_covered p_back)

lemma keeps_moto_recv [keeps_rules]: "keeps I moto_recv"
proof
  fix s assume "I s"
  then show "I (moto_recv s)"
    using keeps_moto_event by (simp add: moto_recv_def Let_def keeps_def p_event split: prod.split option.split)
qed

lemma keeps_Moto_pass [keeps_rules]: "keeps I Moto_pass"
  unfolding Moto_pass_def by (intro keeps_rules)

lemma keeps_Moto_Cycle_Timer_cb [keeps_rules]: "keeps I Moto_Cycle_Timer_cb"
  unfolding Moto_Cycle_Timer_cb_def by (intro keeps_rules)

lemma keeps_moto_pins [keeps_rules]: "keeps I Moto_Pin_Init" "keeps I Moto_Pin_DeInit"
  unfolding Moto_Pin_Init_def Moto_Pin_DeInit_def by (intro keeps_rules; simp)+

lemma keeps_RTC_Check_pass [keeps_rules]: "keeps I RTC_Check_pass"
proof
  fix s assume "I s"
  then have "I (snd (rtc_take s))" by (simp add: rtc_take_def p_rtc split: prod.split)
  moreover have "keeps I check_reminder" "keeps I check_automatic"
    unfolding check_reminder_def check_automatic_def by (intro keeps_rules)+
  then have "keeps I (block [rtc_update (RTC_Event_Flag_update (\<lambda>_. 0)),
      whenS (\<lambda>s. Reminder_Enable (cfg s) \<noteq> 0) check_reminder, whenS (\<lambda>s. Automatic_Enable (cfg s) \<noteq> 0) check_automatic,
      whenS (\<lambda>s. RTC_Event_Flag (rtc s) = 0) LowPowerTimerStart])"
    by (intro keeps_rules)
  ultimately show "I (RTC_Check_pass s)"
    by (auto simp: RTC_Check_pass_def keeps_def split: prod.split)
qed

lemma keeps_Battery_pass [keeps_rules]: "keeps I Battery_pass"
  unfolding Battery_pass_def by (intro keeps_rules)

lemma keeps_alarm [keeps_rules]: "keeps I HAL_RTC_AlarmAEventCallback"
  unfolding HAL_RTC_AlarmAEventCallback_def RTC_Timer_Entry_def RTC_Check_def by (intro keeps_rules)

lemma keeps_irqs [keeps_rules]: "keeps I Delta_press" "keeps I button_wakeup"
  unfolding Delta_press_def button_wakeup_def by (intro keeps_rules)+

lemma keeps_key_callbacks [keeps_rules]:
  "keeps I K0_Sem_Release" "keeps I K1_Sem_Release" "keeps I K2_Sem_Release"
  "keeps I K2_Long_Sem_Release" "keeps I K2_Long_Free_Release"
  unfolding K0_Sem_Release_def K1_Sem_Release_def K2_Sem_Release_def K2_Long_Sem_Release_def K2_Long_Free_Release_def
  by (intro keeps_rules)+

lemma keeps_key_callback: "keeps I (key_callback k e)"
  unfolding key_callback_def
  by (auto simp: keeps_key_callbacks keeps_id split: prod.split nat.split Button_Event.split)

lemma keeps_callbacks [keeps_rules]: "keeps I (callbacks ess)"
  unfolding callbacks_def by (rule keeps_block_all) (auto simp: keeps_key_callback)

lemma keeps_flash_power [keeps_rules]: "keeps I FlashInit" "keeps I FlashDeInit" "keeps I WifiDeInit"
  unfolding FlashInit_def FlashDeInit_def WifiDeInit_def by (intro keeps_rules; simp)+

lemma keeps_BeforSleep [keeps_rules]: "keeps I BeforSleep"
  unfolding BeforSleep_def by (intro keeps_rules)

lemma keeps_AfterWake [keeps_rules]: "keeps I AfterWake"
  unfolding AfterWake_def by (intro keeps_rules)

lemma keeps_JumptoMainWin [keeps_rules]: "keeps I JumptoMainWin"
  unfolding JumptoMainWin_def by (intro keeps_rules; simp)

lemma keeps_wake_isr [keeps_rules]: "keeps I (wake_isr w)"
  by (cases w) (simp_all add: wake_isr_def keeps_irqs keeps_alarm)

lemma keeps_EnterLowPower [keeps_rules]: "keeps I (EnterLowPower w)"
  unfolding EnterLowPower_def by (intro keeps_rules)

lemma keeps_timer_callback [keeps_rules]: "keeps I (timer_callback w f)"
proof (cases f)
  case LcdBacklightTimerCallback
  show ?thesis unfolding timer_callback_def LcdBacklightTimerCallback timer_fun.case by (intro keeps_rules; simp)
next
  case LcdVccTimerCallback
  show ?thesis unfolding timer_callback_def LcdVccTimerCallback timer_fun.case by (intro keeps_rules; simp)
qed (simp_all add: timer_callback_def keeps_Moto_Cycle_Timer_cb keeps_EnterLowPower keeps_prims)

lemma keeps_timer_thread: "keeps I (timer_thread w)"
proof
  fix s assume s: "I s"
  have "keeps I (block [timer_callback w f, tmr_update (tsys_update (timer_done h))])" for f h
    by (intro keeps_rules)
  then show "I (timer_thread w s)"
    using s p_due [OF s] by (auto simp: timer_thread_def keeps_def split: option.split prod.split)
qed

lemma keeps_shell: "c \<in> set (shell_commands w) \<Longrightarrow> keeps I c"
  by (auto simp: shell_commands_def moto_forward_def moto_back_def moto_stop_def
      keeps_prims keeps_Moto_Cycle keeps_jump_events keeps_EnterLowPower keeps_leds0 keeps_Flash_Factory
      keeps_LcdInit keeps_clear_screen keeps_display_tests)

end

section \<open>Every reachable state\<close>

locale firmware_part = prim_part +
  assumes f_edit: "keeps I disp \<Longrightarrow> keeps I (UserMain4WinFun disp)"
    "keeps I disp \<Longrightarrow> keeps I (UserMain5WinFun disp)"
    "keeps I disp \<Longrightarrow> keeps I (UserMain6WinFun disp)"
    "keeps I disp \<Longrightarrow> keeps I (UserMain15WinFun disp)"
    "keeps I disp \<Longrightarrow> keeps I (UserMain16WinFun disp)"
    "keeps I disp \<Longrightarrow> keeps I (UserMain17WinFun disp)"
    "keeps I disp \<Longrightarrow> keeps I (UserMain20WinFun disp)"
    "keeps I disp \<Longrightarrow> keeps I (UserMain21WinFun disp)"
    "keeps I disp \<Longrightarrow> keeps I (UserMain24WinFun disp)"
    and boot: "main_start (reset_sys e b) = Some m \<Longrightarrow> I (sysm m)"

sublocale firmware_part \<subseteq> task_part
  by unfold_locales (auto intro: f_edit p_kys keepsD [OF keeps_OpenLcdDisplay] keepsD [OF keeps_screen_timers(3)])

context firmware_part
begin

lemma step_keeps: "step m m' \<Longrightarrow> I (sysm m) \<Longrightarrow> I (sysm m')"
proof (induction rule: step.induct)
  case (button m)
  then show ?case
    by (auto simp: button_pass_def Let_def intro: keepsD [OF keeps_callbacks] split: prod.split)
next
  case (shell c w m)
  then show ?case by (auto intro: keepsD [OF keeps_shell])
qed (auto intro: keepsD [OF keeps_lcd_pass] keepsD [OF keeps_Moto_pass] keepsD [OF keeps_RTC_Check_pass]
    keepsD [OF keeps_Battery_pass] keepsD [OF keeps_timer_thread] p_parse keepsD [OF keeps_alarm]
    keepsD [OF keeps_irqs(1)] keepsD [OF keeps_irqs(2)] p_board p_mem p_room boot)

lemma reach_keeps: "reach m \<Longrightarrow> I (sysm m)"
  by (induction rule: reach.induct) (auto intro: boot step_keeps)

end

text \<open>A property that does not look at the settings holds at the start when it holds at reset.\<close>

locale firmware_free = prim_part +
  assumes any_edt: "I s \<Longrightarrow> I (edt_update e s)"
    and any_cfg: "I s \<Longrightarrow> I (cfg_update f s)"
    and at_reset: "I (reset_sys env brd)"

sublocale firmware_free \<subseteq> window_free
  by unfold_locales (auto intro: any_edt any_cfg)

context firmware_free
begin

lemma keeps_boot_time: "I s \<Longrightarrow> boot_time s = Some s' \<Longrightarrow> I s'"
  by (auto simp: boot_time_def Let_def p_flash fault split: option.splits)

lemma keeps_RTC_Init: "I s \<Longrightarrow> RTC_Init s = Some s' \<Longrightarrow> I s'"
  by (auto simp: RTC_Init_def p_rtc split: Option.bind_splits)

lemma keeps_load: "I s \<Longrightarrow> load i st s = Some s' \<Longrightarrow> I s'"
  by (auto simp: load_def any_cfg)

lemma keeps_load_all: "I s \<Longrightarrow> load_all xs s = Some s' \<Longrightarrow> I s'"
proof (induction xs s rule: load_all.induct)
  case (2 i st r s)
  then show ?case by (auto split: Option.bind_splits intro: keeps_load)
qed simp

lemma keeps_GotValue: "I s \<Longrightarrow> GotValue s = Some s' \<Longrightarrow> I s'"
proof -
  assume "I s" "GotValue s = Some s'"
  moreover have "keeps I fix_hardness" "keeps I fix_backwashtime"
    unfolding fix_hardness_def fix_backwashtime_def by (intro keeps_rules)+
  ultimately show "I s'"
    by (auto simp: GotValue_def keeps_def split: Option.bind_splits dest: keeps_load_all keeps_load)
qed

lemma keeps_Key_Init: "keeps I Key_Init"
  unfolding Key_Init_def Key_Sem_init_def by (intro keeps_rules)

lemma keeps_lcd_task_start: "I s \<Longrightarrow> lcd_task_start s = Some s' \<Longrightarrow> I s'"
proof -
  have "keeps I (block [Lcd_Event_Init, userAppPortInit, ui_set LCD_Flag_update 0])"
    unfolding Lcd_Event_Init_def by (intro keeps_rules; simp)
  then show "I s \<Longrightarrow> lcd_task_start s = Some s' \<Longrightarrow> I s'"
    using keeps_GotValue by (auto simp: lcd_task_start_def keeps_def)
qed

lemma keeps_Moto_Init: "keeps I (block [Moto_Init, Tds_Init])"
proof -
  have "keeps I (moto_update (Moto_Event_update (\<lambda>_. rt_event_init)))"
    by (simp add: keeps_def p_event)
  then show ?thesis unfolding Moto_Init_def by (intro keeps_rules)
qed

lemma keeps_main_start:
  assumes "I s" "main_start s = Some m"
  shows "I (sysm m)"
proof -
  obtain s1 s2 s3 where st: "boot_time (Led_Init s) = Some s1" "RTC_Init s1 = Some s2"
    "lcd_task_start (Key_Init s2) = Some s3" "sysm m = block [Moto_Init, Tds_Init] s3"
    using assms(2) by (auto simp: main_start_def bind_eq_Some_conv simp del: block.simps)
  have "I (Led_Init s)" using assms(1) by (rule keepsD [OF keeps_leds0(1)])
  then have "I s1" using st(1) by (rule keeps_boot_time)
  then have "I s2" using st(2) by (rule keeps_RTC_Init)
  then have "I (Key_Init s2)" by (rule keepsD [OF keeps_Key_Init])
  then have "I s3" using st(3) by (rule keeps_lcd_task_start)
  then show ?thesis unfolding st(4) by (rule keepsD [OF keeps_Moto_Init])
qed

end

sublocale firmware_free \<subseteq> firmware_part
  by unfold_locales (auto intro: keeps_edit_windows keeps_main_start at_reset)

end
