(* ===== verification/Boot.thy ===== *)
theory Boot
  imports Firmware
begin

text \<open>
  The start of the firmware as a function of what the flash holds: it succeeds when every parameter
  is stored, and it fails on a device that only has the default set.
\<close>

section \<open>A flash that holds every parameter\<close>

text \<open>The names the firmware reads: the real name of the start counter and the pointer bytes of the others.\<close>

definition used_names :: "env_st \<Rightarrow> string set" where
  "used_names e = insert ''boot_times'' (key_str (key_addr e) ` {..18})"

definition env_num :: "env_st \<Rightarrow> bool" where
  "env_num e \<longleftrightarrow> init_ok e \<and> (\<forall>k\<in>used_names e. \<exists>n. env_kv e k = Some (fmt_ld n))"

lemma used_namesI: "''boot_times'' \<in> used_names e" "i \<le> 18 \<Longrightarrow> flash_key i s \<in> used_names (flash s)"
  by (simp_all add: used_names_def flash_key_def)

lemma env_num_get: "env_num e \<Longrightarrow> k \<in> used_names e \<Longrightarrow> \<exists>n. ef_get_env k e = Some (fmt_ld n)"
proof -
  assume "env_num e" "k \<in> used_names e"
  then obtain n where n: "env_kv e k = Some (fmt_ld n)" "init_ok e" by (auto simp: env_num_def)
  have "length (fmt_ld n) \<le> 11" by (rule fmt_ld_length)
  moreover have "fmt_ld n \<noteq> []" using ef.okval_num [of n] by simp
  ultimately show ?thesis using n ef_is_str_fmt_ld [of n] by (auto simp: ef_get_env_def ef_get_env_blob_def)
qed

lemma env_num_set: "env_num e \<Longrightarrow> env_num (snd (ef_set_env k (fmt_ld n) e))"
  by (auto simp: env_num_def ef_set_env_def used_names_def)

definition flash_num :: "sys \<Rightarrow> bool" where
  "flash_num s \<longleftrightarrow> env_num (flash s)"

lemma flash_num_Flash_Set: "flash_num s \<Longrightarrow> flash_num (Flash_Set i v s)"
  by (simp add: flash_num_def Flash_Set_def env_num_set)

lemma flash_num_Flash_Get: "flash_num s \<Longrightarrow> i \<le> 18 \<Longrightarrow> \<exists>v. Flash_Get i s = Some v"
  using env_num_get [of "flash s" "flash_key i s"] by (auto simp: Flash_Get_def flash_num_def used_namesI)

lemma flash_num_load: "flash_num s \<Longrightarrow> i \<le> 18 \<Longrightarrow> \<exists>s'. load i st s = Some s' \<and> flash_num s'"
  using flash_num_Flash_Get [of s i] by (auto simp: load_def flash_num_def)

lemma flash_num_load_all: "flash_num s \<Longrightarrow> \<forall>x\<in>set xs. fst x \<le> 18 \<Longrightarrow> \<exists>s'. load_all xs s = Some s' \<and> flash_num s'"
proof (induction xs s rule: load_all.induct)
  case (2 i st r s)
  then show ?case using flash_num_load [of s i st] by fastforce
qed simp

lemma flash_num_GotValue:
  assumes "flash_num s"
  shows "\<exists>s'. GotValue s = Some s' \<and> flash_num s'"
proof -
  have fix1: "flash_num (fix_hardness t)" "flash_num (fix_backwashtime t)" if "flash_num t" for t
    using that flash_num_Flash_Set
    by (auto simp: fix_hardness_def fix_backwashtime_def whenS_def flash_num_def)
  obtain s1 where 1: "load_all GotValue_head s = Some s1" "flash_num s1"
    using flash_num_load_all [OF assms, of GotValue_head] by (auto simp: GotValue_head_def)
  obtain s2 where 2: "load 14 (\<lambda>v. Setting_Backwashtime_update (\<lambda>_. ucast v)) (fix_hardness s1) = Some s2" "flash_num s2"
    using flash_num_load [OF fix1(1) [OF 1(2)], of 14] by auto
  show ?thesis
    using 1 2 flash_num_load [OF fix1(2) [OF 2(2)], of 15] by (auto simp: GotValue_def)
qed

lemma flash_num_boot_time:
  assumes "flash_num s"
  shows "\<exists>s'. boot_time s = Some s' \<and> flash_num s'"
proof -
  obtain n where "ef_get_env ''boot_times'' (flash s) = Some (fmt_ld n)"
    using assms env_num_get [of "flash s" "''boot_times''"] by (auto simp: flash_num_def used_namesI)
  then show ?thesis
    using assms env_num_set by (auto simp: boot_time_def Let_def flash_num_def add_fault_def)
qed

lemma flash_num_RTC_Init: "flash_num s \<Longrightarrow> \<exists>s'. RTC_Init s = Some s' \<and> flash_num s'"
  using flash_num_Flash_Get [of s 16] flash_num_Flash_Get [of s 17] by (auto simp: RTC_Init_def flash_num_def)

lemma flash_Led_Init [frame]: "flash (Led_Init s) = flash s"
  by (simp add: led_defs pin_defs)

lemma flash_timers [frame]: "flash (timer_start sel s) = flash s" "flash (timer_create upd f t s) = flash s"
  by (auto simp: timer_start_def timer_create_def add_fault_def split: option.split prod.split)

lemma flash_Key_Init [frame]: "flash (Key_Init s) = flash s"
  by (simp add: Key_Init_def Key_Sem_init_def SreenTimerInit_def pin_defs whenS_def frame)

lemma main_start_total: "flash_num s \<Longrightarrow> \<exists>m. main_start s = Some m"
proof -
  assume "flash_num s"
  then have "flash_num (Led_Init s)" by (simp add: flash_num_def frame)
  then obtain s1 where 1: "boot_time (Led_Init s) = Some s1" "flash_num s1"
    using flash_num_boot_time by blast
  obtain s2 where 2: "RTC_Init s1 = Some s2" "flash_num s2"
    using flash_num_RTC_Init [OF 1(2)] by blast
  then have "flash_num (Key_Init s2)" by (simp add: flash_num_def frame)
  then obtain s3 where 3: "GotValue (Key_Init s2) = Some s3"
    using flash_num_GotValue by blast
  show ?thesis using 1 2 3 by (simp add: main_start_def lcd_task_start_def)
qed

text \<open>A concrete device: every parameter 0, every input high, no analog reading.\<close>

definition env0 :: env_st where
  "env0 = \<lparr>env_kv = (\<lambda>_. Some ''0''), init_ok = True, env_room = True, key_addr = (\<lambda>_. 0x08010101)\<rparr>"

definition board0 :: board_st where
  "board0 = \<lparr>pin_mode = (\<lambda>_. PIN_MODE_ANALOG), pin_out = (\<lambda>_. 0), pin_in = (\<lambda>_. 1), pin_irq = (\<lambda>_. None),
     pin_irq_on = (\<lambda>_. False), pin_log = [], clk_spi2 = False, clk_adc = False, clk_usart2 = False,
     adc_val = (\<lambda>_. 0), tick_now = 0, cpu_reset = False\<rparr>"

definition sys0 :: sys where
  "sys0 = reset_sys env0 board0"

lemma fmt_ld_0: "fmt_ld 0 = ''0''"
  by (simp add: fmt_ld_def dec_digits.simps digit_char_def char_of_def bit_0)

lemma env_num_env0: "env_num env0"
  unfolding env_num_def env0_def by (auto intro: exI [of _ 0] simp: fmt_ld_0)

lemma reach_env0: "\<exists>m. reach m \<and> main_start (reset_sys env0 board0) = Some m"
proof -
  have "flash_num (reset_sys env0 board0)" by (simp add: flash_num_def reset_sys_def env_num_env0)
  then show ?thesis using main_start_total reach.start by blast
qed

section \<open>A flash that only holds the default set\<close>

text \<open>The names EasyFlash gets from \<open>Flash_Get\<close> are bytes of addresses, so none is a default name.\<close>

definition default_env :: "(nat \<Rightarrow> u32) \<Rightarrow> env_st" where
  "default_env ka = \<lparr>env_kv = map_of default_env_set, init_ok = True, env_room = True, key_addr = ka\<rparr>"

lemma RTC_Init_missing: "Flash_Get 16 s = None \<Longrightarrow> RTC_Init s = None"
  by (simp add: RTC_Init_def)

lemma default_no_key:
  assumes "key_str ka 16 \<notin> set Key_list" "flash s = default_env ka" "boot_time s = Some s1"
  shows "Flash_Get 16 s1 = None"
proof -
  have "ef_get_env ''boot_times'' (flash s) = Some ''0''"
    using assms(2) by (simp add: default_env_def ef_get_env_def ef_get_env_blob_def default_env_set_def Key_list_def
        ef_is_str_def)
  moreover have "env_kv (flash s) (key_str ka 16) = None"
    using assms by (auto simp: default_env_def default_env_set_def map_of_eq_None_iff)
  moreover have "key_str ka 16 \<noteq> ''boot_times''" using assms(1) by (auto simp: Key_list_def)
  ultimately show ?thesis
    using assms(2,3) by (auto simp: boot_time_def Let_def Flash_Get_def flash_key_def ef_get_env_def ef_get_env_blob_def
        ef_set_env_def default_env_def add_fault_def)
qed

text \<open>
  C36. On a device that has only the default set, the start sequence reads a parameter that is
  not there and writes through the null pointer it got, whatever the addresses of the names
  are, unless those addresses happen to spell one of the names.
\<close>

theorem first_boot_null_write:
  assumes "key_str ka 16 \<notin> set Key_list"
  shows "main_start (reset_sys (default_env ka) b) = None"
proof -
  define s where "s = Led_Init (reset_sys (default_env ka) b)"
  have f: "flash s = default_env ka" by (simp add: s_def frame reset_sys_def)
  have "RTC_Init s1 = None" if "boot_time s = Some s1" for s1
    using default_no_key [OF assms f that] by (rule RTC_Init_missing)
  then show ?thesis by (auto simp: main_start_def s_def [symmetric] split: Option.bind_splits)
qed

theorem first_boot_null_write_witness:
  "main_start (reset_sys (default_env (\<lambda>_. 0x08001234)) board0) = None"
  by (rule first_boot_null_write) (simp add: key_str_def le_bytes_def upt_rec Key_list_def char_of_def)

end
