(* ===== verification/MotoProps.thy ===== *)
theory MotoProps
  imports Boot
begin

text \<open>
  What the motor control does: the refusal on low voltage, the stroke out and back of a
  backwash, the stop at overload, and the return stroke that is lost when the end switch and
  the timer fall into the same poll.
\<close>

section \<open>What the timer calls leave alone\<close>

lemma timer_ops_frame [frame]:
  "board (timer_start sel s) = board s" "board (timer_stop sel s) = board s" "board (timer_set_time sel v s) = board s"
  "moto (timer_start sel s) = moto s" "moto (timer_stop sel s) = moto s" "moto (timer_set_time sel v s) = moto s"
  "cfg (timer_start sel s) = cfg s" "cfg (timer_stop sel s) = cfg s" "cfg (timer_set_time sel v s) = cfg s"
  "jmp (timer_start sel s) = jmp s" "jmp (timer_stop sel s) = jmp s" "jmp (timer_set_time sel v s) = jmp s"
  "tds (timer_start sel s) = tds s" "tds (timer_stop sel s) = tds s" "tds (timer_set_time sel v s) = tds s"
  "bat (timer_start sel s) = bat s" "bat (timer_stop sel s) = bat s" "bat (timer_set_time sel v s) = bat s"
  "rtc (timer_start sel s) = rtc s" "rtc (timer_stop sel s) = rtc s" "rtc (timer_set_time sel v s) = rtc s"
  by (auto simp: timer_start_def timer_stop_def timer_set_time_def add_fault_def split: option.split prod.split)

lemma screen_timer_frame [frame]:
  "board (ScreenTimerRefresh s) = board s" "moto (ScreenTimerRefresh s) = moto s" "cfg (ScreenTimerRefresh s) = cfg s"
  "jmp (ScreenTimerRefresh s) = jmp s" "tds (ScreenTimerRefresh s) = tds s" "bat (ScreenTimerRefresh s) = bat s"
  "board (ScreenTimerStop s) = board s" "moto (ScreenTimerStop s) = moto s" "cfg (ScreenTimerStop s) = cfg s"
  "jmp (ScreenTimerStop s) = jmp s" "tds (ScreenTimerStop s) = tds s" "bat (ScreenTimerStop s) = bat s"
  "rtc (ScreenTimerStop s) = rtc s" "rtc (ScreenTimerRefresh s) = rtc s"
  by (simp_all add: ScreenTimerRefresh_def ScreenTimerStop_def frame)

lemma Flash_Set_frame [frame]:
  "board (Flash_Set i v s) = board s" "moto (Flash_Set i v s) = moto s" "cfg (Flash_Set i v s) = cfg s"
  "jmp (Flash_Set i v s) = jmp s" "tds (Flash_Set i v s) = tds s" "bat (Flash_Set i v s) = bat s" "rtc (Flash_Set i v s) = rtc s"
  by (simp_all add: Flash_Set_def)

section \<open>Reading the state of the motor\<close>

abbreviation in1 :: "sys \<Rightarrow> u8" where "in1 s \<equiv> pin_out (board s) MOTO_IN1"
abbreviation in2 :: "sys \<Rightarrow> u8" where "in2 s \<equiv> pin_out (board s) MOTO_IN2"
abbreviation moto_events :: "sys \<Rightarrow> u32" where "moto_events s \<equiv> ev_set (Moto_Event (moto s))"
abbreviation jump_events :: "sys \<Rightarrow> u32" where "jump_events s \<equiv> ev_set (lcd_jump_event (jmp s))"

text \<open>No thread blocks on the two event sets: both are polled.\<close>

definition polled :: "sys \<Rightarrow> bool" where
  "polled s \<longleftrightarrow> ev_waiters (Moto_Event (moto s)) = [] \<and> ev_waiters (lcd_jump_event (jmp s)) = []"

lemmas motor_defs = Moto_pass_def Moto_Free_Event_Release_def moto_overload_def moto_recv_def moto_event_def
  moto_send_def jumpa_def jumpb_def jumpc_def jumpd_def jumpe_def lcd_jump_send_def Tds_Work_def
  stmt_defs pin_defs adc_defs rt_event_send_no_waiters event_poll_eq polled_def

section \<open>Refusal\<close>

text \<open>
  On low battery voltage and without mains supply a backwash is not started: the motor state
  and all pins are as before, no motor event is sent, and the display task is told to leave the
  backwash window and to show the empty battery.
\<close>

theorem Moto_Cycle_refused:
  assumes "LowVoltageFlag (bat s) \<noteq> 0" "Get_DC_Level s \<noteq> 1" "polled s"
  shows "moto (Moto_Cycle s) = moto s \<and> board (Moto_Cycle s) = board s \<and> tmr (Moto_Cycle s) = tmr s \<and>
    jump_events (Moto_Cycle s) = jump_events s OR JUMP_EXIT \<and> JumpToBatteryEmptyFlag (jmp (Moto_Cycle s)) = 1 \<and>
    RTC_Automatic_Time (rtc (Moto_Cycle s)) = 0"
  using assms by (simp add: Moto_Cycle_def RTC_Clear_def JumpToBatteryEmpty_def motor_defs)

lemmas sys0_defs = sys0_def reset_sys_def board0_def env0_def rt_event_init_def

theorem Moto_Cycle_refused_witness:
  "JumpToBatteryEmptyFlag (jmp (Moto_Cycle (bat_update (LowVoltageFlag_update (\<lambda>_. 1)) sys0))) = 1"
  using Moto_Cycle_refused [of "bat_update (LowVoltageFlag_update (\<lambda>_. 1)) sys0"]
  by (simp add: sys0_defs adc_defs polled_def)

section \<open>Overload\<close>

definition stopped :: "sys \<Rightarrow> bool" where
  "stopped s \<longleftrightarrow> in1 s = 0 \<and> in2 s = 0 \<and> MotoWorkFlag (moto s) = 0"

abbreviation moto_mask :: u32 where "moto_mask \<equiv> Event_Moto_Free OR Event_Moto_Forward OR Event_Moto_Back OR Event_Moto_Cycle"

lemma moto_event_masked:
  fixes ev :: u32
  assumes "ev AND 1 \<noteq> 0"
  shows "ev AND moto_mask \<noteq> 0" "ev AND moto_mask \<noteq> 2" "ev AND moto_mask \<noteq> 4"
proof -
  have "(ev AND moto_mask) AND 1 = ev AND 1" by (simp add: and.assoc)
  then show "ev AND moto_mask \<noteq> 0" "ev AND moto_mask \<noteq> 2" "ev AND moto_mask \<noteq> 4" using assms by auto
qed

text \<open>A stopped motor with the free event pending stays stopped, whatever else is pending.\<close>

lemma recv_stopped:
  assumes "stopped s" "moto_events s AND Event_Moto_Free \<noteq> 0"
  shows "stopped (moto_recv s) \<and> cfg (moto_recv s) = cfg s \<and> jmp (moto_recv s) = jmp s"
  using assms moto_event_masked [OF assms(2)]
  by (simp add: moto_recv_def event_poll_eq Let_def moto_event_def switchS_def stopped_def pin_defs)

lemma release_polled [simp]: "polled s \<Longrightarrow> polled (Moto_Free_Event_Release s)"
  by (simp add: motor_defs frame)

lemma release_overload [simp]: "Get_Moto_Value (Moto_Free_Event_Release s) = Get_Moto_Value s"
  "cfg (Moto_Free_Event_Release s) = cfg s"
  by (simp_all add: motor_defs frame)

lemma overload_state:
  assumes "Get_Moto_Value s > 200" "polled s"
  shows "stopped (moto_overload s)" "moto_events (moto_overload s) = moto_events s OR Event_Moto_Free"
    "Counter_Error (cfg (moto_overload s)) = Counter_Error (cfg s) + 1"
    "jump_events (moto_overload s) = jump_events s OR JUMP_STALLING"
  using assms by (simp_all add: motor_defs frame stopped_def)

text \<open>
  C3. If the motor is running and its current reading is above 200, then after the same turn of
  the motor loop both bridge inputs are low, the motor is idle, the error counter has been
  increased and the stalling message is pending, whatever events were waiting.
\<close>

theorem overload_stops:
  assumes "MotoWorkFlag (moto s) > 0" "Get_Moto_Value s > 200" "polled s"
  shows "in1 (Moto_pass s) = 0 \<and> in2 (Moto_pass s) = 0 \<and> MotoWorkFlag (moto (Moto_pass s)) = 0 \<and>
    Counter_Error (cfg (Moto_pass s)) = Counter_Error (cfg s) + 1 \<and>
    jump_events (Moto_pass s) AND JUMP_STALLING \<noteq> 0"
proof -
  define t where "t = moto_overload (Moto_Free_Event_Release s)"
  have t: "stopped t" "moto_events t = moto_events (Moto_Free_Event_Release s) OR Event_Moto_Free"
    "Counter_Error (cfg t) = Counter_Error (cfg s) + 1"
    "jump_events t = jump_events (Moto_Free_Event_Release s) OR JUMP_STALLING"
    unfolding t_def using overload_state [of "Moto_Free_Event_Release s"] assms by simp_all
  have "Moto_pass s = moto_recv t" using assms(1) by (simp add: Moto_pass_def whenS_def t_def)
  moreover have "moto_events t AND Event_Moto_Free \<noteq> 0" "jump_events t AND JUMP_STALLING \<noteq> 0"
    unfolding t by (simp_all add: bit.conj_disj_distrib2)
  ultimately show ?thesis using recv_stopped [OF t(1)] t by (simp add: stopped_def)
qed

definition stalled0 :: sys where
  "stalled0 = board_update (adc_val_update (\<lambda>f. f(16 := 300))) (set_MotoWorkFlag 1 sys0)"

theorem overload_stops_witness: "in2 (Moto_pass stalled0) = 0 \<and> Counter_Error (cfg (Moto_pass stalled0)) = 1"
proof -
  have "MotoWorkFlag (moto stalled0) > 0" "Get_Moto_Value stalled0 > 200" "polled stalled0" "Counter_Error (cfg stalled0) = 0"
    by (simp_all add: stalled0_def sys0_defs adc_defs polled_def)
  with overload_stops [of stalled0] show ?thesis by simp
qed

section \<open>The backwash cycle\<close>

definition set_switches :: "u8 \<Rightarrow> u8 \<Rightarrow> stmt" where
  "set_switches l r = board_update (pin_in_update (\<lambda>f. f(MOTO_LEFT := l, MOTO_RIGHT := r)))"

text \<open>The four positions of the cycle, as the motor task sees them.\<close>

definition at_rest :: "sys \<Rightarrow> bool" where
  "at_rest s \<longleftrightarrow> stopped s \<and> moto_events s = 0 \<and> Get_Moto_Value s \<le> 200 \<and> polled s"

definition driving :: "sys \<Rightarrow> bool" where
  "driving s \<longleftrightarrow> in1 s = 0 \<and> in2 s = 1 \<and> MotoWorkFlag (moto s) = 1 \<and> moto_events s = 0 \<and> Get_Moto_Value s \<le> 200 \<and> polled s"

definition returning :: "sys \<Rightarrow> bool" where
  "returning s \<longleftrightarrow> in1 s = 1 \<and> in2 s = 0 \<and> MotoWorkFlag (moto s) = 2 \<and> moto_events s = 0 \<and> Get_Moto_Value s \<le> 200 \<and> polled s"

lemmas cycle_defs = at_rest_def driving_def returning_def stopped_def set_switches_def

lemma Moto_Cycle_starts:
  assumes "at_rest s" "LowVoltageFlag (bat s) = 0"
  shows "moto_events (Moto_Cycle s) = Event_Moto_Forward" "stopped (Moto_Cycle s)" "polled (Moto_Cycle s)"
    "Get_Moto_Value (Moto_Cycle s) \<le> 200" "\<And>p. rt_pin_read p (Moto_Cycle s) = rt_pin_read p s"
  using assms by (simp_all add: Moto_Cycle_def RTC_Clear_def led_defs frame cycle_defs motor_defs)

lemma light_pass:
  assumes "MotoWorkFlag (moto s) > 0" "Get_Moto_Value s \<le> 200"
  shows "Moto_pass s = moto_recv (Moto_Free_Event_Release s)"
proof -
  have "\<not> Get_Moto_Value (Moto_Free_Event_Release s) > 200" using assms(2) by (simp add: not_less)
  then show ?thesis using assms(1) by (simp add: Moto_pass_def whenS_def moto_overload_def)
qed

lemma pass_forward:
  assumes "stopped s" "moto_events s = Event_Moto_Forward" "polled s" "Get_Moto_Value s \<le> 200" "rt_pin_read MOTO_RIGHT s = 1"
  shows "driving (Moto_pass s)"
  using assms by (simp add: cycle_defs motor_defs frame)

lemma pass_right_end:
  assumes "driving s" "rt_pin_read MOTO_RIGHT s = 0"
  shows "at_rest (Moto_pass s)" "uart_tx (tds (Moto_pass s)) = TdsRead # TdsRead # uart_tx (tds s)"
    "\<And>p. rt_pin_read p (Moto_pass s) = rt_pin_read p s"
proof -
  have eq: "Moto_pass s = moto_recv (Moto_Free_Event_Release s)"
    using assms(1) by (intro light_pass) (simp_all add: driving_def)
  show "at_rest (Moto_pass s)" "uart_tx (tds (Moto_pass s)) = TdsRead # TdsRead # uart_tx (tds s)"
    "\<And>p. rt_pin_read p (Moto_pass s) = rt_pin_read p s"
    unfolding eq using assms by (simp_all add: cycle_defs motor_defs frame)
qed

lemma timer_sends_back:
  assumes "at_rest s" "rt_pin_read MOTO_RIGHT s = 0"
  shows "moto_events (Moto_Cycle_Timer_cb s) = Event_Moto_Back" "stopped (Moto_Cycle_Timer_cb s)" "polled (Moto_Cycle_Timer_cb s)"
    "Get_Moto_Value (Moto_Cycle_Timer_cb s) \<le> 200" "\<And>p. rt_pin_read p (Moto_Cycle_Timer_cb s) = rt_pin_read p s"
  using assms by (simp_all add: Moto_Cycle_Timer_cb_def cycle_defs motor_defs frame)

lemma pass_back:
  assumes "stopped s" "moto_events s = Event_Moto_Back" "polled s" "Get_Moto_Value s \<le> 200" "rt_pin_read MOTO_LEFT s = 1"
  shows "returning (Moto_pass s)"
  using assms by (simp add: cycle_defs motor_defs frame)

lemma pass_left_end:
  assumes "returning s" "rt_pin_read MOTO_LEFT s = 0"
  shows "at_rest (Moto_pass s)"
    "jump_events (Moto_pass s) = jump_events s OR (if TDS_Value (tds s) > Setting_Hardness (cfg s) then JUMP_TDS else JUMP_FINISH)"
proof -
  have eq: "Moto_pass s = moto_recv (Moto_Free_Event_Release s)"
    using assms(1) by (intro light_pass) (simp_all add: returning_def)
  show "at_rest (Moto_pass s)"
    "jump_events (Moto_pass s) = jump_events s OR (if TDS_Value (tds s) > Setting_Hardness (cfg s) then JUMP_TDS else JUMP_FINISH)"
    unfolding eq using assms by (simp_all add: cycle_defs motor_defs frame)
qed

lemma switches_pins [simp]:
  "driving (set_switches l r s) = driving s" "returning (set_switches l r s) = returning s"
  "rt_pin_read MOTO_LEFT (set_switches l r s) = l" "rt_pin_read MOTO_RIGHT (set_switches l r s) = r"
  "tds (set_switches l r s) = tds s" "cfg (set_switches l r s) = cfg s" "jmp (set_switches l r s) = jmp s"
  by (simp_all add: cycle_defs motor_defs)

text \<open>
  C2. A backwash on a charged battery goes out and back: after the request the motor drives
  forward; when the right end switch closes it stops and the sensor is asked twice; when the
  backwash time is over the motor drives back; when the left end switch closes it stops, and the
  display is told that the backwash is finished or that the water is too hard.
\<close>

theorem backwash_cycle:
  assumes "at_rest s0" "LowVoltageFlag (bat s0) = 0" "rt_pin_read MOTO_RIGHT s0 = 1"
  defines "s1 \<equiv> Moto_pass (Moto_Cycle s0)"
  defines "s2 \<equiv> Moto_pass (set_switches 1 0 s1)"
  defines "s3 \<equiv> Moto_pass (Moto_Cycle_Timer_cb s2)"
  defines "s4 \<equiv> Moto_pass (set_switches 0 1 s3)"
  shows "driving s1 \<and> at_rest s2 \<and> uart_tx (tds s2) = TdsRead # TdsRead # uart_tx (tds s1) \<and>
    returning s3 \<and> at_rest s4 \<and>
    jump_events s4 = jump_events s3 OR (if TDS_Value (tds s3) > Setting_Hardness (cfg s3) then JUMP_TDS else JUMP_FINISH)"
proof -
  have 1: "driving s1"
    unfolding s1_def using Moto_Cycle_starts [OF assms(1,2)] assms(3) by (intro pass_forward) simp_all
  have 2: "at_rest s2" "uart_tx (tds s2) = TdsRead # TdsRead # uart_tx (tds s1)" "rt_pin_read MOTO_RIGHT s2 = 0"
    "rt_pin_read MOTO_LEFT s2 = 1"
    unfolding s2_def using 1 pass_right_end [of "set_switches 1 0 s1"] by simp_all
  have 3: "returning s3"
    unfolding s3_def using timer_sends_back [OF 2(1,3)] 2(4) by (intro pass_back) simp_all
  have "at_rest s4 \<and> jump_events s4 = jump_events s3 OR (if TDS_Value (tds s3) > Setting_Hardness (cfg s3) then JUMP_TDS else JUMP_FINISH)"
    unfolding s4_def using 3 pass_left_end [of "set_switches 0 1 s3"] by simp
  with 1 2 3 show ?thesis by blast
qed

lemma sys0_ready: "at_rest sys0" "LowVoltageFlag (bat sys0) = 0" "rt_pin_read MOTO_RIGHT sys0 = 1"
  by (simp_all add: cycle_defs polled_def adc_defs sys0_defs pin_defs)

theorem backwash_cycle_witness: "returning (Moto_pass (Moto_Cycle_Timer_cb (Moto_pass (set_switches 1 0 (Moto_pass (Moto_Cycle sys0))))))"
  using backwash_cycle [OF sys0_ready] by blast

text \<open>
  C35. When the right end switch closes and the backwash time ends before the next turn of the
  motor loop, the stop and the return request are received together, match no case of the
  \<open>switch\<close>, and are gone: the motor is idle with the valve open and nothing is pending that
  would close it.
\<close>

theorem return_stroke_lost:
  assumes "driving s" "rt_pin_read MOTO_RIGHT s = 0"
  shows "at_rest (Moto_pass (Moto_Cycle_Timer_cb s))"
proof -
  define t where "t = Moto_Cycle_Timer_cb s"
  have t: "t = moto_send Event_Moto_Back s" using assms(2) by (simp add: t_def Moto_Cycle_Timer_cb_def ifS_def)
  have eq: "Moto_pass t = moto_recv (Moto_Free_Event_Release t)"
    using assms(1) by (intro light_pass) (simp_all add: driving_def t moto_send_def adc_defs)
  show ?thesis unfolding t_def [symmetric] eq unfolding t using assms by (simp add: cycle_defs motor_defs frame)
qed

lemma driving0: "driving (Moto_pass (Moto_Cycle sys0))"
  using Moto_Cycle_starts [OF sys0_ready(1,2)] sys0_ready(3) by (intro pass_forward) simp_all

theorem return_stroke_lost_witness:
  "at_rest (Moto_pass (Moto_Cycle_Timer_cb (set_switches 1 0 (Moto_pass (Moto_Cycle sys0)))))"
  by (rule return_stroke_lost) (simp_all add: driving0)

end
