(* ===== verification/Safety.thy ===== *)
theory Safety
  imports MotoProps
begin

text \<open>
  Safety of every reachable state: the motor bridge, the window stack, the display power
  state, the receive buffer of the water sensor and the timer list. Each property is an
  interpretation of the contract of theory \<open>Firmware\<close>.
\<close>

section \<open>The motor bridge\<close>

text \<open>The two inputs of the bridge are never high together, and both are low when the motor is idle.\<close>

definition bridge_ok :: "sys \<Rightarrow> bool" where
  "bridge_ok s \<longleftrightarrow> \<not> (pin_out (board s) MOTO_IN1 \<noteq> 0 \<and> pin_out (board s) MOTO_IN2 \<noteq> 0) \<and>
     (MotoWorkFlag (moto s) = 0 \<longrightarrow> pin_out (board s) MOTO_IN1 = 0 \<and> pin_out (board s) MOTO_IN2 = 0)"

section \<open>The window stack\<close>

definition stack_ok :: "sys \<Rightarrow> bool" where
  "stack_ok s \<longleftrightarrow> pWin (ui s) \<le> GUIWINMANAGE_NUM \<and>
     (\<forall>i < unat (pWin (ui s)). 1 \<le> winStack (ui s) i \<and> winStack (ui s) i \<le> 27)"

section \<open>The receive buffer\<close>

definition rx_ok :: "sys \<Rightarrow> bool" where
  "rx_ok s \<longleftrightarrow> data_parsing_id (tds s) < ONE_DATA_MAXLEN"

section \<open>The timer list\<close>

definition timers_ok :: "sys \<Rightarrow> bool" where
  "timers_ok s \<longleftrightarrow> timers_wf (tsys (tmr s))"

section \<open>The contracts\<close>

lemmas other_parts = add_fault_def pin_defs timer_start_def timer_stop_def timer_set_time_def
  timer_create_def data_parsing_step_def stmt_defs

interpretation bridge: firmware_free bridge_ok
  by unfold_locales
    (auto simp: bridge_ok_def reset_sys_def other_parts split: option.split prod.split)

lemma stack_ok_push:
  assumes "stack_ok s" "pWin (ui s) < GUIWINMANAGE_NUM" "1 \<le> w" "w \<le> 27"
  shows "stack_ok (ui_update (\<lambda>u. u\<lparr>winStack := (winStack u)(unat (pWin u) := w), pWin := pWin u + 1\<rparr>) s)"
proof -
  have "unat (pWin (ui s)) < 16" using assms(2) by (simp add: word_less_nat_alt)
  then have "unat (pWin (ui s) + 1) = unat (pWin (ui s)) + 1" by (simp add: unat_word_ariths)
  with assms show ?thesis by (auto simp: stack_ok_def word_le_nat_alt word_less_nat_alt less_Suc_eq)
qed

lemma stack_ok_pop:
  assumes "stack_ok s" "1 < pWin (ui s)"
  shows "stack_ok (ui_update (pWin_update (\<lambda>n. n - 1)) s)"
proof -
  have "unat (pWin (ui s) - 1) = unat (pWin (ui s)) - 1"
    using assms(2) by (simp add: unat_sub word_le_nat_alt word_less_nat_alt)
  with assms show ?thesis by (auto simp: stack_ok_def word_le_nat_alt)
qed

interpretation stack: firmware_free stack_ok
  by unfold_locales
    (simp_all add: stack_ok_push stack_ok_pop,
     auto simp: stack_ok_def reset_sys_def reset_ui_def other_parts split: option.split prod.split)

lemma rx_ok_parse: "rx_ok s \<Longrightarrow> rx_ok (data_parsing_step ch s)"
proof -
  assume "rx_ok s"
  then have "unat (data_parsing_id (tds s)) < 11" by (simp add: rx_ok_def word_less_nat_alt)
  then have "unat (data_parsing_id (tds s) + 1) \<le> 11" by (simp add: unat_word_ariths)
  then show ?thesis
    by (auto simp: rx_ok_def data_parsing_step_def stmt_defs word_less_nat_alt word_unat_eq_iff add_fault_def)
qed

interpretation rx: firmware_free rx_ok
  by unfold_locales
    (simp_all add: rx_ok_parse,
     auto simp: rx_ok_def reset_sys_def add_fault_def pin_defs timer_start_def timer_stop_def timer_set_time_def
       timer_create_def split: option.split prod.split)

interpretation timers: firmware_free timers_ok
proof unfold_locales
  fix s sel tv
  assume ok: "timers_ok s"
  show "timers_ok (timer_start sel s)"
    using ok rt_timer_start_wf by (auto simp: timers_ok_def timer_start_def add_fault_def split: option.split)
  show "timers_ok (timer_stop sel s)"
    using ok rt_timer_stop_wf by (auto simp: timers_ok_def timer_stop_def add_fault_def split: option.split)
  show "timers_ok (timer_set_time sel tv s)"
    using ok rt_timer_set_time_wf by (auto simp: timers_ok_def timer_set_time_def add_fault_def split: option.split)
next
  fix s tf tt
  assume ok: "timers_ok s"
  have "timers_wf (snd (rt_timer_create tf tt (tsys (tmr s))))"
    using ok rt_timer_create_wf by (auto simp: timers_ok_def)
  then show "timers_ok (timer_create Screen_Backlight_Timer_update tf tt s)"
    "timers_ok (timer_create Screen_Vcc_Timer_update tf tt s)" "timers_ok (timer_create Moto_Cycle_Timer_update tf tt s)"
    "timers_ok (timer_create SemJump_Timer_update tf tt s)" "timers_ok (timer_create LowPowerTimer_update tf tt s)"
    by (auto simp: timers_ok_def timer_create_def split: prod.split)
qed (simp_all add: timers_ok_def timer_done_wf, auto simp: timers_wf_def timer_due_def reset_sys_def add_fault_def
    pin_defs data_parsing_step_def stmt_defs split: option.splits list.splits if_splits prod.splits)

section \<open>Properties of reachable states\<close>

text \<open>
  The states that \<open>reach\<close> gives lie between two turns. Inside the turn that starts a back stroke the code
  raises \<open>MOTO_IN1\<close> first and lowers \<open>MOTO_IN2\<close> afterwards, so that both inputs are high for the time
  between the two writes when the motor was driven forward.
\<close>

lemma back_stroke_overlap:
  assumes "rt_pin_read MOTO_LEFT s = 1" "in2 s \<noteq> 0"
  shows "moto_event Event_Moto_Back s = set_MotoWorkFlag 2 (rt_pin_write MOTO_IN2 0 (rt_pin_write MOTO_IN1 1 s)) \<and>
    in1 (rt_pin_write MOTO_IN1 1 s) \<noteq> 0 \<and> in2 (rt_pin_write MOTO_IN1 1 s) \<noteq> 0"
  using assms by (simp add: moto_event_def stmt_defs pin_defs)

text \<open>
  C1. Between turns the motor bridge is safe: in every state the firmware can be in after a whole turn
  of a task, an interrupt, a timer callback, a sleep or a shell command, whatever the order of these turns,
  the two inputs of the motor bridge are not both high, and both are low while the motor is
  idle. The states inside a turn are not meant: while the code starts a back stroke during a forward
  stroke, both inputs are high between two pin writes of the same turn.
\<close>

theorem motor_bridge_safe:
  assumes "reach m"
  shows "\<not> (in1 (sysm m) \<noteq> 0 \<and> in2 (sysm m) \<noteq> 0) \<and>
    (MotoWorkFlag (moto (sysm m)) = 0 \<longrightarrow> in1 (sysm m) = 0 \<and> in2 (sysm m) = 0)"
  using bridge.reach_keeps [OF assms] by (simp add: bridge_ok_def)

theorem motor_bridge_safe_witness:
  "\<exists>m. main_start (reset_sys env0 board0) = Some m \<and> reach m \<and> \<not> (in1 (sysm m) \<noteq> 0 \<and> in2 (sysm m) \<noteq> 0)"
  using reach_env0 motor_bridge_safe by blast

text \<open>
  C7. In every reachable state the window stack has at most 16 entries, and the window on top of
  it is one of the 27 windows with a function: the dispatch never leaves the table.
\<close>

theorem window_stack_valid:
  assumes "reach m"
  shows "pWin (ui (sysm m)) \<le> GUIWINMANAGE_NUM \<and>
    (pWin (ui (sysm m)) \<noteq> 0 \<longrightarrow>
     map_of WindowFunctions (winStack (ui (sysm m)) (unat (pWin (ui (sysm m))) - 1)) \<noteq> None)"
proof -
  have ok: "stack_ok (sysm m)" by (rule stack.reach_keeps [OF assms])
  have tab: "map_of WindowFunctions w \<noteq> None" if "1 \<le> w" "w \<le> 27" for w
  proof -
    have "w \<in> set [1..<28]" using that by simp
    then show ?thesis by (auto simp: upt_rec WindowFunctions_def)
  qed
  show ?thesis
  proof (intro conjI impI)
    show "pWin (ui (sysm m)) \<le> GUIWINMANAGE_NUM" using ok by (simp add: stack_ok_def)
    assume "pWin (ui (sysm m)) \<noteq> 0"
    then have "unat (pWin (ui (sysm m))) - 1 < unat (pWin (ui (sysm m)))" by (simp add: unat_gt_0)
    with ok show "map_of WindowFunctions (winStack (ui (sysm m)) (unat (pWin (ui (sysm m))) - 1)) \<noteq> None"
      unfolding stack_ok_def by (intro tab) blast+
  qed
qed

theorem window_stack_valid_witness:
  "\<exists>m. main_start (reset_sys env0 board0) = Some m \<and> pWin (ui (sysm m)) \<le> GUIWINMANAGE_NUM"
  using reach_env0 window_stack_valid by blast

text \<open>
  C39. In every reachable state the receiver of the water sensor has room for the next byte: a
  received byte never lands outside the eleven bytes of the frame buffer.
\<close>

theorem sensor_buffer_safe:
  assumes "reach m"
  shows "unat (data_parsing_id (tds (sysm m))) < 11 \<and> faults (data_parsing_step ch (sysm m)) = faults (sysm m)"
  using rx.reach_keeps [OF assms]
  by (simp add: rx_ok_def word_less_nat_alt data_parsing_step_def stmt_defs)

theorem sensor_buffer_safe_witness:
  "\<exists>m. main_start (reset_sys env0 board0) = Some m \<and> faults (data_parsing_step 0x55 (sysm m)) = faults (sysm m)"
  using reach_env0 sensor_buffer_safe by blast

text \<open>
  In every reachable state the list of running timers has no duplicates and names only
  timers that exist, although timers are created, started, stopped and expire in any order.
\<close>

theorem timer_list_valid:
  assumes "reach m"
  shows "distinct (tm_list (tsys (tmr (sysm m)))) \<and>
    (\<forall>h \<in> set (tm_list (tsys (tmr (sysm m)))). tm_objs (tsys (tmr (sysm m))) h \<noteq> None)"
  using timers.reach_keeps [OF assms] by (auto simp: timers_ok_def timers_wf_def)

theorem timer_list_valid_witness:
  "\<exists>m. main_start (reset_sys env0 board0) = Some m \<and> distinct (tm_list (tsys (tmr (sysm m))))"
  using reach_env0 timer_list_valid by blast

end
