(* ===== verification/Settings.thy ===== *)
theory Settings
  imports Boot
begin

text \<open>
  The settings stay in their ranges, whatever keys are pressed in whatever window: weeks are at most 51,
  days at most 6, switches and the language 0 or 1, in the parameters and in the values being edited (the
  edited switches of the two periods have a third entry, exit). The backwash time has two ranges. The start
  sequence accepts up to 120 seconds; the editor counts between 30 and 100 and never leaves these limits
  once the value is inside. The hardness (edited in steps of 10 without an upper limit), the password and
  the offset of the calibration have no range in the code.
\<close>

definition backwash_ok :: "bool \<Rightarrow> u16 \<Rightarrow> bool" where
  "backwash_ok tight v \<longleftrightarrow> (if tight then 30 \<le> v \<and> v \<le> 100 else v \<le> 120)"

definition settings_ok :: "bool \<Rightarrow> sys \<Rightarrow> bool" where
  "settings_ok tight s \<longleftrightarrow>
     Reminder_Week (cfg s) \<le> 51 \<and> Reminder_Day (cfg s) \<le> 6 \<and> Reminder_Enable (cfg s) \<le> 1 \<and>
     Automatic_Week (cfg s) \<le> 51 \<and> Automatic_Day (cfg s) \<le> 6 \<and> Automatic_Enable (cfg s) \<le> 1 \<and>
     Deltapress_Enable (cfg s) \<le> 1 \<and> Setting_Deltapress (cfg s) \<le> 1 \<and> Setting_Language (cfg s) \<le> 1 \<and>
     backwash_ok tight (Setting_Backwashtime (cfg s)) \<and>
     Reminder_Week_Temp (edt s) \<le> 51 \<and> Reminder_Day_Temp (edt s) \<le> 6 \<and> Reminder_Enable_Temp (edt s) \<le> 2 \<and>
     Automatic_Week_Temp (edt s) \<le> 51 \<and> Automatic_Day_Temp (edt s) \<le> 6 \<and> Automatic_Enable_Temp (edt s) \<le> 2 \<and>
     Deltapress_Enable_Temp (edt s) \<le> 1 \<and> Set_Delta_Temp (edt s) \<le> 1 \<and> Set_Language_Temp (edt s) \<le> 1 \<and>
     backwash_ok tight (Set_Backwash_Temp (edt s))"

text \<open>The state in which a confirmed period is stored: the switch does not show the exit entry.\<close>

definition confirm_ok :: "bool \<Rightarrow> sys \<Rightarrow> bool" where
  "confirm_ok tight s \<longleftrightarrow> settings_ok tight s \<and> Automatic_Enable_Temp (edt s) \<le> 1"

definition confirm_rem_ok :: "bool \<Rightarrow> sys \<Rightarrow> bool" where
  "confirm_rem_ok tight s \<longleftrightarrow> settings_ok tight s \<and> Reminder_Enable_Temp (edt s) \<le> 1"

section \<open>Counting up and down\<close>

lemma count_down: "(v :: 'a :: len word) \<le> m \<Longrightarrow> (if v = 0 then m else v - 1) \<le> m"
  by (auto simp: word_le_nat_alt unat_minus_one)

lemma count_up: "(if v \<ge> m then 0 else v + 1) \<le> (m :: 'a :: len word)"
  by (auto simp: not_le intro: inc_le)

lemma lnot_le_1: "lnot x \<le> (1 :: u8)"
  by (simp add: lnot_def)

section \<open>What leaves the settings alone\<close>

lemma settings_frame [frame]:
  "cfg (timer_start sel s) = cfg s" "cfg (timer_stop sel s) = cfg s" "cfg (timer_set_time sel v s) = cfg s"
  "edt (timer_start sel s) = edt s" "edt (timer_stop sel s) = edt s" "edt (timer_set_time sel v s) = edt s"
  "cfg (timer_create upd f t s) = cfg s" "edt (timer_create upd f t s) = edt s"
  "cfg (Flash_Set i x s) = cfg s" "edt (Flash_Set i x s) = edt s"
  "cfg (take_key sk uk st s) = cfg s" "edt (take_key sk uk st s) = edt s"
  by (auto simp: timer_start_def timer_stop_def timer_set_time_def timer_create_def Flash_Set_def take_key_def
      add_fault_def split: option.split prod.split)

lemma settings_frame_ops [frame]:
  "cfg (take_keys s) = cfg s" "edt (take_keys s) = edt s" "cfg (Moto_Cycle s) = cfg s" "edt (Moto_Cycle s) = edt s"
  "cfg (SemJump s) = cfg s" "edt (SemJump s) = edt s" "cfg (ScreenTimerRefresh s) = cfg s" "edt (ScreenTimerRefresh s) = edt s"
  by (simp_all add: take_keys_def Moto_Cycle_def RTC_Clear_def ScreenTimerStop_def ScreenTimerRefresh_def moto_send_def
      led_defs pin_defs jumpe_def lcd_jump_send_def JumpToBatteryEmpty_def SemJump_def stmt_defs frame)

lemmas settings_prims = add_fault_def Tds_Work_def pin_defs rt_hw_cpu_reset_def

interpretation so: effects_part "settings_ok tight" for tight
  by unfold_locales (simp_all add: settings_ok_def settings_prims frame)

interpretation co: effects_part "confirm_ok tight" for tight
  by unfold_locales (simp_all add: confirm_ok_def settings_ok_def settings_prims frame)

interpretation cr: effects_part "confirm_rem_ok tight" for tight
  by unfold_locales (simp_all add: confirm_rem_ok_def settings_ok_def settings_prims frame)

section \<open>The editing statements\<close>

named_theorems edit_rules \<open>the statements that change a setting or a value being edited\<close>

lemma word_range:
  "(v :: u8) \<le> 2 \<Longrightarrow> v > 0 \<Longrightarrow> v - 1 \<le> 2" "(v :: u8) < 2 \<Longrightarrow> v + 1 \<le> 2"
  "(v :: u8) \<le> 1 \<Longrightarrow> v \<le> 2"
  by unat_arith+

lemma backwash_step:
  "backwash_ok tight w \<Longrightarrow> w > 30 \<Longrightarrow> backwash_ok tight (w - 1)" "backwash_ok tight w \<Longrightarrow> w < 100 \<Longrightarrow> backwash_ok tight (w + 1)"
  unfolding backwash_ok_def by (cases tight; simp; unat_arith)+

lemma edit_leaves [edit_rules]:
  "keeps (settings_ok tight) (\<lambda>s. edt_update (Reminder_Week_Temp_update (\<lambda>_. Reminder_Week (cfg s))) s)"
  "keeps (settings_ok tight) (\<lambda>s. edt_update (Reminder_Day_Temp_update (\<lambda>_. Reminder_Day (cfg s))) s)"
  "keeps (settings_ok tight) (\<lambda>s. edt_update (Reminder_Enable_Temp_update (\<lambda>_. Reminder_Enable (cfg s))) s)"
  "keeps (settings_ok tight) (edt_update (Reminder_Week_Temp_update (\<lambda>v. if v = 0 then 51 else v - 1)))"
  "keeps (settings_ok tight) (edt_update (Reminder_Week_Temp_update (\<lambda>v. if v \<ge> 51 then 0 else v + 1)))"
  "keeps (settings_ok tight) (edt_update (Reminder_Day_Temp_update (\<lambda>v. if v = 0 then 6 else v - 1)))"
  "keeps (settings_ok tight) (edt_update (Reminder_Day_Temp_update (\<lambda>v. if v \<ge> 6 then 0 else v + 1)))"
  "keeps (settings_ok tight) (\<lambda>s. edt_update (Automatic_Week_Temp_update (\<lambda>_. Automatic_Week (cfg s))) s)"
  "keeps (settings_ok tight) (\<lambda>s. edt_update (Automatic_Day_Temp_update (\<lambda>_. Automatic_Day (cfg s))) s)"
  "keeps (settings_ok tight) (\<lambda>s. edt_update (Automatic_Enable_Temp_update (\<lambda>_. Automatic_Enable (cfg s))) s)"
  "keeps (settings_ok tight) (edt_update (Automatic_Week_Temp_update (\<lambda>v. if v = 0 then 51 else v - 1)))"
  "keeps (settings_ok tight) (edt_update (Automatic_Week_Temp_update (\<lambda>v. if v \<ge> 51 then 0 else v + 1)))"
  "keeps (settings_ok tight) (edt_update (Automatic_Day_Temp_update (\<lambda>v. if v = 0 then 6 else v - 1)))"
  "keeps (settings_ok tight) (edt_update (Automatic_Day_Temp_update (\<lambda>v. if v \<ge> 6 then 0 else v + 1)))"
  "keeps (settings_ok tight) (\<lambda>s. edt_update (Deltapress_Enable_Temp_update (\<lambda>_. Deltapress_Enable (cfg s))) s)"
  "keeps (settings_ok tight) (\<lambda>s. edt_update (Deltapress_Enable_Temp_update (\<lambda>_. lnot (F s))) s)"
  "keeps (settings_ok tight) (\<lambda>s. edt_update (Set_Delta_Temp_update (\<lambda>_. Setting_Deltapress (cfg s))) s)"
  "keeps (settings_ok tight) (\<lambda>s. edt_update (Set_Delta_Temp_update (\<lambda>_. lnot (F s))) s)"
  "keeps (settings_ok tight) (\<lambda>s. edt_update (Set_Backwash_Temp_update (\<lambda>_. Setting_Backwashtime (cfg s))) s)"
  "keeps (settings_ok tight) (edt_update (Set_Hardness_Temp_update h))"
  "keeps (settings_ok tight) (\<lambda>s. edt_update (Set_Language_Temp_update (\<lambda>_. Setting_Language (cfg s))) s)"
  "keeps (settings_ok tight) (edt_update (Tds_Password_Temp_update k))"
  "keeps (settings_ok tight) (edt_update (TdsValueOffsetTemp_update h))"
  "keeps (settings_ok tight) (\<lambda>s. cfg_update (Deltapress_Enable_update (\<lambda>_. Deltapress_Enable_Temp (edt s))) s)"
  "keeps (settings_ok tight) (\<lambda>s. cfg_update (Setting_Deltapress_update (\<lambda>_. Set_Delta_Temp (edt s))) s)"
  "keeps (settings_ok tight) (\<lambda>s. cfg_update (Setting_Backwashtime_update (\<lambda>_. Set_Backwash_Temp (edt s))) s)"
  "keeps (settings_ok tight) (\<lambda>s. cfg_update (Setting_Hardness_update (L s)) s)"
  "keeps (settings_ok tight) (cfg_update (Setting_Language_update (\<lambda>_. 0)))"
  "keeps (settings_ok tight) (cfg_update (Setting_Language_update (\<lambda>_. 1)))"
  by (simp_all add: keeps_def settings_ok_def count_down count_up lnot_le_1 word_range)

lemma edit_guards [edit_rules]:
  "keeps (settings_ok tight) (ifS (\<lambda>s. Reminder_Enable_Temp (edt s) > 0) (edt_update (Reminder_Enable_Temp_update (\<lambda>v. v - 1))) (edt_update (Reminder_Enable_Temp_update (\<lambda>_. 2))))"
  "keeps (settings_ok tight) (ifS (\<lambda>s. Reminder_Enable_Temp (edt s) < 2) (edt_update (Reminder_Enable_Temp_update (\<lambda>v. v + 1))) (edt_update (Reminder_Enable_Temp_update (\<lambda>_. 0))))"
  "keeps (settings_ok tight) (ifS (\<lambda>s. Automatic_Enable_Temp (edt s) > 0) (edt_update (Automatic_Enable_Temp_update (\<lambda>v. v - 1))) (edt_update (Automatic_Enable_Temp_update (\<lambda>_. 2))))"
  "keeps (settings_ok tight) (ifS (\<lambda>s. Automatic_Enable_Temp (edt s) < 2) (edt_update (Automatic_Enable_Temp_update (\<lambda>v. v + 1))) (edt_update (Automatic_Enable_Temp_update (\<lambda>_. 0))))"
  "keeps (settings_ok tight) (whenS (\<lambda>s. Set_Backwash_Temp (edt s) > 30) (edt_update (Set_Backwash_Temp_update (\<lambda>v. v - 1))))"
  "keeps (settings_ok tight) (whenS (\<lambda>s. Set_Backwash_Temp (edt s) < 100) (edt_update (Set_Backwash_Temp_update (\<lambda>v. v + 1))))"
  by (simp_all add: keeps_def stmt_defs settings_ok_def word_range backwash_step)

lemma confirm_leaves [edit_rules]:
  "keeps (confirm_ok tight) (edt_update (Automatic_Day_Temp_update (\<lambda>_. 1)))"
  "keeps (confirm_ok tight) (\<lambda>s. cfg_update (Automatic_Week_update (\<lambda>_. Automatic_Week_Temp (edt s))) s)"
  "keeps (confirm_ok tight) (\<lambda>s. cfg_update (Automatic_Day_update (\<lambda>_. Automatic_Day_Temp (edt s))) s)"
  "keeps (confirm_ok tight) (\<lambda>s. cfg_update (Automatic_Enable_update (\<lambda>_. Automatic_Enable_Temp (edt s))) s)"
  "keeps (confirm_rem_ok tight) (edt_update (Reminder_Day_Temp_update (\<lambda>_. 1)))"
  "keeps (confirm_rem_ok tight) (\<lambda>s. cfg_update (Reminder_Week_update (\<lambda>_. Reminder_Week_Temp (edt s))) s)"
  "keeps (confirm_rem_ok tight) (\<lambda>s. cfg_update (Reminder_Day_update (\<lambda>_. Reminder_Day_Temp (edt s))) s)"
  "keeps (confirm_rem_ok tight) (\<lambda>s. cfg_update (Reminder_Enable_update (\<lambda>_. Reminder_Enable_Temp (edt s))) s)"
  by (simp_all add: keeps_def confirm_ok_def confirm_rem_ok_def settings_ok_def)

section \<open>The editing windows\<close>

text \<open>A branch in which a stronger property holds and is kept.\<close>

lemma keeps_ifS_else:
  "keeps P f \<Longrightarrow> keeps Q g \<Longrightarrow> (\<And>s. P s \<Longrightarrow> \<not> c s \<Longrightarrow> Q s) \<Longrightarrow> (\<And>s. Q s \<Longrightarrow> P s) \<Longrightarrow> keeps P (ifS c f g)"
  by (simp add: keeps_def ifS_def)

lemma confirmI: "settings_ok tight s \<Longrightarrow> Automatic_Enable_Temp (edt s) \<noteq> 2 \<Longrightarrow> confirm_ok tight s"
  "settings_ok tight s \<Longrightarrow> Reminder_Enable_Temp (edt s) \<noteq> 2 \<Longrightarrow> confirm_rem_ok tight s"
  unfolding confirm_ok_def confirm_rem_ok_def settings_ok_def by (simp_all, unat_arith+)

lemma confirmD: "confirm_ok tight s \<Longrightarrow> settings_ok tight s" "confirm_rem_ok tight s \<Longrightarrow> settings_ok tight s"
  by (simp_all add: confirm_ok_def confirm_rem_ok_def)

lemma edit_confirm [edit_rules]:
  "keeps (settings_ok tight) f \<Longrightarrow> keeps (confirm_ok tight) g \<Longrightarrow> keeps (settings_ok tight) (ifS (\<lambda>s. Automatic_Enable_Temp (edt s) = 2) f g)"
  "keeps (settings_ok tight) f \<Longrightarrow> keeps (confirm_rem_ok tight) g \<Longrightarrow> keeps (settings_ok tight) (ifS (\<lambda>s. Reminder_Enable_Temp (edt s) = 2) f g)"
  by (rule keeps_ifS_else [where Q = "confirm_ok tight"]; (assumption | erule confirmD | erule (1) confirmI))
    (rule keeps_ifS_else [where Q = "confirm_rem_ok tight"]; (assumption | erule confirmD | erule (1) confirmI))

lemma settings_win4: "keeps (settings_ok tight) disp \<Longrightarrow> keeps (settings_ok tight) (UserMain4WinFun disp)"
  unfolding UserMain4WinFun_def Win4_first_def Win4_keys_def
  by (intro edit_rules keeps_rules; simp)

lemma settings_win5: "keeps (settings_ok tight) disp \<Longrightarrow> keeps (settings_ok tight) (UserMain5WinFun disp)"
  unfolding UserMain5WinFun_def Win5_first_def Win5_keys_def
  by (intro edit_rules keeps_rules; simp)

lemma settings_win6: "keeps (settings_ok tight) disp \<Longrightarrow> keeps (settings_ok tight) (UserMain6WinFun disp)"
  unfolding UserMain6WinFun_def Win6_first_def Win6_keys_def
  by (intro edit_rules keeps_rules; simp)

lemma settings_win15: "keeps (settings_ok tight) disp \<Longrightarrow> keeps (settings_ok tight) (UserMain15WinFun disp)"
  unfolding UserMain15WinFun_def Win15_first_def Win15_keys_def
  by (intro edit_rules keeps_rules; simp)

lemma settings_win16: "keeps (settings_ok tight) disp \<Longrightarrow> keeps (settings_ok tight) (UserMain16WinFun disp)"
  unfolding UserMain16WinFun_def Win16_first_def Win16_keys_def
  by (intro edit_rules keeps_rules; simp)

lemma settings_win17: "keeps (settings_ok tight) disp \<Longrightarrow> keeps (settings_ok tight) (UserMain17WinFun disp)"
  unfolding UserMain17WinFun_def Win17_first_def Win17_keys_def
  by (intro edit_rules keeps_rules; simp)

lemma settings_win20: "keeps (settings_ok tight) disp \<Longrightarrow> keeps (settings_ok tight) (UserMain20WinFun disp)"
  unfolding UserMain20WinFun_def Win20_first_def Win20_keys_def
  by (intro edit_rules keeps_rules; simp)

lemma settings_win21: "keeps (settings_ok tight) disp \<Longrightarrow> keeps (settings_ok tight) (UserMain21WinFun disp)"
  unfolding UserMain21WinFun_def Win21_first_def Win21_keys_def
  by (intro edit_rules keeps_rules; simp)

lemma settings_win24: "keeps (settings_ok tight) disp \<Longrightarrow> keeps (settings_ok tight) (UserMain24WinFun disp)"
  unfolding UserMain24WinFun_def Win24_first_def Win24_keys_def
  by (intro edit_rules keeps_rules; simp)

section \<open>The display task\<close>

interpretation so: task_part "settings_ok tight" for tight
proof unfold_locales
  fix s d assume ok: "settings_ok tight s"
  show "settings_ok tight (kys_update (Delta_press_work_Flag_update d) s)" using ok by (simp add: settings_ok_def)
  show "settings_ok tight (ScreenTimerRefresh s)" using ok by (simp add: settings_ok_def frame)
  have prim: "keeps (settings_ok tight) (rt_pin_write p v)" "keeps (settings_ok tight) (rt_pin_mode p m)"
    "keeps (settings_ok tight) (ui_update u)" for p v m u
    by (simp_all add: keeps_def settings_ok_def pin_defs)
  have "keeps (settings_ok tight) LcdInit"
    unfolding LcdInit_def LcdGpioConfig_def
    by (intro keeps_block_Cons keeps_block_Nil prim so.keeps_lcd_bytes so.keeps_clear_screen)
  then have "keeps (settings_ok tight) OpenLcdDisplay"
    unfolding OpenLcdDisplay_def by (intro keeps_rules prim)
  then show "settings_ok tight (OpenLcdDisplay s)" using ok by (rule keepsD)
qed (auto intro: settings_win4 settings_win5 settings_win6 settings_win15 settings_win16 settings_win17
    settings_win20 settings_win21 settings_win24)

section \<open>Two buffers that are too small\<close>

text \<open>
  \<open>weekstring\<close> and \<open>daystring\<close> have three bytes, and the windows of the two periods print \<open>Weeks:00\<close> and
  \<open>Days:00\<close> into them. Every time one of these windows is opened both writes go past the end.
\<close>

definition overflowed :: "string \<Rightarrow> sys \<Rightarrow> bool" where
  "overflowed buf s \<longleftrightarrow> (\<exists>n > 3. BufOverflow buf 3 n \<in> set (faults s))"

interpretation ov: gui_part "overflowed buf" for buf
  by unfold_locales (auto simp: overflowed_def settings_prims)

lemma block_later: "(\<And>s. P (block fs s)) \<Longrightarrow> P (block (f # fs) s)"
  by simp

lemma block_now: "(\<And>s. P (f s)) \<Longrightarrow> keeps P (block fs) \<Longrightarrow> P (block (f # fs) s)"
  by (simp add: keeps_def)

lemma sprintf_overflows: "3 \<le> length txt \<Longrightarrow> overflowed buf (sprintf_to buf 3 txt s)"
  by (auto simp: overflowed_def sprintf_to_def add_fault_def intro!: exI [of _ "Suc (length txt)"])

lemma overflowed_edt: "keeps (overflowed buf) (\<lambda>s. edt_update (f s) s)"
  by (simp add: keeps_def overflowed_def)

lemma period_windows_overflow:
  "overflowed ''weekstring'' (Win4_first s)" "overflowed ''daystring'' (Win4_first s)"
  "overflowed ''weekstring'' (Win5_first s)" "overflowed ''daystring'' (Win5_first s)"
  unfolding Win4_first_def Win5_first_def
  by (((rule block_now, rule sprintf_overflows, simp, intro keeps_rules overflowed_edt; fail) | rule block_later)+)

section \<open>The ranges\<close>

text \<open>
  C4. A turn of the display task, whatever window is open, whatever keys wait and whatever jump is
  requested, keeps these settings and the values edited for them in their ranges: the weeks of the two
  periods (at most 51), their days (at most 6), their switches (at most 1; while edited, 2 is the exit
  entry), the switches of the pressure sensor and the language (at most 1), and the backwash time: if it
  and the value edited for it are at most 120 seconds they stay so, and if both are between 30 and 100 seconds
  they stay between 30 and 100.
  The hardness, the password and the calibration offset have no range and are not meant.
\<close>

theorem settings_stay_in_range: "settings_ok tight s \<Longrightarrow> settings_ok tight (lcd_pass s)"
  by (rule keepsD [OF so.keeps_lcd_pass])

definition backwash_60 :: "sys \<Rightarrow> sys" where
  "backwash_60 s = cfg_update (Setting_Backwashtime_update (\<lambda>_. 60)) (edt_update (Set_Backwash_Temp_update (\<lambda>_. 60)) s)"

theorem settings_stay_in_range_witness:
  "settings_ok False sys0 \<and> settings_ok False (lcd_pass sys0) \<and>
   settings_ok True (backwash_60 sys0) \<and> settings_ok True (lcd_pass (backwash_60 sys0))"
proof -
  have "settings_ok False sys0" "settings_ok True (backwash_60 sys0)"
    by (simp_all add: settings_ok_def sys0_def reset_sys_def backwash_ok_def backwash_60_def)
  with settings_stay_in_range [of False sys0] settings_stay_in_range [of True "backwash_60 sys0"] show ?thesis by simp
qed

end
