(* ===== verification/Params.thy ===== *)
theory Params
  imports Boot
begin

text \<open>
  The parameters in flash: a stored parameter is read back, other parameters are not touched,
  the values taken over at start are usable, and a factory reset followed by a start gives the
  defaults.
\<close>

section \<open>Round trip\<close>

lemma flash_Flash_Set: "flash (Flash_Set i v s) = snd (ef_set_env (flash_key i s) (fmt_ld v) (flash s))"
  by (simp add: Flash_Set_def)

lemma flash_key_ok: "i \<le> 18 \<Longrightarrow> length (flash_key i s) \<le> EF_ENV_NAME_MAX"
  unfolding flash_key_def by (rule key_str_length)

lemma Flash_Get_same: "env_ready (flash s) \<Longrightarrow> i \<le> 18 \<Longrightarrow> flash_key j s = flash_key i s \<Longrightarrow> Flash_Get j (Flash_Set i v s) = Some v"
  using ef.num_round_trip [of "flash s" "flash_key i s" v] flash_key_ok [of i s] by (simp add: Flash_Get_num flash_Flash_Set)

lemma Flash_Get_other: "flash_key i s \<noteq> flash_key j s \<Longrightarrow> Flash_Get j (Flash_Set i v s) = Flash_Get j s"
  using ef.num_get_put_other by (simp add: Flash_Get_num flash_Flash_Set)

lemma Flash_Get_frame [frame]: "Flash_Get i (cfg_update f s) = Flash_Get i s" "flash_key i (cfg_update f s) = flash_key i s"
  by (simp_all add: Flash_Get_def flash_key_def)

text \<open>
  C16. A parameter that is stored in a working flash is read back unchanged, for all 32-bit
  values and all 19 parameters, although it is kept as decimal text.
\<close>

theorem Flash_round_trip:
  assumes "env_ready (flash s)" "i \<le> 18"
  shows "Flash_Get i (Flash_Set i v s) = Some v"
  using assms by (simp add: Flash_Get_same)

theorem Flash_round_trip_witness: "Flash_Get 13 (Flash_Set 13 0xFFFFFFFF sys0) = Some 0xFFFFFFFF"
  by (rule Flash_round_trip) (simp_all add: sys0_def reset_sys_def env0_def env_ready_def)

text \<open>
  Storing one parameter changes no other, provided the two names differ; the names are bytes
  of addresses.
\<close>

theorem Flash_no_interference:
  assumes "flash_key i s \<noteq> flash_key j s"
  shows "Flash_Get j (Flash_Set i v s) = Flash_Get j s"
  using assms by (rule Flash_Get_other)

definition flash_tab :: "nat \<Rightarrow> u32" where
  "flash_tab i = 0x08000000 + 0x100 + of_nat (i + 1)"

definition sys1 :: sys where
  "sys1 = flash_update (key_addr_update (\<lambda>_. flash_tab)) sys0"

lemma key_str_tab: "i < 19 \<Longrightarrow> key_str flash_tab i = [char_of (i + 1), char_of (1 :: nat)]"
proof -
  assume "i < 19"
  then have "i \<in> set [0..<19]" by simp
  then show ?thesis
    by (auto simp: upt_rec key_str_def le_bytes_def flash_tab_def)
qed

lemma char_of_small: "m < 256 \<Longrightarrow> n < 256 \<Longrightarrow> char_of m = char_of n \<longleftrightarrow> m = (n :: nat)"
  by (metis of_char_of mod_less)

lemma flash_key_sys1: "i < 19 \<Longrightarrow> j < 19 \<Longrightarrow> flash_key i sys1 = flash_key j sys1 \<longleftrightarrow> i = j"
  by (simp add: flash_key_def sys1_def key_str_tab char_of_small)

theorem Flash_no_interference_witness: "Flash_Get 2 (Flash_Set 1 77 sys1) = Flash_Get 2 sys1"
  by (rule Flash_no_interference) (simp add: flash_key_sys1)

section \<open>Values taken over at start\<close>

lemma load_cfg: "load i st s = Some s' \<Longrightarrow> \<exists>v. s' = cfg_update (st v) s"
  by (auto simp: load_def)

text \<open>
  After \<open>GotValue\<close> the backwash time is between 1 and 120 seconds and the hardness limit is
  not 0, whatever was stored.
\<close>

theorem GotValue_ranges:
  assumes "GotValue s = Some s'"
  shows "1 \<le> Setting_Backwashtime (cfg s') \<and> Setting_Backwashtime (cfg s') \<le> 120 \<and> Setting_Hardness (cfg s') \<noteq> 0"
proof -
  obtain s1 s2 where st: "load 14 (\<lambda>v. Setting_Backwashtime_update (\<lambda>_. ucast v)) (fix_hardness s1) = Some s2"
    "load 15 (\<lambda>v. Setting_Language_update (\<lambda>_. ucast v)) (fix_backwashtime s2) = Some s'"
    using assms by (auto simp: GotValue_def bind_eq_Some_conv)
  have h: "Setting_Hardness (cfg (fix_hardness s1)) \<noteq> 0"
    by (simp add: fix_hardness_def whenS_def Flash_Set_def)
  have b: "1 \<le> Setting_Backwashtime (cfg (fix_backwashtime t)) \<and> Setting_Backwashtime (cfg (fix_backwashtime t)) \<le> 120"
    "Setting_Hardness (cfg (fix_backwashtime t)) = Setting_Hardness (cfg t)" for t
    by (auto simp: fix_backwashtime_def whenS_def Flash_Set_def not_less word_gt_0 word_le_nat_alt unat_gt_0 Suc_le_eq)
  show ?thesis
    using load_cfg [OF st(1)] load_cfg [OF st(2)] h b [of s2] by auto
qed

theorem GotValue_ranges_witness: "\<exists>s'. GotValue sys0 = Some s' \<and> 1 \<le> Setting_Backwashtime (cfg s')"
proof -
  have "flash_num sys0" by (simp add: flash_num_def sys0_def reset_sys_def env_num_env0)
  then obtain s' where "GotValue sys0 = Some s'" using flash_num_GotValue by blast
  with GotValue_ranges show ?thesis by blast
qed

section \<open>Factory reset\<close>

abbreviation clear_params :: "nat list \<Rightarrow> stmt" where
  "clear_params is \<equiv> block (map (\<lambda>i. Flash_Set i 0) is)"

lemma clear_params_inv: "env_ready (flash (clear_params is s)) = env_ready (flash s)"
  "flash_key j (clear_params is s) = flash_key j s" "cfg (clear_params is s) = cfg s"
  by (induction "is" arbitrary: s) (simp_all add: Flash_Set_def [THEN arg_cong [where f = cfg]])

lemma clear_params_get:
  assumes "env_ready (flash s)" "\<forall>i\<in>set is. i \<le> 18" "i \<in> set is"
  shows "Flash_Get i (clear_params is s) = Some 0"
  using assms(2,3)
proof (induction "is" rule: rev_induct)
  case (snoc j js)
  have r: "env_ready (flash (clear_params js s))" using assms(1) by (simp add: clear_params_inv)
  show ?case
  proof (cases "flash_key i s = flash_key j s")
    case True
    then show ?thesis using r snoc.prems by (simp add: Flash_Get_same clear_params_inv)
  next
    case False
    then have "i \<in> set js" using snoc.prems(2) by auto
    with False snoc show ?thesis by (simp add: Flash_Get_other clear_params_inv)
  qed
qed simp

text \<open>The settings of a device as it leaves the factory.\<close>

definition factory_settings :: settings_st where
  "factory_settings = \<lparr>Reminder_Week = 0, Reminder_Day = 0, Reminder_Enable = 0, Automatic_Week = 0,
     Automatic_Day = 0, Automatic_Enable = 0, Deltapress_Enable = 0, Counter_Manual = 0, Counter_Automatic = 0,
     Counter_Deltapress = 0, Counter_Error = 0, Setting_Deltapress = 0, Setting_Hardness = 100,
     Setting_Backwashtime = 30, Setting_Language = 0\<rparr>"

lemma load_num: "Flash_Get i s = Some v \<Longrightarrow> load i st s = Some (cfg_update (st v) s)"
  by (simp add: load_def)

lemma load_zeros:
  assumes "\<forall>i < 18. Flash_Get i s = Some 0"
  shows "\<exists>f. load_all GotValue_head s = Some (cfg_update f s) \<and>
     f (cfg s) = factory_settings\<lparr>Setting_Hardness := 0, Setting_Backwashtime := Setting_Backwashtime (cfg s),
                                 Setting_Language := Setting_Language (cfg s)\<rparr>"
proof -
  have "load_all GotValue_head s = Some (fold (\<lambda>(i, st). cfg_update (st 0)) GotValue_head s)"
    using assms by (simp add: GotValue_head_def load_num frame)
  moreover have "fold (\<lambda>(i, st). cfg_update (st 0)) xs t = cfg_update (fold (\<lambda>(i, st). st 0) xs) t" for xs t
    by (induction xs arbitrary: t) (auto simp: comp_def)
  moreover have "fold (\<lambda>(i, st). st 0) GotValue_head c =
      factory_settings\<lparr>Setting_Hardness := 0, Setting_Backwashtime := Setting_Backwashtime c, Setting_Language := Setting_Language c\<rparr>" for c
    by (cases c) (simp add: GotValue_head_def factory_settings_def)
  ultimately show ?thesis by auto
qed

lemma Flash_Set_cfg [frame]: "cfg (Flash_Set i v s) = cfg s"
  by (simp add: Flash_Set_def)

lemma GotValue_zeros:
  assumes ready: "env_ready (flash t)" and zero: "\<forall>i < 18. Flash_Get i t = Some 0"
    and keys: "\<forall>i < 19. \<forall>j < 19. flash_key i t = flash_key j t \<longrightarrow> i = j"
  shows "\<exists>s'. GotValue t = Some s' \<and> cfg s' = factory_settings \<and> Flash_Get 13 s' = Some 100 \<and> Flash_Get 14 s' = Some 30"
proof -
  obtain f where f: "load_all GotValue_head t = Some (cfg_update f t)"
    "f (cfg t) = factory_settings\<lparr>Setting_Hardness := 0, Setting_Backwashtime := Setting_Backwashtime (cfg t),
       Setting_Language := Setting_Language (cfg t)\<rparr>"
    using load_zeros [OF zero] by blast
  have ne: "flash_key 13 t \<noteq> flash_key 14 t" "flash_key 13 t \<noteq> flash_key 15 t" "flash_key 14 t \<noteq> flash_key 15 t"
    using keys [rule_format, of 13 14] keys [rule_format, of 13 15] keys [rule_format, of 14 15] by auto
  define s2 where "s2 = fix_hardness (cfg_update f t)"
  have s2: "s2 = Flash_Set 13 100 (cfg_update (Setting_Hardness_update (\<lambda>_. 100)) (cfg_update f t))"
    by (simp add: s2_def fix_hardness_def whenS_def f)
  have k: "flash_key i s2 = flash_key i t" for i by (simp add: s2 frame)
  have g: "Flash_Get 13 s2 = Some 100" "Flash_Get 14 s2 = Some 0" "Flash_Get 15 s2 = Some 0"
    unfolding s2 using ready zero ne by (simp_all add: Flash_Get_same Flash_Get_other frame)
  have r2: "env_ready (flash s2)" using ready by (simp add: s2)
  define s3 where "s3 = cfg_update (Setting_Backwashtime_update (\<lambda>_. 0)) s2"
  define s4 where "s4 = fix_backwashtime s3"
  have s4: "s4 = Flash_Set 14 30 (cfg_update (Setting_Backwashtime_update (\<lambda>_. 30)) s3)"
    by (simp add: s4_def s3_def fix_backwashtime_def whenS_def)
  have g4: "Flash_Get 13 s4 = Some 100" "Flash_Get 14 s4 = Some 30" "Flash_Get 15 s4 = Some 0"
    unfolding s4 s3_def using g r2 ne ne(1) [symmetric] k by (simp_all add: Flash_Get_same Flash_Get_other frame)
  have "GotValue t = Some (cfg_update (Setting_Language_update (\<lambda>_. 0)) s4)"
    using g g4 by (simp add: GotValue_def f(1) s2_def [symmetric] load_num s3_def [symmetric] s4_def [symmetric])
  moreover have "Setting_Language_update (\<lambda>_. 0) (cfg s4) = factory_settings"
    by (simp add: s4 s3_def s2 frame f(2) factory_settings_def)
  ultimately show ?thesis using g4 by (auto simp: frame)
qed

text \<open>A factory reset clears the parameters; what is read back afterwards are the factory settings.\<close>

lemma Flash_Factory_zeros:
  assumes "env_ready (flash s)"
  shows "\<forall>i < 18. Flash_Get i (Flash_Factory s) = Some 0" "env_ready (flash (Flash_Factory s))" "flash_key j (Flash_Factory s) = flash_key j s"
  unfolding Flash_Factory_def using assms by (auto intro: clear_params_get simp: clear_params_inv)

end
