(* ===== verification/Saved.thy ===== *)
theory Saved
  imports Settings Params
begin

text \<open>
  The settings in use are the settings in flash: every window that changes one stores it in the
  same turn, so that a loss of power at any time between two turns of the display task costs none.
\<close>

section \<open>The invariant\<close>

definition setting :: "nat \<Rightarrow> settings_st \<Rightarrow> u32" where
  "setting i c =
     (if i = 1 then ucast (Reminder_Week c) else if i = 2 then ucast (Reminder_Day c)
      else if i = 3 then ucast (Reminder_Enable c) else if i = 4 then ucast (Automatic_Week c)
      else if i = 5 then ucast (Automatic_Day c) else if i = 6 then ucast (Automatic_Enable c)
      else if i = 7 then ucast (Deltapress_Enable c) else if i = 12 then ucast (Setting_Deltapress c)
      else if i = 13 then Setting_Hardness c else if i = 14 then ucast (Setting_Backwashtime c)
      else ucast (Setting_Language c))"

abbreviation setting_ids :: "nat set" where
  "setting_ids \<equiv> {1, 2, 3, 4, 5, 6, 7, 12, 13, 14, 15}"

text \<open>The flash works, holds a number under every name the firmware reads, under the names of the settings
  their values, and the names differ.\<close>

definition stored :: "settings_st \<Rightarrow> sys \<Rightarrow> bool" where
  "stored c s \<longleftrightarrow> env_ready (flash s) \<and> flash_num s \<and>
     (\<forall>i < 19. flash_key i s \<noteq> ''boot_times'' \<and> (\<forall>j < 19. flash_key i s = flash_key j s \<longrightarrow> i = j)) \<and>
     (\<forall>i\<in>setting_ids. Flash_Get i s = Some (setting i c))"

definition settings_saved :: "sys \<Rightarrow> bool" where
  "settings_saved s \<longleftrightarrow> cpu_reset (board s) \<or> stored (cfg s) s"

lemma stored_flash: "flash t = flash s \<Longrightarrow> stored c t = stored c s"
  by (simp add: stored_def Flash_Get_def flash_key_def flash_num_def)

lemma saved_frame: "settings_saved s \<Longrightarrow> flash t = flash s \<Longrightarrow> cpu_reset (board t) = cpu_reset (board s) \<Longrightarrow>
    (\<And>i. i \<in> setting_ids \<Longrightarrow> setting i (cfg t) = setting i (cfg s)) \<Longrightarrow> settings_saved t"
  using stored_flash [of t s "cfg s"] by (auto simp: settings_saved_def stored_def)

text \<open>Storing one parameter.\<close>

lemma board_Flash_Set [frame]: "board (Flash_Set i v s) = board s"
  by (simp add: Flash_Set_def)

lemma stored_Flash_Set:
  assumes "stored c s" "i < 19" "\<And>j. j \<in> setting_ids \<Longrightarrow> setting j d = (if j = i then v else setting j c)"
  shows "stored d (Flash_Set i v s)"
proof -
  have d: "flash_key i s \<noteq> flash_key j s" if "j < 19" "j \<noteq> i" for j using assms(1,2) that by (auto simp: stored_def)
  have get: "Flash_Get j (Flash_Set i v s) = (if j = i then Some v else Flash_Get j s)" if "j < 19" for j
    using assms(1,2) d [OF that] that by (simp add: Flash_Get_same Flash_Get_other stored_def)
  have k: "flash_key j (Flash_Set i v s) = flash_key j s" for j by simp
  have r: "env_ready (flash (Flash_Set i v s))" "flash_num (Flash_Set i v s)"
    using assms(1) by (simp_all add: stored_def flash_num_Flash_Set)
  show ?thesis using assms(1,3) r unfolding stored_def k by (auto simp: get)
qed

lemma saved_pair:
  assumes "i < 19" "\<And>s j. j \<in> setting_ids \<Longrightarrow> setting j (f s (cfg s)) = (if j = i then v (cfg_update (f s) s) else setting j (cfg s))"
  shows "keeps settings_saved (block r) \<Longrightarrow> keeps settings_saved (block ((\<lambda>s. cfg_update (f s) s) # (\<lambda>s. Flash_Set i (v s) s) # r))"
proof -
  have "settings_saved (Flash_Set i (v (cfg_update (f s) s)) (cfg_update (f s) s))" if "settings_saved s" for s
    using that stored_Flash_Set [of "cfg s" "cfg_update (f s) s" i "f s (cfg s)" "v (cfg_update (f s) s)"] assms
    by (auto simp: settings_saved_def frame stored_flash [of "cfg_update (f s) s" s])
  then show "keeps settings_saved (block r) \<Longrightarrow> keeps settings_saved (block ((\<lambda>s. cfg_update (f s) s) # (\<lambda>s. Flash_Set i (v s) s) # r))"
    by (simp add: keeps_def)
qed

section \<open>What leaves flash and settings alone\<close>

lemma flash_frame [frame]:
  "flash (timer_stop sel s) = flash s" "flash (timer_set_time sel v s) = flash s" "flash (take_key sk uk st s) = flash s"
  "cpu_reset (board (timer_stop sel s)) = cpu_reset (board s)" "cpu_reset (board (timer_set_time sel v s)) = cpu_reset (board s)"
  "cpu_reset (board (take_key sk uk st s)) = cpu_reset (board s)" "cpu_reset (board (timer_start sel s)) = cpu_reset (board s)"
  "cpu_reset (board (timer_create upd f t s)) = cpu_reset (board s)"
  by (auto simp: timer_stop_def timer_set_time_def timer_start_def timer_create_def take_key_def add_fault_def
      split: option.split prod.split)

lemma flash_frame_ops [frame]:
  "flash (take_keys s) = flash s" "flash (Moto_Cycle s) = flash s" "flash (SemJump s) = flash s" "flash (ScreenTimerRefresh s) = flash s"
  "cpu_reset (board (take_keys s)) = cpu_reset (board s)" "cpu_reset (board (Moto_Cycle s)) = cpu_reset (board s)"
  "cpu_reset (board (SemJump s)) = cpu_reset (board s)" "cpu_reset (board (ScreenTimerRefresh s)) = cpu_reset (board s)"
  by (simp_all add: take_keys_def Moto_Cycle_def RTC_Clear_def ScreenTimerStop_def ScreenTimerRefresh_def moto_send_def
      led_defs pin_defs jumpe_def lcd_jump_send_def JumpToBatteryEmpty_def SemJump_def stmt_defs frame)

interpretation sv: window_effects settings_saved
proof unfold_locales
  fix i v s assume i: "i \<in> {8, 9, 10, 11, 16, 17, 18 :: nat}" and s: "settings_saved s"
  have "j \<noteq> i" if "j \<in> setting_ids" for j using i that by auto
  moreover have "i < 19" using i by auto
  ultimately have "stored (cfg s) (Flash_Set i v s)" if "stored (cfg s) s"
    by (intro stored_Flash_Set [OF that]) simp_all
  with s show "settings_saved (Flash_Set i v s)" by (auto simp: settings_saved_def frame)
next
  fix s
  show "settings_saved (rt_hw_cpu_reset (Flash_Factory s))" "settings_saved (rt_hw_cpu_reset s)"
    by (simp_all add: settings_saved_def rt_hw_cpu_reset_def)
qed (erule saved_frame; simp add: settings_prims frame setting_def)+

section \<open>The editing windows\<close>

named_theorems save_rules \<open>a setting that is changed and stored\<close>

lemma save_edit [save_rules]: "keeps settings_saved (\<lambda>s. edt_update (E s) s)"
  by (auto simp: keeps_def intro: saved_frame)

lemma save_pairs [save_rules]:
  fixes r :: "stmt list"
  assumes "keeps settings_saved (block r)"
  shows "keeps settings_saved (block ((\<lambda>s. cfg_update (Reminder_Week_update (\<lambda>_. Reminder_Week_Temp (edt s))) s) # (\<lambda>s. Flash_Set 1 (ucast (Reminder_Week_Temp (edt s))) s) # r))"
    "keeps settings_saved (block ((\<lambda>s. cfg_update (Reminder_Day_update (\<lambda>_. Reminder_Day_Temp (edt s))) s) # (\<lambda>s. Flash_Set 2 (ucast (Reminder_Day_Temp (edt s))) s) # r))"
    "keeps settings_saved (block ((\<lambda>s. cfg_update (Reminder_Enable_update (\<lambda>_. Reminder_Enable_Temp (edt s))) s) # (\<lambda>s. Flash_Set 3 (ucast (Reminder_Enable_Temp (edt s))) s) # r))"
    "keeps settings_saved (block ((\<lambda>s. cfg_update (Automatic_Week_update (\<lambda>_. Automatic_Week_Temp (edt s))) s) # (\<lambda>s. Flash_Set 4 (ucast (Automatic_Week_Temp (edt s))) s) # r))"
    "keeps settings_saved (block ((\<lambda>s. cfg_update (Automatic_Day_update (\<lambda>_. Automatic_Day_Temp (edt s))) s) # (\<lambda>s. Flash_Set 5 (ucast (Automatic_Day_Temp (edt s))) s) # r))"
    "keeps settings_saved (block ((\<lambda>s. cfg_update (Automatic_Enable_update (\<lambda>_. Automatic_Enable_Temp (edt s))) s) # (\<lambda>s. Flash_Set 6 (ucast (Automatic_Enable_Temp (edt s))) s) # r))"
    "keeps settings_saved (block ((\<lambda>s. cfg_update (Deltapress_Enable_update (\<lambda>_. Deltapress_Enable_Temp (edt s))) s) # (\<lambda>s. Flash_Set 7 (ucast (Deltapress_Enable_Temp (edt s))) s) # r))"
    "keeps settings_saved (block ((\<lambda>s. cfg_update (Setting_Deltapress_update (\<lambda>_. Set_Delta_Temp (edt s))) s) # (\<lambda>s. Flash_Set 12 (ucast (Set_Delta_Temp (edt s))) s) # r))"
    "keeps settings_saved (block ((\<lambda>s. cfg_update (Setting_Hardness_update (\<lambda>_. ucast (Set_Hardness_Temp (edt s)))) s) # (\<lambda>s. Flash_Set 13 (ucast (Set_Hardness_Temp (edt s))) s) # r))"
    "keeps settings_saved (block ((\<lambda>s. cfg_update (Setting_Backwashtime_update (\<lambda>_. Set_Backwash_Temp (edt s))) s) # (\<lambda>s. Flash_Set 14 (ucast (Set_Backwash_Temp (edt s))) s) # r))"
    "keeps settings_saved (block ((\<lambda>s. cfg_update (Setting_Language_update (\<lambda>_. l)) s) # (\<lambda>s. Flash_Set 15 (ucast (Setting_Language (cfg s))) s) # r))"
  by (rule saved_pair; (rule assms)?; auto simp: setting_def)+

lemma saved_windows:
  assumes "keeps settings_saved disp"
  shows "keeps settings_saved (UserMain4WinFun disp)" "keeps settings_saved (UserMain5WinFun disp)"
    "keeps settings_saved (UserMain6WinFun disp)" "keeps settings_saved (UserMain15WinFun disp)"
    "keeps settings_saved (UserMain16WinFun disp)" "keeps settings_saved (UserMain17WinFun disp)"
    "keeps settings_saved (UserMain20WinFun disp)" "keeps settings_saved (UserMain21WinFun disp)"
    "keeps settings_saved (UserMain24WinFun disp)"
  unfolding UserMain4WinFun_def Win4_first_def Win4_keys_def UserMain5WinFun_def Win5_first_def Win5_keys_def
    UserMain6WinFun_def Win6_first_def Win6_keys_def UserMain15WinFun_def Win15_first_def Win15_keys_def
    UserMain16WinFun_def Win16_first_def Win16_keys_def UserMain17WinFun_def Win17_first_def Win17_keys_def
    UserMain20WinFun_def Win20_first_def Win20_keys_def UserMain21WinFun_def Win21_first_def Win21_keys_def
    UserMain24WinFun_def Win24_first_def Win24_keys_def
  by (intro save_rules keeps_rules; simp add: assms)+

section \<open>The display task\<close>

interpretation sv: task_part settings_saved
proof unfold_locales
  fix s d assume sv: "settings_saved s"
  show "settings_saved (kys_update (Delta_press_work_Flag_update d) s)" "settings_saved (ScreenTimerRefresh s)"
    by (rule saved_frame [OF sv]; simp add: frame)+
  have prim: "keeps settings_saved (rt_pin_write p v)" "keeps settings_saved (rt_pin_mode p m)"
    "keeps settings_saved (ui_update u)" for p v m u
    by (auto simp: keeps_def pin_defs intro: saved_frame)
  have "keeps settings_saved LcdInit"
    unfolding LcdInit_def LcdGpioConfig_def
    by (intro keeps_block_Cons keeps_block_Nil prim sv.keeps_lcd_bytes sv.keeps_clear_screen)
  then have "keeps settings_saved OpenLcdDisplay"
    unfolding OpenLcdDisplay_def by (intro keeps_rules prim)
  then show "settings_saved (OpenLcdDisplay s)" using sv by (rule keepsD)
qed (auto intro: saved_windows)

section \<open>Start\<close>

text \<open>What \<open>GotValue\<close> makes of stored settings: two values that make no sense are replaced.\<close>

definition restored :: "settings_st \<Rightarrow> nat \<Rightarrow> u32" where
  "restored c i =
     (if i = 13 \<and> Setting_Hardness c = 0 then 100
      else if i = 14 \<and> (Setting_Backwashtime c = 0 \<or> Setting_Backwashtime c > 120) then 30
      else setting i c)"

lemma stored_get:
  assumes "stored c s" "i \<in> setting_ids"
  shows "Flash_Get i s = Some (setting i c)"
  using assms by (auto simp: stored_def)

lemma ucast_back: "ucast (ucast (x :: u8) :: u32) = x" "ucast (ucast (y :: u16) :: u32) = y"
  by (simp_all add: ucast_down_ucast_id is_down)

lemma load_all_fold:
  assumes "flash_num s" "\<forall>x\<in>set xs. fst x \<le> 18"
  shows "load_all xs s = Some (cfg_update (fold (\<lambda>(i, st). st (the (Flash_Get i s))) xs) s)"
  using assms
proof (induction xs arbitrary: s)
  case (Cons x xs)
  obtain i st where x: "x = (i, st)" by (cases x)
  obtain v where v: "Flash_Get i s = Some v" using flash_num_Flash_Get [of s i] Cons.prems x by auto
  have "flash_num (cfg_update (st v) s)" using Cons.prems by (simp add: flash_num_def)
  from Cons.IH [OF this] Cons.prems x v show ?case by (simp add: load_num frame comp_def)
qed simp

lemma stored_cfg: "stored c s \<Longrightarrow> stored c (cfg_update f s)"
  using stored_flash [of "cfg_update f s" s] by simp

lemma fix_hardness_stored:
  fixes c :: settings_st
  defines "h \<equiv> if Setting_Hardness c = 0 then 100 else Setting_Hardness c"
  assumes "stored c s" "Setting_Hardness (cfg s) = Setting_Hardness c" "Setting_Backwashtime (cfg s) = 0"
  shows "stored (c\<lparr>Setting_Hardness := h\<rparr>) (fix_hardness s)" "cfg (fix_hardness s) = (cfg s)\<lparr>Setting_Hardness := h\<rparr>"
proof -
  show "stored (c\<lparr>Setting_Hardness := h\<rparr>) (fix_hardness s)"
  proof (cases "Setting_Hardness c = 0")
    case True
    then show ?thesis using assms stored_cfg [of c s "Setting_Hardness_update (\<lambda>_. 100)"]
      by (auto simp: fix_hardness_def whenS_def setting_def intro!: stored_Flash_Set)
  next
    case False
    then show ?thesis using assms by (simp add: fix_hardness_def whenS_def)
  qed
  show "cfg (fix_hardness s) = (cfg s)\<lparr>Setting_Hardness := h\<rparr>"
    using assms by (auto simp: fix_hardness_def whenS_def frame)
qed

lemma fix_backwashtime_stored:
  fixes c :: settings_st
  defines "b \<equiv> if Setting_Backwashtime c = 0 \<or> Setting_Backwashtime c > 120 then 30 else Setting_Backwashtime c"
  assumes "stored c s" "Setting_Backwashtime (cfg s) = Setting_Backwashtime c"
  shows "stored (c\<lparr>Setting_Backwashtime := b\<rparr>) (fix_backwashtime s)"
    "cfg (fix_backwashtime s) = (cfg s)\<lparr>Setting_Backwashtime := b\<rparr>"
proof -
  show "stored (c\<lparr>Setting_Backwashtime := b\<rparr>) (fix_backwashtime s)"
  proof (cases "Setting_Backwashtime c = 0 \<or> Setting_Backwashtime c > 120")
    case True
    then show ?thesis using assms stored_cfg [of c s "Setting_Backwashtime_update (\<lambda>_. 30)"]
      by (auto simp: fix_backwashtime_def whenS_def setting_def intro!: stored_Flash_Set)
  next
    case False
    then show ?thesis using assms by (simp add: fix_backwashtime_def whenS_def)
  qed
  show "cfg (fix_backwashtime s) = (cfg s)\<lparr>Setting_Backwashtime := b\<rparr>"
    using assms by (auto simp: fix_backwashtime_def whenS_def frame)
qed

lemma load_head_stored:
  assumes st: "stored c t"
  shows "\<exists>f. load_all GotValue_head t = Some (cfg_update f t) \<and> Setting_Backwashtime (f (cfg t)) = Setting_Backwashtime (cfg t) \<and>
    (\<forall>i\<in>setting_ids - {14, 15}. setting i (f (cfg t)) = setting i c)"
proof -
  have g: "Flash_Get (Suc 0) t = Some (setting 1 c)" "Flash_Get 2 t = Some (setting 2 c)" "Flash_Get 3 t = Some (setting 3 c)"
    "Flash_Get 4 t = Some (setting 4 c)" "Flash_Get 5 t = Some (setting 5 c)" "Flash_Get 6 t = Some (setting 6 c)"
    "Flash_Get 7 t = Some (setting 7 c)" "Flash_Get 12 t = Some (setting 12 c)" "Flash_Get 13 t = Some (setting 13 c)"
    unfolding One_nat_def [symmetric] by (rule stored_get [OF st], simp)+
  define f where "f = fold (\<lambda>(i, st). st (the (Flash_Get i t))) GotValue_head"
  have "load_all GotValue_head t = Some (cfg_update f t)"
    unfolding f_def by (rule load_all_fold) (use st in \<open>auto simp: stored_def GotValue_head_def\<close>)
  moreover have "setting i (f (cfg t)) = setting i c" if "i \<in> {1, 2, 3, 4, 5, 6, 7, 12, 13}" for i
    using that by (elim insertE emptyE) (simp_all add: f_def GotValue_head_def g setting_def ucast_back)
  moreover have "Setting_Backwashtime (f (cfg t)) = Setting_Backwashtime (cfg t)" by (simp add: f_def GotValue_head_def)
  moreover have "setting_ids - {14, 15} = {1, 2, 3, 4, 5, 6, 7, 12, 13}" by auto
  ultimately show ?thesis by metis
qed

lemma GotValue_stored:
  assumes st: "stored c t" and z: "Setting_Backwashtime (cfg t) = 0"
  shows "\<exists>s'. GotValue t = Some s' \<and> (\<forall>i\<in>setting_ids. setting i (cfg s') = restored c i)"
proof -
  obtain f where f: "load_all GotValue_head t = Some (cfg_update f t)" "Setting_Backwashtime (f (cfg t)) = 0"
    "\<And>i. i \<in> setting_ids - {14, 15} \<Longrightarrow> setting i (f (cfg t)) = setting i c"
    using load_head_stored [OF st] z by auto
  define s1 where "s1 = cfg_update f t"
  have "Setting_Hardness (cfg s1) = Setting_Hardness c" using f(3) [of 13] by (simp add: setting_def s1_def)
  note h = fix_hardness_stored [OF stored_cfg [OF st, of f, folded s1_def] this]
  define s2 where "s2 = cfg_update (Setting_Backwashtime_update (\<lambda>_. Setting_Backwashtime c)) (fix_hardness s1)"
  have z1: "Setting_Backwashtime (cfg s1) = 0" using f(2) by (simp add: s1_def)
  have l2: "load 14 (\<lambda>v. Setting_Backwashtime_update (\<lambda>_. ucast v)) (fix_hardness s1) = Some s2"
    using stored_get [OF h(1) [OF z1], of 14] by (simp add: load_num s2_def setting_def ucast_back)
  define c' where "c' = c\<lparr>Setting_Hardness := (if Setting_Hardness c = 0 then 100 else Setting_Hardness c)\<rparr>"
  have c': "Setting_Backwashtime c' = Setting_Backwashtime c" "setting 15 c' = setting 15 c" by (simp_all add: c'_def setting_def)
  have "stored c' s2" unfolding s2_def c'_def by (rule stored_cfg [OF h(1) [OF z1]])
  note b = fix_backwashtime_stored [OF this, unfolded c']
  have b2: "Setting_Backwashtime (cfg s2) = Setting_Backwashtime c" by (simp add: s2_def)
  define s3 where "s3 = cfg_update (Setting_Language_update (\<lambda>_. Setting_Language c)) (fix_backwashtime s2)"
  have l3: "load 15 (\<lambda>v. Setting_Language_update (\<lambda>_. ucast v)) (fix_backwashtime s2) = Some s3"
    using stored_get [OF b(1) [OF b2], of 15] c'(2) by (simp add: load_num s3_def setting_def ucast_back)
  have "cfg s3 = (cfg (fix_backwashtime s2))\<lparr>Setting_Language := Setting_Language c\<rparr>" by (simp add: s3_def)
  moreover have "cfg s2 = (cfg (fix_hardness s1))\<lparr>Setting_Backwashtime := Setting_Backwashtime c\<rparr>" by (simp add: s2_def)
  moreover have "cfg s1 = f (cfg t)" by (simp add: s1_def)
  ultimately have "setting i (cfg s3) = restored c i" if "i \<in> setting_ids" for i
    using that f(3) [of i]
    by (elim insertE emptyE) (simp_all add: b(2) [OF b2] h(2) [OF z1] restored_def setting_def)
  then show ?thesis using f(1) l2 l3 by (auto simp: GotValue_def s1_def)
qed

section \<open>From reset to the display task\<close>

lemma stored_boot_time:
  assumes "stored c s"
  shows "\<exists>s1. boot_time s = Some s1 \<and> stored c s1 \<and> cfg s1 = cfg s"
proof -
  obtain n where n: "ef_get_env ''boot_times'' (flash s) = Some (fmt_ld n)"
    using assms env_num_get [of "flash s" "''boot_times''"] by (auto simp: stored_def flash_num_def used_namesI)
  obtain s1 m where s1: "boot_time s = Some s1" "flash s1 = snd (ef_set_env ''boot_times'' (fmt_ld m) (flash s))" "cfg s1 = cfg s"
    using n by (auto simp: boot_time_def Let_def add_fault_def)
  have k: "flash_key i s1 = flash_key i s" for i by (simp add: flash_key_def s1(2) ef_set_env_def)
  have "Flash_Get i s1 = Flash_Get i s" if "i < 19" for i
    using assms that ef.num_get_put_other [of "''boot_times''" "flash_key i s" "fmt_ld m" "flash s"]
    by (auto simp: Flash_Get_num k s1(2) stored_def)
  moreover have "env_ready (flash s1)" "flash_num s1"
    using assms by (auto simp: stored_def s1(2) ef_set_env_def env_ready_def flash_num_def env_num_def used_names_def)
  ultimately show ?thesis using assms s1(1,3) by (auto simp: stored_def k)
qed

interpretation cf: gui_part "\<lambda>s. cfg s = c" for c
  by unfold_locales (simp_all add: settings_prims)

lemma cfg_start_frame:
  "cfg (Led_Init s) = cfg s" "cfg (Key_Init s) = cfg s" "cfg (block [Moto_Init, Tds_Init] s) = cfg s"
  "cfg (block [Lcd_Event_Init, userAppPortInit, ui_set LCD_Flag_update 0] s) = cfg s"
proof -
  have "keeps (\<lambda>s. cfg s = c) (ui_update u)" "keeps (\<lambda>s. cfg s = c) (jmp_update j)"
    "keeps (\<lambda>s. cfg s = c) (rt_pin_write p v)" "keeps (\<lambda>s. cfg s = c) (rt_pin_mode p m)" for c u j p v m
    by (simp_all add: keeps_def pin_defs)
  note prim = this
  have "keeps (\<lambda>s. cfg s = c) LcdInit" for c
    unfolding LcdInit_def LcdGpioConfig_def
    by (intro keeps_block_Cons keeps_block_Nil prim cf.keeps_lcd_bytes cf.keeps_clear_screen)
  then have "keeps (\<lambda>s. cfg s = c) (block [Lcd_Event_Init, userAppPortInit, ui_set LCD_Flag_update 0])" for c
    unfolding Lcd_Event_Init_def userAppPortInit_def
    by (intro keeps_block_Cons keeps_block_Nil prim cf.keeps_exchange cf.keeps_wininit cf.keeps_winadd) simp_all
  then show "cfg (block [Lcd_Event_Init, userAppPortInit, ui_set LCD_Flag_update 0] s) = cfg s"
    unfolding keeps_def by blast
qed (simp_all add: led_defs pin_defs Key_Init_def Key_Sem_init_def SreenTimerInit_def Moto_Init_def Moto_Pin_Init_def Tds_Init_def whenS_def frame)

lemma main_start_restores:
  assumes st: "stored c s" and z: "Setting_Backwashtime (cfg s) = 0"
  shows "\<exists>m. main_start s = Some m \<and> (\<forall>i\<in>setting_ids. setting i (cfg (sysm m)) = restored c i)"
proof -
  have "stored c (Led_Init s)" using st stored_flash [of "Led_Init s" s] by (simp add: frame)
  then obtain s1 where 1: "boot_time (Led_Init s) = Some s1" "stored c s1" "cfg s1 = cfg s"
    using stored_boot_time [of c "Led_Init s"] by (auto simp: cfg_start_frame)
  then obtain s2 where 2: "RTC_Init s1 = Some s2" "flash s2 = flash s1" "cfg s2 = cfg s"
    using flash_num_Flash_Get [of s1 16] flash_num_Flash_Get [of s1 17] by (auto simp: RTC_Init_def stored_def)
  have "stored c (Key_Init s2)" using 1(2) 2(2) stored_flash [of "Key_Init s2" s1] by (simp add: frame)
  then obtain s3 where 3: "GotValue (Key_Init s2) = Some s3" "\<forall>i\<in>setting_ids. setting i (cfg s3) = restored c i"
    using GotValue_stored [of c "Key_Init s2"] z 2(3) by (auto simp: cfg_start_frame)
  then show ?thesis using 1(1) 2(1) by (auto simp: main_start_def lcd_task_start_def cfg_start_frame simp del: block.simps)
qed

text \<open>
  C13. As long as the flash works, the settings in use are the settings in flash after every turn
  of the display task, whatever window is open and whatever keys wait, unless the turn was the
  factory reset. A loss of power then costs no setting: the start sequence brings each of them back, except that
  a hardness limit of 0 becomes 100 and a backwash time of 0 or over 120 becomes 30.
\<close>

theorem settings_survive_power_loss:
  assumes "settings_saved s" "\<not> cpu_reset (board (lcd_pass s))"
  shows "settings_saved (lcd_pass s) \<and>
    (\<exists>m. main_start (reset_sys (flash (lcd_pass s)) b) = Some m \<and>
       (\<forall>i\<in>setting_ids. setting i (cfg (sysm m)) = restored (cfg (lcd_pass s)) i))"
proof -
  have sv: "settings_saved (lcd_pass s)" using assms(1) by (rule keepsD [OF sv.keeps_lcd_pass])
  then have "stored (cfg (lcd_pass s)) (reset_sys (flash (lcd_pass s)) b)"
    using assms(2) stored_flash [of "reset_sys (flash (lcd_pass s)) b" "lcd_pass s"] by (simp add: settings_saved_def reset_sys_def)
  with sv main_start_restores show ?thesis by (simp add: reset_sys_def)
qed

text \<open>A device with a dark display and all parameters 0.\<close>

definition sys2 :: sys where
  "sys2 = ui_update (LCD_Flag_update (\<lambda>_. 3)) sys1"

lemma sys1_parts: "env_ready (flash sys1)" "flash_num sys1" "\<not> cpu_reset (board sys1)" "i < 19 \<Longrightarrow> Flash_Get i sys1 = Some 0"
proof -
  show "env_ready (flash sys1)" "\<not> cpu_reset (board sys1)"
    by (simp_all add: sys1_def sys0_def reset_sys_def env0_def env_ready_def board0_def)
  show "flash_num sys1"
    using fmt_ld_0 [symmetric] by (auto simp: sys1_def sys0_def reset_sys_def env0_def flash_num_def env_num_def)
  show "i < 19 \<Longrightarrow> Flash_Get i sys1 = Some 0"
    using atol_fmt_ld [of 0] by (simp add: Flash_Get_def ef_get_env_def ef_get_env_blob_def sys1_def sys0_def reset_sys_def env0_def
        ef_is_str_def fmt_ld_0)
qed

lemma stored_sys1: "stored (cfg sys1) sys1"
proof -
  have "flash_key i sys1 \<noteq> ''boot_times''" if "i < 19" for i
    using that by (simp add: flash_key_def sys1_def key_str_tab)
  moreover have "setting i (cfg sys1) = 0" for i by (simp add: setting_def sys1_def sys0_def reset_sys_def)
  ultimately show ?thesis using sys1_parts flash_key_sys1 by (auto simp: stored_def)
qed

theorem settings_survive_power_loss_witness:
  "settings_saved (lcd_pass sys2) \<and>
   (\<exists>m. main_start (reset_sys (flash (lcd_pass sys2)) board0) = Some m \<and> setting 14 (cfg (sysm m)) = 30)"
proof -
  have "settings_saved sys2"
    using stored_sys1 stored_flash [of sys2 sys1] by (simp add: settings_saved_def sys2_def)
  moreover have l: "lcd_pass sys2 = sys2"
    by (simp add: lcd_pass_def stmt_defs userAppPortRun_def Delta_press_work_def jump_reminder_def jump_automatic_def
        jump_battery_empty_def jump_battery_new_def sys2_def sys1_def sys0_def reset_sys_def reset_ui_def)
  moreover have "\<not> cpu_reset (board sys2)" using sys1_parts(3) by (simp add: sys2_def)
  moreover have "restored (cfg sys2) 14 = 30" by (simp add: restored_def sys2_def sys1_def sys0_def reset_sys_def)
  ultimately show ?thesis using settings_survive_power_loss [of sys2 board0] by auto
qed

section \<open>Factory reset\<close>

text \<open>A store works on one name at a time, so the start counter is not touched by the reset.\<close>

lemma Flash_Set_other_name:
  assumes "env_ready (flash s)" "flash_key i s \<noteq> k"
  shows "ef_get_env k (flash (Flash_Set i v s)) = ef_get_env k (flash s)"
  using assms by (auto simp: Flash_Set_def ef_set_env_def ef_get_env_def ef_get_env_blob_def flash_key_def)

lemma clear_params_other_name:
  assumes "env_ready (flash s)" "\<forall>i\<in>set is. flash_key i s \<noteq> k"
  shows "ef_get_env k (flash (clear_params is s)) = ef_get_env k (flash s)"
  using assms
proof (induction "is" arbitrary: s)
  case (Cons i "is")
  then have "ef_get_env k (flash (clear_params is (Flash_Set i 0 s))) = ef_get_env k (flash (Flash_Set i 0 s))"
    by (intro Cons.IH) simp_all
  then show ?case using Flash_Set_other_name [of s i k 0] Cons.prems by simp
qed simp

interpretation ff: gui_part "\<lambda>s. flash s = e" for e
  by unfold_locales (simp_all add: settings_prims)

lemma flash_start_frame:
  "flash (block [Moto_Init, Tds_Init] s) = flash s"
  "flash (block [Lcd_Event_Init, userAppPortInit, ui_set LCD_Flag_update 0] s) = flash s"
proof -
  have prim: "keeps (\<lambda>s. flash s = c) (ui_update u)" "keeps (\<lambda>s. flash s = c) (jmp_update j)"
    "keeps (\<lambda>s. flash s = c) (rt_pin_write p v)" "keeps (\<lambda>s. flash s = c) (rt_pin_mode p m)" for c u j p v m
    by (simp_all add: keeps_def pin_defs)
  have "keeps (\<lambda>s. flash s = c) LcdInit" for c
    unfolding LcdInit_def LcdGpioConfig_def
    by (intro keeps_block_Cons keeps_block_Nil prim ff.keeps_lcd_bytes ff.keeps_clear_screen)
  then have "keeps (\<lambda>s. flash s = c) (block [Lcd_Event_Init, userAppPortInit, ui_set LCD_Flag_update 0])" for c
    unfolding Lcd_Event_Init_def userAppPortInit_def
    by (intro keeps_block_Cons keeps_block_Nil prim ff.keeps_exchange ff.keeps_wininit ff.keeps_winadd) simp_all
  then show "flash (block [Lcd_Event_Init, userAppPortInit, ui_set LCD_Flag_update 0] s) = flash s"
    unfolding keeps_def by blast
qed (simp add: Moto_Init_def Moto_Pin_Init_def Tds_Init_def pin_defs whenS_def frame)

lemma boot_time_keeps:
  assumes "env_ready (flash s)" "ef_get_env ''boot_times'' (flash s) = Some v"
    and "\<forall>i < 19. flash_key i s \<noteq> ''boot_times''"
  shows "\<exists>s1. boot_time s = Some s1 \<and> env_ready (flash s1) \<and> (\<forall>i. flash_key i s1 = flash_key i s) \<and>
    (\<forall>i < 19. Flash_Get i s1 = Flash_Get i s)"
proof -
  obtain s1 m where s1: "boot_time s = Some s1" "flash s1 = snd (ef_set_env ''boot_times'' (fmt_ld m) (flash s))"
    using assms(2) by (auto simp: boot_time_def Let_def add_fault_def)
  have k: "flash_key i s1 = flash_key i s" for i by (simp add: flash_key_def s1(2) ef_set_env_def)
  have "Flash_Get i s1 = Flash_Get i s" if "i < 19" for i
    using assms(1,3) that ef.num_get_put_other [of "''boot_times''" "flash_key i s" "fmt_ld m" "flash s"]
    by (auto simp: Flash_Get_num k s1(2))
  moreover have "env_ready (flash s1)" using assms(1) by (simp add: s1(2) ef_set_env_def env_ready_def)
  ultimately show ?thesis using s1(1) k by blast
qed

text \<open>
  C18. A factory reset (\<open>Flash_Factory\<close>) followed by a restart of the device, on a flash that works and
  holds the start counter, with names of the parameters that differ from each other and from the name
  of that counter: the start sequence finishes with the factory settings, every period, switch and
  counter 0, hardness limit 100, backwash time 30 seconds, and the last two are stored.
\<close>

theorem factory_reset_defaults:
  assumes "env_ready (flash s)" "ef_get_env ''boot_times'' (flash s) = Some v"
    and "\<forall>i < 19. flash_key i s \<noteq> ''boot_times'' \<and> (\<forall>j < 19. flash_key i s = flash_key j s \<longrightarrow> i = j)"
  shows "\<exists>m. main_start (reset_sys (flash (Flash_Factory s)) b) = Some m \<and> cfg (sysm m) = factory_settings \<and>
     Flash_Get 13 (sysm m) = Some 100 \<and> Flash_Get 14 (sysm m) = Some 30"
proof -
  define t where "t = Led_Init (reset_sys (flash (Flash_Factory s)) b)"
  have f: "flash t = flash (Flash_Factory s)" by (simp add: t_def frame reset_sys_def)
  then have get: "Flash_Get i t = Flash_Get i (Flash_Factory s)" "flash_key i t = flash_key i s" for i
    using Flash_Factory_zeros(3) [OF assms(1), of i] by (simp_all add: Flash_Get_def flash_key_def)
  have "ef_get_env ''boot_times'' (flash t) = Some v"
    using assms clear_params_other_name [of s "[0..<18]" "''boot_times''"] by (simp add: f Flash_Factory_def)
  from boot_time_keeps [OF _ this] obtain s1 where s1: "boot_time t = Some s1" "env_ready (flash s1)" "\<And>i. flash_key i s1 = flash_key i s"
    "\<And>i. i < 18 \<Longrightarrow> Flash_Get i s1 = Some 0"
    using assms(3) Flash_Factory_zeros(1,2) [OF assms(1)] f get by auto
  then obtain s2 where s2: "RTC_Init s1 = Some s2" "flash s2 = flash s1" by (auto simp: RTC_Init_def)
  define t2 where "t2 = Key_Init s2"
  have t2: "flash t2 = flash s1" by (simp add: t2_def s2(2) frame)
  have "\<exists>s'. GotValue t2 = Some s' \<and> cfg s' = factory_settings \<and> Flash_Get 13 s' = Some 100 \<and> Flash_Get 14 s' = Some 30"
    using s1(2-4) assms(3) t2 by (intro GotValue_zeros) (auto simp: Flash_Get_def flash_key_def)
  then obtain s3 where s3: "GotValue t2 = Some s3" "cfg s3 = factory_settings" "Flash_Get 13 s3 = Some 100" "Flash_Get 14 s3 = Some 30" by blast
  have fl: "Flash_Get i u = Flash_Get i w" if "flash u = flash w" for i u w using that by (simp add: Flash_Get_def flash_key_def)
  show ?thesis using s1(1) s2(1) s3
    by (auto simp: main_start_def lcd_task_start_def cfg_start_frame fl [OF flash_start_frame(1)] fl [OF flash_start_frame(2)]
        simp flip: t_def t2_def simp del: block.simps)
qed

theorem factory_reset_defaults_witness:
  "\<exists>m. main_start (reset_sys (flash (Flash_Factory sys1)) board0) = Some m \<and> Setting_Backwashtime (cfg (sysm m)) = 30"
proof -
  have "ef_get_env ''boot_times'' (flash sys1) = Some ''0''"
    by (simp add: ef_get_env_def ef_get_env_blob_def sys1_def sys0_def reset_sys_def env0_def ef_is_str_def)
  moreover have "\<forall>i < 19. flash_key i sys1 \<noteq> ''boot_times'' \<and> (\<forall>j < 19. flash_key i sys1 = flash_key j sys1 \<longrightarrow> i = j)"
    using stored_sys1 by (simp add: stored_def)
  ultimately show ?thesis
    using factory_reset_defaults [OF sys1_parts(1), of "''0''" board0] by (auto simp: factory_settings_def)
qed

end
