(* ===== verification/TimerProps.thy ===== *)
theory TimerProps
  imports Rtos
begin

text \<open>
  The soft timers as a queue of deadlines. The kernel counts ticks in 32 bits, which wrap around after
  49 days; the reference counts them without bound. As long as no interval and no delay of the
  timer thread reaches a quarter of the range, the two fire the same timers in the same order.
\<close>

section \<open>The operations as a sequence\<close>

datatype timer_op = Start nat | Stop nat | Set_time nat u32 | Wait nat | Check

text \<open>A call that fails an assertion changes nothing. \<open>Check\<close> gives the timer it fires.\<close>

fun tm_step :: "timer_op \<Rightarrow> u32 \<times> timer_sys \<Rightarrow> nat list \<times> u32 \<times> timer_sys" where
  "tm_step (Start h) (now, ts) = (case rt_timer_start now h ts of Some ts' \<Rightarrow> ([], now, ts') | None \<Rightarrow> ([], now, ts))"
| "tm_step (Stop h) (now, ts) = (case rt_timer_stop h ts of Some (_, ts') \<Rightarrow> ([], now, ts') | None \<Rightarrow> ([], now, ts))"
| "tm_step (Set_time h v) (now, ts) = (case rt_timer_set_time h v ts of Some ts' \<Rightarrow> ([], now, ts') | None \<Rightarrow> ([], now, ts))"
| "tm_step (Wait n) (now, ts) = ([], now + of_nat n, ts)"
| "tm_step Check (now, ts) = (case timer_due now ts of Some (h, _, ts') \<Rightarrow> ([h], now, timer_done h ts') | None \<Rightarrow> ([], now, ts))"

fun tm_run :: "timer_op list \<Rightarrow> u32 \<times> timer_sys \<Rightarrow> nat list" where
  "tm_run [] s = []"
| "tm_run (p # ps) s = fst (tm_step p s) @ tm_run ps (snd (tm_step p s))"

section \<open>The reference\<close>

text \<open>The waiting timers and their deadlines in the order in which they were started.\<close>

record deadlines =
  dl_now :: nat
  dl_due :: "(nat \<times> nat) list"
  dl_int :: "nat \<Rightarrow> nat option"

definition dl_drop :: "nat \<Rightarrow> (nat \<times> nat) list \<Rightarrow> (nat \<times> nat) list" where
  "dl_drop h xs = filter (\<lambda>x. fst x \<noteq> h) xs"

fun dl_step :: "timer_op \<Rightarrow> deadlines \<Rightarrow> nat list \<times> deadlines" where
  "dl_step (Start h) d = (case dl_int d h of None \<Rightarrow> ([], d)
     | Some i \<Rightarrow> ([], d\<lparr>dl_due := dl_drop h (dl_due d) @ [(h, dl_now d + i)]\<rparr>))"
| "dl_step (Stop h) d = ([], d\<lparr>dl_due := dl_drop h (dl_due d)\<rparr>)"
| "dl_step (Set_time h v) d = ([], if dl_int d h = None then d else d\<lparr>dl_int := (dl_int d)(h \<mapsto> unat v)\<rparr>)"
| "dl_step (Wait n) d = ([], d\<lparr>dl_now := dl_now d + n\<rparr>)"
| "dl_step Check d = (case sort_key snd (dl_due d) of [] \<Rightarrow> ([], d)
     | (h, t) # _ \<Rightarrow> if t \<le> dl_now d then ([h], d\<lparr>dl_due := dl_drop h (dl_due d)\<rparr>) else ([], d))"

fun dl_run :: "timer_op list \<Rightarrow> deadlines \<Rightarrow> nat list" where
  "dl_run [] d = []"
| "dl_run (p # ps) d = fst (dl_step p d) @ dl_run ps (snd (dl_step p d))"

abbreviation (input) QUARTER :: nat where "QUARTER \<equiv> 0x3FFFFFFF"

text \<open>No interval and no delay reaches a quarter of the range.\<close>

definition near :: "deadlines \<Rightarrow> bool" where
  "near d \<longleftrightarrow> (\<forall>(h, t)\<in>set (dl_due d). dl_now d < t + QUARTER \<and> t < dl_now d + QUARTER) \<and>
     (\<forall>h i. dl_int d h = Some i \<longrightarrow> i < QUARTER)"

fun run_near :: "timer_op list \<Rightarrow> deadlines \<Rightarrow> bool" where
  "run_near [] d \<longleftrightarrow> True"
| "run_near (p # ps) d \<longleftrightarrow> near d \<and> run_near ps (snd (dl_step p d))"

section \<open>Keeping the timers sorted\<close>

fun dl_insert :: "nat \<Rightarrow> nat \<Rightarrow> (nat \<times> nat) list \<Rightarrow> (nat \<times> nat) list" where
  "dl_insert h t [] = [(h, t)]"
| "dl_insert h t ((g, u) # xs) = (if t < u then (h, t) # (g, u) # xs else (g, u) # dl_insert h t xs)"

lemma insort_dl_insert: "insort_key snd x (dl_insert h t zs) = dl_insert h t (insort_key snd x zs)"
  by (induction zs) (cases x; auto)+

lemma sort_snoc: "sort_key snd (xs @ [(h, t)]) = dl_insert h t (sort_key snd xs)"
  by (induction xs) (simp_all add: insort_dl_insert)

lemma sort_drop: "sort_key snd (dl_drop h xs) = dl_drop h (sort_key snd xs)"
  by (simp add: dl_drop_def filter_sort)

section \<open>Comparing ticks that wrap around\<close>

lemma tick_diff:
  assumes "a < b + 0x7FFFFFFF" "b < a + 0x7FFFFFFF"
  shows "(of_nat a - of_nat b :: u32) < RT_TICK_MAX div 2 \<longleftrightarrow> b \<le> a" "(of_nat a - of_nat b :: u32) = 0 \<longleftrightarrow> a = b"
proof -
  let ?d = "of_nat a - of_nat b :: u32"
  have m: "unat (RT_TICK_MAX div 2) = 0x7FFFFFFF" by (simp add: unat_div)
  have u: "unat ?d = (if b \<le> a then a - b else a + 2 ^ 32 - b)"
  proof (cases "b \<le> a")
    case True
    then have e: "?d = of_nat (a - b)" by simp
    show ?thesis unfolding e unat_of_nat using True assms(1) by simp
  next
    case False
    have "of_nat (a + 2 ^ 32 - b) = (of_nat (a + 2 ^ 32) - of_nat b :: u32)" using assms(2) by (intro of_nat_diff) simp
    also have "\<dots> = ?d" by simp
    finally have e: "?d = of_nat (a + 2 ^ 32 - b)" by (rule sym)
    show ?thesis unfolding e unat_of_nat using False assms(2) by simp
  qed
  show "?d < RT_TICK_MAX div 2 \<longleftrightarrow> b \<le> a"
    using assms unfolding word_less_nat_alt m u by auto
  have "?d = 0 \<longleftrightarrow> unat ?d = 0" by (simp add: unat_eq_0)
  then show "?d = 0 \<longleftrightarrow> a = b" unfolding u using assms by auto
qed

section \<open>The simulation\<close>

text \<open>The kernel's list holds the reference's timers sorted by deadline (equal ones as started), their deadlines modulo the range.\<close>

definition timers_sim :: "deadlines \<Rightarrow> u32 \<times> timer_sys \<Rightarrow> bool" where
  "timers_sim d s \<longleftrightarrow> (case s of (now, ts) \<Rightarrow>
     now = of_nat (dl_now d) \<and> tm_list ts = map fst (sort_key snd (dl_due d)) \<and> distinct (tm_list ts) \<and>
     (\<forall>(h, t)\<in>set (dl_due d). tick_of ts h = of_nat t) \<and>
     (\<forall>h. dl_int d h = map_option (\<lambda>t. unat (init_tick t)) (tm_objs ts h)) \<and>
     (\<forall>h t. tm_objs ts h = Some t \<longrightarrow> (activated t \<longleftrightarrow> h \<in> set (tm_list ts))) \<and>
     (\<forall>h\<in>set (tm_list ts). tm_objs ts h \<noteq> None))"

lemma timers_simD:
  assumes "timers_sim d (now, ts)"
  shows "now = of_nat (dl_now d)" "tm_list ts = map fst (sort_key snd (dl_due d))" "distinct (tm_list ts)"
    "(g, u) \<in> set (dl_due d) \<Longrightarrow> tick_of ts g = of_nat u"
    "dl_int d g = map_option (\<lambda>t. unat (init_tick t)) (tm_objs ts g)"
    "tm_objs ts g = Some tm \<Longrightarrow> activated tm \<longleftrightarrow> g \<in> set (tm_list ts)"
    "g \<in> set (tm_list ts) \<Longrightarrow> tm_objs ts g \<noteq> None"
  using assms unfolding timers_sim_def by auto

lemma timers_simI:
  assumes "now = of_nat (dl_now d)" "tm_list ts = map fst (sort_key snd (dl_due d))" "distinct (tm_list ts)"
    "\<And>g u. (g, u) \<in> set (dl_due d) \<Longrightarrow> tick_of ts g = of_nat u"
    "\<And>g. dl_int d g = map_option (\<lambda>t. unat (init_tick t)) (tm_objs ts g)"
    "\<And>g tm. tm_objs ts g = Some tm \<Longrightarrow> activated tm \<longleftrightarrow> g \<in> set (tm_list ts)"
    "\<And>g. g \<in> set (tm_list ts) \<Longrightarrow> tm_objs ts g \<noteq> None"
  shows "timers_sim d (now, ts)"
  using assms unfolding timers_sim_def by auto

lemma insert_sim:
  assumes "\<forall>(g, u)\<in>set xs. tk g = of_nat u \<and> u < t + 0x7FFFFFFF \<and> t < u + 0x7FFFFFFF" "tk h = of_nat t"
  shows "timer_insert tk h (map fst xs) = map fst (dl_insert h t xs)"
  using assms(1)
proof (induction xs)
  case (Cons x xs)
  obtain g u where x: "x = (g, u)" by (cases x)
  have "tk g = of_nat u" "u < t + 0x7FFFFFFF" "t < u + 0x7FFFFFFF" using Cons.prems x by auto
  with tick_diff [of u t] assms(2) Cons x show ?case by auto
qed simp

lemma set_dl_insert [simp]: "set (dl_insert h t xs) = insert (h, t) (set xs)"
  by (induction h t xs rule: dl_insert.induct) auto

lemma distinct_dl_insert [simp]: "distinct (map fst (dl_insert h t xs)) \<longleftrightarrow> h \<notin> fst ` set xs \<and> distinct (map fst xs)"
  by (induction h t xs rule: dl_insert.induct) (auto simp: image_iff)

lemma dl_drop_simps [simp]:
  "map fst (dl_drop h xs) = removeAll h (map fst xs)" "set (dl_drop h xs) = {x \<in> set xs. fst x \<noteq> h}"
  by (induction xs) (auto simp: dl_drop_def)

lemma sim_start:
  assumes "timers_sim d (now, ts)" "near d"
  shows "timers_sim (snd (dl_step (Start h) d)) (snd (tm_step (Start h) (now, ts))) \<and> fst (tm_step (Start h) (now, ts)) = []"
proof (cases "tm_objs ts h")
  case None
  then show ?thesis using assms(1) timers_simD(5) [OF assms(1), of h] by (simp add: rt_timer_start_def)
next
  case (Some t)
  note D = timers_simD [OF assms(1)]
  let ?i = "unat (init_tick t)"
  have i: "dl_int d h = Some ?i" using D(5) [of h] Some by simp
  then have q: "?i < QUARTER" using assms(2) by (auto simp: near_def)
  then have a: "init_tick t < RT_TICK_MAX div 2" by (simp add: word_less_nat_alt unat_div)
  let ?t = "dl_now d + ?i"
  let ?ts1 = "ts\<lparr>tm_objs := (tm_objs ts)(h \<mapsto> t\<lparr>timeout_tick := now + init_tick t, activated := True\<rparr>)\<rparr>"
  let ?l = "timer_insert (tick_of ?ts1) h (removeAll h (tm_list ts))"
  have tk: "tick_of ?ts1 h = of_nat ?t" using D(1) by (simp add: tick_of_def)
  have tk': "tick_of ?ts1 g = tick_of ts g" if "g \<noteq> h" for g using that by (simp add: tick_of_def)
  have "\<forall>(g, u)\<in>set (dl_drop h (sort_key snd (dl_due d))). tick_of ?ts1 g = of_nat u \<and> u < ?t + 0x7FFFFFFF \<and> ?t < u + 0x7FFFFFFF"
  proof safe
    fix g u assume g: "(g, u) \<in> set (dl_drop h (sort_key snd (dl_due d)))"
    then have "dl_now d < u + QUARTER" "u < dl_now d + QUARTER" using assms(2) by (auto simp: near_def)
    then show "u < ?t + 0x7FFFFFFF" "?t < u + 0x7FFFFFFF" using q by simp_all
    show "tick_of ?ts1 g = of_nat u" using g D(4) [of g u] tk' [of g] by simp
  qed
  from insert_sim [OF this tk] have l: "?l = map fst (sort_key snd (dl_drop h (dl_due d) @ [(h, ?t)]))"
    unfolding D(2) sort_snoc sort_drop dl_drop_simps(1) .
  have st: "rt_timer_start now h ts = Some (?ts1\<lparr>tm_list := ?l\<rparr>)"
    using Some a by (simp add: rt_timer_start_def Let_def)
  have tl: "tick_of (?ts1\<lparr>tm_list := l\<rparr>) = tick_of ?ts1" for l by (simp add: tick_of_def fun_eq_iff)
  have "timers_sim (d\<lparr>dl_due := dl_drop h (dl_due d) @ [(h, ?t)]\<rparr>) (now, ?ts1\<lparr>tm_list := ?l\<rparr>)"
  proof (rule timers_simI, unfold tl)
    fix g u assume "(g, u) \<in> set (dl_due (d\<lparr>dl_due := dl_drop h (dl_due d) @ [(h, ?t)]\<rparr>))"
    then show "tick_of ?ts1 g = of_nat u" using D(4) [of g u] tk tk' [of g] by auto
  next
    fix g tm assume "tm_objs (?ts1\<lparr>tm_list := ?l\<rparr>) g = Some tm"
    then show "activated tm \<longleftrightarrow> g \<in> set (tm_list (?ts1\<lparr>tm_list := ?l\<rparr>))" using D(6) [of g tm] by (auto split: if_splits)
  next
    fix g show "dl_int (d\<lparr>dl_due := dl_drop h (dl_due d) @ [(h, ?t)]\<rparr>) g =
      map_option (\<lambda>t. unat (init_tick t)) (tm_objs (?ts1\<lparr>tm_list := ?l\<rparr>) g)" using D(5) [of g] Some by simp
  next
    fix g assume "g \<in> set (tm_list (?ts1\<lparr>tm_list := ?l\<rparr>))"
    then show "tm_objs (?ts1\<lparr>tm_list := ?l\<rparr>) g \<noteq> None" using D(7) [of g] by (auto split: if_splits)
  next
    show "distinct (tm_list (?ts1\<lparr>tm_list := ?l\<rparr>))" using D(3) by (simp add: distinct_removeAll)
  qed (use D(1) l in simp_all)
  then show ?thesis using st i by simp
qed

text \<open>Taking a timer off the list, by hand or because it has fired.\<close>

lemma sim_off:
  assumes "timers_sim d (now, ts)" "tm_objs ts h = Some t"
  shows "timers_sim (d\<lparr>dl_due := dl_drop h (dl_due d)\<rparr>)
    (now, ts\<lparr>tm_objs := (tm_objs ts)(h \<mapsto> t\<lparr>activated := False\<rparr>), tm_list := removeAll h (tm_list ts)\<rparr>)" (is "timers_sim ?d (now, ?ts)")
proof -
  note D = timers_simD [OF assms(1)]
  have tk: "tick_of ?ts = tick_of ts" using assms(2) by (simp add: tick_of_def fun_eq_iff)
  show ?thesis
  proof (rule timers_simI, unfold tk)
    fix g u assume "(g, u) \<in> set (dl_due ?d)"
    then show "tick_of ts g = of_nat u" using D(4) [of g u] by simp
  next
    fix g tm assume "tm_objs ?ts g = Some tm"
    then show "activated tm \<longleftrightarrow> g \<in> set (tm_list ?ts)" using D(6) [of g tm] by (auto split: if_splits)
  next
    fix g show "dl_int ?d g = map_option (\<lambda>t. unat (init_tick t)) (tm_objs ?ts g)" using D(5) [of g] assms(2) by simp
  next
    fix g assume "g \<in> set (tm_list ?ts)"
    then show "tm_objs ?ts g \<noteq> None" using D(7) [of g] by (auto split: if_splits)
  qed (use D(1-3) in \<open>simp_all add: distinct_removeAll sort_drop\<close>)
qed

lemma sim_stop:
  assumes "timers_sim d (now, ts)"
  shows "timers_sim (snd (dl_step (Stop h) d)) (snd (tm_step (Stop h) (now, ts))) \<and> fst (tm_step (Stop h) (now, ts)) = []"
proof (cases "h \<in> set (tm_list ts)")
  case True
  then obtain t where t: "tm_objs ts h = Some t" using timers_simD(7) [OF assms] by auto
  then have "activated t" using timers_simD(6) [OF assms t] True by simp
  then show ?thesis using sim_off [OF assms t] t by (simp add: rt_timer_stop_def)
next
  case False
  then have "dl_drop h (dl_due d) = dl_due d" unfolding dl_drop_def timers_simD(2) [OF assms] by (intro filter_True) force
  moreover have "snd (tm_step (Stop h) (now, ts)) = (now, ts) \<and> fst (tm_step (Stop h) (now, ts)) = []"
    using False timers_simD(6) [OF assms, of h] by (cases "tm_objs ts h") (simp_all add: rt_timer_stop_def)
  ultimately show ?thesis using assms by (cases d) auto
qed

lemma sim_set_time:
  assumes "timers_sim d (now, ts)"
  shows "timers_sim (snd (dl_step (Set_time h v) d)) (snd (tm_step (Set_time h v) (now, ts))) \<and> fst (tm_step (Set_time h v) (now, ts)) = []"
proof (cases "tm_objs ts h")
  case None
  then show ?thesis using assms timers_simD(5) [OF assms, of h] by (simp add: rt_timer_set_time_def)
next
  case (Some t)
  note D = timers_simD [OF assms]
  let ?ts = "ts\<lparr>tm_objs := (tm_objs ts)(h \<mapsto> t\<lparr>init_tick := v\<rparr>)\<rparr>"
  have tk: "tick_of ?ts = tick_of ts" using Some by (simp add: tick_of_def fun_eq_iff)
  have "timers_sim (d\<lparr>dl_int := (dl_int d)(h \<mapsto> unat v)\<rparr>) (now, ?ts)"
  proof (rule timers_simI, unfold tk)
    fix g u assume "(g, u) \<in> set (dl_due (d\<lparr>dl_int := (dl_int d)(h \<mapsto> unat v)\<rparr>))"
    then show "tick_of ts g = of_nat u" using D(4) [of g u] by simp
  next
    fix g tm assume "tm_objs ?ts g = Some tm"
    then show "activated tm \<longleftrightarrow> g \<in> set (tm_list ?ts)" using D(6) [of g] Some by (auto split: if_splits)
  next
    fix g show "dl_int (d\<lparr>dl_int := (dl_int d)(h \<mapsto> unat v)\<rparr>) g = map_option (\<lambda>t. unat (init_tick t)) (tm_objs ?ts g)"
      using D(5) [of g] by simp
  next
    fix g assume "g \<in> set (tm_list ?ts)"
    then show "tm_objs ?ts g \<noteq> None" using D(7) [of g] by simp
  qed (use D(1-3) in simp_all)
  then show ?thesis using Some D(5) [of h] by (simp add: rt_timer_set_time_def)
qed

lemma sim_check:
  assumes "timers_sim d (now, ts)" "near d"
  shows "timers_sim (snd (dl_step Check d)) (snd (tm_step Check (now, ts))) \<and> fst (tm_step Check (now, ts)) = fst (dl_step Check d)"
proof (cases "sort_key snd (dl_due d)")
  case Nil
  then show ?thesis using assms(1) timers_simD(2) [OF assms(1)] by (simp add: timer_due_def)
next
  case (Cons x xs)
  note D = timers_simD [OF assms(1)]
  obtain h t where x: "x = (h, t)" by (cases x)
  have l: "tm_list ts = h # map fst xs" using D(2) Cons x by simp
  then obtain o' where ob: "tm_objs ts h = Some o'" using D(7) [of h] by auto
  have mem: "(h, t) \<in> set (dl_due d)" using arg_cong [OF Cons, of set] x by auto
  have t: "timeout_tick o' = of_nat t" using D(4) [of h t] mem ob by (simp add: tick_of_def)
  have "dl_now d < t + 0x7FFFFFFF" "t < dl_now d + 0x7FFFFFFF" using assms(2) mem by (auto simp: near_def)
  then have due: "now - timeout_tick o' < RT_TICK_MAX div 2 \<longleftrightarrow> t \<le> dl_now d" unfolding t D(1) by (rule tick_diff(1))
  have h: "h \<notin> set (map fst xs)" using D(3) l by simp
  then have "removeAll h (tm_list ts) = map fst xs" using h l by (simp add: removeAll_id)
  moreover have "timer_done h (ts\<lparr>tm_list := map fst xs\<rparr>) = ts\<lparr>tm_objs := (tm_objs ts)(h \<mapsto> o'\<lparr>activated := False\<rparr>), tm_list := map fst xs\<rparr>"
    using ob by (cases ts) (simp add: timer_done_def)
  ultimately have "timers_sim (d\<lparr>dl_due := dl_drop h (dl_due d)\<rparr>) (now, timer_done h (ts\<lparr>tm_list := map fst xs\<rparr>))"
    using sim_off [OF assms(1) ob] by simp
  then show ?thesis using due l ob assms(1) Cons x by (simp add: timer_due_def)
qed

lemma step_sim:
  assumes "timers_sim d s" "near d"
  shows "timers_sim (snd (dl_step p d)) (snd (tm_step p s)) \<and> fst (tm_step p s) = fst (dl_step p d)"
proof -
  obtain now ts where s: "s = (now, ts)" by (cases s)
  show ?thesis
  proof (cases p)
    case (Start h)
    then show ?thesis using sim_start [of d now ts h] assms s by (auto split: option.split)
  next
    case (Wait n)
    then show ?thesis using assms s by (auto simp: timers_sim_def)
  qed (use sim_stop sim_set_time sim_check assms s in auto)
qed

text \<open>
  C38. The soft timers fire as an unbounded clock would make them. Every sequence of starts,
  stops, changes of the interval, passing ticks and checks fires the same timers in the same
  order as the reference, which keeps the waiting timers in the order they were started and
  fires the one with the earliest deadline that has passed and, of equal ones, the one started
  first. The 32-bit tick counter may wrap around any number of times, provided that intervals
  and delays stay below a quarter of its range.
\<close>

theorem timers_fire_by_deadline:
  assumes "timers_sim d s" "run_near ps d"
  shows "tm_run ps s = dl_run ps d"
  using assms
proof (induction ps arbitrary: d s)
  case (Cons p ps)
  then have "near d" by simp
  from step_sim [OF Cons.prems(1) this, of p] Cons show ?case by simp
qed simp

text \<open>Two timers across a wrap-around of the tick counter.\<close>

definition timers_wrap :: timer_sys where
  "timers_wrap = \<lparr>tm_objs = [0 \<mapsto> \<lparr>timeout_func = LcdVccTimerCallback, init_tick = 30, timeout_tick = 0, activated = False\<rparr>,
     1 \<mapsto> \<lparr>timeout_func = LowPowerTimerCallback, init_tick = 20, timeout_tick = 0, activated = False\<rparr>],
     tm_list = [], tm_next = 2, tm_mem = True\<rparr>"

theorem timers_fire_by_deadline_witness:
  "tm_run [Start 0, Start 1, Wait 19, Check, Wait 1, Check, Check, Wait 10, Check] (0xFFFFFFF0, timers_wrap) = [1, 0]"
proof -
  let ?d = "\<lparr>dl_now = 0xFFFFFFF0, dl_due = [], dl_int = [0 \<mapsto> 30, 1 \<mapsto> 20]\<rparr>"
  let ?ps = "[Start 0, Start 1, Wait 19, Check, Wait 1, Check, Check, Wait 10, Check]"
  have "timers_sim ?d (0xFFFFFFF0, timers_wrap)" by (auto simp: timers_sim_def timers_wrap_def)
  moreover have "run_near ?ps ?d" by (simp add: near_def dl_drop_def)
  moreover have "dl_run ?ps ?d = [1, 0]" by (simp add: dl_drop_def)
  ultimately show ?thesis using timers_fire_by_deadline [of ?d "(0xFFFFFFF0, timers_wrap)" ?ps] by simp
qed

end
