(* ===== verification/ClockProps.thy ===== *)
theory ClockProps
  imports Boot
begin

text \<open>
  The backwash clock and the battery watcher over time: an automatic backwash is requested
  exactly once per period, and the low-voltage state has hysteresis.
\<close>

section \<open>One hour\<close>

text \<open>The alarm interrupt and the turn of the checking thread it wakes.\<close>

definition hour :: stmt where
  "hour s = RTC_Check_pass (HAL_RTC_AlarmAEventCallback s)"

definition clock_ready :: "sys \<Rightarrow> bool" where
  "clock_ready s \<longleftrightarrow> sem_value (RTC_Check_Sem (rtc s)) = 0 \<and> suspend_thread (RTC_Check_Sem (rtc s)) = [] \<and>
     Automatic_Enable (cfg s) \<noteq> 0"

definition period_hours :: "sys \<Rightarrow> nat" where
  "period_hours s = unat (Automatic_Week (cfg s)) * 7 * 24 + unat (Automatic_Day (cfg s)) * 24"

lemma period_bound: "period_hours s \<le> 48960"
proof -
  have "unat (Automatic_Week (cfg s)) \<le> 255" "unat (Automatic_Day (cfg s)) \<le> 255"
    using unsigned_less [of "Automatic_Week (cfg s)", where ?'a = nat] unsigned_less [of "Automatic_Day (cfg s)", where ?'a = nat]
    by simp_all
  then show ?thesis by (simp add: period_hours_def)
qed

lemma unat_rtc_period: "unat (rtc_period (Automatic_Week (cfg s)) (Automatic_Day (cfg s))) = period_hours s"
  unfolding rtc_period_def period_hours_def [symmetric] unat_of_nat using period_bound [of s] by simp

lemma low_power_frame [frame]: "rtc (LowPowerTimerStart s) = rtc s" "cfg (LowPowerTimerStart s) = cfg s" "jmp (LowPowerTimerStart s) = jmp s"
  by (auto simp: LowPowerTimerStart_def whenS_def timer_create_def timer_start_def add_fault_def
      split: option.split prod.split)

text \<open>The reminder side of the check does not touch the automatic side.\<close>

lemma reminder_frame [frame]:
  "cfg (check_reminder s) = cfg s" "RTC_Automatic_Time (rtc (check_reminder s)) = RTC_Automatic_Time (rtc s)"
  "RTC_Check_Sem (rtc (check_reminder s)) = RTC_Check_Sem (rtc s)"
  "JumptoAutomaticFlag (jmp (check_reminder s)) = JumptoAutomaticFlag (jmp s)"
  by (simp_all add: check_reminder_def ifS_def Flash_Set_def JumptoReminder_def)

lemma hour_counts:
  assumes "clock_ready s" "unat (RTC_Automatic_Time (rtc s)) + 1 < period_hours s"
  shows "clock_ready (hour s)" "period_hours (hour s) = period_hours s"
    "unat (RTC_Automatic_Time (rtc (hour s))) = unat (RTC_Automatic_Time (rtc s)) + 1"
    "JumptoAutomaticFlag (jmp (hour s)) = JumptoAutomaticFlag (jmp s)"
    "Counter_Automatic (cfg (hour s)) = Counter_Automatic (cfg s)"
proof -
  have u: "unat (RTC_Automatic_Time (rtc s) + 1) = unat (RTC_Automatic_Time (rtc s)) + 1"
    using assms(2) period_bound [of s] by (simp add: unat_word_ariths)
  then have "\<not> rtc_period (Automatic_Week (cfg s)) (Automatic_Day (cfg s)) \<le> RTC_Automatic_Time (rtc s) + 1"
    using assms(2) by (simp add: word_le_nat_alt unat_rtc_period)
  then show "clock_ready (hour s)" "period_hours (hour s) = period_hours s"
    "unat (RTC_Automatic_Time (rtc (hour s))) = unat (RTC_Automatic_Time (rtc s)) + 1"
    "JumptoAutomaticFlag (jmp (hour s)) = JumptoAutomaticFlag (jmp s)"
    "Counter_Automatic (cfg (hour s)) = Counter_Automatic (cfg s)"
    using assms(1) u
    by (simp_all add: hour_def HAL_RTC_AlarmAEventCallback_def RTC_Timer_Entry_def RTC_Check_def RTC_Check_pass_def
        rtc_take_def rt_sem_trytake_eq rt_sem_release_def clock_ready_def period_hours_def check_automatic_def
        stmt_defs frame Flash_Set_def)
qed

lemma hour_fires:
  assumes "clock_ready s" "unat (RTC_Automatic_Time (rtc s)) + 1 = period_hours s"
  shows "RTC_Automatic_Time (rtc (hour s)) = 0" "JumptoAutomaticFlag (jmp (hour s)) = 1"
    "Counter_Automatic (cfg (hour s)) = Counter_Automatic (cfg s) + 1" "clock_ready (hour s)"
    "period_hours (hour s) = period_hours s"
proof -
  have "unat (RTC_Automatic_Time (rtc s) + 1) = unat (RTC_Automatic_Time (rtc s)) + 1"
    using assms(2) period_bound [of s] by (simp add: unat_word_ariths)
  then have "rtc_period (Automatic_Week (cfg s)) (Automatic_Day (cfg s)) \<le> RTC_Automatic_Time (rtc s) + 1"
    using assms(2) by (simp add: word_le_nat_alt unat_rtc_period)
  then show "RTC_Automatic_Time (rtc (hour s)) = 0" "JumptoAutomaticFlag (jmp (hour s)) = 1"
    "Counter_Automatic (cfg (hour s)) = Counter_Automatic (cfg s) + 1" "clock_ready (hour s)"
    "period_hours (hour s) = period_hours s"
    using assms(1)
    by (simp_all add: hour_def HAL_RTC_AlarmAEventCallback_def RTC_Timer_Entry_def RTC_Check_def RTC_Check_pass_def
        rtc_take_def rt_sem_trytake_eq rt_sem_release_def clock_ready_def period_hours_def check_automatic_def
        JumptoAutomatic_def stmt_defs frame Flash_Set_def)
qed

lemma hours_count:
  assumes "clock_ready s" "RTC_Automatic_Time (rtc s) = 0" "k < period_hours s"
  shows "clock_ready ((hour ^^ k) s) \<and> period_hours ((hour ^^ k) s) = period_hours s \<and>
    unat (RTC_Automatic_Time (rtc ((hour ^^ k) s))) = k \<and>
    JumptoAutomaticFlag (jmp ((hour ^^ k) s)) = JumptoAutomaticFlag (jmp s) \<and>
    Counter_Automatic (cfg ((hour ^^ k) s)) = Counter_Automatic (cfg s)"
  using assms(3)
proof (induction k)
  case (Suc k)
  then show ?case using hour_counts [of "(hour ^^ k) s"] by simp
qed (simp add: assms)

text \<open>
  C17. With the automatic backwash enabled and the clock just restarted, no backwash is requested
  during the hours before the period of weeks and days is over; in the hour in which it is over
  exactly one is requested and counted, and the clock starts again from 0.
\<close>

theorem automatic_backwash_period:
  assumes "clock_ready s" "RTC_Automatic_Time (rtc s) = 0" "0 < period_hours s" "JumptoAutomaticFlag (jmp s) = 0"
  shows "(\<forall>k < period_hours s. JumptoAutomaticFlag (jmp ((hour ^^ k) s)) = 0) \<and>
    JumptoAutomaticFlag (jmp ((hour ^^ period_hours s) s)) = 1 \<and>
    Counter_Automatic (cfg ((hour ^^ period_hours s) s)) = Counter_Automatic (cfg s) + 1 \<and>
    RTC_Automatic_Time (rtc ((hour ^^ period_hours s) s)) = 0"
proof -
  obtain n where n: "period_hours s = Suc n" using assms(3) by (cases "period_hours s") auto
  have h: "clock_ready ((hour ^^ n) s)" "unat (RTC_Automatic_Time (rtc ((hour ^^ n) s))) + 1 = period_hours ((hour ^^ n) s)"
    "Counter_Automatic (cfg ((hour ^^ n) s)) = Counter_Automatic (cfg s)"
    using hours_count [OF assms(1,2), of n] n by auto
  show ?thesis
    using hours_count [OF assms(1,2)] hour_fires [OF h(1,2)] h(3) assms(4) by (simp add: n)
qed

definition clock0 :: sys where
  "clock0 = cfg_update (\<lambda>c. c\<lparr>Automatic_Enable := 1, Automatic_Week := 1, Automatic_Day := 2\<rparr>) sys0"

theorem automatic_backwash_period_witness:
  "JumptoAutomaticFlag (jmp ((hour ^^ 216) clock0)) = 1 \<and> JumptoAutomaticFlag (jmp ((hour ^^ 215) clock0)) = 0"
proof -
  have "clock_ready clock0" "RTC_Automatic_Time (rtc clock0) = 0" "period_hours clock0 = 216" "JumptoAutomaticFlag (jmp clock0) = 0"
    by (simp_all add: clock_ready_def clock0_def sys0_def reset_sys_def sem0_def rt_sem_init_def period_hours_def)
  with automatic_backwash_period [of clock0] show ?thesis by simp
qed

section \<open>Battery\<close>

text \<open>The watcher over a sequence of converter readings, oldest first.\<close>

definition battery_read :: "u32 \<Rightarrow> stmt" where
  "battery_read v s = Battery_pass (board_update (adc_val_update (\<lambda>f. f(3 := v))) s)"

fun small_rises :: "u32 \<Rightarrow> u32 list \<Rightarrow> bool" where
  "small_rises p [] = True"
| "small_rises p (v # vs) = (unat v \<le> unat p + 200 \<and> v \<le> 4095 \<and> small_rises v vs)"

lemma battery_stays_low:
  assumes "LowVoltageFlag (bat s) \<noteq> 0" "unat v \<le> unat (NowBatVol (bat s)) + 200" "v \<le> 4095" "NowBatVol (bat s) \<le> 4095"
  shows "LowVoltageFlag (bat (battery_read v s)) \<noteq> 0" "NowBatVol (bat (battery_read v s)) = v"
    "JumpToBatteryNewFlag (jmp (battery_read v s)) = JumpToBatteryNewFlag (jmp s)"
proof -
  have "unat (200 + NowBatVol (bat s)) = 200 + unat (NowBatVol (bat s))"
    using assms(4) by (simp add: unat_word_ariths word_le_nat_alt)
  then have "\<not> v > 200 + NowBatVol (bat s)" using assms(2) by (simp add: word_less_nat_alt)
  then show "LowVoltageFlag (bat (battery_read v s)) \<noteq> 0" "NowBatVol (bat (battery_read v s)) = v"
    "JumpToBatteryNewFlag (jmp (battery_read v s)) = JumpToBatteryNewFlag (jmp s)"
    using assms(1) by (simp_all add: battery_read_def Battery_pass_def adc_defs stmt_defs)
qed

lemma battery_low_run:
  assumes "LowVoltageFlag (bat s) \<noteq> 0" "NowBatVol (bat s) \<le> 4095" "small_rises (NowBatVol (bat s)) vs"
  shows "LowVoltageFlag (bat (fold battery_read vs s)) \<noteq> 0"
  using assms
proof (induction vs arbitrary: s)
  case (Cons v vs)
  then show ?case using battery_stays_low [of s v] by simp
qed simp

text \<open>
  C33. A reading between 1000 and 2650 sets the low-voltage state and asks for the empty-battery
  window; from then on the state is kept, however high the readings climb, as long as no single
  reading (of the 12-bit converter) is more than 200 above the one before it.
\<close>

theorem battery_hysteresis:
  assumes "LowVoltageFlag (bat s) = 0" "1000 < v" "v < 2650" "small_rises v vs"
  shows "JumpToBatteryEmptyFlag (jmp (battery_read v s)) = 1 \<and>
    LowVoltageFlag (bat (fold battery_read (v # vs) s)) \<noteq> 0"
proof -
  have l: "LowVoltageFlag (bat (battery_read v s)) = 1" "NowBatVol (bat (battery_read v s)) = v"
    "JumpToBatteryEmptyFlag (jmp (battery_read v s)) = 1"
    using assms(1-3) by (simp_all add: battery_read_def Battery_pass_def adc_defs stmt_defs JumpToBatteryEmpty_def)
  have "v \<le> 4095" using assms(3) by unat_arith
  with l assms(4) show ?thesis using battery_low_run [of "battery_read v s" vs] by simp
qed

theorem battery_hysteresis_witness:
  "LowVoltageFlag (bat (fold battery_read [2600, 2700, 2900, 3000] sys0)) \<noteq> 0"
proof -
  have "LowVoltageFlag (bat sys0) = 0" "small_rises 2600 [2700, 2900, 3000]"
    by (simp_all add: sys0_def reset_sys_def)
  with battery_hysteresis [of sys0 2600 "[2700, 2900, 3000]"] show ?thesis by simp
qed

end
