(* ===== verification/SleepProps.thy ===== *)
theory SleepProps
  imports MotoProps
begin

text \<open>
  Display power, keys and sleep: what a key press does depending on the power state of the
  display, what the board looks like in stop mode and after it, and what the sleep does to a
  backwash that is under way.
\<close>

section \<open>What the display start-up leaves alone\<close>

lemma block_inv: "(\<And>f s. f \<in> set fs \<Longrightarrow> h (f s) = h s) \<Longrightarrow> h (block fs s) = h s"
  by (induction fs arbitrary: s) auto

lemma LcdInit_inv:
  assumes "\<And>f s. h (board_update f s) = h s"
  shows "h (LcdInit s) = h s"
proof -
  have pin: "h (rt_pin_write p v s) = h s" "h (rt_pin_mode p m s) = h s" for p v m s
    by (simp_all add: pin_defs assms)
  have "h (lcd_shift n b s) = h s" for n b s
    by (induction n arbitrary: b s) (simp_all add: lcd_bit_def ifS_def pin)
  then have byte: "h (WriteLcdCommand b s) = h s" "h (WriteLcdData b s) = h s" for b s
    by (simp_all add: WriteLcdCommand_def WriteLcdData_def pin)
  have page: "h (fill_page v i s) = h s" for v i s
    unfolding fill_page_def lcd_address_def by (rule block_inv) (auto simp: byte)
  have "h (clear_screen s) = h s" for s
    unfolding clear_screen_def by (rule block_inv) (auto simp: page)
  then show ?thesis by (simp add: LcdInit_def LcdGpioConfig_def byte pin)
qed

lemma LcdInit_frame [frame]:
  "kys (LcdInit s) = kys s" "tmr (LcdInit s) = tmr s" "moto (LcdInit s) = moto s" "LCD_Flag (ui (LcdInit s)) = LCD_Flag (ui s)"
  "pWin (ui (LcdInit s)) = pWin (ui s)" "FirstFlag (ui (LcdInit s)) = FirstFlag (ui s)"
  by (rule LcdInit_inv; simp)+

lemma OpenLcdDisplay_frame [frame]:
  "kys (OpenLcdDisplay s) = kys s" "tmr (OpenLcdDisplay s) = tmr s" "moto (OpenLcdDisplay s) = moto s"
  by (auto simp: OpenLcdDisplay_def switchS_def frame pin_defs split: option.split)

lemma OpenLcdDisplay_flag:
  "LCD_Flag (ui (OpenLcdDisplay s)) = (if LCD_Flag (ui s) \<in> {2, 3} then 1 else if LCD_Flag (ui s) = 1 then 0 else LCD_Flag (ui s))"
  by (simp add: OpenLcdDisplay_def switchS_def frame pin_defs)

lemma refresh_frame [frame]: "kys (ScreenTimerRefresh s) = kys s" "ui (ScreenTimerRefresh s) = ui s"
  by (auto simp: ScreenTimerRefresh_def timer_start_def add_fault_def split: option.split)

section \<open>Keys and the display\<close>

definition no_key_waiters :: "sys \<Rightarrow> bool" where
  "no_key_waiters s \<longleftrightarrow> suspend_thread (K0_Sem (kys s)) = [] \<and> suspend_thread (K1_Sem (kys s)) = [] \<and>
     suspend_thread (K2_Sem (kys s)) = [] \<and> suspend_thread (K2_Long_Sem (kys s)) = []"

lemma K1_release:
  "LCD_Flag (ui (K1_Sem_Release s)) = LCD_Flag (ui (OpenLcdDisplay s))"
  "kys (K1_Sem_Release s) = (if LCD_Flag (ui (OpenLcdDisplay s)) = 0
     then K1_Sem_update (\<lambda>m. snd (rt_sem_release m)) (kys s) else kys s)"
  by (auto simp: K1_Sem_Release_def whenS_def frame)

text \<open>
  The first press of a key on a dark display only lights it: no press is handed to the
  windows. The second press makes the display operable and is handed on.
\<close>

theorem dark_display_first_press:
  assumes "LCD_Flag (ui s) = 2 \<or> LCD_Flag (ui s) = 3" "no_key_waiters s"
  shows "LCD_Flag (ui (K1_Sem_Release s)) = 1 \<and> kys (K1_Sem_Release s) = kys s \<and>
    LCD_Flag (ui (K1_Sem_Release (K1_Sem_Release s))) = 0 \<and>
    sem_value (K1_Sem (kys (K1_Sem_Release (K1_Sem_Release s)))) = sem_value (K1_Sem (kys s)) + 1"
  using assms by (auto simp: K1_release OpenLcdDisplay_flag no_key_waiters_def rt_sem_release_def)

definition dark0 :: sys where
  "dark0 = ui_set LCD_Flag_update 3 sys0"

theorem dark_display_first_press_witness:
  "LCD_Flag (ui (K1_Sem_Release dark0)) = 1 \<and> kys (K1_Sem_Release dark0) = kys dark0"
proof -
  have "LCD_Flag (ui dark0) = 3" "no_key_waiters dark0"
    by (simp_all add: dark0_def sys0_def reset_sys_def no_key_waiters_def sem0_def rt_sem_init_def)
  with dark_display_first_press [of dark0] show ?thesis by simp
qed

text \<open>The long press of the third key, counted by its callback.\<close>

definition long_count :: "sys \<Rightarrow> nat" where
  "long_count s = unat (K2_Long_Counter (kys s))"

lemma long_press_step:
  assumes "no_key_waiters s"
  shows "K2_Long_Flag (kys s) = 1 \<Longrightarrow> kys (K2_Long_Sem_Release s) = kys s"
    "K2_Long_Flag (kys s) = 0 \<Longrightarrow> long_count s < 10 \<Longrightarrow>
       kys (K2_Long_Sem_Release s) = kys s\<lparr>K2_Long_Counter := K2_Long_Counter (kys s) + 1\<rparr>"
    "K2_Long_Flag (kys s) = 0 \<Longrightarrow> long_count s = 10 \<Longrightarrow>
       kys (K2_Long_Sem_Release s) = kys s\<lparr>K2_Long_Counter := 0, K2_Long_Flag := 1,
         K2_Long_Sem := K2_Long_Sem (kys s)\<lparr>sem_value := sem_value (K2_Long_Sem (kys s)) + 1\<rparr>\<rparr>"
proof -
  have u: "unat (K2_Long_Counter (kys s) + 1) = long_count s + 1" if "long_count s \<le> 10"
    using that by (simp add: long_count_def unat_word_ariths)
  show "K2_Long_Flag (kys s) = 1 \<Longrightarrow> kys (K2_Long_Sem_Release s) = kys s"
    by (simp add: K2_Long_Sem_Release_def whenS_def frame)
  show "K2_Long_Flag (kys s) = 0 \<Longrightarrow> long_count s < 10 \<Longrightarrow>
       kys (K2_Long_Sem_Release s) = kys s\<lparr>K2_Long_Counter := K2_Long_Counter (kys s) + 1\<rparr>"
    using u by (simp add: K2_Long_Sem_Release_def whenS_def frame word_less_nat_alt)
  show "K2_Long_Flag (kys s) = 0 \<Longrightarrow> long_count s = 10 \<Longrightarrow>
       kys (K2_Long_Sem_Release s) = kys s\<lparr>K2_Long_Counter := 0, K2_Long_Flag := 1,
         K2_Long_Sem := K2_Long_Sem (kys s)\<lparr>sem_value := sem_value (K2_Long_Sem (kys s)) + 1\<rparr>\<rparr>"
    using u assms by (simp add: K2_Long_Sem_Release_def whenS_def frame word_less_nat_alt no_key_waiters_def rt_sem_release_def)
qed

lemma long_press_run:
  assumes "no_key_waiters s" "K2_Long_Flag (kys s) = 0" "long_count s = 0"
  shows "no_key_waiters ((K2_Long_Sem_Release ^^ n) s) \<and>
    K2_Long_Flag (kys ((K2_Long_Sem_Release ^^ n) s)) = (if n < 11 then 0 else 1) \<and>
    (n < 11 \<longrightarrow> long_count ((K2_Long_Sem_Release ^^ n) s) = n) \<and>
    sem_value (K2_Long_Sem (kys ((K2_Long_Sem_Release ^^ n) s))) = sem_value (K2_Long_Sem (kys s)) + (if n < 11 then 0 else 1)"
proof (induction n)
  case (Suc n)
  define t where "t = (K2_Long_Sem_Release ^^ n) s"
  note IH = Suc [folded t_def]
  have "K2_Long_Flag (kys t) = 0 \<and> long_count t < 10 \<or> K2_Long_Flag (kys t) = 0 \<and> long_count t = 10 \<or> K2_Long_Flag (kys t) = 1"
    using IH by (auto split: if_splits)
  then show ?case
    using IH long_press_step [of t]
    by (auto simp: t_def [symmetric] no_key_waiters_def long_count_def unat_word_ariths split: if_splits)
qed (simp add: assms)

text \<open>
  While the third key is held, exactly the eleventh long press event opens the settings: one
  press is handed on, however long the key is held after that.
\<close>

theorem long_press_opens_settings_once:
  assumes "no_key_waiters s" "K2_Long_Flag (kys s) = 0" "K2_Long_Counter (kys s) = 0"
  shows "sem_value (K2_Long_Sem (kys ((K2_Long_Sem_Release ^^ n) s))) =
    sem_value (K2_Long_Sem (kys s)) + (if n < 11 then 0 else 1)"
  using long_press_run [of s n] assms by (simp add: long_count_def)

theorem long_press_opens_settings_once_witness:
  "sem_value (K2_Long_Sem (kys ((K2_Long_Sem_Release ^^ 40) sys0))) = 1"
proof -
  have "no_key_waiters sys0" "K2_Long_Flag (kys sys0) = 0" "K2_Long_Counter (kys sys0) = 0" "sem_value (K2_Long_Sem (kys sys0)) = 0"
    by (simp_all add: sys0_def reset_sys_def no_key_waiters_def sem0_def rt_sem_init_def)
  then show ?thesis unfolding long_press_opens_settings_once [OF \<open>no_key_waiters sys0\<close> \<open>K2_Long_Flag (kys sys0) = 0\<close> \<open>K2_Long_Counter (kys sys0) = 0\<close>]
    by simp
qed

section \<open>Stop mode\<close>

lemmas sleep_defs = BeforSleep_def AfterWake_def Led_DeInit_def Led_Init_def Moto_Pin_DeInit_def Moto_Pin_Init_def
  FlashDeInit_def FlashInit_def ADC_Pin_DeInit_def ADC_Pin_Init_def WifiDeInit_def Tds_DeInit_def Tds_Init_def
  CloseLcdVcc_def

text \<open>What one call of the pin driver changes on the board.\<close>

lemma pin_calls:
  "pin_out (board (rt_pin_write q v s)) = (pin_out (board s))(q := v)" "pin_out (board (rt_pin_mode q md s)) = pin_out (board s)"
  "pin_out (board (rt_pin_attach_irq q hh s)) = pin_out (board s)" "pin_out (board (rt_pin_irq_enable q s)) = pin_out (board s)"
  "pin_irq (board (rt_pin_write q v s)) = pin_irq (board s)" "pin_irq (board (rt_pin_mode q md s)) = pin_irq (board s)"
  "pin_irq (board (rt_pin_attach_irq q hh s)) = (pin_irq (board s))(q \<mapsto> hh)" "pin_irq (board (rt_pin_irq_enable q s)) = pin_irq (board s)"
  "pin_irq_on (board (rt_pin_write q v s)) = pin_irq_on (board s)" "pin_irq_on (board (rt_pin_mode q md s)) = pin_irq_on (board s)"
  "pin_irq_on (board (rt_pin_attach_irq q hh s)) = pin_irq_on (board s)" "pin_irq_on (board (rt_pin_irq_enable q s)) = (pin_irq_on (board s))(q := True)"
  "clk_spi2 (board (rt_pin_write q v s)) = clk_spi2 (board s)" "clk_spi2 (board (rt_pin_mode q md s)) = clk_spi2 (board s)"
  "clk_adc (board (rt_pin_write q v s)) = clk_adc (board s)" "clk_adc (board (rt_pin_mode q md s)) = clk_adc (board s)"
  "clk_usart2 (board (rt_pin_write q v s)) = clk_usart2 (board s)" "clk_usart2 (board (rt_pin_mode q md s)) = clk_usart2 (board s)"
  "ui (rt_pin_write q v s) = ui s" "ui (rt_pin_mode q md s) = ui s" "ui (rt_pin_attach_irq q hh s) = ui s" "ui (rt_pin_irq_enable q s) = ui s"
  "moto (rt_pin_write q v s) = moto s" "moto (rt_pin_mode q md s) = moto s" "moto (rt_pin_attach_irq q hh s) = moto s" "moto (rt_pin_irq_enable q s) = moto s"
  by (simp_all add: pin_defs)

text \<open>
  Before the processor stops, the motor, flash, display and radio supplies and the motor
  inputs are low, the lamps are off, the clocks of the three peripherals are off, the display
  is marked as switched off, and each of the three keys can wake the processor.
\<close>

theorem board_asleep:
  "(\<forall>p \<in> {MOTO_IN1, MOTO_IN2, MOTO_VCC, FLASH_EN, LCD_EN, WIFI_EN}. pin_out (board (BeforSleep s)) p = 0) \<and>
   (\<forall>p \<in> {LED_R_PIN, LED_G_PIN, LED_B_PIN}. pin_out (board (BeforSleep s)) p = 1) \<and>
   \<not> clk_spi2 (board (BeforSleep s)) \<and> \<not> clk_adc (board (BeforSleep s)) \<and> \<not> clk_usart2 (board (BeforSleep s)) \<and>
   LCD_Flag (ui (BeforSleep s)) = 3 \<and>
   (\<forall>p \<in> {K0_PIN, K1_PIN, K2_PIN}. pin_irq (board (BeforSleep s)) p = Some button_wakeup_irq \<and> pin_irq_on (board (BeforSleep s)) p)"
  by (simp add: sleep_defs pin_calls)

theorem board_asleep_witness: "pin_out (board (BeforSleep sys0)) LCD_EN = 0"
  using board_asleep [of sys0] by simp

text \<open>What drawing leaves alone: everything here but the three pins of the display bus.\<close>

definition undrawn :: "sys \<Rightarrow> u8 \<times> (nat \<Rightarrow> nat) \<times> (nat \<Rightarrow> u8) \<times> u8 \<times> moto_st \<times> (nat \<Rightarrow> u8) \<times> bool \<times> bool \<times> bool" where
  "undrawn s = (pWin (ui s), winStack (ui s), FirstFlag (ui s), LCD_Flag (ui s), moto s,
     (\<lambda>p. if p = LCD_CS \<or> p = LCD_SDA \<or> p = LCD_CLK then 0 else pin_out (board s) p),
     clk_spi2 (board s), clk_adc (board s), clk_usart2 (board s))"

interpretation still: draw_part "\<lambda>s. undrawn s = v"
  by unfold_locales (auto simp: undrawn_def add_fault_def pin_defs fun_eq_iff)

lemma undrawn_GuiWinDraw: "undrawn (GuiWinDraw w s) = undrawn s" "undrawn (GuiClearScreen c s) = undrawn s"
  by (rule keepsD [OF still.keeps_windraw] keepsD [OF still.keeps_clear], rule refl)+

lemma undrawnD:
  assumes "undrawn t = undrawn s"
  shows "pWin (ui t) = pWin (ui s)" "winStack (ui t) = winStack (ui s)" "FirstFlag (ui t) = FirstFlag (ui s)"
    "LCD_Flag (ui t) = LCD_Flag (ui s)" "moto t = moto s"
    "p \<noteq> LCD_CS \<Longrightarrow> p \<noteq> LCD_SDA \<Longrightarrow> p \<noteq> LCD_CLK \<Longrightarrow> pin_out (board t) p = pin_out (board s) p"
    "clk_spi2 (board t) = clk_spi2 (board s)" "clk_adc (board t) = clk_adc (board s)" "clk_usart2 (board t) = clk_usart2 (board s)"
  using assms by (auto simp: undrawn_def fun_eq_iff split: if_splits)

lemmas drawn_frame = undrawnD [OF undrawn_GuiWinDraw(1)] undrawnD [OF undrawn_GuiWinDraw(2)]

lemma JumptoMainWin_state:
  "pWin (ui (JumptoMainWin s)) = 1" "winStack (ui (JumptoMainWin s)) 0 = 1"
  "FirstFlag (ui (JumptoMainWin s)) i = (if i < 27 then 0 else FirstFlag (ui s) i)"
  "LCD_Flag (ui (JumptoMainWin s)) = LCD_Flag (ui s)" "moto (JumptoMainWin s) = moto s"
  "p \<noteq> LCD_CS \<Longrightarrow> p \<noteq> LCD_SDA \<Longrightarrow> p \<noteq> LCD_CLK \<Longrightarrow> pin_out (board (JumptoMainWin s)) p = pin_out (board s) p"
  "clk_spi2 (board (JumptoMainWin s)) = clk_spi2 (board s)" "clk_adc (board (JumptoMainWin s)) = clk_adc (board s)"
  "clk_usart2 (board (JumptoMainWin s)) = clk_usart2 (board s)"
  by (simp_all add: JumptoMainWin_def memset_FirstFlag_def GuiWinInit_def GuiWinAdd_def drawn_frame)

lemma wake_isr_frame [frame]:
  "board (wake_isr w s) = board s" "ui (wake_isr w s) = ui s" "moto (wake_isr w s) = moto s"
  by (auto simp: wake_isr_def button_wakeup_def Delta_press_def HAL_RTC_AlarmAEventCallback_def RTC_Timer_Entry_def
      RTC_Check_def whenS_def split: wake.split)

lemma wake_flag: "Button_Wakeup_Flag (kys (wake_isr w (kys_update (Button_Wakeup_Flag_update (\<lambda>_. 0)) s))) = (if w = WakeKey then 1 else 0)"
  by (auto simp: wake_isr_def button_wakeup_def Delta_press_def HAL_RTC_AlarmAEventCallback_def RTC_Timer_Entry_def
      RTC_Check_def whenS_def split: wake.split)

lemma AfterWake_frame [frame]: "ui (AfterWake s) = ui s" "moto (AfterWake s) = moto s" "moto (BeforSleep s) = moto s"
  "pWin (ui (BeforSleep s)) = pWin (ui s)" "winStack (ui (BeforSleep s)) = winStack (ui s)"
  "FirstFlag (ui (BeforSleep s)) = FirstFlag (ui s)" "LCD_Flag (ui (BeforSleep s)) = 3"
  by (simp_all add: sleep_defs pin_calls)

lemma AfterWake_pins: "pin_out (board (AfterWake s)) MOTO_IN1 = 0" "pin_out (board (AfterWake s)) MOTO_IN2 = 0"
  "pin_out (board (AfterWake s)) MOTO_VCC = 1" "pin_out (board (AfterWake s)) FLASH_EN = 1"
  "clk_spi2 (board (AfterWake s))" "clk_adc (board (AfterWake s))" "clk_usart2 (board (AfterWake s))"
  by (simp_all add: sleep_defs pin_calls)

text \<open>
  After the processor wakes, the supplies and clocks are back and the display is still off.
  A key press has brought the display back to the main menu with a stack of one window; an hourly
  alarm or the flow sensor leaves the open windows as they were.
\<close>

theorem wake_up:
  "pin_out (board (EnterLowPower w s)) MOTO_VCC = 1 \<and> pin_out (board (EnterLowPower w s)) FLASH_EN = 1 \<and>
   clk_spi2 (board (EnterLowPower w s)) \<and> clk_adc (board (EnterLowPower w s)) \<and> clk_usart2 (board (EnterLowPower w s)) \<and>
   LCD_Flag (ui (EnterLowPower w s)) = 3 \<and>
   (if w = WakeKey then pWin (ui (EnterLowPower w s)) = 1 \<and> winStack (ui (EnterLowPower w s)) 0 = 1
    else pWin (ui (EnterLowPower w s)) = pWin (ui s) \<and> winStack (ui (EnterLowPower w s)) = winStack (ui s))"
  by (simp add: EnterLowPower_def ifS_def wake_flag JumptoMainWin_state frame AfterWake_pins)

text \<open>
  C37. The sleep sequence does not look at the motor: entered while the motor drives the valve, it
  leaves both bridge inputs low and the motor marked as running.
\<close>

theorem sleep_ignores_motor:
  assumes "driving s"
  shows "in1 (EnterLowPower w s) = 0 \<and> in2 (EnterLowPower w s) = 0 \<and> MotoWorkFlag (moto (EnterLowPower w s)) = 1"
  using assms
  by (simp add: driving_def EnterLowPower_def ifS_def JumptoMainWin_state frame AfterWake_pins)

theorem sleep_ignores_motor_witness:
  "in2 (Moto_pass (Moto_Cycle sys0)) = 1 \<and> in2 (EnterLowPower WakeRtc (Moto_pass (Moto_Cycle sys0))) = 0"
  using sleep_ignores_motor [OF driving0, of WakeRtc] driving0 by (simp add: driving_def)

end
