(* ===== verification/FrameProps.thy ===== *)
theory FrameProps
  imports Boot
begin

text \<open>
  What the drawing primitives put on the screen. \<open>paints m f\<close> says that the statement \<open>f\<close>
  gives the pixels in the domain of \<open>m\<close> their value there, leaves all others and changes
  nothing but the frame buffer, so in particular writes nowhere outside it.
\<close>

section \<open>Pixels\<close>

definition pixel :: "sys \<Rightarrow> nat \<times> nat \<Rightarrow> bool" where
  "pixel s = (\<lambda>(a, b). bit (x_to_page (ui s) a (b div 8)) (b mod 8))"

definition paints :: "(nat \<times> nat \<rightharpoonup> bool) \<Rightarrow> stmt \<Rightarrow> bool" where
  "paints m f \<longleftrightarrow> (\<forall>s. (\<forall>p. pixel (f s) p = (case m p of Some v \<Rightarrow> v | None \<Rightarrow> pixel s p)) \<and>
     f s = ui_update (x_to_page_update (\<lambda>_. x_to_page (ui (f s)))) s)"

lemma paints_pixel: "paints m f \<Longrightarrow> pixel (f s) p = (case m p of Some v \<Rightarrow> v | None \<Rightarrow> pixel s p)"
  unfolding paints_def by blast

lemma paints_only: "paints m f \<Longrightarrow> f s = ui_update (x_to_page_update (\<lambda>_. x_to_page (ui (f s)))) s"
  unfolding paints_def by blast

lemma paints_faults: "paints m f \<Longrightarrow> faults (f s) = faults s"
  by (subst paints_only [of m f]) simp_all

lemma bit_put_bit: "k < 8 \<Longrightarrow> j < 8 \<Longrightarrow> bit (put_bit k c v) j = (if j = k then c \<noteq> 0 else bit v j)"
  by (auto simp: put_bit_def bit_and_iff bit_or_iff bit_not_iff bit_exp_iff)

lemma div_mod_eq_8: "a div 8 = b div 8 \<Longrightarrow> (a mod 8 = b mod (8::nat)) = (a = b)"
  by (metis mult_div_mod_eq)

lemma put_dot_paints:
  assumes "0 \<le> x" "x < GUIXMAX" "0 \<le> y" "y < GUIYMAX"
  shows "paints [(nat x, nat y) \<mapsto> c \<noteq> 0] (put_dot x y c)"
  using assms
  by (auto simp: paints_def pixel_def put_dot_def bit_put_bit div_mod_eq_8)

lemma paints_none: "paints Map.empty (\<lambda>s. s)"
  by (simp add: paints_def)

lemma paints_cong: "paints m f \<Longrightarrow> m = m' \<Longrightarrow> paints m' f"
  by simp

lemma paints_seq:
  assumes "paints m f" "paints m' g"
  shows "paints (m ++ m') (\<lambda>s. g (f s))"
  unfolding paints_def
proof (intro allI conjI)
  fix s p
  show "pixel (g (f s)) p = (case (m ++ m') p of Some v \<Rightarrow> v | None \<Rightarrow> pixel s p)"
    using assms by (simp add: paints_pixel map_add_def split: option.split)
  show "g (f s) = ui_update (x_to_page_update (\<lambda>_. x_to_page (ui (g (f s))))) s"
    by (subst paints_only [OF assms(2)], subst paints_only [OF assms(1)]) simp
qed

text \<open>A sequence of figures that agree with one picture \<open>M\<close> and cover it.\<close>

lemma block_paints:
  assumes "\<And>i. i \<in> set is \<Longrightarrow> paints (m i) (f i)" "\<And>i. i \<in> set is \<Longrightarrow> m i \<subseteq>\<^sub>m M"
  shows "paints (M |` (\<Union>i\<in>set is. dom (m i))) (block (map f is))"
  using assms
proof (induction "is")
  case Nil
  then show ?case using paints_none by (simp add: paints_def)
next
  case (Cons i "is")
  have "paints (m i ++ M |` (\<Union>i\<in>set is. dom (m i))) (\<lambda>s. block (map f is) (f i s))"
    using Cons by (intro paints_seq) auto
  moreover have "m i ++ M |` (\<Union>i\<in>set is. dom (m i)) = M |` (\<Union>i\<in>set (i # is). dom (m i))"
  proof
    fix p
    show "(m i ++ M |` (\<Union>i\<in>set is. dom (m i))) p = (M |` (\<Union>i\<in>set (i # is). dom (m i))) p"
    proof (cases "m i p")
      case None
      then show ?thesis by (simp add: map_add_def restrict_map_def domIff split: option.split)
    next
      case (Some v)
      then have "M p = Some v" using Cons.prems(2) [of i] by (force simp: map_le_def)
      with Some show ?thesis by (simp add: map_add_def restrict_map_def domIff)
    qed
  qed
  ultimately show ?case by (simp add: paints_def)
qed

lemma block_map_paints:
  assumes "\<And>i. i \<in> set is \<Longrightarrow> paints (m i) (f i)" "\<And>i. i \<in> set is \<Longrightarrow> m i \<subseteq>\<^sub>m M"
    and "dom M \<subseteq> (\<Union>i\<in>set is. dom (m i))"
  shows "paints M (block (map f is))"
proof -
  have "(M |` (\<Union>i\<in>set is. dom (m i))) p = M p" for p
    using assms(3) by (cases "M p") (force simp: restrict_map_def)+
  then have "M |` (\<Union>i\<in>set is. dom (m i)) = M" by (rule ext)
  then show ?thesis using block_paints [of "is" m f M] assms(1,2) by simp
qed

section \<open>Lines\<close>

lemma plot_loop_block:
  "0 < iv \<Longrightarrow> lo \<le> hi \<Longrightarrow>
   plot_loop plot lo hi iv s = block (map plot (map (\<lambda>k. lo + int iv * int k) [0..<Suc (nat ((hi - lo) div int iv))])) s"
proof (induction plot lo hi iv s rule: plot_loop.induct)
  case (1 plot lo hi iv s)
  show ?case
  proof (cases "lo + int iv > hi")
    case True
    then have "(hi - lo) div int iv = 0" using "1.prems" by (simp add: div_pos_pos_trivial)
    then show ?thesis using True "1.prems" by (simp add: plot_loop.simps)
  next
    case False
    define n where "n = nat ((hi - (lo + int iv)) div int iv)"
    have "hi - lo = (hi - (lo + int iv)) + int iv" by simp
    then have "(hi - lo) div int iv = (hi - (lo + int iv)) div int iv + 1"
      using "1.prems" by (metis div_add_self2 less_numeral_extra(3) of_nat_0_less_iff)
    then have n: "nat ((hi - lo) div int iv) = Suc n"
      using False "1.prems" by (simp add: n_def nat_add_distrib pos_imp_zdiv_nonneg_iff)
    have "plot_loop plot lo hi iv s = plot_loop plot (lo + int iv) hi iv (plot lo s)"
      using False "1.prems" by (simp add: plot_loop.simps [of plot lo])
    also have "\<dots> = block (map plot (map (\<lambda>k. lo + int iv + int iv * int k) [0..<Suc n])) (plot lo s)"
      using False "1.prems" "1.IH" unfolding n_def by simp
    also have "map (\<lambda>k. lo + int iv + int iv * int k) [0..<Suc n] = map (\<lambda>k. lo + int iv * int k) [1..<Suc (Suc n)]"
      by (simp add: map_Suc_upt [symmetric] algebra_simps del: upt_Suc)
    finally show ?thesis using n by (simp add: upt_conv_Cons del: upt_Suc)
  qed
qed


text \<open>The columns (or rows) of a line that are on the screen.\<close>

definition on_line :: "int \<Rightarrow> int \<Rightarrow> int \<Rightarrow> nat \<Rightarrow> int \<Rightarrow> bool" where
  "on_line a b mx iv i \<longleftrightarrow> max 0 (min a b) \<le> i \<and> i \<le> min (mx - 1) (max a b) \<and> int iv dvd i - max 0 (min a b)"

lemma stepped_set:
  assumes "0 < iv" "lo \<le> hi"
  shows "set (map (\<lambda>k. lo + int iv * int k) [0..<Suc (nat ((hi - lo) div int iv))]) =
    {i. lo \<le> i \<and> i \<le> hi \<and> int iv dvd i - lo}"
proof (intro set_eqI iffI)
  fix i assume "i \<in> set (map (\<lambda>k. lo + int iv * int k) [0..<Suc (nat ((hi - lo) div int iv))])"
  then obtain k where k: "i = lo + int iv * int k" "int k \<le> (hi - lo) div int iv"
    using assms by (auto simp: less_Suc_eq_le pos_imp_zdiv_nonneg_iff le_nat_iff simp del: upt_Suc)
  then have "int iv * int k \<le> int iv * ((hi - lo) div int iv)" by (simp add: mult_left_mono)
  also have "\<dots> \<le> hi - lo"
    using assms pos_mod_sign [of "int iv" "hi - lo"] mult_div_mod_eq [of "int iv" "hi - lo"] by linarith
  finally show "i \<in> {i. lo \<le> i \<and> i \<le> hi \<and> int iv dvd i - lo}" using k by simp
next
  fix i assume "i \<in> {i. lo \<le> i \<and> i \<le> hi \<and> int iv dvd i - lo}"
  then obtain q where q: "i - lo = int iv * q" "lo \<le> i" "i \<le> hi" by auto
  then have "0 \<le> q" using assms by (metis diff_ge_0_iff_ge of_nat_0_less_iff zero_le_mult_iff linorder_not_less)
  moreover have "q \<le> (hi - lo) div int iv"
    using q assms by (metis diff_right_mono nonzero_mult_div_cancel_left of_nat_0_less_iff order_less_irrefl zdiv_mono1)
  ultimately show "i \<in> set (map (\<lambda>k. lo + int iv * int k) [0..<Suc (nat ((hi - lo) div int iv))])"
    using q by (auto simp: image_iff less_Suc_eq_le nat_mono intro!: bexI [of _ "nat q"] simp del: upt_Suc)
qed

lemma clipped_line_paints:
  assumes "0 < iv" "0 < mx" "\<And>i. 0 \<le> i \<Longrightarrow> i < mx \<Longrightarrow> paints [g i \<mapsto> v] (plot i)"
  shows "paints (\<lambda>p. if \<exists>i. on_line a b mx iv i \<and> p = g i then Some v else None) (clipped_line plot a b mx iv)"
proof -
  define lo hi where "lo = max 0 (min a b)" and "hi = min (mx - 1) (max a b)"
  let ?M = "\<lambda>p. if \<exists>i. on_line a b mx iv i \<and> p = g i then Some v else None"
  consider (out) "max a b < 0 \<or> min a b \<ge> mx" | (on) "\<not> (max a b < 0 \<or> min a b \<ge> mx)" "lo \<le> hi"
    using assms(2) by (fastforce simp: lo_def hi_def)
  then show ?thesis
  proof cases
    case out
    then have "clipped_line plot a b mx iv = (\<lambda>s. s)" "\<not> on_line a b mx iv i" for i
      by (auto simp: clipped_line_def fun_eq_iff Let_def on_line_def)
    then show ?thesis using paints_none by simp
  next
    case on
    let ?is = "map (\<lambda>k. lo + int iv * int k) [0..<Suc (nat ((hi - lo) div int iv))]"
    have i: "i \<in> set ?is \<longleftrightarrow> on_line a b mx iv i" for i
      using stepped_set [OF assms(1) on(2)] by (auto simp: on_line_def lo_def hi_def simp del: upt_Suc)
    have "paints ?M (block (map plot ?is))"
    proof (rule block_map_paints [where m = "\<lambda>i. [g i \<mapsto> v]"])
      fix i assume "i \<in> set ?is"
      then have l: "on_line a b mx iv i" using i by blast
      then show "paints [g i \<mapsto> v] (plot i)" by (intro assms(3)) (auto simp: on_line_def)
      show "[g i \<mapsto> v] \<subseteq>\<^sub>m ?M" using l by (auto simp: map_le_def)
    qed (use i in \<open>force simp: dom_def split: if_splits\<close>)
    moreover have "clipped_line plot a b mx iv s = block (map plot ?is) s" for s
    proof -
      have e: "(if a > b then b else a) = min a b" "(if a > b then a else b) = max a b"
        "(if max a b \<ge> mx then mx - 1 else max a b) = hi" "(if min a b < 0 then 0 else min a b) = lo"
        by (auto simp: lo_def hi_def)
      have "clipped_line plot a b mx iv s = (if lo = hi then plot lo s else plot_loop plot lo hi iv s)"
        unfolding clipped_line_def Let_def e using on(1) by auto
      also have "\<dots> = plot_loop plot lo hi iv s" using assms(1) by (simp add: plot_loop.simps [of plot hi hi iv s])
      finally show ?thesis using plot_loop_block [OF assms(1) on(2), of plot s] by (rule trans)
    qed
    ultimately show ?thesis by (simp add: paints_def)
  qed
qed

lemma hline_paints:
  assumes "0 < iv"
  shows "paints (\<lambda>(a, b). if int b = y0 \<and> b < 64 \<and> on_line x0 x1 GUIXMAX iv (int a) then Some (c \<noteq> 0) else None)
    (GuiHPointLine x0 y0 x1 iv c)"
proof (cases "y0 < 0 \<or> y0 \<ge> GUIYMAX")
  case True
  then have "GuiHPointLine x0 y0 x1 iv c = (\<lambda>s. s)" by (simp add: GuiHPointLine_def fun_eq_iff)
  moreover have "(\<lambda>(a, b). if int b = y0 \<and> b < 64 \<and> on_line x0 x1 GUIXMAX iv (int a) then Some (c \<noteq> 0) else None) = Map.empty"
    using True by (auto simp: fun_eq_iff)
  ultimately show ?thesis by (simp add: paints_none)
next
  case False
  then have "paints (\<lambda>p. if \<exists>i. on_line x0 x1 GUIXMAX iv i \<and> p = (nat i, nat y0) then Some (c \<noteq> 0) else None)
      (clipped_line (\<lambda>x. GuiDrawPoint x y0 c) x0 x1 GUIXMAX iv)"
    using assms by (intro clipped_line_paints) (auto simp: GuiDrawPoint_def intro!: put_dot_paints)
  moreover have "(\<exists>i. on_line x0 x1 GUIXMAX iv i \<and> (a, b) = (nat i, nat y0)) \<longleftrightarrow>
      int b = y0 \<and> b < 64 \<and> on_line x0 x1 GUIXMAX iv (int a)" for a b
    using False by (auto simp: on_line_def intro!: exI [of _ "int a"])
  then have "(\<lambda>p. if \<exists>i. on_line x0 x1 GUIXMAX iv i \<and> p = (nat i, nat y0) then Some (c \<noteq> 0) else None) =
      (\<lambda>(a, b). if int b = y0 \<and> b < 64 \<and> on_line x0 x1 GUIXMAX iv (int a) then Some (c \<noteq> 0) else None)"
    by (auto simp: fun_eq_iff)
  ultimately show ?thesis using False by (simp add: paints_def GuiHPointLine_def)
qed

section \<open>Rectangles\<close>

definition rect :: "int \<Rightarrow> int \<Rightarrow> int \<Rightarrow> int \<Rightarrow> nat \<times> nat \<Rightarrow> bool" where
  "rect x0 y0 x1 y1 = (\<lambda>(a, b). a < 128 \<and> b < 64 \<and> min x0 x1 \<le> int a \<and> int a \<le> max x0 x1 \<and>
     min y0 y1 \<le> int b \<and> int b \<le> max y0 y1)"

lemma fill_paints:
  assumes "max y0 y1 < INT32_MAX"
  shows "paints (\<lambda>p. if rect x0 y0 x1 y1 p then Some (c \<noteq> 0) else None) (GuiFillRect x0 y0 x1 y1 c)"
proof -
  let ?m = "\<lambda>i (a, b). if int b = i \<and> b < 64 \<and> on_line x0 x1 GUIXMAX 1 (int a) then Some (c \<noteq> 0) else None"
  have "paints (\<lambda>p. if rect x0 y0 x1 y1 p then Some (c \<noteq> 0) else None)
      (block (map (\<lambda>i. GuiHPointLine (min x0 x1) i (max x0 x1) 1 c) [min y0 y1..max y0 y1]))"
  proof (rule block_map_paints [where m = ?m])
    fix i assume i: "i \<in> set [min y0 y1..max y0 y1]"
    have "on_line (min x0 x1) (max x0 x1) GUIXMAX 1 = on_line x0 x1 GUIXMAX 1"
      by (auto simp: on_line_def fun_eq_iff)
    then show "paints (?m i) (GuiHPointLine (min x0 x1) i (max x0 x1) 1 c)"
      using hline_paints [of 1 i "min x0 x1" "max x0 x1" c] by simp
    show "?m i \<subseteq>\<^sub>m (\<lambda>p. if rect x0 y0 x1 y1 p then Some (c \<noteq> 0) else None)"
      using i by (auto simp: map_le_def rect_def on_line_def split: if_splits)
  qed (auto simp: dom_def rect_def on_line_def split: if_splits)
  moreover have "(if a > b then b else a) = min a b" "(if a > b then a else b) = max a b" for a b :: int
    by auto
  moreover have "\<not> INT32_MAX \<le> max y0 y1" using assms by linarith
  ultimately show ?thesis by (simp add: GuiFillRect_def Let_def del: max_less_iff_conj not_le)
qed

text \<open>
  C30. Filling a rectangle ends, gives exactly the pixels of the rectangle that lie on the screen the
  colour, changes no other pixel and never writes outside the frame buffer. The four coordinates may come in
  any order and lie anywhere in the range of \<open>int32_t\<close>, on the screen or not, except that neither \<open>y\<close> is
  the largest value of that range (the loop over the rows would not end).
\<close>

theorem GuiFillRect_exact:
  assumes "max y0 y1 < INT32_MAX"
  shows "pixel (GuiFillRect x0 y0 x1 y1 c s) p = (if rect x0 y0 x1 y1 p then c \<noteq> 0 else pixel s p) \<and>
   faults (GuiFillRect x0 y0 x1 y1 c s) = faults s"
  using paints_pixel [OF fill_paints [OF assms], of x0 x1 c s p] paints_faults [OF fill_paints [OF assms], of x0 x1 c s]
  by (simp split: if_splits)

text \<open>From far outside on the left and the bottom, the corners in the wrong order.\<close>

theorem GuiFillRect_exact_witness:
  "pixel (GuiFillRect 5 0x7FFFFFFE (- 0x80000000) 60 1 sys0) (5, 63) \<and>
   \<not> pixel (GuiFillRect 5 0x7FFFFFFE (- 0x80000000) 60 1 sys0) (6, 63) \<and>
   \<not> pixel (GuiFillRect 5 0x7FFFFFFE (- 0x80000000) 60 1 sys0) (5, 59)"
proof -
  have "pixel sys0 p = False" for p by (simp add: sys0_def reset_sys_def reset_ui_def pixel_def split: prod.split)
  with GuiFillRect_exact [of "0x7FFFFFFE" 60 5 "- 0x80000000" 1 sys0 "(5, 63)"]
    GuiFillRect_exact [of "0x7FFFFFFE" 60 5 "- 0x80000000" 1 sys0 "(6, 63)"]
    GuiFillRect_exact [of "0x7FFFFFFE" 60 5 "- 0x80000000" 1 sys0 "(5, 59)"]
  show ?thesis by (simp add: rect_def)
qed

section \<open>Characters\<close>

lemma GetBit_bit: "z < 8 \<Longrightarrow> (d AND GetBit ! z \<noteq> 0) = bit (d :: u8) (7 - z)"
proof -
  assume "z < 8"
  then have "z \<in> set [0, 1, 2, 3, 4, 5, 6, 7]" by auto
  then have "GetBit ! z = 2 ^ (7 - z)" by (auto simp: GetBit_def)
  then show "(d AND GetBit ! z \<noteq> 0) = bit d (7 - z)" by (simp add: and_exp_eq_0_iff_not_bit)
qed

lemma bit_GetBit: "z < 8 \<Longrightarrow> k < 8 \<Longrightarrow> bit (GetBit ! z) k = (k = 7 - z)"
proof -
  assume "z < 8" "k < 8"
  then have "z \<in> set [0, 1, 2, 3, 4, 5, 6, 7]" by auto
  then have "GetBit ! z = 2 ^ (7 - z)" by (auto simp: GetBit_def)
  with \<open>k < 8\<close> show ?thesis by (auto simp: bit_exp_iff)
qed

lemma bit_fold_or: "bit (fold (\<lambda>i t. t OR f i) xs (t :: u8)) k = (bit t k \<or> (\<exists>i\<in>set xs. bit (f i) k))"
  by (induction xs arbitrary: t) (auto simp: bit_or_iff)

text \<open>The byte is reversed.\<close>

lemma bit_BitExchange: "k < 8 \<Longrightarrow> bit (BitExchange d) k = bit d (7 - k)"
proof -
  assume k: "k < 8"
  have "bit (BitExchange d) k = (\<exists>i<8. bit d (7 - i) \<and> k = i)"
    using k by (auto simp: BitExchange_def bit_fold_or GetBit_bit bit_GetBit Bex_def)
  then show "bit (BitExchange d) k = bit d (7 - k)" using k by auto
qed

lemma ASCII_5_7_shape: "length ASCII_5_7 = 95" "list_all (\<lambda>r. length r = 5) ASCII_5_7"
  by (simp_all add: ASCII_5_7_def)

lemma bitmap_dots_glyph:
  "bitmap_dots bm er x y fl 7 5 = map (\<lambda>(j, z). bitmap_dot bm er x y fl j 0 z) (List.product [0..<5] [0..<7])"
  by (simp add: bitmap_dots_def upt_rec)

text \<open>The picture of a character at \<open>(x, y)\<close>, inverted if \<open>fl\<close> is set.\<close>

definition glyph :: "nat \<Rightarrow> nat \<Rightarrow> nat \<Rightarrow> u8 \<Rightarrow> nat \<times> nat \<rightharpoonup> bool" where
  "glyph code x y fl = (\<lambda>(a, b). if x \<le> a \<and> a < x + 5 \<and> y \<le> b \<and> b < y + 7
     then Some (bit (ASCII_5_7 ! (code - 32) ! (a - x)) (b - y) \<noteq> (fl \<noteq> 0)) else None)"

lemma bitmap_dot_paints:
  assumes "j < length bm" "z < 8" "x + j < 128" "y + z < 64"
  shows "paints [(x + j, y + z) \<mapsto> bit (bm ! j) (7 - z) \<noteq> (fl \<noteq> 0)] (bitmap_dot bm 1 (int x) (int y) fl j 0 z)"
proof -
  define c where "c = (if bm ! j AND GetBit ! z \<noteq> 0 then CBLACK else CWHITLE)"
  define d where "d = (if fl \<noteq> 0 then (if c \<noteq> 0 then CWHITLE else CBLACK) else c)"
  have e: "bitmap_dot bm 1 (int x) (int y) fl j 0 z = put_dot (int (x + j)) (int (y + z)) d"
    using assms(1) by (simp add: bitmap_dot_def Let_def GuiFlipPoint_def fun_eq_iff c_def d_def)
  have v: "(d \<noteq> 0) = (bit (bm ! j) (7 - z) \<noteq> (fl \<noteq> 0))"
    using GetBit_bit [OF assms(2), of "bm ! j"] by (simp add: c_def d_def)
  have "paints [(nat (int (x + j)), nat (int (y + z))) \<mapsto> d \<noteq> 0] (put_dot (int (x + j)) (int (y + z)) d)"
    using assms(3,4) by (intro put_dot_paints) auto
  then show ?thesis unfolding e v nat_int .
qed

lemma offset_ex: "x \<le> a \<Longrightarrow> a < x + n \<Longrightarrow> \<exists>k\<in>{0..<n}. a = x + (k::nat)"
  by (rule bexI [of _ "a - x"]) auto

lemma glyph_paints:
  assumes "length bm \<ge> 5" "take 5 bm = map BitExchange (ASCII_5_7 ! (code - 32))" "x \<le> 120" "y \<le> 57"
  shows "paints (glyph code x y fl) (GuiBitMap bm (int x) (int y) swide shigh fl)"
proof -
  have yl: "(if int y + shigh \<ge> GUIYMAX then GUIYMAX - int y - 1 else shigh) = 5" using assms(4) by auto
  have bmj: "bm ! j = BitExchange (ASCII_5_7 ! (code - 32) ! j)" if "j < 5" for j
  proof -
    have "length (ASCII_5_7 ! (code - 32)) = 5" using assms(1,2) by (metis length_map length_take min.absorb2)
    then show ?thesis using that assms(2) by (metis nth_map nth_take)
  qed
  have "paints (glyph code x y fl) (block (map (\<lambda>(j, z). bitmap_dot bm 1 (int x) (int y) fl j 0 z) (List.product [0..<5] [0..<7])))"
  proof (rule block_map_paints [where m = "\<lambda>(j, z). [(x + j, y + z) \<mapsto> bit (bm ! j) (7 - z) \<noteq> (fl \<noteq> 0)]"])
    fix i assume "i \<in> set (List.product [0..<5] [0..<(7::nat)])"
    then obtain j z where i: "i = (j, z)" "j < 5" "z < 7" by auto
    show "paints ((\<lambda>(j, z). [(x + j, y + z) \<mapsto> bit (bm ! j) (7 - z) \<noteq> (fl \<noteq> 0)]) i)
        ((\<lambda>(j, z). bitmap_dot bm 1 (int x) (int y) fl j 0 z) i)"
      using i assms bitmap_dot_paints [of j bm z x y fl] by simp
    show "(\<lambda>(j, z). [(x + j, y + z) \<mapsto> bit (bm ! j) (7 - z) \<noteq> (fl \<noteq> 0)]) i \<subseteq>\<^sub>m glyph code x y fl"
      using i by (auto simp: map_le_def glyph_def bmj bit_BitExchange)
  qed (auto simp: glyph_def dom_def split: if_splits intro!: offset_ex)
  moreover have "GuiBitMap bm (int x) (int y) swide shigh fl s = block (bitmap_dots bm 1 (int x) (int y) fl 7 5) s" for s
    unfolding GuiBitMap_def yl using assms(3,4) by (simp add: Let_def)
  ultimately show ?thesis by (simp add: paints_def bitmap_dots_glyph)
qed

text \<open>
  C40. Drawing a printable character (codes 32 to 126), fetched from the font into the buffer of 24 bytes
  and drawn as a bit map with its corner at a column up to 120 and a row up to 57: the screen shows
  exactly the five by seven dots of the font table there, inverted if the flag asks for it, no other pixel
  changes and nothing is written outside the frame buffer.
\<close>

theorem glyph_exact:
  assumes "32 \<le> code" "code \<le> 126" "x \<le> 120" "y \<le> 57"
    and "t = GetFontASCII_5_7 code s" "length (pZmBuff (ui s)) = 24"
  shows "pixel (GuiBitMap (pZmBuff (ui t)) (int x) (int y) swide shigh fl t) p =
      (case glyph code x y fl p of Some v \<Rightarrow> v | None \<Rightarrow> pixel s p) \<and>
    faults (GuiBitMap (pZmBuff (ui t)) (int x) (int y) swide shigh fl t) = faults s"
proof -
  have off: "(int code - 32) mod 65536 = int code - 32" "nat (int code - 32) = code - 32" "code - 32 < 95"
    using assms(1,2) by auto
  have len: "length (ASCII_5_7 ! (code - 32)) = 5"
    using ASCII_5_7_shape(2) off(3) by (simp add: list_all_length ASCII_5_7_shape(1))
  have "t = ui_update (pZmBuff_update (\<lambda>b. map BitExchange (ASCII_5_7 ! (code - 32)) @ drop 5 b)) s"
    unfolding assms(5) GetFontASCII_5_7_def off Let_def using assms(1,2) by simp
  then have t: "pZmBuff (ui t) = map BitExchange (ASCII_5_7 ! (code - 32)) @ drop 5 (pZmBuff (ui s))"
    "pixel t p = pixel s p" "faults t = faults s"
    by (simp_all add: pixel_def)
  have "paints (glyph code x y fl) (GuiBitMap (pZmBuff (ui t)) (int x) (int y) swide shigh fl)"
    using len assms(3,4,6) by (intro glyph_paints) (simp_all add: t)
  from paints_pixel [OF this, of t p] paints_faults [OF this, of t] show ?thesis
    by (simp add: t split: option.split)
qed

theorem glyph_exact_witness:
  "pixel (GuiBitMap (pZmBuff (ui (GetFontASCII_5_7 65 sys0))) 10 20 swide shigh 0 (GetFontASCII_5_7 65 sys0)) (10, 25) \<and>
   \<not> pixel (GuiBitMap (pZmBuff (ui (GetFontASCII_5_7 65 sys0))) 10 20 swide shigh 0 (GetFontASCII_5_7 65 sys0)) (9, 25)"
proof -
  have "length (pZmBuff (ui sys0)) = 24" "pixel sys0 p = False" for p
    by (simp_all add: sys0_def reset_sys_def reset_ui_def pixel_def split: prod.split)
  with glyph_exact [of 65 10 20 "GetFontASCII_5_7 65 sys0" sys0 0 "(10, 25)"]
    glyph_exact [of 65 10 20 "GetFontASCII_5_7 65 sys0" sys0 0 "(9, 25)"]
  show ?thesis by (simp add: glyph_def ASCII_5_7_def bit_numeral_rec)
qed

section \<open>Transfer to the display\<close>

text \<open>
  A receiver on the three pins of the display bus: it samples the data pin at every rising edge
  of the clock, most significant bit first, and after eight bits delivers the byte with the level
  of \<open>LCD_CS\<close>. It reads the log of pin writes from the oldest on.
\<close>

record receiver =
  rx_cs :: u8
  rx_sda :: u8
  rx_clk :: u8
  rx_bits :: "bool list"
  rx_bytes :: "(u8 \<times> u8) list"

definition rx0 :: receiver where
  "rx0 = \<lparr>rx_cs = 0, rx_sda = 0, rx_clk = 0, rx_bits = [], rx_bytes = []\<rparr>"

definition byte_of :: "bool list \<Rightarrow> u8" where
  "byte_of bs = horner_sum of_bool 2 (rev bs)"

definition rx_step :: "nat \<times> u8 \<Rightarrow> receiver \<Rightarrow> receiver" where
  "rx_step = (\<lambda>(p, v) r.
     if p = LCD_CS then r\<lparr>rx_cs := v\<rparr>
     else if p = LCD_SDA then r\<lparr>rx_sda := v\<rparr>
     else if p = LCD_CLK then
       (if rx_clk r = 0 \<and> v \<noteq> 0 then
          let bs = rx_bits r @ [rx_sda r \<noteq> 0] in
          if length bs = 8 then r\<lparr>rx_clk := v, rx_bits := [], rx_bytes := rx_bytes r @ [(rx_cs r, byte_of bs)]\<rparr>
          else r\<lparr>rx_clk := v, rx_bits := bs\<rparr>
        else r\<lparr>rx_clk := v\<rparr>)
     else r)"

definition received :: "sys \<Rightarrow> receiver" where
  "received s = foldr rx_step (pin_log (board s)) rx0"

lemma received_write: "received (rt_pin_write p v s) = rx_step (p, v) (received s)"
  by (simp add: received_def pin_defs)

lemma received_bit:
  assumes "length (rx_bits (received s)) < 7"
  shows "received (lcd_bit b s) = (received s)\<lparr>rx_sda := of_bool (bit b 7), rx_clk := 1,
    rx_bits := rx_bits (received s) @ [bit b 7]\<rparr>"
proof -
  have "(b AND 0x80 \<noteq> 0) = bit b 7" using GetBit_bit [of 0 b] by (simp add: GetBit_def)
  then show ?thesis using assms by (simp add: lcd_bit_def ifS_def received_write rx_step_def Let_def)
qed

lemma received_last_bit:
  assumes "length (rx_bits (received s)) = 7"
  shows "received (lcd_bit b s) = (received s)\<lparr>rx_sda := of_bool (bit b 7), rx_clk := 1,
    rx_bits := [], rx_bytes := rx_bytes (received s) @ [(rx_cs (received s), byte_of (rx_bits (received s) @ [bit b 7]))]\<rparr>"
proof -
  have "(b AND 0x80 \<noteq> 0) = bit b 7" using GetBit_bit [of 0 b] by (simp add: GetBit_def)
  then show ?thesis using assms by (simp add: lcd_bit_def ifS_def received_write rx_step_def Let_def)
qed

lemma byte_of_bits: "byte_of [bit b 7, bit b 6, bit b 5, bit b 4, bit b 3, bit b 2, bit b 1, bit b 0] = b"
proof -
  have "horner_sum of_bool 2 (map (bit b) [0..<8]) = take_bit 8 b" by (rule horner_sum_bit_eq_take_bit)
  moreover have "[0..<8] = [0, 1, 2, 3, 4, 5, 6, 7 :: nat]" by (simp add: upt_rec)
  ultimately show ?thesis by (simp add: byte_of_def take_bit_word_eq_self)
qed

lemma received_shift:
  "length (rx_bits (received s)) + Suc n = 8 \<Longrightarrow>
   rx_bits (received (lcd_shift (Suc n) b s)) = [] \<and>
   rx_bytes (received (lcd_shift (Suc n) b s)) = rx_bytes (received s) @
     [(rx_cs (received s), byte_of (rx_bits (received s) @ map (\<lambda>k. bit b (7 - k)) [0..<Suc n]))]"
proof (induction n arbitrary: b s)
  case 0
  then show ?case by (simp add: received_last_bit)
next
  case (Suc n)
  have "bit (push_bit 1 b) (7 - k) = bit b (7 - Suc k)" if "k < Suc n" for k
    using that Suc.prems by (auto simp: bit_push_bit_iff simp del: push_bit_Suc)
  then have m1: "map (\<lambda>k. bit (push_bit 1 b) (7 - k)) [0..<Suc n] = map (\<lambda>k. bit b (7 - Suc k)) [0..<Suc n]"
    by (intro map_cong refl) (simp del: push_bit_Suc upt_Suc)
  have m2: "map (\<lambda>k. bit b (7 - k)) [0..<Suc (Suc n)] = bit b 7 # map (\<lambda>k. bit b (7 - Suc k)) [0..<Suc n]"
    by (simp add: upt_conv_Cons map_Suc_upt [symmetric] comp_def del: upt_Suc)
  have st: "lcd_shift (Suc (Suc n)) b s = lcd_shift (Suc n) (push_bit 1 b) (lcd_bit b s)" by simp
  have r: "received (lcd_bit b s) = (received s)\<lparr>rx_sda := of_bool (bit b 7), rx_clk := 1,
      rx_bits := rx_bits (received s) @ [bit b 7]\<rparr>"
    using Suc.prems by (intro received_bit) simp
  show ?case
    unfolding st m2 using Suc.prems Suc.IH [of "lcd_bit b s" "push_bit 1 b", unfolded m1 r]
    by (simp del: upt_Suc lcd_shift.simps push_bit_Suc)
qed

lemma received_byte:
  assumes "rx_bits (received s) = []"
  shows "rx_bits (received (lcd_shift 8 b s)) = []"
    "rx_bytes (received (lcd_shift 8 b s)) = rx_bytes (received s) @ [(rx_cs (received s), b)]"
proof -
  have "[0..<Suc 7] = [0, 1, 2, 3, 4, 5, 6, 7 :: nat]" by (simp add: upt_rec)
  then show "rx_bits (received (lcd_shift 8 b s)) = []"
    "rx_bytes (received (lcd_shift 8 b s)) = rx_bytes (received s) @ [(rx_cs (received s), b)]"
    using received_shift [of s 7 b] assms by (simp_all add: byte_of_bits [simplified] del: upt_Suc lcd_shift.simps)
qed

text \<open>The statement \<open>f\<close> sends whole bytes, given by the frame buffer, and leaves the display state.\<close>

definition sends :: "stmt \<Rightarrow> ((nat \<Rightarrow> nat \<Rightarrow> u8) \<Rightarrow> (u8 \<times> u8) list) \<Rightarrow> bool" where
  "sends f bs \<longleftrightarrow> (\<forall>s. rx_bits (received s) = [] \<longrightarrow> rx_bits (received (f s)) = [] \<and>
     rx_bytes (received (f s)) = rx_bytes (received s) @ bs (x_to_page (ui s)) \<and> ui (f s) = ui s)"

lemma ui_lcd_shift: "ui (lcd_shift n b s) = ui s"
  by (induction n arbitrary: b s) (simp_all add: lcd_bit_def ifS_def pin_defs)

lemma sends_command: "sends (WriteLcdCommand b) (\<lambda>_. [(0, b)])"
  and sends_data: "sends (\<lambda>s. WriteLcdData (x_to_page (ui s) i j) s) (\<lambda>x. [(1, x i j)])"
  by (auto simp: sends_def WriteLcdCommand_def WriteLcdData_def received_byte received_write rx_step_def ui_lcd_shift)
    (simp_all add: pin_defs)

lemma sends_Cons: "sends f a \<Longrightarrow> sends (block fs) b \<Longrightarrow> sends (block (f # fs)) (\<lambda>x. a x @ b x)"
  by (simp add: sends_def)

lemma sends_Nil: "sends (block []) (\<lambda>_. [])"
  by (simp add: sends_def)

lemma sends_map: "(\<And>i. i \<in> set is \<Longrightarrow> sends (f i) (b i)) \<Longrightarrow> sends (block (map f is)) (\<lambda>x. concat (map (\<lambda>i. b i x) is))"
  by (induction "is") (auto simp: sends_Nil [simplified] sends_def)

lemma sends_address: "sends (lcd_address (of_nat y) 0) (\<lambda>_. [(0, 0xb0 + of_nat y), (0, 0x10), (0, 0)])"
  using sends_Cons [OF sends_command sends_Cons [OF sends_command sends_Cons [OF sends_command sends_Nil]]]
  by (simp add: lcd_address_def)

text \<open>The bytes of one page: its address, then its 128 columns.\<close>

definition page_bytes :: "(nat \<Rightarrow> nat \<Rightarrow> u8) \<Rightarrow> nat \<Rightarrow> (u8 \<times> u8) list" where
  "page_bytes x y = [(0, 0xb0 + of_nat y), (0, 0x10), (0, 0)] @ map (\<lambda>c. (1, x c y)) [0..<128]"

lemma sends_page: "sends (send_page y) (\<lambda>x. page_bytes x y)"
  using sends_Cons [OF sends_address sends_map [of "[0..<128]" "\<lambda>i s. WriteLcdData (x_to_page (ui s) i y) s", OF sends_data]]
  by (simp add: send_page_def page_bytes_def concat_map_singleton del: upt_Suc)

text \<open>
  C29. The refresh sends the whole frame buffer: read back from the three pins by the serial
  protocol of the display, the bytes are, page by page, the page address and the 128 columns of
  the buffer, and nothing else.
\<close>

theorem refresh_sends_buffer:
  assumes "rx_bits (received s) = []"
  shows "rx_bytes (received (GuiUpdateDisplayAll s)) =
      rx_bytes (received s) @ concat (map (page_bytes (x_to_page (ui s))) [0..<8]) \<and>
    rx_bits (received (GuiUpdateDisplayAll s)) = []"
  using assms sends_map [of "[0..<8]" send_page "\<lambda>y x. page_bytes x y", OF sends_page]
  by (simp add: sends_def GuiUpdateDisplayAll_def del: upt_Suc)

theorem refresh_sends_buffer_witness:
  "rx_bytes (received (GuiUpdateDisplayAll sys0)) = concat (map (page_bytes (x_to_page (ui sys0))) [0..<8])"
proof -
  have "rx_bits (received sys0) = []" "rx_bytes (received sys0) = []"
    by (simp_all add: received_def sys0_def reset_sys_def board0_def rx0_def)
  with refresh_sends_buffer [of sys0] show ?thesis by simp
qed

section \<open>Rows of text\<close>

lemma keeps_dot:
  assumes "j < length bm" "x + int j < GUIXMAX" "0 \<le> x" "0 \<le> y" "y + int i + int z < GUIYMAX" "i div 8 = 0"
  shows "keeps (\<lambda>t. (faults t, pZmBuff (ui t)) = v) (bitmap_dot bm 1 x y fl j i z)"
  using assms by (simp add: keeps_def bitmap_dot_def Let_def GuiFlipPoint_def put_dot_def)

lemma bitmap_safe:
  assumes "0 \<le> x" "x \<le> 123" "0 \<le> y" "y \<le> 57" "5 \<le> length bm"
  shows "faults (GuiBitMap bm x y swide shigh fl s) = faults s" "pZmBuff (ui (GuiBitMap bm x y swide shigh fl s)) = pZmBuff (ui s)"
proof -
  define xl where "xl = nat (if x + swide \<ge> GUIXMAX then GUIXMAX - x - 1 else swide)"
  define yl where "yl = nat (if y + shigh \<ge> GUIYMAX then GUIYMAX - y - 1 else shigh)"
  have xl: "xl \<le> 7" and yl: "yl \<le> 5" using assms by (auto simp: xl_def yl_def)
  have "keeps (\<lambda>t. (faults t, pZmBuff (ui t)) = (faults s, pZmBuff (ui s))) f"
    if "f \<in> set (bitmap_dots bm 1 x y fl xl yl)" for f
  proof -
    from that obtain j k z where f: "f = bitmap_dot bm 1 x y fl j (8 * k) z" "j < yl" "k < (xl + 7) div 8"
      and z: "z < (if 8 * k + 8 \<ge> xl then xl - 8 * k else 8)"
      unfolding bitmap_dots_def by auto
    have "k = 0" using f(3) xl by linarith
    with z xl have "z < xl" by simp
    with \<open>k = 0\<close> show ?thesis unfolding f(1) using f(2) yl assms xl by (intro keeps_dot) auto
  qed
  then have "keeps (\<lambda>t. (faults t, pZmBuff (ui t)) = (faults s, pZmBuff (ui s))) (block (bitmap_dots bm 1 x y fl xl yl))"
    by (intro keeps_block_all) blast
  from keepsD [OF this, of s] have k: "faults (block (bitmap_dots bm 1 x y fl xl yl) s) = faults s"
    "pZmBuff (ui (block (bitmap_dots bm 1 x y fl xl yl) s)) = pZmBuff (ui s)" by simp_all
  have e: "GuiBitMap bm x y swide shigh fl s = block (bitmap_dots bm 1 x y fl xl yl) s"
    unfolding GuiBitMap_def xl_def yl_def Let_def using assms by simp
  show "faults (GuiBitMap bm x y swide shigh fl s) = faults s" "pZmBuff (ui (GuiBitMap bm x y swide shigh fl s)) = pZmBuff (ui s)"
    unfolding e by (rule k)+
qed

lemma text_loop_safe:
  assumes "0 \<le> x" "endx \<le> 130" "0 \<le> y" "y \<le> 57"
  shows "0 \<le> tx \<Longrightarrow> list_all (\<lambda>c. 32 \<le> (of_char c :: nat) \<and> (of_char c :: nat) \<le> 126) str \<Longrightarrow>
    length (pZmBuff (ui s)) = 24 \<Longrightarrow> faults (text_loop x endx (y + dhigh) fl str tx y s) = faults s"
proof (induction str arbitrary: tx s)
  case (Cons c cs)
  define t where "t = GetFontASCII_5_7 (of_char c) s"
  define u where "u = GuiBitMap (pZmBuff (ui t)) tx y swide shigh fl t"
  have c: "32 \<le> (of_char c :: nat)" "(of_char c :: nat) \<le> 126" and cs: "list_all (\<lambda>c. 32 \<le> (of_char c :: nat) \<and> (of_char c :: nat) \<le> 126) cs"
    using Cons.prems(2) by auto
  have row: "length (ASCII_5_7 ! nat (int (of_char c) - 32)) = 5"
    using ASCII_5_7_shape(2) c by (simp add: list_all_length ASCII_5_7_shape(1))
  have t: "faults t = faults s" "length (pZmBuff (ui t)) = 24"
    using c row Cons.prems(3) by (simp_all add: t_def GetFontASCII_5_7_def Let_def)
  show ?case
  proof (cases "tx + swide > endx")
    case True
    then show ?thesis using c by (simp add: Let_def)
  next
    case False
    then have u: "faults u = faults s" "length (pZmBuff (ui u)) = 24"
      unfolding u_def using assms Cons.prems(1) t by (simp_all add: bitmap_safe)
    have "text_loop x endx (y + dhigh) fl (c # cs) tx y s = text_loop x endx (y + dhigh) fl cs (tx + swide) y u"
      using False c by (simp add: Let_def t_def u_def)
    then show ?thesis using Cons.IH [of "tx + swide" u] Cons.prems(1) cs u by simp
  qed
qed simp

lemma begin_offset_nonneg: "0 \<le> begin_offset w fl str"
  by (simp add: begin_offset_def Let_def split: FontFlag.split)

text \<open>
  A row of printable text whose field ends at column 130 or before and whose top row is at
  most 57 is drawn without a write outside the frame buffer and without a read outside the font
  table, however long the text is and however it is aligned.
\<close>

theorem GuiRowText_safe:
  assumes "0 \<le> x" "0 \<le> wide" "x + wide \<le> 130" "0 \<le> y" "y \<le> 57"
    and "list_all (\<lambda>c. 32 \<le> (of_char c :: nat) \<and> (of_char c :: nat) \<le> 126) str"
    and "length (pZmBuff (ui s)) = 24"
  shows "faults (GuiRowText x y wide flag str s) = faults s"
proof -
  have "wide mod 65536 = wide" "(x + wide) mod 65536 = x + wide" "(y + 12) mod 65536 = y + 12"
    using assms by auto
  then show ?thesis
    using assms begin_offset_nonneg [of wide flag str] by (simp add: GuiRowText_def Let_def text_loop_safe)
qed

theorem GuiRowText_safe_witness: "faults (GuiRowText 0 37 125 FONT_LEFT ''soft system'' sys0) = []"
proof -
  have "length (pZmBuff (ui sys0)) = 24" "faults sys0 = []" by (simp_all add: sys0_def reset_sys_def reset_ui_def)
  with GuiRowText_safe [of 0 125 37 "''soft system''" sys0 FONT_LEFT] show ?thesis by simp
qed

end
