(* ===== verification/Bytes.thy ===== *)
theory Bytes
  imports Prelude
begin

text \<open>Words in byte-addressed memory, little-endian, as the processor stores them.\<close>

definition u32_bytes :: "nat \<Rightarrow> u8 list" where
  "u32_bytes n = [of_nat n, of_nat (n div 256), of_nat (n div 65536), of_nat (n div 16777216)]"

definition u32_at :: "(nat \<Rightarrow> u8) \<Rightarrow> nat \<Rightarrow> nat" where
  "u32_at m a = unat (m a) + 256 * unat (m (a + 1)) + 65536 * unat (m (a + 2)) + 16777216 * unat (m (a + 3))"

definition u16_bytes :: "nat \<Rightarrow> u8 list" where
  "u16_bytes n = [of_nat n, of_nat (n div 256)]"

definition u16_at :: "(nat \<Rightarrow> u8) \<Rightarrow> nat \<Rightarrow> nat" where
  "u16_at m a = unat (m a) + 256 * unat (m (a + 1))"

definition poke :: "nat \<Rightarrow> u8 list \<Rightarrow> (nat \<Rightarrow> u8) \<Rightarrow> nat \<Rightarrow> u8" where
  "poke a bs m x = (if a \<le> x \<and> x < a + length bs then bs ! (x - a) else m x)"

text \<open>Unsigned subtraction of 32-bit values.\<close>

definition sub32 :: "nat \<Rightarrow> nat \<Rightarrow> nat" where
  "sub32 a b = (a + 2 ^ 32 - b) mod 2 ^ 32"

lemma sub32_le:
  assumes "b \<le> a" "a < 2 ^ 32"
  shows "sub32 a b = a - b"
proof -
  have "a + 2 ^ 32 - b = (a - b) + 2 ^ 32" using assms(1) by simp
  then have "sub32 a b = (a - b + 2 ^ 32) mod 2 ^ 32" by (simp only: sub32_def)
  also have "\<dots> = (a - b) mod 2 ^ 32" by (rule mod_add_self2)
  also have "\<dots> = a - b" using assms by (intro mod_less) linarith
  finally show ?thesis .
qed

lemma length_u32_bytes [simp]: "length (u32_bytes n) = 4"
  by (simp add: u32_bytes_def)

lemma length_u16_bytes [simp]: "length (u16_bytes n) = 2"
  by (simp add: u16_bytes_def)

lemma unat_of_nat_byte: "unat (of_nat n :: u8) = n mod 256"
  by (simp add: unat_of_nat)

lemma u32_split:
  assumes "n < 4294967296"
  shows "n mod 256 + 256 * (n div 256 mod 256) + 65536 * (n div 65536 mod 256) + 16777216 * (n div 16777216 mod 256) = (n :: nat)"
proof -
  define q1 q2 q3 r0 r1 r2 where d: "q1 = n div 256" "q2 = q1 div 256" "q3 = q2 div 256"
    "r0 = n mod 256" "r1 = q1 mod 256" "r2 = q2 mod 256"
  have e: "n = 256 * q1 + r0" "q1 = 256 * q2 + r1" "q2 = 256 * q3 + r2"
    unfolding d by (simp_all only: mult_div_mod_eq)
  have q: "n div 65536 = q2" "n div 16777216 = q3"
    unfolding d by (simp_all flip: div_mult2_eq)
  have "q3 < 256" unfolding q(2) [symmetric] using assms by (simp add: less_mult_imp_div_less)
  then have "q3 mod 256 = q3" by simp
  then have "r0 + 256 * r1 + 65536 * r2 + 16777216 * (q3 mod 256) = n" using e by simp
  then show ?thesis unfolding q using d by simp
qed

section \<open>Reading what was stored\<close>

lemma poke_out: "x < a \<or> a + length bs \<le> x \<Longrightarrow> poke a bs m x = m x"
  by (auto simp: poke_def)

lemma u32_poke_out: "b + 4 \<le> a \<or> a + length bs \<le> b \<Longrightarrow> u32_at (poke a bs m) b = u32_at m b"
  by (auto simp: u32_at_def poke_def)

lemma u16_poke_out: "b + 2 \<le> a \<or> a + length bs \<le> b \<Longrightarrow> u16_at (poke a bs m) b = u16_at m b"
  by (auto simp: u16_at_def poke_def)

lemma u32_poke: "n < 4294967296 \<Longrightarrow> u32_at (poke a (u32_bytes n) m) a = n"
  using u32_split [of n] by (simp add: u32_at_def poke_def u32_bytes_def unat_of_nat_byte numeral_2_eq_2 numeral_3_eq_3)

lemma u16_poke: "n < 65536 \<Longrightarrow> u16_at (poke a (u16_bytes n) m) a = n"
proof -
  assume "n < 65536"
  then have "n div 256 < 256" by (simp add: less_mult_imp_div_less)
  then show ?thesis by (simp add: u16_at_def poke_def u16_bytes_def unat_of_nat_byte)
qed

lemma poke_commute:
  "a + length xs \<le> b \<or> b + length ys \<le> a \<Longrightarrow> poke a xs (poke b ys m) = poke b ys (poke a xs m)"
  by (rule ext) (auto simp: poke_def)

end
