(* ===== verification/EfEnv.thy ===== *)
theory EfEnv
  imports EfUtils Bytes
begin

text \<open>
  The ENV area of EasyFlash, \<open>ef_env.c\<close> in its next-generation mode, on the bytes of the
  serial flash, configured as the firmware does it: write granularity of one bit, two sectors of
  4096 bytes from address 0, the two caches in use, no version update.

  The flash cells are a function from addresses to bytes; programming can only clear bits,
  erasing sets them. Addresses and sizes are natural numbers; where the C code relies on
  unsigned wrap-around the subtraction is \<open>sub32\<close>. A failed \<open>EF_ASSERT\<close> and a
  sector walk that does not end set \<open>hung\<close>. C structures are records; a function that
  fills a structure through a pointer returns it.

  With this granularity \<open>EF_WG_ALIGN\<close> and \<open>EF_WG_ALIGN_DOWN\<close> are the identity, every
  status table is one byte, \<open>sizeof (struct sector_hdr_data)\<close> is 16 and
  \<open>sizeof (struct env_hdr_data)\<close> is 24 (status at 0, magic at 4, len at 8, crc32 at 12,
  name_len at 16, value_len at 20; padding is written as \<open>0xFF\<close>).
\<close>

unbundle bit_operations_syntax

section \<open>Constants and structures\<close>

abbreviation (input) SECTOR_MAGIC_WORD :: nat where "SECTOR_MAGIC_WORD \<equiv> 0x30344645"
abbreviation (input) ENV_MAGIC_WORD :: nat where "ENV_MAGIC_WORD \<equiv> 0x3034564B"
abbreviation (input) FAILED_ADDR :: nat where "FAILED_ADDR \<equiv> 0xFFFFFFFF"
abbreviation (input) SECTOR_NOT_COMBINED :: nat where "SECTOR_NOT_COMBINED \<equiv> 0xFFFFFFFF"
abbreviation (input) SECTOR_SIZE :: nat where "SECTOR_SIZE \<equiv> 4096"
abbreviation (input) SECTOR_NUM :: nat where "SECTOR_NUM \<equiv> 2"
abbreviation (input) ENV_AREA_SIZE :: nat where "ENV_AREA_SIZE \<equiv> 8192"
abbreviation (input) env_start_addr :: nat where "env_start_addr \<equiv> 0"
abbreviation (input) SECTOR_HDR_DATA_SIZE :: nat where "SECTOR_HDR_DATA_SIZE \<equiv> 16"
abbreviation (input) SECTOR_DIRTY_OFFSET :: nat where "SECTOR_DIRTY_OFFSET \<equiv> 1"
abbreviation (input) ENV_HDR_DATA_SIZE :: nat where "ENV_HDR_DATA_SIZE \<equiv> 24"
abbreviation (input) ENV_MAGIC_OFFSET :: nat where "ENV_MAGIC_OFFSET \<equiv> 4"
abbreviation (input) ENV_NAME_LEN_OFFSET :: nat where "ENV_NAME_LEN_OFFSET \<equiv> 16"
abbreviation (input) EF_SEC_REMAIN_THRESHOLD :: nat where "EF_SEC_REMAIN_THRESHOLD \<equiv> 152"
abbreviation (input) EF_GC_EMPTY_SEC_THRESHOLD :: nat where "EF_GC_EMPTY_SEC_THRESHOLD \<equiv> 1"
abbreviation (input) EF_ENV_CACHE_TABLE_SIZE :: nat where "EF_ENV_CACHE_TABLE_SIZE \<equiv> 16"
abbreviation (input) EF_SECTOR_CACHE_TABLE_SIZE :: nat where "EF_SECTOR_CACHE_TABLE_SIZE \<equiv> 4"

abbreviation (input) SECTOR_STORE_UNUSED :: nat where "SECTOR_STORE_UNUSED \<equiv> 0"
abbreviation (input) SECTOR_STORE_EMPTY :: nat where "SECTOR_STORE_EMPTY \<equiv> 1"
abbreviation (input) SECTOR_STORE_USING :: nat where "SECTOR_STORE_USING \<equiv> 2"
abbreviation (input) SECTOR_STORE_FULL :: nat where "SECTOR_STORE_FULL \<equiv> 3"
abbreviation (input) SECTOR_STORE_STATUS_NUM :: nat where "SECTOR_STORE_STATUS_NUM \<equiv> 4"
abbreviation (input) SECTOR_DIRTY_FALSE :: nat where "SECTOR_DIRTY_FALSE \<equiv> 1"
abbreviation (input) SECTOR_DIRTY_TRUE :: nat where "SECTOR_DIRTY_TRUE \<equiv> 2"
abbreviation (input) SECTOR_DIRTY_GC :: nat where "SECTOR_DIRTY_GC \<equiv> 3"
abbreviation (input) SECTOR_DIRTY_STATUS_NUM :: nat where "SECTOR_DIRTY_STATUS_NUM \<equiv> 4"
abbreviation (input) ENV_PRE_WRITE :: nat where "ENV_PRE_WRITE \<equiv> 1"
abbreviation (input) ENV_WRITE :: nat where "ENV_WRITE \<equiv> 2"
abbreviation (input) ENV_PRE_DELETE :: nat where "ENV_PRE_DELETE \<equiv> 3"
abbreviation (input) ENV_DELETED :: nat where "ENV_DELETED \<equiv> 4"
abbreviation (input) ENV_ERR_HDR :: nat where "ENV_ERR_HDR \<equiv> 5"
abbreviation (input) ENV_STATUS_NUM :: nat where "ENV_STATUS_NUM \<equiv> 6"

record sector_meta_data =
  check_ok :: bool
  sm_store :: nat
  sm_dirty :: nat
  sm_addr :: nat
  sm_combined :: nat
  sm_remain :: nat
  sm_empty_env :: nat

record env_node_obj =
  nd_status :: nat
  crc_is_ok :: bool
  nd_name_len :: nat
  nd_len :: nat
  nd_value_len :: nat
  nd_name :: "u8 list"
  nd_start :: nat
  nd_value :: nat

record env_cache_node =
  name_crc :: u16
  active :: nat
  ec_addr :: nat

record sector_cache_node =
  sc_addr :: nat
  sc_empty_addr :: nat

record ef_flash =
  cells :: "nat \<Rightarrow> u8"
  chip_ok :: bool
  hung :: bool
  ef_init_ok :: bool
  gc_request :: bool
  in_recovery_check :: bool
  last_is_complete_del :: bool
  env_cache_table :: "env_cache_node list"
  sector_cache_table :: "sector_cache_node list"

text \<open>Structures on the stack start with unspecified contents; no result depends on them.\<close>

definition sector0 :: sector_meta_data where
  "sector0 = \<lparr>check_ok = False, sm_store = 0, sm_dirty = 0, sm_addr = FAILED_ADDR, sm_combined = 0,
     sm_remain = 0, sm_empty_env = FAILED_ADDR\<rparr>"

definition obj0 :: env_node_obj where
  "obj0 = \<lparr>nd_status = 0, crc_is_ok = False, nd_name_len = 0, nd_len = 0, nd_value_len = 0, nd_name = [],
     nd_start = FAILED_ADDR, nd_value = 0\<rparr>"

definition hang :: "ef_flash \<Rightarrow> ef_flash" where
  "hang s = s\<lparr>hung := True\<rparr>"

definition ef_assert :: "bool \<Rightarrow> ef_flash \<Rightarrow> ef_flash" where
  "ef_assert c s = (if c then s else hang s)"

text \<open>Sequencing on \<open>result == EF_NO_ERR\<close>.\<close>

definition on_ok :: "EfErrCode \<times> ef_flash \<Rightarrow> (ef_flash \<Rightarrow> EfErrCode \<times> ef_flash) \<Rightarrow> EfErrCode \<times> ef_flash" where
  "on_ok r f = (case r of (c, s) \<Rightarrow> if c = EF_NO_ERR then f s else (c, s))"

text \<open>C strings.\<close>

definition strncmp_eq :: "u8 list \<Rightarrow> u8 list \<Rightarrow> nat \<Rightarrow> bool" where
  "strncmp_eq xs ys n \<longleftrightarrow> takeWhile (\<lambda>c. c \<noteq> 0) (take n xs) = takeWhile (\<lambda>c. c \<noteq> 0) (take n ys)"

section \<open>The port (ef_sfud_port.c)\<close>

definition program :: "nat \<Rightarrow> u8 list \<Rightarrow> (nat \<Rightarrow> u8) \<Rightarrow> nat \<Rightarrow> u8" where
  "program a bs m x = (if a \<le> x \<and> x < a + length bs then m x AND bs ! (x - a) else m x)"

definition erase :: "nat \<Rightarrow> nat \<Rightarrow> (nat \<Rightarrow> u8) \<Rightarrow> nat \<Rightarrow> u8" where
  "erase a n m x = (if a \<le> x \<and> x < a + n then 0xFF else m x)"

definition ef_port_read :: "nat \<Rightarrow> nat \<Rightarrow> ef_flash \<Rightarrow> u8 list" where
  "ef_port_read addr n s = map (cells s) [addr..<addr + n]"

definition ef_port_write :: "nat \<Rightarrow> u8 list \<Rightarrow> ef_flash \<Rightarrow> EfErrCode \<times> ef_flash" where
  "ef_port_write addr buf s =
     (if chip_ok s then (EF_NO_ERR, s\<lparr>cells := program addr buf (cells s)\<rparr>) else (EF_WRITE_ERR, s))"

definition ef_port_erase :: "nat \<Rightarrow> nat \<Rightarrow> ef_flash \<Rightarrow> EfErrCode \<times> ef_flash" where
  "ef_port_erase addr n s =
     (let s = ef_assert (addr mod SECTOR_SIZE = 0) s in
      if chip_ok s then (EF_NO_ERR, s\<lparr>cells := erase addr n (cells s)\<rparr>) else (EF_ERASE_ERR, s))"

section \<open>Status tables\<close>

text \<open>The table and the index of the byte that has to be written, if any.\<close>

definition set_status :: "nat \<Rightarrow> nat \<Rightarrow> u8 list \<times> nat option" where
  "set_status status_num status_index =
     (let t = replicate ((status_num + 7) div 8) 0xFF in
      if status_index > 0 then
        let byte_index = (status_index - 1) div 8
        in (t[byte_index := t ! byte_index AND NOT (drop_bit ((status_index - 1) mod 8) 0x80)], Some byte_index)
      else (t, None))"

text \<open>The turns of the loop until the first cleared bit, from the end of the table.\<close>

primrec get_status_turns :: "u8 list \<Rightarrow> nat \<Rightarrow> nat" where
  "get_status_turns t 0 = 0"
| "get_status_turns t (Suc n) =
     (if t ! (n div 8) AND drop_bit (n mod 8) 0x80 = 0 then 0 else Suc (get_status_turns t n))"

definition get_status :: "u8 list \<Rightarrow> nat \<Rightarrow> nat" where
  "get_status t status_num = (status_num - 1) - get_status_turns t (status_num - 1)"

definition write_status :: "nat \<Rightarrow> nat \<Rightarrow> nat \<Rightarrow> ef_flash \<Rightarrow> EfErrCode \<times> ef_flash" where
  "write_status addr status_num status_index s =
     (let s = ef_assert (status_index < status_num) s in
      case set_status status_num status_index of
        (t, None) \<Rightarrow> (EF_NO_ERR, s)
      | (t, Some byte_index) \<Rightarrow> ef_port_write (addr + byte_index) [t ! byte_index] s)"

definition read_status :: "nat \<Rightarrow> nat \<Rightarrow> ef_flash \<Rightarrow> nat" where
  "read_status addr total_num s = get_status (ef_port_read addr ((total_num + 7) div 8) s) total_num"

section \<open>Caches\<close>

text \<open>\<open>Inl\<close>: the loop returned with the table changed; \<open>Inr\<close>: it ended with \<open>empty_index\<close>.\<close>

function update_sector_loop ::
  "nat \<Rightarrow> nat \<Rightarrow> nat \<Rightarrow> nat \<Rightarrow> sector_cache_node list \<Rightarrow> sector_cache_node list + nat" where
  "update_sector_loop sec emp i empty_index t =
     (if i \<ge> EF_SECTOR_CACHE_TABLE_SIZE then Inr empty_index
      else if emp > sec \<and> emp < sec + SECTOR_SIZE then
        if sc_addr (t ! i) = sec then Inl (t[i := (t ! i)\<lparr>sc_addr := sec, sc_empty_addr := emp\<rparr>])
        else if sc_addr (t ! i) = FAILED_ADDR \<and> empty_index = EF_SECTOR_CACHE_TABLE_SIZE
        then update_sector_loop sec emp (i + 1) i t
        else update_sector_loop sec emp (i + 1) empty_index t
      else if sc_addr (t ! i) = sec then Inl (t[i := (t ! i)\<lparr>sc_addr := FAILED_ADDR\<rparr>])
      else update_sector_loop sec emp (i + 1) empty_index t)"
  by pat_completeness auto
termination by (relation "measure (\<lambda>(_, _, i, _). 4 - i)") auto

definition update_sector_cache :: "nat \<Rightarrow> nat \<Rightarrow> ef_flash \<Rightarrow> ef_flash" where
  "update_sector_cache sec emp s =
     (case update_sector_loop sec emp 0 EF_SECTOR_CACHE_TABLE_SIZE (sector_cache_table s) of
        Inl t \<Rightarrow> s\<lparr>sector_cache_table := t\<rparr>
      | Inr e \<Rightarrow> if e < EF_SECTOR_CACHE_TABLE_SIZE
          then s\<lparr>sector_cache_table := (sector_cache_table s)[e := \<lparr>sc_addr = sec, sc_empty_addr = emp\<rparr>]\<rparr> else s)"

definition get_sector_from_cache :: "nat \<Rightarrow> ef_flash \<Rightarrow> nat option" where
  "get_sector_from_cache sec s =
     map_option sc_empty_addr (find (\<lambda>c. sc_addr c = sec) (sector_cache_table s))"

definition crc_of_name :: "u8 list \<Rightarrow> u16" where
  "crc_of_name name = ucast (drop_bit 16 (ef_calc_crc32 0 name))"

text \<open>The loop counts the activity of the entries it passes down and remembers the least active one.\<close>

function update_env_loop ::
  "u16 \<Rightarrow> nat \<Rightarrow> nat \<Rightarrow> nat \<Rightarrow> nat \<Rightarrow> nat \<Rightarrow> env_cache_node list \<Rightarrow>
   env_cache_node list + (nat \<times> nat \<times> env_cache_node list)" where
  "update_env_loop crc addr i empty_index min_index min_activity t =
     (if i \<ge> EF_ENV_CACHE_TABLE_SIZE then Inr (empty_index, min_index, t)
      else if addr \<noteq> FAILED_ADDR then
        if name_crc (t ! i) = crc then Inl (t[i := (t ! i)\<lparr>ec_addr := addr\<rparr>])
        else if ec_addr (t ! i) = FAILED_ADDR \<and> empty_index = EF_ENV_CACHE_TABLE_SIZE
        then update_env_loop crc addr (i + 1) i min_index min_activity t
        else if ec_addr (t ! i) \<noteq> FAILED_ADDR then
          let t1 = (if active (t ! i) > 0 then t[i := (t ! i)\<lparr>active := active (t ! i) - 1\<rparr>] else t)
          in if active (t1 ! i) < min_activity
             then update_env_loop crc addr (i + 1) empty_index i (active (t1 ! i)) t1
             else update_env_loop crc addr (i + 1) empty_index min_index min_activity t1
        else update_env_loop crc addr (i + 1) empty_index min_index min_activity t
      else if name_crc (t ! i) = crc then Inl (t[i := (t ! i)\<lparr>ec_addr := FAILED_ADDR, active := 0\<rparr>])
      else update_env_loop crc addr (i + 1) empty_index min_index min_activity t)"
  by pat_completeness auto
termination by (relation "measure (\<lambda>(_, _, i, _). 16 - i)") auto

definition update_env_cache :: "u8 list \<Rightarrow> nat \<Rightarrow> ef_flash \<Rightarrow> ef_flash" where
  "update_env_cache name addr s =
     (let crc = crc_of_name name; nd = \<lparr>name_crc = crc, active = 0, ec_addr = addr\<rparr> in
      case update_env_loop crc addr 0 EF_ENV_CACHE_TABLE_SIZE EF_ENV_CACHE_TABLE_SIZE 0xFFFF (env_cache_table s) of
        Inl t \<Rightarrow> s\<lparr>env_cache_table := t\<rparr>
      | Inr (e, m, t) \<Rightarrow>
          if e < EF_ENV_CACHE_TABLE_SIZE then s\<lparr>env_cache_table := t[e := nd]\<rparr>
          else if m < EF_ENV_CACHE_TABLE_SIZE then s\<lparr>env_cache_table := t[m := nd]\<rparr>
          else s\<lparr>env_cache_table := t\<rparr>)"

text \<open>A hit compares as many bytes of the stored name as the key has.\<close>

function get_env_loop :: "u8 list \<Rightarrow> nat \<Rightarrow> ef_flash \<Rightarrow> nat option \<times> ef_flash" where
  "get_env_loop name i s =
     (if i \<ge> EF_ENV_CACHE_TABLE_SIZE then (None, s)
      else let c = env_cache_table s ! i in
        if ec_addr c \<noteq> FAILED_ADDR \<and> name_crc c = crc_of_name name \<and>
           strncmp_eq name (ef_port_read (ec_addr c + ENV_HDR_DATA_SIZE) EF_ENV_NAME_MAX s) (length name)
        then (Some (ec_addr c), s\<lparr>env_cache_table := (env_cache_table s)[i := c\<lparr>active :=
                (if active c \<ge> 0xFFFF - EF_ENV_CACHE_TABLE_SIZE then 0xFFFF else active c + EF_ENV_CACHE_TABLE_SIZE)\<rparr>]\<rparr>)
        else get_env_loop name (i + 1) s)"
  by pat_completeness auto
termination by (relation "measure (\<lambda>(_, i, _). 16 - i)") auto

definition get_env_from_cache :: "u8 list \<Rightarrow> ef_flash \<Rightarrow> nat option \<times> ef_flash" where
  "get_env_from_cache name s = get_env_loop name 0 s"

section \<open>Scanning\<close>

text \<open>The inner loop of \<open>continue_ff_addr\<close> over the bytes of one buffer.\<close>

fun ff_bytes :: "nat \<Rightarrow> u8 list \<Rightarrow> u8 \<Rightarrow> nat \<Rightarrow> u8 \<times> nat" where
  "ff_bytes a [] last_data addr = (last_data, addr)"
| "ff_bytes a (b # bs) last_data addr =
     ff_bytes (a + 1) bs b (if last_data \<noteq> 0xFF \<and> b = 0xFF then a else addr)"

function ff_loop :: "nat \<Rightarrow> nat \<Rightarrow> u8 \<Rightarrow> nat \<Rightarrow> ef_flash \<Rightarrow> u8 \<times> nat" where
  "ff_loop start end_addr last_data addr s =
     (if start < end_addr then
        let read_size = (if start + 32 < end_addr then 32 else end_addr - start);
            (l, a) = ff_bytes start (ef_port_read start read_size s) last_data addr
        in ff_loop (start + 32) end_addr l a s
      else (last_data, addr))"
  by pat_completeness auto
termination by (relation "measure (\<lambda>(start, end_addr, _). end_addr - start)") auto

definition continue_ff_addr :: "nat \<Rightarrow> nat \<Rightarrow> ef_flash \<Rightarrow> nat" where
  "continue_ff_addr start end_addr s =
     (case ff_loop start end_addr 0 start s of (l, a) \<Rightarrow> if l = 0xFF then a else end_addr)"

text \<open>
  The window of 32 bytes moves on by 28, so that every magic word lies in one window; \<open>i\<close>
  runs over the first 28 positions.
\<close>

function find_magic_loop :: "nat \<Rightarrow> nat \<Rightarrow> nat \<Rightarrow> ef_flash \<Rightarrow> nat" where
  "find_magic_loop start start_bak end_addr s =
     (if start < end_addr then
        case find (\<lambda>i. start + i < end_addr \<and> u32_at (cells s) (start + i) = ENV_MAGIC_WORD \<and>
                       sub32 (start + i) ENV_MAGIC_OFFSET \<ge> start_bak) [0..<28] of
          Some i \<Rightarrow> sub32 (start + i) ENV_MAGIC_OFFSET
        | None \<Rightarrow> find_magic_loop (start + 28) start_bak end_addr s
      else FAILED_ADDR)"
  by pat_completeness auto
termination by (relation "measure (\<lambda>(start, _, end_addr, _). end_addr - start)") auto

definition find_next_env_addr :: "nat \<Rightarrow> nat \<Rightarrow> ef_flash \<Rightarrow> nat" where
  "find_next_env_addr start end_addr s =
     (if get_sector_from_cache (start div SECTOR_SIZE * SECTOR_SIZE) s = Some start then FAILED_ADDR
      else find_magic_loop start start end_addr s)"

definition get_next_env_addr :: "sector_meta_data \<Rightarrow> env_node_obj \<Rightarrow> ef_flash \<Rightarrow> nat" where
  "get_next_env_addr sector pre_env s =
     (if sm_store sector = SECTOR_STORE_EMPTY then FAILED_ADDR
      else if nd_start pre_env = FAILED_ADDR then sm_addr sector + SECTOR_HDR_DATA_SIZE
      else if nd_start pre_env \<le> sm_addr sector + SECTOR_SIZE then
        let addr = (if crc_is_ok pre_env then nd_start pre_env + nd_len pre_env else nd_start pre_env + 1);
            addr = find_next_env_addr addr (sm_addr sector + SECTOR_SIZE - SECTOR_HDR_DATA_SIZE) s
        in if addr > sm_addr sector + SECTOR_SIZE \<or> nd_len pre_env = 0 then FAILED_ADDR else addr
      else FAILED_ADDR)"

section \<open>Reading a node\<close>

function crc_chunks :: "nat \<Rightarrow> nat \<Rightarrow> nat \<Rightarrow> u32 \<Rightarrow> ef_flash \<Rightarrow> u32" where
  "crc_chunks addr len crc_data_len crc s =
     (if len < crc_data_len then
        let n = (if len + 32 < crc_data_len then 32 else crc_data_len - len)
        in crc_chunks addr (len + n) crc_data_len (ef_calc_crc32 crc (ef_port_read (addr + len) n s)) s
      else crc)"
  by pat_completeness auto
termination by (relation "measure (\<lambda>(_, len, total, _). total - len)") auto

definition read_env :: "env_node_obj \<Rightarrow> ef_flash \<Rightarrow> EfErrCode \<times> env_node_obj \<times> ef_flash" where
  "read_env env s =
     (let a = nd_start env;
          env = env\<lparr>nd_status := get_status (ef_port_read a 1 s) ENV_STATUS_NUM, nd_len := u32_at (cells s) (a + 8)\<rparr>;
          hdr_crc32 = u32_at (cells s) (a + 12); hdr_name_len = unat (cells s (a + 16)); hdr_value_len = u32_at (cells s) (a + 20)
      in if nd_len env = 0xFFFFFFFF \<or> nd_len env > ENV_AREA_SIZE \<or> nd_len env < ENV_NAME_LEN_OFFSET then
           let env = env\<lparr>nd_len := ENV_HDR_DATA_SIZE\<rparr>
           in if nd_status env \<noteq> ENV_ERR_HDR
              then (EF_READ_ERR, env\<lparr>nd_status := ENV_ERR_HDR, crc_is_ok := False\<rparr>, snd (write_status a ENV_STATUS_NUM ENV_ERR_HDR s))
              else (EF_READ_ERR, env\<lparr>crc_is_ok := False\<rparr>, s)
         else
           let s = ef_assert (\<not> (nd_len env > SECTOR_SIZE - SECTOR_HDR_DATA_SIZE \<and> nd_len env < ENV_AREA_SIZE)) s
           in if unat (crc_chunks (a + ENV_NAME_LEN_OFFSET) 0 (nd_len env - ENV_NAME_LEN_OFFSET) 0 s) \<noteq> hdr_crc32
              then (EF_READ_ERR, env\<lparr>crc_is_ok := False\<rparr>, s)
              else (EF_NO_ERR, env\<lparr>crc_is_ok := True, nd_name := ef_port_read (a + ENV_HDR_DATA_SIZE) hdr_name_len s,
                      nd_value := a + ENV_HDR_DATA_SIZE + hdr_name_len, nd_value_len := hdr_value_len,
                      nd_name_len := hdr_name_len\<rparr>, s))"

declare update_sector_loop.simps [simp del] update_env_loop.simps [simp del] get_env_loop.simps [simp del]
  ff_loop.simps [simp del] find_magic_loop.simps [simp del] crc_chunks.simps [simp del]

lemma read_env_start [simp]: "nd_start (fst (snd (read_env env s))) = nd_start env"
  by (simp add: read_env_def Let_def)

lemma find_magic_loop_ge: "find_magic_loop start bak e s = FAILED_ADDR \<or> find_magic_loop start bak e s \<ge> bak"
proof (induction start bak e s rule: find_magic_loop.induct)
  case (1 start bak e s)
  then show ?case
    by (simp add: find_magic_loop.simps [of start bak e s] split: option.split) (auto simp: find_Some_iff)
qed

lemma find_next_env_addr_ge:
  "find_next_env_addr start e s \<noteq> FAILED_ADDR \<Longrightarrow> start \<le> find_next_env_addr start e s"
  using find_magic_loop_ge [of start start e s] by (auto simp: find_next_env_addr_def split: if_splits)

lemma get_next_env_addr_gt:
  assumes "nd_start env \<noteq> FAILED_ADDR" "get_next_env_addr sec env s \<noteq> FAILED_ADDR"
  shows "nd_start env < get_next_env_addr sec env s \<and> get_next_env_addr sec env s \<le> sm_addr sec + SECTOR_SIZE"
proof -
  define a where "a = (if crc_is_ok env then nd_start env + nd_len env else nd_start env + 1)"
  define b where "b = find_next_env_addr a (sm_addr sec + SECTOR_SIZE - SECTOR_HDR_DATA_SIZE) s"
  have n: "get_next_env_addr sec env s = b" "b \<le> sm_addr sec + SECTOR_SIZE" "nd_len env \<noteq> 0"
    using assms by (auto simp: get_next_env_addr_def Let_def b_def a_def split: if_splits)
  then have "a \<le> b" using assms find_next_env_addr_ge [of a _ s] by (simp add: b_def)
  moreover have "nd_start env < a" using n(3) by (simp add: a_def)
  ultimately show ?thesis using n by simp
qed

text \<open>
  The loop over the nodes of a sector, which \<open>read_sector_meta_data\<close>, \<open>env_iterator\<close> and
  \<open>do_gc\<close> share: fetch the next address, read the node, run the body; the body says whether
  the loop is left. It ends because the addresses increase inside the sector.
\<close>

function env_loop ::
  "sector_meta_data \<Rightarrow> (env_node_obj \<Rightarrow> 'a \<Rightarrow> ef_flash \<Rightarrow> bool \<times> 'a \<times> ef_flash) \<Rightarrow> env_node_obj \<Rightarrow> 'a \<Rightarrow> ef_flash \<Rightarrow>
   bool \<times> env_node_obj \<times> 'a \<times> ef_flash" where
  "env_loop sector body env x s =
     (let a = get_next_env_addr sector env s in
      if a = FAILED_ADDR then (False, env\<lparr>nd_start := FAILED_ADDR\<rparr>, x, s)
      else let r = read_env (env\<lparr>nd_start := a\<rparr>) s; env1 = fst (snd r); b = body env1 x (snd (snd r))
        in if fst b then (True, env1, snd b) else env_loop sector body env1 (fst (snd b)) (snd (snd b)))"
  by pat_completeness auto
termination
proof (relation "measure (\<lambda>(sector, _, env, _).
    if nd_start env = FAILED_ADDR then sm_addr sector + 4096 + 2 else sm_addr sector + 4096 + 1 - nd_start env)", goal_cases)
  case (2 sector body env x s a r env1 b)
  then have st: "nd_start env1 = a" and ne: "a \<noteq> FAILED_ADDR" by simp_all
  show ?case
  proof (cases "nd_start env = FAILED_ADDR")
    case True
    with st ne show ?thesis by simp
  next
    case False
    with 2(1) ne have "nd_start env < a" "a \<le> sm_addr sector + 4096"
      using get_next_env_addr_gt [of env sector s] by auto
    with st ne False show ?thesis by simp
  qed
qed simp

declare env_loop.simps [simp del]

section \<open>Sectors\<close>

definition traversal_body ::
  "env_node_obj \<Rightarrow> (nat \<times> nat \<times> EfErrCode) \<Rightarrow> ef_flash \<Rightarrow> bool \<times> (nat \<times> nat \<times> EfErrCode) \<times> ef_flash" where
  "traversal_body env x s = (case x of (remain, empty_env, result) \<Rightarrow>
     if \<not> crc_is_ok env \<and> nd_status env \<noteq> ENV_PRE_WRITE \<and> nd_status env \<noteq> ENV_ERR_HDR
     then (True, (0, empty_env, EF_READ_ERR), s)
     else (False, (sub32 remain (nd_len env), empty_env + nd_len env, result), s))"

text \<open>The part of \<open>read_sector_meta_data\<close> under \<open>if (traversal)\<close>.\<close>

definition traverse_sector :: "sector_meta_data \<Rightarrow> ef_flash \<Rightarrow> EfErrCode \<times> sector_meta_data \<times> ef_flash" where
  "traverse_sector sector s =
     (let sector = sector\<lparr>sm_remain := 0, sm_empty_env := sm_addr sector + SECTOR_HDR_DATA_SIZE\<rparr> in
      if sm_store sector = SECTOR_STORE_EMPTY
      then (EF_NO_ERR, sector\<lparr>sm_remain := SECTOR_SIZE - SECTOR_HDR_DATA_SIZE\<rparr>, s)
      else if sm_store sector = SECTOR_STORE_USING then
        case get_sector_from_cache (sm_addr sector) s of
          Some e \<Rightarrow> (EF_NO_ERR, sector\<lparr>sm_empty_env := e, sm_remain := sub32 SECTOR_SIZE (sub32 e (sm_addr sector))\<rparr>, s)
        | None \<Rightarrow>
            (case env_loop sector traversal_body obj0 (SECTOR_SIZE - SECTOR_HDR_DATA_SIZE, sm_empty_env sector, EF_NO_ERR) s of
               (_, _, (remain, empty_env, result), s) \<Rightarrow>
                 let ff_addr = continue_ff_addr empty_env (sm_addr sector + SECTOR_SIZE) s;
                     sector = (if empty_env \<noteq> ff_addr
                       then sector\<lparr>sm_empty_env := ff_addr, sm_remain := sub32 SECTOR_SIZE (sub32 ff_addr (sm_addr sector))\<rparr>
                       else sector\<lparr>sm_empty_env := empty_env, sm_remain := remain\<rparr>)
                 in (result, sector, update_sector_cache (sm_addr sector) (sm_empty_env sector) s))
      else (EF_NO_ERR, sector, s))"

definition read_sector_meta_data ::
  "nat \<Rightarrow> sector_meta_data \<Rightarrow> bool \<Rightarrow> ef_flash \<Rightarrow> EfErrCode \<times> sector_meta_data \<times> ef_flash" where
  "read_sector_meta_data addr sector traversal s =
     (let s = ef_assert (addr mod SECTOR_SIZE = 0) s; sector = sector\<lparr>sm_addr := addr\<rparr> in
      if u32_at (cells s) (addr + 4) \<noteq> SECTOR_MAGIC_WORD
      then (EF_ENV_INIT_FAILED, sector\<lparr>check_ok := False, sm_combined := SECTOR_NOT_COMBINED\<rparr>, s)
      else let sector = sector\<lparr>check_ok := True, sm_combined := u32_at (cells s) (addr + 8),
                 sm_store := get_status (ef_port_read addr 1 s) SECTOR_STORE_STATUS_NUM,
                 sm_dirty := get_status (ef_port_read (addr + SECTOR_DIRTY_OFFSET) 1 s) SECTOR_DIRTY_STATUS_NUM\<rparr>
           in if traversal then traverse_sector sector s else (EF_NO_ERR, sector, s))"

definition get_next_sector_addr :: "sector_meta_data \<Rightarrow> nat" where
  "get_next_sector_addr pre_sec =
     (if sm_addr pre_sec = FAILED_ADDR then env_start_addr
      else let next_addr = (if sm_combined pre_sec = SECTOR_NOT_COMBINED then sm_addr pre_sec + SECTOR_SIZE
                            else (sm_addr pre_sec + sm_combined pre_sec * SECTOR_SIZE) mod 2 ^ 32)
           in if next_addr < env_start_addr + ENV_AREA_SIZE then next_addr else FAILED_ADDR)"

text \<open>
  The walks over the sectors take a number of turns. Two are enough for the two sectors; a
  header whose \<open>combined\<close> field leads back to the same sector makes the C loop run forever,
  which is \<open>hung\<close> here.
\<close>

abbreviation (input) MAX_TURNS :: nat where "MAX_TURNS \<equiv> 8"

definition env_turn ::
  "(env_node_obj \<Rightarrow> 'a \<Rightarrow> ef_flash \<Rightarrow> bool \<times> 'a \<times> ef_flash) \<Rightarrow> nat \<Rightarrow> sector_meta_data \<Rightarrow> env_node_obj \<Rightarrow> 'a \<Rightarrow> ef_flash \<Rightarrow>
   bool \<times> sector_meta_data \<times> env_node_obj \<times> 'a \<times> ef_flash" where
  "env_turn cb sec_addr sector env x s =
     (case read_sector_meta_data sec_addr sector False s of (r, sector, s) \<Rightarrow>
        if r \<noteq> EF_NO_ERR then (False, sector, env, x, s)
        else if sm_store sector = SECTOR_STORE_USING \<or> sm_store sector = SECTOR_STORE_FULL then
          case env_loop sector cb (env\<lparr>nd_start := FAILED_ADDR\<rparr>) x s of (stop, env, x, s) \<Rightarrow> (stop, sector, env, x, s)
        else (False, sector, env, x, s))"

primrec env_sectors ::
  "nat \<Rightarrow> (env_node_obj \<Rightarrow> 'a \<Rightarrow> ef_flash \<Rightarrow> bool \<times> 'a \<times> ef_flash) \<Rightarrow> sector_meta_data \<Rightarrow> env_node_obj \<Rightarrow> 'a \<Rightarrow> ef_flash \<Rightarrow>
   env_node_obj \<times> 'a \<times> ef_flash" where
  "env_sectors 0 cb sector env x s = (env, x, hang s)"
| "env_sectors (Suc n) cb sector env x s =
     (let sec_addr = get_next_sector_addr sector in
      if sec_addr = FAILED_ADDR then (env, x, s)
      else case env_turn cb sec_addr sector env x s of (stop, sector, env, x, s) \<Rightarrow>
        if stop then (env, x, s) else env_sectors n cb sector env x s)"

definition env_iterator ::
  "env_node_obj \<Rightarrow> 'a \<Rightarrow> (env_node_obj \<Rightarrow> 'a \<Rightarrow> ef_flash \<Rightarrow> bool \<times> 'a \<times> ef_flash) \<Rightarrow> ef_flash \<Rightarrow> env_node_obj \<times> 'a \<times> ef_flash" where
  "env_iterator env x cb s = env_sectors MAX_TURNS cb (sector0\<lparr>sm_addr := FAILED_ADDR\<rparr>) env x s"

definition sector_turn ::
  "nat \<Rightarrow> (sector_meta_data \<Rightarrow> 'a \<Rightarrow> ef_flash \<Rightarrow> bool \<times> 'a \<times> ef_flash) \<Rightarrow> bool \<Rightarrow> nat \<Rightarrow> sector_meta_data \<Rightarrow> 'a \<Rightarrow> ef_flash \<Rightarrow>
   bool \<times> sector_meta_data \<times> 'a \<times> ef_flash" where
  "sector_turn status cb traversal_env sec_addr sector x s =
     (case read_sector_meta_data sec_addr sector False s of (_, sector, s) \<Rightarrow>
        if status = SECTOR_STORE_UNUSED \<or> status = sm_store sector then
          case (if traversal_env then snd (read_sector_meta_data sec_addr sector traversal_env s) else (sector, s)) of (sector, s) \<Rightarrow>
          case cb sector x s of (stop, x, s) \<Rightarrow> (stop, sector, x, s)
        else (False, sector, x, s))"

primrec sector_loop ::
  "nat \<Rightarrow> nat \<Rightarrow> (sector_meta_data \<Rightarrow> 'a \<Rightarrow> ef_flash \<Rightarrow> bool \<times> 'a \<times> ef_flash) \<Rightarrow> bool \<Rightarrow> sector_meta_data \<Rightarrow> 'a \<Rightarrow> ef_flash \<Rightarrow>
   sector_meta_data \<times> 'a \<times> ef_flash" where
  "sector_loop 0 status cb traversal_env sector x s = (sector, x, hang s)"
| "sector_loop (Suc n) status cb traversal_env sector x s =
     (let sec_addr = get_next_sector_addr sector in
      if sec_addr = FAILED_ADDR then (sector, x, s)
      else case sector_turn status cb traversal_env sec_addr sector x s of (stop, sector, x, s) \<Rightarrow>
        if stop then (sector, x, s) else sector_loop n status cb traversal_env sector x s)"

definition sector_iterator ::
  "sector_meta_data \<Rightarrow> nat \<Rightarrow> 'a \<Rightarrow> (sector_meta_data \<Rightarrow> 'a \<Rightarrow> ef_flash \<Rightarrow> bool \<times> 'a \<times> ef_flash) \<Rightarrow> bool \<Rightarrow> ef_flash \<Rightarrow>
   sector_meta_data \<times> 'a \<times> ef_flash" where
  "sector_iterator sector status x cb traversal_env s =
     sector_loop MAX_TURNS status cb traversal_env (sector\<lparr>sm_addr := FAILED_ADDR\<rparr>) x s"

section \<open>Looking up\<close>

definition find_env_cb :: "u8 list \<Rightarrow> env_node_obj \<Rightarrow> bool \<Rightarrow> ef_flash \<Rightarrow> bool \<times> bool \<times> ef_flash" where
  "find_env_cb key env find_ok s =
     (if length key \<noteq> nd_name_len env then (False, find_ok, s)
      else if crc_is_ok env \<and> nd_status env = ENV_WRITE \<and> strncmp_eq (nd_name env) key (length key) then (True, True, s)
      else (False, find_ok, s))"

definition find_env_no_cache :: "u8 list \<Rightarrow> env_node_obj \<Rightarrow> ef_flash \<Rightarrow> bool \<times> env_node_obj \<times> ef_flash" where
  "find_env_no_cache key env s =
     (case env_iterator env False (find_env_cb key) s of (env, find_ok, s) \<Rightarrow> (find_ok, env, s))"

definition find_env :: "u8 list \<Rightarrow> env_node_obj \<Rightarrow> ef_flash \<Rightarrow> bool \<times> env_node_obj \<times> ef_flash" where
  "find_env key env s =
     (case get_env_from_cache key s of
        (Some a, s) \<Rightarrow> (True, snd (read_env (env\<lparr>nd_start := a\<rparr>) s))
      | (None, s) \<Rightarrow>
          (case find_env_no_cache key env s of (find_ok, env, s) \<Rightarrow>
             (find_ok, env, if find_ok then update_env_cache key (nd_start env) s else s)))"

definition ef_is_str_bytes :: "u8 list \<Rightarrow> bool" where
  "ef_is_str_bytes v \<longleftrightarrow> list_all (\<lambda>c. unat (ucast c - 32 :: u32) < 127 - 32) v"

text \<open>The bytes read and, with it, the length of the stored value.\<close>

definition get_env :: "u8 list \<Rightarrow> nat \<Rightarrow> ef_flash \<Rightarrow> u8 list \<times> ef_flash" where
  "get_env key buf_len s =
     (case find_env key obj0 s of (found, env, s) \<Rightarrow>
        if found then
          let read_len = (if buf_len > nd_value_len env then nd_value_len env else buf_len)
          in (ef_port_read (nd_value env) read_len s, s)
        else ([], s))"

definition ef_get_env_blob_flash :: "u8 list \<Rightarrow> nat \<Rightarrow> ef_flash \<Rightarrow> u8 list \<times> ef_flash" where
  "ef_get_env_blob_flash key buf_len s = (if \<not> ef_init_ok s then ([], s) else get_env key buf_len s)"

definition ef_get_env_flash :: "u8 list \<Rightarrow> ef_flash \<Rightarrow> u8 list option \<times> ef_flash" where
  "ef_get_env_flash key s =
     (case ef_get_env_blob_flash key EF_STR_ENV_VALUE_MAX_SIZE s of (v, s) \<Rightarrow>
        (if v \<noteq> [] \<and> ef_is_str_bytes v then Some v else None, s))"

section \<open>Allocation\<close>

text \<open>The header as written: status byte aside, padding is \<open>0xFF\<close>.\<close>

definition env_hdr_bytes :: "nat \<Rightarrow> u32 \<Rightarrow> nat \<Rightarrow> nat \<Rightarrow> u8 list" where
  "env_hdr_bytes len crc32 name_len value_len =
     u32_bytes ENV_MAGIC_WORD @ u32_bytes len @ u32_bytes (unat crc32) @
     [of_nat name_len, 0xFF, 0xFF, 0xFF] @ u32_bytes value_len"

definition write_env_hdr :: "nat \<Rightarrow> u8 list \<Rightarrow> ef_flash \<Rightarrow> EfErrCode \<times> ef_flash" where
  "write_env_hdr addr hdr s =
     on_ok (write_status addr ENV_STATUS_NUM ENV_PRE_WRITE s) (ef_port_write (addr + ENV_MAGIC_OFFSET) hdr)"

definition sector_hdr_bytes :: "nat \<Rightarrow> u8 list" where
  "sector_hdr_bytes combined =
     fst (set_status SECTOR_STORE_STATUS_NUM SECTOR_STORE_EMPTY) @ fst (set_status SECTOR_DIRTY_STATUS_NUM SECTOR_DIRTY_FALSE) @
     [0xFF, 0xFF] @ u32_bytes SECTOR_MAGIC_WORD @ u32_bytes combined @ u32_bytes 0xFFFFFFFF"

definition format_sector :: "nat \<Rightarrow> nat \<Rightarrow> ef_flash \<Rightarrow> EfErrCode \<times> ef_flash" where
  "format_sector addr combined_value s =
     on_ok (ef_port_erase addr SECTOR_SIZE (ef_assert (addr mod SECTOR_SIZE = 0) s)) (\<lambda>s.
       case ef_port_write addr (sector_hdr_bytes combined_value) s of (r, s) \<Rightarrow>
         (r, update_sector_cache addr (addr + SECTOR_SIZE) s))"

text \<open>The second component is the new value of \<open>*is_full\<close> when it is written.\<close>

definition update_sec_status :: "sector_meta_data \<Rightarrow> nat \<Rightarrow> ef_flash \<Rightarrow> EfErrCode \<times> bool option \<times> ef_flash" where
  "update_sec_status sector new_env_len s =
     (if sm_store sector = SECTOR_STORE_EMPTY then
        case write_status (sm_addr sector) SECTOR_STORE_STATUS_NUM SECTOR_STORE_USING s of (r, s) \<Rightarrow> (r, None, s)
      else if sm_store sector = SECTOR_STORE_USING then
        if sm_remain sector < EF_SEC_REMAIN_THRESHOLD \<or> sub32 (sm_remain sector) new_env_len < EF_SEC_REMAIN_THRESHOLD then
          case write_status (sm_addr sector) SECTOR_STORE_STATUS_NUM SECTOR_STORE_FULL s of (r, s) \<Rightarrow>
            (r, Some True, update_sector_cache (sm_addr sector) (sm_addr sector + SECTOR_SIZE) s)
        else (EF_NO_ERR, Some False, s)
      else (EF_NO_ERR, None, s))"

definition sector_statistics_cb :: "sector_meta_data \<Rightarrow> nat \<times> nat \<Rightarrow> ef_flash \<Rightarrow> bool \<times> (nat \<times> nat) \<times> ef_flash" where
  "sector_statistics_cb sector x s =
     (case x of (empty_sector, using_sector) \<Rightarrow>
        if check_ok sector \<and> sm_store sector = SECTOR_STORE_EMPTY then (False, (empty_sector + 1, using_sector), s)
        else if check_ok sector \<and> sm_store sector = SECTOR_STORE_USING then (False, (empty_sector, using_sector + 1), s)
        else (False, x, s))"

definition alloc_env_cb :: "nat \<Rightarrow> sector_meta_data \<Rightarrow> nat \<Rightarrow> ef_flash \<Rightarrow> bool \<times> nat \<times> ef_flash" where
  "alloc_env_cb env_size sector empty_env s =
     (if check_ok sector \<and> sm_remain sector > env_size \<and>
         (sm_dirty sector = SECTOR_DIRTY_FALSE \<or> (sm_dirty sector = SECTOR_DIRTY_TRUE \<and> \<not> gc_request s))
      then (True, sm_empty_env sector, s) else (False, empty_env, s))"

definition alloc_env :: "sector_meta_data \<Rightarrow> nat \<Rightarrow> ef_flash \<Rightarrow> nat \<times> sector_meta_data \<times> ef_flash" where
  "alloc_env sector env_size s =
     (case sector_iterator sector SECTOR_STORE_UNUSED (0, 0) sector_statistics_cb False s of
        (sector, (empty_sector, using_sector), s) \<Rightarrow>
      case (if using_sector > 0
            then sector_iterator sector SECTOR_STORE_USING FAILED_ADDR (alloc_env_cb env_size) True s
            else (sector, FAILED_ADDR, s)) of (sector, empty_env, s) \<Rightarrow>
        if empty_sector > 0 \<and> empty_env = FAILED_ADDR then
          if empty_sector > EF_GC_EMPTY_SEC_THRESHOLD \<or> gc_request s then
            case sector_iterator sector SECTOR_STORE_EMPTY empty_env (alloc_env_cb env_size) True s of
              (sector, empty_env, s) \<Rightarrow> (empty_env, sector, s)
          else (empty_env, sector, s\<lparr>gc_request := True\<rparr>)
        else (empty_env, sector, s))"

section \<open>Deleting, moving, collecting\<close>

text \<open>\<open>del_env\<close> with the node given; \<open>name\<close> is the key, or the name of the node when \<open>key\<close> is \<open>NULL\<close>.\<close>

definition del_env_at :: "u8 list \<Rightarrow> nat \<Rightarrow> bool \<Rightarrow> ef_flash \<Rightarrow> EfErrCode \<times> ef_flash" where
  "del_env_at name start complete_del s =
     (let (result, s) =
        (if \<not> complete_del then
           case write_status start ENV_STATUS_NUM ENV_PRE_DELETE s of (r, s) \<Rightarrow> (r, s\<lparr>last_is_complete_del := True\<rparr>)
         else
           case write_status start ENV_STATUS_NUM ENV_DELETED s of (r, s) \<Rightarrow>
             let s = (if \<not> last_is_complete_del s \<and> r = EF_NO_ERR then update_env_cache name FAILED_ADDR s else s)
             in (r, s\<lparr>last_is_complete_del := False\<rparr>));
        dirty_status_addr = start div SECTOR_SIZE * SECTOR_SIZE + SECTOR_DIRTY_OFFSET
      in if result = EF_NO_ERR \<and> read_status dirty_status_addr SECTOR_DIRTY_STATUS_NUM s = SECTOR_DIRTY_FALSE
         then write_status dirty_status_addr SECTOR_DIRTY_STATUS_NUM SECTOR_DIRTY_TRUE s
         else (result, s))"

definition del_env :: "u8 list \<Rightarrow> bool \<Rightarrow> ef_flash \<Rightarrow> EfErrCode \<times> ef_flash" where
  "del_env key complete_del s =
     (case find_env key obj0 s of (found, env, s) \<Rightarrow>
        if found then del_env_at key (nd_start env) complete_del s else (EF_ENV_NAME_ERR, s))"

text \<open>The copy loop of \<open>move_env\<close>, in pieces of 32 bytes; the result is that of the last piece.\<close>

function copy_loop :: "nat \<Rightarrow> nat \<Rightarrow> nat \<Rightarrow> nat \<Rightarrow> EfErrCode \<Rightarrow> ef_flash \<Rightarrow> EfErrCode \<times> ef_flash" where
  "copy_loop src dst len env_len r s =
     (if len < env_len then
        let n = (if len + 32 < env_len then 32 else env_len - len);
            w = ef_port_write (dst + len) (ef_port_read (src + len) n s) s
        in copy_loop src dst (len + n) env_len (fst w) (snd w)
      else (r, s))"
  by pat_completeness auto
termination by (relation "measure (\<lambda>(_, _, len, env_len, _). env_len - len)") auto

declare copy_loop.simps [simp del]

definition copy_env :: "env_node_obj \<Rightarrow> nat \<Rightarrow> sector_meta_data \<Rightarrow> ef_flash \<Rightarrow> EfErrCode \<times> ef_flash" where
  "copy_env env env_addr sector s =
     (let s = snd (snd (update_sec_status sector (nd_len env) s));
          s = snd (write_status env_addr ENV_STATUS_NUM ENV_PRE_WRITE s);
          (result, s) = copy_loop (nd_start env + ENV_MAGIC_OFFSET) (env_addr + ENV_MAGIC_OFFSET) 0
                          (nd_len env - ENV_MAGIC_OFFSET) EF_NO_ERR s;
          s = snd (write_status env_addr ENV_STATUS_NUM ENV_WRITE s);
          s = update_sector_cache (env_addr div SECTOR_SIZE * SECTOR_SIZE)
                (env_addr + ENV_HDR_DATA_SIZE + nd_name_len env + nd_value_len env) s
      in (result, update_env_cache (nd_name env) env_addr s))"

definition move_env :: "env_node_obj \<Rightarrow> ef_flash \<Rightarrow> EfErrCode \<times> ef_flash" where
  "move_env env s =
     (let s = (if nd_status env = ENV_WRITE then snd (del_env_at (nd_name env) (nd_start env) False s) else s) in
      case alloc_env sector0 (nd_len env) s of (env_addr, sector, s) \<Rightarrow>
        if env_addr = FAILED_ADDR then (EF_ENV_FULL, s)
        else
          let (exists, s) = (if in_recovery_check s
                 then (case find_env_no_cache (takeWhile (\<lambda>c. c \<noteq> 0) (nd_name env)) obj0 s of (found, _, s) \<Rightarrow> (found, s)) else (False, s));
              (result, s) = (if exists then (EF_NO_ERR, s) else copy_env env env_addr sector s)
          in (result, snd (del_env_at (nd_name env) (nd_start env) True s)))"

definition gc_check_cb :: "sector_meta_data \<Rightarrow> nat \<Rightarrow> ef_flash \<Rightarrow> bool \<times> nat \<times> ef_flash" where
  "gc_check_cb sector empty_sec s = (False, if check_ok sector then empty_sec + 1 else empty_sec, s)"

definition gc_body :: "env_node_obj \<Rightarrow> unit \<Rightarrow> ef_flash \<Rightarrow> bool \<times> unit \<times> ef_flash" where
  "gc_body env x s =
     (False, x, if crc_is_ok env \<and> (nd_status env = ENV_WRITE \<or> nd_status env = ENV_PRE_DELETE) then snd (move_env env s) else s)"

definition do_gc :: "sector_meta_data \<Rightarrow> unit \<Rightarrow> ef_flash \<Rightarrow> bool \<times> unit \<times> ef_flash" where
  "do_gc sector x s =
     (if check_ok sector \<and> (sm_dirty sector = SECTOR_DIRTY_TRUE \<or> sm_dirty sector = SECTOR_DIRTY_GC) then
        let s = snd (write_status (sm_addr sector + SECTOR_DIRTY_OFFSET) SECTOR_DIRTY_STATUS_NUM SECTOR_DIRTY_GC s)
        in case env_loop sector gc_body obj0 () s of (_, _, _, s) \<Rightarrow>
             (False, x, snd (format_sector (sm_addr sector) SECTOR_NOT_COMBINED s))
      else (False, x, s))"

definition gc_collect :: "ef_flash \<Rightarrow> ef_flash" where
  "gc_collect s =
     (case sector_iterator sector0 SECTOR_STORE_EMPTY 0 gc_check_cb False s of (_, empty_sec, s) \<Rightarrow>
        let s = (if empty_sec \<le> EF_GC_EMPTY_SEC_THRESHOLD
                 then snd (snd (sector_iterator sector0 SECTOR_STORE_UNUSED () do_gc False s)) else s)
        in s\<lparr>gc_request := False\<rparr>)"

section \<open>Creating and setting\<close>

definition new_env :: "sector_meta_data \<Rightarrow> nat \<Rightarrow> ef_flash \<Rightarrow> nat \<times> sector_meta_data \<times> ef_flash" where
  "new_env sector env_size s =
     (case alloc_env sector env_size s of (empty_env, sector, s) \<Rightarrow>
        if empty_env = FAILED_ADDR \<and> gc_request s then alloc_env sector env_size (gc_collect s)
        else (empty_env, sector, s))"

definition new_env_by_kv :: "sector_meta_data \<Rightarrow> nat \<Rightarrow> nat \<Rightarrow> ef_flash \<Rightarrow> nat \<times> sector_meta_data \<times> ef_flash" where
  "new_env_by_kv sector key_len buf_len s = new_env sector (ENV_HDR_DATA_SIZE + key_len + buf_len) s"

definition env_crc :: "u8 list \<Rightarrow> u8 list \<Rightarrow> u32" where
  "env_crc key v =
     (let c = ef_calc_crc32 0 ([of_nat (length key), 0xFF, 0xFF, 0xFF] @ u32_bytes (length v));
          c = ef_calc_crc32 c key
      in ef_calc_crc32 c v)"

text \<open>The writes of \<open>create_env_blob\<close>, once the node has its place.\<close>

definition write_env_node :: "sector_meta_data \<Rightarrow> nat \<Rightarrow> u8 list \<Rightarrow> u8 list \<Rightarrow> ef_flash \<Rightarrow> EfErrCode \<times> ef_flash" where
  "write_env_node sector env_addr key v s =
     (let len = ENV_HDR_DATA_SIZE + length key + length v;
          (r, full, s) = update_sec_status sector len s;
          is_full = (full = Some True)
      in on_ok (r, s) (\<lambda>s.
         on_ok (write_env_hdr env_addr (env_hdr_bytes len (env_crc key v) (length key) (length v)) s) (\<lambda>s.
         on_ok (case ef_port_write (env_addr + ENV_HDR_DATA_SIZE) key s of (r, s) \<Rightarrow>
                  let s = (if \<not> is_full then update_sector_cache (sm_addr sector) (env_addr + len) s else s)
                  in (r, update_env_cache key env_addr s)) (\<lambda>s.
         on_ok (ef_port_write (env_addr + ENV_HDR_DATA_SIZE + length key) v s) (\<lambda>s.
         on_ok (write_status env_addr ENV_STATUS_NUM ENV_WRITE s) (\<lambda>s.
           (EF_NO_ERR, if is_full then s\<lparr>gc_request := True\<rparr> else s)))))))"

definition create_env_blob :: "sector_meta_data \<Rightarrow> u8 list \<Rightarrow> u8 list \<Rightarrow> ef_flash \<Rightarrow> EfErrCode \<times> ef_flash" where
  "create_env_blob sector key v s =
     (let len = ENV_HDR_DATA_SIZE + length key + length v in
      if length key > EF_ENV_NAME_MAX then (EF_ENV_NAME_ERR, s)
      else if len > SECTOR_SIZE - SECTOR_HDR_DATA_SIZE then (EF_ENV_FULL, s)
      else
        let (env_addr, sector, s) = (if sm_empty_env sector \<noteq> FAILED_ADDR then (sm_empty_env sector, sector, s)
                                     else new_env sector len s)
        in if env_addr = FAILED_ADDR then (EF_ENV_FULL, s) else write_env_node sector env_addr key v s)"

definition ef_del_env :: "u8 list \<Rightarrow> ef_flash \<Rightarrow> EfErrCode \<times> ef_flash" where
  "ef_del_env key s = (if \<not> ef_init_ok s then (EF_ENV_INIT_FAILED, s) else del_env key True s)"

text \<open>\<open>None\<close> is a null pointer for the value.\<close>

definition set_env :: "u8 list \<Rightarrow> u8 list option \<Rightarrow> ef_flash \<Rightarrow> EfErrCode \<times> ef_flash" where
  "set_env key value_buf s =
     (case value_buf of None \<Rightarrow> del_env key True s
      | Some v \<Rightarrow>
        (case new_env_by_kv sector0 (length key) (length v) s of (a, sector, s) \<Rightarrow>
          if a = FAILED_ADDR then (EF_ENV_FULL, s)
          else case find_env key obj0 s of (env_is_found, env, s) \<Rightarrow>
            let (r, s) = (if env_is_found then del_env_at key (nd_start env) False s else (EF_NO_ERR, s));
                (r, s) = on_ok (r, s) (create_env_blob sector key v);
                (r, s) = (if env_is_found \<and> r = EF_NO_ERR then del_env_at key (nd_start env) True s else (r, s))
            in (r, if gc_request s then gc_collect s else s)))"

definition ef_set_env_blob :: "u8 list \<Rightarrow> u8 list option \<Rightarrow> ef_flash \<Rightarrow> EfErrCode \<times> ef_flash" where
  "ef_set_env_blob key value_buf s = (if \<not> ef_init_ok s then (EF_ENV_INIT_FAILED, s) else set_env key value_buf s)"

definition ef_set_env_flash :: "u8 list \<Rightarrow> u8 list \<Rightarrow> ef_flash \<Rightarrow> EfErrCode \<times> ef_flash" where
  "ef_set_env_flash key v s = ef_set_env_blob key (Some v) s"

section \<open>Defaults, recovery and start\<close>

text \<open>The loop over the sectors, stopped by the first error.\<close>

definition format_all :: "ef_flash \<Rightarrow> EfErrCode \<times> ef_flash" where
  "format_all s = on_ok (format_sector 0 SECTOR_NOT_COMBINED s) (format_sector SECTOR_SIZE SECTOR_NOT_COMBINED)"

text \<open>The result of \<open>create_env_blob\<close> is not looked at.\<close>

definition create_default :: "u8 list \<times> u8 list \<Rightarrow> ef_flash \<Rightarrow> ef_flash" where
  "create_default kv s = snd (create_env_blob (sector0\<lparr>sm_empty_env := FAILED_ADDR\<rparr>) (fst kv) (snd kv) s)"

definition ef_env_set_default :: "(u8 list \<times> u8 list) list \<Rightarrow> ef_flash \<Rightarrow> EfErrCode \<times> ef_flash" where
  "ef_env_set_default default_env_set s =
     on_ok (format_all (ef_assert (default_env_set \<noteq> []) s)) (\<lambda>s. (EF_NO_ERR, fold create_default default_env_set s))"

definition check_sec_hdr_cb :: "sector_meta_data \<Rightarrow> nat \<Rightarrow> ef_flash \<Rightarrow> bool \<times> nat \<times> ef_flash" where
  "check_sec_hdr_cb sector failed_count s =
     (if \<not> check_ok sector
      then (False, failed_count + 1, snd (format_sector (sm_addr sector) SECTOR_NOT_COMBINED s))
      else (False, failed_count, s))"

definition check_and_recovery_gc_cb :: "sector_meta_data \<Rightarrow> unit \<Rightarrow> ef_flash \<Rightarrow> bool \<times> unit \<times> ef_flash" where
  "check_and_recovery_gc_cb sector x s =
     (False, x, if check_ok sector \<and> sm_dirty sector = SECTOR_DIRTY_GC then gc_collect (s\<lparr>gc_request := True\<rparr>) else s)"

definition check_and_recovery_env_cb :: "env_node_obj \<Rightarrow> unit \<Rightarrow> ef_flash \<Rightarrow> bool \<times> unit \<times> ef_flash" where
  "check_and_recovery_env_cb env x s =
     (if crc_is_ok env \<and> nd_status env = ENV_PRE_DELETE then
        case move_env env s of (r, s) \<Rightarrow> (r \<noteq> EF_NO_ERR, x, s)
      else if nd_status env = ENV_PRE_WRITE
      then (True, x, snd (write_status (nd_start env) ENV_STATUS_NUM ENV_ERR_HDR s))
      else (False, x, s))"

text \<open>The \<open>__retry\<close> loop; a loop that does not end is \<open>None\<close>.\<close>

partial_function (option) recovery_loop :: "ef_flash \<Rightarrow> ef_flash option" where
  [code]: "recovery_loop s =
     (case env_iterator obj0 () check_and_recovery_env_cb s of (_, _, s) \<Rightarrow>
        if gc_request s then recovery_loop (gc_collect s) else Some s)"

definition ef_load_env :: "(u8 list \<times> u8 list) list \<Rightarrow> ef_flash \<Rightarrow> ef_flash option" where
  "ef_load_env default_env_set s =
     (case sector_iterator sector0 SECTOR_STORE_UNUSED 0 check_sec_hdr_cb False (s\<lparr>in_recovery_check := True\<rparr>) of
        (_, failed_count, s) \<Rightarrow>
      let s = (if failed_count = SECTOR_NUM then snd (ef_env_set_default default_env_set s) else s) in
      case sector_iterator sector0 SECTOR_STORE_UNUSED () check_and_recovery_gc_cb False s of
        (_, _, s) \<Rightarrow> map_option (\<lambda>s. s\<lparr>in_recovery_check := False\<rparr>) (recovery_loop s))"

definition init_caches :: "ef_flash \<Rightarrow> ef_flash" where
  "init_caches s = s\<lparr>sector_cache_table := map (\<lambda>c. c\<lparr>sc_addr := FAILED_ADDR\<rparr>) (sector_cache_table s),
     env_cache_table := map (\<lambda>c. c\<lparr>ec_addr := FAILED_ADDR\<rparr>) (env_cache_table s)\<rparr>"

definition ef_env_init :: "(u8 list \<times> u8 list) list \<Rightarrow> ef_flash \<Rightarrow> ef_flash option" where
  "ef_env_init default_env s =
     (if ef_init_ok s then Some s
      else map_option (\<lambda>s. s\<lparr>ef_init_ok := True\<rparr>) (ef_load_env default_env (init_caches s)))"

text \<open>The static data at reset, for given flash contents.\<close>

definition ef_reset :: "(nat \<Rightarrow> u8) \<Rightarrow> ef_flash" where
  "ef_reset m = \<lparr>cells = m, chip_ok = True, hung = False, ef_init_ok = False, gc_request = False,
     in_recovery_check = False, last_is_complete_del = False,
     env_cache_table = replicate EF_ENV_CACHE_TABLE_SIZE \<lparr>name_crc = 0, active = 0, ec_addr = 0\<rparr>,
     sector_cache_table = replicate EF_SECTOR_CACHE_TABLE_SIZE \<lparr>sc_addr = 0, sc_empty_addr = 0\<rparr>\<rparr>"

end
