(* ===== verification/EfRep.thy ===== *)
theory EfRep
  imports EfEnv
begin

text \<open>
  What the bytes of the ENV area mean: nodes and sectors as lists, how programming and erasing
  act on them, and what \<open>read_env\<close> and the scanning functions return on such bytes.
\<close>

unbundle bit_operations_syntax

section \<open>Bytes at an address\<close>

primrec at :: "(nat \<Rightarrow> u8) \<Rightarrow> nat \<Rightarrow> u8 list \<Rightarrow> bool" where
  "at m a [] = True"
| "at m a (b # bs) = (m a = b \<and> at m (Suc a) bs)"

definition blank :: "(nat \<Rightarrow> u8) \<Rightarrow> nat \<Rightarrow> nat \<Rightarrow> bool" where
  "blank m a e \<longleftrightarrow> (\<forall>x. a \<le> x \<and> x < e \<longrightarrow> m x = 0xFF)"

lemma at_append [simp]: "at m a (xs @ ys) \<longleftrightarrow> at m a xs \<and> at m (a + length xs) ys"
  by (induction xs arbitrary: a) auto

lemma at_iff: "at m a bs \<longleftrightarrow> (\<forall>i<length bs. m (a + i) = bs ! i)"
proof (induction bs arbitrary: a)
  case (Cons b bs)
  show ?case
  proof
    assume l: "at m a (b # bs)"
    then show "\<forall>i<length (b # bs). m (a + i) = (b # bs) ! i"
      using Cons [of "Suc a"] by (auto simp: nth_Cons split: nat.split)
  next
    assume r: "\<forall>i<length (b # bs). m (a + i) = (b # bs) ! i"
    then have "m a = b" by (metis add.right_neutral length_Cons nth_Cons_0 zero_less_Suc)
    moreover have "\<forall>i<length bs. m (Suc a + i) = bs ! i"
      using r by (metis add_Suc_shift length_Cons not_less_eq nth_Cons_Suc)
    ultimately show "at m a (b # bs)" using Cons by simp
  qed
qed simp

lemma at_read: "at (cells s) a bs \<Longrightarrow> n = length bs \<Longrightarrow> ef_port_read a n s = bs"
  by (auto simp: at_iff ef_port_read_def intro!: nth_equalityI)

lemma at_cong: "at m a bs \<Longrightarrow> (\<And>x. a \<le> x \<Longrightarrow> x < a + length bs \<Longrightarrow> m' x = m x) \<Longrightarrow> at m' a bs"
  by (simp add: at_iff)

lemma blank_cong: "blank m a e \<Longrightarrow> (\<And>x. a \<le> x \<Longrightarrow> x < e \<Longrightarrow> m' x = m x) \<Longrightarrow> blank m' a e"
  by (simp add: blank_def)

lemma blank_sub: "blank m a e \<Longrightarrow> a \<le> b \<Longrightarrow> d \<le> e \<Longrightarrow> blank m b d"
  by (simp add: blank_def)

lemma program_out: "x < a \<or> a + length bs \<le> x \<Longrightarrow> program a bs m x = m x"
  by (auto simp: program_def)

lemma and_FF [simp]: "0xFF AND (b :: u8) = b"
proof -
  have "(0xFF :: u8) = - 1" by simp
  then show ?thesis by (simp only: and.left_neutral)
qed

lemma at_program_blank: "blank m a (a + length bs) \<Longrightarrow> at (program a bs m) a bs"
  by (simp add: at_iff program_def blank_def)

lemma at_program_out:
  "at m b cs \<Longrightarrow> b + length cs \<le> a \<or> a + length bs \<le> b \<Longrightarrow> at (program a bs m) b cs"
  by (erule at_cong) (auto intro!: program_out)

lemma blank_program_out:
  "blank m b e \<Longrightarrow> e \<le> a \<or> a + length bs \<le> b \<Longrightarrow> blank (program a bs m) b e"
  by (erule blank_cong) (auto intro!: program_out)

lemma program_Nil [simp]: "program a [] m = m"
  by (rule ext) (auto simp: program_def)

lemma program_append: "b = a + length xs \<Longrightarrow> program b ys (program a xs m) = program a (xs @ ys) m"
  by (rule ext) (auto simp: program_def nth_append diff_diff_left)

lemma at_take: "at m a bs \<Longrightarrow> at m a (take n bs)"
  by (simp add: at_iff)

lemma at_drop: "at m a bs \<Longrightarrow> n \<le> length bs \<Longrightarrow> at m (a + n) (drop n bs)"
  by (simp add: at_iff add.assoc)

section \<open>Words\<close>

lemma u32_at_bytes: "at m a (u32_bytes n) \<Longrightarrow> n < 4294967296 \<Longrightarrow> u32_at m a = n"
  using u32_split [of n] by (simp add: u32_bytes_def u32_at_def unat_of_nat_byte numeral_2_eq_2 numeral_3_eq_3)

section \<open>Loops over buffers\<close>

lemma ef_port_read_split: "ef_port_read a (n + k) s = ef_port_read a n s @ ef_port_read (a + n) k s"
proof -
  have "[a..<a + (n + k)] = [a..<a + n] @ [a + n..<a + n + k]"
    using upt_add_eq_append [of a "a + n" k] by (simp add: add.assoc)
  then show ?thesis by (simp add: ef_port_read_def add.assoc)
qed

lemma length_ef_port_read [simp]: "length (ef_port_read a n s) = n"
  by (simp add: ef_port_read_def)

lemma crc_chunks_eq: "crc_chunks a len tot c s = ef_calc_crc32 c (ef_port_read (a + len) (tot - len) s)"
proof (induction a len tot c s rule: crc_chunks.induct)
  case (1 a len tot c s)
  show ?case
  proof (cases "len < tot")
    case True
    define n where "n = (if len + 32 < tot then 32 else tot - len)"
    with True have n: "tot - len = n + (tot - (len + n))" by simp
    have "crc_chunks a len tot c s = crc_chunks a (len + n) tot (ef_calc_crc32 c (ef_port_read (a + len) n s)) s"
      using True by (simp add: crc_chunks.simps [of a len] Let_def n_def)
    also have "\<dots> = ef_calc_crc32 c (ef_port_read (a + len) n s @ ef_port_read (a + len + n) (tot - (len + n)) s)"
      using 1 [OF True n_def] by (simp add: ef_calc_crc32_append add.assoc)
    also have "\<dots> = ef_calc_crc32 c (ef_port_read (a + len) (n + (tot - (len + n))) s)"
      by (simp only: ef_port_read_split)
    finally show ?thesis using n by simp
  qed (simp add: crc_chunks.simps [of a len] ef_port_read_def)
qed

lemma copy_loop_eq:
  assumes "chip_ok s" "src + n \<le> dst + len \<or> dst + n \<le> src + len"
  shows "copy_loop src dst len n EF_NO_ERR s =
    (EF_NO_ERR, s\<lparr>cells := program (dst + len) (ef_port_read (src + len) (n - len) s) (cells s)\<rparr>)"
  using assms
proof (induction src dst len n "EF_NO_ERR" s rule: copy_loop.induct)
  case (1 src dst len n s)
  show ?case
  proof (cases "len < n")
    case True
    define k where "k = (if len + 32 < n then 32 else n - len)"
    with True have k: "n - len = k + (n - (len + k))" "0 < k" by auto
    define w where "w = ef_port_write (dst + len) (ef_port_read (src + len) k s) s"
    have w: "fst w = EF_NO_ERR" "snd w = s\<lparr>cells := program (dst + len) (ef_port_read (src + len) k s) (cells s)\<rparr>"
      using "1.prems" by (simp_all add: w_def ef_port_write_def)
    have rd: "ef_port_read (src + len + k) (n - (len + k)) (snd w) = ef_port_read (src + len + k) (n - (len + k)) s"
      using "1.prems" k by (auto simp: ef_port_read_def w(2) intro!: program_out)
    have "copy_loop src dst len n EF_NO_ERR s = copy_loop src dst (len + k) n (fst w) (snd w)"
      using True by (simp add: copy_loop.simps [of src dst len] Let_def k_def w_def)
    also have "\<dots> = (EF_NO_ERR, (snd w)\<lparr>cells := program (dst + (len + k)) (ef_port_read (src + (len + k)) (n - (len + k)) (snd w)) (cells (snd w))\<rparr>)"
      using 1(1) [OF True k_def w_def w(1)] "1.prems" w by (simp add: trans_le_add1) auto
    also have "\<dots> = (EF_NO_ERR, s\<lparr>cells := program (dst + len) (ef_port_read (src + len) (k + (n - (len + k))) s) (cells s)\<rparr>)"
      using rd by (simp add: w(2) ef_port_read_split program_append add.assoc)
    finally show ?thesis using k(1) by simp
  next
    case False
    then show ?thesis by (simp add: copy_loop.simps [of src dst len] ef_port_read_def)
  qed
qed

lemma ff_bytes_blank: "ff_bytes a (replicate n 0xFF) l x = (if n = 0 then (l, x) else (0xFF, if l \<noteq> 0xFF then a else x))"
  by (induction n arbitrary: a l x) auto

lemma blank_read: "blank (cells s) a (a + n) \<Longrightarrow> ef_port_read a n s = replicate n 0xFF"
  by (auto simp: ef_port_read_def blank_def intro!: nth_equalityI)

lemma ff_loop_blank: "blank (cells s) a e \<Longrightarrow> a < e \<Longrightarrow> ff_loop a e l x s = (0xFF, if l \<noteq> 0xFF then a else x)"
proof (induction a e l x s rule: ff_loop.induct)
  case (1 a e l x s)
  define n where "n = (if a + 32 < e then 32 else e - a)"
  have n: "0 < n" "a + n \<le> e" using "1.prems" by (auto simp: n_def)
  then have rd: "ef_port_read a n s = replicate n 0xFF"
    using "1.prems" by (intro blank_read) (auto elim: blank_sub)
  have "ff_loop a e l x s = ff_loop (a + 32) e 0xFF (if l \<noteq> 0xFF then a else x) s"
    using "1.prems"(2) n by (subst ff_loop.simps) (simp add: rd ff_bytes_blank flip: n_def)
  also have "\<dots> = (0xFF, if l \<noteq> 0xFF then a else x)"
  proof (cases "a + 32 < e")
    case True
    then have nn: "n = 32" by (simp add: n_def)
    have "blank (cells s) (a + 32) e" using "1.prems"(1) by (rule blank_sub) auto
    from 1(1) [OF "1.prems"(2) n_def, of "(0xFF, if l \<noteq> 0xFF then a else x)"] True this show ?thesis
      by (simp add: rd ff_bytes_blank n)
  next
    case False
    then show ?thesis by (subst ff_loop.simps) simp
  qed
  finally show ?case .
qed

lemma continue_ff_blank: "blank (cells s) a e \<Longrightarrow> a \<le> e \<Longrightarrow> continue_ff_addr a e s = a"
  by (cases "a = e") (simp_all add: continue_ff_addr_def ff_loop.simps [of e e] ff_loop_blank)

definition magic_at :: "nat \<Rightarrow> ef_flash \<Rightarrow> nat \<Rightarrow> bool" where
  "magic_at bak s p \<longleftrightarrow> u32_at (cells s) p = ENV_MAGIC_WORD \<and> bak \<le> sub32 p ENV_MAGIC_OFFSET"

lemma find_magic_none: "(\<And>p. start \<le> p \<Longrightarrow> p < e \<Longrightarrow> \<not> magic_at bak s p) \<Longrightarrow> find_magic_loop start bak e s = FAILED_ADDR"
proof (induction start bak e s rule: find_magic_loop.induct)
  case (1 start bak e s)
  have f: "find (\<lambda>i. start + i < e \<and> u32_at (cells s) (start + i) = ENV_MAGIC_WORD \<and>
      bak \<le> sub32 (start + i) ENV_MAGIC_OFFSET) [0..<28] = None"
    using "1.prems" by (auto simp: find_None_iff magic_at_def)
  show ?case
  proof (cases "start < e")
    case True
    then have "find_magic_loop (start + 28) bak e s = FAILED_ADDR" using 1(1) [OF True f] "1.prems" by simp
    with True f show ?thesis by (simp add: find_magic_loop.simps [of start])
  qed (simp add: find_magic_loop.simps [of start])
qed

lemma find_upt_first: "k < n \<Longrightarrow> P k \<Longrightarrow> (\<And>i. i < k \<Longrightarrow> \<not> P i) \<Longrightarrow> find P [0..<n] = Some k"
  by (auto simp: find_Some_iff intro!: exI [of _ k])

lemma find_magic_here:
  assumes "u32_at (cells s) (a + 4) = ENV_MAGIC_WORD" "a + 4 < e" "4 \<le> a" "a < 4294967000"
  shows "find_magic_loop a a e s = a"
proof -
  have sub: "sub32 (a + i) 4 = a + i - 4" if "i < 28" for i
    using assms that by (intro sub32_le) auto
  have "find (\<lambda>i. a + i < e \<and> u32_at (cells s) (a + i) = ENV_MAGIC_WORD \<and> a \<le> sub32 (a + i) 4) [0..<28] = Some 4"
    by (rule find_upt_first) (use assms sub in auto)
  with assms sub show ?thesis by (simp add: find_magic_loop.simps [of a])
qed

section \<open>Nodes\<close>

datatype enode = Enode (stb: u8) (nm: "u8 list") (vl: "u8 list")

definition nlen :: "enode \<Rightarrow> nat" where
  "nlen nd = ENV_HDR_DATA_SIZE + length (nm nd) + length (vl nd)"

text \<open>Everything behind the status word.\<close>

definition node_body :: "u8 list \<Rightarrow> u8 list \<Rightarrow> u8 list" where
  "node_body k v = env_hdr_bytes (ENV_HDR_DATA_SIZE + length k + length v) (env_crc k v) (length k) (length v) @ k @ v"

definition padded :: "u8 \<Rightarrow> u8 list" where
  "padded b = [b, 0xFF, 0xFF, 0xFF]"

definition node_bytes :: "enode \<Rightarrow> u8 list" where
  "node_bytes nd = padded (stb nd) @ node_body (nm nd) (vl nd)"

definition wf_node :: "enode \<Rightarrow> bool" where
  "wf_node nd \<longleftrightarrow> length (nm nd) \<le> EF_ENV_NAME_MAX \<and> nlen nd \<le> SECTOR_SIZE - SECTOR_HDR_DATA_SIZE"

text \<open>What \<open>read_env\<close> makes of a node at address \<open>a\<close>.\<close>

definition node_obj :: "nat \<Rightarrow> enode \<Rightarrow> env_node_obj" where
  "node_obj a nd = \<lparr>nd_status = get_status [stb nd] ENV_STATUS_NUM, crc_is_ok = True, nd_name_len = length (nm nd),
     nd_len = nlen nd, nd_value_len = length (vl nd), nd_name = nm nd, nd_start = a, nd_value = a + ENV_HDR_DATA_SIZE + length (nm nd)\<rparr>"

lemma length_padded [simp]: "length (padded b) = 4"
  by (simp add: padded_def)

lemma at_padded: "at m a (padded b) \<Longrightarrow> m a = b"
  by (simp add: padded_def)

lemma length_env_hdr_bytes [simp]: "length (env_hdr_bytes l c n v) = 20"
  by (simp add: env_hdr_bytes_def)

lemma length_node_body [simp]: "length (node_body k v) = 20 + length k + length v"
  by (simp add: node_body_def)

lemma length_node_bytes [simp]: "length (node_bytes nd) = nlen nd"
  by (simp add: node_bytes_def nlen_def)

lemma env_crc_eq: "env_crc k v = ef_calc_crc32 0 (padded (of_nat (length k)) @ u32_bytes (length v) @ k @ v)"
  by (simp add: env_crc_def padded_def Let_def ef_calc_crc32_append)

lemma node_bytes_parts:
  assumes "at m a (node_bytes nd)"
  shows "m a = stb nd" "at m (a + 4) (u32_bytes ENV_MAGIC_WORD)" "at m (a + 8) (u32_bytes (nlen nd))"
    "at m (a + 12) (u32_bytes (unat (env_crc (nm nd) (vl nd))))"
    "at m (a + 16) (padded (of_nat (length (nm nd))) @ u32_bytes (length (vl nd)) @ nm nd @ vl nd)"
  using assms at_padded [of m a "stb nd"]
  by (simp_all add: node_bytes_def node_body_def env_hdr_bytes_def nlen_def add.assoc flip: padded_def)

lemma read_env_node:
  assumes "at (cells s) (nd_start env) (node_bytes nd)" "wf_node nd"
  shows "read_env env s = (EF_NO_ERR, node_obj (nd_start env) nd, s)"
proof -
  define a where "a = nd_start env"
  note p = node_bytes_parts [OF assms(1), folded a_def]
  have w: "length (nm nd) \<le> 128" "nlen nd \<le> 4080" "24 \<le> nlen nd" "length (vl nd) < 4294967296"
    using assms(2) by (auto simp: wf_node_def nlen_def)
  have len: "u32_at (cells s) (a + 8) = nlen nd" "u32_at (cells s) (a + 12) = unat (env_crc (nm nd) (vl nd))"
    using p(3,4) w unsigned_less [of "env_crc (nm nd) (vl nd)"] by (auto intro!: u32_at_bytes)
  have p5: "at (cells s) (a + 20) (u32_bytes (length (vl nd)))" "at (cells s) (a + 24) (nm nd)" "cells s (a + 16) = of_nat (length (nm nd))"
    using p(5) at_padded [of "cells s" "a + 16"] by (simp_all add: add.assoc)
  have vl: "u32_at (cells s) (a + 20) = length (vl nd)" "unat (cells s (a + 16)) = length (nm nd)"
    using p5(1,3) w by (auto intro!: u32_at_bytes simp: unat_of_nat_byte)
  have st: "ef_port_read a 1 s = [stb nd]" using p(1) by (intro at_read) simp_all
  have crc: "ef_port_read (a + 16) (nlen nd - 16) s
      = padded (of_nat (length (nm nd))) @ u32_bytes (length (vl nd)) @ nm nd @ vl nd"
    using p(5) by (intro at_read) (simp_all add: nlen_def)
  have nm: "ef_port_read (a + 24) (length (nm nd)) s = nm nd" using p5(2) by (intro at_read) simp_all
  have eqs: "crc_chunks (a + 16) 0 (nlen nd - 16) 0 s = env_crc (nm nd) (vl nd)"
    using crc by (simp add: crc_chunks_eq env_crc_eq)
  show ?thesis
    using w st len vl nm eqs
    by (cases env) (simp add: read_env_def Let_def ef_assert_def node_obj_def a_def)
qed

section \<open>Sectors\<close>

primrec nodes_at :: "(nat \<Rightarrow> u8) \<Rightarrow> nat \<Rightarrow> enode list \<Rightarrow> bool" where
  "nodes_at m a [] = True"
| "nodes_at m a (nd # nds) = (at m a (node_bytes nd) \<and> nodes_at m (a + nlen nd) nds)"

definition nsize :: "enode list \<Rightarrow> nat" where
  "nsize nds = sum_list (map nlen nds)"

lemma nsize_simps [simp]: "nsize [] = 0" "nsize (nd # nds) = nlen nd + nsize nds" "nsize (xs @ ys) = nsize xs + nsize ys"
  by (simp_all add: nsize_def)

lemma nlen_ge: "24 \<le> nlen nd"
  by (simp add: nlen_def)

lemma nodes_at_append [simp]: "nodes_at m a (xs @ ys) \<longleftrightarrow> nodes_at m a xs \<and> nodes_at m (a + nsize xs) ys"
  by (induction xs arbitrary: a) (auto simp: add.assoc)

lemma nodes_at_cong:
  "nodes_at m a nds \<Longrightarrow> (\<And>x. a \<le> x \<Longrightarrow> x < a + nsize nds \<Longrightarrow> m' x = m x) \<Longrightarrow> nodes_at m' a nds"
  by (induction nds arbitrary: a) (auto elim!: at_cong)

definition hdr_at :: "(nat \<Rightarrow> u8) \<Rightarrow> nat \<Rightarrow> u8 \<Rightarrow> u8 \<Rightarrow> bool" where
  "hdr_at m a st dt \<longleftrightarrow> m a = st \<and> m (a + 1) = dt \<and> m (a + 2) = 0xFF \<and> m (a + 3) = 0xFF \<and>
     at m (a + 4) (u32_bytes SECTOR_MAGIC_WORD @ u32_bytes SECTOR_NOT_COMBINED @ u32_bytes 0xFFFFFFFF)"

definition sector_at :: "(nat \<Rightarrow> u8) \<Rightarrow> nat \<Rightarrow> u8 \<Rightarrow> u8 \<Rightarrow> enode list \<Rightarrow> bool" where
  "sector_at m a st dt nds \<longleftrightarrow> hdr_at m a st dt \<and> nodes_at m (a + 16) nds \<and> blank m (a + 16 + nsize nds) (a + 4096) \<and>
     16 + nsize nds \<le> 4096 \<and> (\<forall>nd\<in>set nds. wf_node nd)"

lemma hdr_at_cong: "hdr_at m a st dt \<Longrightarrow> (\<And>x. a \<le> x \<Longrightarrow> x < a + 16 \<Longrightarrow> m' x = m x) \<Longrightarrow> hdr_at m' a st dt"
  by (auto simp: hdr_at_def elim!: at_cong)

lemma sector_at_cong:
  assumes "sector_at m a st dt nds" "\<And>x. a \<le> x \<Longrightarrow> x < a + 4096 \<Longrightarrow> m' x = m x"
  shows "sector_at m' a st dt nds"
  using assms by (auto simp: sector_at_def elim!: hdr_at_cong nodes_at_cong blank_cong)

lemma hdr_at_u32:
  assumes "hdr_at m a st dt"
  shows "u32_at m (a + 4) = SECTOR_MAGIC_WORD" "u32_at m (a + 8) = SECTOR_NOT_COMBINED"
  using assms by (auto simp: hdr_at_def add.assoc intro!: u32_at_bytes)

text \<open>The fields a header read sets.\<close>

definition sec_meta :: "nat \<Rightarrow> u8 \<Rightarrow> u8 \<Rightarrow> sector_meta_data \<Rightarrow> sector_meta_data" where
  "sec_meta a st dt sec = sec\<lparr>sm_addr := a, check_ok := True, sm_combined := SECTOR_NOT_COMBINED,
     sm_store := get_status [st] SECTOR_STORE_STATUS_NUM, sm_dirty := get_status [dt] SECTOR_DIRTY_STATUS_NUM\<rparr>"

lemma sec_meta_simps [simp]:
  "sm_addr (sec_meta a st dt sec) = a" "check_ok (sec_meta a st dt sec)" "sm_combined (sec_meta a st dt sec) = SECTOR_NOT_COMBINED"
  "sm_store (sec_meta a st dt sec) = get_status [st] SECTOR_STORE_STATUS_NUM"
  "sm_dirty (sec_meta a st dt sec) = get_status [dt] SECTOR_DIRTY_STATUS_NUM"
  by (simp_all add: sec_meta_def)

lemma read_meta:
  assumes "hdr_at (cells s) a st dt" "a mod 4096 = 0"
  shows "read_sector_meta_data a sec t s = (if t then traverse_sector (sec_meta a st dt sec) s else (EF_NO_ERR, sec_meta a st dt sec, s))"
proof -
  have "ef_port_read a 1 s = [st]" "ef_port_read (a + 1) 1 s = [dt]"
    using assms(1) by (auto simp: hdr_at_def intro!: at_read)
  then show ?thesis
    using assms hdr_at_u32 [OF assms(1)]
    by (simp add: read_sector_meta_data_def ef_assert_def sec_meta_def Let_def)
qed

text \<open>Status bytes: a bit is cleared for each step, so a later status is the AND of the earlier writes.\<close>

lemma get_status_turns_numeral:
  "get_status_turns t (numeral k) = (let n = pred_numeral k in
     if t ! (n div 8) AND drop_bit (n mod 8) 0x80 = 0 then 0 else Suc (get_status_turns t n))"
  by (simp only: numeral_eq_Suc get_status_turns.simps Let_def)

lemma store_status [simp]:
  "get_status [0x7F] 4 = 1" "get_status [0x3F] 4 = 2" "get_status [0x1F] 4 = 3"
  by (simp_all add: get_status_def get_status_turns_numeral)

lemma env_status [simp]:
  "get_status [0x7F] 6 = 1" "get_status [0x3F] 6 = 2" "get_status [0x1F] 6 = 3" "get_status [0x0F] 6 = 4" "get_status [0x2F] 6 = 4"
  by (simp_all add: get_status_def get_status_turns_numeral)

definition status_byte :: "nat \<Rightarrow> u8" where
  "status_byte i = NOT (drop_bit ((i - 1) mod 8) 0x80)"

lemma write_status_eq:
  assumes "chip_ok s" "0 < i" "i < num" "num \<le> 8"
  shows "write_status a num i s = (EF_NO_ERR, s\<lparr>cells := program a [status_byte i] (cells s)\<rparr>)"
proof -
  have "(num + 7) div 8 = 1" "(i - 1) div 8 = 0" using assms by auto
  then show ?thesis
    using assms by (simp add: write_status_def set_status_def ef_assert_def ef_port_write_def status_byte_def Let_def)
qed

end
