(* ===== verification/EfCache.thy ===== *)
theory EfCache
  imports EfRep
begin

text \<open>
  The two caches of \<open>ef_env.c\<close>. Each table keeps at most one used entry per key (sector
  address, name checksum), and every used entry satisfies a predicate; the lemmas say how the
  update functions change that predicate and what a hit means.
\<close>

section \<open>Sector cache\<close>

definition sec_table_ok :: "(nat \<Rightarrow> nat option) \<Rightarrow> sector_cache_node list \<Rightarrow> bool" where
  "sec_table_ok T t \<longleftrightarrow> length t = 4 \<and>
     (\<forall>i<4. sc_addr (t ! i) \<noteq> FAILED_ADDR \<longrightarrow> T (sc_addr (t ! i)) = Some (sc_empty_addr (t ! i))) \<and>
     (\<forall>i<4. \<forall>j<4. sc_addr (t ! i) = sc_addr (t ! j) \<longrightarrow> sc_addr (t ! j) \<noteq> FAILED_ADDR \<longrightarrow> i = j)"

definition sec_cache_ok :: "(nat \<Rightarrow> nat option) \<Rightarrow> ef_flash \<Rightarrow> bool" where
  "sec_cache_ok T s \<longleftrightarrow> sec_table_ok T (sector_cache_table s)"

text \<open>What a search loop from index \<open>i\<close> gives: the table changed at a hit, or no hit up to \<open>n\<close>.\<close>

definition search_post :: "nat \<Rightarrow> (nat \<Rightarrow> bool) \<Rightarrow> (nat \<Rightarrow> 't \<Rightarrow> bool) \<Rightarrow> nat \<Rightarrow> 't + 'e \<Rightarrow> bool" where
  "search_post n hit upd i r = (case r of Inl t' \<Rightarrow> \<exists>k. i \<le> k \<and> k < n \<and> hit k \<and> (\<forall>j. i \<le> j \<and> j < k \<longrightarrow> \<not> hit j) \<and> upd k t'
     | Inr _ \<Rightarrow> \<forall>k. i \<le> k \<and> k < n \<longrightarrow> \<not> hit k)"

lemma search_post_step: "\<not> hit i \<Longrightarrow> search_post n hit upd (i + 1) r \<Longrightarrow> search_post n hit upd i r"
proof -
  assume a: "\<not> hit i" "search_post n hit upd (i + 1) r"
  have all: "\<forall>j. i \<le> j \<and> j < k \<longrightarrow> \<not> hit j" if "\<forall>j. Suc i \<le> j \<and> j < k \<longrightarrow> \<not> hit j" for k
    using that a(1) by (metis Suc_leI le_neq_implies_less)
  show "search_post n hit upd i r"
  proof (cases r)
    case (Inl t')
    with a(2) obtain k where k: "Suc i \<le> k" "k < n" "hit k" "\<forall>j. Suc i \<le> j \<and> j < k \<longrightarrow> \<not> hit j" "upd k t'"
      by (auto simp: search_post_def)
    with all [OF k(4)] Inl show ?thesis by (auto simp: search_post_def intro!: exI [of _ k])
  next
    case (Inr e)
    with a(2) all [of n] show ?thesis by (simp add: search_post_def)
  qed
qed

lemma search_post_end: "n \<le> i \<Longrightarrow> search_post n hit upd i (Inr e)"
  by (auto simp: search_post_def)

lemma search_post_hit: "i < n \<Longrightarrow> hit i \<Longrightarrow> upd i t' \<Longrightarrow> search_post n hit upd i (Inl t')"
  by (auto simp: search_post_def)

lemma update_sector_loop_in:
  "sec < emp \<and> emp < sec + 4096 \<Longrightarrow>
   search_post 4 (\<lambda>k. sc_addr (t ! k) = sec) (\<lambda>k t'. t' = t[k := \<lparr>sc_addr = sec, sc_empty_addr = emp\<rparr>]) i
     (update_sector_loop sec emp i e t)"
proof (induction sec emp i e t rule: update_sector_loop.induct)
  case (1 sec emp i e t)
  have rec: "(t ! i)\<lparr>sc_addr := sec, sc_empty_addr := emp\<rparr> = \<lparr>sc_addr = sec, sc_empty_addr = emp\<rparr>" by (cases "t ! i") simp
  consider (stop) "4 \<le> i" | (hit) "i < 4" "sc_addr (t ! i) = sec" | (step) "i < 4" "sc_addr (t ! i) \<noteq> sec"
    by linarith
  then show ?case
  proof cases
    case step
    with 1 show ?thesis by - (rule search_post_step, simp_all add: update_sector_loop.simps [of sec emp i])
  next
    case hit
    with rec "1.prems" have "update_sector_loop sec emp i e t = Inl (t[i := \<lparr>sc_addr = sec, sc_empty_addr = emp\<rparr>])"
      by (simp only: update_sector_loop.simps [of sec emp i]) simp
    with hit show ?thesis by (simp add: search_post_hit)
  qed (use "1.prems" in \<open>simp add: update_sector_loop.simps [of sec emp i] search_post_end\<close>)
qed

lemma update_sector_loop_out:
  "\<not> (sec < emp \<and> emp < sec + 4096) \<Longrightarrow>
   search_post 4 (\<lambda>k. sc_addr (t ! k) = sec) (\<lambda>k t'. t' = t[k := (t ! k)\<lparr>sc_addr := FAILED_ADDR\<rparr>]) i
     (update_sector_loop sec emp i e t) \<and> (\<forall>e'. update_sector_loop sec emp i e t = Inr e' \<longrightarrow> e' = e)"
proof (induction sec emp i e t rule: update_sector_loop.induct)
  case (1 sec emp i e t)
  consider (stop) "4 \<le> i" | (hit) "i < 4" "sc_addr (t ! i) = sec" | (step) "i < 4" "sc_addr (t ! i) \<noteq> sec"
    by linarith
  then show ?case
  proof cases
    case step
    with 1 show ?thesis
      by (simp add: update_sector_loop.simps [of sec emp i] search_post_step [where i = i] split: if_split) auto
  qed (use "1.prems" in \<open>auto simp: update_sector_loop.simps [of sec emp i] search_post_end search_post_hit\<close>)
qed

lemma sec_table_replace:
  assumes "sec_table_ok T t" "k < 4" "sec \<noteq> FAILED_ADDR" "sc_addr (t ! k) = sec"
  shows "sec_table_ok (T(sec \<mapsto> emp)) (t[k := \<lparr>sc_addr = sec, sc_empty_addr = emp\<rparr>])"
    "sec_table_ok (T(sec := None)) (t[k := (t ! k)\<lparr>sc_addr := FAILED_ADDR\<rparr>])"
  using assms by (auto simp: sec_table_ok_def nth_list_update)

lemma sec_table_add:
  assumes "sec_table_ok T t" "k < 4" "sec \<noteq> FAILED_ADDR" "\<And>i. i < 4 \<Longrightarrow> sc_addr (t ! i) \<noteq> sec"
  shows "sec_table_ok (T(sec \<mapsto> emp)) (t[k := \<lparr>sc_addr = sec, sc_empty_addr = emp\<rparr>])"
  using assms by (auto simp: sec_table_ok_def nth_list_update)

lemma sec_table_other:
  "sec_table_ok T t \<Longrightarrow> (\<And>i. i < 4 \<Longrightarrow> sc_addr (t ! i) \<noteq> sec) \<Longrightarrow> sec_table_ok (T(sec := x)) t"
  by (auto simp: sec_table_ok_def)

lemma sec_cache_update:
  assumes "sec_cache_ok T s" "sec \<noteq> FAILED_ADDR"
  shows "sec_cache_ok (if sec < emp \<and> emp < sec + 4096 then T(sec \<mapsto> emp) else T(sec := None)) (update_sector_cache sec emp s)"
proof -
  let ?t = "sector_cache_table s"
  have ok: "sec_table_ok T ?t" using assms(1) by (simp add: sec_cache_ok_def)
  show ?thesis
  proof (cases "sec < emp \<and> emp < sec + 4096")
    case True
    show ?thesis
      using update_sector_loop_in [OF True, of ?t 0 4] True ok assms(2)
      by (auto simp: search_post_def sec_cache_ok_def update_sector_cache_def sec_table_replace sec_table_add sec_table_other
          split: sum.splits)
  next
    case False
    show ?thesis
      using update_sector_loop_out [OF False, of ?t 0 4] False ok assms(2)
      by (auto simp: search_post_def sec_cache_ok_def update_sector_cache_def sec_table_replace sec_table_other
          split: sum.splits)
  qed
qed

lemma sec_cache_hit:
  "sec_cache_ok T s \<Longrightarrow> get_sector_from_cache sec s = Some e \<Longrightarrow> sec \<noteq> FAILED_ADDR \<Longrightarrow> T sec = Some e"
  by (auto simp: sec_cache_ok_def sec_table_ok_def get_sector_from_cache_def find_Some_iff)

lemma update_sector_cache_frame [simp]:
  "cells (update_sector_cache a e s) = cells s" "chip_ok (update_sector_cache a e s) = chip_ok s"
  "hung (update_sector_cache a e s) = hung s" "gc_request (update_sector_cache a e s) = gc_request s"
  "ef_init_ok (update_sector_cache a e s) = ef_init_ok s" "in_recovery_check (update_sector_cache a e s) = in_recovery_check s"
  "last_is_complete_del (update_sector_cache a e s) = last_is_complete_del s"
  "env_cache_table (update_sector_cache a e s) = env_cache_table s"
  by (simp_all add: update_sector_cache_def split: sum.splits)

section \<open>Name cache\<close>

definition env_table_ok :: "(u16 \<Rightarrow> nat \<Rightarrow> bool) \<Rightarrow> env_cache_node list \<Rightarrow> bool" where
  "env_table_ok P t \<longleftrightarrow> length t = 16 \<and>
     (\<forall>i<16. ec_addr (t ! i) \<noteq> FAILED_ADDR \<longrightarrow> P (name_crc (t ! i)) (ec_addr (t ! i))) \<and>
     (\<forall>j<16. \<forall>i<j. name_crc (t ! i) = name_crc (t ! j) \<longrightarrow> ec_addr (t ! j) = FAILED_ADDR)"

definition env_cache_ok :: "(u16 \<Rightarrow> nat \<Rightarrow> bool) \<Rightarrow> ef_flash \<Rightarrow> bool" where
  "env_cache_ok P s \<longleftrightarrow> env_table_ok P (env_cache_table s)"

lemma env_cache_mono: "env_cache_ok P s \<Longrightarrow> (\<And>c a. P c a \<Longrightarrow> Q c a) \<Longrightarrow> env_cache_ok Q s"
  by (auto simp: env_cache_ok_def env_table_ok_def)

text \<open>Two tables with the same entries, whatever their activity counts.\<close>

definition same_entries :: "env_cache_node list \<Rightarrow> env_cache_node list \<Rightarrow> bool" where
  "same_entries t t' \<longleftrightarrow> length t = length t' \<and>
     (\<forall>i<length t. name_crc (t ! i) = name_crc (t' ! i) \<and> ec_addr (t ! i) = ec_addr (t' ! i))"

lemma same_entries_refl [simp]: "same_entries t t"
  by (simp add: same_entries_def)

lemma same_entries_active: "same_entries t t' \<Longrightarrow> same_entries t (t'[i := (t' ! i)\<lparr>active := x\<rparr>])"
  by (cases "i < length t'") (auto simp: same_entries_def nth_list_update)

lemma env_table_same: "env_table_ok P t \<Longrightarrow> same_entries t t' \<Longrightarrow> env_table_ok P t'"
  by (auto simp: env_table_ok_def same_entries_def)

lemma update_env_loop_step:
  assumes "i < 16" "addr \<noteq> FAILED_ADDR" "name_crc (t ! i) \<noteq> crc" "length t = 16" "same_entries t0 t"
  obtains e' mi' ma' t1 where "update_env_loop crc addr i e mi ma t = update_env_loop crc addr (Suc i) e' mi' ma' t1"
    "length t1 = 16" "same_entries t0 t1"
proof -
  define t1 where "t1 = (if active (t ! i) > 0 then t[i := (t ! i)\<lparr>active := active (t ! i) - 1\<rparr>] else t)"
  have t1: "length t1 = 16" "same_entries t0 t1"
    using assms(4) same_entries_active [OF assms(5)] assms(5) by (auto simp: t1_def)
  note eq = update_env_loop.simps [of crc addr i e mi ma t, folded t1_def]
  consider (free) "ec_addr (t ! i) = FAILED_ADDR \<and> e = 16" | (skip) "ec_addr (t ! i) = FAILED_ADDR" "e \<noteq> 16"
    | (less) "ec_addr (t ! i) \<noteq> FAILED_ADDR" "active (t1 ! i) < ma" | (more) "ec_addr (t ! i) \<noteq> FAILED_ADDR" "\<not> active (t1 ! i) < ma"
    by blast
  then show ?thesis
  proof cases
    case free
    with eq assms show ?thesis by (intro that [of i mi ma t]) simp_all
  next
    case skip
    with eq assms show ?thesis by (intro that [of e mi ma t]) simp_all
  next
    case less
    with eq assms t1 show ?thesis by (intro that [of e i "active (t1 ! i)" t1]) (simp_all add: Let_def t1_def)
  next
    case more
    with eq assms t1 show ?thesis by (intro that [of e mi ma t1]) (simp_all add: Let_def t1_def)
  qed
qed

lemma update_env_loop_add:
  assumes "addr \<noteq> FAILED_ADDR" "length t = 16" "same_entries t0 t"
  shows "case update_env_loop crc addr i e mi ma t of
      Inl t' \<Rightarrow> \<exists>k. i \<le> k \<and> k < 16 \<and> name_crc (t0 ! k) = crc \<and> (\<forall>j. i \<le> j \<and> j < k \<longrightarrow> name_crc (t0 ! j) \<noteq> crc) \<and>
         same_entries (t0[k := (t0 ! k)\<lparr>ec_addr := addr\<rparr>]) t'
    | Inr (e', m', t') \<Rightarrow> (\<forall>k. i \<le> k \<and> k < 16 \<longrightarrow> name_crc (t0 ! k) \<noteq> crc) \<and> same_entries t0 t'"
  using assms(2,3)
proof (induction "16 - i" arbitrary: i e mi ma t)
  case 0
  then show ?case by (auto simp: update_env_loop.simps [of crc addr i])
next
  case (Suc d)
  then have i: "i < 16" by simp
  have crc: "name_crc (t0 ! i) = name_crc (t ! i)" using Suc.prems i by (auto simp: same_entries_def)
  show ?case
  proof (cases "name_crc (t ! i) = crc")
    case True
    have "same_entries (t0[i := (t0 ! i)\<lparr>ec_addr := addr\<rparr>]) (t[i := (t ! i)\<lparr>ec_addr := addr\<rparr>])"
      using Suc.prems i by (auto simp: same_entries_def nth_list_update)
    with True i crc assms(1) show ?thesis by (auto simp: update_env_loop.simps [of crc addr i])
  next
    case False
    obtain e' mi' ma' t1 where r: "update_env_loop crc addr i e mi ma t = update_env_loop crc addr (Suc i) e' mi' ma' t1"
        "length t1 = 16" "same_entries t0 t1"
      using update_env_loop_step [OF i assms(1) False Suc.prems] .
    have all: "(\<forall>j. i \<le> j \<and> j < k \<longrightarrow> name_crc (t0 ! j) \<noteq> crc)" if "\<forall>j. Suc i \<le> j \<and> j < k \<longrightarrow> name_crc (t0 ! j) \<noteq> crc" for k
      using that False crc by (metis Suc_leI le_neq_implies_less)
    have "d = 16 - Suc i" using Suc by simp
    from Suc(1) [OF this r(2,3), of e' mi' ma'] show ?thesis
      unfolding r(1) using all by (auto split: sum.splits prod.splits) (metis Suc_leD)
  qed
qed

lemma update_env_loop_del:
  "search_post 16 (\<lambda>k. name_crc (t ! k) = crc) (\<lambda>k t'. t' = t[k := (t ! k)\<lparr>ec_addr := FAILED_ADDR, active := 0\<rparr>]) i
     (update_env_loop crc FAILED_ADDR i e mi ma t) \<and>
   (\<forall>r. update_env_loop crc FAILED_ADDR i e mi ma t = Inr r \<longrightarrow> r = (e, mi, t))"
proof (induction "16 - i" arbitrary: i)
  case 0
  then show ?case by (simp add: update_env_loop.simps [of crc _ i] search_post_end)
next
  case (Suc d)
  then have i: "i < 16" "d = 16 - (i + 1)" by simp_all
  show ?case
  proof (cases "name_crc (t ! i) = crc")
    case True
    with i show ?thesis by (simp add: update_env_loop.simps [of crc _ i] search_post_hit)
  next
    case False
    with i Suc(1) [OF i(2)] show ?thesis
      by (simp add: update_env_loop.simps [of crc _ i] search_post_step [where i = i])
  qed
qed

lemma env_cache_add:
  assumes "env_cache_ok P s" "addr \<noteq> FAILED_ADDR"
  shows "env_cache_ok (\<lambda>c a. if c = crc_of_name name then a = addr else P c a) (update_env_cache name addr s)"
proof -
  let ?t = "env_cache_table s" and ?crc = "crc_of_name name"
  define Q where "Q = (\<lambda>c a. if c = ?crc then a = addr else P c a)"
  have ok: "env_table_ok P ?t" using assms(1) by (simp add: env_cache_ok_def)
  then have len: "length ?t = 16" by (simp add: env_table_ok_def)
  note r = update_env_loop_add [OF assms(2) len same_entries_refl, where crc = ?crc and i = 0 and e = 16 and mi = 16 and ma = 65535]
  have fresh: "env_table_ok Q (t'[k := \<lparr>name_crc = ?crc, active = 0, ec_addr = addr\<rparr>])"
    if "k < 16" "\<forall>k<16. name_crc (?t ! k) \<noteq> ?crc" "same_entries ?t t'" for k t'
    using env_table_same [OF ok that(3)] that unfolding env_table_ok_def Q_def same_entries_def
    by (auto simp: nth_list_update)
  have keep: "env_table_ok Q t'" if "\<forall>k<16. name_crc (?t ! k) \<noteq> ?crc" "same_entries ?t t'" for t'
    using env_table_same [OF ok that(2)] that unfolding env_table_ok_def Q_def same_entries_def by auto
  have hit: "env_table_ok Q t'"
    if "k < 16" "name_crc (?t ! k) = ?crc" "\<forall>j<k. name_crc (?t ! j) \<noteq> ?crc" "same_entries (?t[k := (?t ! k)\<lparr>ec_addr := addr\<rparr>]) t'" for k t'
  proof -
    have "env_table_ok Q (?t[k := (?t ! k)\<lparr>ec_addr := addr\<rparr>])"
      using ok that(1-3) unfolding env_table_ok_def Q_def
      by (auto simp: nth_list_update) (metis linorder_neqE_nat)+
    then show ?thesis using that(4) by (rule env_table_same)
  qed
  show ?thesis
    unfolding Q_def [symmetric] using r fresh keep hit
    by (auto simp: env_cache_ok_def update_env_cache_def Let_def split: sum.splits prod.splits)
qed

lemma env_cache_del:
  assumes "env_cache_ok P s"
  shows "env_cache_ok (\<lambda>c a. c \<noteq> crc_of_name name \<and> P c a) (update_env_cache name FAILED_ADDR s)"
proof -
  let ?t = "env_cache_table s" and ?crc = "crc_of_name name"
  have ok: "env_table_ok P ?t" using assms(1) by (simp add: env_cache_ok_def)
  note r = update_env_loop_del [where t = ?t and crc = ?crc and i = 0 and e = 16 and mi = 16 and ma = 65535]
  show ?thesis
  proof (cases "update_env_loop ?crc FAILED_ADDR 0 16 16 65535 ?t")
    case (Inl t')
    with r obtain k where k: "k < 16" "name_crc (?t ! k) = ?crc" "\<forall>j<k. name_crc (?t ! j) \<noteq> ?crc"
        "t' = ?t[k := (?t ! k)\<lparr>ec_addr := FAILED_ADDR, active := 0\<rparr>]"
      by (auto simp: search_post_def)
    have "env_table_ok (\<lambda>c a. c \<noteq> ?crc \<and> P c a) t'"
      using ok k unfolding env_table_ok_def by (auto simp: nth_list_update) (metis linorder_neqE_nat)+
    with Inl show ?thesis by (simp add: env_cache_ok_def update_env_cache_def)
  next
    case (Inr x)
    with r have "x = (16, 16, ?t)" "\<And>k. k < 16 \<Longrightarrow> name_crc (?t ! k) \<noteq> ?crc" by (auto simp: search_post_def)
    with Inr ok show ?thesis by (auto simp: env_cache_ok_def update_env_cache_def env_table_ok_def)
  qed
qed

lemma update_env_cache_frame [simp]:
  "cells (update_env_cache n a s) = cells s" "chip_ok (update_env_cache n a s) = chip_ok s"
  "hung (update_env_cache n a s) = hung s" "gc_request (update_env_cache n a s) = gc_request s"
  "ef_init_ok (update_env_cache n a s) = ef_init_ok s" "in_recovery_check (update_env_cache n a s) = in_recovery_check s"
  "last_is_complete_del (update_env_cache n a s) = last_is_complete_del s"
  "sector_cache_table (update_env_cache n a s) = sector_cache_table s"
  by (simp_all add: update_env_cache_def Let_def split: sum.splits prod.splits)

lemma get_env_loop_cache:
  "length (env_cache_table s) = 16 \<Longrightarrow>
   \<exists>t. snd (get_env_loop name i s) = s\<lparr>env_cache_table := t\<rparr> \<and> same_entries (env_cache_table s) t \<and>
     (\<forall>a. fst (get_env_loop name i s) = Some a \<longrightarrow>
        (\<exists>k<16. ec_addr (env_cache_table s ! k) = a \<and> a \<noteq> FAILED_ADDR \<and> name_crc (env_cache_table s ! k) = crc_of_name name))"
proof (induction name i s rule: get_env_loop.induct)
  case (1 name i s)
  let ?c = "env_cache_table s ! i"
  let ?hit = "ec_addr ?c \<noteq> FAILED_ADDR \<and> name_crc ?c = crc_of_name name \<and>
    strncmp_eq name (ef_port_read (ec_addr ?c + 24) 128 s) (length name)"
  consider (stop) "16 \<le> i" | (hit) "i < 16" ?hit | (step) "i < 16" "\<not> ?hit"
    by linarith
  then show ?case
  proof cases
    case stop
    then show ?thesis by (auto simp: get_env_loop.simps [of name i] intro!: exI [of _ "env_cache_table s"])
  next
    case hit
    then show ?thesis
      by (subst (1 2) get_env_loop.simps)
        (auto simp: Let_def intro!: exI [of _ "(env_cache_table s)[i := ?c\<lparr>active := _\<rparr>]"] same_entries_active)
  next
    case step
    then have "get_env_loop name i s = get_env_loop name (i + 1) s"
      by (subst get_env_loop.simps) (auto simp: Let_def)
    moreover have "\<not> 16 \<le> i" using step by simp
    ultimately show ?thesis using 1(1) [OF _ refl] step "1.prems" by simp
  qed
qed

lemma get_env_from_cache_ok:
  assumes "env_cache_ok P s" "get_env_from_cache name s = (r, s')"
  shows "\<exists>t. s' = s\<lparr>env_cache_table := t\<rparr>" "env_cache_ok P s'" "r = Some a \<Longrightarrow> P (crc_of_name name) a"
proof -
  have len: "length (env_cache_table s) = 16" using assms(1) by (simp add: env_cache_ok_def env_table_ok_def)
  note g = get_env_loop_cache [OF len, of name 0]
  from g assms(2) obtain t where t: "s' = s\<lparr>env_cache_table := t\<rparr>" "same_entries (env_cache_table s) t"
    by (auto simp: get_env_from_cache_def)
  then show "\<exists>t. s' = s\<lparr>env_cache_table := t\<rparr>" by blast
  show "env_cache_ok P s'" using assms(1) t env_table_same [of P] by (auto simp: env_cache_ok_def)
  show "P (crc_of_name name) a" if "r = Some a"
  proof -
    from g assms(2) that obtain k where "k < 16" "ec_addr (env_cache_table s ! k) = a" "a \<noteq> FAILED_ADDR"
        "name_crc (env_cache_table s ! k) = crc_of_name name"
      by (auto simp: get_env_from_cache_def)
    with assms(1) show ?thesis by (auto simp: env_cache_ok_def env_table_ok_def)
  qed
qed

end
