(* ===== verification/EfScan.thy ===== *)
theory EfScan
  imports EfCache
begin

text \<open>
  Walking over well-formed sectors: the address scan goes from node to node and stops at the
  erased tail, so the loops of \<open>ef_env.c\<close> over nodes are list recursions.
\<close>

unbundle bit_operations_syntax

abbreviation tail_of :: "nat \<Rightarrow> enode list \<Rightarrow> nat" where
  "tail_of b nds \<equiv> b + 16 + nsize nds"

definition base_ok :: "nat \<Rightarrow> bool" where
  "base_ok b \<longleftrightarrow> b = 0 \<or> b = 4096"

lemma base_okD: "base_ok b \<Longrightarrow> b mod 4096 = 0 \<and> b \<le> 4096 \<and> b \<noteq> FAILED_ADDR"
  by (auto simp: base_ok_def)

lemma base_align: "base_ok b \<Longrightarrow> b \<le> p \<Longrightarrow> p < b + 4096 \<Longrightarrow> p div 4096 * 4096 = b"
  by (auto simp: base_ok_def div_nat_eqI)

lemma nsize_pos: "nds \<noteq> [] \<Longrightarrow> 24 \<le> nsize nds"
  using nlen_ge [of "hd nds"] by (cases nds) auto

section \<open>The next address\<close>

lemma find_next_node:
  assumes "base_ok b" "at (cells s) p (node_bytes nd)" "b + 16 \<le> p" "p + nlen nd \<le> b + 4096" "sec_cache_ok T s" "T b \<noteq> Some p"
  shows "find_next_env_addr p (b + 4080) s = p"
proof -
  have n: "24 \<le> nlen nd" by (rule nlen_ge)
  have al: "p div 4096 * 4096 = b" using assms n by (intro base_align) auto
  have "get_sector_from_cache b s \<noteq> Some p"
    using sec_cache_hit [OF assms(5)] assms(6) base_okD [OF assms(1)] by blast
  moreover have "find_magic_loop p p (b + 4080) s = p"
    using assms n base_okD [OF assms(1)] node_bytes_parts(2) [OF assms(2)]
    by (intro find_magic_here) (auto intro!: u32_at_bytes)
  ultimately show ?thesis by (simp add: find_next_env_addr_def al)
qed

lemma u32_at_blank: "blank m p e \<Longrightarrow> p + 4 \<le> e \<Longrightarrow> u32_at m p = 0xFFFFFFFF"
  by (simp add: blank_def u32_at_def)

lemma find_next_blank:
  assumes "blank (cells s) p (b + 4096)"
  shows "find_next_env_addr p (b + 4080) s = FAILED_ADDR"
proof -
  have "find_magic_loop p p (b + 4080) s = FAILED_ADDR"
  proof (rule find_magic_none)
    fix q
    assume "p \<le> q" "q < b + 4080"
    then have "u32_at (cells s) q = 0xFFFFFFFF"
      using assms by (intro u32_at_blank [of _ _ "b + 4096"]) (auto elim: blank_sub)
    then show "\<not> magic_at p s q" by (simp add: magic_at_def)
  qed
  then show ?thesis by (simp add: find_next_env_addr_def)
qed

text \<open>The cache may know the tail of the sector, and nothing else about it.\<close>

definition tails_ok :: "(nat \<Rightarrow> nat option) \<Rightarrow> nat \<Rightarrow> enode list \<Rightarrow> bool" where
  "tails_ok T b nds \<longleftrightarrow> (\<forall>e. T b = Some e \<longrightarrow> e = tail_of b nds)"

lemma get_next_after:
  assumes "base_ok b" "sector_at (cells s) b st dt (pre @ nd # nds)" "sec_cache_ok T s" "tails_ok T b (pre @ nd # nds)"
    "sm_addr sec = b" "sm_store sec \<noteq> 1"
  shows "get_next_env_addr sec (node_obj (tail_of b pre) nd) s =
    (if nds = [] then FAILED_ADDR else tail_of b pre + nlen nd)"
proof -
  let ?p = "tail_of b pre + nlen nd"
  have sz: "16 + nsize (pre @ nd # nds) \<le> 4096" using assms(2) by (simp add: sector_at_def)
  have b: "b \<le> 4096" using base_okD [OF assms(1)] by simp
  have "find_next_env_addr ?p (b + 4080) s = (if nds = [] then FAILED_ADDR else ?p)"
  proof (cases nds)
    case Nil
    with assms(2) show ?thesis by (simp add: sector_at_def find_next_blank add.assoc)
  next
    case (Cons nd' nds')
    have "find_next_env_addr ?p (b + 4080) s = ?p"
    proof (rule find_next_node [OF assms(1) _ _ _ assms(3)])
      show "at (cells s) ?p (node_bytes nd')" using assms(2) Cons by (simp add: sector_at_def add.assoc)
      show "b + 16 \<le> ?p" "?p + nlen nd' \<le> b + 4096" using sz Cons by simp_all
      show "T b \<noteq> Some ?p" using assms(4) Cons nlen_ge [of nd'] by (auto simp: tails_ok_def)
    qed
    with Cons show ?thesis by simp
  qed
  then have "find_next_env_addr ?p (4080 + b) s = (if nds = [] then FAILED_ADDR else ?p)" by (simp only: add.commute)
  then show ?thesis
    using sz b assms(5,6) nlen_ge [of nd]
    by (simp add: get_next_env_addr_def node_obj_def Let_def)
qed

lemma get_next_first:
  "sm_store sec \<noteq> 1 \<Longrightarrow> nd_start env = FAILED_ADDR \<Longrightarrow> get_next_env_addr sec env s = sm_addr sec + 16"
  by (simp add: get_next_env_addr_def)

section \<open>One turn of the loop\<close>

lemma env_loop_end:
  "get_next_env_addr sec env s = FAILED_ADDR \<Longrightarrow> env_loop sec body env x s = (False, env\<lparr>nd_start := FAILED_ADDR\<rparr>, x, s)"
  by (simp add: env_loop.simps [of sec])

lemma env_loop_step:
  assumes "get_next_env_addr sec env s = p" "p \<noteq> FAILED_ADDR" "at (cells s) p (node_bytes nd)" "wf_node nd"
    "body (node_obj p nd) x s = (brk, x', s')"
  shows "env_loop sec body env x s =
    (if brk then (True, node_obj p nd, x', s') else env_loop sec body (node_obj p nd) x' s')"
  using assms by (subst env_loop.simps) (simp add: Let_def read_env_node)

section \<open>Walks that change nothing\<close>

fun walk :: "(env_node_obj \<Rightarrow> 'a \<Rightarrow> bool \<times> 'a) \<Rightarrow> nat \<Rightarrow> enode list \<Rightarrow> 'a \<Rightarrow> env_node_obj option \<times> 'a" where
  "walk f p [] x = (None, x)"
| "walk f p (nd # nds) x = (if fst (f (node_obj p nd) x) then (Some (node_obj p nd), snd (f (node_obj p nd) x))
     else walk f (p + nlen nd) nds (snd (f (node_obj p nd) x)))"

lemma env_loop_walk:
  assumes body: "\<And>p nd x. nd \<in> set nds \<Longrightarrow> body (node_obj p nd) x s = (fst (f (node_obj p nd) x), snd (f (node_obj p nd) x), s)"
    and sec: "base_ok b" "sector_at (cells s) b st dt (pre @ nds)" "sec_cache_ok T s" "tails_ok T b (pre @ nds)"
      "sm_addr sec = b" "sm_store sec \<noteq> 1"
    and nxt: "get_next_env_addr sec env s = (if nds = [] then FAILED_ADDR else tail_of b pre)"
  shows "\<exists>e. env_loop sec body env x s = (case walk f (tail_of b pre) nds x of
      (Some o', x') \<Rightarrow> (True, o', x', s) | (None, x') \<Rightarrow> (False, e, x', s))"
  using sec(2,4) nxt body
proof (induction nds arbitrary: pre env x)
  case Nil
  then show ?case by (auto simp: env_loop_end)
next
  case (Cons nd nds)
  let ?p = "tail_of b pre"
  let ?e = "node_obj ?p nd"
  have sz: "16 + nsize (pre @ nd # nds) \<le> 4096" and wf: "wf_node nd" and nd: "at (cells s) ?p (node_bytes nd)"
    using Cons.prems(1) by (auto simp: sector_at_def)
  have p: "?p \<noteq> FAILED_ADDR" using sz base_okD [OF sec(1)] by simp
  have nx: "get_next_env_addr sec ?e s = (if nds = [] then FAILED_ADDR else tail_of b (pre @ [nd]))"
    using get_next_after [OF sec(1) Cons.prems(1) sec(3) Cons.prems(2) sec(5,6)] by (simp add: add.assoc)
  have st: "env_loop sec body env x s = (if fst (f ?e x) then (True, ?e, snd (f ?e x), s) else env_loop sec body ?e (snd (f ?e x)) s)"
    using Cons.prems(3,4) p nd wf by (intro env_loop_step) auto
  have "\<exists>e. env_loop sec body ?e (snd (f ?e x)) s = (case walk f (?p + nlen nd) nds (snd (f ?e x)) of
      (Some o', x') \<Rightarrow> (True, o', x', s) | (None, x') \<Rightarrow> (False, e, x', s))"
    using Cons.IH [of "pre @ [nd]" ?e "snd (f ?e x)"] Cons.prems nx by (simp add: add.assoc)
  with st show ?case by auto
qed

lemma env_loop_sector:
  assumes "\<And>p nd x. nd \<in> set nds \<Longrightarrow> body (node_obj p nd) x s = (fst (f (node_obj p nd) x), snd (f (node_obj p nd) x), s)"
    and "base_ok b" "sector_at (cells s) b st dt nds" "sec_cache_ok T s" "tails_ok T b nds" "sm_addr sec = b" "sm_store sec \<noteq> 1"
    and "nd_start env = FAILED_ADDR" "nds \<noteq> []"
  shows "\<exists>e. env_loop sec body env x s = (case walk f (b + 16) nds x of
      (Some o', x') \<Rightarrow> (True, o', x', s) | (None, x') \<Rightarrow> (False, e, x', s))"
  using env_loop_walk [where body = body and f = f and s = s and b = b and pre = "[]" and nds = nds and sec = sec and env = env and T = T]
    assms by (simp add: get_next_first)

section \<open>The area as two sectors\<close>

record sect =
  sst :: u8
  sdt :: u8
  snds :: "enode list"

type_synonym area = "nat \<Rightarrow> sect"

definition mem_repr :: "(nat \<Rightarrow> u8) \<Rightarrow> area \<Rightarrow> bool" where
  "mem_repr m S \<longleftrightarrow> (\<forall>b. base_ok b \<longrightarrow> sector_at m b (sst (S b)) (sdt (S b)) (snds (S b)) \<and>
     (sst (S b) = 0x7F \<and> snds (S b) = [] \<or> sst (S b) = 0x3F \<or> sst (S b) = 0x1F))"

text \<open>The tails the sector cache may hold: those of the sectors that are in use or full.\<close>

definition tails :: "area \<Rightarrow> nat \<Rightarrow> nat option" where
  "tails S b = (if base_ok b \<and> sst (S b) \<noteq> 0x7F then Some (tail_of b (snds (S b))) else None)"

definition repr :: "ef_flash \<Rightarrow> area \<Rightarrow> bool" where
  "repr s S \<longleftrightarrow> mem_repr (cells s) S \<and> sec_cache_ok (tails S) s \<and> chip_ok s \<and> \<not> hung s"

lemma tails_ok_tails: "tails_ok (tails S) b (snds (S b))"
  by (simp add: tails_ok_def tails_def)

lemma sec_table_mono: "sec_table_ok T t \<Longrightarrow> T \<subseteq>\<^sub>m T' \<Longrightarrow> sec_table_ok T' t"
  by (auto simp: sec_table_ok_def map_le_def dom_def)

lemma sec_cache_mono: "sec_cache_ok T s \<Longrightarrow> T \<subseteq>\<^sub>m T' \<Longrightarrow> sec_cache_ok T' s"
  by (auto simp: sec_cache_ok_def elim: sec_table_mono)

lemma repr_sector: "repr s S \<Longrightarrow> base_ok b \<Longrightarrow> sector_at (cells s) b (sst (S b)) (sdt (S b)) (snds (S b))"
  by (simp add: repr_def mem_repr_def)

lemma repr_hdr: "repr s S \<Longrightarrow> base_ok b \<Longrightarrow> hdr_at (cells s) b (sst (S b)) (sdt (S b))"
  by (drule (1) repr_sector) (simp add: sector_at_def)

lemma repr_size: "repr s S \<Longrightarrow> base_ok b \<Longrightarrow> nsize (snds (S b)) \<le> 4080"
  by (drule (1) repr_sector) (simp add: sector_at_def)

lemma repr_store:
  assumes "repr s S" "base_ok b"
  obtains "sst (S b) = 0x7F" "snds (S b) = []" | "sst (S b) = 0x3F" | "sst (S b) = 0x1F"
  using assms by (auto simp: repr_def mem_repr_def)

text \<open>The cached tail of a sector in use may be refreshed at any time.\<close>

lemma repr_refresh:
  assumes "repr s S" "base_ok b" "sst (S b) \<noteq> 0x7F"
  shows "repr (update_sector_cache b (tail_of b (snds (S b))) s) S"
proof -
  let ?e = "tail_of b (snds (S b))"
  have "(if b < ?e \<and> ?e < b + 4096 then (tails S)(b \<mapsto> ?e) else (tails S)(b := None)) \<subseteq>\<^sub>m tails S"
    using assms(2,3) by (auto simp: map_le_def tails_def)
  with sec_cache_update [of "tails S" s b ?e] base_okD [OF assms(2)] assms(1) show ?thesis
    by (auto simp: repr_def intro: sec_cache_mono)
qed

lemma env_loop_repr:
  assumes "repr s S" "base_ok b"
    "\<And>p nd x. nd \<in> set (snds (S b)) \<Longrightarrow> body (node_obj p nd) x s = (fst (f (node_obj p nd) x), snd (f (node_obj p nd) x), s)"
    "sm_addr sec = b" "sm_store sec \<noteq> 1"
    "nd_start env = FAILED_ADDR" "snds (S b) \<noteq> []"
  shows "\<exists>e. env_loop sec body env x s = (case walk f (b + 16) (snds (S b)) x of
      (Some o', x') \<Rightarrow> (True, o', x', s) | (None, x') \<Rightarrow> (False, e, x', s))"
  using env_loop_sector [where body = body and f = f and s = s and b = b and T = "tails S" and sec = sec and env = env and nds = "snds (S b)"]
    assms repr_sector [OF assms(1,2)] tails_ok_tails [of S b] by (simp add: repr_def)

section \<open>Iterators over the two sectors\<close>

lemma next_sector:
  "get_next_sector_addr (sec\<lparr>sm_addr := FAILED_ADDR\<rparr>) = 0"
  "sm_addr sec = 0 \<Longrightarrow> sm_combined sec = SECTOR_NOT_COMBINED \<Longrightarrow> get_next_sector_addr sec = 4096"
  "sm_addr sec = 4096 \<Longrightarrow> sm_combined sec = SECTOR_NOT_COMBINED \<Longrightarrow> get_next_sector_addr sec = FAILED_ADDR"
  by (simp_all add: get_next_sector_addr_def)

lemma sector_iterator_turns:
  assumes t0: "sector_turn status cb trav 0 (sec\<lparr>sm_addr := FAILED_ADDR\<rparr>) x s = (stop, sec1, x1, s1)"
      "\<not> stop \<Longrightarrow> sm_addr sec1 = 0 \<and> sm_combined sec1 = SECTOR_NOT_COMBINED"
    and t1: "\<not> stop \<Longrightarrow> sector_turn status cb trav 4096 sec1 x1 s1 = (stop2, sec2, x2, s2)"
      "\<not> stop \<Longrightarrow> \<not> stop2 \<Longrightarrow> sm_addr sec2 = 4096 \<and> sm_combined sec2 = SECTOR_NOT_COMBINED"
  shows "sector_iterator sec status x cb trav s = (if stop then (sec1, x1, s1) else (sec2, x2, s2))"
proof -
  have "sector_loop (Suc (Suc (Suc n))) status cb trav (sec\<lparr>sm_addr := FAILED_ADDR\<rparr>) x s = (if stop then (sec1, x1, s1) else (sec2, x2, s2))" for n
    using assms by (simp add: next_sector Let_def)
  from this [of 5] show ?thesis by (simp add: sector_iterator_def)
qed

lemma env_iterator_turns:
  assumes t0: "env_turn cb 0 (sector0\<lparr>sm_addr := FAILED_ADDR\<rparr>) env x s = (stop, sec1, env1, x1, s1)"
      "\<not> stop \<Longrightarrow> sm_addr sec1 = 0 \<and> sm_combined sec1 = SECTOR_NOT_COMBINED"
    and t1: "\<not> stop \<Longrightarrow> env_turn cb 4096 sec1 env1 x1 s1 = (stop2, sec2, env2, x2, s2)"
      "\<not> stop \<Longrightarrow> \<not> stop2 \<Longrightarrow> sm_addr sec2 = 4096 \<and> sm_combined sec2 = SECTOR_NOT_COMBINED"
  shows "env_iterator env x cb s = (if stop then (env1, x1, s1) else (env2, x2, s2))"
proof -
  have "env_sectors (Suc (Suc (Suc n))) cb (sector0\<lparr>sm_addr := FAILED_ADDR\<rparr>) env x s = (if stop then (env1, x1, s1) else (env2, x2, s2))" for n
    using assms by (simp add: next_sector Let_def)
  from this [of 5] show ?thesis by (simp add: env_iterator_def)
qed

lemma sec_meta_idem [simp]: "sec_meta a st dt (sec_meta a st dt sec) = sec_meta a st dt sec"
  by (simp add: sec_meta_def)

lemma turn_plain:
  assumes "repr s S" "base_ok b"
  shows "sector_turn status cb False b sec x s =
    (let sec' = sec_meta b (sst (S b)) (sdt (S b)) sec in
     if status = 0 \<or> status = get_status [sst (S b)] 4 then (case cb sec' x s of (stop, x, s) \<Rightarrow> (stop, sec', x, s))
     else (False, sec', x, s))"
  using read_meta [OF repr_hdr [OF assms]] base_okD [OF assms(2)]
  by (simp add: sector_turn_def Let_def)

section \<open>Free space of a sector\<close>

text \<open>States that differ in the sector cache only.\<close>

definition but_cache :: "ef_flash \<Rightarrow> ef_flash \<Rightarrow> bool" where
  "but_cache s s' \<longleftrightarrow> (\<exists>t. s' = s\<lparr>sector_cache_table := t\<rparr>)"

lemma but_cache_refl [simp]: "but_cache s s"
  unfolding but_cache_def by (rule exI [of _ "sector_cache_table s"]) simp

lemma but_cache_trans: "but_cache s s' \<Longrightarrow> but_cache s' s'' \<Longrightarrow> but_cache s s''"
  by (auto simp: but_cache_def)

lemma but_cache_update: "but_cache s (update_sector_cache a e s)"
  by (auto simp: but_cache_def update_sector_cache_def split: sum.splits intro: exI [of _ "sector_cache_table s"])

lemma but_cacheD:
  assumes "but_cache s s'"
  shows "cells s' = cells s" "chip_ok s' = chip_ok s" "hung s' = hung s" "gc_request s' = gc_request s" "ef_init_ok s' = ef_init_ok s"
    "in_recovery_check s' = in_recovery_check s" "last_is_complete_del s' = last_is_complete_del s"
    "env_cache_table s' = env_cache_table s" "env_cache_ok P s' = env_cache_ok P s"
  using assms by (auto simp: but_cache_def env_cache_ok_def)

definition used :: "area \<Rightarrow> bool" where
  "used S \<longleftrightarrow> (\<forall>b. base_ok b \<longrightarrow> sst (S b) \<noteq> 0x7F \<longrightarrow> snds (S b) \<noteq> [])"

definition meta_ok :: "area \<Rightarrow> nat \<Rightarrow> sector_meta_data \<Rightarrow> bool" where
  "meta_ok S b sec \<longleftrightarrow> sm_addr sec = b \<and> check_ok sec \<and> sm_combined sec = SECTOR_NOT_COMBINED \<and>
     sm_store sec = get_status [sst (S b)] 4 \<and> sm_dirty sec = get_status [sdt (S b)] 4 \<and>
     sm_remain sec = 4080 - nsize (snds (S b)) \<and> sm_empty_env sec = tail_of b (snds (S b))"

definition traversal_fun :: "env_node_obj \<Rightarrow> nat \<times> nat \<times> EfErrCode \<Rightarrow> bool \<times> nat \<times> nat \<times> EfErrCode" where
  "traversal_fun env x = (case traversal_body env x undefined of (stop, x, _) \<Rightarrow> (stop, x))"

lemma traversal_body_fun: "traversal_body env x s = (fst (traversal_fun env x), snd (traversal_fun env x), s)"
  by (simp add: traversal_fun_def traversal_body_def split: prod.splits)

lemma walk_traversal:
  "nsize nds \<le> rem \<Longrightarrow> rem < 2 ^ 32 \<Longrightarrow>
   walk traversal_fun p nds (rem, emp, res) = (None, (rem - nsize nds, emp + nsize nds, res))"
proof (induction nds arbitrary: p rem emp)
  case (Cons nd nds)
  then have "sub32 rem (nlen nd) = rem - nlen nd" by (intro sub32_le) auto
  with Cons show ?case by (simp add: traversal_fun_def traversal_body_def node_obj_def add.assoc)
qed simp

lemma traverse_ok:
  assumes "repr s S" "used S" "base_ok b" "get_status [sst (S b)] 4 = 1 \<or> get_status [sst (S b)] 4 = 2"
  shows "\<exists>sec' s'. traverse_sector (sec_meta b (sst (S b)) (sdt (S b)) sec) s = (EF_NO_ERR, sec', s') \<and>
    meta_ok S b sec' \<and> but_cache s s' \<and> repr s' S"
proof -
  let ?sec = "(sec_meta b (sst (S b)) (sdt (S b)) sec)\<lparr>sm_remain := 0, sm_empty_env := b + 16\<rparr>"
  from assms(1,3) show ?thesis
  proof (cases rule: repr_store)
    case 1
    with assms(1) show ?thesis by (auto simp: traverse_sector_def meta_ok_def)
  next
    case 3
    with assms(4) show ?thesis by simp
  next
    case st: 2
    let ?e = "tail_of b (snds (S b))"
    have ne: "snds (S b) \<noteq> []" using assms(2,3) st by (auto simp: used_def)
    have sz: "nsize (snds (S b)) \<le> 4080" and b: "b \<le> 4096" using repr_size [OF assms(1,3)] base_okD [OF assms(3)] by auto
    have rem: "sub32 4096 (sub32 ?e b) = 4080 - nsize (snds (S b))"
    proof -
      have "sub32 ?e b = ?e - b" using sz b by (intro sub32_le) auto
      moreover have "sub32 4096 (?e - b) = 4096 - (?e - b)" using sz by (intro sub32_le) auto
      ultimately show ?thesis by simp
    qed
    show ?thesis
    proof (cases "get_sector_from_cache b s")
      case (Some e)
      then have "tails S b = Some e" using assms(1,3) base_okD by (intro sec_cache_hit) (auto simp: repr_def)
      with st assms(3) have "e = ?e" by (simp add: tails_def)
      with Some st assms(1) rem show ?thesis
        by (auto simp: traverse_sector_def meta_ok_def Let_def)
    next
      case None
      have "\<exists>o'. env_loop ?sec traversal_body obj0 (4080, b + 16, EF_NO_ERR) s = (case walk traversal_fun (b + 16) (snds (S b)) (4080, b + 16, EF_NO_ERR) of
          (Some e, x') \<Rightarrow> (True, e, x', s) | (None, x') \<Rightarrow> (False, o', x', s))"
        using env_loop_repr [where body = traversal_body and f = traversal_fun and S = S and b = b and s = s] traversal_body_fun assms(1,3) st ne
        by (simp add: obj0_def)
      then have loop: "\<exists>o'. env_loop ?sec traversal_body obj0 (4080, b + 16, EF_NO_ERR) s = (False, o', (4080 - nsize (snds (S b)), ?e, EF_NO_ERR), s)"
        using sz by (simp add: walk_traversal)
      have ff: "continue_ff_addr ?e (b + 4096) s = ?e"
        using repr_sector [OF assms(1,3)] by (intro continue_ff_blank) (auto simp: sector_at_def)
      show ?thesis
        using loop None st ff repr_refresh [OF assms(1,3)] but_cache_update
        by (auto simp: traverse_sector_def meta_ok_def Let_def)
    qed
  qed
qed

section \<open>Finding a name\<close>

definition live :: "enode \<Rightarrow> bool" where
  "live nd \<longleftrightarrow> get_status [stb nd] 6 = 2"

fun locate :: "u8 list \<Rightarrow> nat \<Rightarrow> enode list \<Rightarrow> (nat \<times> enode) option" where
  "locate key p [] = None"
| "locate key p (nd # nds) = (if live nd \<and> nm nd = key then Some (p, nd) else locate key (p + nlen nd) nds)"

definition locate_area :: "u8 list \<Rightarrow> area \<Rightarrow> (nat \<times> enode) option" where
  "locate_area key S = (case locate key 16 (snds (S 0)) of Some x \<Rightarrow> Some x | None \<Rightarrow> locate key 4112 (snds (S 4096)))"

text \<open>Names have no zero byte.\<close>

definition names_in :: "u8 list set \<Rightarrow> area \<Rightarrow> bool" where
  "names_in K S \<longleftrightarrow> (\<forall>k\<in>K. 0 \<notin> set k) \<and> (\<forall>b nd. base_ok b \<longrightarrow> nd \<in> set (snds (S b)) \<longrightarrow> nm nd \<in> K)"

lemma takeWhile_nonzero: "0 \<notin> set zs \<Longrightarrow> takeWhile (\<lambda>c. c \<noteq> 0) zs = (zs :: u8 list)"
  unfolding takeWhile_eq_all_conv by (intro ballI notI) simp

lemma strncmp_whole:
  assumes "0 \<notin> set xs" "0 \<notin> set ys" "length xs = length ys"
  shows "strncmp_eq xs ys (length ys) \<longleftrightarrow> xs = ys"
  unfolding strncmp_eq_def using assms(3) by (simp add: takeWhile_nonzero [OF assms(1)] takeWhile_nonzero [OF assms(2)])

definition find_fun :: "u8 list \<Rightarrow> env_node_obj \<Rightarrow> bool \<Rightarrow> bool \<times> bool" where
  "find_fun key env x = (case find_env_cb key env x undefined of (stop, x, _) \<Rightarrow> (stop, x))"

lemma find_env_cb_fun: "find_env_cb key env x s = (fst (find_fun key env x), snd (find_fun key env x), s)"
  by (simp add: find_fun_def find_env_cb_def)

lemma walk_find:
  assumes "0 \<notin> set key" "\<And>nd. nd \<in> set nds \<Longrightarrow> 0 \<notin> set (nm nd)"
  shows "walk (find_fun key) p nds x = (case locate key p nds of Some (q, nd) \<Rightarrow> (Some (node_obj q nd), True) | None \<Rightarrow> (None, x))"
  using assms(2)
proof (induction nds arbitrary: p)
  case (Cons nd nds)
  have "strncmp_eq (nm nd) key (length key) \<longleftrightarrow> nm nd = key" if "length key = length (nm nd)"
    using strncmp_whole [of "nm nd" key] that assms(1) Cons.prems by simp
  then have "find_fun key (node_obj p nd) x = (live nd \<and> nm nd = key, if live nd \<and> nm nd = key then True else x)"
    by (cases "length key = length (nm nd)") (simp_all add: find_fun_def find_env_cb_def node_obj_def live_def, metis)
  with Cons show ?case by simp
qed simp

lemma env_turn_find:
  assumes "repr s S" "used S" "names_in K S" "0 \<notin> set key" "base_ok b"
  shows "\<exists>e. env_turn (find_env_cb key) b sec env x s =
    (case locate key (b + 16) (snds (S b)) of
       Some (q, nd) \<Rightarrow> (True, sec_meta b (sst (S b)) (sdt (S b)) sec, node_obj q nd, True, s)
     | None \<Rightarrow> (False, sec_meta b (sst (S b)) (sdt (S b)) sec, e, x, s))"
proof -
  let ?sec = "sec_meta b (sst (S b)) (sdt (S b)) sec"
  have rd: "read_sector_meta_data b sec False s = (EF_NO_ERR, ?sec, s)"
    using read_meta [OF repr_hdr [OF assms(1,5)]] base_okD [OF assms(5)] by simp
  show ?thesis
  proof (cases "sst (S b) = 0x7F")
    case True
    then have "snds (S b) = []" using assms(1,5) by (auto simp: repr_def mem_repr_def)
    with rd True show ?thesis by (auto simp: env_turn_def)
  next
    case False
    then have st: "get_status [sst (S b)] 4 = 2 \<or> get_status [sst (S b)] 4 = 3" and ne: "snds (S b) \<noteq> []"
      using assms(1,2,5) by (auto simp: repr_def mem_repr_def used_def)
    have nm: "\<And>nd. nd \<in> set (snds (S b)) \<Longrightarrow> 0 \<notin> set (nm nd)" using assms(3,5) by (auto simp: names_in_def)
    obtain e where "env_loop ?sec (find_env_cb key) (env\<lparr>nd_start := FAILED_ADDR\<rparr>) x s = (case walk (find_fun key) (b + 16) (snds (S b)) x of
      (Some o', x') \<Rightarrow> (True, o', x', s) | (None, x') \<Rightarrow> (False, e, x', s))"
      using env_loop_repr [where body = "find_env_cb key" and f = "find_fun key" and S = S and b = b and s = s
          and sec = ?sec and env = "env\<lparr>nd_start := FAILED_ADDR\<rparr>" and x = x] find_env_cb_fun assms(1,5) ne st
      by auto
    with rd st show ?thesis
      by (cases "locate key (b + 16) (snds (S b))") (auto simp: env_turn_def walk_find [OF assms(4) nm])
  qed
qed

lemma find_env_no_cache_ok:
  assumes "repr s S" "used S" "names_in K S" "0 \<notin> set key"
  shows "\<exists>e. find_env_no_cache key env s = (case locate_area key S of Some (q, nd) \<Rightarrow> (True, node_obj q nd, s) | None \<Rightarrow> (False, e, s))"
proof -
  have b: "base_ok 0" "base_ok 4096" by (simp_all add: base_ok_def)
  obtain e0 where t0: "env_turn (find_env_cb key) 0 (sector0\<lparr>sm_addr := FAILED_ADDR\<rparr>) env False s =
    (case locate key 16 (snds (S 0)) of
       Some (q, nd) \<Rightarrow> (True, sec_meta 0 (sst (S 0)) (sdt (S 0)) (sector0\<lparr>sm_addr := FAILED_ADDR\<rparr>), node_obj q nd, True, s)
     | None \<Rightarrow> (False, sec_meta 0 (sst (S 0)) (sdt (S 0)) (sector0\<lparr>sm_addr := FAILED_ADDR\<rparr>), e0, False, s))"
    using env_turn_find [OF assms b(1), of "sector0\<lparr>sm_addr := FAILED_ADDR\<rparr>" env False] by auto
  let ?sec1 = "sec_meta 0 (sst (S 0)) (sdt (S 0)) (sector0\<lparr>sm_addr := FAILED_ADDR\<rparr>)"
  show ?thesis
  proof (cases "locate key 16 (snds (S 0))")
    case (Some x)
    obtain q nd where x: "x = (q, nd)" by (cases x)
    have "env_iterator env False (find_env_cb key) s = (node_obj q nd, True, s)"
      using env_iterator_turns [of "find_env_cb key" env False s True ?sec1 "node_obj q nd" True s] t0 Some x by simp
    with Some x show ?thesis by (auto simp: find_env_no_cache_def locate_area_def)
  next
    case None
    obtain e1 where t1: "env_turn (find_env_cb key) 4096 ?sec1 e0 False s =
      (case locate key 4112 (snds (S 4096)) of
         Some (q, nd) \<Rightarrow> (True, sec_meta 4096 (sst (S 4096)) (sdt (S 4096)) ?sec1, node_obj q nd, True, s)
       | None \<Rightarrow> (False, sec_meta 4096 (sst (S 4096)) (sdt (S 4096)) ?sec1, e1, False, s))"
      using env_turn_find [OF assms b(2), of ?sec1 e0 False] by auto
    show ?thesis
    proof (cases "locate key 4112 (snds (S 4096))")
      case None': None
      have "env_iterator env False (find_env_cb key) s = (e1, False, s)"
        using env_iterator_turns [of "find_env_cb key" env False s False ?sec1 e0 False s False "sec_meta 4096 (sst (S 4096)) (sdt (S 4096)) ?sec1" e1 False s]
          t0 t1 None None' by simp
      with None None' show ?thesis by (auto simp: find_env_no_cache_def locate_area_def)
    next
      case (Some x)
      obtain q nd where x: "x = (q, nd)" by (cases x)
      have "env_iterator env False (find_env_cb key) s = (node_obj q nd, True, s)"
        using env_iterator_turns [of "find_env_cb key" env False s False ?sec1 e0 False s True "sec_meta 4096 (sst (S 4096)) (sdt (S 4096)) ?sec1" "node_obj q nd" True s]
          t0 t1 None Some x by simp
      with None Some x show ?thesis by (auto simp: find_env_no_cache_def locate_area_def)
    qed
  qed
qed

end
