(* ===== verification/EfAlloc.thy ===== *)
theory EfAlloc
  imports EfScan
begin

text \<open>Where \<open>alloc_env\<close> finds room for a node, on well-formed sectors.\<close>

unbundle bit_operations_syntax

definition pick :: "(nat \<Rightarrow> bool) \<Rightarrow> nat option" where
  "pick P = (if P 0 then Some 0 else if P 4096 then Some 4096 else None)"

definition count :: "(nat \<Rightarrow> bool) \<Rightarrow> nat" where
  "count P = (if P 0 then 1 else 0) + (if P 4096 then 1 else 0)"

definition has_store :: "area \<Rightarrow> nat \<Rightarrow> nat \<Rightarrow> bool" where
  "has_store S k b \<longleftrightarrow> get_status [sst (S b)] 4 = k"

definition fits :: "area \<Rightarrow> nat \<Rightarrow> bool \<Rightarrow> nat \<Rightarrow> bool" where
  "fits S n gc b \<longleftrightarrow> n < 4080 - nsize (snds (S b)) \<and> (get_status [sdt (S b)] 4 = 1 \<or> get_status [sdt (S b)] 4 = 2 \<and> \<not> gc)"

definition room_in :: "area \<Rightarrow> nat \<Rightarrow> bool \<Rightarrow> nat option" where
  "room_in S n gc = (case pick (\<lambda>b. has_store S 2 b \<and> fits S n gc b) of Some b \<Rightarrow> Some b
     | None \<Rightarrow> if count (has_store S 1) > 1 \<or> gc then pick (\<lambda>b. has_store S 1 b \<and> fits S n gc b) else None)"

lemma pick_Some: "pick P = Some b \<Longrightarrow> P b \<and> base_ok b"
  by (auto simp: pick_def base_ok_def split: if_splits)

lemma base_ok_01: "base_ok 0" "base_ok 4096"
  by (simp_all add: base_ok_def)

lemma alloc_turn:
  assumes "repr s S" "used S" "base_ok b" "k = 1 \<or> k = 2"
  shows "\<exists>sec' s'. sector_turn k (alloc_env_cb n) True b sec x s =
      (has_store S k b \<and> fits S n (gc_request s) b, sec', if has_store S k b \<and> fits S n (gc_request s) b then tail_of b (snds (S b)) else x, s') \<and>
    but_cache s s' \<and> repr s' S \<and> sm_addr sec' = b \<and> sm_combined sec' = SECTOR_NOT_COMBINED \<and> (has_store S k b \<longrightarrow> meta_ok S b sec')"
proof -
  let ?sec = "sec_meta b (sst (S b)) (sdt (S b)) sec"
  note rd = read_meta [OF repr_hdr [OF assms(1,3)]]
  have b: "b mod 4096 = 0" using base_okD [OF assms(3)] by simp
  show ?thesis
  proof (cases "has_store S k b")
    case False
    with rd [of sec False] b assms(1,4) show ?thesis by (auto simp: sector_turn_def has_store_def)
  next
    case True
    with assms(4) have "get_status [sst (S b)] 4 = 1 \<or> get_status [sst (S b)] 4 = 2" by (auto simp: has_store_def)
    from traverse_ok [OF assms(1-3) this, of ?sec] obtain sec' s' where
      t: "traverse_sector ?sec s = (EF_NO_ERR, sec', s')" "meta_ok S b sec'" "but_cache s s'" "repr s' S" by auto
    have m: "check_ok sec'" "sm_remain sec' = 4080 - nsize (snds (S b))" "sm_dirty sec' = get_status [sdt (S b)] 4"
      "sm_empty_env sec' = tail_of b (snds (S b))" "sm_addr sec' = b" "sm_combined sec' = SECTOR_NOT_COMBINED"
      using t(2) by (simp_all add: meta_ok_def)
    have "alloc_env_cb n sec' x s' = (fits S n (gc_request s) b, if fits S n (gc_request s) b then tail_of b (snds (S b)) else x, s')"
      using m but_cacheD(4) [OF t(3)] by (auto simp: alloc_env_cb_def fits_def)
    with True rd [of _ False] rd [of _ True] b t m show ?thesis
      by (simp add: sector_turn_def has_store_def)
  qed
qed

lemma alloc_iter:
  assumes "repr s S" "used S" "k = 1 \<or> k = 2"
  shows "\<exists>sec' s'. sector_iterator sec k FAILED_ADDR (alloc_env_cb n) True s =
      (sec', case pick (\<lambda>b. has_store S k b \<and> fits S n (gc_request s) b) of None \<Rightarrow> FAILED_ADDR | Some b \<Rightarrow> tail_of b (snds (S b)), s') \<and>
    but_cache s s' \<and> repr s' S \<and> (\<forall>b. pick (\<lambda>b. has_store S k b \<and> fits S n (gc_request s) b) = Some b \<longrightarrow> meta_ok S b sec')"
proof -
  let ?P = "\<lambda>b. has_store S k b \<and> fits S n (gc_request s) b"
  obtain sec1 s1 where t0: "sector_turn k (alloc_env_cb n) True 0 (sec\<lparr>sm_addr := FAILED_ADDR\<rparr>) FAILED_ADDR s =
      (?P 0, sec1, if ?P 0 then tail_of 0 (snds (S 0)) else FAILED_ADDR, s1)" "but_cache s s1" "repr s1 S" "sm_addr sec1 = 0"
      "sm_combined sec1 = SECTOR_NOT_COMBINED" "has_store S k 0 \<longrightarrow> meta_ok S 0 sec1"
    using alloc_turn [OF assms(1,2) base_ok_01(1) assms(3)] by blast
  obtain sec2 s2 where t1: "sector_turn k (alloc_env_cb n) True 4096 sec1 FAILED_ADDR s1 =
      (?P 4096, sec2, if ?P 4096 then tail_of 4096 (snds (S 4096)) else FAILED_ADDR, s2)" "but_cache s1 s2" "repr s2 S" "sm_addr sec2 = 4096"
      "sm_combined sec2 = SECTOR_NOT_COMBINED" "has_store S k 4096 \<longrightarrow> meta_ok S 4096 sec2"
    using alloc_turn [OF t0(3) assms(2) base_ok_01(2) assms(3), of n sec1 FAILED_ADDR] but_cacheD(4) [OF t0(2)] by auto
  have it: "sector_iterator sec k FAILED_ADDR (alloc_env_cb n) True s =
      (if ?P 0 then (sec1, tail_of 0 (snds (S 0)), s1) else (sec2, if ?P 4096 then tail_of 4096 (snds (S 4096)) else FAILED_ADDR, s2))"
  proof (cases "?P 0")
    case True
    with sector_iterator_turns [OF t0(1)] show ?thesis by simp
  next
    case False
    have "sector_turn k (alloc_env_cb n) True 4096 sec1 (if ?P 0 then tail_of 0 (snds (S 0)) else FAILED_ADDR) s1 =
      (?P 4096, sec2, if ?P 4096 then tail_of 4096 (snds (S 4096)) else FAILED_ADDR, s2)" using t1(1) unfolding if_not_P [OF False] .
    from sector_iterator_turns [OF t0(1) _ this] t0(4,5) t1(4,5) False show ?thesis by auto
  qed
  show ?thesis
    using it t0 t1 but_cache_trans [OF t0(2) t1(2)] by (cases "?P 0") (auto simp: pick_def)
qed

lemma statistics_iter:
  assumes "repr s S"
  shows "\<exists>sec'. sector_iterator sec 0 (0, 0) sector_statistics_cb False s =
    (sec', (count (has_store S 1), count (has_store S 2)), s)"
proof -
  let ?sec1 = "sec_meta 0 (sst (S 0)) (sdt (S 0)) (sec\<lparr>sm_addr := FAILED_ADDR\<rparr>)"
  let ?x1 = "(if has_store S 1 0 then 1 else 0, if has_store S 2 0 then 1 else 0) :: nat \<times> nat"
  have cb: "sector_statistics_cb (sec_meta b (sst (S b)) (sdt (S b)) sec) (e, u) s =
      (False, (e + (if has_store S 1 b then 1 else 0), u + (if has_store S 2 b then 1 else 0)), s)" for b sec e u
    by (simp add: sector_statistics_cb_def has_store_def)
  have t0: "sector_turn 0 sector_statistics_cb False 0 (sec\<lparr>sm_addr := FAILED_ADDR\<rparr>) (0, 0) s = (False, ?sec1, ?x1, s)"
    by (simp add: turn_plain [OF assms base_ok_01(1)] cb del: One_nat_def)
  have t1: "sector_turn 0 sector_statistics_cb False 4096 ?sec1 ?x1 s =
      (False, sec_meta 4096 (sst (S 4096)) (sdt (S 4096)) ?sec1, (count (has_store S 1), count (has_store S 2)), s)"
    by (simp add: turn_plain [OF assms base_ok_01(2)] cb count_def del: One_nat_def)
  show ?thesis using sector_iterator_turns [OF t0 _ t1] by simp
qed

lemma pick_None_tail: "repr s S \<Longrightarrow> base_ok b \<Longrightarrow> tail_of b (snds (S b)) \<noteq> FAILED_ADDR"
  using repr_size [of s S b] base_okD [of b] by auto

lemma pick_count0: "count (has_store S k) = 0 \<Longrightarrow> pick (\<lambda>b. has_store S k b \<and> Q b) = None"
  by (auto simp: count_def pick_def split: if_splits)

lemma but_cache_flag: "but_cache s s' \<Longrightarrow> but_cache (s\<lparr>gc_request := g\<rparr>) (s'\<lparr>gc_request := g\<rparr>)"
  unfolding but_cache_def by (elim exE, rule_tac x = t in exI) simp

lemma alloc_env_ok:
  assumes "repr s S" "used S"
  shows "\<exists>sec' s'. alloc_env sec n s = (case room_in S n (gc_request s) of Some b \<Rightarrow> tail_of b (snds (S b)) | None \<Rightarrow> FAILED_ADDR, sec', s') \<and>
    repr s' S \<and> (\<forall>b. room_in S n (gc_request s) = Some b \<longrightarrow> meta_ok S b sec' \<and> but_cache s s') \<and>
    (room_in S n (gc_request s) = None \<longrightarrow> but_cache (s\<lparr>gc_request := gc_request s \<or> count (has_store S 1) = 1\<rparr>) s')"
proof -
  let ?E = "count (has_store S 1)" and ?U = "count (has_store S 2)" and ?gc = "gc_request s"
  let ?pu = "pick (\<lambda>b. has_store S 2 b \<and> fits S n ?gc b)" and ?pe = "pick (\<lambda>b. has_store S 1 b \<and> fits S n ?gc b)"
  have E2: "?E \<le> 2" by (simp add: count_def)
  obtain sec1 where st: "sector_iterator sec 0 (0, 0) sector_statistics_cb False s = (sec1, (?E, ?U), s)"
    using statistics_iter [OF assms(1)] by blast
  have "\<exists>sec2 s2. (if ?U > 0 then sector_iterator sec1 2 FAILED_ADDR (alloc_env_cb n) True s else (sec1, FAILED_ADDR, s)) =
      (sec2, case ?pu of None \<Rightarrow> FAILED_ADDR | Some b \<Rightarrow> tail_of b (snds (S b)), s2) \<and>
    but_cache s s2 \<and> repr s2 S \<and> (\<forall>b. ?pu = Some b \<longrightarrow> meta_ok S b sec2)"
    using alloc_iter [OF assms, of 2 sec1 n] assms(1) pick_count0 [of S 2] by (cases "?U = 0") auto
  then obtain sec2 s2 where u: "(if ?U > 0 then sector_iterator sec1 2 FAILED_ADDR (alloc_env_cb n) True s else (sec1, FAILED_ADDR, s)) =
      (sec2, case ?pu of None \<Rightarrow> FAILED_ADDR | Some b \<Rightarrow> tail_of b (snds (S b)), s2)" "but_cache s s2" "repr s2 S" "\<forall>b. ?pu = Some b \<longrightarrow> meta_ok S b sec2"
    by blast
  have gc2: "gc_request s2 = ?gc" using but_cacheD [OF u(2)] by simp
  show ?thesis
  proof (cases ?pu)
    case (Some b)
    then have "tail_of b (snds (S b)) \<noteq> FAILED_ADDR" using pick_Some [OF Some] pick_None_tail [OF assms(1)] by blast
    with Some st u show ?thesis by (auto simp: alloc_env_def room_in_def)
  next
    case None
    show ?thesis
    proof (cases "?E > 0 \<and> (?E > 1 \<or> ?gc)")
      case True
      obtain sec3 s3 where e: "sector_iterator sec2 1 FAILED_ADDR (alloc_env_cb n) True s2 =
          (sec3, case ?pe of None \<Rightarrow> FAILED_ADDR | Some b \<Rightarrow> tail_of b (snds (S b)), s3)" "but_cache s2 s3" "repr s3 S"
          "\<forall>b. ?pe = Some b \<longrightarrow> meta_ok S b sec3"
        using alloc_iter [OF u(3) assms(2), of 1 sec2 n] gc2 by auto
      have al: "alloc_env sec n s = (case ?pe of None \<Rightarrow> FAILED_ADDR | Some b \<Rightarrow> tail_of b (snds (S b)), sec3, s3)"
        using st u(1) e(1) None True gc2 by (simp add: alloc_env_def)
      have "s\<lparr>gc_request := ?gc \<or> ?E = 1\<rparr> = s" using True by auto
      then show ?thesis
        using al None True e but_cache_trans [OF u(2) e(2)] by (auto simp: room_in_def)
    next
      case False
      then consider (zero) "?E = 0" | (one) "?E = 1" "\<not> ?gc" using E2 by linarith
      then show ?thesis
      proof cases
        case zero
        have "s\<lparr>gc_request := ?gc \<or> ?E = 1\<rparr> = s" using zero by simp
        with zero st u None pick_count0 [OF zero] show ?thesis by (auto simp: alloc_env_def room_in_def)
      next
        case one
        have "alloc_env sec n s = (FAILED_ADDR, sec2, s2\<lparr>gc_request := True\<rparr>)"
          using one st u None gc2 by (simp add: alloc_env_def)
        moreover have "but_cache (s\<lparr>gc_request := ?gc \<or> ?E = 1\<rparr>) (s2\<lparr>gc_request := True\<rparr>)" "repr (s2\<lparr>gc_request := True\<rparr>) S"
          using one u(2,3) but_cache_flag [OF u(2)] by (simp_all add: repr_def sec_cache_ok_def)
        ultimately show ?thesis using one None by (auto simp: room_in_def)
      qed
    qed
  qed
qed

end
