(* ===== verification/EfWrite.thy ===== *)
theory EfWrite
  imports EfAlloc
begin

text \<open>What the writes of \<open>ef_env.c\<close> do to well-formed sectors.\<close>

unbundle bit_operations_syntax

section \<open>Bytes\<close>

lemma status_bytes [simp]:
  "status_byte 1 = 0x7F" "status_byte (Suc 0) = 0x7F" "status_byte 2 = 0xBF" "status_byte 3 = 0xDF" "status_byte 4 = 0xEF"
  by (simp_all add: status_byte_def)

lemma at_four: "at m a ([w, x, y, z] @ zs) \<longleftrightarrow> m a = w \<and> m (a + 1) = x \<and> m (a + 2) = y \<and> m (a + 3) = z \<and> at m (a + 4) zs"
  by (simp add: numeral_eq_Suc)

lemma hdr_program_store: "hdr_at m b st dt \<Longrightarrow> hdr_at (program b [x] m) b (st AND x) dt"
  by (auto simp: hdr_at_def program_def elim!: at_cong)

lemma hdr_program_dirty: "hdr_at m b st dt \<Longrightarrow> hdr_at (program (b + 1) [x] m) b st (dt AND x)"
  by (auto simp: hdr_at_def program_def elim!: at_cong)

lemma sector_program_store: "sector_at m b st dt nds \<Longrightarrow> sector_at (program b [x] m) b (st AND x) dt nds"
  unfolding sector_at_def
  by (auto intro: hdr_program_store elim!: nodes_at_cong blank_cong simp: program_def)

lemma sector_program_dirty: "sector_at m b st dt nds \<Longrightarrow> sector_at (program (b + 1) [x] m) b st (dt AND x) nds"
  using hdr_program_dirty [of m b st dt x] unfolding sector_at_def
  by (auto elim!: nodes_at_cong blank_cong simp: program_def)

definition restatus :: "u8 \<Rightarrow> enode \<Rightarrow> enode" where
  "restatus x nd = Enode (stb nd AND x) (nm nd) (vl nd)"

lemma restatus_simps [simp]:
  "nm (restatus x nd) = nm nd" "vl (restatus x nd) = vl nd" "stb (restatus x nd) = stb nd AND x"
  "nlen (restatus x nd) = nlen nd" "wf_node (restatus x nd) = wf_node nd"
  by (simp_all add: restatus_def nlen_def wf_node_def)

lemma node_program_status:
  assumes "at m a (node_bytes nd)"
  shows "at (program a [x] m) a (node_bytes (restatus x nd))"
proof -
  have m: "m a = stb nd" "at m (a + 1) [0xFF, 0xFF, 0xFF]" "at m (a + 4) (node_body (nm nd) (vl nd))"
    using assms by (simp_all add: node_bytes_def padded_def numeral_eq_Suc)
  have "at (program a [x] m) (a + 1) [0xFF, 0xFF, 0xFF]" "at (program a [x] m) (a + 4) (node_body (nm nd) (vl nd))"
    by (rule at_program_out [OF m(2)], simp) (rule at_program_out [OF m(3)], simp)
  moreover have "program a [x] m a = stb nd AND x" using m(1) by (simp add: program_def)
  ultimately show ?thesis by (simp add: node_bytes_def padded_def numeral_eq_Suc)
qed

lemma sector_program_node:
  assumes "sector_at m b st dt (xs @ nd # ys)"
  shows "sector_at (program (tail_of b xs) [x] m) b st dt (xs @ restatus x nd # ys)"
proof -
  let ?m = "program (tail_of b xs) [x] m"
  have s: "hdr_at m b st dt" "nodes_at m (b + 16) xs" "at m (tail_of b xs) (node_bytes nd)"
    "nodes_at m (tail_of b xs + nlen nd) ys" "blank m (tail_of b (xs @ nd # ys)) (b + 4096)"
    "16 + nsize (xs @ nd # ys) \<le> 4096" "\<forall>nd\<in>set (xs @ nd # ys). wf_node nd"
    using assms by (auto simp: sector_at_def)
  have n: "24 \<le> nlen nd" by (rule nlen_ge)
  have "hdr_at ?m b st dt" "nodes_at ?m (b + 16) xs"
    using s(1,2) by (auto intro!: program_out elim!: hdr_at_cong nodes_at_cong)
  moreover have "nodes_at ?m (tail_of b xs + nlen nd) ys" "blank ?m (tail_of b (xs @ nd # ys)) (b + 4096)"
    using s(4,5) n by (auto intro!: program_out elim!: nodes_at_cong blank_cong)
  ultimately show ?thesis
    using s(6,7) node_program_status [OF s(3)] by (auto simp: sector_at_def)
qed

lemma sector_append:
  assumes "sector_at m b st dt nds" "at m' (tail_of b nds) (node_bytes nd)" "wf_node nd" "nsize nds + nlen nd \<le> 4080"
    "\<And>x. x < tail_of b nds \<or> tail_of b nds + nlen nd \<le> x \<Longrightarrow> m' x = m x"
  shows "sector_at m' b st dt (nds @ [nd])"
proof -
  have s: "hdr_at m b st dt" "nodes_at m (b + 16) nds" "blank m (tail_of b nds) (b + 4096)" "\<forall>nd\<in>set nds. wf_node nd"
    using assms(1) by (simp_all add: sector_at_def)
  have "hdr_at m' b st dt" "nodes_at m' (b + 16) nds" "blank m' (tail_of b nds + nlen nd) (b + 4096)"
    using s(1-3) assms(5) by (auto elim!: hdr_at_cong nodes_at_cong simp: blank_def)
  then show ?thesis using s(4) assms(2-4) by (auto simp: sector_at_def add.assoc)
qed

text \<open>The bytes of a node that is written piece by piece on erased cells.\<close>

lemma node_written:
  assumes "blank m a (a + 24 + length k + length v)"
    and "m' = program a [0xBF] (program (a + 24 + length k) v (program (a + 24) k (program (a + 4)
           (env_hdr_bytes (24 + length k + length v) (env_crc k v) (length k) (length v)) (program a [0x7F] m))))"
  shows "at m' a (node_bytes (Enode 0x3F k v))"
proof -
  let ?h = "env_hdr_bytes (24 + length k + length v) (env_crc k v) (length k) (length v)"
  let ?m4 = "program (a + 24 + length k) v (program (a + 24) k (program (a + 4) ?h (program a [0x7F] m)))"
  have m4: "?m4 = program (a + 4) (?h @ k @ v) (program a [0x7F] m)"
    by (simp add: program_append)
  have "blank (program a [0x7F] m) (a + 4) (a + 4 + length (?h @ k @ v))"
    using assms(1) by (auto simp: blank_def program_def)
  then have "at ?m4 (a + 4) (node_body k v)"
    unfolding m4 node_body_def by (rule at_program_blank)
  then have body: "at m' (a + 4) (node_body k v)" unfolding assms(2) by (rule at_program_out) simp
  have "m' a = 0x3F" "m' (a + 1) = 0xFF" "m' (a + 2) = 0xFF" "m' (a + 3) = 0xFF"
    using assms(1) unfolding assms(2) m4 by (auto simp: program_def blank_def)
  with body show ?thesis unfolding node_bytes_def padded_def by (simp only: at_four) simp
qed

lemma node_written_frame:
  assumes "m' = program a [0xBF] (program (a + 24 + length k) v (program (a + 24) k (program (a + 4)
           (env_hdr_bytes (24 + length k + length v) (env_crc k v) (length k) (length v)) (program a [0x7F] m))))"
    "x < a \<or> a + 24 + length k + length v \<le> x"
  shows "m' x = m x"
  using assms by (auto simp: program_def)

text \<open>A copied node.\<close>

lemma node_copied:
  assumes "blank m a (a + nlen nd)" "bs = node_body (nm nd) (vl nd)" "m' = program a [0xBF] (program (a + 4) bs (program a [0x7F] m))"
  shows "at m' a (node_bytes (Enode 0x3F (nm nd) (vl nd)))"
proof (rule node_written [OF _ , of m])
  show "blank m a (a + 24 + length (nm nd) + length (vl nd))" using assms(1) by (simp add: nlen_def add.assoc)
  show "m' = program a [0xBF] (program (a + 24 + length (nm nd)) (vl nd) (program (a + 24) (nm nd) (program (a + 4)
           (env_hdr_bytes (24 + length (nm nd) + length (vl nd)) (env_crc (nm nd) (vl nd)) (length (nm nd)) (length (vl nd)))
           (program a [0x7F] m))))"
    unfolding assms(2,3) node_body_def by (simp add: program_append)
qed

lemma sector_formatted:
  "sector_at (program b (sector_hdr_bytes SECTOR_NOT_COMBINED) (erase b 4096 m)) b 0x7F 0x7F []"
proof -
  let ?m = "program b (sector_hdr_bytes SECTOR_NOT_COMBINED) (erase b 4096 m)"
  have h: "sector_hdr_bytes SECTOR_NOT_COMBINED = [0x7F, 0x7F, 0xFF, 0xFF] @
      u32_bytes SECTOR_MAGIC_WORD @ u32_bytes SECTOR_NOT_COMBINED @ u32_bytes 0xFFFFFFFF"
    by (simp add: sector_hdr_bytes_def set_status_def)
  have "at ?m b (sector_hdr_bytes SECTOR_NOT_COMBINED)"
    by (rule at_program_blank) (auto simp: h blank_def erase_def)
  then have "hdr_at ?m b 0x7F 0x7F" unfolding h at_four by (simp add: hdr_at_def)
  moreover have "blank ?m (b + 16) (b + 4096)" by (auto simp: blank_def program_def h erase_def)
  ultimately show ?thesis by (simp add: sector_at_def)
qed

section \<open>Areas\<close>

lemma mem_repr_upd:
  assumes "mem_repr m S" "base_ok b" "sector_at m' b (sst c) (sdt c) (snds c)"
    "sst c = 0x7F \<and> snds c = [] \<or> sst c = 0x3F \<or> sst c = 0x1F"
    "\<And>x. x < b \<or> b + 4096 \<le> x \<Longrightarrow> m' x = m x"
  shows "mem_repr m' (S(b := c))"
proof -
  have "sector_at m' a (sst (S a)) (sdt (S a)) (snds (S a))" if "base_ok a" "a \<noteq> b" for a
  proof (rule sector_at_cong)
    show "sector_at m a (sst (S a)) (sdt (S a)) (snds (S a))" using assms(1) that by (simp add: mem_repr_def)
    show "m' x = m x" if "a \<le> x" "x < a + 4096" for x
      using assms(2,5) that \<open>base_ok a\<close> \<open>a \<noteq> b\<close> by (auto simp: base_ok_def)
  qed
  with assms show ?thesis by (auto simp: mem_repr_def)
qed

lemma tails_same:
  "sst c = sst (S b) \<Longrightarrow> nsize (snds c) = nsize (snds (S b)) \<Longrightarrow> tails (S(b := c)) = tails S"
  by (rule ext) (simp add: tails_def)

lemma repr_mem: "repr s S \<Longrightarrow> mem_repr (cells s) S" and repr_chip: "repr s S \<Longrightarrow> chip_ok s"
  by (simp_all add: repr_def)

lemma repr_flags:
  "repr (s\<lparr>last_is_complete_del := x\<rparr>) S = repr s S" "repr (s\<lparr>gc_request := x\<rparr>) S = repr s S"
  "repr (s\<lparr>env_cache_table := t\<rparr>) S = repr s S" "repr (update_env_cache k a s) S = repr s S"
  by (simp_all add: repr_def sec_cache_ok_def)

lemma in_sector: "repr s S \<Longrightarrow> base_ok b \<Longrightarrow> snds (S b) = xs @ nd # ys \<Longrightarrow>
    b + 16 \<le> tail_of b xs \<and> tail_of b xs + nlen nd \<le> b + 4096"
  using repr_size [of s S b] by auto

text \<open>Programming a status byte of a node.\<close>

lemma repr_node_status:
  assumes "repr s S" "base_ok b" "snds (S b) = xs @ nd # ys"
  shows "repr (s\<lparr>cells := program (tail_of b xs) [x] (cells s)\<rparr>) (S(b := (S b)\<lparr>snds := xs @ restatus x nd # ys\<rparr>))"
proof -
  let ?c = "(S b)\<lparr>snds := xs @ restatus x nd # ys\<rparr>"
  have st: "sst (S b) = 0x3F \<or> sst (S b) = 0x1F" using assms by (auto simp: repr_def mem_repr_def)
  have "sector_at (cells s) b (sst (S b)) (sdt (S b)) (xs @ nd # ys)" using repr_sector [OF assms(1,2)] assms(3) by simp
  from sector_program_node [OF this, of x]
  have "mem_repr (program (tail_of b xs) [x] (cells s)) (S(b := ?c))"
    using assms(1,2) st in_sector [OF assms] nlen_ge [of nd] by (intro mem_repr_upd [OF repr_mem]) (auto intro!: program_out)
  moreover have "tails (S(b := ?c)) = tails S" using assms(3) by (intro tails_same) simp_all
  ultimately show ?thesis using assms(1) by (simp add: repr_def sec_cache_ok_def)
qed

lemma repr_dirty:
  assumes "repr s S" "base_ok b"
  shows "repr (s\<lparr>cells := program (b + 1) [x] (cells s)\<rparr>) (S(b := (S b)\<lparr>sdt := sdt (S b) AND x\<rparr>))"
proof -
  let ?c = "(S b)\<lparr>sdt := sdt (S b) AND x\<rparr>"
  have "mem_repr (program (b + 1) [x] (cells s)) (S(b := ?c))"
    using assms sector_program_dirty [OF repr_sector [OF assms], of x]
    by (intro mem_repr_upd [OF repr_mem]) (auto intro!: program_out simp: repr_def mem_repr_def)
  moreover have "tails (S(b := ?c)) = tails S" by (intro tails_same) simp_all
  ultimately show ?thesis using assms(1) by (simp add: repr_def sec_cache_ok_def)
qed

definition dirtied :: "u8 \<Rightarrow> u8" where
  "dirtied dt = (if get_status [dt] 4 = 1 then dt AND 0xBF else dt)"

lemma read_dirty: "repr s S \<Longrightarrow> base_ok b \<Longrightarrow> read_status (b + 1) 4 s = get_status [sdt (S b)] 4"
  using repr_hdr [of s S b] by (simp add: read_status_def hdr_at_def ef_port_read_def)

lemma sect_upd:
  "(c :: sect)\<lparr>snds := n, sdt := d\<rparr> = \<lparr>sst = sst c, sdt = d, snds = n\<rparr>" "c\<lparr>snds := n\<rparr> = \<lparr>sst = sst c, sdt = sdt c, snds = n\<rparr>"
  "c\<lparr>sst := x, snds := n\<rparr> = \<lparr>sst = x, sdt = sdt c, snds = n\<rparr>" "c\<lparr>sst := x\<rparr> = \<lparr>sst = x, sdt = sdt c, snds = snds c\<rparr>"
  "c\<lparr>sdt := d\<rparr> = \<lparr>sst = sst c, sdt = d, snds = snds c\<rparr>"
  by (cases c, simp)+

text \<open>\<open>del_env\<close> on a node of the area: status, dirty mark, and the cache entry when the name is dropped for good.\<close>

lemma del_env_at_ok:
  assumes "repr s S" "base_ok b" "snds (S b) = xs @ nd # ys"
  shows "\<exists>s'. del_env_at k (tail_of b xs) c s = (EF_NO_ERR, s') \<and>
    repr s' (S(b := \<lparr>sst = sst (S b), sdt = dirtied (sdt (S b)), snds = xs @ restatus (if c then 0xEF else 0xDF) nd # ys\<rparr>)) \<and>
    last_is_complete_del s' = (\<not> c) \<and> gc_request s' = gc_request s \<and> ef_init_ok s' = ef_init_ok s \<and>
    in_recovery_check s' = in_recovery_check s \<and>
    env_cache_table s' = env_cache_table (if c \<and> \<not> last_is_complete_del s then update_env_cache k FAILED_ADDR s else s)"
proof -
  let ?p = "tail_of b xs" and ?x = "if c then 0xEF else 0xDF :: u8"
  let ?S1 = "S(b := (S b)\<lparr>snds := xs @ restatus ?x nd # ys\<rparr>)"
  let ?c1 = "s\<lparr>cells := program ?p [?x] (cells s)\<rparr>"
  define s1 where "s1 = (if c \<and> \<not> last_is_complete_del s then update_env_cache k FAILED_ADDR ?c1 else ?c1)\<lparr>last_is_complete_del := \<not> c\<rparr>"
  have al: "?p div 4096 * 4096 = b" using in_sector [OF assms] nlen_ge [of nd] by (intro base_align assms(2)) auto
  have r1: "repr s1 ?S1" using repr_node_status [OF assms, of ?x] by (cases c) (simp_all add: s1_def repr_flags)
  have dt: "read_status (b + 1) 4 s1 = get_status [sdt (S b)] 4" using read_dirty [OF r1 assms(2)] by simp
  have w: "write_status ?p 6 (if c then 4 else 3) s = (EF_NO_ERR, ?c1)"
    using repr_chip [OF assms(1)] by (simp add: write_status_eq)
  have step: "del_env_at k ?p c s = (if get_status [sdt (S b)] 4 = 1 then write_status (b + 1) 4 2 s1 else (EF_NO_ERR, s1))"
  proof -
    have "del_env_at k ?p c s = (if read_status (b + 1) 4 s1 = 1 then write_status (b + 1) 4 2 s1 else (EF_NO_ERR, s1))"
      using w by (cases c) (simp_all add: del_env_at_def s1_def al Let_def)
    then show ?thesis by (simp only: dt)
  qed
  have fl: "last_is_complete_del s1 = (\<not> c)" "gc_request s1 = gc_request s" "ef_init_ok s1 = ef_init_ok s" "in_recovery_check s1 = in_recovery_check s"
    by (simp_all add: s1_def)
  have ec: "env_cache_table s1 = env_cache_table (if c \<and> \<not> last_is_complete_del s then update_env_cache k FAILED_ADDR s else s)"
    by (simp add: s1_def update_env_cache_def Let_def split: sum.split prod.split)
  show ?thesis
  proof (cases "get_status [sdt (S b)] 4 = 1")
    case True
    let ?s2 = "s1\<lparr>cells := program (b + 1) [0xBF] (cells s1)\<rparr>"
    have "write_status (b + 1) 4 2 s1 = (EF_NO_ERR, ?s2)" using repr_chip [OF r1] by (simp add: write_status_eq)
    moreover have "repr ?s2 (?S1(b := (?S1 b)\<lparr>sdt := sdt (?S1 b) AND 0xBF\<rparr>))" by (rule repr_dirty [OF r1 assms(2)])
    ultimately show ?thesis using True step fl ec by (cases c) (simp_all add: dirtied_def sect_upd)
  next
    case False
    then show ?thesis using step r1 fl ec by (cases c) (simp_all add: dirtied_def sect_upd)
  qed
qed

section \<open>Allocating the place of a node\<close>

text \<open>The store status after a node of \<open>n\<close> bytes has been given a place.\<close>

definition store_after :: "sect \<Rightarrow> nat \<Rightarrow> u8" where
  "store_after c n = (if sst c = 0x7F then 0x3F else if 4080 - nsize (snds c) - n < 152 then 0x1F else 0x3F)"

lemma repr_store_status:
  assumes "repr s S" "base_ok b" "sst (S b) AND x = 0x3F \<or> sst (S b) AND x = 0x1F" "sec_cache_ok (tails (S(b := (S b)\<lparr>sst := sst (S b) AND x\<rparr>))) s'"
    "cells s' = program b [x] (cells s)" "chip_ok s'" "\<not> hung s'"
  shows "repr s' (S(b := (S b)\<lparr>sst := sst (S b) AND x\<rparr>))"
proof -
  have "mem_repr (program b [x] (cells s)) (S(b := (S b)\<lparr>sst := sst (S b) AND x\<rparr>))"
    using assms(2,3) sector_program_store [OF repr_sector [OF assms(1,2)], of x]
    by (intro mem_repr_upd [OF repr_mem [OF assms(1)]]) (auto intro!: program_out)
  then show ?thesis using assms by (simp add: repr_def)
qed

text \<open>What a place found earlier must still say about the sector.\<close>

definition place_ok :: "area \<Rightarrow> nat \<Rightarrow> sector_meta_data \<Rightarrow> bool" where
  "place_ok S b sec \<longleftrightarrow> sm_addr sec = b \<and> sm_store sec = get_status [sst (S b)] 4 \<and> sm_remain sec = 4080 - nsize (snds (S b)) \<and>
     sm_empty_env sec = tail_of b (snds (S b))"

lemma meta_place: "meta_ok S b sec \<Longrightarrow> place_ok S b sec"
  by (simp add: meta_ok_def place_ok_def)

lemma update_sec_status_ok:
  assumes "repr s S" "base_ok b" "place_ok S b sec" "sst (S b) \<noteq> 0x1F" "n < 4080 - nsize (snds (S b))"
  shows "\<exists>s'. update_sec_status sec n s = (EF_NO_ERR, if sst (S b) = 0x7F then None else Some (store_after (S b) n = 0x1F), s') \<and>
    repr s' (S(b := (S b)\<lparr>sst := store_after (S b) n\<rparr>)) \<and> (\<exists>m t. s' = s\<lparr>cells := m, sector_cache_table := t\<rparr>) \<and>
    (\<forall>x. x < b \<or> b + 16 \<le> x \<longrightarrow> cells s' x = cells s x) \<and>
    (sst (S b) \<noteq> 0x7F \<longrightarrow> store_after (S b) n = 0x1F \<longrightarrow> sec_cache_ok ((tails S)(b := None)) s')"
proof -
  note m = assms(3) [unfolded place_ok_def]
  have ok: "sec_cache_ok (tails S) s" "chip_ok s" "\<not> hung s" using assms(1) by (simp_all add: repr_def)
  have nF: "b \<noteq> FAILED_ADDR" using base_okD [OF assms(2)] by simp
  have sub: "sub32 (4080 - nsize (snds (S b))) n = 4080 - nsize (snds (S b)) - n" using assms(5) by (intro sub32_le) auto
  consider (empty) "sst (S b) = 0x7F" | (full) "sst (S b) = 0x3F" "4080 - nsize (snds (S b)) - n < 152"
    | (part) "sst (S b) = 0x3F" "\<not> 4080 - nsize (snds (S b)) - n < 152"
    using repr_store [OF assms(1,2)] assms(4) by metis
  then show ?thesis
  proof cases
    case empty
    let ?s' = "s\<lparr>cells := program b [0xBF] (cells s)\<rparr>"
    have "tails S \<subseteq>\<^sub>m tails (S(b := (S b)\<lparr>sst := 0x3F\<rparr>))" using empty by (auto simp: map_le_def tails_def)
    then have "repr ?s' (S(b := (S b)\<lparr>sst := sst (S b) AND 0xBF\<rparr>))"
      using ok empty by (intro repr_store_status [OF assms(1,2)]) (auto simp: sec_cache_ok_def elim: sec_table_mono)
    moreover have "update_sec_status sec n s = (EF_NO_ERR, None, ?s')"
      using m empty ok by (simp add: update_sec_status_def write_status_eq)
    moreover have "\<exists>m t. ?s' = s\<lparr>cells := m, sector_cache_table := t\<rparr>" by (rule exI, rule exI [of _ "sector_cache_table s"]) simp
    ultimately show ?thesis using empty by (auto simp: store_after_def program_def)
  next
    case full
    let ?s1 = "s\<lparr>cells := program b [0xDF] (cells s)\<rparr>"
    let ?s' = "update_sector_cache b (b + 4096) ?s1"
    have none: "sec_cache_ok ((tails S)(b := None)) ?s'"
      using sec_cache_update [of "tails S" ?s1 b "b + 4096"] ok nF by (simp add: sec_cache_ok_def)
    moreover have "(tails S)(b := None) \<subseteq>\<^sub>m tails (S(b := (S b)\<lparr>sst := 0x1F\<rparr>))" by (simp add: map_le_def tails_def dom_def)
    ultimately have "sec_cache_ok (tails (S(b := (S b)\<lparr>sst := 0x1F\<rparr>))) ?s'" by (rule sec_cache_mono)
    then have "repr ?s' (S(b := (S b)\<lparr>sst := sst (S b) AND 0xDF\<rparr>))"
      using ok full by (intro repr_store_status [OF assms(1,2)]) auto
    moreover have "update_sec_status sec n s = (EF_NO_ERR, Some True, ?s')"
      using m full ok sub by (auto simp: update_sec_status_def write_status_eq)
    moreover have "\<exists>m t. ?s' = s\<lparr>cells := m, sector_cache_table := t\<rparr>"
      using but_cache_update [of ?s1 b "b + 4096"] by (auto simp: but_cache_def)
    ultimately show ?thesis using full none by (auto simp: store_after_def program_def)
  next
    case part
    have "S(b := (S b)\<lparr>sst := 0x3F\<rparr>) = S" using part by (intro ext) simp
    moreover have "update_sec_status sec n s = (EF_NO_ERR, Some False, s)"
      using m part sub assms(5) by (auto simp: update_sec_status_def)
    moreover have "\<exists>m t. s = s\<lparr>cells := m, sector_cache_table := t\<rparr>"
      by (rule exI [of _ "cells s"], rule exI [of _ "sector_cache_table s"]) simp
    ultimately show ?thesis using part assms(1) by (simp add: store_after_def)
  qed
qed

section \<open>Writing, copying, formatting\<close>

definition appended :: "area \<Rightarrow> nat \<Rightarrow> enode \<Rightarrow> area" where
  "appended S b nd = S(b := \<lparr>sst = store_after (S b) (nlen nd), sdt = sdt (S b), snds = snds (S b) @ [nd]\<rparr>)"

text \<open>A node written behind the tail, with the tail in the cache refreshed or dropped.\<close>

lemma repr_append:
  assumes "repr s1 (S(b := (S b)\<lparr>sst := store_after (S b) (nlen nd)\<rparr>))" "base_ok b" "wf_node nd"
    "nlen nd < 4080 - nsize (snds (S b))"
    "at m' (tail_of b (snds (S b))) (node_bytes nd)"
    "\<And>x. x < tail_of b (snds (S b)) \<or> tail_of b (snds (S b)) + nlen nd \<le> x \<Longrightarrow> m' x = cells s1 x"
    "cells s' = m'" "chip_ok s'" "\<not> hung s'"
    "sec_cache_ok ((tails S)(b := None)) s' \<or>
     sector_cache_table s' = sector_cache_table (update_sector_cache b (tail_of b (snds (S b)) + nlen nd) s1)"
  shows "repr s' (appended S b nd)"
proof -
  let ?st = "store_after (S b) (nlen nd)"
  let ?S1 = "S(b := (S b)\<lparr>sst := ?st\<rparr>)" and ?e = "tail_of b (snds (S b)) + nlen nd"
  have st: "?st = 0x3F \<or> ?st = 0x1F" by (simp add: store_after_def)
  have sec: "sector_at (cells s1) b ?st (sdt (S b)) (snds (S b))" using repr_sector [OF assms(1,2)] by simp
  have "sector_at m' b ?st (sdt (S b)) (snds (S b) @ [nd])"
    using sector_append [OF sec assms(5,3)] assms(4,6) by auto
  moreover have "m' x = cells s1 x" if "x < b \<or> b + 4096 \<le> x" for x using that assms(4) by (intro assms(6)) linarith
  ultimately have "mem_repr m' (?S1(b := \<lparr>sst = ?st, sdt = sdt (S b), snds = snds (S b) @ [nd]\<rparr>))"
    using assms(2) st by (intro mem_repr_upd [OF repr_mem [OF assms(1)]]) auto
  then have mem: "mem_repr m' (appended S b nd)" by (simp add: appended_def)
  have t: "tails (appended S b nd) b = Some ?e" using assms(2) st by (auto simp: tails_def appended_def)
  have t': "tails (appended S b nd) a = tails S a" "tails ?S1 a = tails S a" if "a \<noteq> b" for a
    using that by (simp_all add: tails_def appended_def)
  have "sec_cache_ok (tails (appended S b nd)) s'"
    using assms(10)
  proof
    assume c: "sec_cache_ok ((tails S)(b := None)) s'"
    have "(tails S)(b := None) \<subseteq>\<^sub>m tails (appended S b nd)" using t' by (auto simp: map_le_def dom_def split: if_splits)
    with c show ?thesis by (rule sec_cache_mono)
  next
    assume eq: "sector_cache_table s' = sector_cache_table (update_sector_cache b ?e s1)"
    have "sec_cache_ok (tails ?S1) s1" using assms(1) by (simp add: repr_def)
    from sec_cache_update [OF this, of b ?e] base_okD [OF assms(2)]
    have "sec_cache_ok (if b < ?e \<and> ?e < b + 4096 then (tails ?S1)(b \<mapsto> ?e) else (tails ?S1)(b := None)) s'"
      using eq by (simp add: sec_cache_ok_def)
    moreover have "(if b < ?e \<and> ?e < b + 4096 then (tails ?S1)(b \<mapsto> ?e) else (tails ?S1)(b := None)) \<subseteq>\<^sub>m tails (appended S b nd)"
      using t t' by (auto simp: map_le_def dom_def)
    ultimately show ?thesis by (rule sec_cache_mono)
  qed
  with mem assms(7-9) show ?thesis by (simp add: repr_def)
qed

lemma cache_cells:
  "update_sector_cache a e (s\<lparr>cells := m\<rparr>) = (update_sector_cache a e s)\<lparr>cells := m\<rparr>"
  "update_env_cache k e (s\<lparr>cells := m\<rparr>) = (update_env_cache k e s)\<lparr>cells := m\<rparr>"
  by (simp_all add: update_sector_cache_def update_env_cache_def Let_def split: sum.split prod.split)

lemma env_cache_table_same:
  "env_cache_table s' = env_cache_table s \<Longrightarrow> env_cache_table (update_env_cache k e s') = env_cache_table (update_env_cache k e s)"
  by (simp add: update_env_cache_def Let_def split: sum.split prod.split)

lemma sector_cache_table_same:
  "sector_cache_table s' = sector_cache_table s \<Longrightarrow>
   sector_cache_table (update_sector_cache k e s') = sector_cache_table (update_sector_cache k e s)"
  by (simp add: update_sector_cache_def split: sum.split)

lemma write_env_node_ok:
  assumes "repr s S" "base_ok b" "place_ok S b sec" "sst (S b) \<noteq> 0x1F" "wf_node (Enode 0x3F k v)"
    "nlen (Enode 0x3F k v) < 4080 - nsize (snds (S b))"
  shows "\<exists>s'. write_env_node sec (tail_of b (snds (S b))) k v s = (EF_NO_ERR, s') \<and>
    repr s' (appended S b (Enode 0x3F k v)) \<and>
    gc_request s' = (gc_request s \<or> sst (S b) \<noteq> 0x7F \<and> store_after (S b) (nlen (Enode 0x3F k v)) = 0x1F) \<and>
    last_is_complete_del s' = last_is_complete_del s \<and> ef_init_ok s' = ef_init_ok s \<and> in_recovery_check s' = in_recovery_check s \<and>
    env_cache_table s' = env_cache_table (update_env_cache k (tail_of b (snds (S b))) s)"
proof -
  let ?nd = "Enode 0x3F k v" and ?a = "tail_of b (snds (S b))"
  let ?n = "24 + length k + length v" and ?full = "sst (S b) \<noteq> 0x7F \<and> store_after (S b) (nlen (Enode 0x3F k v)) = 0x1F"
  have n: "nlen ?nd = ?n" by (simp add: nlen_def)
  obtain s1 where u: "update_sec_status sec ?n s = (EF_NO_ERR, if sst (S b) = 0x7F then None else Some (store_after (S b) ?n = 0x1F), s1)"
      "repr s1 (S(b := (S b)\<lparr>sst := store_after (S b) ?n\<rparr>))" "\<exists>m t. s1 = s\<lparr>cells := m, sector_cache_table := t\<rparr>"
      "sst (S b) \<noteq> 0x7F \<longrightarrow> store_after (S b) ?n = 0x1F \<longrightarrow> sec_cache_ok ((tails S)(b := None)) s1"
    using update_sec_status_ok [OF assms(1-4), of ?n] assms(6) n by auto
  have ok: "chip_ok s1" "\<not> hung s1" using u(2) by (simp_all add: repr_def)
  define m' where "m' = program ?a [0xBF] (program (?a + 24 + length k) v (program (?a + 24) k (program (?a + 4)
           (env_hdr_bytes ?n (env_crc k v) (length k) (length v)) (program ?a [0x7F] (cells s1)))))"
  define s2 where "s2 = (if \<not> ?full then update_sector_cache b (?a + ?n) s1 else s1)"
  define s3 where "s3 = (update_env_cache k ?a s2)\<lparr>cells := m'\<rparr>"
  have addr: "sm_addr sec = b" using assms(3) by (simp add: place_ok_def)
  have wr: "write_env_node sec ?a k v s = (EF_NO_ERR, if ?full then s3\<lparr>gc_request := True\<rparr> else s3)"
  proof (cases ?full)
    case True
    then have "write_env_node sec ?a k v s = (EF_NO_ERR, s3\<lparr>gc_request := True\<rparr>)"
      using u(1) ok n addr unfolding s3_def s2_def m'_def
      by (simp add: write_env_node_def on_ok_def write_env_hdr_def write_status_eq ef_port_write_def Let_def cache_cells)
    with True show ?thesis by simp
  next
    case False
    then have "write_env_node sec ?a k v s = (EF_NO_ERR, s3)"
      using u(1) ok n addr unfolding s3_def s2_def m'_def
      by (auto simp: write_env_node_def on_ok_def write_env_hdr_def write_status_eq ef_port_write_def Let_def cache_cells)
    then show ?thesis by (simp only: if_not_P [OF False])
  qed
  have bl: "blank (cells s1) ?a (?a + 24 + length k + length v)"
    using repr_sector [OF u(2) assms(2)] assms(6) n by (auto simp: sector_at_def blank_def)
  have at: "at m' ?a (node_bytes ?nd)" by (rule node_written [OF bl m'_def])
  have fr: "m' x = cells s1 x" if "x < ?a \<or> ?a + nlen ?nd \<le> x" for x
    using node_written_frame [OF m'_def, of x] that n by (simp add: add.assoc)
  have "repr s3 (appended S b ?nd)"
  proof (rule repr_append [where S = S and b = b and nd = ?nd and m' = m' and ?s1.0 = s1, OF _ assms(2,5,6) at fr])
    show "repr s1 (S(b := (S b)\<lparr>sst := store_after (S b) (nlen ?nd)\<rparr>))" using u(2) n by simp
    show "sec_cache_ok ((tails S)(b := None)) s3 \<or> sector_cache_table s3 = sector_cache_table (update_sector_cache b (?a + nlen ?nd) s1)"
      using u(4) n by (auto simp: s3_def s2_def sec_cache_ok_def)
  qed (use ok in \<open>auto simp: s3_def s2_def\<close>)
  moreover have "env_cache_table s3 = env_cache_table (update_env_cache k ?a s)"
    using u(3) by (auto simp: s3_def s2_def intro!: env_cache_table_same)
  moreover have "gc_request s3 = gc_request s" "last_is_complete_del s3 = last_is_complete_del s" "ef_init_ok s3 = ef_init_ok s"
      "in_recovery_check s3 = in_recovery_check s"
    using u(3) by (auto simp: s3_def s2_def)
  ultimately show ?thesis using wr by (cases ?full) (auto simp: repr_flags)
qed

text \<open>The copy of \<open>move_env\<close>, from a node of any sector behind the tail of a sector.\<close>

lemma copy_env_ok:
  assumes "repr s S" "base_ok b" "place_ok S b sec" "sst (S b) \<noteq> 0x1F"
    "base_ok c" "snds (S c) = xs @ nd' # ys" "nm nd' = nm nd" "vl nd' = vl nd" "nlen nd < 4080 - nsize (snds (S b))"
  shows "\<exists>s'. copy_env (node_obj (tail_of c xs) nd) (tail_of b (snds (S b))) sec s = (EF_NO_ERR, s') \<and>
    repr s' (appended S b (Enode 0x3F (nm nd) (vl nd))) \<and>
    gc_request s' = gc_request s \<and> last_is_complete_del s' = last_is_complete_del s \<and> ef_init_ok s' = ef_init_ok s \<and>
    in_recovery_check s' = in_recovery_check s \<and>
    env_cache_table s' = env_cache_table (update_env_cache (nm nd) (tail_of b (snds (S b))) s)"
proof -
  let ?nd = "Enode 0x3F (nm nd) (vl nd)" and ?a = "tail_of b (snds (S b))" and ?p = "tail_of c xs"
  have n: "nlen ?nd = nlen nd" "nlen nd' = nlen nd" using assms(7,8) by (simp_all add: nlen_def)
  have at': "at (cells s) ?p (node_bytes nd')" and wf: "wf_node nd'" and top: "?p + nlen nd \<le> c + 4096"
    using repr_sector [OF assms(1,5)] in_sector [OF assms(1,5,6)] assms(6) n by (auto simp: sector_at_def)
  have wf: "wf_node ?nd" using wf assms(7,8) by (simp add: wf_node_def nlen_def)
  obtain s1 where u: "snd (snd (update_sec_status sec (nlen nd) s)) = s1"
      "repr s1 (S(b := (S b)\<lparr>sst := store_after (S b) (nlen nd)\<rparr>))" "\<exists>m t. s1 = s\<lparr>cells := m, sector_cache_table := t\<rparr>"
      "\<forall>x. x < b \<or> b + 16 \<le> x \<longrightarrow> cells s1 x = cells s x"
    using update_sec_status_ok [OF assms(1-4,9)] by (metis snd_conv)
  have ok: "chip_ok s1" "\<not> hung s1" using u(2) by (simp_all add: repr_def)
  have dst: "b + 16 \<le> ?a" "?a + nlen nd \<le> b + 4096" using assms(9) by auto
  have bc: "b + 16 \<le> ?p \<and> ?p + nlen nd \<le> ?a \<or> b + 4096 \<le> ?p \<or> ?p + nlen nd \<le> b"
    using assms(2,5,6) top n by (cases "b = c") (auto simp: base_ok_def)
  define w where "w = s1\<lparr>cells := program ?a [0x7F] (cells s1)\<rparr>"
  have "at (cells w) (?p + 4) (node_body (nm nd) (vl nd))"
  proof (rule at_cong)
    show "at (cells s) (?p + 4) (node_body (nm nd) (vl nd))" using at' assms(7,8) by (simp add: node_bytes_def)
    show "cells w x = cells s x" if "?p + 4 \<le> x" "x < ?p + 4 + length (node_body (nm nd) (vl nd))" for x
    proof -
      have x: "b + 16 \<le> x \<and> x < ?a \<or> x < b \<or> b + 4096 \<le> x" using that bc by (auto simp: nlen_def)
      then have "cells s1 x = cells s x" using u(4) by auto
      then show ?thesis using x dst by (auto simp: w_def nlen_def program_def)
    qed
  qed
  then have rd: "ef_port_read (?p + 4) (nlen nd - 4) w = node_body (nm nd) (vl nd)"
    by (intro at_read) (auto simp: nlen_def)
  have "?p + 4 + (nlen nd - 4) \<le> ?a + 4 + 0 \<or> ?a + 4 + (nlen nd - 4) \<le> ?p + 4 + 0"
    using bc dst nlen_ge [of nd] by auto
  from copy_loop_eq [of w "?p + 4" "nlen nd - 4" "?a + 4" 0, OF _ this]
  have cp: "copy_loop (?p + 4) (?a + 4) 0 (nlen nd - 4) EF_NO_ERR w =
      (EF_NO_ERR, w\<lparr>cells := program (?a + 4) (node_body (nm nd) (vl nd)) (cells w)\<rparr>)"
    using ok rd by (simp add: w_def)
  define m' where "m' = program ?a [0xBF] (program (?a + 4) (node_body (nm nd) (vl nd)) (program ?a [0x7F] (cells s1)))"
  define s3 where "s3 = (update_env_cache (nm nd) ?a (update_sector_cache b (?a + nlen nd) s1))\<lparr>cells := m'\<rparr>"
  have al: "?a div 4096 * 4096 = b" using dst nlen_ge [of nd] by (intro base_align assms(2)) auto
  have len: "?a + 24 + length (nm nd) + length (vl nd) = ?a + nlen nd" by (simp add: nlen_def)
  have cpy: "copy_env (node_obj ?p nd) ?a sec s = (EF_NO_ERR, s3)"
    using cp ok al unfolding s3_def m'_def len [symmetric]
    by (simp add: copy_env_def node_obj_def u(1) write_status_eq w_def Let_def cache_cells)
  have bl: "blank (cells s1) ?a (?a + nlen nd)"
    using repr_sector [OF u(2) assms(2)] dst by (auto simp: sector_at_def blank_def)
  have at: "at m' ?a (node_bytes ?nd)" by (rule node_copied [OF bl refl m'_def])
  have fr: "m' x = cells s1 x" if "x < ?a \<or> ?a + nlen ?nd \<le> x" for x
    using that by (auto simp: m'_def program_def nlen_def)
  have n9: "nlen ?nd < 4080 - nsize (snds (S b))" using assms(9) n by simp
  have "repr s3 (appended S b ?nd)"
  proof (rule repr_append [where S = S and b = b and nd = ?nd and m' = m' and ?s1.0 = s1, OF _ assms(2) wf n9 at fr])
    show "repr s1 (S(b := (S b)\<lparr>sst := store_after (S b) (nlen ?nd)\<rparr>))" using u(2) n by simp
  qed (use ok n in \<open>auto simp: s3_def\<close>)
  moreover have "env_cache_table s3 = env_cache_table (update_env_cache (nm nd) ?a s)"
    using u(3) by (auto simp: s3_def intro!: env_cache_table_same)
  moreover have "gc_request s3 = gc_request s" "last_is_complete_del s3 = last_is_complete_del s" "ef_init_ok s3 = ef_init_ok s"
      "in_recovery_check s3 = in_recovery_check s"
    using u(3) by (auto simp: s3_def)
  ultimately show ?thesis using cpy by simp
qed

lemma format_sector_ok:
  assumes "mem_repr (cells s) S" "sec_cache_ok (tails S) s" "chip_ok s" "\<not> hung s" "base_ok b"
  shows "\<exists>s'. format_sector b SECTOR_NOT_COMBINED s = (EF_NO_ERR, s') \<and>
    repr s' (S(b := \<lparr>sst = 0x7F, sdt = 0x7F, snds = []\<rparr>)) \<and> gc_request s' = gc_request s \<and>
    last_is_complete_del s' = last_is_complete_del s \<and> ef_init_ok s' = ef_init_ok s \<and>
    in_recovery_check s' = in_recovery_check s \<and> env_cache_table s' = env_cache_table s"
proof -
  let ?c = "\<lparr>sst = 0x7F, sdt = 0x7F, snds = []\<rparr> :: sect"
  let ?m = "program b (sector_hdr_bytes SECTOR_NOT_COMBINED) (erase b 4096 (cells s))"
  let ?s' = "update_sector_cache b (b + 4096) (s\<lparr>cells := ?m\<rparr>)"
  have al: "b mod 4096 = 0" "b \<noteq> FAILED_ADDR" using base_okD [OF assms(5)] by simp_all
  have len: "length (sector_hdr_bytes SECTOR_NOT_COMBINED) = 16" by (simp add: sector_hdr_bytes_def set_status_def)
  have "mem_repr ?m (S(b := ?c))"
    by (rule mem_repr_upd [OF assms(1,5)]) (auto simp: sector_formatted program_out len erase_def)
  moreover have "sec_cache_ok ((tails S)(b := None)) ?s'"
    using sec_cache_update [of "tails S" "s\<lparr>cells := ?m\<rparr>" b "b + 4096"] assms(2) al by (simp add: sec_cache_ok_def)
  moreover have "(tails S)(b := None) = tails (S(b := ?c))" by (rule ext) (simp add: tails_def)
  ultimately have "repr ?s' (S(b := ?c))" using assms(3,4) by (simp add: repr_def)
  moreover have "format_sector b SECTOR_NOT_COMBINED s = (EF_NO_ERR, ?s')"
    using assms(3) al by (simp add: format_sector_def on_ok_def ef_port_erase_def ef_port_write_def ef_assert_def)
  ultimately show ?thesis by simp
qed

end
