(* ===== verification/EfGc.thy ===== *)
theory EfGc
  imports EfWrite
begin

text \<open>
  Garbage collection: \<open>gc_collect\<close> moves the live nodes of the dirty sector, in order, to the
  empty one and formats the old sector; nothing live is lost and the name cache stays right.
\<close>

unbundle bit_operations_syntax

section \<open>Areas with one sector in use\<close>

abbreviation (input) erased_sect :: sect where
  "erased_sect \<equiv> \<lparr>sst = 0x7F, sdt = 0x7F, snds = []\<rparr>"

definition one :: "nat \<Rightarrow> sect \<Rightarrow> area" where
  "one b c = (\<lambda>_. erased_sect)(b := c)"

text \<open>A sector that only receives nodes.\<close>

definition packed :: "enode list \<Rightarrow> sect" where
  "packed L = (if L = [] then erased_sect else \<lparr>sst = 0x3F, sdt = 0x7F, snds = L\<rparr>)"

definition gc_area :: "nat \<Rightarrow> sect \<Rightarrow> nat \<Rightarrow> enode list \<Rightarrow> area" where
  "gc_area c X b L = (one c X)(b := packed L)"

definition oth :: "nat \<Rightarrow> nat" where
  "oth b = 4096 - b"

lemma oth_props: "base_ok b \<Longrightarrow> base_ok (oth b) \<and> oth b \<noteq> b"
  by (auto simp: base_ok_def oth_def)

lemma base_cases: "base_ok a \<Longrightarrow> base_ok b \<Longrightarrow> a = b \<or> a = oth b"
  by (auto simp: base_ok_def oth_def)

lemma packed_simps [simp]:
  "snds (packed L) = L" "sdt (packed L) = 0x7F" "sst (packed L) = (if L = [] then 0x7F else 0x3F)"
  by (simp_all add: packed_def)

lemma one_simps [simp]: "one b c b = c" "a \<noteq> b \<Longrightarrow> one b c a = erased_sect" "(one b c)(b := d) = one b d"
  by (simp_all add: one_def)

lemma gc_area_simps [simp]:
  "gc_area c X b L b = packed L" "c \<noteq> b \<Longrightarrow> gc_area c X b L c = X"
  "c \<noteq> b \<Longrightarrow> (gc_area c X b L)(c := Y) = gc_area c Y b L" "(gc_area c X b L)(b := packed L') = gc_area c X b L'"
  by (auto simp: gc_area_def one_def)

lemma gc_area_start: "c \<noteq> b \<Longrightarrow> gc_area c X b [] = one c X"
  by (auto simp: gc_area_def one_def packed_def)

lemma gc_area_end: "c \<noteq> b \<Longrightarrow> gc_area c erased_sect b L = one b (packed L)"
  by (auto simp: gc_area_def one_def)

text \<open>The statuses nodes have between operations: live, or deleted in one step or in two.\<close>

definition settled :: "enode \<Rightarrow> bool" where
  "settled nd \<longleftrightarrow> stb nd = 0x3F \<or> stb nd = 0x0F \<or> stb nd = 0x2F"

lemma settled_live: "settled nd \<Longrightarrow> live nd \<longleftrightarrow> stb nd = 0x3F"
  by (auto simp: settled_def live_def)

text \<open>An entry of the name cache points to a live node with a name of that checksum.\<close>

definition cached :: "area \<Rightarrow> u16 \<Rightarrow> nat \<Rightarrow> bool" where
  "cached S r a \<longleftrightarrow> (\<exists>b i. base_ok b \<and> i < length (snds (S b)) \<and> a = tail_of b (take i (snds (S b))) \<and>
     live (snds (S b) ! i) \<and> crc_of_name (nm (snds (S b) ! i)) = r)"

lemma cachedE:
  assumes "cached S r a"
  obtains b i where "base_ok b" "i < length (snds (S b))" "a = tail_of b (take i (snds (S b)))"
    "live (snds (S b) ! i)" "crc_of_name (nm (snds (S b) ! i)) = r"
  using assms by (auto simp: cached_def)

lemma cachedI:
  "base_ok b \<Longrightarrow> i < length (snds (S b)) \<Longrightarrow> a = tail_of b (take i (snds (S b))) \<Longrightarrow> live (snds (S b) ! i) \<Longrightarrow>
   crc_of_name (nm (snds (S b) ! i)) = r \<Longrightarrow> cached S r a"
  unfolding cached_def by blast

lemma nsize_take_update: "nlen x = nlen (nds ! j) \<Longrightarrow> j < length nds \<Longrightarrow> nsize (take i (nds[j := x])) = nsize (take i nds)"
proof (induction nds arbitrary: i j)
  case (Cons nd nds)
  then show ?case by (cases i; cases j) auto
qed simp

lemma nsize_update: "nlen x = nlen (nds ! j) \<Longrightarrow> j < length nds \<Longrightarrow> nsize (nds[j := x]) = nsize nds"
  using nsize_take_update [of x nds j "length nds"] by simp

text \<open>Changing one node touches no entry of another checksum; appending touches none.\<close>

lemma cached_change:
  assumes "cached S r a" "snds (S b) = xs @ nd # ys" "r \<noteq> crc_of_name (nm nd)" "snds c = xs @ nd' # ys" "nlen nd' = nlen nd"
  shows "cached (S(b := c)) r a"
proof -
  have u: "snds c = (snds (S b))[length xs := nd']" "snds (S b) ! length xs = nd" "length xs < length (snds (S b))"
    using assms(2,4) by (simp_all add: list_update_append)
  from assms(1) obtain b0 i where i: "base_ok b0" "i < length (snds (S b0))" "a = tail_of b0 (take i (snds (S b0)))"
    "live (snds (S b0) ! i)" "crc_of_name (nm (snds (S b0) ! i)) = r" by (rule cachedE)
  show ?thesis
  proof (cases "b0 = b")
    case True
    with i(5) assms(3) u(2) have "i \<noteq> length xs" by auto
    with True i u assms(5) show ?thesis
      by (intro cachedI [where b = b and i = i]) (auto simp: nsize_take_update)
  next
    case False
    with i show ?thesis by (intro cachedI [where b = b0 and i = i]) auto
  qed
qed

lemma cached_append:
  assumes "cached S r a" "snds c = snds (S b) @ zs"
  shows "cached (S(b := c)) r a"
proof -
  from assms(1) obtain b0 i where i: "base_ok b0" "i < length (snds (S b0))" "a = tail_of b0 (take i (snds (S b0)))"
    "live (snds (S b0) ! i)" "crc_of_name (nm (snds (S b0) ! i)) = r" by (rule cachedE)
  then show ?thesis using assms(2)
    by (intro cachedI [where b = b0 and i = i]) (auto simp: nth_append)
qed

lemma cached_here:
  "base_ok b \<Longrightarrow> snds (S b) = xs @ nd # ys \<Longrightarrow> live nd \<Longrightarrow> cached S (crc_of_name (nm nd)) (tail_of b xs)"
  by (intro cachedI [where b = b and i = "length xs"]) auto

lemma env_cache_tableD: "env_cache_table s' = env_cache_table s \<Longrightarrow> env_cache_ok P s' = env_cache_ok P s"
  by (simp add: env_cache_ok_def)

section \<open>Moving a node\<close>

lemma room_in_gc:
  assumes "base_ok c" "b = oth c" "get_status [sdt X] 4 = 3" "n < 4080 - nsize L"
  shows "room_in (gc_area c X b L) n True = Some b"
proof -
  have b: "base_ok b" "b \<noteq> c" using oth_props [OF assms(1)] assms(2) by auto
  let ?S = "gc_area c X b L"
  have nc: "\<not> fits ?S n True c" and fb: "fits ?S n True b" using assms b by (auto simp: fits_def)
  have "c = 0 \<and> b = 4096 \<or> c = 4096 \<and> b = 0" using assms(1,2) by (auto simp: base_ok_def oth_def)
  then show ?thesis using nc fb by (cases "L = []") (auto simp: room_in_def pick_def has_store_def)
qed

lemma used_gc:
  assumes "base_ok c" "b = oth c" "snds X \<noteq> []"
  shows "used (gc_area c X b L)"
  unfolding used_def
proof (intro allI impI)
  fix a
  assume a: "base_ok a" "sst (gc_area c X b L a) \<noteq> 0x7F"
  have "b \<noteq> c" using oth_props [OF assms(1)] assms(2) by simp
  then show "snds (gc_area c X b L a) \<noteq> []"
    using a assms(2,3) base_cases [OF a(1) assms(1)] by (auto split: if_splits)
qed

lemma restatus_move: "stb nd = 0x3F \<Longrightarrow> stb (restatus 0xEF (restatus 0xDF nd)) = 0x0F"
  by simp

lemma move_env_ok:
  assumes "repr s (gc_area c X b L)" "base_ok c" "b = oth c" "snds X = xs @ nd # ys" "sst X \<noteq> 0x7F" "get_status [sdt X] 4 = 3"
    "stb nd = 0x3F" "nsize L + nlen nd \<le> 3928" "gc_request s" "\<not> in_recovery_check s"
    "env_cache_ok (cached (gc_area c X b L)) s"
  shows "\<exists>s'. move_env (node_obj (tail_of c xs) nd) s = (EF_NO_ERR, s') \<and>
    repr s' (gc_area c (X\<lparr>snds := xs @ restatus 0xEF (restatus 0xDF nd) # ys\<rparr>) b (L @ [nd])) \<and>
    env_cache_ok (cached (gc_area c (X\<lparr>snds := xs @ restatus 0xEF (restatus 0xDF nd) # ys\<rparr>) b (L @ [nd]))) s' \<and>
    gc_request s' \<and> \<not> in_recovery_check s' \<and> ef_init_ok s' = ef_init_ok s \<and> \<not> last_is_complete_del s'"
proof -
  have b: "base_ok b" "b \<noteq> c" using oth_props [OF assms(2)] assms(3) by auto
  let ?S = "gc_area c X b L" and ?a = "tail_of b L"
  let ?X1 = "X\<lparr>snds := xs @ restatus 0xDF nd # ys\<rparr>"
  let ?S1 = "gc_area c ?X1 b L"
  let ?X2 = "X\<lparr>snds := xs @ restatus 0xEF (restatus 0xDF nd) # ys\<rparr>"
  have dt: "dirtied (sdt X) = sdt X" using assms(6) by (simp add: dirtied_def)
  have st: "nd_status (node_obj (tail_of c xs) nd) = 2" using assms(7) by (simp add: node_obj_def)
  obtain s1 where d1: "del_env_at (nm nd) (tail_of c xs) False s = (EF_NO_ERR, s1)" "repr s1 ?S1" "last_is_complete_del s1"
      "gc_request s1" "ef_init_ok s1 = ef_init_ok s" "\<not> in_recovery_check s1" "env_cache_table s1 = env_cache_table s"
    using del_env_at_ok [OF assms(1,2), of xs nd ys "nm nd" False] assms(4,9,10) b dt by (auto simp: sect_upd)
  have us: "used ?S1"
    using used_gc [OF assms(2,3)] by simp
  have rm: "room_in ?S1 (nlen nd) (gc_request s1) = Some b"
    using room_in_gc [OF assms(2,3), of ?X1 "nlen nd" L] assms(6,8) d1(4) by simp
  obtain sec s2 where al: "alloc_env sector0 (nlen nd) s1 = (?a, sec, s2)" "repr s2 ?S1" "meta_ok ?S1 b sec" "but_cache s1 s2"
    using alloc_env_ok [OF d1(2) us, of sector0 "nlen nd"] rm by auto
  note bc = but_cacheD [OF al(4)]
  have lt: "nlen nd < 4080 - nsize (snds (?S1 b))" using assms(8) by simp
  have sb: "sst (?S1 b) \<noteq> 0x1F" by simp
  have sc: "snds (?S1 c) = xs @ restatus 0xDF nd # ys" using b by simp
  have fr: "Enode 0x3F (nm nd) (vl nd) = nd" using assms(7) by (cases nd) simp
  have app: "appended ?S1 b nd = gc_area c ?X1 b (L @ [nd])"
  proof -
    have "store_after (packed L) (nlen nd) = 0x3F" using assms(8) by (auto simp: store_after_def)
    then have "\<lparr>sst = store_after (?S1 b) (nlen nd), sdt = sdt (?S1 b), snds = snds (?S1 b) @ [nd]\<rparr> = packed (L @ [nd])"
      by (simp add: packed_def)
    then show ?thesis by (simp add: appended_def)
  qed
  obtain s3 where cp: "copy_env (node_obj (tail_of c xs) nd) ?a sec s2 = (EF_NO_ERR, s3)" "repr s3 (gc_area c ?X1 b (L @ [nd]))"
      "gc_request s3" "last_is_complete_del s3" "ef_init_ok s3 = ef_init_ok s" "\<not> in_recovery_check s3"
      "env_cache_table s3 = env_cache_table (update_env_cache (nm nd) ?a s2)"
    using copy_env_ok [OF al(2) b(1) meta_place [OF al(3)] sb assms(2) sc, of nd] lt bc d1 fr app by auto
  have sc3: "snds (gc_area c ?X1 b (L @ [nd]) c) = xs @ restatus 0xDF nd # ys" using b by simp
  obtain s4 where d2: "del_env_at (nm nd) (tail_of c xs) True s3 = (EF_NO_ERR, s4)" "repr s4 (gc_area c ?X2 b (L @ [nd]))"
      "\<not> last_is_complete_del s4" "gc_request s4" "ef_init_ok s4 = ef_init_ok s" "\<not> in_recovery_check s4" "env_cache_table s4 = env_cache_table s3"
    using del_env_at_ok [OF cp(2) assms(2) sc3, of "nm nd" True] cp(3-6) b dt by (auto simp: sect_upd)
  have aF: "?a \<noteq> FAILED_ADDR" using assms(8) base_okD [OF b(1)] by auto
  have mv: "move_env (node_obj (tail_of c xs) nd) s = (EF_NO_ERR, s4)"
    using st d1 al(1) cp(1) d2(1) aF bc by (simp add: move_env_def node_obj_def Let_def)
  have "env_cache_ok (cached ?S) s2" using assms(11) bc d1(7) by (simp add: env_cache_ok_def)
  from env_cache_add [OF this aF, of "nm nd"]
  have "env_cache_ok (\<lambda>r a. if r = crc_of_name (nm nd) then a = ?a else cached ?S r a) s4"
    using cp(7) d2(7) by (simp add: env_cache_ok_def)
  then have "env_cache_ok (cached (gc_area c ?X2 b (L @ [nd]))) s4"
  proof (rule env_cache_mono)
    fix r a
    assume h: "if r = crc_of_name (nm nd) then a = ?a else cached ?S r a"
    show "cached (gc_area c ?X2 b (L @ [nd])) r a"
    proof (cases "r = crc_of_name (nm nd)")
      case True
      have "live nd" using assms(7) by (simp add: live_def)
      with True h b cached_here [of b "gc_area c ?X2 b (L @ [nd])" L nd "[]"] show ?thesis by simp
    next
      case False
      with h have "cached ?S r a" by simp
      moreover have "snds (?S c) = xs @ nd # ys" using assms(4) b by simp
      ultimately have "cached (?S(c := ?X2)) r a" using False by (rule cached_change [where nd' = "restatus 0xEF (restatus 0xDF nd)"]) simp_all
      then have "cached ((?S(c := ?X2))(b := packed (L @ [nd]))) r a" by (rule cached_append [where zs = "[nd]"]) (use b in simp)
      then show ?thesis using b by simp
    qed
  qed
  with mv d2 show ?thesis by simp
qed

section \<open>The loop over the old sector\<close>

abbreviation lsize :: "enode list \<Rightarrow> nat" where
  "lsize nds \<equiv> nsize (filter live nds)"

lemma get_next_len:
  "nlen nd' = nlen nd \<Longrightarrow> get_next_env_addr sec (node_obj p nd') s = get_next_env_addr sec (node_obj p nd) s"
  by (simp add: get_next_env_addr_def node_obj_def)

lemma gc_body_dead: "settled nd \<Longrightarrow> \<not> live nd \<Longrightarrow> gc_body (node_obj p nd) x s = (False, x, s)"
  by (auto simp: gc_body_def node_obj_def settled_def live_def)

lemma gc_body_live: "live nd \<Longrightarrow> gc_body (node_obj p nd) x s = (False, x, snd (move_env (node_obj p nd) s))"
  by (simp add: gc_body_def node_obj_def live_def)

lemma gc_loop:
  assumes "repr s (gc_area c \<lparr>sst = st, sdt = dt, snds = pre @ nds\<rparr> b L)" "base_ok c" "b = oth c" "st \<noteq> 0x7F" "get_status [dt] 4 = 3"
    "\<forall>nd\<in>set nds. settled nd" "\<forall>nd\<in>set pre. \<not> live nd" "nsize L + lsize nds \<le> 3928" "gc_request s" "\<not> in_recovery_check s"
    "\<not> last_is_complete_del s" "env_cache_ok (cached (gc_area c \<lparr>sst = st, sdt = dt, snds = pre @ nds\<rparr> b L)) s"
    "sm_addr sec = c" "sm_store sec \<noteq> 1" "get_next_env_addr sec env s = (if nds = [] then FAILED_ADDR else tail_of c pre)"
  shows "\<exists>e s' pre'. env_loop sec gc_body env () s = (False, e, (), s') \<and>
    repr s' (gc_area c \<lparr>sst = st, sdt = dt, snds = pre'\<rparr> b (L @ filter live nds)) \<and> (\<forall>nd\<in>set pre'. \<not> live nd) \<and>
    env_cache_ok (cached (gc_area c \<lparr>sst = st, sdt = dt, snds = pre'\<rparr> b (L @ filter live nds))) s' \<and>
    gc_request s' \<and> \<not> in_recovery_check s' \<and> ef_init_ok s' = ef_init_ok s \<and> \<not> last_is_complete_del s'"
  using assms(1,6-12,15)
proof (induction nds arbitrary: pre L s env)
  case Nil
  then show ?case by (auto simp: env_loop_end intro!: exI [of _ pre])
next
  case (Cons nd nds)
  have b: "base_ok b" "b \<noteq> c" using oth_props [OF assms(2)] assms(3) by auto
  let ?p = "tail_of c pre"
  let ?X = "\<lparr>sst = st, sdt = dt, snds = pre @ nd # nds\<rparr> :: sect"
  have sec: "sector_at (cells s) c st dt (pre @ nd # nds)" using repr_sector [OF Cons.prems(1) assms(2)] b by simp
  then have nd: "at (cells s) ?p (node_bytes nd)" "wf_node nd" and sz: "16 + nsize (pre @ nd # nds) \<le> 4096"
    by (auto simp: sector_at_def)
  have p: "?p \<noteq> FAILED_ADDR" using sz base_okD [OF assms(2)] by simp
  have "\<exists>s1 nd1. gc_body (node_obj ?p nd) () s = (False, (), s1) \<and> \<not> live nd1 \<and> nlen nd1 = nlen nd \<and>
      repr s1 (gc_area c \<lparr>sst = st, sdt = dt, snds = pre @ nd1 # nds\<rparr> b (L @ filter live [nd])) \<and>
      env_cache_ok (cached (gc_area c \<lparr>sst = st, sdt = dt, snds = pre @ nd1 # nds\<rparr> b (L @ filter live [nd]))) s1 \<and>
      gc_request s1 \<and> \<not> in_recovery_check s1 \<and> ef_init_ok s1 = ef_init_ok s \<and> \<not> last_is_complete_del s1"
  proof (cases "live nd")
    case True
    have st: "stb nd = 0x3F" using True Cons.prems(2) settled_live [of nd] by simp
    let ?nd1 = "restatus 0xEF (restatus 0xDF nd)"
    have dead: "\<not> live ?nd1" using st by (simp add: live_def)
    have cap: "nsize L + nlen nd \<le> 3928" using Cons.prems(4) True by simp
    have X: "snds ?X = pre @ nd # nds" "sst ?X \<noteq> 0x7F" "get_status [sdt ?X] 4 = 3" using assms(4,5) by simp_all
    from move_env_ok [OF Cons.prems(1) assms(2,3) X st cap Cons.prems(5,6,8)]
    obtain s1 where s1: "move_env (node_obj ?p nd) s = (EF_NO_ERR, s1)"
        "repr s1 (gc_area c \<lparr>sst = st, sdt = dt, snds = pre @ ?nd1 # nds\<rparr> b (L @ filter live [nd]))"
        "env_cache_ok (cached (gc_area c \<lparr>sst = st, sdt = dt, snds = pre @ ?nd1 # nds\<rparr> b (L @ filter live [nd]))) s1"
        "gc_request s1 \<and> \<not> in_recovery_check s1 \<and> ef_init_ok s1 = ef_init_ok s \<and> \<not> last_is_complete_del s1"
      using True by auto
    with dead gc_body_live [OF True] show ?thesis by (intro exI [of _ s1] exI [of _ ?nd1]) simp
  next
    case False
    with Cons.prems show ?thesis by (auto simp: gc_body_dead intro!: exI [of _ nd])
  qed
  then obtain s1 nd1 where g: "gc_body (node_obj ?p nd) () s = (False, (), s1)" "\<not> live nd1" "nlen nd1 = nlen nd"
      "repr s1 (gc_area c \<lparr>sst = st, sdt = dt, snds = (pre @ [nd1]) @ nds\<rparr> b (L @ filter live [nd]))"
      "env_cache_ok (cached (gc_area c \<lparr>sst = st, sdt = dt, snds = (pre @ [nd1]) @ nds\<rparr> b (L @ filter live [nd]))) s1"
      "gc_request s1" "\<not> in_recovery_check s1" "ef_init_ok s1 = ef_init_ok s" "\<not> last_is_complete_del s1"
    by auto
  have sec1: "sector_at (cells s1) c st dt (pre @ nd1 # nds)" using repr_sector [OF g(4) assms(2)] b by simp
  let ?S1 = "gc_area c \<lparr>sst = st, sdt = dt, snds = (pre @ [nd1]) @ nds\<rparr> b (L @ filter live [nd])"
  have t: "sec_cache_ok (tails ?S1) s1" "tails_ok (tails ?S1) c (pre @ nd1 # nds)"
    using g(4) tails_ok_tails [of ?S1 c] b by (simp_all add: repr_def)
  have nx: "get_next_env_addr sec (node_obj ?p nd) s1 = (if nds = [] then FAILED_ADDR else tail_of c (pre @ [nd1]))"
    using get_next_after [OF assms(2) sec1 t assms(13,14)] get_next_len [OF g(3)] g(3) by (simp add: add.assoc)
  have stp: "env_loop sec gc_body env () s = env_loop sec gc_body (node_obj ?p nd) () s1"
    using env_loop_step [of sec env s ?p nd gc_body "()" False "()" s1] Cons.prems(9) nd p g(1) by simp
  have dead: "\<forall>nd\<in>set (pre @ [nd1]). \<not> live nd" using Cons.prems(3) g(2) by simp
  have cap: "nsize (L @ filter live [nd]) + lsize nds \<le> 3928" using Cons.prems(4) by (cases "live nd") simp_all
  have stl: "\<forall>nd\<in>set nds. settled nd" using Cons.prems(2) by simp
  have ft: "(L @ filter live [nd]) @ filter live nds = L @ filter live (nd # nds)" by simp
  from Cons.IH [OF g(4) stl dead cap g(6,7,9,5) nx] g(8) show ?case unfolding stp ft by auto
qed

lemma do_gc_ok:
  assumes "repr s (one c X)" "base_ok c" "b = oth c" "sst X \<noteq> 0x7F" "snds X \<noteq> []" "sdt X = 0x3F"
    "\<forall>nd\<in>set (snds X). settled nd" "lsize (snds X) \<le> 3928" "gc_request s" "\<not> in_recovery_check s" "\<not> last_is_complete_del s"
    "env_cache_ok (cached (one c X)) s"
  shows "\<exists>s'. do_gc (sec_meta c (sst X) (sdt X) sec) () s = (False, (), s') \<and> repr s' (one b (packed (filter live (snds X)))) \<and>
    env_cache_ok (cached (one b (packed (filter live (snds X))))) s' \<and>
    gc_request s' \<and> \<not> in_recovery_check s' \<and> ef_init_ok s' = ef_init_ok s \<and> \<not> last_is_complete_del s'"
proof -
  have b: "base_ok b" "b \<noteq> c" using oth_props [OF assms(2)] assms(3) by auto
  let ?sec = "sec_meta c (sst X) (sdt X) sec" and ?L = "filter live (snds X)"
  let ?s1 = "s\<lparr>cells := program (c + 1) [0xDF] (cells s)\<rparr>"
  let ?X1 = "\<lparr>sst = sst X, sdt = 0x1F, snds = [] @ snds X\<rparr> :: sect"
  have w: "write_status (c + 1) 4 3 s = (EF_NO_ERR, ?s1)" using repr_chip [OF assms(1)] by (simp add: write_status_eq)
  have eq: "one c ?X1 = gc_area c ?X1 b []" using gc_area_start b by simp
  have r1: "repr ?s1 (gc_area c ?X1 b [])"
    using repr_dirty [OF assms(1,2), of "0xDF"] assms(6) b(2) [symmetric] by (simp add: gc_area_start sect_upd)
  have "cached (gc_area c ?X1 b []) = cached (one c X)"
    unfolding eq [symmetric] by (intro ext) (auto simp: cached_def one_def split: if_splits)
  then have ec: "env_cache_ok (cached (gc_area c ?X1 b [])) ?s1" using assms(12) by (simp add: env_cache_ok_def)
  have st: "sm_store ?sec \<noteq> 1"
    using repr_store [OF assms(1,2)] assms(4) by (metis one_simps(1) numeral_eq_one_iff sec_meta_simps(4) semiring_norm(85,86) store_status(2,3))
  have nx: "get_next_env_addr ?sec obj0 ?s1 = (if snds X = [] then FAILED_ADDR else tail_of c [])"
    using st assms(5) by (simp add: get_next_first obj0_def)
  obtain e s2 pre' where g: "env_loop ?sec gc_body obj0 () ?s1 = (False, e, (), s2)"
      "repr s2 (gc_area c \<lparr>sst = sst X, sdt = 0x1F, snds = pre'\<rparr> b ?L)" "\<forall>nd\<in>set pre'. \<not> live nd"
      "env_cache_ok (cached (gc_area c \<lparr>sst = sst X, sdt = 0x1F, snds = pre'\<rparr> b ?L)) s2"
      "gc_request s2" "\<not> in_recovery_check s2" "ef_init_ok s2 = ef_init_ok s" "\<not> last_is_complete_del s2"
    using gc_loop [OF r1 assms(2,3,4) _ assms(7) _ _ _ _ _ ec _ st nx] assms(8-11) by auto
  let ?S2 = "gc_area c \<lparr>sst = sst X, sdt = 0x1F, snds = pre'\<rparr> b ?L"
  obtain s3 where f: "format_sector c SECTOR_NOT_COMBINED s2 = (EF_NO_ERR, s3)" "repr s3 (?S2(c := erased_sect))"
      "gc_request s3" "\<not> last_is_complete_del s3" "ef_init_ok s3 = ef_init_ok s" "\<not> in_recovery_check s3" "env_cache_table s3 = env_cache_table s2"
    using format_sector_ok [of s2 ?S2 c] g(2,5-8) assms(2) by (auto simp: repr_def)
  have fin: "?S2(c := erased_sect) = one b (packed ?L)" using b gc_area_end [of c b ?L] by simp
  have "env_cache_ok (cached (one b (packed ?L))) s2"
  proof (rule env_cache_mono [OF g(4)])
    fix r a
    assume "cached ?S2 r a"
    then obtain b0 i where i: "base_ok b0" "i < length (snds (?S2 b0))" "a = tail_of b0 (take i (snds (?S2 b0)))"
      "live (snds (?S2 b0) ! i)" "crc_of_name (nm (snds (?S2 b0) ! i)) = r" by (rule cachedE)
    have "b0 \<noteq> c" using i(2,4) g(3) b by (metis gc_area_simps(2) nth_mem sect.select_convs(3))
    then have "b0 = b" using base_cases [OF i(1) assms(2)] assms(3) by simp
    with i show "cached (one b (packed ?L)) r a" by (intro cachedI [where b = b and i = i]) auto
  qed
  then have "env_cache_ok (cached (one b (packed ?L))) s3" using f(7) by (simp add: env_cache_ok_def)
  moreover have "do_gc ?sec () s = (False, (), s3)"
    using w g(1) f(1) assms(6) by (simp add: do_gc_def)
  ultimately show ?thesis using f fin by simp
qed

section \<open>The whole collection\<close>

lemma count_one:
  assumes "base_ok b" "sst X \<noteq> 0x7F" "repr s (one b X)"
  shows "count (has_store (one b X) 1) = 1" "count (has_store (one b X) 2) = (if sst X = 0x3F then 1 else 0)"
proof -
  have "sst X = 0x3F \<or> sst X = 0x1F" using repr_store [OF assms(3,1)] assms(2) by auto
  moreover have "b = 0 \<or> b = 4096" using assms(1) by (simp add: base_ok_def)
  ultimately show "count (has_store (one b X) 1) = 1" "count (has_store (one b X) 2) = (if sst X = 0x3F then 1 else 0)"
    by (auto simp: count_def has_store_def)
qed

lemma gc_check_iter:
  assumes "repr s S"
  shows "\<exists>sec'. sector_iterator sec 1 0 gc_check_cb False s = (sec', count (has_store S 1), s)"
proof -
  let ?sec1 = "sec_meta 0 (sst (S 0)) (sdt (S 0)) (sec\<lparr>sm_addr := FAILED_ADDR\<rparr>)"
  let ?x1 = "if has_store S 1 0 then 1 else 0 :: nat"
  have t0: "sector_turn 1 gc_check_cb False 0 (sec\<lparr>sm_addr := FAILED_ADDR\<rparr>) 0 s = (False, ?sec1, ?x1, s)"
    by (simp add: turn_plain [OF assms base_ok_01(1)] gc_check_cb_def has_store_def)
  have t1: "sector_turn 1 gc_check_cb False 4096 ?sec1 ?x1 s =
      (False, sec_meta 4096 (sst (S 4096)) (sdt (S 4096)) ?sec1, count (has_store S 1), s)"
    by (simp add: turn_plain [OF assms base_ok_01(2)] gc_check_cb_def has_store_def count_def)
  show ?thesis using sector_iterator_turns [OF t0 _ t1] by simp
qed

lemma do_gc_clean: "get_status [dt] 4 = 1 \<Longrightarrow> do_gc (sec_meta a st dt sec) x s = (False, x, s)"
  by (simp add: do_gc_def)

text \<open>A collection of the one sector in use, which is dirty.\<close>

lemma gc_collect_ok:
  assumes "repr s (one c X)" "base_ok c" "sst X \<noteq> 0x7F" "snds X \<noteq> []" "sdt X = 0x3F"
    "\<forall>nd\<in>set (snds X). settled nd" "lsize (snds X) \<le> 3928" "gc_request s" "\<not> in_recovery_check s" "\<not> last_is_complete_del s"
    "env_cache_ok (cached (one c X)) s"
  shows "repr (gc_collect s) (one (oth c) (packed (filter live (snds X)))) \<and>
    env_cache_ok (cached (one (oth c) (packed (filter live (snds X))))) (gc_collect s) \<and>
    \<not> gc_request (gc_collect s) \<and> \<not> in_recovery_check (gc_collect s) \<and> ef_init_ok (gc_collect s) = ef_init_ok s \<and>
    \<not> last_is_complete_del (gc_collect s)"
proof -
  let ?S' = "one (oth c) (packed (filter live (snds X)))" and ?S = "one c X"
  obtain sec1 where ck: "sector_iterator sector0 1 0 gc_check_cb False s = (sec1, 1, s)"
    using gc_check_iter [OF assms(1), of sector0] count_one [OF assms(2,3,1)] by auto
  have d: "\<exists>s'. do_gc (sec_meta c (sst X) (sdt X) sec) () s = (False, (), s') \<and> repr s' ?S' \<and> env_cache_ok (cached ?S') s' \<and>
      gc_request s' \<and> \<not> in_recovery_check s' \<and> ef_init_ok s' = ef_init_ok s \<and> \<not> last_is_complete_del s'" for sec
    using do_gc_ok [OF assms(1,2) refl assms(3-11)] .
  have "\<exists>sec2 s'. sector_iterator sector0 0 () do_gc False s = (sec2, (), s') \<and> repr s' ?S' \<and> env_cache_ok (cached ?S') s' \<and>
      gc_request s' \<and> \<not> in_recovery_check s' \<and> ef_init_ok s' = ef_init_ok s \<and> \<not> last_is_complete_del s'"
  proof (cases "c = 0")
    case True
    let ?sec0 = "sec_meta 0 (sst X) (sdt X) (sector0\<lparr>sm_addr := FAILED_ADDR\<rparr>)"
    from d [of "sector0\<lparr>sm_addr := FAILED_ADDR\<rparr>"] True obtain s' where s': "do_gc ?sec0 () s = (False, (), s')" "repr s' ?S'" "env_cache_ok (cached ?S') s'"
      "gc_request s' \<and> \<not> in_recovery_check s' \<and> ef_init_ok s' = ef_init_ok s \<and> \<not> last_is_complete_del s'" by auto
    have t0: "sector_turn 0 do_gc False 0 (sector0\<lparr>sm_addr := FAILED_ADDR\<rparr>) () s = (False, ?sec0, (), s')"
      using s'(1) True by (simp add: turn_plain [OF assms(1) base_ok_01(1)])
    have t1: "sector_turn 0 do_gc False 4096 ?sec0 () s' = (False, sec_meta 4096 (sst (?S' 4096)) 0x7F ?sec0, (), s')"
      using True by (simp add: turn_plain [OF s'(2) base_ok_01(2)] oth_def do_gc_clean)
    show ?thesis using sector_iterator_turns [OF t0 _ t1] s' by simp
  next
    case False
    then have c: "c = 4096" using assms(2) by (simp add: base_ok_def)
    let ?sec0 = "sec_meta 0 0x7F 0x7F (sector0\<lparr>sm_addr := FAILED_ADDR\<rparr>)"
    from d [of ?sec0] c obtain s' where s': "do_gc (sec_meta 4096 (sst X) (sdt X) ?sec0) () s = (False, (), s')" "repr s' ?S'" "env_cache_ok (cached ?S') s'"
      "gc_request s' \<and> \<not> in_recovery_check s' \<and> ef_init_ok s' = ef_init_ok s \<and> \<not> last_is_complete_del s'" by auto
    have t0: "sector_turn 0 do_gc False 0 (sector0\<lparr>sm_addr := FAILED_ADDR\<rparr>) () s = (False, ?sec0, (), s)"
      using c by (simp add: turn_plain [OF assms(1) base_ok_01(1)] do_gc_clean)
    have t1: "sector_turn 0 do_gc False 4096 ?sec0 () s = (False, sec_meta 4096 (sst X) (sdt X) ?sec0, (), s')"
      using s'(1) c by (simp add: turn_plain [OF assms(1) base_ok_01(2)])
    show ?thesis using sector_iterator_turns [OF t0 _ t1] s' by simp
  qed
  then obtain sec2 s' where it: "sector_iterator sector0 0 () do_gc False s = (sec2, (), s')" "repr s' ?S'" "env_cache_ok (cached ?S') s'"
      "gc_request s' \<and> \<not> in_recovery_check s' \<and> ef_init_ok s' = ef_init_ok s \<and> \<not> last_is_complete_del s'" by blast
  have "gc_collect s = s'\<lparr>gc_request := False\<rparr>" using ck it(1) by (simp add: gc_collect_def)
  with it show ?thesis by (simp add: repr_flags env_cache_ok_def)
qed

end
