(* ===== verification/EfStore.thy ===== *)
theory EfStore
  imports EfGc
begin

text \<open>
  The ENV area as a store: what \<open>ef_get_env\<close>, \<open>ef_set_env\<close> and \<open>ef_del_env\<close> do to the names and
  values the flash holds, between operations and including the garbage collections they trigger.
\<close>

unbundle bit_operations_syntax

section \<open>What the flash holds\<close>

definition good_keys :: "u8 list set \<Rightarrow> bool" where
  "good_keys K \<longleftrightarrow> inj_on crc_of_name K \<and> (\<forall>k\<in>K. 0 \<notin> set k \<and> length k \<le> EF_ENV_NAME_MAX)"

text \<open>A sector between operations: erased, or in use, dirty as soon as a node is dead, with distinct live names.\<close>

definition sect_ok :: "u8 list set \<Rightarrow> sect \<Rightarrow> bool" where
  "sect_ok K c \<longleftrightarrow> (c = packed [] \<or> snds c \<noteq> [] \<and> sst c = 0x3F \<and> (sdt c = 0x3F \<or> sdt c = 0x7F \<and> (\<forall>nd\<in>set (snds c). live nd))) \<and>
     (\<forall>nd\<in>set (snds c). settled nd \<and> nm nd \<in> K) \<and> distinct (map nm (filter live (snds c)))"

definition at_rest :: "ef_flash \<Rightarrow> bool" where
  "at_rest s \<longleftrightarrow> \<not> gc_request s \<and> \<not> last_is_complete_del s \<and> \<not> in_recovery_check s \<and> ef_init_ok s"

definition holds :: "u8 list set \<Rightarrow> nat \<Rightarrow> sect \<Rightarrow> ef_flash \<Rightarrow> bool" where
  "holds K b c s \<longleftrightarrow> base_ok b \<and> sect_ok K c \<and> repr s (one b c) \<and> env_cache_ok (cached (one b c)) s \<and> at_rest s"

lemma holdsD:
  assumes "holds K b c s"
  shows "base_ok b" "sect_ok K c" "repr s (one b c)" "env_cache_ok (cached (one b c)) s" "at_rest s"
  using assms by (simp_all add: holds_def)

lemma used_one: "sect_ok K c \<Longrightarrow> used (one b c)"
  by (auto simp: used_def one_def sect_ok_def)

lemma names_in_one: "good_keys K \<Longrightarrow> sect_ok K c \<Longrightarrow> names_in K (one b c)"
  by (auto simp: names_in_def one_def good_keys_def sect_ok_def)

section \<open>Finding\<close>

lemma locate_Some:
  "locate key p nds = Some (q, nd) \<Longrightarrow> \<exists>xs ys. nds = xs @ nd # ys \<and> q = p + nsize xs \<and> live nd \<and> nm nd = key"
proof (induction nds arbitrary: p)
  case (Cons x nds)
  show ?case
  proof (cases "live x \<and> nm x = key")
    case True
    with Cons.prems show ?thesis by (intro exI [of _ "[]"] exI [of _ nds]) auto
  next
    case False
    with Cons.prems have "locate key (p + nlen x) nds = Some (q, nd)" by auto
    from Cons.IH [OF this] obtain xs ys where "nds = xs @ nd # ys" "q = p + nlen x + nsize xs" "live nd" "nm nd = key" by blast
    then show ?thesis by (intro exI [of _ "x # xs"] exI [of _ ys]) auto
  qed
qed simp

lemma locate_None: "locate key p nds = None \<Longrightarrow> nd \<in> set nds \<Longrightarrow> live nd \<Longrightarrow> nm nd \<noteq> key"
  by (induction nds arbitrary: p) (auto split: if_splits)

lemma locate_one:
  assumes "base_ok b"
  shows "locate_area key (one b c) = locate key (b + 16) (snds c)"
  using assms by (auto simp: locate_area_def base_ok_def one_def split: option.split)

text \<open>The node a checksum leads to.\<close>

lemma cached_one:
  assumes "cached (one b c) r a" "base_ok b"
  obtains xs nd ys where "snds c = xs @ nd # ys" "a = tail_of b xs" "live nd" "crc_of_name (nm nd) = r"
proof -
  from assms(1) obtain b0 i where i: "base_ok b0" "i < length (snds (one b c b0))" "a = tail_of b0 (take i (snds (one b c b0)))"
    "live (snds (one b c b0) ! i)" "crc_of_name (nm (snds (one b c b0) ! i)) = r" by (rule cachedE)
  have "b0 = b" using i(2) by (cases "b0 = b") simp_all
  with i have *: "i < length (snds c)" "a = tail_of b (take i (snds c))" "live (snds c ! i)" "crc_of_name (nm (snds c ! i)) = r" by simp_all
  show ?thesis using id_take_nth_drop [OF *(1)] *(2-4) by (rule that)
qed

lemma update_env_cache_only: "\<exists>t. update_env_cache k a s = s\<lparr>env_cache_table := t\<rparr>"
  by (rule exI [of _ "env_cache_table (update_env_cache k a s)"], rule ef_flash.equality) simp_all

lemma find_env_ok:
  assumes "repr s (one b c)" "base_ok b" "env_cache_ok (cached (one b c)) s" "sect_ok K c" "good_keys K" "key \<in> K"
  shows "\<exists>t. env_cache_ok (cached (one b c)) (s\<lparr>env_cache_table := t\<rparr>) \<and>
    ((\<exists>xs nd ys. snds c = xs @ nd # ys \<and> live nd \<and> nm nd = key \<and>
        find_env key obj0 s = (True, node_obj (tail_of b xs) nd, s\<lparr>env_cache_table := t\<rparr>)) \<or>
     (\<forall>nd\<in>set (snds c). live nd \<longrightarrow> nm nd \<noteq> key) \<and> (\<exists>e. find_env key obj0 s = (False, e, s\<lparr>env_cache_table := t\<rparr>)))"
proof -
  obtain r s1 where g: "get_env_from_cache key s = (r, s1)" by (cases "get_env_from_cache key s")
  note gc = get_env_from_cache_ok [OF assms(3) g]
  obtain t where t: "s1 = s\<lparr>env_cache_table := t\<rparr>" using gc(1) by blast
  have r1: "repr s1 (one b c)" using assms(1) t by (simp add: repr_flags)
  show ?thesis
  proof (cases r)
    case (Some a)
    from cached_one [OF gc(3) [OF Some] assms(2)] obtain xs nd ys
      where nd: "snds c = xs @ nd # ys" "a = tail_of b xs" "live nd" "crc_of_name (nm nd) = crc_of_name key" by metis
    have "nm nd \<in> K" using assms(4) nd(1) by (simp add: sect_ok_def)
    then have nm: "nm nd = key" using nd(4) assms(5,6) by (auto simp: good_keys_def dest: inj_onD)
    have at: "at (cells s1) a (node_bytes nd)" "wf_node nd"
      using repr_sector [OF r1 assms(2)] nd(1,2) by (auto simp: sector_at_def)
    have "find_env key obj0 s = (True, node_obj a nd, s1)"
      using g Some read_env_node [of s1 "obj0\<lparr>nd_start := a\<rparr>" nd] at by (simp add: find_env_def)
    with t nd nm gc(2) show ?thesis by blast
  next
    case None
    obtain e where f: "find_env_no_cache key obj0 s1 = (case locate key (b + 16) (snds c) of Some (q, nd) \<Rightarrow> (True, node_obj q nd, s1) | None \<Rightarrow> (False, e, s1))"
      using find_env_no_cache_ok [OF r1 used_one [OF assms(4)] names_in_one [OF assms(5,4)], of key obj0] assms(5,6) locate_one [OF assms(2)]
      by (auto simp: good_keys_def)
    show ?thesis
    proof (cases "locate key (b + 16) (snds c)")
      case None': None
      have "find_env key obj0 s = (False, e, s1)" using g None f None' by (simp add: find_env_def)
      with t gc(2) locate_None [OF None'] show ?thesis by blast
    next
      case (Some x)
      obtain q nd where x: "x = (q, nd)" by (cases x)
      from locate_Some [of key "b + 16" "snds c" q nd] Some x obtain xs ys
        where nd: "snds c = xs @ nd # ys" "q = tail_of b xs" "live nd" "nm nd = key" by auto
      have q: "q \<noteq> FAILED_ADDR" using in_sector [OF r1 assms(2), of xs nd ys] nd base_okD [OF assms(2)] by auto
      let ?s2 = "update_env_cache key q s1"
      have "find_env key obj0 s = (True, node_obj q nd, ?s2)"
        using g None f Some x by (simp add: find_env_def node_obj_def)
      moreover obtain t' where "?s2 = s\<lparr>env_cache_table := t'\<rparr>"
        using t update_env_cache_only [of key q s1] by auto
      moreover have "env_cache_ok (cached (one b c)) ?s2"
      proof (rule env_cache_mono [OF env_cache_add [OF gc(2) q, of key]])
        fix r a
        assume "if r = crc_of_name key then a = q else cached (one b c) r a"
        then show "cached (one b c) r a"
          using cached_here [of b "one b c" xs nd ys] nd assms(2) by (auto split: if_splits)
      qed
      ultimately show ?thesis using nd by metis
    qed
  qed
qed

section \<open>Making room\<close>

lemma one_empty: "one b (packed []) = one a (packed [])"
  by (simp add: one_def packed_def fun_eq_iff)

lemma sect_ok_cases:
  assumes "sect_ok K c"
  obtains (erased) "c = packed []" | (in_use) "snds c \<noteq> []" "sst c = 0x3F" "sdt c = 0x3F \<or> sdt c = 0x7F \<and> (\<forall>nd\<in>set (snds c). live nd)"
  using assms by (auto simp: sect_ok_def)

lemma sect_ok_packed: "sect_ok K c \<Longrightarrow> sect_ok K (packed (filter live (snds c)))"
  by (auto simp: sect_ok_def packed_def)

lemma lsize_all: "\<forall>nd\<in>set nds. live nd \<Longrightarrow> lsize nds = nsize nds"
  by (metis filter_True)

lemma lsize_le: "lsize nds \<le> nsize nds"
  by (induction nds) auto

lemma room_in_one:
  assumes "base_ok b" "snds c \<noteq> []" "sst c = 0x3F" "sdt c = 0x3F \<or> sdt c = 0x7F"
  shows "room_in (one b c) n False = (if n < 4080 - nsize (snds c) then Some b else None)"
proof -
  have "has_store (one b c) 2 a \<longleftrightarrow> a = b" "has_store (one b c) 1 a \<longleftrightarrow> a \<noteq> b" for a
    using assms(3) by (simp_all add: has_store_def one_def)
  moreover have "fits (one b c) n False b \<longleftrightarrow> n < 4080 - nsize (snds c)" using assms(4) by (auto simp: fits_def)
  moreover have "b = 0 \<or> b = 4096" using assms(1) by (simp add: base_ok_def)
  ultimately show ?thesis by (elim disjE) (simp_all add: room_in_def pick_def count_def)
qed

lemma room_in_erased: "n < 4080 \<Longrightarrow> room_in (one b (packed [])) n False = Some 0"
  by (simp add: room_in_def pick_def count_def has_store_def fits_def one_def packed_def)

lemma holds_cache:
  assumes "holds K b c s" "but_cache s s'" "repr s' (one b c)"
  shows "holds K b c s'"
  using assms but_cacheD [OF assms(2)] by (simp add: holds_def at_rest_def)

lemma alloc_hold:
  assumes "holds K b c s" "n < 4080 - nsize (snds c)"
  shows "\<exists>b' sec s'. alloc_env sec0 n s = (tail_of b' (snds c), sec, s') \<and> holds K b' c s' \<and> place_ok (one b' c) b' sec"
proof -
  have gc: "\<not> gc_request s" using assms(1) by (simp add: holds_def at_rest_def)
  obtain b' where b': "holds K b' c s" "room_in (one b' c) n False = Some b'"
    using holdsD(2) [OF assms(1)]
  proof (cases rule: sect_ok_cases)
    case erased
    have "holds K 0 c s" using assms(1) base_ok_01(1) one_empty [of b 0] unfolding erased holds_def by simp
    then show ?thesis using that room_in_erased assms(2) erased by simp
  next
    case in_use
    then show ?thesis using that assms room_in_one [OF holdsD(1) [OF assms(1)]] by auto
  qed
  with alloc_env_ok [OF holdsD(3) [OF b'(1)] used_one [OF holdsD(2) [OF b'(1)]], of sec0 n] gc
  obtain sec s' where "alloc_env sec0 n s = (tail_of b' (snds c), sec, s')" "repr s' (one b' c)" "meta_ok (one b' c) b' sec" "but_cache s s'"
    by auto
  with b'(1) show ?thesis by (blast intro: holds_cache meta_place)
qed

lemma gc_hold:
  assumes "sect_ok K c" "base_ok b" "repr s (one b c')" "snds c' = snds c" "sst c' \<noteq> 0x7F" "snds c \<noteq> []" "sdt c' = 0x3F"
    "lsize (snds c) \<le> 3928" "gc_request s" "\<not> in_recovery_check s" "\<not> last_is_complete_del s" "ef_init_ok s"
    "env_cache_ok (cached (one b c')) s"
  shows "holds K (oth b) (packed (filter live (snds c))) (gc_collect s)"
proof -
  have "\<forall>nd\<in>set (snds c'). settled nd" using assms(1,4) by (simp add: sect_ok_def)
  with gc_collect_ok [OF assms(3,2,5) _ assms(7) _ _ assms(9-11,13)] assms oth_props [OF assms(2)] sect_ok_packed [OF assms(1)]
  show ?thesis by (simp add: holds_def at_rest_def)
qed

lemma new_env_ok:
  assumes "holds K b c s" "lsize (snds c) + n \<le> 3928"
  shows "\<exists>b' c' sec s'. new_env sec0 n s = (tail_of b' (snds c'), sec, s') \<and> holds K b' c' s' \<and> place_ok (one b' c') b' sec \<and>
    filter live (snds c') = filter live (snds c) \<and> n < 4080 - nsize (snds c')"
proof (cases "n < 4080 - nsize (snds c)")
  case True
  from alloc_hold [OF assms(1) this, of sec0] obtain b' sec s' where
    a: "alloc_env sec0 n s = (tail_of b' (snds c), sec, s')" "holds K b' c s'" "place_ok (one b' c) b' sec" by blast
  have "tail_of b' (snds c) \<noteq> FAILED_ADDR"
    using pick_None_tail [OF holdsD(3,1) [OF a(2)]] by simp
  then have "new_env sec0 n s = (tail_of b' (snds c), sec, s')" using a(1) by (simp add: new_env_def)
  with a True show ?thesis by blast
next
  case False
  note h = holdsD [OF assms(1)]
  have fl: "\<not> gc_request s" "\<not> last_is_complete_del s" "\<not> in_recovery_check s" "ef_init_ok s" using h(5) by (simp_all add: at_rest_def)
  have nl: "\<not> (\<forall>nd\<in>set (snds c). live nd)"
  proof
    assume "\<forall>nd\<in>set (snds c). live nd"
    from lsize_all [OF this] False assms(2) show False by linarith
  qed
  then have c: "snds c \<noteq> []" "sst c = 0x3F" "sdt c = 0x3F" using h(2) by (auto simp: sect_ok_def)
  have rm: "room_in (one b c) n (gc_request s) = None" using room_in_one [OF h(1) c(1,2)] c(3) False fl by simp
  have cnt: "count (has_store (one b c) 1) = 1" using count_one [OF h(1) _ h(3)] c(2) by simp
  obtain sec1 s1 where a: "alloc_env sec0 n s = (FAILED_ADDR, sec1, s1)" "repr s1 (one b c)" "but_cache (s\<lparr>gc_request := True\<rparr>) s1"
    using alloc_env_ok [OF h(3) used_one [OF h(2)], of sec0 n] rm cnt by auto
  note bc = but_cacheD [OF a(3)]
  let ?c = "packed (filter live (snds c))"
  have "holds K (oth b) ?c (gc_collect s1)"
    using gc_hold [OF h(2,1) a(2) refl] c bc fl h(4) assms(2) by (simp add: env_cache_ok_def)
  moreover have fit: "n < 4080 - nsize (snds ?c)" using assms(2) by simp
  ultimately obtain b' sec s' where
    a2: "alloc_env sec1 n (gc_collect s1) = (tail_of b' (snds ?c), sec, s')" "holds K b' ?c s'" "place_ok (one b' ?c) b' sec"
    using alloc_hold [of K "oth b" ?c "gc_collect s1" n sec1] by blast
  have "new_env sec0 n s = (tail_of b' (snds ?c), sec, s')" using a(1) a2(1) bc by (simp add: new_env_def)
  moreover have "filter live (snds ?c) = filter live (snds c)" by simp
  ultimately show ?thesis using a2 fit by blast
qed

section \<open>Setting\<close>

lemma holds_env_cache:
  assumes "holds K b c s" "env_cache_ok (cached (one b c)) (s\<lparr>env_cache_table := t\<rparr>)"
  shows "holds K b c (s\<lparr>env_cache_table := t\<rparr>)"
  using assms by (simp add: holds_def at_rest_def repr_flags)

text \<open>After a write the sector may be full; the collection at the end of \<open>set_env\<close> then runs.\<close>

lemma collect_if_full:
  assumes "sect_ok K (c\<lparr>sst := 0x3F\<rparr>)" "snds c \<noteq> []" "base_ok b" "repr s (one b c)" "env_cache_ok (cached (one b c)) s"
    "sst c = 0x3F \<or> sst c = 0x1F \<and> 3928 < nsize (snds c)" "lsize (snds c) \<le> 3928"
    "gc_request s \<longleftrightarrow> sst c = 0x1F" "\<not> in_recovery_check s" "\<not> last_is_complete_del s" "ef_init_ok s"
  shows "\<exists>b' c'. holds K b' c' (if gc_request s then gc_collect s else s) \<and> filter live (snds c') = filter live (snds c)"
proof (cases "sst c = 0x1F")
  case True
  with assms(6) have "3928 < nsize (snds c)" by auto
  with assms(7) lsize_all [of "snds c"] have "\<not> (\<forall>nd\<in>set (snds c). live nd)" by linarith
  with assms(1,2) have "sdt c = 0x3F" by (cases c) (auto simp: sect_ok_def packed_def)
  with gc_hold [OF assms(1,3,4)] assms True have "holds K (oth b) (packed (filter live (snds c))) (gc_collect s)" by simp
  then show ?thesis using True assms(8) by (intro exI [of _ "oth b"] exI [of _ "packed (filter live (snds c))"]) simp
next
  case False
  with assms have "c\<lparr>sst := 0x3F\<rparr> = c" by (cases c) simp
  with False assms have "holds K b c s" by (simp add: holds_def at_rest_def)
  then show ?thesis using False assms(8) by auto
qed

definition store_of :: "enode list \<Rightarrow> u8 list \<Rightarrow> u8 list option" where
  "store_of nds = map_of (map (\<lambda>nd. (nm nd, vl nd)) (filter live nds))"

lemma create_placed:
  assumes "place_ok S b sec" "length key \<le> 128" "24 + length key + length v \<le> 4080" "tail_of b (snds (S b)) \<noteq> FAILED_ADDR"
  shows "create_env_blob sec key v s = write_env_node sec (tail_of b (snds (S b))) key v s"
  using assms by (simp add: create_env_blob_def place_ok_def)

text \<open>The new node is known to the cache, the other entries are kept.\<close>

lemma cache_written:
  assumes "env_cache_ok (cached S) s" "env_cache_table s' = env_cache_table (update_env_cache key a s)" "a \<noteq> FAILED_ADDR"
    "cached S' (crc_of_name key) a" "\<And>r x. r \<noteq> crc_of_name key \<Longrightarrow> cached S r x \<Longrightarrow> cached S' r x"
  shows "env_cache_ok (cached S') s'"
proof -
  have "env_cache_ok (\<lambda>r x. if r = crc_of_name key then x = a else cached S r x) s'"
    using env_cache_add [OF assms(1,3), of key] assms(2) by (simp add: env_cache_ok_def)
  then show ?thesis by (rule env_cache_mono) (use assms(4,5) in \<open>auto split: if_splits\<close>)
qed

lemma appended_one: "appended (one b c) b nd = one b \<lparr>sst = store_after c (nlen nd), sdt = sdt c, snds = snds c @ [nd]\<rparr>"
  by (simp add: appended_def)

lemma store_after_cases:
  "store_after c n = 0x3F \<or> store_after c n = 0x1F \<and> sst c \<noteq> 0x7F \<and> 3928 < nsize (snds c) + n"
  by (auto simp: store_after_def)

lemma set_fresh:
  assumes "holds K b c s" "good_keys K" "key \<in> K" "place_ok (one b c) b sec" "n = 24 + length key + length v"
    "n < 4080 - nsize (snds c)" "lsize (snds c) + n \<le> 3928" "\<forall>nd\<in>set (snds c). live nd \<longrightarrow> nm nd \<noteq> key"
  shows "\<exists>s2 b' c'. create_env_blob sec key v s = (EF_NO_ERR, s2) \<and> holds K b' c' (if gc_request s2 then gc_collect s2 else s2) \<and>
    filter live (snds c') = filter live (snds c) @ [Enode 0x3F key v]"
proof -
  let ?nd = "Enode 0x3F key v" and ?a = "tail_of b (snds c)"
  let ?c2 = "\<lparr>sst = store_after c n, sdt = sdt c, snds = snds c @ [?nd]\<rparr> :: sect"
  note h = holdsD [OF assms(1)]
  have len: "nlen ?nd = n" using assms(5) by (simp add: nlen_def)
  have key: "length key \<le> 128" using assms(2,3) by (simp add: good_keys_def)
  have wf: "wf_node ?nd" using len key assms(6) by (simp add: wf_node_def)
  have st: "sst c = 0x7F \<or> sst c = 0x3F" using h(2) by (auto simp: sect_ok_def)
  have aF: "?a \<noteq> FAILED_ADDR" using pick_None_tail [OF h(3,1)] by simp
  have "sst (one b c b) \<noteq> 0x1F" "nlen ?nd < 4080 - nsize (snds (one b c b))" using st len assms(6) by auto
  from write_env_node_ok [OF h(3,1) assms(4) this(1) wf this(2)] obtain s2 where
    w: "write_env_node sec ?a key v s = (EF_NO_ERR, s2)" "repr s2 (one b ?c2)"
      "gc_request s2 = (gc_request s \<or> sst c \<noteq> 0x7F \<and> store_after c n = 0x1F)" "last_is_complete_del s2 = last_is_complete_del s"
      "ef_init_ok s2 = ef_init_ok s" "in_recovery_check s2 = in_recovery_check s" "env_cache_table s2 = env_cache_table (update_env_cache key ?a s)"
    by (auto simp: appended_one len)
  have "create_env_blob sec key v s = (EF_NO_ERR, s2)"
    using create_placed [OF assms(4) key, of v s] w(1) aF assms(5,6) by simp
  moreover have "env_cache_ok (cached (one b ?c2)) s2"
  proof (rule cache_written [OF h(4) w(7) aF])
    show "cached (one b ?c2) (crc_of_name key) ?a"
      using cached_here [of b "one b ?c2" "snds c" ?nd "[]"] h(1) by (simp add: live_def)
    show "cached (one b ?c2) r x" if "cached (one b c) r x" for r x
      using cached_append [OF that, of ?c2 b "[?nd]"] by simp
  qed
  moreover have "sect_ok K (?c2\<lparr>sst := 0x3F\<rparr>)"
    using h(2) assms(3,8) by (auto simp: sect_ok_def live_def settled_def packed_def)
  moreover have "sst ?c2 = 0x3F \<or> sst ?c2 = 0x1F \<and> 3928 < nsize (snds ?c2)" using store_after_cases [of c n] len by auto
  moreover have "lsize (snds ?c2) \<le> 3928" using assms(7) len by (simp add: live_def)
  moreover have "gc_request s2 \<longleftrightarrow> sst ?c2 = 0x1F" using w(3) h(5) store_after_cases [of c n] by (auto simp: at_rest_def)
  moreover have "\<not> in_recovery_check s2" "\<not> last_is_complete_del s2" "ef_init_ok s2" using w(4-6) h(5) by (simp_all add: at_rest_def)
  moreover have "snds ?c2 \<noteq> []" by simp
  ultimately obtain b' c' where "holds K b' c' (if gc_request s2 then gc_collect s2 else s2)" "filter live (snds c') = filter live (snds ?c2)"
    using collect_if_full [of K ?c2 b s2] h(1) w(2) by blast
  then show ?thesis using \<open>create_env_blob sec key v s = (EF_NO_ERR, s2)\<close>
    by (intro exI [of _ s2] exI [of _ b'] exI [of _ c']) (simp add: live_def)
qed

lemma sect_ok_replace:
  assumes "sect_ok K c" "snds c = xs @ nd # ys" "live nd" "nm nd \<in> K" "settled nd'" "\<not> live nd'" "nm nd' = nm nd"
  shows "sect_ok K \<lparr>sst = 0x3F, sdt = 0x3F, snds = (xs @ nd' # ys) @ [Enode 0x3F (nm nd) v]\<rparr>"
proof -
  have "\<forall>x\<in>set (xs @ nd # ys). settled x \<and> nm x \<in> K" "distinct (map nm (filter live (xs @ nd # ys)))"
    using assms(1,2) by (simp_all add: sect_ok_def)
  then have "\<forall>x\<in>set ((xs @ nd' # ys) @ [Enode 0x3F (nm nd) v]). settled x \<and> nm x \<in> K"
      "distinct (map nm (filter live ((xs @ nd' # ys) @ [Enode 0x3F (nm nd) v])))"
    using assms(3-7) by (auto simp: settled_def live_def)
  then show ?thesis by (simp add: sect_ok_def)
qed

lemma set_replace:
  assumes "holds K b c s" "good_keys K" "place_ok (one b c) b sec" "snds c = xs @ nd # ys" "live nd" "n = 24 + length (nm nd) + length v"
    "n < 4080 - nsize (snds c)" "lsize (snds c) + n \<le> 3928"
  shows "\<exists>s1 s2 s3 b' c'. del_env_at (nm nd) (tail_of b xs) False s = (EF_NO_ERR, s1) \<and> create_env_blob sec (nm nd) v s1 = (EF_NO_ERR, s2) \<and>
    del_env_at (nm nd) (tail_of b xs) True s2 = (EF_NO_ERR, s3) \<and> holds K b' c' (if gc_request s3 then gc_collect s3 else s3) \<and>
    filter live (snds c') = filter live (xs @ ys) @ [Enode 0x3F (nm nd) v]"
proof -
  let ?k = "nm nd" and ?a = "tail_of b (snds c)" and ?nd1 = "restatus 0xDF nd" and ?new = "Enode 0x3F (nm nd) v"
  let ?nd2 = "restatus 0xEF ?nd1"
  note h = holdsD [OF assms(1)]
  have K: "settled nd" "nm nd \<in> K" using h(2) assms(4) by (simp_all add: sect_ok_def)
  have nd: "stb nd = 0x3F" using K(1) assms(5) settled_live by simp
  have fl: "\<not> gc_request s" "\<not> last_is_complete_del s" "\<not> in_recovery_check s" "ef_init_ok s" using h(5) by (simp_all add: at_rest_def)
  have c: "sst c = 0x3F" "dirtied (sdt c) = 0x3F" using h(2) assms(4) by (auto simp: sect_ok_def dirtied_def)
  have dd: "dirtied 0x3F = 0x3F" by (simp add: dirtied_def)
  let ?c1 = "\<lparr>sst = 0x3F, sdt = 0x3F, snds = xs @ ?nd1 # ys\<rparr> :: sect"
  let ?c2 = "\<lparr>sst = store_after ?c1 n, sdt = 0x3F, snds = xs @ ?nd1 # ys @ [?new]\<rparr> :: sect"
  let ?c3 = "\<lparr>sst = store_after ?c1 n, sdt = 0x3F, snds = xs @ ?nd2 # ys @ [?new]\<rparr> :: sect"
  obtain s1 where d1: "del_env_at ?k (tail_of b xs) False s = (EF_NO_ERR, s1)" "repr s1 (one b ?c1)" "last_is_complete_del s1"
      "\<not> gc_request s1" "ef_init_ok s1" "\<not> in_recovery_check s1" "env_cache_table s1 = env_cache_table s"
    using del_env_at_ok [OF h(3,1), of xs nd ys ?k False] assms(4) c fl by auto
  have sz: "nsize (snds ?c1) = nsize (snds c)" using assms(4) by simp
  have pl: "place_ok (one b ?c1) b sec" using assms(3) sz c(1) by (simp add: place_ok_def)
  have len: "nlen ?new = n" using assms(6) by (simp add: nlen_def)
  have key: "length ?k \<le> 128" using assms(2) K(2) by (simp add: good_keys_def)
  have wf: "wf_node ?new" using len key assms(7) by (simp add: wf_node_def)
  have aF: "?a \<noteq> FAILED_ADDR" using pick_None_tail [OF h(3,1)] by simp
  have a1: "tail_of b (snds (one b ?c1 b)) = ?a" using sz by simp
  have "sst (one b ?c1 b) \<noteq> 0x1F" "nlen ?new < 4080 - nsize (snds (one b ?c1 b))" using len assms(7) sz by simp_all
  from write_env_node_ok [OF d1(2) h(1) pl this(1) wf this(2)] obtain s2 where
    w: "write_env_node sec ?a ?k v s1 = (EF_NO_ERR, s2)" "repr s2 (one b ?c2)" "gc_request s2 = (store_after ?c1 n = 0x1F)"
      "last_is_complete_del s2" "ef_init_ok s2" "\<not> in_recovery_check s2" "env_cache_table s2 = env_cache_table (update_env_cache ?k ?a s1)"
    using d1 unfolding a1 by (auto simp: appended_one len)
  have cr: "create_env_blob sec ?k v s1 = (EF_NO_ERR, s2)"
    using create_placed [OF pl key, of v s1] w(1) aF assms(6,7) a1 by simp
  have "snds (one b ?c2 b) = xs @ ?nd1 # (ys @ [?new])" by simp
  from del_env_at_ok [OF w(2) h(1) this, of ?k True] obtain s3 where
    d2: "del_env_at ?k (tail_of b xs) True s2 = (EF_NO_ERR, s3)" "repr s3 (one b ?c3)" "\<not> last_is_complete_del s3" "gc_request s3 = gc_request s2"
      "ef_init_ok s3" "\<not> in_recovery_check s3" "env_cache_table s3 = env_cache_table s2"
    using w dd by auto
  have nd2: "stb ?nd2 = 0x0F" using nd by simp
  have ec: "env_cache_ok (cached (one b ?c3)) s3"
  proof (rule cache_written [OF h(4) _ aF, of s3 ?k])
    show "env_cache_table s3 = env_cache_table (update_env_cache ?k ?a s)"
      using d2(7) w(7) env_cache_table_same [OF d1(7)] by simp
    have "?a = tail_of b (xs @ ?nd2 # ys)" using assms(4) by simp
    then show "cached (one b ?c3) (crc_of_name ?k) ?a"
      using cached_here [of b "one b ?c3" "xs @ ?nd2 # ys" ?new "[]"] h(1) by (simp add: live_def)
    fix r x
    assume r: "r \<noteq> crc_of_name ?k" "cached (one b c) r x"
    have "cached ((one b c)(b := \<lparr>sst = 0, sdt = 0, snds = xs @ ?nd2 # ys\<rparr>)) r x"
      by (rule cached_change [OF r(2) _ r(1), of b xs ys _ ?nd2]) (simp_all add: assms(4))
    then have "cached (one b \<lparr>sst = 0, sdt = 0, snds = xs @ ?nd2 # ys\<rparr>) r x" by simp
    from cached_append [OF this, of ?c3 b "[?new]"] show "cached (one b ?c3) r x" by simp
  qed
  have lv: "filter live (snds ?c3) = filter live (xs @ ys) @ [?new]" using nd2 by (simp add: live_def)
  have "sect_ok K (?c3\<lparr>sst := 0x3F\<rparr>)"
    using sect_ok_replace [OF h(2) assms(4,5) K(2), of ?nd2 v] nd2 by (simp add: settled_def live_def)
  moreover have "sst ?c3 = 0x3F \<or> sst ?c3 = 0x1F \<and> 3928 < nsize (snds ?c3)" using store_after_cases [of ?c1 n] len by auto
  moreover have "lsize (snds ?c3) \<le> 3928" using assms(4,5,8) len unfolding lv by simp
  moreover have "gc_request s3 \<longleftrightarrow> sst ?c3 = 0x1F" using d2(4) w(3) by simp
  moreover have "snds ?c3 \<noteq> []" by simp
  ultimately obtain b' c' where "holds K b' c' (if gc_request s3 then gc_collect s3 else s3)" "filter live (snds c') = filter live (snds ?c3)"
    using collect_if_full [of K ?c3 b s3] h(1) d2(2,3,5,6) ec by blast
  then show ?thesis using d1(1) cr d2(1) lv
    by (intro exI [of _ s1] exI [of _ s2] exI [of _ s3] exI [of _ b'] exI [of _ c']) simp
qed

lemma others_split:
  assumes "distinct (map nm (filter live (xs @ nd # ys)))" "live nd"
  shows "filter (\<lambda>x. nm x \<noteq> nm nd) (filter live (xs @ nd # ys)) = filter live (xs @ ys)"
proof -
  define A B where "A = filter live xs" "B = filter live ys"
  have e: "filter live (xs @ nd # ys) = A @ nd # B" using assms(2) by (simp add: A_B_def)
  have "filter (\<lambda>x. nm x \<noteq> nm nd) A = A" "filter (\<lambda>x. nm x \<noteq> nm nd) B = B"
    using assms(1) unfolding e by (auto intro!: filter_True) (metis image_eqI)+
  then have "filter (\<lambda>x. nm x \<noteq> nm nd) (A @ nd # B) = A @ B" by simp
  then show ?thesis unfolding e by (simp add: A_B_def)
qed

lemma set_env_ok:
  assumes "holds K b c s" "good_keys K" "key \<in> K" "lsize (snds c) + 24 + length key + length v \<le> 3928"
  shows "\<exists>s' b' c'. set_env key (Some v) s = (EF_NO_ERR, s') \<and> holds K b' c' s' \<and>
    filter live (snds c') = filter (\<lambda>nd. nm nd \<noteq> key) (filter live (snds c)) @ [Enode 0x3F key v]"
proof -
  let ?n = "24 + length key + length v"
  obtain b1 c1 sec s1 where n: "new_env sector0 ?n s = (tail_of b1 (snds c1), sec, s1)" "holds K b1 c1 s1" "place_ok (one b1 c1) b1 sec"
      "filter live (snds c1) = filter live (snds c)" "?n < 4080 - nsize (snds c1)"
    using new_env_ok [OF assms(1), of ?n sector0] assms(4) by (auto simp: add.assoc)
  note h = holdsD [OF n(2)]
  have aF: "tail_of b1 (snds c1) \<noteq> FAILED_ADDR" using pick_None_tail [OF h(3,1)] by simp
  have cap: "lsize (snds c1) + ?n \<le> 3928" using assms(4) n(4) by simp
  have nk: "new_env_by_kv sector0 (length key) (length v) s = (tail_of b1 (snds c1), sec, s1)"
    using n(1) by (simp add: new_env_by_kv_def)
  from find_env_ok [OF h(3,1,4,2) assms(2,3)] obtain t where t: "env_cache_ok (cached (one b1 c1)) (s1\<lparr>env_cache_table := t\<rparr>)"
    "(\<exists>xs nd ys. snds c1 = xs @ nd # ys \<and> live nd \<and> nm nd = key \<and>
        find_env key obj0 s1 = (True, node_obj (tail_of b1 xs) nd, s1\<lparr>env_cache_table := t\<rparr>)) \<or>
     (\<forall>nd\<in>set (snds c1). live nd \<longrightarrow> nm nd \<noteq> key) \<and> (\<exists>e. find_env key obj0 s1 = (False, e, s1\<lparr>env_cache_table := t\<rparr>))" by blast
  let ?s1 = "s1\<lparr>env_cache_table := t\<rparr>"
  have h1: "holds K b1 c1 ?s1" by (rule holds_env_cache [OF n(2) t(1)])
  from t(2) show ?thesis
  proof (elim disjE exE conjE)
    fix e
    assume no: "\<forall>nd\<in>set (snds c1). live nd \<longrightarrow> nm nd \<noteq> key" and f: "find_env key obj0 s1 = (False, e, ?s1)"
    from set_fresh [OF h1 assms(2,3) n(3) refl n(5) cap no] obtain s2 b' c' where
      r: "create_env_blob sec key v ?s1 = (EF_NO_ERR, s2)" "holds K b' c' (if gc_request s2 then gc_collect s2 else s2)"
        "filter live (snds c') = filter live (snds c1) @ [Enode 0x3F key v]" by blast
    have "filter (\<lambda>nd. nm nd \<noteq> key) (filter live (snds c1)) = filter live (snds c1)" using no by (intro filter_True) auto
    moreover have "set_env key (Some v) s = (EF_NO_ERR, if gc_request s2 then gc_collect s2 else s2)"
      using nk aF f r(1) by (simp add: set_env_def on_ok_def)
    ultimately show ?thesis using r n(4) by metis
  next
    fix xs nd ys
    assume nd: "snds c1 = xs @ nd # ys" "live nd" "nm nd = key" and f: "find_env key obj0 s1 = (True, node_obj (tail_of b1 xs) nd, ?s1)"
    from set_replace [OF h1 assms(2) n(3) nd(1,2), of ?n v] n(5) cap nd(3) obtain s2 s3 s4 b' c' where
      r: "del_env_at key (tail_of b1 xs) False ?s1 = (EF_NO_ERR, s2)" "create_env_blob sec key v s2 = (EF_NO_ERR, s3)"
        "del_env_at key (tail_of b1 xs) True s3 = (EF_NO_ERR, s4)" "holds K b' c' (if gc_request s4 then gc_collect s4 else s4)"
        "filter live (snds c') = filter live (xs @ ys) @ [Enode 0x3F key v]" by auto
    have "distinct (map nm (filter live (xs @ nd # ys)))" using h(2) nd(1) by (simp add: sect_ok_def)
    from others_split [OF this nd(2)] have "filter (\<lambda>nd. nm nd \<noteq> key) (filter live (xs @ nd # ys)) = filter live (xs @ ys)"
      using nd(3) by simp
    moreover have "set_env key (Some v) s = (EF_NO_ERR, if gc_request s4 then gc_collect s4 else s4)"
      using nk aF f r(1-3) by (simp add: set_env_def on_ok_def node_obj_def)
    ultimately show ?thesis using r n(4) nd(1) by metis
  qed
qed

section \<open>Deleting and reading\<close>

lemma del_env_ok:
  assumes "holds K b c s" "good_keys K" "key \<in> K"
  shows "\<exists>s' c'. del_env key True s = (if \<exists>nd\<in>set (snds c). live nd \<and> nm nd = key then EF_NO_ERR else EF_ENV_NAME_ERR, s') \<and> holds K b c' s' \<and>
    filter live (snds c') = filter (\<lambda>nd. nm nd \<noteq> key) (filter live (snds c))"
proof -
  note h = holdsD [OF assms(1)]
  from find_env_ok [OF h(3,1,4,2) assms(2,3)] obtain t where t: "env_cache_ok (cached (one b c)) (s\<lparr>env_cache_table := t\<rparr>)"
    "(\<exists>xs nd ys. snds c = xs @ nd # ys \<and> live nd \<and> nm nd = key \<and>
        find_env key obj0 s = (True, node_obj (tail_of b xs) nd, s\<lparr>env_cache_table := t\<rparr>)) \<or>
     (\<forall>nd\<in>set (snds c). live nd \<longrightarrow> nm nd \<noteq> key) \<and> (\<exists>e. find_env key obj0 s = (False, e, s\<lparr>env_cache_table := t\<rparr>))" by blast
  let ?s = "s\<lparr>env_cache_table := t\<rparr>"
  have h1: "holds K b c ?s" by (rule holds_env_cache [OF assms(1) t(1)])
  from t(2) show ?thesis
  proof (elim disjE exE conjE)
    fix e
    assume no: "\<forall>nd\<in>set (snds c). live nd \<longrightarrow> nm nd \<noteq> key" and f: "find_env key obj0 s = (False, e, ?s)"
    have "filter (\<lambda>nd. nm nd \<noteq> key) (filter live (snds c)) = filter live (snds c)" using no by (intro filter_True) auto
    with no f h1 show ?thesis by (intro exI [of _ ?s] exI [of _ c]) (auto simp: del_env_def)
  next
    fix xs nd ys
    assume nd: "snds c = xs @ nd # ys" "live nd" "nm nd = key" and f: "find_env key obj0 s = (True, node_obj (tail_of b xs) nd, ?s)"
    let ?nd = "restatus 0xEF nd"
    let ?c = "\<lparr>sst = 0x3F, sdt = 0x3F, snds = xs @ ?nd # ys\<rparr> :: sect"
    have all: "\<forall>x\<in>set (xs @ nd # ys). settled x \<and> nm x \<in> K" and dst: "distinct (map nm (filter live (xs @ nd # ys)))"
      using h(2) nd(1) by (simp_all add: sect_ok_def)
    have "stb nd = 0x3F" using all nd(2) settled_live [of nd] by simp
    then have nd': "stb ?nd = 0x2F" by simp
    have c: "sst c = 0x3F" "dirtied (sdt c) = 0x3F" using h(2) nd(1) by (auto simp: sect_ok_def dirtied_def)
    have fl: "\<not> gc_request s" "\<not> last_is_complete_del s" "\<not> in_recovery_check s" "ef_init_ok s" using h(5) by (simp_all add: at_rest_def)
    have nb: "snds (one b c b) = xs @ nd # ys" using nd(1) by simp
    obtain s' where d: "del_env_at key (tail_of b xs) True ?s = (EF_NO_ERR, s')" "repr s' (one b ?c)" "at_rest s'"
        "env_cache_table s' = env_cache_table (update_env_cache key FAILED_ADDR ?s)"
      using del_env_at_ok [OF holdsD(3) [OF h1] h(1) nb, of key True] c fl by (auto simp: at_rest_def)
    have "env_cache_ok (\<lambda>r a. r \<noteq> crc_of_name key \<and> cached (one b c) r a) s'"
      using env_cache_del [OF t(1), of key] d(4) by (simp add: env_cache_ok_def)
    then have "env_cache_ok (cached (one b ?c)) s'"
    proof (rule env_cache_mono)
      fix r a
      assume r: "r \<noteq> crc_of_name key \<and> cached (one b c) r a"
      have "cached ((one b c)(b := ?c)) r a"
        by (rule cached_change [where nd' = ?nd, OF conjunct2 [OF r] nb]) (use r nd(3) in simp_all)
      then show "cached (one b ?c) r a" by simp
    qed
    moreover have "sect_ok K ?c" using all dst nd' by (auto simp: sect_ok_def settled_def live_def)
    ultimately have "holds K b ?c s'" using d(2,3) h(1) by (simp add: holds_def)
    moreover have "del_env key True s = (EF_NO_ERR, s')" using f d(1) by (simp add: del_env_def node_obj_def)
    moreover have "filter live (snds ?c) = filter (\<lambda>nd. nm nd \<noteq> key) (filter live (snds c))"
      using others_split [OF dst nd(2)] nd(1,3) nd' by (simp add: live_def)
    ultimately show ?thesis using nd by (intro exI [of _ s'] exI [of _ ?c]) auto
  qed
qed

lemma get_env_read:
  assumes "repr s (one b c)" "base_ok b" "env_cache_ok (cached (one b c)) s" "sect_ok K c" "good_keys K" "key \<in> K"
  shows "\<exists>t. get_env key n s = (case store_of (snds c) key of Some v \<Rightarrow> take n v | None \<Rightarrow> [], s\<lparr>env_cache_table := t\<rparr>) \<and>
    env_cache_ok (cached (one b c)) (s\<lparr>env_cache_table := t\<rparr>)"
proof -
  from find_env_ok [OF assms] obtain t where t: "env_cache_ok (cached (one b c)) (s\<lparr>env_cache_table := t\<rparr>)"
    "(\<exists>xs nd ys. snds c = xs @ nd # ys \<and> live nd \<and> nm nd = key \<and>
        find_env key obj0 s = (True, node_obj (tail_of b xs) nd, s\<lparr>env_cache_table := t\<rparr>)) \<or>
     (\<forall>nd\<in>set (snds c). live nd \<longrightarrow> nm nd \<noteq> key) \<and> (\<exists>e. find_env key obj0 s = (False, e, s\<lparr>env_cache_table := t\<rparr>))" by blast
  let ?s = "s\<lparr>env_cache_table := t\<rparr>"
  from t(2) show ?thesis
  proof (elim disjE exE conjE)
    fix e
    assume no: "\<forall>nd\<in>set (snds c). live nd \<longrightarrow> nm nd \<noteq> key" and f: "find_env key obj0 s = (False, e, ?s)"
    have "store_of (snds c) key = None" using no by (auto simp: store_of_def map_of_eq_None_iff)
    with f t(1) show ?thesis by (auto simp: get_env_def)
  next
    fix xs nd ys
    assume nd: "snds c = xs @ nd # ys" "live nd" "nm nd = key" and f: "find_env key obj0 s = (True, node_obj (tail_of b xs) nd, ?s)"
    have dst: "distinct (map nm (filter live (xs @ nd # ys)))" using assms(4) nd(1) by (simp add: sect_ok_def)
    have "(nm nd, vl nd) \<in> set (map (\<lambda>nd. (nm nd, vl nd)) (filter live (snds c)))" using nd by simp
    then have v: "store_of (snds c) key = Some (vl nd)"
      using dst nd unfolding store_of_def by (intro map_of_is_SomeI) (simp_all add: comp_def)
    have "at (cells ?s) (tail_of b xs) (node_bytes nd)"
      using repr_sector [OF assms(1,2)] nd(1) by (auto simp: sector_at_def)
    from node_bytes_parts(5) [OF this] have "at (cells ?s) (tail_of b xs + 24 + length (nm nd)) (vl nd)" by (simp add: add.assoc)
    then have "ef_port_read (tail_of b xs + 24 + length (nm nd)) (if n > length (vl nd) then length (vl nd) else n) ?s = take n (vl nd)"
      by (intro at_read) (auto dest: at_take)
    then have "get_env key n s = (take n (vl nd), ?s)"
      using f by (cases "length (vl nd) < n") (simp_all add: get_env_def node_obj_def Let_def)
    with v t(1) show ?thesis by auto
  qed
qed

lemma get_env_ok:
  assumes "holds K b c s" "good_keys K" "key \<in> K"
  shows "\<exists>s'. get_env key n s = (case store_of (snds c) key of Some v \<Rightarrow> take n v | None \<Rightarrow> [], s') \<and> holds K b c s'"
  using get_env_read [OF holdsD(3,1,4,2) [OF assms(1)] assms(2,3), of n] holds_env_cache [OF assms(1)] by blast

section \<open>The store as a map\<close>

definition ef_holds :: "u8 list set \<Rightarrow> (u8 list \<rightharpoonup> u8 list) \<Rightarrow> ef_flash \<Rightarrow> bool" where
  "ef_holds K m s \<longleftrightarrow> (\<exists>b c. holds K b c s \<and> store_of (snds c) = m)"

text \<open>The bytes the nodes of a map take.\<close>

definition map_size :: "(u8 list \<rightharpoonup> u8 list) \<Rightarrow> nat" where
  "map_size m = (\<Sum>k\<in>dom m. ENV_HDR_DATA_SIZE + length k + length (the (m k)))"

abbreviation (input) ENV_CAPACITY :: nat where "ENV_CAPACITY \<equiv> 3928"

lemma store_of_Some: "distinct (map nm (filter live nds)) \<Longrightarrow> nd \<in> set nds \<Longrightarrow> live nd \<Longrightarrow> store_of nds (nm nd) = Some (vl nd)"
  unfolding store_of_def by (rule map_of_is_SomeI) (auto simp: comp_def)

lemma dom_store_of: "dom (store_of nds) = nm ` set (filter live nds)"
  by (simp add: store_of_def dom_map_of_conv_image_fst image_image)

lemma lsize_map_size:
  assumes "distinct (map nm (filter live nds))"
  shows "lsize nds = map_size (store_of nds)"
proof -
  let ?L = "filter live nds" and ?g = "\<lambda>k. 24 + length k + length (the (store_of nds k))"
  have "map nlen ?L = map (?g \<circ> nm) ?L"
    using store_of_Some [OF assms] by (auto simp: nlen_def)
  then have "lsize nds = sum_list (map ?g (map nm ?L))" unfolding nsize_def map_map by (simp only:)
  also have "\<dots> = sum ?g (set (map nm ?L))" by (rule sum_list_distinct_conv_sum_set [OF assms])
  finally show ?thesis by (simp add: map_size_def dom_store_of del: filter_set)
qed

lemma store_of_live: "filter live xs = filter live ys \<Longrightarrow> store_of xs = store_of ys"
  by (simp add: store_of_def)

lemma store_of_append: "filter live nds = filter live xs @ ys \<Longrightarrow> \<forall>nd\<in>set ys. live nd \<Longrightarrow> store_of nds = store_of ys ++ store_of xs"
  by (simp add: store_of_def)

lemma map_of_except: "map_of (filter (\<lambda>(k, v). k \<noteq> key) ps) = (map_of ps)(key := None)"
  by (induction ps) auto

lemma store_of_except:
  assumes "filter live nds = filter (\<lambda>nd. nm nd \<noteq> key) (filter live xs)"
  shows "store_of nds = (store_of xs)(key := None)"
proof -
  have "map (\<lambda>nd. (nm nd, vl nd)) (filter (\<lambda>nd. nm nd \<noteq> key) L) = filter (\<lambda>(k, v). k \<noteq> key) (map (\<lambda>nd. (nm nd, vl nd)) L)" for L
    by (induction L) auto
  then have "store_of nds = map_of (filter (\<lambda>(k, v). k \<noteq> key) (map (\<lambda>nd. (nm nd, vl nd)) (filter live xs)))"
    unfolding store_of_def assms by (simp only:)
  also have "\<dots> = (store_of xs)(key := None)"
    unfolding store_of_def by (rule map_of_except)
  finally show ?thesis .
qed

lemma ef_set_holds:
  assumes "good_keys K" "ef_holds K m s" "key \<in> K" "map_size m + ENV_HDR_DATA_SIZE + length key + length v \<le> ENV_CAPACITY"
  shows "\<exists>s'. ef_set_env_flash key v s = (EF_NO_ERR, s') \<and> ef_holds K (m(key \<mapsto> v)) s'"
proof -
  from assms(2) obtain b c where h: "holds K b c s" "store_of (snds c) = m" by (auto simp: ef_holds_def)
  have "distinct (map nm (filter live (snds c)))" using holdsD(2) [OF h(1)] by (simp add: sect_ok_def)
  with assms(4) h(2) have "lsize (snds c) + 24 + length key + length v \<le> 3928" by (simp add: lsize_map_size)
  from set_env_ok [OF h(1) assms(1,3) this] obtain s' b' c' where
    r: "set_env key (Some v) s = (EF_NO_ERR, s')" "holds K b' c' s'"
      "filter live (snds c') = filter (\<lambda>nd. nm nd \<noteq> key) (filter live (snds c)) @ [Enode 0x3F key v]" by blast
  let ?X = "filter (\<lambda>nd. nm nd \<noteq> key) (filter live (snds c))"
  have X: "filter live ?X = ?X" by (rule filter_True) auto
  then have "filter live (snds c') = filter live ?X @ [Enode 0x3F key v]" using r(3) by (simp only:)
  then have "store_of (snds c') = store_of [Enode 0x3F key v] ++ store_of ?X" by (rule store_of_append) (simp add: live_def)
  also have "store_of ?X = m(key := None)" using store_of_except [OF X] h(2) by simp
  also have "store_of [Enode 0x3F key v] ++ m(key := None) = m(key \<mapsto> v)"
    by (auto simp: store_of_def live_def map_add_def fun_eq_iff split: option.split)
  finally have "ef_holds K (m(key \<mapsto> v)) s'" using r(2) by (auto simp: ef_holds_def)
  moreover have "ef_set_env_flash key v s = (EF_NO_ERR, s')"
    using r(1) holdsD(5) [OF h(1)] by (simp add: ef_set_env_flash_def ef_set_env_blob_def at_rest_def)
  ultimately show ?thesis by blast
qed

lemma ef_get_holds:
  assumes "good_keys K" "ef_holds K m s" "key \<in> K"
  shows "\<exists>s'. ef_get_env_blob_flash key n s = (case m key of Some v \<Rightarrow> take n v | None \<Rightarrow> [], s') \<and> ef_holds K m s'"
proof -
  from assms(2) obtain b c where h: "holds K b c s" "store_of (snds c) = m" by (auto simp: ef_holds_def)
  from get_env_ok [OF h(1) assms(1,3), of n] h(2) obtain s' where
    "get_env key n s = (case m key of Some v \<Rightarrow> take n v | None \<Rightarrow> [], s')" "holds K b c s'" by auto
  then show ?thesis using h(2) holdsD(5) [OF h(1)] by (auto simp: ef_get_env_blob_flash_def ef_holds_def at_rest_def)
qed

lemma ef_del_holds:
  assumes "good_keys K" "ef_holds K m s" "key \<in> K"
  shows "\<exists>s'. ef_del_env key s = (if key \<in> dom m then EF_NO_ERR else EF_ENV_NAME_ERR, s') \<and> ef_holds K (m(key := None)) s'"
proof -
  from assms(2) obtain b c where h: "holds K b c s" "store_of (snds c) = m" by (auto simp: ef_holds_def)
  have "(\<exists>nd\<in>set (snds c). live nd \<and> nm nd = key) \<longleftrightarrow> key \<in> dom m"
    unfolding h(2) [symmetric] dom_store_of by auto
  with del_env_ok [OF h(1) assms(1,3)] obtain s' c' where
    r: "del_env key True s = (if key \<in> dom m then EF_NO_ERR else EF_ENV_NAME_ERR, s')" "holds K b c' s'"
      "filter live (snds c') = filter (\<lambda>nd. nm nd \<noteq> key) (filter live (snds c))" by auto
  have "store_of (snds c') = m(key := None)" using store_of_except [OF r(3)] h(2) by simp
  then show ?thesis using r(1,2) holdsD(5) [OF h(1)] by (auto simp: ef_del_env_def ef_holds_def at_rest_def)
qed

end
