(* ===== verification/EfStart.thy ===== *)
theory EfStart
  imports EfStore
begin

text \<open>
  Start of the store, \<open>ef_env_init\<close>: what a good ENV area holds survives a restart, and an area
  without valid sectors is formatted and filled with the defaults.
\<close>

unbundle bit_operations_syntax

section \<open>Walks that change nothing\<close>

lemma env_turn_idle:
  assumes "repr s S" "used S" "base_ok b" "\<And>p nd x. nd \<in> set (snds (S b)) \<Longrightarrow> cb (node_obj p nd) x s = (False, x, s)"
  shows "\<exists>e. env_turn cb b sec env x s = (False, sec_meta b (sst (S b)) (sdt (S b)) sec, e, x, s)"
proof -
  let ?sec = "sec_meta b (sst (S b)) (sdt (S b)) sec" and ?f = "\<lambda>(_ :: env_node_obj) x. (False, x)"
  have rd: "read_sector_meta_data b sec False s = (EF_NO_ERR, ?sec, s)"
    using read_meta [OF repr_hdr [OF assms(1,3)]] base_okD [OF assms(3)] by simp
  have w: "walk ?f p nds y = (None, y)" for p nds y by (induction nds arbitrary: p) auto
  show ?thesis
  proof (cases "snds (S b) = []")
    case True
    then have "sst (S b) = 0x7F" using assms(1-3) by (auto simp: used_def)
    with rd show ?thesis by (auto simp: env_turn_def)
  next
    case False
    then have st: "get_status [sst (S b)] 4 = 2 \<or> get_status [sst (S b)] 4 = 3"
      using assms(1,3) by (auto simp: repr_def mem_repr_def)
    obtain e where "env_loop ?sec cb (env\<lparr>nd_start := FAILED_ADDR\<rparr>) x s =
        (case walk ?f (b + 16) (snds (S b)) x of (Some o', x') \<Rightarrow> (True, o', x', s) | (None, x') \<Rightarrow> (False, e, x', s))"
      using env_loop_repr [where body = cb and f = ?f and S = S and b = b and s = s and sec = ?sec
          and env = "env\<lparr>nd_start := FAILED_ADDR\<rparr>" and x = x] assms(1,3,4) st False by auto
    with rd st show ?thesis by (auto simp: env_turn_def w)
  qed
qed

lemma env_iterator_idle:
  assumes "repr s S" "used S" "\<And>b p nd x. base_ok b \<Longrightarrow> nd \<in> set (snds (S b)) \<Longrightarrow> cb (node_obj p nd) x s = (False, x, s)"
  shows "\<exists>e. env_iterator env x cb s = (e, x, s)"
proof -
  let ?sec = "sec_meta 0 (sst (S 0)) (sdt (S 0)) (sector0\<lparr>sm_addr := FAILED_ADDR\<rparr>)"
  obtain e0 where t0: "env_turn cb 0 (sector0\<lparr>sm_addr := FAILED_ADDR\<rparr>) env x s = (False, ?sec, e0, x, s)"
    using env_turn_idle [OF assms(1,2) base_ok_01(1), of cb] assms(3) [OF base_ok_01(1)] by blast
  obtain e1 where t1: "env_turn cb 4096 ?sec e0 x s = (False, sec_meta 4096 (sst (S 4096)) (sdt (S 4096)) ?sec, e1, x, s)"
    using env_turn_idle [OF assms(1,2) base_ok_01(2), of cb] assms(3) [OF base_ok_01(2)] by blast
  show ?thesis using env_iterator_turns [OF t0 _ t1] by simp
qed

lemma sector_iterator_idle:
  assumes "repr s S" "\<And>b sec. base_ok b \<Longrightarrow> cb (sec_meta b (sst (S b)) (sdt (S b)) sec) x s = (False, x, s)"
  shows "\<exists>sec'. sector_iterator sec 0 x cb False s = (sec', x, s)"
proof -
  let ?sec = "sec_meta 0 (sst (S 0)) (sdt (S 0)) (sec\<lparr>sm_addr := FAILED_ADDR\<rparr>)"
  have t0: "sector_turn 0 cb False 0 (sec\<lparr>sm_addr := FAILED_ADDR\<rparr>) x s = (False, ?sec, x, s)"
    using assms(2) [OF base_ok_01(1)] by (simp add: turn_plain [OF assms(1) base_ok_01(1)])
  have t1: "sector_turn 0 cb False 4096 ?sec x s = (False, sec_meta 4096 (sst (S 4096)) (sdt (S 4096)) ?sec, x, s)"
    using assms(2) [OF base_ok_01(2)] by (simp add: turn_plain [OF assms(1) base_ok_01(2)])
  show ?thesis using sector_iterator_turns [OF t0 _ t1] by simp
qed

section \<open>Recovery of a good area\<close>

lemma sdt_one: "sect_ok K c \<Longrightarrow> sdt (one b c a) = 0x7F \<or> sdt (one b c a) = 0x3F"
  by (auto simp: one_def sect_ok_def)

lemma recovery_idle:
  assumes "repr s (one b c)" "sect_ok K c" "\<not> gc_request s"
  shows "\<exists>sec'. sector_iterator sector0 0 () check_and_recovery_gc_cb False s = (sec', (), s)" "recovery_loop s = Some s"
proof -
  have "check_and_recovery_gc_cb (sec_meta a (sst (one b c a)) (sdt (one b c a)) sec) x s = (False, x, s)" for a sec x
    using sdt_one [OF assms(2), of b a] by (auto simp: check_and_recovery_gc_cb_def)
  from sector_iterator_idle [where cb = check_and_recovery_gc_cb and x = "()", OF assms(1) this]
  show "\<exists>sec'. sector_iterator sector0 0 () check_and_recovery_gc_cb False s = (sec', (), s)" .
  have "check_and_recovery_env_cb (node_obj p nd) x s = (False, x, s)" if "nd \<in> set (snds (one b c a))" for a p nd x
  proof -
    have "settled nd" using that assms(2) by (auto simp: one_def sect_ok_def split: if_splits)
    then show ?thesis by (auto simp: check_and_recovery_env_cb_def node_obj_def settled_def)
  qed
  from env_iterator_idle [where cb = check_and_recovery_env_cb and env = obj0 and x = "()", OF assms(1) used_one [OF assms(2)]] this
  obtain e where "env_iterator obj0 () check_and_recovery_env_cb s = (e, (), s)" by blast
  with assms(3) show "recovery_loop s = Some s" by (simp add: recovery_loop.simps [of s])
qed

lemma init_caches_ok:
  "length (sector_cache_table s) = 4 \<Longrightarrow> sec_cache_ok T (init_caches s)"
  "length (env_cache_table s) = 16 \<Longrightarrow> env_cache_ok P (init_caches s)"
  by (simp_all add: init_caches_def sec_cache_ok_def sec_table_ok_def env_cache_ok_def env_table_ok_def)

text \<open>What the flash cells hold, apart from the RAM of the library.\<close>

definition flash_holds :: "u8 list set \<Rightarrow> (u8 list \<rightharpoonup> u8 list) \<Rightarrow> (nat \<Rightarrow> u8) \<Rightarrow> bool" where
  "flash_holds K m f \<longleftrightarrow> (\<exists>b c. base_ok b \<and> sect_ok K c \<and> mem_repr f (one b c) \<and> store_of (snds c) = m)"

lemma ef_holds_flash: "ef_holds K m s \<Longrightarrow> flash_holds K m (cells s)"
  by (auto simp: ef_holds_def flash_holds_def holds_def repr_def)

lemma init_reloads:
  assumes "flash_holds K m f"
  shows "\<exists>s. ef_env_init defaults (ef_reset f) = Some s \<and> ef_holds K m s \<and> cells s = f"
proof -
  from assms obtain b c where c: "base_ok b" "sect_ok K c" "mem_repr f (one b c)" "store_of (snds c) = m"
    by (auto simp: flash_holds_def)
  let ?s = "(init_caches (ef_reset f))\<lparr>in_recovery_check := True\<rparr>"
  have fl: "cells ?s = f" "chip_ok ?s" "\<not> hung ?s" "\<not> gc_request ?s" "\<not> last_is_complete_del ?s" "\<not> ef_init_ok (ef_reset f)"
    by (simp_all add: init_caches_def ef_reset_def)
  have ch: "sec_cache_ok (tails (one b c)) ?s" "env_cache_ok (cached (one b c)) ?s"
    using init_caches_ok [of "ef_reset f"] by (simp_all add: ef_reset_def sec_cache_ok_def env_cache_ok_def)
  have r: "repr ?s (one b c)" using c(3) fl ch by (simp add: repr_def)
  have "check_sec_hdr_cb (sec_meta a st dt sec) x ?s = (False, x, ?s)" for a st dt sec x by (simp add: check_sec_hdr_cb_def)
  from sector_iterator_idle [where cb = check_sec_hdr_cb and x = 0, OF r this] obtain sec1 where h: "sector_iterator sector0 0 0 check_sec_hdr_cb False ?s = (sec1, 0, ?s)" by blast
  obtain sec2 where g: "sector_iterator sector0 0 () check_and_recovery_gc_cb False ?s = (sec2, (), ?s)" "recovery_loop ?s = Some ?s"
    using recovery_idle [OF r c(2) fl(4)] by blast
  let ?s' = "?s\<lparr>in_recovery_check := False, ef_init_ok := True\<rparr>"
  have "ef_env_init defaults (ef_reset f) = Some ?s'"
    using h g fl(6) by (simp add: ef_env_init_def ef_load_env_def)
  moreover have "holds K b c ?s'"
    using c(1,2) r ch fl by (simp add: holds_def at_rest_def repr_def sec_cache_ok_def env_cache_ok_def)
  ultimately show ?thesis using c(4) fl(1) by (auto simp: ef_holds_def)
qed

section \<open>An area without valid sectors\<close>

text \<open>Flags and caches that formatting keeps.\<close>

definition fresh :: "ef_flash \<Rightarrow> bool" where
  "fresh s \<longleftrightarrow> chip_ok s \<and> \<not> hung s \<and> \<not> gc_request s \<and> \<not> last_is_complete_del s \<and> \<not> ef_init_ok s \<and> in_recovery_check s \<and>
     sec_cache_ok Map.empty s \<and> env_cache_ok (\<lambda>_ _. False) s"

lemma format_raw:
  assumes "fresh s" "base_ok b"
  shows "\<exists>s'. format_sector b SECTOR_NOT_COMBINED s = (EF_NO_ERR, s') \<and> fresh s' \<and>
    cells s' = program b (sector_hdr_bytes SECTOR_NOT_COMBINED) (erase b 4096 (cells s))"
proof -
  let ?m = "program b (sector_hdr_bytes SECTOR_NOT_COMBINED) (erase b 4096 (cells s))"
  have al: "b mod 4096 = 0" "b \<noteq> FAILED_ADDR" using base_okD [OF assms(2)] by simp_all
  have "sec_cache_ok ((Map.empty)(b := None)) (update_sector_cache b (b + 4096) (s\<lparr>cells := ?m\<rparr>))"
    using sec_cache_update [of Map.empty "s\<lparr>cells := ?m\<rparr>" b "b + 4096"] assms(1) al by (simp add: fresh_def sec_cache_ok_def)
  then have "fresh (update_sector_cache b (b + 4096) (s\<lparr>cells := ?m\<rparr>))" using assms(1) by (simp add: fresh_def env_cache_ok_def)
  moreover have "format_sector b SECTOR_NOT_COMBINED s = (EF_NO_ERR, update_sector_cache b (b + 4096) (s\<lparr>cells := ?m\<rparr>))"
    using assms(1) al by (simp add: fresh_def format_sector_def on_ok_def ef_port_erase_def ef_port_write_def ef_assert_def)
  ultimately show ?thesis by simp
qed

lemma format_out: "x < b \<or> b + 4096 \<le> x \<Longrightarrow> program b (sector_hdr_bytes SECTOR_NOT_COMBINED) (erase b 4096 m) x = m x"
  by (auto simp: program_def erase_def sector_hdr_bytes_def set_status_def)

lemma format_all_ok:
  assumes "fresh s"
  shows "\<exists>s'. format_all s = (EF_NO_ERR, s') \<and> fresh s' \<and> mem_repr (cells s') (one 0 (packed []))"
proof -
  obtain s1 where f0: "format_sector 0 SECTOR_NOT_COMBINED s = (EF_NO_ERR, s1)" "fresh s1"
      "cells s1 = program 0 (sector_hdr_bytes SECTOR_NOT_COMBINED) (erase 0 4096 (cells s))"
    using format_raw [OF assms base_ok_01(1)] by blast
  obtain s2 where f1: "format_sector 4096 SECTOR_NOT_COMBINED s1 = (EF_NO_ERR, s2)" "fresh s2"
      "cells s2 = program 4096 (sector_hdr_bytes SECTOR_NOT_COMBINED) (erase 4096 4096 (cells s1))"
    using format_raw [OF f0(2) base_ok_01(2)] by blast
  have "sector_at (cells s2) 4096 0x7F 0x7F []" unfolding f1(3) by (rule sector_formatted)
  moreover have "sector_at (cells s1) 0 0x7F 0x7F []" unfolding f0(3) by (rule sector_formatted)
  then have "sector_at (cells s2) 0 0x7F 0x7F []"
    by (rule sector_at_cong) (simp add: f1(3) format_out)
  ultimately have "mem_repr (cells s2) (one 0 (packed []))" by (auto simp: mem_repr_def base_ok_def one_def)
  with f0 f1 show ?thesis by (simp add: format_all_def on_ok_def)
qed

lemma hdr_bad:
  assumes "u32_at (cells s) (b + 4) \<noteq> SECTOR_MAGIC_WORD" "base_ok b" "fresh s"
  shows "\<exists>sec' s'. sector_turn 0 check_sec_hdr_cb False b sec n s = (False, sec', n + 1, s') \<and> fresh s' \<and>
    sm_addr sec' = b \<and> sm_combined sec' = SECTOR_NOT_COMBINED \<and>
    cells s' = program b (sector_hdr_bytes SECTOR_NOT_COMBINED) (erase b 4096 (cells s))"
proof -
  let ?sec = "sec\<lparr>sm_addr := b, check_ok := False, sm_combined := SECTOR_NOT_COMBINED\<rparr>"
  obtain s' where f: "format_sector b SECTOR_NOT_COMBINED s = (EF_NO_ERR, s')" "fresh s'"
      "cells s' = program b (sector_hdr_bytes SECTOR_NOT_COMBINED) (erase b 4096 (cells s))"
    using format_raw [OF assms(3,2)] by blast
  have "read_sector_meta_data b sec False s = (EF_ENV_INIT_FAILED, ?sec, s)"
    using assms(1) base_okD [OF assms(2)] by (simp add: read_sector_meta_data_def ef_assert_def)
  then have "sector_turn 0 check_sec_hdr_cb False b sec n s = (False, ?sec, n + 1, s')"
    using f(1) by (simp add: sector_turn_def check_sec_hdr_cb_def)
  with f show ?thesis by simp
qed

lemma hdr_check_bad:
  assumes "\<forall>b. base_ok b \<longrightarrow> u32_at (cells s) (b + 4) \<noteq> SECTOR_MAGIC_WORD" "fresh s"
  shows "\<exists>sec' s'. sector_iterator sector0 0 0 check_sec_hdr_cb False s = (sec', 2, s') \<and> fresh s'"
proof -
  have m: "u32_at (cells s) (0 + 4) \<noteq> SECTOR_MAGIC_WORD" "u32_at (cells s) (4096 + 4) \<noteq> SECTOR_MAGIC_WORD"
    using assms(1) base_ok_01 by blast+
  obtain sec1 s1 where t0: "sector_turn 0 check_sec_hdr_cb False 0 (sector0\<lparr>sm_addr := FAILED_ADDR\<rparr>) 0 s = (False, sec1, 1, s1)" "fresh s1"
      "sm_addr sec1 = 0" "sm_combined sec1 = SECTOR_NOT_COMBINED" "cells s1 = program 0 (sector_hdr_bytes SECTOR_NOT_COMBINED) (erase 0 4096 (cells s))"
    using hdr_bad [OF m(1) base_ok_01(1) assms(2), of "sector0\<lparr>sm_addr := FAILED_ADDR\<rparr>" 0] by auto
  have "u32_at (cells s1) 4100 = u32_at (cells s) 4100" by (simp add: t0(5) u32_at_def format_out)
  then have "u32_at (cells s1) (4096 + 4) \<noteq> SECTOR_MAGIC_WORD" using m(2) by simp
  from hdr_bad [OF this base_ok_01(2) t0(2), of sec1 1] obtain sec2 s2 where
    t1: "sector_turn 0 check_sec_hdr_cb False 4096 sec1 1 s1 = (False, sec2, 2, s2)" "fresh s2" "sm_addr sec2 = 4096" "sm_combined sec2 = SECTOR_NOT_COMBINED"
    by auto
  show ?thesis using sector_iterator_turns [OF t0(1) _ t1(1)] t0 t1 by simp
qed

section \<open>The defaults\<close>

lemma create_default_ok:
  assumes "repr s (one 0 (packed L))" "\<not> gc_request s" "env_cache_ok (cached (one 0 (packed L))) s"
    "length k \<le> 128" "nsize L + nlen (Enode 0x3F k v) \<le> 3928"
  shows "\<exists>s'. create_default (k, v) s = s' \<and> repr s' (one 0 (packed (L @ [Enode 0x3F k v]))) \<and>
    env_cache_ok (cached (one 0 (packed (L @ [Enode 0x3F k v])))) s' \<and> \<not> gc_request s' \<and>
    last_is_complete_del s' = last_is_complete_del s \<and> ef_init_ok s' = ef_init_ok s \<and> in_recovery_check s' = in_recovery_check s"
proof -
  let ?nd = "Enode 0x3F k v" and ?sec0 = "sector0\<lparr>sm_empty_env := FAILED_ADDR\<rparr>"
  have n: "nlen ?nd = 24 + length k + length v" by (simp add: nlen_def)
  have us: "used (one 0 (packed L))" by (auto simp: used_def one_def packed_def)
  have rm: "room_in (one 0 (packed L)) (nlen ?nd) False = Some 0"
    using room_in_one [OF base_ok_01(1), of "packed L"] room_in_erased [of "nlen ?nd" 0] assms(5) by (cases "L = []") auto
  obtain sec s1 where al: "alloc_env ?sec0 (nlen ?nd) s = (tail_of 0 L, sec, s1)" "repr s1 (one 0 (packed L))" "meta_ok (one 0 (packed L)) 0 sec" "but_cache s s1"
    using alloc_env_ok [OF assms(1) us, of ?sec0 "nlen ?nd"] rm assms(2) by auto
  note bc = but_cacheD [OF al(4)]
  have aF: "tail_of 0 L \<noteq> FAILED_ADDR" using assms(5) by auto
  have w0: "sst (one 0 (packed L) 0) \<noteq> 0x1F" "wf_node ?nd" "nlen ?nd < 4080 - nsize (snds (one 0 (packed L) 0))"
    using assms(4,5) by (auto simp: wf_node_def)
  have st: "store_after (packed L) (nlen ?nd) = 0x3F" using assms(5) by (auto simp: store_after_def)
  have app: "appended (one 0 (packed L)) 0 ?nd = one 0 (packed (L @ [?nd]))"
    unfolding appended_one st by (simp add: packed_def)
  obtain s2 where w: "write_env_node sec (tail_of 0 L) k v s1 = (EF_NO_ERR, s2)" "repr s2 (one 0 (packed (L @ [?nd])))" "\<not> gc_request s2"
      "last_is_complete_del s2 = last_is_complete_del s" "ef_init_ok s2 = ef_init_ok s" "in_recovery_check s2 = in_recovery_check s"
      "env_cache_table s2 = env_cache_table (update_env_cache k (tail_of 0 L) s1)"
    using write_env_node_ok [OF al(2) base_ok_01(1) meta_place [OF al(3)] w0(1,2,3)] app st bc assms(2) by auto
  have "env_cache_ok (cached (one 0 (packed (L @ [?nd])))) s2"
  proof (rule cache_written [OF _ w(7) aF])
    show "env_cache_ok (cached (one 0 (packed L))) s1" using assms(3) bc by (simp add: env_cache_ok_def)
    show "cached (one 0 (packed (L @ [?nd]))) (crc_of_name k) (tail_of 0 L)"
      using cached_here [of 0 "one 0 (packed (L @ [?nd]))" L ?nd "[]"] base_ok_01(1) by (simp add: live_def)
    show "cached (one 0 (packed (L @ [?nd]))) r x" if "cached (one 0 (packed L)) r x" for r x
      using cached_append [OF that, of "packed (L @ [?nd])" 0 "[?nd]"] by simp
  qed
  moreover have "create_default (k, v) s = s2"
    using al(1) w(1) aF assms(4,5) n by (simp add: create_default_def create_env_blob_def new_env_def)
  ultimately show ?thesis using w by simp
qed

definition default_nodes :: "(u8 list \<times> u8 list) list \<Rightarrow> enode list" where
  "default_nodes kvs = map (\<lambda>(k, v). Enode 0x3F k v) kvs"

lemma create_defaults_ok:
  assumes "repr s (one 0 (packed L))" "\<not> gc_request s" "env_cache_ok (cached (one 0 (packed L))) s"
    "\<forall>kv\<in>set kvs. length (fst kv) \<le> 128" "nsize L + nsize (default_nodes kvs) \<le> 3928"
  shows "repr (fold create_default kvs s) (one 0 (packed (L @ default_nodes kvs))) \<and>
    env_cache_ok (cached (one 0 (packed (L @ default_nodes kvs)))) (fold create_default kvs s) \<and> \<not> gc_request (fold create_default kvs s) \<and>
    last_is_complete_del (fold create_default kvs s) = last_is_complete_del s \<and> ef_init_ok (fold create_default kvs s) = ef_init_ok s \<and>
    in_recovery_check (fold create_default kvs s) = in_recovery_check s"
  using assms
proof (induction kvs arbitrary: L s)
  case Nil
  then show ?case by (simp add: default_nodes_def)
next
  case (Cons kv kvs)
  obtain k v where kv: "kv = (k, v)" by (cases kv)
  have dn: "default_nodes (kv # kvs) = Enode 0x3F k v # default_nodes kvs" by (simp add: default_nodes_def kv)
  have p: "length k \<le> 128" "nsize L + nlen (Enode 0x3F k v) \<le> 3928" using Cons.prems(4,5) kv dn by simp_all
  obtain s1 where s1: "create_default (k, v) s = s1" "repr s1 (one 0 (packed (L @ [Enode 0x3F k v])))"
      "env_cache_ok (cached (one 0 (packed (L @ [Enode 0x3F k v])))) s1" "\<not> gc_request s1"
      "last_is_complete_del s1 = last_is_complete_del s" "ef_init_ok s1 = ef_init_ok s" "in_recovery_check s1 = in_recovery_check s"
    using create_default_ok [OF Cons.prems(1-3) p] by blast
  from Cons.IH [OF s1(2,4,3)] Cons.prems(4,5) s1 kv dn show ?case by simp
qed

lemma lsize_default_nodes: "live (Enode 0x3F k v)" "settled (Enode 0x3F k v)"
  by (simp_all add: live_def settled_def)

lemma store_of_defaults: "store_of (default_nodes kvs) = map_of kvs"
proof -
  have "filter live (default_nodes kvs) = default_nodes kvs"
    by (rule filter_True) (auto simp: default_nodes_def lsize_default_nodes)
  then have "store_of (default_nodes kvs) = map_of (map (\<lambda>nd. (nm nd, vl nd)) (default_nodes kvs))" by (simp only: store_of_def)
  also have "map (\<lambda>nd. (nm nd, vl nd)) (default_nodes kvs) = kvs" by (induction kvs) (auto simp: default_nodes_def)
  finally show ?thesis .
qed

definition kvs_size :: "(u8 list \<times> u8 list) list \<Rightarrow> nat" where
  "kvs_size kvs = sum_list (map (\<lambda>kv. ENV_HDR_DATA_SIZE + length (fst kv) + length (snd kv)) kvs)"

lemma nsize_defaults: "nsize (default_nodes kvs) = kvs_size kvs"
  by (induction kvs) (auto simp: default_nodes_def nlen_def kvs_size_def)

lemma init_formats_packed:
  assumes "good_keys K" "fst ` set kvs \<subseteq> K" "distinct (map fst kvs)" "kvs \<noteq> []" "kvs_size kvs \<le> ENV_CAPACITY"
    "\<forall>b. base_ok b \<longrightarrow> u32_at f (b + 4) \<noteq> SECTOR_MAGIC_WORD"
  shows "\<exists>s. ef_env_init kvs (ef_reset f) = Some s \<and> holds K 0 (packed (default_nodes kvs)) s"
proof -
  let ?s = "(init_caches (ef_reset f))\<lparr>in_recovery_check := True\<rparr>" and ?N = "default_nodes kvs"
  have fr: "fresh ?s"
    using init_caches_ok [of "ef_reset f"] unfolding fresh_def
    by (simp add: sec_cache_ok_def env_cache_ok_def) (simp add: init_caches_def ef_reset_def)
  have cl: "cells ?s = f" "\<not> ef_init_ok (ef_reset f)" by (simp_all add: init_caches_def ef_reset_def)
  obtain sec1 s1 where h: "sector_iterator sector0 0 0 check_sec_hdr_cb False ?s = (sec1, 2, s1)" "fresh s1"
    using hdr_check_bad [of ?s] fr assms(6) cl(1) by auto
  obtain s2 where fa: "format_all s1 = (EF_NO_ERR, s2)" "fresh s2" "mem_repr (cells s2) (one 0 (packed []))"
    using format_all_ok [OF h(2)] by blast
  have "tails (one 0 (packed [])) = Map.empty" by (rule ext) (simp add: tails_def one_def packed_def)
  then have r2: "repr s2 (one 0 (packed []))" using fa(2,3) by (simp add: repr_def fresh_def)
  have e2: "env_cache_ok (cached (one 0 (packed []))) s2"
    using fa(2) by (auto simp: fresh_def elim!: env_cache_mono)
  let ?s3 = "fold create_default kvs s2"
  have "\<forall>kv\<in>set kvs. length (fst kv) \<le> 128" using assms(1,2) by (auto simp: good_keys_def)
  then have d: "repr ?s3 (one 0 (packed ?N))" "env_cache_ok (cached (one 0 (packed ?N))) ?s3" "\<not> gc_request ?s3"
      "\<not> last_is_complete_del ?s3" "\<not> ef_init_ok ?s3"
    using create_defaults_ok [OF r2 _ e2, of kvs] fa(2) assms(5) by (simp_all add: fresh_def nsize_defaults)
  have dflt: "ef_env_set_default kvs s1 = (EF_NO_ERR, ?s3)"
    using fa(1) assms(4) by (simp add: ef_env_set_default_def ef_assert_def on_ok_def)
  have N: "filter live ?N = ?N" "map nm ?N = map fst kvs" "\<forall>nd\<in>set ?N. settled nd \<and> nm nd \<in> K"
    using assms(2) by (auto simp: default_nodes_def lsize_default_nodes comp_def split_beta image_subset_iff intro!: filter_True)
  have "\<forall>nd\<in>set ?N. live nd" by (auto simp: default_nodes_def lsize_default_nodes)
  then have so: "sect_ok K (packed ?N)" unfolding sect_ok_def using N assms(3) by (cases "?N = []") simp_all
  obtain sec2 where g: "sector_iterator sector0 0 () check_and_recovery_gc_cb False ?s3 = (sec2, (), ?s3)" "recovery_loop ?s3 = Some ?s3"
    using recovery_idle [OF d(1) so d(3)] by blast
  let ?s' = "?s3\<lparr>in_recovery_check := False, ef_init_ok := True\<rparr>"
  have "ef_env_init kvs (ef_reset f) = Some ?s'"
    using h(1) dflt g cl(2) by (simp add: ef_env_init_def ef_load_env_def)
  moreover have "holds K 0 (packed ?N) ?s'"
    using so d base_ok_01(1) by (simp add: holds_def at_rest_def repr_def sec_cache_ok_def env_cache_ok_def)
  ultimately show ?thesis by blast
qed

lemma init_formats:
  assumes "good_keys K" "fst ` set kvs \<subseteq> K" "distinct (map fst kvs)" "kvs \<noteq> []" "kvs_size kvs \<le> ENV_CAPACITY"
    "\<forall>b. base_ok b \<longrightarrow> u32_at f (b + 4) \<noteq> SECTOR_MAGIC_WORD"
  shows "\<exists>s. ef_env_init kvs (ef_reset f) = Some s \<and> ef_holds K (map_of kvs) s"
proof -
  have "store_of (snds (packed (default_nodes kvs))) = map_of kvs" by (simp add: store_of_defaults)
  then show ?thesis using init_formats_packed [OF assms] unfolding ef_holds_def by blast
qed

end
