(* ===== verification/EfNames.thy ===== *)
theory EfNames
  imports EfStart FlashWork
begin

text \<open>
  Strings of the firmware as bytes of the flash, and the checksums under which the name cache
  knows the names of the default set: they are all different.
\<close>

unbundle bit_operations_syntax

definition bytes_of :: "string \<Rightarrow> u8 list" where
  "bytes_of t = map (\<lambda>c. of_nat (of_char c)) t"

definition chars_of :: "u8 list \<Rightarrow> string" where
  "chars_of bs = map (\<lambda>b. char_of (unat b)) bs"

lemma unat_of_char: "unat (of_nat (of_char c) :: u8) = of_char c"
  by (simp add: unat_of_nat_byte)

lemma chars_bytes [simp]: "chars_of (bytes_of t) = t"
  by (simp add: chars_of_def bytes_of_def comp_def unat_of_char)

lemma bytes_chars [simp]: "bytes_of (chars_of bs) = bs"
proof -
  have "(of_nat (of_char (char_of (unat b))) :: u8) = b" for b :: u8
  proof -
    have "unat b < 256" using unsigned_less [of b] by simp
    then show ?thesis by simp
  qed
  then show ?thesis by (simp add: chars_of_def bytes_of_def comp_def)
qed

lemma length_bytes_of [simp]: "length (bytes_of t) = length t"
  by (simp add: bytes_of_def)

lemma inj_bytes_of: "inj bytes_of"
  by (rule inj_on_inverseI [of _ chars_of]) simp

section \<open>Checksums of the default names\<close>

definition name_sum :: "string \<Rightarrow> u16" where
  "name_sum k = crc_of_name (bytes_of k)"

lemma crc_serial_shifts:
  "crc_serial r b = crc_shift (crc_shift (crc_shift (crc_shift (crc_shift (crc_shift (crc_shift (crc_shift (r XOR ucast b))))))))"
  by (simp add: crc_serial_def eval_nat_numeral)

lemmas crc_eval = name_sum_def crc_of_name_def bytes_of_def ef_calc_crc32_def crc32_byte_eq crc_serial_shifts crc_shift_def bit_0

lemma name_sum_0: "name_sum ''boot_times'' = 0x8283"
  by (simp add: crc_eval)

lemma name_sum_1: "name_sum ''Reminder_Week'' = 0x5FEA"
  by (simp add: crc_eval)

lemma name_sum_2: "name_sum ''Reminder_Day'' = 0x8EBE"
  by (simp add: crc_eval)

lemma name_sum_3: "name_sum ''Reminder_Enable'' = 0xB7EA"
  by (simp add: crc_eval)

lemma name_sum_4: "name_sum ''Automatic_Week'' = 0xF98C"
  by (simp add: crc_eval)

lemma name_sum_5: "name_sum ''Automatic_Day'' = 0x5470"
  by (simp add: crc_eval)

lemma name_sum_6: "name_sum ''Automatic_Enable'' = 0x65C4"
  by (simp add: crc_eval)

lemma name_sum_7: "name_sum ''Deltapress_Enable'' = 0x4DBC"
  by (simp add: crc_eval)

lemma name_sum_8: "name_sum ''Counter_Manual'' = 0x0FA0"
  by (simp add: crc_eval)

lemma name_sum_9: "name_sum ''Counter_Automatic'' = 0x3B70"
  by (simp add: crc_eval)

lemma name_sum_10: "name_sum ''Counter_Deltapress'' = 0x2DA5"
  by (simp add: crc_eval)

lemma name_sum_11: "name_sum ''Counter_Error'' = 0xFCFB"
  by (simp add: crc_eval)

lemma name_sum_12: "name_sum ''Setting_Deltapress'' = 0x1E15"
  by (simp add: crc_eval)

lemma name_sum_13: "name_sum ''Setting_Hardness'' = 0x798E"
  by (simp add: crc_eval)

lemma name_sum_14: "name_sum ''Setting_Backwashtime'' = 0x3131"
  by (simp add: crc_eval)

lemma name_sum_15: "name_sum ''Setting_Language'' = 0x941B"
  by (simp add: crc_eval)

lemma name_sum_16: "name_sum ''RTC_Reminder_Time'' = 0x85E5"
  by (simp add: crc_eval)

lemma name_sum_17: "name_sum ''RTC_Automatic_Time'' = 0x0EA0"
  by (simp add: crc_eval)

lemma name_sum_18: "name_sum ''TDS_Offset'' = 0x315B"
  by (simp add: crc_eval)

lemmas name_sums = name_sum_0 name_sum_1 name_sum_2 name_sum_3 name_sum_4 name_sum_5 name_sum_6 name_sum_7 name_sum_8 name_sum_9 name_sum_10 name_sum_11 name_sum_12 name_sum_13 name_sum_14 name_sum_15 name_sum_16 name_sum_17 name_sum_18

lemma Key_list_sums: "distinct (map name_sum Key_list)"
  by (simp add: Key_list_def name_sums)

end
