(* ===== verification/EfProps.thy ===== *)
theory EfProps
  imports EfNames
begin

text \<open>
  The ENV area behind the string API: the interface of a store of strings, its two providers
  (the map of \<open>FlashWork\<close> and the bytes of the flash), and what follows for every sequence of
  writes and reads the firmware may issue, for a restart and for the first start.
\<close>

unbundle bit_operations_syntax

section \<open>Operations and their specification\<close>

datatype kv_op = Put string string | Get string

datatype kv_res = Stored EfErrCode | Got "string option"

fun kv_run :: "(string \<Rightarrow> string \<Rightarrow> 's \<Rightarrow> EfErrCode \<times> 's) \<Rightarrow> (string \<Rightarrow> 's \<Rightarrow> string option \<times> 's) \<Rightarrow>
    kv_op list \<Rightarrow> 's \<Rightarrow> kv_res list \<times> 's" where
  "kv_run put get [] s = ([], s)"
| "kv_run put get (Put k v # ops) s = (case put k v s of (r, s) \<Rightarrow> case kv_run put get ops s of (rs, s) \<Rightarrow> (Stored r # rs, s))"
| "kv_run put get (Get k # ops) s = (case get k s of (r, s) \<Rightarrow> case kv_run put get ops s of (rs, s) \<Rightarrow> (Got r # rs, s))"

text \<open>What \<open>ef_get_env\<close> shows of a map: at most 128 characters, only printable ones, never an empty string.\<close>

definition env_view :: "(string \<rightharpoonup> string) \<Rightarrow> string \<Rightarrow> string option" where
  "env_view m k = (case m k of None \<Rightarrow> None
     | Some v \<Rightarrow> let t = take EF_STR_ENV_VALUE_MAX_SIZE v in if t \<noteq> [] \<and> ef_is_str t then Some t else None)"

fun map_run :: "kv_op list \<Rightarrow> (string \<rightharpoonup> string) \<Rightarrow> kv_res list \<times> (string \<rightharpoonup> string)" where
  "map_run [] m = ([], m)"
| "map_run (Put k v # ops) m = (case map_run ops (m(k \<mapsto> v)) of (rs, m) \<Rightarrow> (Stored EF_NO_ERR # rs, m))"
| "map_run (Get k # ops) m = (case map_run ops m of (rs, m') \<Rightarrow> (Got (env_view m k) # rs, m'))"

primrec op_ok :: "(string \<Rightarrow> bool) \<Rightarrow> (string \<Rightarrow> bool) \<Rightarrow> kv_op \<Rightarrow> bool" where
  "op_ok okkey okval (Put k v) = (okkey k \<and> okval v)"
| "op_ok okkey okval (Get k) = okkey k"

section \<open>The interface\<close>

locale kv_store =
  fixes holds :: "(string \<rightharpoonup> string) \<Rightarrow> 's \<Rightarrow> bool"
    and put :: "string \<Rightarrow> string \<Rightarrow> 's \<Rightarrow> EfErrCode \<times> 's"
    and get :: "string \<Rightarrow> 's \<Rightarrow> string option \<times> 's"
    and okkey :: "string \<Rightarrow> bool"
    and okval :: "string \<Rightarrow> bool"
  assumes put_ok: "holds m s \<Longrightarrow> okkey k \<Longrightarrow> okval v \<Longrightarrow> \<exists>s'. put k v s = (EF_NO_ERR, s') \<and> holds (m(k \<mapsto> v)) s'"
    and get_ok: "holds m s \<Longrightarrow> okkey k \<Longrightarrow> \<exists>s'. get k s = (env_view m k, s') \<and> holds m s'"
begin

lemma run_spec:
  "holds m s \<Longrightarrow> list_all (op_ok okkey okval) ops \<Longrightarrow>
   fst (kv_run put get ops s) = fst (map_run ops m) \<and> holds (snd (map_run ops m)) (snd (kv_run put get ops s))"
proof (induction ops arbitrary: m s)
  case (Cons op ops)
  show ?case
  proof (cases op)
    case (Put k v)
    with Cons.prems obtain s' where s': "put k v s = (EF_NO_ERR, s')" "holds (m(k \<mapsto> v)) s'"
      using put_ok [of m s k v] by auto
    define m' where "m' = m(k \<mapsto> v)"
    have "holds m' s'" using s'(2) by (simp only: m'_def)
    from Cons.IH [OF this] Cons.prems(2) s'(1) Put show ?thesis
      by (cases "kv_run put get ops s'"; cases "map_run ops m'") (simp add: m'_def [symmetric])
  next
    case (Get k)
    with Cons.prems obtain s' where s': "get k s = (env_view m k, s')" "holds m s'"
      using get_ok [of m s k] by auto
    from Cons.IH [OF s'(2)] Cons.prems(2) s'(1) Get show ?thesis
      by (cases "kv_run put get ops s'"; cases "map_run ops m") simp
  qed
qed simp

end

text \<open>The string API as \<open>FlashWork\<close> models it.\<close>

definition api_get :: "string \<Rightarrow> env_st \<Rightarrow> string option \<times> env_st" where
  "api_get k e = (ef_get_env k e, e)"

interpretation api: kv_store "\<lambda>m e. env_kv e = m \<and> env_ready e" ef_set_env api_get "\<lambda>k. length k \<le> EF_ENV_NAME_MAX" "\<lambda>_. True"
  by unfold_locales
    (auto simp: ef_set_env_def env_ready_def api_get_def ef_get_env_def ef_get_env_blob_def env_view_def Let_def split: option.split)

section \<open>The flash\<close>

text \<open>Names that the store tells apart, and that fit with values of up to \<open>n\<close> characters, one of them twice.\<close>

definition good_names :: "string set \<Rightarrow> bool" where
  "good_names K \<longleftrightarrow> inj_on name_sum K \<and> (\<forall>k\<in>K. CHR 0x00 \<notin> set k \<and> length k \<le> EF_ENV_NAME_MAX)"

definition roomy :: "string set \<Rightarrow> nat \<Rightarrow> bool" where
  "roomy K n \<longleftrightarrow> finite K \<and> (\<forall>k\<in>K. (\<Sum>j\<in>K. ENV_HDR_DATA_SIZE + length j + n) + (ENV_HDR_DATA_SIZE + length k + n) \<le> ENV_CAPACITY)"

definition enc :: "(string \<rightharpoonup> string) \<Rightarrow> u8 list \<rightharpoonup> u8 list" where
  "enc m = (\<lambda>kb. map_option bytes_of (m (chars_of kb)))"

definition flash_map :: "string set \<Rightarrow> nat \<Rightarrow> (string \<rightharpoonup> string) \<Rightarrow> ef_flash \<Rightarrow> bool" where
  "flash_map K n m s \<longleftrightarrow> ef_holds (bytes_of ` K) (enc m) s \<and> dom m \<subseteq> K \<and> (\<forall>v\<in>ran m. length v \<le> n)"

definition flash_put :: "string \<Rightarrow> string \<Rightarrow> ef_flash \<Rightarrow> EfErrCode \<times> ef_flash" where
  "flash_put k v s = ef_set_env_flash (bytes_of k) (bytes_of v) s"

definition flash_get :: "string \<Rightarrow> ef_flash \<Rightarrow> string option \<times> ef_flash" where
  "flash_get k s = (case ef_get_env_flash (bytes_of k) s of (r, s) \<Rightarrow> (map_option chars_of r, s))"

lemma good_keys_names: "good_names K \<Longrightarrow> good_keys (bytes_of ` K)"
proof -
  assume g: "good_names K"
  have "inj_on crc_of_name (bytes_of ` K)"
    using g by (auto simp: good_names_def name_sum_def inj_on_def)
  moreover have "0 \<notin> set (bytes_of k)" if "k \<in> K" for k
  proof
    assume "0 \<in> set (bytes_of k)"
    then obtain c where c: "c \<in> set k" "(of_nat (of_char c) :: u8) = 0" by (auto simp: bytes_of_def)
    then have "(of_char c :: nat) = 0" using unat_of_char [of c] by simp
    then have "(of_char c :: nat) = of_char (CHR 0x00)" by simp
    then have "c = CHR 0x00" by (simp only: of_char_eq_iff)
    with c(1) g that show False by (auto simp: good_names_def)
  qed
  ultimately show ?thesis using g by (auto simp: good_keys_def good_names_def)
qed

lemma enc_upd: "enc (m(k \<mapsto> v)) = (enc m)(bytes_of k \<mapsto> bytes_of v)"
proof
  fix kb
  have "chars_of kb = k \<longleftrightarrow> kb = bytes_of k" by (metis bytes_chars chars_bytes)
  then show "enc (m(k \<mapsto> v)) kb = ((enc m)(bytes_of k \<mapsto> bytes_of v)) kb" by (simp add: enc_def)
qed

lemma enc_del: "enc (m(k := None)) = (enc m)(bytes_of k := None)"
proof
  fix kb
  have "chars_of kb = k \<longleftrightarrow> kb = bytes_of k" by (metis bytes_chars chars_bytes)
  then show "enc (m(k := None)) kb = ((enc m)(bytes_of k := None)) kb" by (simp add: enc_def)
qed

lemma enc_bytes [simp]: "enc m (bytes_of k) = map_option bytes_of (m k)"
  by (simp add: enc_def)

lemma dom_enc: "dom (enc m) = bytes_of ` dom m"
proof (rule set_eqI)
  fix kb
  show "kb \<in> dom (enc m) \<longleftrightarrow> kb \<in> bytes_of ` dom m"
    by (auto simp: enc_def image_iff) (metis bytes_chars chars_bytes domI)+
qed

lemma map_size_enc: "map_size (enc m) = (\<Sum>k\<in>dom m. 24 + length k + length (the (m k)))"
proof -
  have "map_size (enc m) = (\<Sum>k\<in>dom m. 24 + length (bytes_of k) + length (the (enc m (bytes_of k))))"
    unfolding map_size_def dom_enc by (subst sum.reindex) (auto intro: inj_on_subset [OF inj_bytes_of])
  also have "\<dots> = (\<Sum>k\<in>dom m. 24 + length k + length (the (m k)))"
    by (rule sum.cong) (auto simp: dom_def)
  finally show ?thesis .
qed

lemma map_size_bound:
  assumes "finite K" "dom m \<subseteq> K" "\<forall>v\<in>ran m. length v \<le> n"
  shows "map_size (enc m) \<le> (\<Sum>j\<in>K. 24 + length j + n)"
proof -
  have "map_size (enc m) \<le> (\<Sum>j\<in>dom m. 24 + length j + n)"
    unfolding map_size_enc using assms(3) by (intro sum_mono) (auto simp: ran_def)
  also have "\<dots> \<le> (\<Sum>j\<in>K. 24 + length j + n)" using assms(1,2) by (intro sum_mono2) auto
  finally show ?thesis .
qed

lemma ef_is_str_bytes_of: "ef_is_str_bytes (bytes_of t) = ef_is_str t"
proof -
  have "unat (ucast (of_nat (of_char c) :: u8) - 32 :: u32) < 127 - 32 \<longleftrightarrow> 32 \<le> (of_char c :: nat) \<and> (of_char c :: nat) < 127" for c
  proof -
    define x where "x = (of_char c :: nat)"
    have x: "x < 256" by (simp add: x_def)
    have u: "ucast (of_nat x :: u8) = (of_nat x :: u32)" using x by (simp add: unsigned_of_nat take_bit_eq_mod)
    show ?thesis
    proof (cases "32 \<le> x")
      case True
      then have "(of_nat x - 32 :: u32) = of_nat (x - 32)" by (simp add: of_nat_diff)
      moreover have "unat (of_nat (x - 32) :: u32) = x - 32" using x by (simp add: unat_of_nat)
      ultimately show ?thesis using True u by (simp add: x_def [symmetric]) linarith
    next
      case False
      then have e: "(of_nat x - 32 :: u32) = of_nat (4294967296 + x - 32)" by (simp add: of_nat_diff)
      have "unat (of_nat x - 32 :: u32) = 4294967296 + x - 32" unfolding e unat_of_nat using False by simp
      then show ?thesis using False u by (simp add: x_def [symmetric])
    qed
  qed
  then show ?thesis by (simp add: ef_is_str_bytes_def ef_is_str_def bytes_of_def list_all_iff)
qed

section \<open>The flash provides the interface\<close>

locale flash_names =
  fixes K :: "string set" and n :: nat
  assumes names: "good_names K" and room: "roomy K n"
begin

lemma put_holds:
  assumes "flash_map K n m s" "k \<in> K" "length v \<le> n"
  shows "\<exists>s'. flash_put k v s = (EF_NO_ERR, s') \<and> flash_map K n (m(k \<mapsto> v)) s'"
proof -
  have m: "ef_holds (bytes_of ` K) (enc m) s" "dom m \<subseteq> K" "\<forall>v\<in>ran m. length v \<le> n" using assms(1) by (simp_all add: flash_map_def)
  have fin: "finite K" using room by (simp add: roomy_def)
  have "map_size (enc m) + (24 + length k + n) \<le> 3928"
    using map_size_bound [OF fin m(2,3)] room assms(2) by (force simp: roomy_def)
  then have "map_size (enc m) + 24 + length (bytes_of k) + length (bytes_of v) \<le> 3928" using assms(3) by simp
  from ef_set_holds [OF good_keys_names [OF names] m(1) _ this] assms(2)
  obtain s' where "flash_put k v s = (EF_NO_ERR, s')" "ef_holds (bytes_of ` K) (enc (m(k \<mapsto> v))) s'"
    by (auto simp: flash_put_def enc_upd)
  moreover have "dom (m(k \<mapsto> v)) \<subseteq> K" "\<forall>w\<in>ran (m(k \<mapsto> v)). length w \<le> n"
    using m(2,3) assms(2,3) by (auto simp: ran_def split: if_splits)
  ultimately show ?thesis by (auto simp: flash_map_def)
qed

lemma take_bytes_of: "take i (bytes_of t) = bytes_of (take i t)"
  by (simp add: bytes_of_def take_map)

lemma get_holds:
  assumes "flash_map K n m s" "k \<in> K"
  shows "\<exists>s'. flash_get k s = (env_view m k, s') \<and> flash_map K n m s'"
proof -
  have m: "ef_holds (bytes_of ` K) (enc m) s" using assms(1) by (simp add: flash_map_def)
  from ef_get_holds [OF good_keys_names [OF names] m, of "bytes_of k" 128] assms(2) obtain s' where
    g: "ef_get_env_blob_flash (bytes_of k) 128 s = (case m k of Some v \<Rightarrow> bytes_of (take 128 v) | None \<Rightarrow> [], s')" "ef_holds (bytes_of ` K) (enc m) s'"
    by (auto simp: take_bytes_of split: option.splits)
  have e: "bytes_of t = [] \<longleftrightarrow> t = []" for t by (simp add: bytes_of_def)
  have "flash_get k s = (env_view m k, s')"
    by (simp add: flash_get_def ef_get_env_flash_def g(1) env_view_def Let_def ef_is_str_bytes_of e split: option.split)
  then show ?thesis using g(2) assms(1) by (auto simp: flash_map_def)
qed

end

sublocale flash_names \<subseteq> flash: kv_store "flash_map K n" flash_put flash_get "\<lambda>k. k \<in> K" "\<lambda>v. length v \<le> n"
  by unfold_locales (simp_all add: put_holds get_holds)

context flash_names
begin

lemmas flash_run = flash.run_spec

end

text \<open>The names of the default set, with values of up to 11 characters (every printed number).\<close>

lemma distinct_Key_list: "distinct Key_list"
  using Key_list_sums by (simp add: distinct_map)

lemma Key_list_good: "good_names (set Key_list)"
proof -
  have "inj_on name_sum (set Key_list)" using Key_list_sums by (simp add: distinct_map)
  moreover have "\<forall>k\<in>set Key_list. CHR 0x00 \<notin> set k \<and> length k \<le> EF_ENV_NAME_MAX" by (simp add: Key_list_def)
  ultimately show ?thesis by (simp add: good_names_def)
qed

lemma Key_list_roomy: "roomy (set Key_list) 11"
proof -
  have "(\<Sum>j\<in>set Key_list. 24 + length j + 11) = sum_list (map (\<lambda>j. 24 + length j + 11) Key_list)"
    by (rule sum_list_distinct_conv_sum_set [symmetric, OF distinct_Key_list])
  then show ?thesis by (simp add: roomy_def Key_list_def)
qed

interpretation fw: flash_names "set Key_list" 11
  by unfold_locales (rule Key_list_good, rule Key_list_roomy)

lemma map_of_enc: "map_of (map (map_prod bytes_of bytes_of) kvs) = enc (map_of kvs)"
proof
  fix kb
  have "map_of (map (map_prod bytes_of bytes_of) kvs) (bytes_of k) = map_option bytes_of (map_of kvs k)" for k
    by (induction kvs) (auto simp: inj_eq [OF inj_bytes_of])
  from this [of "chars_of kb"] show "map_of (map (map_prod bytes_of bytes_of) kvs) kb = enc (map_of kvs) kb" by (simp add: enc_def)
qed

lemma first_start:
  assumes "u32_at f 4 \<noteq> SECTOR_MAGIC_WORD" "u32_at f 4100 \<noteq> SECTOR_MAGIC_WORD"
  shows "\<exists>s. ef_env_init (map (map_prod bytes_of bytes_of) default_env_set) (ef_reset f) = Some s \<and>
    flash_map (set Key_list) 11 (map_of default_env_set) s"
proof -
  let ?kvs = "map (map_prod bytes_of bytes_of) default_env_set"
  have keys: "map fst default_env_set = Key_list" by (simp add: default_env_set_def comp_def)
  have fst: "map fst ?kvs = map bytes_of Key_list" unfolding keys [symmetric] by simp
  have sub: "fst ` set ?kvs \<subseteq> bytes_of ` set Key_list" using fst by (metis list.set_map order_refl)
  have dst: "distinct (map fst ?kvs)"
    unfolding fst using distinct_Key_list inj_bytes_of by (simp add: distinct_map inj_on_subset [OF inj_bytes_of])
  have ne: "?kvs \<noteq> []" by (simp add: default_env_set_def Key_list_def)
  have sz: "kvs_size ?kvs \<le> 3928" by (simp add: kvs_size_def default_env_set_def Key_list_def)
  have bad: "\<forall>b. base_ok b \<longrightarrow> u32_at f (b + 4) \<noteq> SECTOR_MAGIC_WORD" using assms by (auto simp: base_ok_def)
  from init_formats [OF good_keys_names [OF Key_list_good] sub dst ne sz bad] obtain s where
    s: "ef_env_init ?kvs (ef_reset f) = Some s" "ef_holds (bytes_of ` set Key_list) (map_of ?kvs) s" by blast
  have "map_of ?kvs = enc (map_of default_env_set)" by (rule map_of_enc)
  moreover have "dom (map_of default_env_set) = set Key_list" unfolding dom_map_of_conv_image_fst keys [symmetric] by simp
  moreover have "\<forall>v\<in>ran (map_of default_env_set). length v \<le> 11"
    by (auto simp: ran_def default_env_set_def dest!: map_of_SomeD)
  ultimately show ?thesis using s by (simp add: flash_map_def)
qed

lemma restart_holds:
  assumes "flash_map K n m s"
  shows "\<exists>s'. ef_env_init defaults (ef_reset (cells s)) = Some s' \<and> flash_map K n m s'"
  using assms init_reloads [OF ef_holds_flash, of "bytes_of ` K" "enc m" s defaults] by (auto simp: flash_map_def)

text \<open>The state after the first start on an erased flash.\<close>

definition started :: ef_flash where
  "started = the (ef_env_init (map (map_prod bytes_of bytes_of) default_env_set) (ef_reset (\<lambda>_. 0xFF)))"

lemma started_holds: "flash_map (set Key_list) 11 (map_of default_env_set) started"
proof -
  have "u32_at (\<lambda>_. 0xFF) a \<noteq> SECTOR_MAGIC_WORD" for a by (simp add: u32_at_def)
  from first_start [OF this this] show ?thesis by (auto simp: started_def)
qed

section \<open>Properties\<close>

text \<open>
  C5. For every sequence of writes and reads of names that the store tells apart and that fit,
  \<open>ef_env.c\<close> on the bytes of the flash returns what the string API of \<open>FlashWork\<close> returns on its
  map, no write is refused however long the sequence is, and at the end the flash holds the map.
  The collections that the writes trigger are part of this.
\<close>

theorem flash_refines_api:
  assumes "good_names K" "roomy K n" "flash_map K n (env_kv e) s" "env_ready e"
    "list_all (op_ok (\<lambda>k. k \<in> K) (\<lambda>v. length v \<le> n)) ops"
  shows "fst (kv_run flash_put flash_get ops s) = fst (kv_run ef_set_env api_get ops e) \<and>
    flash_map K n (env_kv (snd (kv_run ef_set_env api_get ops e))) (snd (kv_run flash_put flash_get ops s))"
proof -
  have fl: "flash_names K n" using assms(1,2) by unfold_locales
  have ok: "list_all (op_ok (\<lambda>k. length k \<le> EF_ENV_NAME_MAX) (\<lambda>_. True)) ops"
    using assms(1,5) by (auto simp: list_all_iff good_names_def) (metis kv_op.exhaust op_ok.simps)
  from flash_names.flash_run [OF fl assms(3,5)] api.run_spec [where m = "env_kv e" and s = e, OF _ ok] assms(4)
  show ?thesis by simp
qed

theorem flash_refines_api_witness:
  "fst (kv_run flash_put flash_get [Put ''boot_times'' ''5'', Get ''boot_times'', Get ''TDS_Offset''] started) =
   [Stored EF_NO_ERR, Got (Some ''5''), Got (Some ''0'')]"
proof -
  let ?e = "\<lparr>env_kv = map_of default_env_set, init_ok = True, env_room = True, key_addr = (\<lambda>_. 0)\<rparr>"
  let ?ops = "[Put ''boot_times'' ''5'', Get ''boot_times'', Get ''TDS_Offset'']"
  have "fst (kv_run flash_put flash_get ?ops started) = fst (kv_run ef_set_env api_get ?ops ?e)"
    using flash_refines_api [OF Key_list_good Key_list_roomy, of ?e started ?ops] started_holds
    by (simp add: env_ready_def Key_list_def)
  also have "\<dots> = [Stored EF_NO_ERR, Got (Some ''5''), Got (Some ''0'')]"
    by (simp add: api_get_def ef_set_env_def ef_get_env_def ef_get_env_blob_def ef_is_str_def default_env_set_def Key_list_def)
  finally show ?thesis .
qed

text \<open>
  C12. A restart after any such sequence (all of RAM lost, the flash cells kept) makes
  \<open>ef_env_init\<close> end with the same names and values, whatever the defaults are.
\<close>

theorem flash_restart:
  assumes "good_names K" "roomy K n" "flash_map K n m s" "list_all (op_ok (\<lambda>k. k \<in> K) (\<lambda>v. length v \<le> n)) ops"
  shows "\<exists>s'. ef_env_init defaults (ef_reset (cells (snd (kv_run flash_put flash_get ops s)))) = Some s' \<and>
    flash_map K n (snd (map_run ops m)) s'"
proof -
  have fl: "flash_names K n" using assms(1,2) by unfold_locales
  from flash_names.flash_run [OF fl assms(3,4)] show ?thesis by (intro restart_holds) simp
qed

theorem flash_restart_witness:
  "\<exists>s'. ef_env_init [] (ef_reset (cells (snd (kv_run flash_put flash_get [Put ''TDS_Offset'' ''-7''] started)))) = Some s' \<and>
    flash_map (set Key_list) 11 ((map_of default_env_set)(''TDS_Offset'' \<mapsto> ''-7'')) s'"
  using flash_restart [OF Key_list_good Key_list_roomy started_holds, of "[Put ''TDS_Offset'' ''-7'']" "[]"]
  by (simp add: Key_list_def)

text \<open>
  C28. On a flash without a valid sector header (erased, or with any other contents) the first start
  ends, formats both sectors and leaves the default set of the port: the 19 names with value 0.
\<close>

theorem flash_first_start:
  assumes "u32_at f 4 \<noteq> SECTOR_MAGIC_WORD" "u32_at f 4100 \<noteq> SECTOR_MAGIC_WORD"
  shows "\<exists>s. ef_env_init (map (map_prod bytes_of bytes_of) default_env_set) (ef_reset f) = Some s \<and>
    flash_map (set Key_list) 11 (map_of default_env_set) s"
  by (rule first_start [OF assms])

theorem flash_first_start_witness:
  "\<exists>s. ef_env_init (map (map_prod bytes_of bytes_of) default_env_set) (ef_reset (\<lambda>_. 0xFF)) = Some s \<and>
    flash_map (set Key_list) 11 (map_of default_env_set) s"
  by (rule flash_first_start) (simp_all add: u32_at_def)

text \<open>
  C34. On a flash whose cells hold the map \<open>m\<close>, for names without a zero byte, of at most
  \<open>EF_ENV_NAME_MAX\<close> characters and with different check sums in the cache: \<open>ef_del_env\<close> returns
  \<open>EF_NO_ERR\<close> for a stored name, and afterwards the cells hold \<open>m\<close> without this name and with all
  others; for a name that is not stored it returns \<open>EF_ENV_NAME_ERR\<close> and the cells still hold \<open>m\<close>.
\<close>

theorem flash_delete:
  assumes "good_names K" "flash_map K n m s" "k \<in> K"
  shows "\<exists>s'. ef_del_env (bytes_of k) s = (if k \<in> dom m then EF_NO_ERR else EF_ENV_NAME_ERR, s') \<and> flash_map K n (m(k := None)) s'"
proof -
  have m: "ef_holds (bytes_of ` K) (enc m) s" "dom m \<subseteq> K" "\<forall>v\<in>ran m. length v \<le> n" using assms(2) by (simp_all add: flash_map_def)
  have d: "bytes_of k \<in> dom (enc m) \<longleftrightarrow> k \<in> dom m" by (auto simp: dom_def)
  from ef_del_holds [OF good_keys_names [OF assms(1)] m(1), of "bytes_of k"] assms(3) obtain s' where
    "ef_del_env (bytes_of k) s = (if k \<in> dom m then EF_NO_ERR else EF_ENV_NAME_ERR, s')" "ef_holds (bytes_of ` K) (enc (m(k := None))) s'"
    unfolding d enc_del by blast
  moreover have "dom (m(k := None)) \<subseteq> K" "\<forall>v\<in>ran (m(k := None)). length v \<le> n" using m(2,3) by (auto simp: ran_def)
  ultimately show ?thesis by (auto simp: flash_map_def)
qed

theorem flash_delete_witness:
  "\<exists>s'. ef_del_env (bytes_of ''TDS_Offset'') started = (EF_NO_ERR, s') \<and>
    flash_map (set Key_list) 11 ((map_of default_env_set)(''TDS_Offset'' := None)) s'"
  using flash_delete [OF Key_list_good started_holds, of "''TDS_Offset''"]
  by (simp add: Key_list_def default_env_set_def)

end
