(* ===== verification/EfPower.thy ===== *)
theory EfPower
  imports EfStart
begin

text \<open>
  Power failures between the steps of an update, and an area without room. \<open>set_env\<close> first marks the
  old node, then writes the new one, then deletes the old one; a restart in between finds the old
  node marked and completes or undoes the update.
\<close>

unbundle bit_operations_syntax

section \<open>A sector with one marked node\<close>

definition torn :: "u8 list set \<Rightarrow> sect \<Rightarrow> enode list \<Rightarrow> enode \<Rightarrow> enode list \<Rightarrow> bool" where
  "torn K c xs nd ys \<longleftrightarrow> snds c = xs @ nd # ys \<and> stb nd = 0x1F \<and> sst c = 0x3F \<and> (sdt c = 0x3F \<or> sdt c = 0x7F) \<and>
     (\<forall>x\<in>set (xs @ ys). settled x) \<and> (\<forall>x\<in>set (snds c). nm x \<in> K) \<and> distinct (map nm (filter live (snds c)))"

text \<open>What recovery appends: a copy of the marked node, unless there is a newer one of the name.\<close>

definition undone :: "enode list \<Rightarrow> enode \<Rightarrow> enode list" where
  "undone nds nd = (if \<exists>x\<in>set nds. live x \<and> nm x = nm nd then [] else [Enode 0x3F (nm nd) (vl nd)])"

definition mended :: "enode list \<Rightarrow> enode \<Rightarrow> enode list \<Rightarrow> sect" where
  "mended xs nd ys = \<lparr>sst = 0x3F, sdt = 0x3F, snds = xs @ restatus 0xEF nd # ys @ undone (xs @ ys) nd\<rparr>"

lemma tornD:
  assumes "torn K c xs nd ys"
  shows "snds c = xs @ nd # ys" "stb nd = 0x1F" "sst c = 0x3F" "sdt c = 0x3F \<or> sdt c = 0x7F" "\<not> live nd" "dirtied (sdt c) = 0x3F"
    "\<forall>x\<in>set (xs @ ys). settled x" "\<forall>x\<in>set (snds c). nm x \<in> K" "distinct (map nm (filter live (snds c)))"
proof -
  show "\<not> live nd" "dirtied (sdt c) = 0x3F" using assms by (auto simp: torn_def live_def dirtied_def)
qed (use assms in \<open>unfold torn_def, blast+\<close>)

lemma torn_area:
  assumes "torn K c xs nd ys" "good_keys K"
  shows "used (one b c)" "names_in K (one b c)" "0 \<notin> set (nm nd)"
  using assms by (auto simp: torn_def used_def one_def names_in_def good_keys_def)

lemma locate_iff: "locate key p nds = None \<longleftrightarrow> (\<forall>x\<in>set nds. live x \<longrightarrow> nm x \<noteq> key)"
  by (induction nds arbitrary: p) auto

lemma find_torn:
  assumes "repr s (one b c)" "base_ok b" "torn K c xs nd ys" "good_keys K"
  shows "\<exists>e. find_env_no_cache (nm nd) obj0 s = (\<exists>x\<in>set (xs @ ys). live x \<and> nm x = nm nd, e, s)"
proof -
  note t = tornD [OF assms(3)]
  obtain e where f: "find_env_no_cache (nm nd) obj0 s =
      (case locate (nm nd) (b + 16) (snds c) of Some (q, x) \<Rightarrow> (True, node_obj q x, s) | None \<Rightarrow> (False, e, s))"
    using find_env_no_cache_ok [OF assms(1) torn_area [OF assms(3,4)], of obj0] locate_one [OF assms(2)] by auto
  have "(\<exists>x\<in>set (xs @ ys). live x \<and> nm x = nm nd) \<longleftrightarrow> locate (nm nd) (b + 16) (snds c) \<noteq> None"
    unfolding locate_iff using t(1,5) by auto
  with f show ?thesis by (auto split: option.splits)
qed

lemma mended_ok:
  assumes "torn K c xs nd ys"
  shows "sect_ok K (mended xs nd ys)"
proof -
  note t = tornD [OF assms]
  have nl: "\<not> live (restatus 0xEF nd)" "settled (restatus 0xEF nd)" using t(2) by (simp_all add: live_def settled_def)
  have u: "\<forall>x\<in>set (undone (xs @ ys) nd). settled x \<and> nm x \<in> K" using t(1,8) by (auto simp: undone_def settled_def)
  have "distinct (map nm (filter live (xs @ ys @ undone (xs @ ys) nd)))"
    using t(1,5,9) by (auto simp: undone_def)
  with nl u t(1,7,8) show ?thesis by (auto simp: sect_ok_def mended_def)
qed

section \<open>Recovery of the marked node\<close>

lemma cached_drop:
  assumes "env_cache_ok (\<lambda>r a. r \<noteq> crc_of_name (nm nd) \<and> cached (one b c) r a) s" "snds c = xs @ nd # ys"
    "snds d = xs @ nd' # ys" "nlen nd' = nlen nd"
  shows "env_cache_ok (cached (one b d)) s"
  using assms(1)
proof (rule env_cache_mono)
  fix r a
  assume "r \<noteq> crc_of_name (nm nd) \<and> cached (one b c) r a"
  then have "cached ((one b c)(b := d)) r a" using assms(2-4) by (intro cached_change [of _ r a b xs nd ys d nd']) simp_all
  then show "cached (one b d) r a" by simp
qed

lemma move_torn:
  assumes "repr s (one b c)" "base_ok b" "torn K c xs nd ys" "good_keys K" "nlen nd + 152 \<le> 4080 - nsize (snds c)"
    "in_recovery_check s" "\<not> gc_request s" "\<not> last_is_complete_del s" "env_cache_ok (cached (one b c)) s"
  shows "\<exists>s'. move_env (node_obj (tail_of b xs) nd) s = (EF_NO_ERR, s') \<and> repr s' (one b (mended xs nd ys)) \<and>
    env_cache_ok (cached (one b (mended xs nd ys))) s' \<and> in_recovery_check s' \<and> \<not> gc_request s' \<and> \<not> last_is_complete_del s' \<and>
    ef_init_ok s' = ef_init_ok s"
proof -
  note t = tornD [OF assms(3)]
  let ?a = "tail_of b (snds c)" and ?p = "tail_of b xs" and ?u = "undone (xs @ ys) nd"
  let ?ex = "\<exists>x\<in>set (xs @ ys). live x \<and> nm x = nm nd"
  have rm: "room_in (one b c) (nlen nd) (gc_request s) = Some b"
    using room_in_one [OF assms(2), of c "nlen nd"] t(1,3,4) assms(5,7) by auto
  obtain sec s1 where al: "alloc_env sector0 (nlen nd) s = (?a, sec, s1)" "repr s1 (one b c)" "meta_ok (one b c) b sec" "but_cache s s1"
    using alloc_env_ok [OF assms(1) torn_area(1) [OF assms(3,4)], of sector0 "nlen nd"] rm by auto
  note bc = but_cacheD [OF al(4)]
  have aF: "?a \<noteq> FAILED_ADDR" using pick_None_tail [OF assms(1,2)] by simp
  have ec1: "env_cache_ok (cached (one b c)) s1" using assms(9) bc by simp
  have tw: "takeWhile (\<lambda>c. c \<noteq> 0) (nm nd) = nm nd" by (rule takeWhile_nonzero [OF torn_area(3) [OF assms(3,4)]])
  obtain e where f: "find_env_no_cache (takeWhile (\<lambda>c. c \<noteq> 0) (nm nd)) obj0 s1 = (?ex, e, s1)"
    unfolding tw using find_torn [OF al(2) assms(2-4)] by blast
  let ?d = "\<lparr>sst = 0x3F, sdt = sdt c, snds = xs @ nd # ys @ ?u\<rparr> :: sect"
  have "\<exists>s2. (if ?ex then (EF_NO_ERR, s1) else copy_env (node_obj ?p nd) ?a sec s1) = (EF_NO_ERR, s2) \<and> repr s2 (one b ?d) \<and>
      env_cache_ok (cached (one b ?d)) s2 \<and> in_recovery_check s2 \<and> \<not> gc_request s2 \<and> \<not> last_is_complete_del s2 \<and> ef_init_ok s2 = ef_init_ok s"
  proof (cases ?ex)
    case True
    then have "?d = c" using t(1,3) by (cases c) (simp add: undone_def)
    with True al(2) ec1 bc assms(6-8) show ?thesis by auto
  next
    case False
    let ?n = "Enode 0x3F (nm nd) (vl nd)"
    have n: "nlen ?n = nlen nd" by (simp add: nlen_def)
    have u: "?u = [?n]" unfolding undone_def using False by (rule if_not_P)
    have st: "sst (one b c b) \<noteq> 0x1F" "nlen nd < 4080 - nsize (snds (one b c b))" "snds (one b c b) = xs @ nd # ys" using t(1,3) assms(5) by simp_all
    have "store_after c (nlen nd) = 0x3F" using t(3) assms(5) by (auto simp: store_after_def)
    then have app: "appended (one b c) b ?n = one b ?d" using t(1) n u by (simp add: appended_one)
    from copy_env_ok [OF al(2) assms(2) meta_place [OF al(3)] st(1) assms(2) st(3), of nd] st(2) app
    obtain s2 where s2: "copy_env (node_obj ?p nd) ?a sec s1 = (EF_NO_ERR, s2)" "repr s2 (one b ?d)"
        "gc_request s2 = gc_request s1" "last_is_complete_del s2 = last_is_complete_del s1" "ef_init_ok s2 = ef_init_ok s1"
        "in_recovery_check s2 = in_recovery_check s1" "env_cache_table s2 = env_cache_table (update_env_cache (nm nd) ?a s1)" by auto
    have "env_cache_ok (cached (one b ?d)) s2"
    proof (rule cache_written [OF ec1 s2(7) aF])
      show "cached (one b ?d) (crc_of_name (nm nd)) ?a"
        using cached_here [of b "one b ?d" "snds c" ?n "[]"] assms(2) t(1) u by (simp add: live_def)
      show "cached (one b ?d) r x" if "cached (one b c) r x" for r x
        using cached_append [OF that, of ?d b ?u] t(1) by simp
    qed
    with s2 False bc assms(6-8) show ?thesis by auto
  qed
  then obtain s2 where s2: "(if ?ex then (EF_NO_ERR, s1) else copy_env (node_obj ?p nd) ?a sec s1) = (EF_NO_ERR, s2)" "repr s2 (one b ?d)"
      "env_cache_ok (cached (one b ?d)) s2" "in_recovery_check s2" "\<not> gc_request s2" "\<not> last_is_complete_del s2" "ef_init_ok s2 = ef_init_ok s" by blast
  have nb: "snds (one b ?d b) = xs @ nd # (ys @ ?u)" by simp
  have md: "mended xs nd ys = \<lparr>sst = 0x3F, sdt = dirtied (sdt c), snds = xs @ restatus 0xEF nd # ys @ ?u\<rparr>" using t(6) by (simp add: mended_def)
  obtain s3 where d: "del_env_at (nm nd) ?p True s2 = (EF_NO_ERR, s3)" "repr s3 (one b (mended xs nd ys))" "\<not> last_is_complete_del s3"
      "gc_request s3 = gc_request s2" "ef_init_ok s3 = ef_init_ok s2" "in_recovery_check s3 = in_recovery_check s2"
      "env_cache_table s3 = env_cache_table (update_env_cache (nm nd) FAILED_ADDR s2)"
    using del_env_at_ok [OF s2(2) assms(2) nb, of "nm nd" True] s2(6) md by auto
  have "env_cache_ok (\<lambda>r a. r \<noteq> crc_of_name (nm nd) \<and> cached (one b ?d) r a) s3"
    using env_cache_del [OF s2(3), of "nm nd"] d(7) by (simp add: env_cache_ok_def)
  from cached_drop [OF this, of xs "ys @ ?u" "mended xs nd ys" "restatus 0xEF nd"]
  have "env_cache_ok (cached (one b (mended xs nd ys))) s3" by (simp add: mended_def)
  moreover have o: "nd_status (node_obj ?p nd) = 3" "nd_name (node_obj ?p nd) = nm nd" "nd_start (node_obj ?p nd) = ?p" "nd_len (node_obj ?p nd) = nlen nd"
    using t(2) by (simp_all add: node_obj_def)
  moreover have "move_env (node_obj ?p nd) s = (EF_NO_ERR, s3)"
    using al(1) aF f s2(1) d(1) bc(6) assms(6) o by (simp add: move_env_def)
  ultimately show ?thesis using d s2 by auto
qed

text \<open>The loop over the nodes runs up to the marked one, moves it, and goes on behind it.\<close>

lemma env_loop_skip:
  assumes body: "\<And>p nd x. nd \<in> set xs \<Longrightarrow> body (node_obj p nd) x s = (False, x, s)"
    and sec: "base_ok b" "sector_at (cells s) b st dt (pre @ xs @ nd # ys)" "sec_cache_ok T s" "tails_ok T b (pre @ xs @ nd # ys)"
      "sm_addr sec = b" "sm_store sec \<noteq> 1"
    and nxt: "get_next_env_addr sec env s = tail_of b pre"
  shows "\<exists>e. env_loop sec body env x s = env_loop sec body e x s \<and> get_next_env_addr sec e s = tail_of b (pre @ xs)"
  using sec(2,4) nxt body
proof (induction xs arbitrary: pre env)
  case Nil
  then show ?case by auto
next
  case (Cons y xs)
  let ?p = "tail_of b pre"
  have s: "sector_at (cells s) b st dt (pre @ y # (xs @ nd # ys))" "tails_ok T b (pre @ y # (xs @ nd # ys))" using Cons.prems(1,2) by simp_all
  have sz: "16 + nsize (pre @ y # xs @ nd # ys) \<le> 4096" and wf: "wf_node y" and y: "at (cells s) ?p (node_bytes y)"
    using s(1) by (auto simp: sector_at_def)
  have p: "?p \<noteq> FAILED_ADDR" using sz base_okD [OF sec(1)] by simp
  have nx: "get_next_env_addr sec (node_obj ?p y) s = tail_of b (pre @ [y])"
    using get_next_after [OF sec(1) s(1) sec(3) s(2) sec(5,6)] by (simp add: add.assoc)
  have st: "env_loop sec body env x s = env_loop sec body (node_obj ?p y) x s"
    using env_loop_step [OF Cons.prems(3) p y wf, of body x False x s] Cons.prems(4) by simp
  have "\<exists>e. env_loop sec body (node_obj ?p y) x s = env_loop sec body e x s \<and> get_next_env_addr sec e s = tail_of b ((pre @ [y]) @ xs)"
    using Cons.IH [of "pre @ [y]" "node_obj ?p y"] Cons.prems(1,2,4) nx by simp
  with st show ?case by simp
qed

lemma recover_idle: "settled nd \<Longrightarrow> check_and_recovery_env_cb (node_obj p nd) x s = (False, x, s)"
  by (auto simp: check_and_recovery_env_cb_def node_obj_def settled_def)

lemma turn_torn:
  assumes "repr s (one b c)" "base_ok b" "torn K c xs nd ys" "good_keys K" "nlen nd + 152 \<le> 4080 - nsize (snds c)"
    "in_recovery_check s" "\<not> gc_request s" "\<not> last_is_complete_del s" "env_cache_ok (cached (one b c)) s"
  shows "\<exists>e s'. env_turn check_and_recovery_env_cb b sec env () s = (False, sec_meta b (sst c) (sdt c) sec, e, (), s') \<and>
    repr s' (one b (mended xs nd ys)) \<and> env_cache_ok (cached (one b (mended xs nd ys))) s' \<and> in_recovery_check s' \<and> \<not> gc_request s' \<and>
    \<not> last_is_complete_del s' \<and> ef_init_ok s' = ef_init_ok s"
proof -
  note t = tornD [OF assms(3)]
  let ?sec = "sec_meta b (sst c) (sdt c) sec" and ?cb = check_and_recovery_env_cb and ?p = "tail_of b xs"
  let ?nd = "restatus 0xEF nd"
  define zs where "zs = ys @ undone (xs @ ys) nd"
  obtain s' where mv: "move_env (node_obj ?p nd) s = (EF_NO_ERR, s')" "repr s' (one b (mended xs nd ys))"
      "env_cache_ok (cached (one b (mended xs nd ys))) s'" "in_recovery_check s' \<and> \<not> gc_request s' \<and> \<not> last_is_complete_del s' \<and> ef_init_ok s' = ef_init_ok s"
    using move_torn [OF assms] by blast
  have rd: "read_sector_meta_data b sec False s = (EF_NO_ERR, ?sec, s)"
    using read_meta [OF repr_hdr [OF assms(1,2)]] base_okD [OF assms(2)] by simp
  have st: "sm_store ?sec = 2" "sm_addr ?sec = b" using t(3) by simp_all
  have at: "sector_at (cells s) b (sst c) (sdt c) (xs @ nd # ys)" using repr_sector [OF assms(1,2)] t(1) by simp
  have tl: "sec_cache_ok (tails (one b c)) s" "tails_ok (tails (one b c)) b (xs @ nd # ys)"
    using assms(1) tails_ok_tails [of "one b c" b] t(1) by (simp_all add: repr_def)
  have "\<exists>e. env_loop ?sec ?cb (env\<lparr>nd_start := FAILED_ADDR\<rparr>) () s = env_loop ?sec ?cb e () s \<and> get_next_env_addr ?sec e s = tail_of b ([] @ xs)"
    by (rule env_loop_skip [of xs ?cb s b "sst c" "sdt c" "[]" nd ys "tails (one b c)"])
      (use t(7) at tl assms(2) st in \<open>auto simp: get_next_first recover_idle\<close>)
  then obtain e where e: "env_loop ?sec ?cb (env\<lparr>nd_start := FAILED_ADDR\<rparr>) () s = env_loop ?sec ?cb e () s" "get_next_env_addr ?sec e s = ?p" by auto
  have n: "at (cells s) ?p (node_bytes nd)" "wf_node nd" "?p \<noteq> FAILED_ADDR"
    using at base_okD [OF assms(2)] by (auto simp: sector_at_def)
  have "?cb (node_obj ?p nd) () s = (False, (), s')"
    using mv(1) t(2) by (simp add: check_and_recovery_env_cb_def node_obj_def)
  with env_loop_step [where body = ?cb and x = "()" and brk = False and x' = "()" and s' = s', OF e(2) n(3,1,2)]
  have l1: "env_loop ?sec ?cb e () s = env_loop ?sec ?cb (node_obj ?p nd) () s'" by simp
  have at': "sector_at (cells s') b 0x3F 0x3F ((xs @ [?nd]) @ zs)" using repr_sector [OF mv(2) assms(2)] by (simp add: mended_def zs_def)
  have tl': "sec_cache_ok (tails (one b (mended xs nd ys))) s'" "tails_ok (tails (one b (mended xs nd ys))) b ((xs @ [?nd]) @ zs)"
    using mv(2) tails_ok_tails [of "one b (mended xs nd ys)" b] by (simp_all add: repr_def mended_def zs_def)
  have "get_next_env_addr ?sec (node_obj ?p ?nd) s' = (if zs = [] then FAILED_ADDR else ?p + nlen ?nd)"
    using at' tl' st assms(2) by (intro get_next_after [where T = "tails (one b (mended xs nd ys))" and st = "0x3F" and dt = "0x3F"]) simp_all
  then have nx: "get_next_env_addr ?sec (node_obj ?p nd) s' = (if zs = [] then FAILED_ADDR else tail_of b (xs @ [?nd]))"
    using get_next_len [of ?nd nd ?sec ?p s'] by simp
  let ?f = "\<lambda>(_ :: env_node_obj) (x :: unit). (False, x)"
  have w: "walk ?f p nds () = (None, ())" for p nds by (induction nds arbitrary: p) auto
  have set: "settled z" if "z \<in> set zs" for z using that t(7) by (auto simp: zs_def undone_def settled_def split: if_splits)
  have "\<exists>e. env_loop ?sec ?cb (node_obj ?p nd) () s' = (case walk ?f (tail_of b (xs @ [?nd])) zs () of
      (Some o', x') \<Rightarrow> (True, o', x', s') | (None, x') \<Rightarrow> (False, e, x', s'))"
    by (rule env_loop_walk [OF _ assms(2) at' tl' _ _ nx]) (use set st in \<open>simp_all add: recover_idle\<close>)
  with w l1 e(1) obtain e' where "env_loop ?sec ?cb (env\<lparr>nd_start := FAILED_ADDR\<rparr>) () s = (False, e', (), s')" by auto
  then have "env_turn ?cb b sec env () s = (False, ?sec, e', (), s')" using rd st by (simp add: env_turn_def)
  with mv show ?thesis by blast
qed

lemma recovery_torn:
  assumes "repr s (one b c)" "base_ok b" "torn K c xs nd ys" "good_keys K" "nlen nd + 152 \<le> 4080 - nsize (snds c)"
    "in_recovery_check s" "\<not> gc_request s" "\<not> last_is_complete_del s" "env_cache_ok (cached (one b c)) s"
  shows "\<exists>s'. recovery_loop s = Some s' \<and> repr s' (one b (mended xs nd ys)) \<and> env_cache_ok (cached (one b (mended xs nd ys))) s' \<and>
    \<not> gc_request s' \<and> \<not> last_is_complete_del s'"
proof -
  let ?cb = check_and_recovery_env_cb and ?sec0 = "sector0\<lparr>sm_addr := FAILED_ADDR\<rparr>" and ?M = "one b (mended xs nd ys)"
  have idle: "\<exists>e. env_turn ?cb a sec env () s' = (False, sec_meta a 0x7F 0x7F sec, e, (), s')"
    if "repr s' (one b d)" "used (one b d)" "base_ok a" "a \<noteq> b" for a sec env s' d
    using env_turn_idle [OF that(1-3), of ?cb sec env "()"] that(4) by auto
  have us: "used ?M" by (auto simp: used_def one_def mended_def)
  have "\<exists>e s'. env_iterator obj0 () ?cb s = (e, (), s') \<and> repr s' ?M \<and> env_cache_ok (cached ?M) s' \<and> \<not> gc_request s' \<and> \<not> last_is_complete_del s'"
  proof (cases "b = 0")
    case True
    obtain e0 s' where t0: "env_turn ?cb 0 ?sec0 obj0 () s = (False, sec_meta 0 (sst c) (sdt c) ?sec0, e0, (), s')"
        "repr s' ?M" "env_cache_ok (cached ?M) s'" "\<not> gc_request s' \<and> \<not> last_is_complete_del s'"
      using turn_torn [OF assms, of ?sec0 obj0] True by blast
    obtain e1 where t1: "env_turn ?cb 4096 (sec_meta 0 (sst c) (sdt c) ?sec0) e0 () s' =
        (False, sec_meta 4096 0x7F 0x7F (sec_meta 0 (sst c) (sdt c) ?sec0), e1, (), s')"
      using idle [OF t0(2) us base_ok_01(2)] True by auto
    show ?thesis using env_iterator_turns [OF t0(1) _ t1] t0 by auto
  next
    case False
    then have b: "b = 4096" using assms(2) by (simp add: base_ok_def)
    obtain e0 where t0: "env_turn ?cb 0 ?sec0 obj0 () s = (False, sec_meta 0 0x7F 0x7F ?sec0, e0, (), s)"
      using idle [OF assms(1) torn_area(1) [OF assms(3,4)] base_ok_01(1)] b by auto
    obtain e1 s' where t1: "env_turn ?cb 4096 (sec_meta 0 0x7F 0x7F ?sec0) e0 () s =
        (False, sec_meta 4096 (sst c) (sdt c) (sec_meta 0 0x7F 0x7F ?sec0), e1, (), s')"
        "repr s' ?M" "env_cache_ok (cached ?M) s'" "\<not> gc_request s' \<and> \<not> last_is_complete_del s'"
      using turn_torn [OF assms, of "sec_meta 0 0x7F 0x7F ?sec0" e0] b by blast
    show ?thesis using env_iterator_turns [OF t0 _ t1(1)] t1 by auto
  qed
  then show ?thesis by (auto simp: recovery_loop.simps [of s])
qed

section \<open>Restart\<close>

lemma init_to_recovery:
  assumes "mem_repr f (one b c)" "sdt c = 0x3F \<or> sdt c = 0x7F"
  shows "\<exists>s0. repr s0 (one b c) \<and> env_cache_ok (cached (one b c)) s0 \<and> in_recovery_check s0 \<and> \<not> gc_request s0 \<and> \<not> last_is_complete_del s0 \<and>
    ef_env_init defaults (ef_reset f) = map_option (\<lambda>s. s\<lparr>in_recovery_check := False, ef_init_ok := True\<rparr>) (recovery_loop s0)"
proof -
  let ?s = "(init_caches (ef_reset f))\<lparr>in_recovery_check := True\<rparr>"
  have fl: "cells ?s = f" "chip_ok ?s" "\<not> hung ?s" "\<not> gc_request ?s" "\<not> last_is_complete_del ?s" "\<not> ef_init_ok (ef_reset f)"
    by (simp_all add: init_caches_def ef_reset_def)
  have ch: "sec_cache_ok (tails (one b c)) ?s" "env_cache_ok (cached (one b c)) ?s"
    using init_caches_ok [of "ef_reset f"] by (simp_all add: ef_reset_def sec_cache_ok_def env_cache_ok_def)
  have r: "repr ?s (one b c)" using assms(1) fl ch by (simp add: repr_def)
  have "check_sec_hdr_cb (sec_meta a st dt sec) x ?s = (False, x, ?s)" for a st dt sec x by (simp add: check_sec_hdr_cb_def)
  from sector_iterator_idle [where cb = check_sec_hdr_cb and x = 0, OF r this]
  obtain sec1 where h: "sector_iterator sector0 0 0 check_sec_hdr_cb False ?s = (sec1, 0, ?s)" by blast
  have st: "get_status [sdt (one b c a)] 4 = 2 \<or> get_status [sdt (one b c a)] 4 = 1" for a using assms(2) by (auto simp: one_def)
  have "check_and_recovery_gc_cb (sec_meta a (sst (one b c a)) (sdt (one b c a)) sec) x ?s = (False, x, ?s)" for a sec x
    using st [of a] by (auto simp: check_and_recovery_gc_cb_def)
  from sector_iterator_idle [where cb = check_and_recovery_gc_cb and x = "()", OF r this]
  obtain sec2 where g: "sector_iterator sector0 0 () check_and_recovery_gc_cb False ?s = (sec2, (), ?s)" by blast
  have "ef_env_init defaults (ef_reset f) = map_option (\<lambda>s. s\<lparr>in_recovery_check := False, ef_init_ok := True\<rparr>) (recovery_loop ?s)"
    using h g fl(6) by (simp add: ef_env_init_def ef_load_env_def option.map_comp comp_def)
  with r ch fl show ?thesis by (intro exI [of _ ?s]) simp
qed

lemma init_torn:
  assumes "mem_repr f (one b c)" "base_ok b" "torn K c xs nd ys" "good_keys K" "nlen nd + 152 \<le> 4080 - nsize (snds c)"
  shows "\<exists>s. ef_env_init defaults (ef_reset f) = Some s \<and> holds K b (mended xs nd ys) s"
proof -
  obtain s0 where i: "repr s0 (one b c)" "env_cache_ok (cached (one b c)) s0" "in_recovery_check s0" "\<not> gc_request s0" "\<not> last_is_complete_del s0"
      "ef_env_init defaults (ef_reset f) = map_option (\<lambda>s. s\<lparr>in_recovery_check := False, ef_init_ok := True\<rparr>) (recovery_loop s0)"
    using init_to_recovery [OF assms(1)] tornD(4) [OF assms(3)] by blast
  from recovery_torn [OF i(1) assms(2-5) i(3-5,2)] obtain s' where
    s': "recovery_loop s0 = Some s'" "repr s' (one b (mended xs nd ys))" "env_cache_ok (cached (one b (mended xs nd ys))) s'"
      "\<not> gc_request s'" "\<not> last_is_complete_del s'" by blast
  then have "holds K b (mended xs nd ys) (s'\<lparr>in_recovery_check := False, ef_init_ok := True\<rparr>)"
    using assms(2) mended_ok [OF assms(3)] by (simp add: holds_def at_rest_def repr_def sec_cache_ok_def env_cache_ok_def)
  with i(6) s'(1) show ?thesis by simp
qed

section \<open>The steps of an update\<close>

text \<open>
  The flash contents while \<open>set_env\<close> replaces the value of a stored name: before and after the old node is
  marked and the sector is marked dirty; then with the new node, before and after the old one is deleted.
\<close>

definition set_cuts :: "u8 list \<Rightarrow> u8 list \<Rightarrow> ef_flash \<Rightarrow> (nat \<Rightarrow> u8) list \<times> (nat \<Rightarrow> u8) list" where
  "set_cuts key v s =
     (case new_env_by_kv sector0 (length key) (length v) s of (_, sector, s) \<Rightarrow>
      case find_env key obj0 s of (_, env, s) \<Rightarrow>
        let s1 = snd (write_status (nd_start env) ENV_STATUS_NUM ENV_PRE_DELETE s);
            s2 = snd (del_env_at key (nd_start env) False s);
            s3 = snd (create_env_blob sector key v s2);
            s4 = snd (write_status (nd_start env) ENV_STATUS_NUM ENV_DELETED s3)
        in ([cells s, cells s1, cells s2], [cells s3, cells s4]))"

lemma store_of_replaced:
  assumes "distinct (map nm (filter live (xs @ nd # ys)))" "live nd" "filter live nds = filter live (xs @ ys) @ [Enode 0x3F (nm nd) v]"
  shows "store_of nds = (store_of (xs @ nd # ys))(nm nd \<mapsto> v)"
proof -
  let ?X = "filter live (xs @ ys)"
  have X: "filter live ?X = ?X" by (rule filter_True) auto
  have "filter live nds = filter live ?X @ [Enode 0x3F (nm nd) v]" unfolding X by (rule assms(3))
  then have "store_of nds = store_of [Enode 0x3F (nm nd) v] ++ store_of ?X" by (rule store_of_append) (simp add: live_def)
  also have "store_of ?X = (store_of (xs @ nd # ys))(nm nd := None)"
    by (rule store_of_except) (simp only: X others_split [OF assms(1,2)])
  also have "store_of [Enode 0x3F (nm nd) v] ++ (store_of (xs @ nd # ys))(nm nd := None) = (store_of (xs @ nd # ys))(nm nd \<mapsto> v)"
    by (auto simp: store_of_def live_def map_add_def fun_eq_iff split: option.split)
  finally show ?thesis .
qed

lemma init_marked:
  assumes "mem_repr f (one b \<lparr>sst = 0x3F, sdt = dt, snds = xs @ restatus 0xDF nd # ys @ zs\<rparr>)" "base_ok b" "good_keys K" "dt = 0x3F \<or> dt = 0x7F"
    "sect_ok K c" "snds c = xs @ nd # ys" "live nd" "zs = [] \<and> v = vl nd \<or> zs = [Enode 0x3F (nm nd) v]" "nlen nd + 152 \<le> 4080 - nsize (xs @ nd # ys @ zs)"
  shows "\<exists>s. ef_env_init defaults (ef_reset f) = Some s \<and> ef_holds K ((store_of (snds c))(nm nd \<mapsto> v)) s"
proof -
  let ?nd = "restatus 0xDF nd" and ?c = "\<lparr>sst = 0x3F, sdt = dt, snds = xs @ restatus 0xDF nd # ys @ zs\<rparr> :: sect"
  have all: "\<forall>x\<in>set (xs @ nd # ys). settled x \<and> nm x \<in> K" and dst: "distinct (map nm (filter live (xs @ nd # ys)))"
    using assms(5,6) by (simp_all add: sect_ok_def)
  have stb: "stb nd = 0x3F" using all assms(7) settled_live [of nd] by simp
  then have nl: "\<not> live ?nd" by (simp add: live_def)
  have oth: "\<forall>x\<in>set (xs @ ys). live x \<longrightarrow> nm x \<noteq> nm nd" using dst assms(7) by (auto simp: image_iff)
  have dz: "distinct (map nm (filter live (xs @ ys @ zs)))" using dst assms(7,8) oth by (auto simp: live_def)
  have "torn K ?c xs ?nd (ys @ zs)"
    using all dz nl stb assms(4,8) by (auto simp: torn_def settled_def)
  from init_torn [OF assms(1,2) this assms(3)] assms(9) obtain s where
    s: "ef_env_init defaults (ef_reset f) = Some s" "holds K b (mended xs ?nd (ys @ zs)) s" by auto
  have lv: "live (Enode 0x3F (nm nd) v)" by (simp add: live_def)
  have u: "undone (xs @ ys @ zs) ?nd = (if zs = [] then [Enode 0x3F (nm nd) (vl nd)] else [])"
    using oth assms(8) lv by (auto simp: undone_def)
  have "\<not> live (restatus 0xEF ?nd)" using stb by (simp add: live_def)
  then have "filter live (snds (mended xs ?nd (ys @ zs))) = filter live (xs @ ys) @ [Enode 0x3F (nm nd) v]"
    using assms(8) u lv by (auto simp: mended_def)
  from store_of_replaced [OF dst assms(7) this] s assms(6) show ?thesis by (auto simp: ef_holds_def)
qed

text \<open>The place of the new node and the old node, when the sector in use has room for both and for a copy.\<close>

lemma update_place:
  assumes "holds K b c s" "good_keys K" "store_of (snds c) key = Some w" "N \<ge> 24 + length key + length v"
    "fst (alloc_env sector0 N s) \<noteq> FAILED_ADDR"
  shows "\<exists>sec s1 xs nd ys. new_env_by_kv sector0 (length key) (length v) s = (tail_of b (snds c), sec, s1) \<and> place_ok (one b c) b sec \<and>
    N < 4080 - nsize (snds c) \<and> snds c = xs @ nd # ys \<and> live nd \<and> nm nd = key \<and> vl nd = w \<and>
    (\<exists>t. find_env key obj0 s1 = (True, node_obj (tail_of b xs) nd, s1\<lparr>env_cache_table := t\<rparr>) \<and> holds K b c (s1\<lparr>env_cache_table := t\<rparr>))"
proof -
  note h = holdsD [OF assms(1)]
  let ?n = "24 + length key + length v"
  have gc: "\<not> gc_request s" using h(5) by (simp add: at_rest_def)
  have "key \<in> dom (store_of (snds c))" using assms(3) by auto
  then obtain nd0 where nd0: "nd0 \<in> set (snds c)" "live nd0" "nm nd0 = key" by (auto simp: dom_store_of)
  have key: "key \<in> K" using h(2) nd0 by (auto simp: sect_ok_def)
  have c: "snds c \<noteq> []" "sst c = 0x3F" "sdt c = 0x3F \<or> sdt c = 0x7F" using h(2) nd0(1) by (auto simp: sect_ok_def)
  note rm = room_in_one [OF h(1) c]
  have N: "N < 4080 - nsize (snds c)"
    using alloc_env_ok [OF h(3) used_one [OF h(2)], of sector0 N] rm [of N] gc assms(5) by (auto split: if_splits)
  then have n: "?n < 4080 - nsize (snds c)" using assms(4) by linarith
  obtain sec s1 where a: "alloc_env sector0 ?n s = (tail_of b (snds c), sec, s1)" "repr s1 (one b c)" "meta_ok (one b c) b sec" "but_cache s s1"
    using alloc_env_ok [OF h(3) used_one [OF h(2)], of sector0 ?n] rm [of ?n] gc n by auto
  have h1: "holds K b c s1" by (rule holds_cache [OF assms(1) a(4,2)])
  note h' = holdsD [OF h1]
  have "tail_of b (snds c) \<noteq> FAILED_ADDR" using pick_None_tail [OF h(3,1)] by simp
  then have nw: "new_env_by_kv sector0 (length key) (length v) s = (tail_of b (snds c), sec, s1)"
    using a(1) by (simp add: new_env_by_kv_def new_env_def)
  from find_env_ok [OF h'(3,1,4,2) assms(2) key] nd0 obtain t xs nd ys where
    t: "env_cache_ok (cached (one b c)) (s1\<lparr>env_cache_table := t\<rparr>)" "snds c = xs @ nd # ys" "live nd" "nm nd = key"
      "find_env key obj0 s1 = (True, node_obj (tail_of b xs) nd, s1\<lparr>env_cache_table := t\<rparr>)" by blast
  have "vl nd = w" using store_of_Some [of "snds c" nd] h(2) t(2-4) assms(3) by (simp add: sect_ok_def)
  with nw meta_place [OF a(3)] N t holds_env_cache [OF h1 t(1)] show ?thesis by blast
qed

lemma update_steps:
  assumes "holds K b c s" "good_keys K" "place_ok (one b c) b sec" "snds c = xs @ nd # ys" "live nd"
    "nlen nd + 24 + length (nm nd) + length v + 152 < 4080 - nsize (snds c)"
  shows "\<exists>s2 s3 s4. del_env_at (nm nd) (tail_of b xs) False s = (EF_NO_ERR, s2) \<and> create_env_blob sec (nm nd) v s2 = (EF_NO_ERR, s3) \<and>
    repr s2 (one b \<lparr>sst = 0x3F, sdt = 0x3F, snds = xs @ restatus 0xDF nd # ys\<rparr>) \<and>
    repr s3 (one b \<lparr>sst = 0x3F, sdt = 0x3F, snds = xs @ restatus 0xDF nd # ys @ [Enode 0x3F (nm nd) v]\<rparr>) \<and> \<not> gc_request s3 \<and>
    del_env_at (nm nd) (tail_of b xs) True s3 = (EF_NO_ERR, s4) \<and> \<not> gc_request s4 \<and>
    cells s4 = cells (snd (write_status (tail_of b xs) ENV_STATUS_NUM ENV_DELETED s3)) \<and>
    repr s4 (one b \<lparr>sst = 0x3F, sdt = 0x3F, snds = xs @ restatus 0xEF (restatus 0xDF nd) # ys @ [Enode 0x3F (nm nd) v]\<rparr>)"
proof -
  let ?k = "nm nd" and ?a = "tail_of b (snds c)" and ?nd1 = "restatus 0xDF nd" and ?new = "Enode 0x3F (nm nd) v" and ?n = "24 + length (nm nd) + length v"
  note h = holdsD [OF assms(1)]
  have c: "sst c = 0x3F" "dirtied (sdt c) = 0x3F" "nm nd \<in> K" using h(2) assms(4) by (auto simp: sect_ok_def dirtied_def)
  let ?c1 = "\<lparr>sst = 0x3F, sdt = 0x3F, snds = xs @ ?nd1 # ys\<rparr> :: sect"
  let ?c2 = "\<lparr>sst = 0x3F, sdt = 0x3F, snds = xs @ ?nd1 # ys @ [?new]\<rparr> :: sect"
  obtain s2 where d1: "del_env_at ?k (tail_of b xs) False s = (EF_NO_ERR, s2)" "repr s2 (one b ?c1)" "\<not> gc_request s2" 
    using del_env_at_ok [OF h(3,1), of xs nd ys ?k False] assms(4) c h(5) by (auto simp: at_rest_def)
  have sz: "nsize (snds ?c1) = nsize (snds c)" using assms(4) by simp
  have pl: "place_ok (one b ?c1) b sec" using assms(3) sz c(1) by (simp add: place_ok_def)
  have len: "nlen ?new = ?n" by (simp add: nlen_def)
  have key: "length ?k \<le> 128" using assms(2) c(3) by (simp add: good_keys_def)
  have wf: "wf_node ?new" using len key assms(6) by (simp add: wf_node_def)
  have aF: "?a \<noteq> FAILED_ADDR" using pick_None_tail [OF h(3,1)] by simp
  have a1: "tail_of b (snds (one b ?c1 b)) = ?a" using sz by simp
  have st: "store_after ?c1 ?n = 0x3F" using sz assms(6) by (auto simp: store_after_def)
  have "sst (one b ?c1 b) \<noteq> 0x1F" "nlen ?new < 4080 - nsize (snds (one b ?c1 b))" using len assms(6) sz by simp_all
  from write_env_node_ok [OF d1(2) h(1) pl this(1) wf this(2)] obtain s3 where
    w: "write_env_node sec ?a ?k v s2 = (EF_NO_ERR, s3)" "repr s3 (one b ?c2)" "\<not> gc_request s3"
    using d1(3) st unfolding a1 by (auto simp: appended_one len)
  have cr: "create_env_blob sec ?k v s2 = (EF_NO_ERR, s3)"
    using create_placed [OF pl key, of v s2] w(1) aF assms(6) a1 by simp
  have nb: "snds (one b ?c2 b) = xs @ ?nd1 # (ys @ [?new])" by simp
  have dd: "dirtied 0x3F = 0x3F" by (simp add: dirtied_def)
  obtain s4 where d2: "del_env_at ?k (tail_of b xs) True s3 = (EF_NO_ERR, s4)" "\<not> gc_request s4"
      "repr s4 (one b \<lparr>sst = 0x3F, sdt = 0x3F, snds = xs @ restatus 0xEF ?nd1 # ys @ [?new]\<rparr>)"
    using del_env_at_ok [OF w(2) h(1) nb, of ?k True] w(3) dd by auto
  have al: "tail_of b xs div 4096 * 4096 = b" using in_sector [OF w(2) h(1) nb] nlen_ge [of ?nd1] by (intro base_align h(1)) auto
  have ws: "write_status (tail_of b xs) 6 4 s3 = (EF_NO_ERR, s3\<lparr>cells := program (tail_of b xs) [0xEF] (cells s3)\<rparr>)"
    using repr_chip [OF w(2)] by (simp add: write_status_eq)
  have rd: "read_status (b + 1) 4 s' = 2" if "cells s' = program (tail_of b xs) [0xEF] (cells s3)" for s'
    using repr_node_status [OF w(2) h(1) nb, of "0xEF"] read_dirty [of "s3\<lparr>cells := program (tail_of b xs) [0xEF] (cells s3)\<rparr>" _ b] h(1) that
    by (auto simp: read_status_def ef_port_read_def)
  have "cells s4 = cells (snd (write_status (tail_of b xs) 6 4 s3))"
    using d2(1) ws rd al by (auto simp: del_env_at_def Let_def split: if_splits)
  with d1 cr w d2 show ?thesis by auto
qed

lemma cuts_recover:
  assumes "holds K b c s" "good_keys K" "place_ok (one b c) b sec" "snds c = xs @ nd # ys" "live nd"
    "nlen nd + 24 + length (nm nd) + length v + 152 < 4080 - nsize (snds c)"
    "del_env_at (nm nd) (tail_of b xs) False s = (EF_NO_ERR, s2)" "create_env_blob sec (nm nd) v s2 = (EF_NO_ERR, s3)"
    "f \<in> {cells s, cells (snd (write_status (tail_of b xs) 6 3 s)), cells s2} \<and> v' = vl nd \<or>
     f \<in> {cells s3, cells (snd (write_status (tail_of b xs) 6 4 s3))} \<and> v' = v"
  shows "\<exists>s'. ef_env_init defaults (ef_reset f) = Some s' \<and> ef_holds K ((store_of (snds c))(nm nd \<mapsto> v')) s'"
proof -
  note h = holdsD [OF assms(1)]
  let ?nd1 = "restatus 0xDF nd" and ?new = "Enode 0x3F (nm nd) v"
  have all: "\<forall>x\<in>set (xs @ nd # ys). settled x \<and> nm x \<in> K" and dst: "distinct (map nm (filter live (xs @ nd # ys)))"
    and c: "sst c = 0x3F" "sdt c = 0x3F \<or> sdt c = 0x7F"
    using h(2) assms(4) by (auto simp: sect_ok_def)
  obtain s4 where st: "repr s2 (one b \<lparr>sst = 0x3F, sdt = 0x3F, snds = xs @ ?nd1 # ys\<rparr>)"
      "repr s3 (one b \<lparr>sst = 0x3F, sdt = 0x3F, snds = xs @ ?nd1 # ys @ [?new]\<rparr>)"
      "cells s4 = cells (snd (write_status (tail_of b xs) 6 4 s3))"
      "repr s4 (one b \<lparr>sst = 0x3F, sdt = 0x3F, snds = xs @ restatus 0xEF ?nd1 # ys @ [?new]\<rparr>)"
    using update_steps [OF assms(1-6)] assms(7,8) by auto
  have same: "(store_of (snds c))(nm nd \<mapsto> vl nd) = store_of (snds c)"
    using store_of_Some [of "snds c" nd] dst assms(4,5) by (intro map_upd_triv) simp
  have len: "nlen ?new = 24 + length (nm nd) + length v" by (simp add: nlen_def)
  from assms(9) consider (none) "f = cells s" "v' = vl nd" | (mark) "f = cells (snd (write_status (tail_of b xs) 6 3 s))" "v' = vl nd"
    | (dirty) "f = cells s2" "v' = vl nd" | (new) "f = cells s3" "v' = v" | (del) "f = cells s4" "v' = v"
    using st(3) by auto
  then show ?thesis
  proof cases
    case none
    have "ef_holds K (store_of (snds c)) s" using assms(1) by (auto simp: ef_holds_def)
    from init_reloads [OF ef_holds_flash [OF this]] none same show ?thesis by auto
  next
    case mark
    have "write_status (tail_of b xs) 6 3 s = (EF_NO_ERR, s\<lparr>cells := program (tail_of b xs) [0xDF] (cells s)\<rparr>)"
      using repr_chip [OF h(3)] by (simp add: write_status_eq)
    then have "mem_repr f (one b \<lparr>sst = 0x3F, sdt = sdt c, snds = xs @ ?nd1 # ys @ []\<rparr>)"
      using repr_node_status [OF h(3,1), of xs nd ys "0xDF"] assms(4) c(1) mark by (simp add: sect_upd repr_def)
    from init_marked [OF this h(1) assms(2) c(2) h(2) assms(4,5)] mark assms(4,6) show ?thesis by simp
  next
    case dirty
    have "mem_repr f (one b \<lparr>sst = 0x3F, sdt = 0x3F, snds = xs @ ?nd1 # ys @ []\<rparr>)" using st(1) dirty by (simp add: repr_def)
    from init_marked [OF this h(1) assms(2) _ h(2) assms(4,5)] dirty assms(4,6) show ?thesis by simp
  next
    case new
    have "mem_repr f (one b \<lparr>sst = 0x3F, sdt = 0x3F, snds = xs @ ?nd1 # ys @ [?new]\<rparr>)" using st(2) new by (simp add: repr_def)
    from init_marked [OF this h(1) assms(2) _ h(2) assms(4,5), of v] new assms(4,6) len show ?thesis by simp
  next
    case del
    let ?c = "\<lparr>sst = 0x3F, sdt = 0x3F, snds = xs @ restatus 0xEF ?nd1 # ys @ [?new]\<rparr> :: sect"
    have "stb nd = 0x3F" using all assms(5) settled_live [of nd] by simp
    then have nd2: "\<not> live (restatus 0xEF ?nd1)" "settled (restatus 0xEF ?nd1)" by (simp_all add: live_def settled_def)
    have "sect_ok K ?c" using sect_ok_replace [OF h(2) assms(4,5) _ nd2(2,1), of v] all by simp
    moreover have "filter live (snds ?c) = filter live (xs @ ys) @ [?new]" using nd2 by (simp add: live_def)
    from store_of_replaced [OF dst assms(5) this] have "store_of (snds ?c) = (store_of (snds c))(nm nd \<mapsto> v')" using assms(4) del by simp
    ultimately have "flash_holds K ((store_of (snds c))(nm nd \<mapsto> v')) f"
      using h(1) st(4) del unfolding flash_holds_def repr_def by blast
    from init_reloads [OF this] show ?thesis by blast
  qed
qed

section \<open>An area without room\<close>

lemma alloc_fail:
  assumes "holds K b c s" "4080 - nsize (snds c) \<le> n"
  shows "\<exists>sec s'. alloc_env sec0 n s = (FAILED_ADDR, sec, s') \<and> holds K b c (s'\<lparr>gc_request := False\<rparr>) \<and>
    gc_request s' = (snds c \<noteq> []) \<and> repr s' (one b c)"
proof -
  note h = holdsD [OF assms(1)]
  have gc: "\<not> gc_request s" using h(5) by (simp add: at_rest_def)
  have "room_in (one b c) n False = None \<and> (count (has_store (one b c) 1) = 1 \<longleftrightarrow> snds c \<noteq> [])"
    using h(2)
  proof (cases rule: sect_ok_cases)
    case erased
    with assms(2) show ?thesis by (simp add: room_in_def pick_def count_def has_store_def fits_def one_def packed_def)
  next
    case in_use
    then show ?thesis using room_in_one [OF h(1) in_use(1,2), of n] count_one(1) [OF h(1) _ h(3)] assms(2) by auto
  qed
  with alloc_env_ok [OF h(3) used_one [OF h(2)], of sec0 n] gc obtain sec s' where
    a: "alloc_env sec0 n s = (FAILED_ADDR, sec, s')" "repr s' (one b c)" "but_cache (s\<lparr>gc_request := snds c \<noteq> []\<rparr>) s'" by auto
  have "but_cache s (s'\<lparr>gc_request := False\<rparr>)"
    using but_cache_flag [OF a(3), of False] gc by (cases s) simp
  then have "holds K b c (s'\<lparr>gc_request := False\<rparr>)"
    using a(2) by (intro holds_cache [OF assms(1)]) (simp_all add: repr_flags)
  with a but_cacheD(4) [OF a(3)] show ?thesis by auto
qed

lemma gc_collect_clean:
  assumes "repr s (one b c)" "base_ok b" "sdt c = 0x7F" "sst c = 0x3F"
  shows "gc_collect s = s\<lparr>gc_request := False\<rparr>"
proof -
  obtain sec1 where ck: "sector_iterator sector0 1 0 gc_check_cb False s = (sec1, 1, s)"
    using gc_check_iter [OF assms(1), of sector0] count_one(1) [OF assms(2) _ assms(1)] assms(4) by auto
  have "sdt (one b c a) = 0x7F" for a using assms(3) by (simp add: one_def)
  then have "do_gc (sec_meta a (sst (one b c a)) (sdt (one b c a)) sec) x s = (False, x, s)" for a sec x by (simp add: do_gc_clean)
  from sector_iterator_idle [where cb = do_gc and x = "()", OF assms(1) this]
  obtain sec2 where "sector_iterator sector0 0 () do_gc False s = (sec2, (), s)" by blast
  with ck show ?thesis by (simp add: gc_collect_def)
qed

lemma new_env_fail:
  assumes "holds K b c s" "lsize (snds c) \<le> 3928" "4080 \<le> lsize (snds c) + n"
  shows "\<exists>sec s' b' c'. new_env sec0 n s = (FAILED_ADDR, sec, s') \<and> holds K b' c' (s'\<lparr>gc_request := False\<rparr>) \<and>
    filter live (snds c') = filter live (snds c)"
proof -
  note h = holdsD [OF assms(1)]
  have n: "4080 - nsize (snds c) \<le> n" using assms(3) lsize_le [of "snds c"] by linarith
  from alloc_fail [OF assms(1) this, of sec0] obtain sec s1 where
    a: "alloc_env sec0 n s = (FAILED_ADDR, sec, s1)" "holds K b c (s1\<lparr>gc_request := False\<rparr>)" "gc_request s1 = (snds c \<noteq> [])" "repr s1 (one b c)" by blast
  show ?thesis
  proof (cases "snds c = []")
    case True
    with a have "new_env sec0 n s = (FAILED_ADDR, sec, s1)" by (simp add: new_env_def)
    with a(2) show ?thesis by blast
  next
    case False
    have c: "sst c = 0x3F" "sdt c = 0x3F \<or> sdt c = 0x7F \<and> (\<forall>nd\<in>set (snds c). live nd)" using h(2) False by (auto simp: sect_ok_def)
    have fl: "gc_request s1" "\<not> in_recovery_check s1" "\<not> last_is_complete_del s1" "ef_init_ok s1" "env_cache_ok (cached (one b c)) s1"
      using a(2,3) False by (auto simp: holds_def at_rest_def env_cache_ok_def)
    have "\<exists>b' c'. holds K b' c' (gc_collect s1) \<and> filter live (snds c') = filter live (snds c)"
    proof (cases "sdt c = 0x3F")
      case True
      from gc_hold [OF h(2,1) a(4) refl _ False True assms(2) fl] c(1)
      have "holds K (oth b) (packed (filter live (snds c))) (gc_collect s1)" by simp
      then show ?thesis by (intro exI [of _ "oth b"] exI [of _ "packed (filter live (snds c))"]) simp
    next
      case dt: False
      with gc_collect_clean [OF a(4) h(1) _ c(1)] c(2) a(2) have "holds K b c (gc_collect s1)" by simp
      then show ?thesis by blast
    qed
    then obtain b' c' where g: "holds K b' c' (gc_collect s1)" "filter live (snds c') = filter live (snds c)" by blast
    have n': "4080 - nsize (snds c') \<le> n" using assms(3) lsize_le [of "snds c'"] unfolding g(2) by linarith
    from alloc_fail [OF g(1) n', of sec] obtain sec' s2 where
      "alloc_env sec n (gc_collect s1) = (FAILED_ADDR, sec', s2)" "holds K b' c' (s2\<lparr>gc_request := False\<rparr>)" by blast
    moreover from this have "new_env sec0 n s = (FAILED_ADDR, sec', s2)" using a(1) fl(1) by (simp add: new_env_def)
    ultimately show ?thesis using g(2) by blast
  qed
qed

text \<open>A flash that holds the name \<open>B\<close> with the value 1.\<close>

definition stored_B :: ef_flash where
  "stored_B = the (ef_env_init [([66], [49])] (ef_reset (\<lambda>_. 0xFF)))"

lemma stored_B_holds: "holds {[66]} 0 (packed [Enode 0x3F [66] [49]]) stored_B"
proof -
  have "good_keys {[66]}" by (simp add: good_keys_def)
  from init_formats_packed [OF this, of "[([66], [49])]" "\<lambda>_. 0xFF"]
  obtain s where "ef_env_init [([66], [49])] (ef_reset (\<lambda>_. 0xFF)) = Some s" "holds {[66]} 0 (packed (default_nodes [([66], [49])])) s"
    by (auto simp: kvs_size_def u32_at_def)
  then show ?thesis by (simp add: stored_B_def default_nodes_def)
qed

lemma stored_B_map: "ef_holds {[66]} [[66] \<mapsto> [49]] stored_B"
proof -
  have "store_of (snds (packed [Enode 0x3F [66] [49]])) = [[66] \<mapsto> [49]]" by (simp add: store_of_def live_def)
  then show ?thesis using stored_B_holds unfolding ef_holds_def by blast
qed

section \<open>Properties\<close>

text \<open>
  C14. Replacing a stored value survives a loss of power before and after its new node is written: a
  restart from the flash contents in front of the first write of the new node (nothing changed, the old
  node marked, the sector marked dirty) ends with every name and value as before, and a restart from the
  contents behind its last write (the old node still marked, or deleted) ends with the new value and all
  others as before. The last contents are those \<open>ef_set_env\<close> leaves. The sector in use must have
  room for the new node and for a copy of the old one.
\<close>

theorem flash_update_atomic:
  assumes "good_keys K" "ef_holds K m s" "m key = Some w"
    "fst (alloc_env sector0 (2 * (ENV_HDR_DATA_SIZE + length key) + length v + length w + 152) s) \<noteq> FAILED_ADDR"
  shows "(\<forall>f\<in>set (fst (set_cuts key v s)). \<exists>s'. ef_env_init defaults (ef_reset f) = Some s' \<and> ef_holds K m s') \<and>
    (\<forall>f\<in>set (snd (set_cuts key v s)). \<exists>s'. ef_env_init defaults (ef_reset f) = Some s' \<and> ef_holds K (m(key \<mapsto> v)) s') \<and>
    last (snd (set_cuts key v s)) = cells (snd (ef_set_env_flash key v s))"
proof -
  from assms(2) obtain b c where h: "holds K b c s" "store_of (snds c) = m" by (auto simp: ef_holds_def)
  let ?N = "2 * (24 + length key) + length v + length w + 152"
  from update_place [OF h(1) assms(1), of key w v ?N] assms(3,4) h(2) obtain sec s1 xs nd ys t where
    p: "new_env_by_kv sector0 (length key) (length v) s = (tail_of b (snds c), sec, s1)" "place_ok (one b c) b sec"
      "?N < 4080 - nsize (snds c)" "snds c = xs @ nd # ys" "live nd" "nm nd = key" "vl nd = w"
      "find_env key obj0 s1 = (True, node_obj (tail_of b xs) nd, s1\<lparr>env_cache_table := t\<rparr>)" "holds K b c (s1\<lparr>env_cache_table := t\<rparr>)"
    by auto
  let ?s = "s1\<lparr>env_cache_table := t\<rparr>" and ?p = "tail_of b xs"
  have room: "nlen nd + 24 + length (nm nd) + length v + 152 < 4080 - nsize (snds c)" using p(3,6,7) by (simp add: nlen_def)
  from update_steps [OF p(9) assms(1) p(2,4,5) room] obtain s2 s3 s4 where
    u: "del_env_at (nm nd) ?p False ?s = (EF_NO_ERR, s2)" "create_env_blob sec (nm nd) v s2 = (EF_NO_ERR, s3)"
      "del_env_at (nm nd) ?p True s3 = (EF_NO_ERR, s4)" "\<not> gc_request s4" "cells s4 = cells (snd (write_status ?p 6 4 s3))" by auto
  have st: "nd_start (node_obj ?p nd) = ?p" by (simp add: node_obj_def)
  have cuts: "set_cuts key v s = ([cells ?s, cells (snd (write_status ?p 6 3 ?s)), cells s2], [cells s3, cells (snd (write_status ?p 6 4 s3))])"
    unfolding set_cuts_def Let_def p(1) p(8) prod.case st using u(1,2) p(6) by simp
  note rec = cuts_recover [OF p(9) assms(1) p(2,4,5) room u(1,2)]
  have "m(key \<mapsto> w) = m" using assms(3) by auto
  then have "\<exists>s'. ef_env_init defaults (ef_reset f) = Some s' \<and> ef_holds K m s'" if "f \<in> set (fst (set_cuts key v s))" for f
    using rec [of f "vl nd" defaults] that p(6,7) h(2) unfolding cuts by auto
  moreover have "\<exists>s'. ef_env_init defaults (ef_reset f) = Some s' \<and> ef_holds K (m(key \<mapsto> v)) s'" if "f \<in> set (snd (set_cuts key v s))" for f
    using rec [of f v defaults] that p(6) h(2) unfolding cuts by auto
  moreover have "ef_set_env_flash key v s = (EF_NO_ERR, s4)"
  proof -
    have "tail_of b (snds c) \<noteq> FAILED_ADDR" using pick_None_tail [OF holdsD(3,1) [OF h(1)]] by simp
    then show ?thesis using p(1,6,8) u holdsD(5) [OF h(1)] st
      by (simp add: ef_set_env_flash_def ef_set_env_blob_def at_rest_def set_env_def on_ok_def)
  qed
  ultimately show ?thesis using u(5) cuts by simp
qed

theorem flash_update_atomic_witness:
  "(\<exists>s'. ef_env_init [] (ef_reset (fst (set_cuts [66] [50] stored_B) ! 1)) = Some s' \<and> ef_holds {[66]} [[66] \<mapsto> [49]] s') \<and>
   (\<exists>s'. ef_env_init [] (ef_reset (snd (set_cuts [66] [50] stored_B) ! 0)) = Some s' \<and> ef_holds {[66]} [[66] \<mapsto> [50]] s')"
proof -
  let ?N = "2 * (24 + length [66 :: u8]) + length [50 :: u8] + length [49 :: u8] + 152"
  have "?N < 4080 - nsize (snds (packed [Enode 0x3F [66] [49]]))" by (simp add: nlen_def)
  from alloc_hold [OF stored_B_holds this, of sector0] obtain b' sec s' where
    "alloc_env sector0 ?N stored_B = (tail_of b' (snds (packed [Enode 0x3F [66] [49]])), sec, s')" "base_ok b'" by (auto simp: holds_def)
  then have a: "fst (alloc_env sector0 ?N stored_B) \<noteq> FAILED_ADDR" by (auto simp: nlen_def base_ok_def)
  have "fst (set_cuts [66] [50] stored_B) ! 1 \<in> set (fst (set_cuts [66] [50] stored_B))"
    by (rule nth_mem) (simp add: set_cuts_def Let_def split: prod.split)
  moreover have "snd (set_cuts [66] [50] stored_B) ! 0 \<in> set (snd (set_cuts [66] [50] stored_B))"
    by (rule nth_mem) (simp add: set_cuts_def Let_def split: prod.split)
  moreover have "good_keys {[66]}" by (simp add: good_keys_def)
  from flash_update_atomic [OF this stored_B_map _ a, of "[]"]
  have "(\<forall>f\<in>set (fst (set_cuts [66] [50] stored_B)). \<exists>s'. ef_env_init [] (ef_reset f) = Some s' \<and> ef_holds {[66]} [[66] \<mapsto> [49]] s') \<and>
    (\<forall>f\<in>set (snd (set_cuts [66] [50] stored_B)). \<exists>s'. ef_env_init [] (ef_reset f) = Some s' \<and> ef_holds {[66]} [[66] \<mapsto> [50]] s')" by simp
  ultimately show ?thesis by blast
qed

text \<open>
  C15. A value that does not fit is refused with \<open>EF_ENV_FULL\<close> (a collection is tried first), and nothing is lost:
  every name still reads as before, and after a restart the flash holds the same names and values.
\<close>

theorem flash_full_refused:
  assumes "good_keys K" "ef_holds K m s" "map_size m \<le> ENV_CAPACITY" "4080 \<le> map_size m + ENV_HDR_DATA_SIZE + length key + length v"
  shows "\<exists>s'. ef_set_env_flash key v s = (EF_ENV_FULL, s') \<and>
    (\<forall>k\<in>K. \<forall>n. fst (ef_get_env_blob_flash k n s') = (case m k of Some v \<Rightarrow> take n v | None \<Rightarrow> [])) \<and>
    (\<exists>s''. ef_env_init defaults (ef_reset (cells s')) = Some s'' \<and> ef_holds K m s'')"
proof -
  from assms(2) obtain b c where h: "holds K b c s" "store_of (snds c) = m" by (auto simp: ef_holds_def)
  let ?n = "24 + length key + length v"
  have "distinct (map nm (filter live (snds c)))" using holdsD(2) [OF h(1)] by (simp add: sect_ok_def)
  then have sz: "lsize (snds c) = map_size m" using lsize_map_size h(2) by blast
  from new_env_fail [OF h(1), of ?n sector0] assms(3,4) sz obtain sec s' b' c' where
    f: "new_env sector0 ?n s = (FAILED_ADDR, sec, s')" "holds K b' c' (s'\<lparr>gc_request := False\<rparr>)" "filter live (snds c') = filter live (snds c)"
    by (auto simp: add.assoc)
  have m: "store_of (snds c') = m" using store_of_live [OF f(3)] h(2) by simp
  have set: "ef_set_env_flash key v s = (EF_ENV_FULL, s')"
    using f(1) holdsD(5) [OF h(1)] by (simp add: ef_set_env_flash_def ef_set_env_blob_def at_rest_def set_env_def new_env_by_kv_def)
  note h' = holdsD [OF f(2)]
  have r: "repr s' (one b' c')" "env_cache_ok (cached (one b' c')) s'" "ef_init_ok s'"
    using h'(3,4,5) by (simp_all add: repr_flags env_cache_ok_def at_rest_def)
  have "fst (ef_get_env_blob_flash k n s') = (case m k of Some v \<Rightarrow> take n v | None \<Rightarrow> [])" if "k \<in> K" for k n
    using get_env_read [OF r(1) h'(1) r(2) h'(2) assms(1) that, of n] m r(3) by (auto simp: ef_get_env_blob_flash_def)
  moreover have "flash_holds K m (cells s')"
    using ef_holds_flash [of K m "s'\<lparr>gc_request := False\<rparr>"] f(2) m by (auto simp: ef_holds_def)
  from init_reloads [OF this] have "\<exists>s''. ef_env_init defaults (ef_reset (cells s')) = Some s'' \<and> ef_holds K m s''" by blast
  ultimately show ?thesis using set by blast
qed

theorem flash_full_refused_witness:
  "\<exists>s'. ef_set_env_flash [66] (replicate 4080 50) stored_B = (EF_ENV_FULL, s') \<and> fst (ef_get_env_blob_flash [66] 5 s') = [49]"
proof -
  have "good_keys {[66]}" by (simp add: good_keys_def)
  moreover have "map_size [[66 :: u8] \<mapsto> [49 :: u8]] = 26" by (simp add: map_size_def)
  ultimately obtain s' where "ef_set_env_flash [66] (replicate 4080 50) stored_B = (EF_ENV_FULL, s')"
      "\<forall>n. fst (ef_get_env_blob_flash [66] n s') = take n [49]"
    using flash_full_refused [OF _ stored_B_map, of "[66]" "replicate 4080 50" "[]"] by auto
  then show ?thesis by (intro exI [of _ s']) simp
qed

end
