(* ===== verification/Sfud.thy ===== *)
theory Sfud
  imports EfRep
begin

text \<open>
  The serial flash driver \<open>sfud.c\<close> below the port of EasyFlash: reading, erasing and programming
  over the SPI bus. The bus with the chip behind it is the function \<open>wr\<close> of \<open>sfud_spi\<close>, a
  parameter of the model: it takes the bytes to send and the number of bytes to receive, and
  changes the state of the chip. What the data sheet promises of it is the locale \<open>spi_nor\<close>.

  A loop that does not end is \<open>None\<close>, as is a failed \<open>SFUD_ASSERT\<close>. The mutex of the bus is
  not modelled: one thread uses the flash.
\<close>

unbundle bit_operations_syntax

datatype sfud_err = SFUD_SUCCESS | SFUD_ERR_NOT_FOUND | SFUD_ERR_WRITE | SFUD_ERR_READ | SFUD_ERR_TIMEOUT
  | SFUD_ERR_ADDR_OUT_OF_BOUND

record sfud_eraser =
  er_size :: nat
  er_cmd :: u8

record sfud_flash =
  capacity :: nat
  write_mode :: nat
  erase_gran :: nat
  erase_gran_cmd :: u8
  sf_init_ok :: bool
  addr_in_4_byte :: bool
  retry_times :: nat
  sfdp_available :: bool
  sfdp_eraser :: "sfud_eraser list"

type_synonym 'c spi_wr = "u8 list \<Rightarrow> nat \<Rightarrow> 'c \<Rightarrow> sfud_err \<times> u8 list \<times> 'c"

abbreviation (input) SFUD_WM_PAGE_256B :: nat where "SFUD_WM_PAGE_256B \<equiv> 1"
abbreviation (input) SFUD_WM_AAI :: nat where "SFUD_WM_AAI \<equiv> 4"
abbreviation (input) SFUD_WM_DUAL_BUFFER :: nat where "SFUD_WM_DUAL_BUFFER \<equiv> 8"
abbreviation (input) SFUD_CMD_WRITE_ENABLE :: u8 where "SFUD_CMD_WRITE_ENABLE \<equiv> 0x06"
abbreviation (input) SFUD_CMD_WRITE_DISABLE :: u8 where "SFUD_CMD_WRITE_DISABLE \<equiv> 0x04"
abbreviation (input) SFUD_CMD_READ_STATUS_REGISTER :: u8 where "SFUD_CMD_READ_STATUS_REGISTER \<equiv> 0x05"
abbreviation (input) SFUD_CMD_PAGE_PROGRAM :: u8 where "SFUD_CMD_PAGE_PROGRAM \<equiv> 0x02"
abbreviation (input) SFUD_CMD_AAI_WORD_PROGRAM :: u8 where "SFUD_CMD_AAI_WORD_PROGRAM \<equiv> 0xAD"
abbreviation (input) SFUD_CMD_ERASE_CHIP :: u8 where "SFUD_CMD_ERASE_CHIP \<equiv> 0xC7"
abbreviation (input) SFUD_CMD_READ_DATA :: u8 where "SFUD_CMD_READ_DATA \<equiv> 0x03"
abbreviation (input) SFUD_STATUS_REGISTER_BUSY :: u8 where "SFUD_STATUS_REGISTER_BUSY \<equiv> 1"
abbreviation (input) SFUD_STATUS_REGISTER_WEL :: u8 where "SFUD_STATUS_REGISTER_WEL \<equiv> 2"

section \<open>Status\<close>

definition sfud_read_status :: "'c spi_wr \<Rightarrow> 'c \<Rightarrow> sfud_err \<times> u8 \<times> 'c" where
  "sfud_read_status wr c = (case wr [SFUD_CMD_READ_STATUS_REGISTER] 1 c of (r, d, c) \<Rightarrow> (r, hd (d @ [0]), c))"

definition set_write_enabled :: "'c spi_wr \<Rightarrow> bool \<Rightarrow> 'c \<Rightarrow> sfud_err \<times> 'c" where
  "set_write_enabled wr enabled c =
     (case wr [if enabled then SFUD_CMD_WRITE_ENABLE else SFUD_CMD_WRITE_DISABLE] 0 c of (r, _, c) \<Rightarrow>
        if r \<noteq> SFUD_SUCCESS then (r, c)
        else case sfud_read_status wr c of (r, register_status, c) \<Rightarrow>
          if r \<noteq> SFUD_SUCCESS then (r, c)
          else if enabled \<and> register_status AND SFUD_STATUS_REGISTER_WEL = 0 then (SFUD_ERR_WRITE, c)
          else if \<not> enabled \<and> register_status AND SFUD_STATUS_REGISTER_WEL = 1 then (SFUD_ERR_WRITE, c)
          else (SFUD_SUCCESS, c))"

primrec wait_loop :: "'c spi_wr \<Rightarrow> nat \<Rightarrow> 'c \<Rightarrow> sfud_err \<times> 'c" where
  "wait_loop wr 0 c = (case sfud_read_status wr c of (r, status, c) \<Rightarrow>
     if r = SFUD_SUCCESS \<and> status AND SFUD_STATUS_REGISTER_BUSY = 0 then (r, c) else (SFUD_ERR_TIMEOUT, c))"
| "wait_loop wr (Suc retry) c = (case sfud_read_status wr c of (r, status, c) \<Rightarrow>
     if r = SFUD_SUCCESS \<and> status AND SFUD_STATUS_REGISTER_BUSY = 0 then (r, c) else wait_loop wr retry c)"

definition wait_busy :: "'c spi_wr \<Rightarrow> sfud_flash \<Rightarrow> 'c \<Rightarrow> sfud_err \<times> 'c" where
  "wait_busy wr flash c = wait_loop wr (retry_times flash) c"

definition make_adress_byte_array :: "sfud_flash \<Rightarrow> nat \<Rightarrow> u8 list" where
  "make_adress_byte_array flash addr =
     (let len = (if addr_in_4_byte flash then 4 else 3)
      in map (\<lambda>i. of_nat (addr div 2 ^ ((len - (i + 1)) * 8)) AND 0xFF) [0..<len])"

section \<open>Reading\<close>

definition sfud_read :: "'c spi_wr \<Rightarrow> sfud_flash \<Rightarrow> nat \<Rightarrow> nat \<Rightarrow> 'c \<Rightarrow> (sfud_err \<times> u8 list \<times> 'c) option" where
  "sfud_read wr flash addr n c =
     (if \<not> sf_init_ok flash then None
      else if (addr + n) mod 2 ^ 32 > capacity flash then Some (SFUD_ERR_ADDR_OUT_OF_BOUND, [], c)
      else case wait_busy wr flash c of (r, c) \<Rightarrow>
        if r = SFUD_SUCCESS then Some (wr (SFUD_CMD_READ_DATA # make_adress_byte_array flash addr) n c) else Some (r, [], c))"

section \<open>Erasing\<close>

definition sfud_chip_erase :: "'c spi_wr \<Rightarrow> sfud_flash \<Rightarrow> 'c \<Rightarrow> (sfud_err \<times> 'c) option" where
  "sfud_chip_erase wr flash c =
     (if \<not> sf_init_ok flash then None
      else
        let (r, c) = (case set_write_enabled wr True c of (r, c) \<Rightarrow>
          if r \<noteq> SFUD_SUCCESS then (r, c)
          else case wr (if write_mode flash AND SFUD_WM_DUAL_BUFFER \<noteq> 0 then [SFUD_CMD_ERASE_CHIP, 0x94, 0x80, 0x9A] else [SFUD_CMD_ERASE_CHIP]) 0 c of
            (r, _, c) \<Rightarrow> if r \<noteq> SFUD_SUCCESS then (r, c) else wait_busy wr flash c)
        in Some (r, snd (set_write_enabled wr False c)))"

definition sfud_sfdp_get_suitable_eraser :: "sfud_flash \<Rightarrow> nat \<Rightarrow> nat \<Rightarrow> nat" where
  "sfud_sfdp_get_suitable_eraser flash addr erase_size =
     (if addr mod er_size (sfdp_eraser flash ! 0) \<noteq> 0 then 0
      else case find (\<lambda>i. er_size (sfdp_eraser flash ! i) \<noteq> 0 \<and> erase_size \<ge> er_size (sfdp_eraser flash ! i) \<and>
                 addr mod er_size (sfdp_eraser flash ! i) = 0) [3, 2, 1, 0] of Some i \<Rightarrow> i | None \<Rightarrow> 0)"

definition cur_eraser :: "sfud_flash \<Rightarrow> nat \<Rightarrow> nat \<Rightarrow> u8 \<times> nat" where
  "cur_eraser flash addr n =
     (if sfdp_available flash then
        let e = sfdp_eraser flash ! sfud_sfdp_get_suitable_eraser flash addr n in (er_cmd e, er_size e)
      else (erase_gran_cmd flash, erase_gran flash))"

partial_function (option) erase_loop :: "'c spi_wr \<Rightarrow> sfud_flash \<Rightarrow> nat \<Rightarrow> nat \<Rightarrow> 'c \<Rightarrow> (sfud_err \<times> 'c) option" where
  [code]: "erase_loop wr flash addr n c =
     (if n = 0 then Some (SFUD_SUCCESS, c)
      else let cmd = fst (cur_eraser flash addr n); gran = snd (cur_eraser flash addr n); w = set_write_enabled wr True c in
        if fst w \<noteq> SFUD_SUCCESS then Some w
        else let e = wr (cmd # make_adress_byte_array flash addr) 0 (snd w) in
          if fst e \<noteq> SFUD_SUCCESS then Some (fst e, snd (snd e))
          else let b = wait_busy wr flash (snd (snd e));
                   step = (if addr mod gran \<noteq> 0 then gran - addr mod gran else gran) in
            if fst b \<noteq> SFUD_SUCCESS then Some b
            else if n > step then erase_loop wr flash ((addr + step) mod 2 ^ 32) (n - step) (snd b) else Some b)"

definition sfud_erase :: "'c spi_wr \<Rightarrow> sfud_flash \<Rightarrow> nat \<Rightarrow> nat \<Rightarrow> 'c \<Rightarrow> (sfud_err \<times> 'c) option" where
  "sfud_erase wr flash addr n c =
     (if \<not> sf_init_ok flash then None
      else if (addr + n) mod 2 ^ 32 > capacity flash then Some (SFUD_ERR_ADDR_OUT_OF_BOUND, c)
      else if addr = 0 \<and> n = capacity flash then sfud_chip_erase wr flash c
      else map_option (\<lambda>(r, c). (r, snd (set_write_enabled wr False c))) (erase_loop wr flash addr n c))"

section \<open>Programming\<close>

text \<open>One turn writes up to the end of the page.\<close>

definition page_size :: "nat \<Rightarrow> nat \<Rightarrow> nat \<Rightarrow> nat" where
  "page_size addr n write_gran =
     (if addr mod write_gran \<noteq> 0 then if n > write_gran - addr mod write_gran then write_gran - addr mod write_gran else n
      else if n > write_gran then write_gran else n)"

partial_function (option) page_loop :: "'c spi_wr \<Rightarrow> sfud_flash \<Rightarrow> nat \<Rightarrow> nat \<Rightarrow> u8 list \<Rightarrow> 'c \<Rightarrow> (sfud_err \<times> 'c) option" where
  [code]: "page_loop wr flash write_gran addr data c =
     (if data = [] then Some (SFUD_SUCCESS, c)
      else let w = set_write_enabled wr True c in
        if fst w \<noteq> SFUD_SUCCESS then Some w
        else let data_size = page_size addr (length data) write_gran;
                 p = wr (SFUD_CMD_PAGE_PROGRAM # make_adress_byte_array flash addr @ take data_size data) 0 (snd w) in
          if fst p \<noteq> SFUD_SUCCESS then Some (fst p, snd (snd p))
          else let b = wait_busy wr flash (snd (snd p)) in
            if fst b \<noteq> SFUD_SUCCESS then Some b
            else page_loop wr flash write_gran ((addr + data_size) mod 2 ^ 32) (drop data_size data) (snd b))"

definition page256_or_1_byte_write :: "'c spi_wr \<Rightarrow> sfud_flash \<Rightarrow> nat \<Rightarrow> nat \<Rightarrow> u8 list \<Rightarrow> 'c \<Rightarrow> (sfud_err \<times> 'c) option" where
  "page256_or_1_byte_write wr flash addr write_gran data c =
     (if \<not> (write_gran = 1 \<or> write_gran = 256) \<or> \<not> sf_init_ok flash then None
      else if (addr + length data) mod 2 ^ 32 > capacity flash then Some (SFUD_ERR_ADDR_OUT_OF_BOUND, c)
      else map_option (\<lambda>(r, c). (r, snd (set_write_enabled wr False c))) (page_loop wr flash write_gran addr data c))"

fun aai_loop :: "'c spi_wr \<Rightarrow> sfud_flash \<Rightarrow> bool \<Rightarrow> nat \<Rightarrow> u8 list \<Rightarrow> 'c \<Rightarrow> sfud_err \<times> nat \<times> u8 list \<times> 'c" where
  "aai_loop wr flash first_write addr (d0 # d1 # data) c =
     (case wr ((if first_write then SFUD_CMD_AAI_WORD_PROGRAM # make_adress_byte_array flash addr else [SFUD_CMD_AAI_WORD_PROGRAM]) @ [d0, d1]) 0 c of
        (r, _, c) \<Rightarrow> if r \<noteq> SFUD_SUCCESS then (r, addr, d0 # d1 # data, c)
        else case wait_busy wr flash c of (r, c) \<Rightarrow>
          if r \<noteq> SFUD_SUCCESS then (r, addr, d0 # d1 # data, c) else aai_loop wr flash False ((addr + 2) mod 2 ^ 32) data c)"
| "aai_loop wr flash first_write addr data c = (SFUD_SUCCESS, addr, data, c)"

text \<open>The part of \<open>aai_write\<close> behind the odd first byte.\<close>

definition aai_even :: "'c spi_wr \<Rightarrow> sfud_flash \<Rightarrow> nat \<Rightarrow> u8 list \<Rightarrow> 'c \<Rightarrow> (sfud_err \<times> 'c) option" where
  "aai_even wr flash addr data c =
     (case set_write_enabled wr True c of (r, c) \<Rightarrow>
        if r \<noteq> SFUD_SUCCESS then Some (r, c)
        else case aai_loop wr flash True addr data c of (r, addr, data, c) \<Rightarrow>
          if r \<noteq> SFUD_SUCCESS then Some (r, c)
          else case set_write_enabled wr False c of (r, c) \<Rightarrow>
            if r = SFUD_SUCCESS \<and> length data = 1 then page256_or_1_byte_write wr flash addr 1 data c else Some (r, c))"

text \<open>With no data and an odd address the C code reads behind the buffer; that is \<open>None\<close>.\<close>

definition aai_write :: "'c spi_wr \<Rightarrow> sfud_flash \<Rightarrow> nat \<Rightarrow> u8 list \<Rightarrow> 'c \<Rightarrow> (sfud_err \<times> 'c) option" where
  "aai_write wr flash addr data c =
     (if \<not> sf_init_ok flash then None
      else if (addr + length data) mod 2 ^ 32 > capacity flash then Some (SFUD_ERR_ADDR_OUT_OF_BOUND, c)
      else map_option (\<lambda>(r, c). (r, if r \<noteq> SFUD_SUCCESS then snd (set_write_enabled wr False c) else c))
        (if addr mod 2 \<noteq> 0 then
           if data = [] then None else
           case page256_or_1_byte_write wr flash addr 1 (take 1 data) c of
             None \<Rightarrow> None
           | Some (r, c) \<Rightarrow> if r \<noteq> SFUD_SUCCESS then Some (r, c) else aai_even wr flash ((addr + 1) mod 2 ^ 32) (drop 1 data) c
         else aai_even wr flash addr data c))"

definition sfud_write :: "'c spi_wr \<Rightarrow> sfud_flash \<Rightarrow> nat \<Rightarrow> u8 list \<Rightarrow> 'c \<Rightarrow> (sfud_err \<times> 'c) option" where
  "sfud_write wr flash addr data c =
     (if write_mode flash AND SFUD_WM_PAGE_256B \<noteq> 0 then page256_or_1_byte_write wr flash addr 256 data c
      else if write_mode flash AND SFUD_WM_AAI \<noteq> 0 then aai_write wr flash addr data c
      else Some (SFUD_SUCCESS, c))"

section \<open>The chip\<close>

text \<open>A page program command fills one page of 256 bytes from the given place on and wraps around inside it.\<close>

definition page_program :: "nat \<Rightarrow> u8 list \<Rightarrow> (nat \<Rightarrow> u8) \<Rightarrow> nat \<Rightarrow> u8" where
  "page_program a data m x =
     (if x div 256 = a div 256 \<and> (x + 256 - a mod 256) mod 256 < length data then m x AND data ! ((x + 256 - a mod 256) mod 256) else m x)"

definition addr3 :: "nat \<Rightarrow> u8 list" where
  "addr3 a = [of_nat (a div 65536), of_nat (a div 256), of_nat a]"

locale spi_nor =
  fixes wr :: "'c spi_wr"
    and mem :: "'c \<Rightarrow> nat \<Rightarrow> u8"
    and busy :: "'c \<Rightarrow> nat"
    and wel :: "'c \<Rightarrow> bool"
    and polls :: nat
    and erasers :: "(u8 \<times> nat) set"
  assumes write_enable: "busy c = 0 \<Longrightarrow> \<exists>d c'. wr [SFUD_CMD_WRITE_ENABLE] 0 c = (SFUD_SUCCESS, d, c') \<and> mem c' = mem c \<and> busy c' = 0 \<and> wel c'"
    and write_disable: "busy c = 0 \<Longrightarrow> \<exists>d c'. wr [SFUD_CMD_WRITE_DISABLE] 0 c = (SFUD_SUCCESS, d, c') \<and> mem c' = mem c \<and> busy c' = 0 \<and> \<not> wel c'"
    and read_status: "\<exists>st c'. wr [SFUD_CMD_READ_STATUS_REGISTER] 1 c = (SFUD_SUCCESS, [st], c') \<and> (st AND SFUD_STATUS_REGISTER_BUSY = 0 \<longleftrightarrow> busy c = 0) \<and>
        (st AND SFUD_STATUS_REGISTER_WEL = 0 \<longleftrightarrow> \<not> wel c) \<and> mem c' = mem c \<and> busy c' = busy c - 1 \<and> wel c' = wel c"
    and page_program: "busy c = 0 \<Longrightarrow> wel c \<Longrightarrow> data \<noteq> [] \<Longrightarrow> length data \<le> 256 \<Longrightarrow> a < 2 ^ 24 \<Longrightarrow>
        \<exists>d c'. wr (SFUD_CMD_PAGE_PROGRAM # addr3 a @ data) 0 c = (SFUD_SUCCESS, d, c') \<and> mem c' = page_program a data (mem c) \<and> busy c' \<le> polls"
    and block_erase: "busy c = 0 \<Longrightarrow> wel c \<Longrightarrow> (cmd, n) \<in> erasers \<Longrightarrow> a < 2 ^ 24 \<Longrightarrow>
        \<exists>d c'. wr (cmd # addr3 a) 0 c = (SFUD_SUCCESS, d, c') \<and> mem c' = erase (a div n * n) n (mem c) \<and> busy c' \<le> polls"
    and read_data: "busy c = 0 \<Longrightarrow> a < 2 ^ 24 \<Longrightarrow>
        \<exists>c'. wr (SFUD_CMD_READ_DATA # addr3 a) n c = (SFUD_SUCCESS, map (mem c) [a..<a + n], c') \<and> mem c' = mem c \<and> busy c' = 0"

text \<open>A flash whose parameters suit the chip.\<close>

definition flash_ok :: "sfud_flash \<Rightarrow> nat \<Rightarrow> (u8 \<times> nat) set \<Rightarrow> bool" where
  "flash_ok fl polls E \<longleftrightarrow> sf_init_ok fl \<and> capacity fl \<le> 2 ^ 24 \<and> write_mode fl AND SFUD_WM_PAGE_256B \<noteq> 0 \<and> \<not> addr_in_4_byte fl \<and>
     polls \<le> retry_times fl \<and>
     (if sfdp_available fl then length (sfdp_eraser fl) = 4 \<and> er_size (sfdp_eraser fl ! 0) = 4096 \<and>
        (\<forall>e\<in>set (sfdp_eraser fl). er_size e \<noteq> 0 \<longrightarrow> (er_cmd e, er_size e) \<in> E \<and> 4096 dvd er_size e)
      else erase_gran fl = 4096 \<and> (erase_gran_cmd fl, 4096) \<in> E)"

section \<open>Programming and erasing are linear\<close>

lemma page_program_linear:
  assumes "a mod 256 + length data \<le> 256"
  shows "page_program a data m = program a data m"
proof
  fix x
  have a: "a = a div 256 * 256 + a mod 256" by simp
  show "page_program a data m x = program a data m x"
  proof (cases "x div 256 = a div 256")
    case True
    then have x: "x = a div 256 * 256 + x mod 256" by (metis div_mod_decomp)
    define p q where pq: "p = x mod 256" "q = a mod 256"
    have lt: "p < 256" "q < 256" by (simp_all add: pq)
    define d where "d = a div 256 * 256"
    have xa: "x = d + p" "a = d + q" using x a unfolding d_def pq by simp_all
    have q: "a mod 256 = q" by (simp add: pq)
    have "(x + 256 - q) mod 256 = (p + 256 - q) mod 256"
    proof -
      have e: "x + 256 - q = a div 256 * 256 + (p + 256 - q)" using xa(1) lt by (simp add: d_def)
      show ?thesis unfolding e by (rule mod_mult_self3)
    qed
    moreover have "(p + 256 - q) mod 256 = (if q \<le> p then p - q else p + 256 - q)" using lt by (auto simp: mod_if)
    moreover have "a \<le> x \<longleftrightarrow> q \<le> p" "x < a + length data \<longleftrightarrow> p < q + length data" "x - a = p - q"
      unfolding xa by simp_all
    ultimately show ?thesis using True assms lt unfolding page_program_def program_def q by auto
  next
    case False
    have "\<not> (a \<le> x \<and> x < a + length data)"
    proof
      assume "a \<le> x \<and> x < a + length data"
      then have "a div 256 * 256 \<le> x" "x < a div 256 * 256 + 256" using assms a by linarith+
      then have "x div 256 = a div 256" by (intro div_nat_eqI) simp_all
      with False show False by simp
    qed
    with False show ?thesis by (auto simp: page_program_def program_def)
  qed
qed

lemma erase_none: "erase a 0 m = m"
  by (rule ext) (auto simp: erase_def)

lemma erase_split: "g \<le> n \<Longrightarrow> erase (a + g) (n - g) (erase a g m) = erase a n m"
  by (rule ext) (auto simp: erase_def)

lemma make_adress_3: "\<not> addr_in_4_byte fl \<Longrightarrow> make_adress_byte_array fl a = addr3 a"
proof -
  have "(w :: u8) AND 0xFF = w" for w using and_FF [of w] by (simp only: and.commute)
  moreover have "[0..<3] = [0, 1, 2 :: nat]" by (simp add: upt_rec)
  ultimately show "\<not> addr_in_4_byte fl \<Longrightarrow> make_adress_byte_array fl a = addr3 a"
    by (simp add: make_adress_byte_array_def addr3_def Let_def)
qed

lemma page_size_props:
  assumes "0 < n"
  shows "0 < page_size a n 256" "page_size a n 256 \<le> n" "a mod 256 + page_size a n 256 \<le> 256"
proof -
  have "a mod 256 < 256" by simp
  then show "0 < page_size a n 256" "page_size a n 256 \<le> n" "a mod 256 + page_size a n 256 \<le> 256"
    using assms by (auto simp: page_size_def)
qed

lemma find_SomeD:
  assumes "find P xs = Some i"
  shows "P i" "i \<in> set xs"
  using assms by (induction xs) (auto split: if_splits)

context spi_nor
begin

lemma enable:
  assumes "busy c = 0"
  shows "\<exists>c'. set_write_enabled wr True c = (SFUD_SUCCESS, c') \<and> mem c' = mem c \<and> busy c' = 0 \<and> wel c'"
proof -
  obtain d c1 where w: "wr [SFUD_CMD_WRITE_ENABLE] 0 c = (SFUD_SUCCESS, d, c1)" "mem c1 = mem c" "busy c1 = 0" "wel c1"
    using write_enable [OF assms] by blast
  obtain st c2 where "wr [SFUD_CMD_READ_STATUS_REGISTER] 1 c1 = (SFUD_SUCCESS, [st], c2)" "st AND SFUD_STATUS_REGISTER_WEL \<noteq> 0"
      "mem c2 = mem c1" "busy c2 = 0" "wel c2"
    using read_status [of c1] w(3,4) by auto
  with w show ?thesis by (simp add: set_write_enabled_def sfud_read_status_def)
qed

lemma disable:
  assumes "busy c = 0"
  shows "mem (snd (set_write_enabled wr False c)) = mem c \<and> busy (snd (set_write_enabled wr False c)) = 0"
proof -
  obtain d c1 where w: "wr [SFUD_CMD_WRITE_DISABLE] 0 c = (SFUD_SUCCESS, d, c1)" "mem c1 = mem c" "busy c1 = 0" "\<not> wel c1"
    using write_disable [OF assms] by blast
  obtain st c2 where "wr [SFUD_CMD_READ_STATUS_REGISTER] 1 c1 = (SFUD_SUCCESS, [st], c2)" "st AND SFUD_STATUS_REGISTER_WEL = 0"
      "mem c2 = mem c1" "busy c2 = 0"
    using read_status [of c1] w(3,4) by auto
  with w show ?thesis by (simp add: set_write_enabled_def sfud_read_status_def)
qed

lemma wait_loop_ready: "busy c \<le> k \<Longrightarrow> \<exists>c'. wait_loop wr k c = (SFUD_SUCCESS, c') \<and> mem c' = mem c \<and> busy c' = 0"
proof (induction k arbitrary: c)
  case 0
  then show ?case using read_status [of c] by (auto simp: sfud_read_status_def)
next
  case (Suc k)
  obtain st c1 where r: "wr [SFUD_CMD_READ_STATUS_REGISTER] 1 c = (SFUD_SUCCESS, [st], c1)" "st AND SFUD_STATUS_REGISTER_BUSY = 0 \<longleftrightarrow> busy c = 0"
      "mem c1 = mem c" "busy c1 = busy c - 1"
    using read_status [of c] by auto
  have "busy c1 \<le> k" using Suc.prems r(4) by simp
  from Suc.IH [OF this] r show ?case by (cases "busy c = 0") (auto simp: sfud_read_status_def)
qed

lemma wait_ready:
  "busy c \<le> polls \<Longrightarrow> flash_ok fl polls E \<Longrightarrow> \<exists>c'. wait_busy wr fl c = (SFUD_SUCCESS, c') \<and> mem c' = mem c \<and> busy c' = 0"
  using wait_loop_ready [of c "retry_times fl"] by (simp add: wait_busy_def flash_ok_def)

lemma page_loop_linear:
  assumes "flash_ok fl polls E"
  shows "busy c = 0 \<Longrightarrow> a + length data \<le> 2 ^ 24 \<Longrightarrow>
    \<exists>c'. page_loop wr fl 256 a data c = Some (SFUD_SUCCESS, c') \<and> mem c' = program a data (mem c) \<and> busy c' = 0"
proof (induction "length data" arbitrary: a data c rule: less_induct)
  case less
  show ?case
  proof (cases "data = []")
    case True
    with less.prems show ?thesis by (simp add: page_loop.simps [of wr fl])
  next
    case False
    let ?k = "page_size a (length data) 256"
    note k = page_size_props [of "length data" a]
    have n: "0 < length data" using False by simp
    have a3: "make_adress_byte_array fl a = addr3 a" using assms by (simp add: make_adress_3 flash_ok_def)
    obtain c1 where e: "set_write_enabled wr True c = (SFUD_SUCCESS, c1)" "mem c1 = mem c" "busy c1 = 0" "wel c1"
      using enable [OF less.prems(1)] by blast
    have al: "a < 2 ^ 24" using less.prems(2) n by linarith
    obtain d c2 where p: "wr (SFUD_CMD_PAGE_PROGRAM # addr3 a @ take ?k data) 0 c1 = (SFUD_SUCCESS, d, c2)"
        "mem c2 = page_program a (take ?k data) (mem c)" "busy c2 \<le> polls"
      using page_program [OF e(3,4), of "take ?k data" a] k [OF n] al False e(2) by auto
    obtain c3 where b: "wait_busy wr fl c2 = (SFUD_SUCCESS, c3)" "mem c3 = mem c2" "busy c3 = 0"
      using wait_ready [OF p(3) assms] by blast
    have m3: "mem c3 = program a (take ?k data) (mem c)"
      using b(2) p(2) page_program_linear [of a "take ?k data"] k [OF n] by simp
    have "length (drop ?k data) < length data" "a + ?k + length (drop ?k data) \<le> 2 ^ 24" using k [OF n] less.prems(2) by simp_all
    from less.hyps [OF this(1) b(3) this(2)] obtain c' where
      r: "page_loop wr fl 256 (a + ?k) (drop ?k data) c3 = Some (SFUD_SUCCESS, c')"
        "mem c' = program (a + ?k) (drop ?k data) (mem c3)" "busy c' = 0" by blast
    have "mem c' = program a (take ?k data @ drop ?k data) (mem c)"
      unfolding r(2) m3 by (rule program_append) (use k [OF n] in simp)
    moreover have "(a + ?k) mod 2 ^ 32 = a + ?k" using k [OF n] less.prems(2) by simp
    then have "page_loop wr fl 256 a data c = Some (SFUD_SUCCESS, c')"
      using False e(1) p(1) b(1) r(1) a3 by (simp add: page_loop.simps [of wr fl 256 a])
    ultimately show ?thesis using r(3) by simp
  qed
qed

lemma sfud_write_linear:
  assumes "flash_ok fl polls E" "busy c = 0" "a + length data \<le> capacity fl"
  shows "\<exists>c'. sfud_write wr fl a data c = Some (SFUD_SUCCESS, c') \<and> mem c' = program a data (mem c) \<and> busy c' = 0"
proof -
  have cap: "capacity fl \<le> 2 ^ 24" "sf_init_ok fl" "write_mode fl AND SFUD_WM_PAGE_256B \<noteq> 0" using assms(1) by (simp_all add: flash_ok_def)
  then have "a + length data \<le> 2 ^ 24" "(a + length data) mod 2 ^ 32 \<le> capacity fl"
    using assms(3) by (auto intro: order_trans [OF mod_less_eq_dividend])
  with page_loop_linear [OF assms(1,2)] obtain c' where
    "page_loop wr fl 256 a data c = Some (SFUD_SUCCESS, c')" "mem c' = program a data (mem c)" "busy c' = 0" by blast
  with cap \<open>(a + length data) mod 2 ^ 32 \<le> capacity fl\<close> disable [of c'] show ?thesis
    by (simp add: sfud_write_def page256_or_1_byte_write_def)
qed

lemma cur_eraser_ok:
  assumes "flash_ok fl polls erasers" "a mod 4096 = 0" "n mod 4096 = 0" "0 < n"
  shows "cur_eraser fl a n \<in> erasers" "0 < snd (cur_eraser fl a n)" "snd (cur_eraser fl a n) \<le> n"
    "snd (cur_eraser fl a n) dvd a" "4096 dvd snd (cur_eraser fl a n)"
proof -
  have n: "4096 \<le> n" using assms(3,4) by (meson dvd_imp_le mod_eq_0_iff_dvd)
  have "cur_eraser fl a n \<in> erasers \<and> 0 < snd (cur_eraser fl a n) \<and> snd (cur_eraser fl a n) \<le> n \<and>
    snd (cur_eraser fl a n) dvd a \<and> 4096 dvd snd (cur_eraser fl a n)"
  proof (cases "sfdp_available fl")
    case False
    with assms n show ?thesis by (auto simp: flash_ok_def cur_eraser_def)
  next
    case True
    let ?z = "\<lambda>i. er_size (sfdp_eraser fl ! i)"
    let ?P = "\<lambda>i. ?z i \<noteq> 0 \<and> n \<ge> ?z i \<and> a mod ?z i = 0"
    have t: "length (sfdp_eraser fl) = 4" "?z 0 = 4096" using assms(1) True by (simp_all add: flash_ok_def)
    have "?P 0" using t assms(2) n by simp
    then have "find ?P [3, 2, 1, 0] \<noteq> None" unfolding find_None_iff by (meson list.set_intros)
    then obtain i where i: "find ?P [3, 2, 1, 0] = Some i" by blast
    then have "?P i" "i \<in> set [3, 2, 1, 0]" by (rule find_SomeD)+
    then have "?P i" "sfdp_eraser fl ! i \<in> set (sfdp_eraser fl)" using t(1) by auto
    moreover have "sfud_sfdp_get_suitable_eraser fl a n = i" using i t(2) assms(2) by (simp add: sfud_sfdp_get_suitable_eraser_def)
    ultimately show ?thesis using True assms(1) by (auto simp: cur_eraser_def Let_def flash_ok_def)
  qed
  then show "cur_eraser fl a n \<in> erasers" "0 < snd (cur_eraser fl a n)" "snd (cur_eraser fl a n) \<le> n"
    "snd (cur_eraser fl a n) dvd a" "4096 dvd snd (cur_eraser fl a n)" by blast+
qed

lemma erase_loop_linear:
  assumes "flash_ok fl polls erasers"
  shows "busy c = 0 \<Longrightarrow> a mod 4096 = 0 \<Longrightarrow> n mod 4096 = 0 \<Longrightarrow> a + n \<le> 2 ^ 24 \<Longrightarrow>
    \<exists>c'. erase_loop wr fl a n c = Some (SFUD_SUCCESS, c') \<and> mem c' = erase a n (mem c) \<and> busy c' = 0"
proof (induction n arbitrary: a c rule: less_induct)
  case (less n)
  show ?case
  proof (cases "n = 0")
    case True
    then show ?thesis using less.prems by (simp add: erase_loop.simps [of wr fl] erase_none)
  next
    case False
    let ?g = "snd (cur_eraser fl a n)"
    have n: "0 < n" using False by simp
    note g = cur_eraser_ok [OF assms less.prems(2,3) n]
    have a3: "make_adress_byte_array fl a = addr3 a" using assms by (simp add: make_adress_3 flash_ok_def)
    obtain c1 where e: "set_write_enabled wr True c = (SFUD_SUCCESS, c1)" "mem c1 = mem c" "busy c1 = 0" "wel c1"
      using enable [OF less.prems(1)] by blast
    have al: "a < 2 ^ 24" using less.prems(4) n by linarith
    have "(fst (cur_eraser fl a n), ?g) \<in> erasers" "a div ?g * ?g = a" using g(1,4) by simp_all
    with block_erase [OF e(3,4) _ al] e(2) obtain d c2 where p: "wr (fst (cur_eraser fl a n) # addr3 a) 0 c1 = (SFUD_SUCCESS, d, c2)"
        "mem c2 = erase a ?g (mem c)" "busy c2 \<le> polls" by metis
    obtain c3 where b: "wait_busy wr fl c2 = (SFUD_SUCCESS, c3)" "mem c3 = mem c2" "busy c3 = 0"
      using wait_ready [OF p(3) assms] by blast
    have step: "erase_loop wr fl a n c = (if n > ?g then erase_loop wr fl ((a + ?g) mod 2 ^ 32) (n - ?g) c3 else Some (SFUD_SUCCESS, c3))"
      using False e(1) p(1) b(1) a3 g(4) by (simp add: erase_loop.simps [of wr fl a] Let_def)
    show ?thesis
    proof (cases "?g < n")
      case True
      have 1: "n - ?g < n" "(a + ?g) mod 4096 = 0" "(n - ?g) mod 4096 = 0" "a + ?g + (n - ?g) \<le> 2 ^ 24"
        using g less.prems(2,3,4) True by (auto simp: mod_eq_0_iff_dvd dvd_diff_nat)
      moreover have "(a + ?g) mod 2 ^ 32 = a + ?g" using less.prems(4) True by simp
      ultimately show ?thesis using less.IH [OF 1(1) b(3) 1(2-)] step True b(2) p(2) erase_split [OF g(3)] by auto
    next
      case False
      then have "?g = n" using g(3) by simp
      then show ?thesis using step False b p(2) by simp
    qed
  qed
qed

lemma in_range: "flash_ok fl polls E \<Longrightarrow> a + n \<le> capacity fl \<Longrightarrow> a + n \<le> 2 ^ 24 \<and> (a + n) mod 2 ^ 32 \<le> capacity fl"
  by (auto simp: flash_ok_def intro: order_trans [OF mod_less_eq_dividend])

lemma sfud_erase_linear:
  assumes "flash_ok fl polls erasers" "busy c = 0" "a mod 4096 = 0" "n mod 4096 = 0" "a + n \<le> capacity fl" "n < capacity fl"
  shows "\<exists>c'. sfud_erase wr fl a n c = Some (SFUD_SUCCESS, c') \<and> mem c' = erase a n (mem c) \<and> busy c' = 0"
proof -
  note r = in_range [OF assms(1,5)]
  obtain c' where "erase_loop wr fl a n c = Some (SFUD_SUCCESS, c')" "mem c' = erase a n (mem c)" "busy c' = 0"
    using erase_loop_linear [OF assms(1,2,3,4)] r by blast
  with r disable [of c'] assms(1,5,6) show ?thesis by (simp add: sfud_erase_def flash_ok_def)
qed

lemma sfud_read_linear:
  assumes "flash_ok fl polls E" "busy c = 0" "a + n \<le> capacity fl" "0 < n"
  shows "\<exists>c'. sfud_read wr fl a n c = Some (SFUD_SUCCESS, map (mem c) [a..<a + n], c') \<and> mem c' = mem c \<and> busy c' = 0"
proof -
  note r = in_range [OF assms(1,3)]
  have a3: "make_adress_byte_array fl a = addr3 a" using assms by (simp add: make_adress_3 flash_ok_def)
  obtain c1 where w: "wait_busy wr fl c = (SFUD_SUCCESS, c1)" "mem c1 = mem c" "busy c1 = 0"
    using wait_ready [of c, OF _ assms(1)] assms(2) by auto
  have al: "a < 2 ^ 24" using r assms(4) by linarith
  from read_data [OF w(3) al, of n] r w a3 assms(1) show ?thesis by (auto simp: sfud_read_def flash_ok_def)
qed

end

section \<open>A chip\<close>

text \<open>
  The commands of a serial NOR flash as its data sheet describes them. While an operation is under
  way the chip answers the status command only; programming and erasing need the write enable
  latch and clear it. The busy time is counted in status reads.
\<close>

record nor =
  nor_mem :: "nat \<Rightarrow> u8"
  nor_busy :: nat
  nor_wel :: bool

abbreviation (input) NOR_POLLS :: nat where "NOR_POLLS \<equiv> 3"

definition nor_change :: "((nat \<Rightarrow> u8) \<Rightarrow> nat \<Rightarrow> u8) \<Rightarrow> nor \<Rightarrow> nor" where
  "nor_change f c = (if nor_wel c then c\<lparr>nor_mem := f (nor_mem c), nor_busy := NOR_POLLS, nor_wel := False\<rparr> else c)"

definition nor_addressed :: "u8 \<Rightarrow> nat \<Rightarrow> u8 list \<Rightarrow> nor \<Rightarrow> nor" where
  "nor_addressed cmd a data c =
     (if cmd = SFUD_CMD_PAGE_PROGRAM then nor_change (page_program a data) c
      else if cmd = 0x20 then nor_change (erase (a div 4096 * 4096) 4096) c
      else if cmd = 0xD8 then nor_change (erase (a div 65536 * 65536) 65536) c
      else c)"

fun nor_wr :: "nor spi_wr" where
  "nor_wr [] n c = (SFUD_SUCCESS, replicate n 0xFF, c)"
| "nor_wr (cmd # rest) n c =
     (if cmd = SFUD_CMD_READ_STATUS_REGISTER then
        (SFUD_SUCCESS, replicate n ((if nor_busy c = 0 then 0 else 1) OR (if nor_wel c then 2 else 0)), c\<lparr>nor_busy := nor_busy c - 1\<rparr>)
      else if nor_busy c \<noteq> 0 then (SFUD_SUCCESS, replicate n 0xFF, c)
      else if cmd = SFUD_CMD_WRITE_ENABLE then (SFUD_SUCCESS, replicate n 0xFF, c\<lparr>nor_wel := True\<rparr>)
      else if cmd = SFUD_CMD_WRITE_DISABLE then (SFUD_SUCCESS, replicate n 0xFF, c\<lparr>nor_wel := False\<rparr>)
      else case rest of
        a2 # a1 # a0 # data \<Rightarrow>
          let a = unat a2 * 65536 + unat a1 * 256 + unat a0 in
          if cmd = SFUD_CMD_READ_DATA then (SFUD_SUCCESS, map (nor_mem c) [a..<a + n], c)
          else (SFUD_SUCCESS, replicate n 0xFF, nor_addressed cmd a data c)
      | _ \<Rightarrow> (SFUD_SUCCESS, replicate n 0xFF, c))"

lemma addr3_value:
  assumes "a < 2 ^ 24"
  shows "unat (of_nat (a div 65536) :: u8) * 65536 + unat (of_nat (a div 256) :: u8) * 256 + unat (of_nat a :: u8) = a"
proof -
  have 1: "a div 65536 mod 256 = a div 65536" using assms by (intro mod_less) (simp add: less_mult_imp_div_less)
  have 2: "a div 65536 = a div 256 div 256" by (simp add: div_mult2_eq [symmetric])
  have 3: "a div 256 div 256 * 256 + a div 256 mod 256 = a div 256" "a div 256 * 256 + a mod 256 = a" by simp_all
  have "a div 256 div 256 * 65536 + a div 256 mod 256 * 256 + a mod 256 = a" using 3 by linarith
  with 1 2 show ?thesis by (simp add: unat_of_nat)
qed

interpretation nor: spi_nor nor_wr nor_mem nor_busy nor_wel NOR_POLLS "{(0x20, 4096), (0xD8, 65536)}"
proof (unfold_locales, goal_cases)
  case (4 c data a)
  then show ?case by (simp add: addr3_def addr3_value nor_addressed_def nor_change_def)
next
  case (5 c cmd n a)
  then show ?case using addr3_value [of a] by (auto simp: addr3_def nor_addressed_def nor_change_def)
next
  case (6 c a n)
  then show ?case by (simp add: addr3_def addr3_value)
qed auto

text \<open>A flash of 4 megabytes with two erasers.\<close>

definition nor_flash :: sfud_flash where
  "nor_flash = \<lparr>capacity = 4194304, write_mode = 1, erase_gran = 4096, erase_gran_cmd = 0x20, sf_init_ok = True,
     addr_in_4_byte = False, retry_times = 1000, sfdp_available = True,
     sfdp_eraser = [\<lparr>er_size = 4096, er_cmd = 0x20\<rparr>, \<lparr>er_size = 65536, er_cmd = 0xD8\<rparr>, \<lparr>er_size = 0, er_cmd = 0\<rparr>, \<lparr>er_size = 0, er_cmd = 0\<rparr>]\<rparr>"

lemma nor_flash_ok: "flash_ok nor_flash NOR_POLLS {(0x20, 4096), (0xD8, 65536)}"
  by (simp add: flash_ok_def nor_flash_def)

section \<open>The driver implements the port\<close>

text \<open>
  C19. On a chip that behaves as its data sheet says, a write of any length at any place inside
  the capacity, cut by the driver into page programs, clears exactly the bits that the port of EasyFlash
  is modelled to clear; an erase of whole sectors, cut into the erase commands of the SFDP table, sets
  exactly its bytes; a read returns exactly the bytes of its range. Each of them returns SFUD_SUCCESS
  and leaves the chip ready.
\<close>

theorem sfud_implements_port:
  assumes chip: "spi_nor wr mem busy wel polls E" "flash_ok fl polls E"
    and st: "busy c = 0" "mem c = cells s" "chip_ok s"
  shows "(a + length buf \<le> capacity fl \<longrightarrow>
      (\<exists>c'. sfud_write wr fl a buf c = Some (SFUD_SUCCESS, c') \<and> busy c' = 0 \<and>
         ef_port_write a buf s = (EF_NO_ERR, s\<lparr>cells := mem c'\<rparr>))) \<and>
    (a mod 4096 = 0 \<and> n mod 4096 = 0 \<and> a + n \<le> capacity fl \<and> n < capacity fl \<longrightarrow>
      (\<exists>c'. sfud_erase wr fl a n c = Some (SFUD_SUCCESS, c') \<and> busy c' = 0 \<and>
         ef_port_erase a n s = (EF_NO_ERR, s\<lparr>cells := mem c'\<rparr>))) \<and>
    (0 < n \<and> a + n \<le> capacity fl \<longrightarrow>
      (\<exists>c'. sfud_read wr fl a n c = Some (SFUD_SUCCESS, ef_port_read a n s, c') \<and> busy c' = 0 \<and> mem c' = cells s))"
  using spi_nor.sfud_write_linear [OF chip(1,2) st(1), of a buf] spi_nor.sfud_erase_linear [OF chip st(1), of a n]
    spi_nor.sfud_read_linear [OF chip(1,2) st(1), of a n] st(2,3)
  by (auto simp: ef_port_write_def ef_port_erase_def ef_port_read_def ef_assert_def Let_def)

theorem sfud_implements_port_witness:
  "\<exists>c'. sfud_write nor_wr nor_flash 250 (replicate 300 0x55) \<lparr>nor_mem = \<lambda>_. 0xFF, nor_busy = 0, nor_wel = False\<rparr> = Some (SFUD_SUCCESS, c') \<and>
     nor_mem c' 549 = 0x55 \<and> nor_mem c' 550 = 0xFF"
proof -
  let ?s = "\<lparr>cells = \<lambda>_. 0xFF, chip_ok = True, hung = False, ef_init_ok = False, gc_request = False, in_recovery_check = False,
    last_is_complete_del = False, env_cache_table = [], sector_cache_table = []\<rparr>"
  have "capacity nor_flash = 4194304" by (simp add: nor_flash_def)
  with sfud_implements_port [OF nor.spi_nor_axioms nor_flash_ok, of "\<lparr>nor_mem = \<lambda>_. 0xFF, nor_busy = 0, nor_wel = False\<rparr>" ?s 250 "replicate 300 0x55" 4096]
  obtain c' where "sfud_write nor_wr nor_flash 250 (replicate 300 0x55) \<lparr>nor_mem = \<lambda>_. 0xFF, nor_busy = 0, nor_wel = False\<rparr> = Some (SFUD_SUCCESS, c')"
    "nor_mem c' = program 250 (replicate 300 0x55) (\<lambda>_. 0xFF)"
    by (auto simp: ef_port_write_def)
  then show ?thesis by (simp add: program_def)
qed

end
