(* ===== verification/KService.thy ===== *)
theory KService
  imports Bytes
begin

text \<open>
  \<open>rt_memset\<close> and \<open>rt_memcpy\<close> of \<open>rt-thread/src/kservice.c\<close>, as they are without \<open>RT_USING_TINY_SIZE\<close>:
  by words when the addresses are aligned and the block is long enough, the rest by bytes; and that
  they do what a loop over the bytes would do. A \<open>long\<close> has 4 bytes.
\<close>

unbundle bit_operations_syntax

section \<open>rt_memset\<close>

text \<open>The word that holds the byte four times.\<close>

definition fill_word :: "u32 \<Rightarrow> u32" where
  "fill_word d = (let buffer = push_bit 8 d OR d in buffer OR push_bit 16 buffer)"

definition store_word :: "nat \<Rightarrow> u32 \<Rightarrow> (nat \<Rightarrow> u8) \<Rightarrow> nat \<Rightarrow> u8" where
  "store_word a w = poke a (u32_bytes (unat w))"

fun fill_big :: "u32 \<Rightarrow> nat \<Rightarrow> nat \<Rightarrow> (nat \<Rightarrow> u8) \<Rightarrow> nat \<times> nat \<times> (nat \<Rightarrow> u8)" where
  "fill_big buffer a count m =
     (if count \<ge> 16
      then fill_big buffer (a + 16) (count - 16)
             (store_word (a + 12) buffer (store_word (a + 8) buffer (store_word (a + 4) buffer (store_word a buffer m))))
      else (a, count, m))"

fun fill_little :: "u32 \<Rightarrow> nat \<Rightarrow> nat \<Rightarrow> (nat \<Rightarrow> u8) \<Rightarrow> nat \<times> nat \<times> (nat \<Rightarrow> u8)" where
  "fill_little buffer a count m =
     (if count \<ge> 4 then fill_little buffer (a + 4) (count - 4) (store_word a buffer m) else (a, count, m))"

fun fill_bytes :: "u8 \<Rightarrow> nat \<Rightarrow> nat \<Rightarrow> (nat \<Rightarrow> u8) \<Rightarrow> nat \<Rightarrow> u8" where
  "fill_bytes d a 0 m = m"
| "fill_bytes d a (Suc count) m = fill_bytes d (a + 1) count (poke a [d] m)"

definition rt_memset :: "nat \<Rightarrow> u32 \<Rightarrow> nat \<Rightarrow> (nat \<Rightarrow> u8) \<Rightarrow> nat \<Rightarrow> u8" where
  "rt_memset s c count m =
     (let d = c AND 0xFF;
          (a, count, m) =
            (if \<not> count < 4 \<and> s mod 4 = 0
             then (case fill_big (fill_word d) s count m of (a, count, m) \<Rightarrow> fill_little (fill_word d) a count m)
             else (s, count, m))
      in fill_bytes (ucast d) a count m)"

section \<open>rt_memcpy\<close>

definition copy_word :: "nat \<Rightarrow> nat \<Rightarrow> (nat \<Rightarrow> u8) \<Rightarrow> nat \<Rightarrow> u8" where
  "copy_word d s m = poke d (u32_bytes (u32_at m s)) m"

fun copy_big :: "nat \<Rightarrow> nat \<Rightarrow> nat \<Rightarrow> (nat \<Rightarrow> u8) \<Rightarrow> nat \<times> nat \<times> nat \<times> (nat \<Rightarrow> u8)" where
  "copy_big d s len m =
     (if len \<ge> 16
      then copy_big (d + 16) (s + 16) (len - 16)
             (copy_word (d + 12) (s + 12) (copy_word (d + 8) (s + 8) (copy_word (d + 4) (s + 4) (copy_word d s m))))
      else (d, s, len, m))"

fun copy_little :: "nat \<Rightarrow> nat \<Rightarrow> nat \<Rightarrow> (nat \<Rightarrow> u8) \<Rightarrow> nat \<times> nat \<times> nat \<times> (nat \<Rightarrow> u8)" where
  "copy_little d s len m = (if len \<ge> 4 then copy_little (d + 4) (s + 4) (len - 4) (copy_word d s m) else (d, s, len, m))"

fun copy_bytes :: "nat \<Rightarrow> nat \<Rightarrow> nat \<Rightarrow> (nat \<Rightarrow> u8) \<Rightarrow> nat \<Rightarrow> u8" where
  "copy_bytes d s 0 m = m"
| "copy_bytes d s (Suc len) m = copy_bytes (d + 1) (s + 1) len (poke d [m s] m)"

definition rt_memcpy :: "nat \<Rightarrow> nat \<Rightarrow> nat \<Rightarrow> (nat \<Rightarrow> u8) \<Rightarrow> nat \<Rightarrow> u8" where
  "rt_memcpy dst src count m =
     (let (d, s, len, m) =
        (if \<not> count < 16 \<and> src mod 4 = 0 \<and> dst mod 4 = 0
         then (case copy_big dst src count m of (d, s, len, m) \<Rightarrow> copy_little d s len m)
         else (dst, src, count, m))
      in copy_bytes d s len m)"

section \<open>The bytes they leave\<close>

declare fill_big.simps [simp del] fill_little.simps [simp del] copy_big.simps [simp del] copy_little.simps [simp del]

definition filled :: "nat \<Rightarrow> u8 \<Rightarrow> nat \<Rightarrow> (nat \<Rightarrow> u8) \<Rightarrow> nat \<Rightarrow> u8" where
  "filled a d n m = poke a (replicate n d) m"

definition copied :: "nat \<Rightarrow> nat \<Rightarrow> nat \<Rightarrow> (nat \<Rightarrow> u8) \<Rightarrow> nat \<Rightarrow> u8" where
  "copied d s n m = poke d (map m [s..<s + n]) m"

lemma filled_step: "k \<le> n \<Longrightarrow> filled (a + k) d (n - k) (filled a d k m) = filled a d n m"
  by (rule ext) (auto simp: filled_def poke_def)

lemma filled_0 [simp]: "filled a d 0 m = m"
  by (rule ext) (auto simp: filled_def poke_def)

lemma copied_at: "copied d s n m x = (if d \<le> x \<and> x < d + n then m (s + (x - d)) else m x)"
  by (auto simp: copied_def poke_def)

lemma copied_0 [simp]: "copied d s 0 m = m"
  by (rule ext) (auto simp: copied_at)

lemma copied_step:
  assumes "k \<le> n" "d + n \<le> s \<or> s + n \<le> d"
  shows "copied (d + k) (s + k) (n - k) (copied d s k m) = copied d s n m"
proof
  fix x
  show "copied (d + k) (s + k) (n - k) (copied d s k m) x = copied d s n m x"
  proof (cases "d + k \<le> x \<and> x < d + n")
    case True
    then have "s + k + (x - (d + k)) = s + (x - d)" "\<not> (d \<le> s + (x - d) \<and> s + (x - d) < d + k)" using assms by auto
    then have "copied (d + k) (s + k) (n - k) (copied d s k m) x = m (s + (x - d))" using True assms(1) unfolding copied_at by auto
    then show ?thesis using True unfolding copied_at by auto
  qed (use assms(1) in \<open>auto simp: copied_at\<close>)
qed

lemma byte_up: "(unat (b :: u8) + 256 * n) div 256 = n" "(of_nat (unat b + 256 * n) :: u8) = b"
proof -
  have b: "unat b < 256" using unsigned_less [of b] by simp
  then show "(unat b + 256 * n) div 256 = n" by (simp add: div_mult_self4)
  have z: "(256 :: u8) = 0" by simp
  show "(of_nat (unat b + 256 * n) :: u8) = b" by (simp add: z)
qed

lemma u32_bytes_at: "u32_bytes (u32_at m s) = map m [s..<s + 4]"
proof -
  define x3 x2 x1 where x: "x3 = unat (m (s + 3)) + 256 * 0" "x2 = unat (m (s + 2)) + 256 * x3" "x1 = unat (m (s + 1)) + 256 * x2"
  have n: "u32_at m s = unat (m s) + 256 * x1" by (simp add: u32_at_def x)
  have "n div 65536 = n div 256 div 256" "n div 16777216 = n div 256 div 256 div 256" for n :: nat by (simp_all flip: div_mult2_eq)
  then have "u32_at m s div 256 = x1" "u32_at m s div 65536 = x2" "u32_at m s div 16777216 = x3" unfolding n x by (simp_all only: byte_up)
  moreover have "(of_nat x1 :: u8) = m (s + 1)" "(of_nat x2 :: u8) = m (s + 2)" "(of_nat x3 :: u8) = m (s + 3)" unfolding x by (simp_all only: byte_up)
  moreover have "(of_nat (u32_at m s) :: u8) = m s" unfolding n by (simp only: byte_up)
  moreover have "[s..<s + 4] = [s, s + 1, s + 2, s + 3]" by (simp add: upt_rec)
  ultimately show ?thesis by (simp add: u32_bytes_def)
qed

lemma copy_word_eq: "copy_word d s m = copied d s 4 m"
  by (simp add: copy_word_def copied_def u32_bytes_at)

lemma copy_big_ok: "d + n \<le> s \<or> s + n \<le> d \<Longrightarrow> \<exists>k\<le>n. copy_big d s n m = (d + k, s + k, n - k, copied d s k m)"
proof (induction d s n m rule: copy_big.induct)
  case (1 d s n m)
  show ?case
  proof (cases "16 \<le> n")
    case True
    have c: "copied (d + i) (s + i) 4 (copied d s i m) = copied d s (i + 4) m" if "i + 4 \<le> 16" for i
      using copied_step [of i "i + 4" d s m] 1(2) that True by auto
    let ?m = "copy_word (d + 12) (s + 12) (copy_word (d + 8) (s + 8) (copy_word (d + 4) (s + 4) (copy_word d s m)))"
    have m: "?m = copied d s 16 m" using c [of 4] c [of 8] c [of 12] by (simp add: copy_word_eq)
    from 1(1) [OF True] 1(2) True obtain k where k: "k \<le> n - 16"
      "copy_big (d + 16) (s + 16) (n - 16) ?m = (d + 16 + k, s + 16 + k, n - 16 - k, copied (d + 16) (s + 16) k ?m)" by auto
    have "copied (d + 16) (s + 16) k ?m = copied d s (16 + k) m" unfolding m using copied_step [of 16 "16 + k" d s m] k(1) 1(2) True by auto
    then show ?thesis using k True by (intro exI [of _ "16 + k"]) (simp add: copy_big.simps [of d s n m] algebra_simps)
  qed (auto simp: copy_big.simps intro: exI [of _ 0])
qed

lemma copy_little_ok: "d + n \<le> s \<or> s + n \<le> d \<Longrightarrow> \<exists>k\<le>n. copy_little d s n m = (d + k, s + k, n - k, copied d s k m)"
proof (induction d s n m rule: copy_little.induct)
  case (1 d s n m)
  show ?case
  proof (cases "4 \<le> n")
    case True
    from 1(1) [OF True] 1(2) True obtain k where k: "k \<le> n - 4"
      "copy_little (d + 4) (s + 4) (n - 4) (copy_word d s m) = (d + 4 + k, s + 4 + k, n - 4 - k, copied (d + 4) (s + 4) k (copy_word d s m))" by auto
    have "copied (d + 4) (s + 4) k (copy_word d s m) = copied d s (4 + k) m" unfolding copy_word_eq
      using copied_step [of 4 "4 + k" d s m] k(1) 1(2) True by auto
    then show ?thesis using k True by (intro exI [of _ "4 + k"]) (simp add: copy_little.simps [of d s n m] algebra_simps)
  qed (auto simp: copy_little.simps intro: exI [of _ 0])
qed

lemma copy_bytes_ok: "d + n \<le> s \<or> s + n \<le> d \<Longrightarrow> copy_bytes d s n m = copied d s n m"
proof (induction n arbitrary: d s m)
  case (Suc n)
  have "poke d [m s] m = copied d s 1 m" by (simp add: copied_def)
  then have "copy_bytes d s (Suc n) m = copied (d + 1) (s + 1) (Suc n - 1) (copied d s 1 m)" using Suc.IH [of "d + 1" "s + 1"] Suc.prems by auto
  also have "\<dots> = copied d s (Suc n) m" by (rule copied_step) (use Suc.prems in auto)
  finally show ?case .
qed simp

text \<open>Of two blocks that do not overlap, the whole block is copied, whatever the alignment.\<close>

lemma rt_memcpy_exact:
  assumes "dst + n \<le> src \<or> src + n \<le> dst"
  shows "rt_memcpy dst src n m = poke dst (map m [src..<src + n]) m"
proof (cases "\<not> n < 16 \<and> src mod 4 = 0 \<and> dst mod 4 = 0")
  case True
  from copy_big_ok [OF assms, of m] obtain k where k: "k \<le> n" "copy_big dst src n m = (dst + k, src + k, n - k, copied dst src k m)" by blast
  from copy_little_ok [of "dst + k" "n - k" "src + k" "copied dst src k m"] assms k(1) obtain j where j: "j \<le> n - k"
    "copy_little (dst + k) (src + k) (n - k) (copied dst src k m) = (dst + k + j, src + k + j, n - k - j, copied (dst + k) (src + k) j (copied dst src k m))" by auto
  have "dst + (k + j) \<le> src \<or> src + (k + j) \<le> dst" using assms j(1) k(1) by linarith
  then have e: "copied (dst + k) (src + k) j (copied dst src k m) = copied dst src (k + j) m" using copied_step [of k "k + j" dst src m] by simp
  have "rt_memcpy dst src n m = copy_bytes (dst + (k + j)) (src + (k + j)) (n - (k + j)) (copied dst src (k + j) m)"
    using True k(2) j(2) e unfolding rt_memcpy_def by (simp add: add.assoc)
  also have "\<dots> = copied (dst + (k + j)) (src + (k + j)) (n - (k + j)) (copied dst src (k + j) m)" by (rule copy_bytes_ok) (use assms j(1) k(1) in auto)
  also have "\<dots> = copied dst src n m" by (rule copied_step) (use assms j(1) k(1) in auto)
  finally show ?thesis by (simp add: copied_def)
next
  case False
  then have "rt_memcpy dst src n m = copy_bytes dst src n m" unfolding rt_memcpy_def by auto
  then show ?thesis using copy_bytes_ok [OF assms, of m] by (simp add: copied_def)
qed

section \<open>Filling\<close>

lemma low_byte: "bit ((c :: u32) AND 0xFF) i \<longleftrightarrow> i < 8 \<and> bit c i"
proof -
  have m: "(0xFF :: u32) = mask 8" by (simp add: mask_eq_exp_minus_1)
  show ?thesis unfolding m by (auto simp: bit_simps)
qed

lemma u32_bytes_powers: "u32_bytes n = map (\<lambda>i. of_nat (n div 2 ^ i)) [0, 8, 16, 24]"
  by (simp add: u32_bytes_def)

lemma fill_word_bytes: "u32_bytes (unat (fill_word (c AND 0xFF))) = replicate 4 (ucast c)"
proof -
  let ?w = "fill_word (c AND 0xFF)"
  have b: "(of_nat (unat ?w div 2 ^ n) :: u8) = ucast (drop_bit n ?w)" for n
    by (rule bit_word_eqI) (simp add: bit_simps flip: drop_bit_eq_div)
  define e where "e = c AND 0xFF"
  have w: "bit (fill_word e) j \<longleftrightarrow> j < 32 \<and> (bit e j \<or> 8 \<le> j \<and> bit e (j - 8) \<or> 16 \<le> j \<and> (bit e (j - 16) \<or> 24 \<le> j \<and> bit e (j - 24)))" for j
    by (auto simp: fill_word_def Let_def bit_simps dest: bit_imp_le_length)
  have "(ucast (drop_bit n ?w) :: u8) = ucast c" if n: "n \<in> {0, 8, 16, 24}" for n
  proof (rule bit_word_eqI)
    fix i
    assume "i < LENGTH(8)"
    then have i: "i < 8" by simp
    consider "n = 0" | "n = 8" | "n = 16" | "n = 24" using n by blast
    then have "bit (fill_word e) (n + i) = bit c i" by cases (use i in \<open>simp_all add: w low_byte [of c, folded e_def]\<close>)
    then have "bit ?w (n + i) = bit c i" by (simp only: e_def)
    then show "bit (ucast (drop_bit n ?w) :: u8) i = bit (ucast c :: u8) i" by (simp add: bit_simps)
  qed
  then have "u32_bytes (unat ?w) = map (\<lambda>_. ucast c) [0 :: nat, 8, 16, 24]" unfolding u32_bytes_powers b by (intro map_cong refl) auto
  then show ?thesis by (simp add: numeral_eq_Suc)
qed

lemma store_word_eq: "store_word a (fill_word (c AND 0xFF)) m = filled a (ucast c) 4 m"
  by (simp add: store_word_def filled_def fill_word_bytes)

lemma fill_little_ok: "\<exists>k\<le>n. fill_little (fill_word (c AND 0xFF)) a n m = (a + k, n - k, filled a (ucast c) k m)"
proof (induction "fill_word (c AND 0xFF)" a n m rule: fill_little.induct)
  case (1 a n m)
  show ?case
  proof (cases "4 \<le> n")
    case True
    let ?m = "store_word a (fill_word (c AND 0xFF)) m"
    from 1 [OF True] obtain k where k: "k \<le> n - 4"
      "fill_little (fill_word (c AND 0xFF)) (a + 4) (n - 4) ?m = (a + 4 + k, n - 4 - k, filled (a + 4) (ucast c) k ?m)" by auto
    have "filled (a + 4) (ucast c) k ?m = filled a (ucast c) (4 + k) m" unfolding store_word_eq using filled_step [of 4 "4 + k" a "ucast c" m] by simp
    then show ?thesis using k True by (intro exI [of _ "4 + k"]) (simp add: fill_little.simps [of _ a n m] algebra_simps)
  qed (auto simp: fill_little.simps intro: exI [of _ 0])
qed

lemma fill_big_ok: "\<exists>k\<le>n. fill_big (fill_word (c AND 0xFF)) a n m = (a + k, n - k, filled a (ucast c) k m)"
proof (induction "fill_word (c AND 0xFF)" a n m rule: fill_big.induct)
  case (1 a n m)
  show ?case
  proof (cases "16 \<le> n")
    case True
    let ?w = "fill_word (c AND 0xFF)"
    let ?m = "store_word (a + 12) ?w (store_word (a + 8) ?w (store_word (a + 4) ?w (store_word a ?w m)))"
    have m: "?m = filled a (ucast c) 16 m"
      using filled_step [of 4 8 a "ucast c" m] filled_step [of 8 12 a "ucast c" m] filled_step [of 12 16 a "ucast c" m] by (simp add: store_word_eq)
    from 1 [OF True] obtain k where k: "k \<le> n - 16"
      "fill_big ?w (a + 16) (n - 16) ?m = (a + 16 + k, n - 16 - k, filled (a + 16) (ucast c) k ?m)" by auto
    have "filled (a + 16) (ucast c) k ?m = filled a (ucast c) (16 + k) m" unfolding m using filled_step [of 16 "16 + k" a "ucast c" m] by simp
    then show ?thesis using k True by (intro exI [of _ "16 + k"]) (simp add: fill_big.simps [of _ a n m] algebra_simps)
  qed (auto simp: fill_big.simps intro: exI [of _ 0])
qed

lemma fill_bytes_ok: "fill_bytes d a n m = filled a d n m"
proof (induction n arbitrary: a m)
  case (Suc n)
  have "poke a [d] m = filled a d 1 m" by (simp add: filled_def)
  then show ?case using Suc.IH filled_step [of 1 "Suc n" a d m] by simp
qed simp

lemma rt_memset_exact: "rt_memset s c n m = poke s (replicate n (ucast c)) m"
proof -
  have u: "(ucast (c AND 0xFF) :: u8) = ucast c" by (rule bit_word_eqI) (simp add: bit_ucast_iff low_byte)
  show ?thesis
  proof (cases "\<not> n < 4 \<and> s mod 4 = 0")
    case True
    from fill_big_ok [of n c s m] obtain k where k: "k \<le> n" "fill_big (fill_word (c AND 0xFF)) s n m = (s + k, n - k, filled s (ucast c) k m)" by blast
    from fill_little_ok [of "n - k" c "s + k" "filled s (ucast c) k m"] obtain j where j: "j \<le> n - k"
      "fill_little (fill_word (c AND 0xFF)) (s + k) (n - k) (filled s (ucast c) k m) = (s + k + j, n - k - j, filled (s + k) (ucast c) j (filled s (ucast c) k m))" by blast
    have "filled (s + k) (ucast c) j (filled s (ucast c) k m) = filled s (ucast c) (k + j) m" using filled_step [of k "k + j" s "ucast c" m] by simp
    then have "rt_memset s c n m = filled (s + (k + j)) (ucast c) (n - (k + j)) (filled s (ucast c) (k + j) m)"
      using True k(2) j(2) unfolding rt_memset_def Let_def by (simp add: u fill_bytes_ok add.assoc)
    also have "\<dots> = filled s (ucast c) n m" by (rule filled_step) (use k(1) j(1) in simp)
    finally show ?thesis by (simp add: filled_def)
  next
    case False
    then have "rt_memset s c n m = fill_bytes (ucast c) s n m" unfolding rt_memset_def Let_def u by auto
    then show ?thesis by (simp add: fill_bytes_ok filled_def)
  qed
qed

text \<open>
  C31. The copy and fill routines that work by words and four words at a time do byte for byte what
  they should, for every alignment and length: \<open>rt_memcpy\<close> moves a block to another place that does
  not overlap it, \<open>rt_memset\<close> fills a block with the low byte of its argument, and no other byte of
  the memory changes.
\<close>

theorem memory_routines_exact:
  assumes "dst + n \<le> src \<or> src + n \<le> dst"
  shows "rt_memcpy dst src n m = (\<lambda>x. if dst \<le> x \<and> x < dst + n then m (src + (x - dst)) else m x) \<and>
    rt_memset dst c n m = (\<lambda>x. if dst \<le> x \<and> x < dst + n then ucast c else m x)"
proof
  have "rt_memcpy dst src n m = copied dst src n m" by (simp add: rt_memcpy_exact [OF assms] copied_def)
  then show "rt_memcpy dst src n m = (\<lambda>x. if dst \<le> x \<and> x < dst + n then m (src + (x - dst)) else m x)" by (simp add: copied_at fun_eq_iff)
  show "rt_memset dst c n m = (\<lambda>x. if dst \<le> x \<and> x < dst + n then ucast c else m x)"
    by (auto simp: rt_memset_exact poke_def fun_eq_iff)
qed

theorem memory_routines_exact_witness:
  "rt_memcpy 100 40 23 (of_nat :: nat \<Rightarrow> u8) 107 = 47 \<and> rt_memset 100 0x1234 23 (of_nat :: nat \<Rightarrow> u8) 122 = 0x34 \<and> rt_memset 100 0x1234 23 (of_nat :: nat \<Rightarrow> u8) 123 = 123"
  using memory_routines_exact [of 100 23 40 of_nat "0x1234"] by simp

end
