(* ===== verification/RtMem.thy ===== *)
theory RtMem
  imports KService
begin

text \<open>
  The kernel's heap, \<open>rt-thread/src/mem.c\<close>, on the bytes of the RAM, configured as the firmware
  does it: 32-bit addresses, \<open>RT_ALIGN_SIZE\<close> 8, assertions on, no \<open>RT_USING_MEMTRACE\<close>. A
  \<open>struct heap_mem\<close> is 12 bytes (magic at 0, used at 2, next at 4, prev at 8), \<open>SIZEOF_STRUCT_MEM\<close> is 16.

  Addresses and sizes are natural numbers below \<open>2 ^ 32\<close>; subtractions that can wrap around are
  \<open>sub32\<close>. Address 0 is \<open>RT_NULL\<close>. A call that fails an assertion, or whose loop does not end,
  never returns: its value is \<open>None\<close>. The semaphore \<open>heap_sem\<close> makes a call atomic and is not
  part of the state; the hooks are not set.
\<close>

unbundle bit_operations_syntax

abbreviation (input) HEAP_MAGIC :: nat where "HEAP_MAGIC \<equiv> 0x1EA0"
abbreviation (input) MIN_SIZE :: nat where "MIN_SIZE \<equiv> 12"
abbreviation (input) MIN_SIZE_ALIGNED :: nat where "MIN_SIZE_ALIGNED \<equiv> 16"
abbreviation (input) SIZEOF_STRUCT_MEM :: nat where "SIZEOF_STRUCT_MEM \<equiv> 16"
abbreviation (input) RT_ALIGN_SIZE :: nat where "RT_ALIGN_SIZE \<equiv> 8"
abbreviation (input) RT_NULL :: nat where "RT_NULL \<equiv> 0"

definition RT_ALIGN :: "nat \<Rightarrow> nat" where
  "RT_ALIGN n = (n + (RT_ALIGN_SIZE - 1)) mod 2 ^ 32 div RT_ALIGN_SIZE * RT_ALIGN_SIZE"

definition RT_ALIGN_DOWN :: "nat \<Rightarrow> nat" where
  "RT_ALIGN_DOWN n = n div RT_ALIGN_SIZE * RT_ALIGN_SIZE"

record heap =
  ram :: "nat \<Rightarrow> u8"
  heap_ptr :: nat
  heap_end :: nat
  lfree :: nat
  mem_size_aligned :: nat
  used_mem :: nat
  max_mem :: nat

section \<open>The fields of struct heap_mem\<close>

definition h_magic :: "heap \<Rightarrow> nat \<Rightarrow> nat" where "h_magic h mem = u16_at (ram h) mem"
definition h_used :: "heap \<Rightarrow> nat \<Rightarrow> nat" where "h_used h mem = u16_at (ram h) (mem + 2)"
definition h_next :: "heap \<Rightarrow> nat \<Rightarrow> nat" where "h_next h mem = u32_at (ram h) (mem + 4)"
definition h_prev :: "heap \<Rightarrow> nat \<Rightarrow> nat" where "h_prev h mem = u32_at (ram h) (mem + 8)"

definition set_magic :: "nat \<Rightarrow> nat \<Rightarrow> heap \<Rightarrow> heap" where
  "set_magic mem v h = h\<lparr>ram := poke mem (u16_bytes v) (ram h)\<rparr>"
definition set_used :: "nat \<Rightarrow> nat \<Rightarrow> heap \<Rightarrow> heap" where
  "set_used mem v h = h\<lparr>ram := poke (mem + 2) (u16_bytes v) (ram h)\<rparr>"
definition set_next :: "nat \<Rightarrow> nat \<Rightarrow> heap \<Rightarrow> heap" where
  "set_next mem v h = h\<lparr>ram := poke (mem + 4) (u32_bytes v) (ram h)\<rparr>"
definition set_prev :: "nat \<Rightarrow> nat \<Rightarrow> heap \<Rightarrow> heap" where
  "set_prev mem v h = h\<lparr>ram := poke (mem + 8) (u32_bytes v) (ram h)\<rparr>"

section \<open>Merging\<close>

text \<open>Plugging the hole forward, and backward.\<close>

definition plug_next :: "nat \<Rightarrow> heap \<Rightarrow> heap" where
  "plug_next mem h =
     (let nmem = heap_ptr h + h_next h mem
      in if mem \<noteq> nmem \<and> h_used h nmem = 0 \<and> nmem \<noteq> heap_end h then
           let h = (if lfree h = nmem then h\<lparr>lfree := mem\<rparr> else h);
               h = set_next mem (h_next h nmem) h
           in set_prev (heap_ptr h + h_next h nmem) (mem - heap_ptr h) h
         else h)"

definition plug_prev :: "nat \<Rightarrow> heap \<Rightarrow> heap" where
  "plug_prev mem h =
     (let pmem = heap_ptr h + h_prev h mem
      in if pmem \<noteq> mem \<and> h_used h pmem = 0 then
           let h = (if lfree h = mem then h\<lparr>lfree := pmem\<rparr> else h);
               h = set_next pmem (h_next h mem) h
           in set_prev (heap_ptr h + h_next h mem) (pmem - heap_ptr h) h
         else h)"

definition plug_holes :: "nat \<Rightarrow> heap \<Rightarrow> heap option" where
  "plug_holes mem h =
     (if mem \<ge> heap_ptr h \<and> mem < heap_end h \<and> h_used h mem = 0 then Some (plug_prev mem (plug_next mem h)) else None)"

section \<open>Start\<close>

definition rt_system_heap_init :: "nat \<Rightarrow> nat \<Rightarrow> heap \<Rightarrow> heap" where
  "rt_system_heap_init begin_addr end_addr h =
     (let begin_align = RT_ALIGN begin_addr; end_align = RT_ALIGN_DOWN end_addr in
      if end_align > 2 * SIZEOF_STRUCT_MEM \<and> end_align - 2 * SIZEOF_STRUCT_MEM \<ge> begin_align then
        let n = end_align - begin_align - 2 * SIZEOF_STRUCT_MEM;
            mem = begin_align;
            h = h\<lparr>mem_size_aligned := n, heap_ptr := begin_align\<rparr>;
            h = set_used mem 0 (set_prev mem 0 (set_next mem (n + SIZEOF_STRUCT_MEM) (set_magic mem HEAP_MAGIC h)));
            e = begin_align + (n + SIZEOF_STRUCT_MEM);
            h = h\<lparr>heap_end := e\<rparr>;
            h = set_prev e (n + SIZEOF_STRUCT_MEM) (set_next e (n + SIZEOF_STRUCT_MEM) (set_used e 1 (set_magic e HEAP_MAGIC h)))
        in h\<lparr>lfree := begin_align\<rparr>
      else h)"

section \<open>Allocating\<close>

definition count_used :: "nat \<Rightarrow> heap \<Rightarrow> heap" where
  "count_used n h =
     (let h = h\<lparr>used_mem := (used_mem h + n) mod 2 ^ 32\<rparr>
      in if max_mem h < used_mem h then h\<lparr>max_mem := used_mem h\<rparr> else h)"

text \<open>The loop that looks for the next free block.\<close>

partial_function (option) lfree_loop :: "heap \<Rightarrow> heap option" where
  [code]: "lfree_loop h =
     (if h_used h (lfree h) \<noteq> 0 \<and> lfree h \<noteq> heap_end h
      then lfree_loop (h\<lparr>lfree := heap_ptr h + h_next h (lfree h)\<rparr>) else Some h)"

text \<open>
  The body of the loop of \<open>rt_malloc\<close>, for a block that is large enough: the block is cut if the
  rest is worth it and marked as used, then \<open>lfree\<close> is moved on.
\<close>

definition malloc_mark :: "nat \<Rightarrow> nat \<Rightarrow> heap \<Rightarrow> heap" where
  "malloc_mark ptr n h =
     (let mem = heap_ptr h + ptr;
          h = (if sub32 (h_next h mem) (ptr + SIZEOF_STRUCT_MEM) \<ge> n + SIZEOF_STRUCT_MEM + MIN_SIZE_ALIGNED then
                 let ptr2 = ptr + SIZEOF_STRUCT_MEM + n; mem2 = heap_ptr h + ptr2;
                     h = set_prev mem2 ptr (set_next mem2 (h_next h mem) (set_used mem2 0 (set_magic mem2 HEAP_MAGIC h)));
                     h = set_used mem 1 (set_next mem ptr2 h);
                     h = (if h_next h mem2 \<noteq> mem_size_aligned h + SIZEOF_STRUCT_MEM
                          then set_prev (heap_ptr h + h_next h mem2) ptr2 h else h)
                 in count_used (n + SIZEOF_STRUCT_MEM) h
               else
                 let h = set_used mem 1 h in count_used (sub32 (h_next h mem) ptr) h)
      in set_magic mem HEAP_MAGIC h)"

definition malloc_take :: "nat \<Rightarrow> nat \<Rightarrow> heap \<Rightarrow> (nat \<times> heap) option" where
  "malloc_take ptr n h =
     (let mem = heap_ptr h + ptr;
          h = malloc_mark ptr n h
      in case (if mem = lfree h
               then (case lfree_loop h of None \<Rightarrow> None
                     | Some h \<Rightarrow> if lfree h = heap_end h \<or> h_used h (lfree h) = 0 then Some h else None)
               else Some h) of
           None \<Rightarrow> None
         | Some h \<Rightarrow>
             if mem + SIZEOF_STRUCT_MEM + n \<le> heap_end h \<and> (mem + SIZEOF_STRUCT_MEM) mod RT_ALIGN_SIZE = 0 \<and>
                mem mod RT_ALIGN_SIZE = 0
             then Some (mem + SIZEOF_STRUCT_MEM, h) else None)"

partial_function (option) malloc_loop :: "nat \<Rightarrow> nat \<Rightarrow> heap \<Rightarrow> (nat \<times> heap) option" where
  [code]: "malloc_loop ptr n h =
     (if ptr < sub32 (mem_size_aligned h) n then
        if h_used h (heap_ptr h + ptr) = 0 \<and> sub32 (h_next h (heap_ptr h + ptr)) (ptr + SIZEOF_STRUCT_MEM) \<ge> n
        then malloc_take ptr n h
        else malloc_loop (h_next h (heap_ptr h + ptr)) n h
      else Some (RT_NULL, h))"

definition rt_malloc :: "nat \<Rightarrow> heap \<Rightarrow> (nat \<times> heap) option" where
  "rt_malloc n h =
     (if n = 0 then Some (RT_NULL, h)
      else
        let n = RT_ALIGN n in
        if n > mem_size_aligned h then Some (RT_NULL, h)
        else
          let n = (if n < MIN_SIZE_ALIGNED then MIN_SIZE_ALIGNED else n)
          in malloc_loop (sub32 (lfree h) (heap_ptr h)) n h)"

section \<open>Freeing\<close>

definition rt_free :: "nat \<Rightarrow> heap \<Rightarrow> heap option" where
  "rt_free rmem h =
     (if rmem = RT_NULL then Some h
      else if \<not> (rmem mod RT_ALIGN_SIZE = 0 \<and> rmem \<ge> heap_ptr h \<and> rmem < heap_end h) then None
      else
        let mem = sub32 rmem SIZEOF_STRUCT_MEM in
        if \<not> (h_used h mem \<noteq> 0 \<and> h_magic h mem = HEAP_MAGIC) then None
        else
          let h = set_magic mem HEAP_MAGIC (set_used mem 0 h);
              h = (if mem < lfree h then h\<lparr>lfree := mem\<rparr> else h);
              h = h\<lparr>used_mem := sub32 (used_mem h) (sub32 (h_next h mem) (sub32 mem (heap_ptr h)))\<rparr>
          in plug_holes mem h)"

section \<open>Resizing and clearing\<close>

definition rt_realloc :: "nat \<Rightarrow> nat \<Rightarrow> heap \<Rightarrow> (nat \<times> heap) option" where
  "rt_realloc rmem newsize h =
     (let newsize = RT_ALIGN newsize in
      if newsize > mem_size_aligned h then Some (RT_NULL, h)
      else if newsize = 0 then map_option (Pair RT_NULL) (rt_free rmem h)
      else if rmem = RT_NULL then rt_malloc newsize h
      else if rmem < heap_ptr h \<or> rmem \<ge> heap_end h then Some (rmem, h)
      else
        let mem = sub32 rmem SIZEOF_STRUCT_MEM;
            ptr = sub32 mem (heap_ptr h);
            sz = sub32 (h_next h mem) (ptr + SIZEOF_STRUCT_MEM)
        in if sz = newsize then Some (rmem, h)
           else if newsize + SIZEOF_STRUCT_MEM + MIN_SIZE < sz then
             let h = h\<lparr>used_mem := sub32 (used_mem h) (sub32 sz newsize)\<rparr>;
                 ptr2 = ptr + SIZEOF_STRUCT_MEM + newsize; mem2 = heap_ptr h + ptr2;
                 h = set_prev mem2 ptr (set_next mem2 (h_next h mem) (set_used mem2 0 (set_magic mem2 HEAP_MAGIC h)));
                 h = set_next mem ptr2 h;
                 h = (if h_next h mem2 \<noteq> mem_size_aligned h + SIZEOF_STRUCT_MEM
                      then set_prev (heap_ptr h + h_next h mem2) ptr2 h else h)
             in map_option (Pair rmem) (plug_holes mem2 h)
           else
             (case rt_malloc newsize h of None \<Rightarrow> None
              | Some (nmem, h) \<Rightarrow>
                  if nmem \<noteq> RT_NULL
                  then map_option (Pair nmem) (rt_free rmem (h\<lparr>ram := rt_memcpy nmem rmem (if sz < newsize then sz else newsize) (ram h)\<rparr>))
                  else Some (nmem, h)))"

definition rt_calloc :: "nat \<Rightarrow> nat \<Rightarrow> heap \<Rightarrow> (nat \<times> heap) option" where
  "rt_calloc n sz h =
     (case rt_malloc (n * sz mod 2 ^ 32) h of None \<Rightarrow> None
      | Some (p, h) \<Rightarrow> Some (p, if p \<noteq> RT_NULL then h\<lparr>ram := rt_memset p 0 (n * sz mod 2 ^ 32) (ram h)\<rparr> else h))"

end
