(* ===== verification/RtMemRep.thy ===== *)
theory RtMemRep
  imports RtMem
begin

text \<open>
  The heap as a list of blocks: allocation and release keep the chain of headers in order, never
  hand out memory twice and never touch the contents of a block in use.
\<close>

section \<open>The chain of blocks\<close>

text \<open>A block: in use or free, and its length with the header.\<close>

type_synonym blk = "bool \<times> nat"

definition blen :: "blk list \<Rightarrow> nat" where
  "blen bs = sum_list (map snd bs)"

lemma blen_simps [simp]: "blen [] = 0" "blen (b # bs) = snd b + blen bs" "blen (xs @ ys) = blen xs + blen ys"
  by (simp_all add: blen_def)

definition hdr :: "(nat \<Rightarrow> u8) \<Rightarrow> nat \<Rightarrow> bool \<Rightarrow> nat \<Rightarrow> nat \<Rightarrow> bool" where
  "hdr m a u nx pv \<longleftrightarrow> u16_at m a = HEAP_MAGIC \<and> u16_at m (a + 2) = of_bool u \<and> u32_at m (a + 4) = nx \<and> u32_at m (a + 8) = pv"

primrec chain :: "(nat \<Rightarrow> u8) \<Rightarrow> nat \<Rightarrow> nat \<Rightarrow> nat \<Rightarrow> blk list \<Rightarrow> bool" where
  "chain m H p q [] = True"
| "chain m H p q (b # bs) = (hdr m (H + p) (fst b) (p + snd b) q \<and> chain m H (p + snd b) p bs)"

text \<open>The offset of the last block.\<close>

definition last_pos :: "nat \<Rightarrow> nat \<Rightarrow> blk list \<Rightarrow> nat" where
  "last_pos p q bs = (if bs = [] then q else p + blen (butlast bs))"

lemma chain_append [simp]:
  "chain m H p q (xs @ ys) \<longleftrightarrow> chain m H p q xs \<and> chain m H (p + blen xs) (last_pos p q xs) ys"
  by (induction xs arbitrary: p q) (auto simp: last_pos_def add.assoc)

definition wf_blks :: "blk list \<Rightarrow> bool" where
  "wf_blks bs \<longleftrightarrow> (\<forall>b\<in>set bs. 24 \<le> snd b \<and> 8 dvd snd b)"

lemma wf_blks_simps [simp]:
  "wf_blks []" "wf_blks (b # bs) \<longleftrightarrow> 24 \<le> snd b \<and> 8 dvd snd b \<and> wf_blks bs" "wf_blks (xs @ ys) \<longleftrightarrow> wf_blks xs \<and> wf_blks ys"
  by (auto simp: wf_blks_def)

section \<open>Writing headers\<close>

lemma hdr_out: "hdr m a u nx pv \<Longrightarrow> a + 12 \<le> b \<or> b + length bs \<le> a \<Longrightarrow> hdr (poke b bs m) a u nx pv"
  by (auto simp: hdr_def u32_poke_out u16_poke_out)

lemma hdr_magic: "hdr m a u nx pv \<Longrightarrow> hdr (poke a (u16_bytes HEAP_MAGIC) m) a u nx pv"
  by (simp add: hdr_def u32_poke_out u16_poke_out u16_poke)

lemma hdr_used: "hdr m a u nx pv \<Longrightarrow> hdr (poke (a + 2) (u16_bytes (of_bool v)) m) a v nx pv"
  by (simp add: hdr_def u32_poke_out u16_poke_out u16_poke)

lemma hdr_next: "hdr m a u nx pv \<Longrightarrow> n < 4294967296 \<Longrightarrow> hdr (poke (a + 4) (u32_bytes n) m) a u n pv"
  by (simp add: hdr_def u32_poke_out u16_poke_out u32_poke)

lemma hdr_prev: "hdr m a u nx pv \<Longrightarrow> n < 4294967296 \<Longrightarrow> hdr (poke (a + 8) (u32_bytes n) m) a u nx n"
  by (simp add: hdr_def u32_poke_out u16_poke_out u32_poke)

lemma hdr_new:
  assumes "nx < 4294967296" "pv < 4294967296"
  shows "hdr (poke (a + 8) (u32_bytes pv) (poke (a + 4) (u32_bytes nx) (poke (a + 2) (u16_bytes (of_bool u)) (poke a (u16_bytes HEAP_MAGIC) m)))) a u nx pv"
  using assms by (simp add: hdr_def u32_poke_out u16_poke_out u32_poke u16_poke)

lemma chain_out:
  "chain m H p q bs \<Longrightarrow> wf_blks bs \<Longrightarrow> b + length cs \<le> H + p \<or> H + p + blen bs \<le> b \<Longrightarrow> chain (poke b cs m) H p q bs"
  by (induction bs arbitrary: p q) (auto intro!: hdr_out)

section \<open>Layouts\<close>

definition layout :: "(nat \<Rightarrow> u8) \<Rightarrow> nat \<Rightarrow> blk list \<Rightarrow> bool" where
  "layout m H bs \<longleftrightarrow> chain m H 0 0 bs \<and> (\<exists>pv. hdr m (H + blen bs) True (blen bs) pv) \<and> wf_blks bs \<and> H + blen bs + 16 \<le> 4294967296"

lemma layoutD:
  assumes "layout m H (as @ b # cs)"
  shows "hdr m (H + blen as) (fst b) (blen as + snd b) (last_pos 0 0 as)" "24 \<le> snd b" "8 dvd snd b"
    "H + blen as + snd b + blen cs + 16 \<le> 4294967296"
  using assms by (auto simp: layout_def)

text \<open>The header behind the first blocks: that of the next block or the end of the heap.\<close>

definition after :: "(nat \<Rightarrow> u8) \<Rightarrow> nat \<Rightarrow> nat \<Rightarrow> nat \<Rightarrow> blk list \<Rightarrow> bool" where
  "after m H p q cs \<longleftrightarrow> chain m H p q cs \<and> (\<exists>pv. hdr m (H + p + blen cs) True (p + blen cs) pv) \<and> wf_blks cs"

lemma layout_after:
  "layout m H (as @ b # cs) \<longleftrightarrow> chain m H 0 0 as \<and> wf_blks as \<and> hdr m (H + blen as) (fst b) (blen as + snd b) (last_pos 0 0 as) \<and>
     24 \<le> snd b \<and> 8 dvd snd b \<and> after m H (blen as + snd b) (blen as) cs \<and> H + blen as + snd b + blen cs + 16 \<le> 4294967296"
  by (auto simp: layout_def after_def add.assoc)

lemma after_out: "after m H p q cs \<Longrightarrow> b + length bs \<le> H + p \<Longrightarrow> after (poke b bs m) H p q cs"
  unfolding after_def by (auto intro!: chain_out hdr_out)

lemma after_prev:
  assumes "after m H p q cs" "q' < 4294967296"
  shows "after (poke (H + p + 8) (u32_bytes q') m) H p q' cs"
proof (cases cs)
  case Nil
  then show ?thesis using assms by (auto simp: after_def dest: hdr_prev)
next
  case (Cons c cs')
  let ?m = "poke (H + p + 8) (u32_bytes q') m"
  from assms Cons have c: "hdr m (H + p) (fst c) (p + snd c) q" "chain m H (p + snd c) p cs'" "wf_blks cs'" "24 \<le> snd c" "8 dvd snd c"
    by (auto simp: after_def)
  from assms Cons obtain pv where "hdr m (H + p + blen cs) True (p + blen cs) pv" by (auto simp: after_def)
  then have "hdr ?m (H + p + blen cs) True (p + blen cs) pv" by (rule hdr_out) (use c Cons in auto)
  moreover have "hdr ?m (H + p) (fst c) (p + snd c) q'" using c(1) assms(2) by (rule hdr_prev)
  moreover have "chain ?m H (p + snd c) p cs'" using c(2,3) by (rule chain_out) (use c in auto)
  ultimately show ?thesis using c Cons by (auto simp: after_def)
qed

lemma after_end: "after m H p q [] \<longleftrightarrow> after m H p q' []"
  by (simp add: after_def)

lemma layout_magic: "layout m H (as @ b # cs) \<Longrightarrow> layout (poke (H + blen as) (u16_bytes HEAP_MAGIC) m) H (as @ b # cs)"
  unfolding layout_after by (auto intro!: chain_out hdr_magic after_out)

lemma layout_used:
  assumes "layout m H (as @ (u, n) # cs)"
  shows "layout (poke (H + blen as + 2) (u16_bytes (of_bool v)) m) H (as @ (v, n) # cs)"
proof -
  note l = assms [unfolded layout_after, simplified]
  have "hdr (poke (H + blen as + 2) (u16_bytes (of_bool v)) m) (H + blen as) v (blen as + n) (last_pos 0 0 as)"
    using l by (intro hdr_used) auto
  moreover have "chain (poke (H + blen as + 2) (u16_bytes (of_bool v)) m) H 0 0 as" using l by (intro chain_out) auto
  moreover have "after (poke (H + blen as + 2) (u16_bytes (of_bool v)) m) H (blen as + n) (blen as) cs"
    using l by (intro after_out) auto
  ultimately show ?thesis unfolding layout_after using l by simp
qed

text \<open>Merging a block with the next one.\<close>

lemma layout_merge:
  assumes "layout m H (as @ (u, k) # (v, n) # cs)"
  shows "layout (poke (H + (blen as + (k + n)) + 8) (u32_bytes (blen as)) (poke (H + blen as + 4) (u32_bytes (blen as + (k + n))) m))
    H (as @ (u, k + n) # cs)"
proof -
  note l = assms [unfolded layout_after, simplified]
  let ?m = "poke (H + blen as + 4) (u32_bytes (blen as + (k + n))) m"
  have c: "hdr m (H + (blen as + k)) v (blen as + k + n) (blen as)" "after m H (blen as + (k + n)) (blen as + k) cs"
    using l by (auto simp: after_def add.assoc)
  have "after ?m H (blen as + (k + n)) (blen as + k) cs" using c(2) by (rule after_out) (use l in auto)
  then have "after (poke (H + (blen as + (k + n)) + 8) (u32_bytes (blen as)) ?m) H (blen as + (k + n)) (blen as) cs"
    by (rule after_prev) (use l in auto)
  moreover have "24 \<le> n" "8 dvd n" using l by (auto simp: after_def)
  moreover have "hdr (poke (H + (blen as + (k + n)) + 8) (u32_bytes (blen as)) ?m) (H + blen as) u (blen as + (k + n)) (last_pos 0 0 as)"
    by (rule hdr_out, rule hdr_next) (use l in auto)
  moreover have "chain (poke (H + (blen as + (k + n)) + 8) (u32_bytes (blen as)) ?m) H 0 0 as"
    by (intro chain_out) (use l in auto)
  ultimately show ?thesis unfolding layout_after using l by auto
qed

text \<open>Cutting a block in two; the prev link of the end of the heap may stay as it is.\<close>

lemma layout_split:
  assumes "layout m H (as @ (u, n) # cs)" "24 \<le> k" "8 dvd k" "k + 24 \<le> n"
    and m2: "m2 = poke (H + (blen as + k) + 8) (u32_bytes (blen as)) (poke (H + (blen as + k) + 4) (u32_bytes (blen as + n))
      (poke (H + (blen as + k) + 2) (u16_bytes 0) (poke (H + (blen as + k)) (u16_bytes HEAP_MAGIC) m)))"
    and m3: "m3 = poke (H + blen as + 4) (u32_bytes (blen as + k)) m2"
    and m4: "m4 = poke (H + (blen as + n) + 8) (u32_bytes (blen as + k)) m3 \<or> m4 = m3 \<and> cs = []"
  shows "layout m4 H (as @ (u, k) # (False, n - k) # cs)"
proof -
  note l = assms(1) [unfolded layout_after, simplified]
  have h2: "hdr m2 (H + (blen as + k)) False (blen as + n) (blen as)"
    unfolding m2 using hdr_new [of "blen as + n" "blen as" "H + (blen as + k)" False m] l assms(4) by auto
  have a3: "after m3 H (blen as + n) (blen as) cs" unfolding m3 m2 using l assms(4) by (auto intro!: after_out)
  have h: "hdr m4 (H + blen as) u (blen as + k) (last_pos 0 0 as)" "hdr m4 (H + (blen as + k)) False (blen as + n) (blen as)"
    "chain m4 H 0 0 as"
  proof -
    have "hdr m2 (H + blen as) u (blen as + n) (last_pos 0 0 as)" unfolding m2 using l assms(2,4) by (auto intro!: hdr_out)
    then have h3: "hdr m3 (H + blen as) u (blen as + k) (last_pos 0 0 as)" unfolding m3 using l assms(4) by (intro hdr_next) auto
    have h3': "hdr m3 (H + (blen as + k)) False (blen as + n) (blen as)" unfolding m3 using h2 assms(2) by (intro hdr_out) auto
    have "chain m2 H 0 0 as" unfolding m2 using l assms(2) by (auto intro!: chain_out)
    then have c3: "chain m3 H 0 0 as" unfolding m3 using l by (auto intro!: chain_out)
    from m4 show "hdr m4 (H + blen as) u (blen as + k) (last_pos 0 0 as)" using h3 assms(4) by (auto intro!: hdr_out)
    from m4 show "hdr m4 (H + (blen as + k)) False (blen as + n) (blen as)" using h3' assms(4) by (auto intro!: hdr_out)
    from m4 show "chain m4 H 0 0 as" using c3 l by (auto intro!: chain_out)
  qed
  have "after m4 H (blen as + n) (blen as + k) cs"
  proof (cases "m4 = m3 \<and> cs = []")
    case True
    then show ?thesis using a3 after_end by blast
  next
    case False
    then show ?thesis using m4 after_prev [OF a3, of "blen as + k"] l assms(4) by auto
  qed
  moreover have "8 dvd n - k" "24 \<le> n - k" using l assms(3,4) by (auto simp: dvd_diff_nat)
  ultimately show ?thesis unfolding layout_after using l h assms(2-4) by (auto simp: after_def add.assoc)
qed

section \<open>Reading headers\<close>

lemmas set_defs = set_magic_def set_used_def set_next_def set_prev_def

lemmas get_defs = h_magic_def h_used_def h_next_def h_prev_def

lemma layout_reads:
  assumes "layout (ram h) H (as @ b # cs)"
  shows "h_magic h (H + blen as) = HEAP_MAGIC" "h_used h (H + blen as) = of_bool (fst b)"
    "h_next h (H + blen as) = blen as + snd b" "h_prev h (H + blen as) = last_pos 0 0 as"
  using layoutD(1) [OF assms] by (simp_all add: hdr_def get_defs)

lemma layout_end_used: "layout (ram h) H bs \<Longrightarrow> h_used h (H + blen bs) = 1"
  by (auto simp: layout_def hdr_def get_defs)

section \<open>Free and live blocks\<close>

text \<open>Where the free blocks start.\<close>

primrec frees :: "nat \<Rightarrow> blk list \<Rightarrow> nat list" where
  "frees p [] = []"
| "frees p (b # bs) = (if fst b then [] else [p]) @ frees (p + snd b) bs"

lemma frees_append [simp]: "frees p (xs @ ys) = frees p xs @ frees (p + blen xs) ys"
  by (induction xs arbitrary: p) (auto simp: add.assoc)

lemma frees_bounds: "x \<in> set (frees p bs) \<Longrightarrow> wf_blks bs \<Longrightarrow> p \<le> x \<and> x + 24 \<le> p + blen bs"
  by (induction bs arbitrary: p) (fastforce split: if_splits)+

text \<open>The memory handed out: address and length of the user part of each block in use.\<close>

primrec live :: "nat \<Rightarrow> blk list \<Rightarrow> (nat \<times> nat) list" where
  "live p [] = []"
| "live p (b # bs) = (if fst b then [(p + 16, snd b - 16)] else []) @ live (p + snd b) bs"

lemma live_append [simp]: "live p (xs @ ys) = live p xs @ live (p + blen xs) ys"
  by (induction xs arbitrary: p) (auto simp: add.assoc)

lemma live_bounds: "(a, l) \<in> set (live p bs) \<Longrightarrow> wf_blks bs \<Longrightarrow> p + 16 \<le> a \<and> a + l \<le> p + blen bs \<and> 8 \<le> l"
  by (induction bs arbitrary: p) (fastforce split: if_splits)+

lemma live_split:
  "(a, l) \<in> set (live p bs) \<Longrightarrow> \<exists>as k cs. bs = as @ (True, k) # cs \<and> a = p + blen as + 16 \<and> l = k - 16"
proof (induction bs arbitrary: p)
  case (Cons b bs)
  then consider "fst b" "a = p + 16" "l = snd b - 16" | "(a, l) \<in> set (live (p + snd b) bs)" by (auto split: if_splits)
  then show ?case
  proof cases
    case 1
    then show ?thesis by (intro exI [of _ "[]"] exI [of _ "snd b"] exI [of _ bs]) (cases b, simp)
  next
    case 2
    from Cons.IH [OF this] obtain as k cs where "bs = as @ (True, k) # cs" "a = p + snd b + blen as + 16" "l = k - 16" by blast
    then show ?thesis by (intro exI [of _ "b # as"]) auto
  qed
qed simp

text \<open>The bytes of the blocks in use.\<close>

definition in_use :: "nat \<Rightarrow> blk list \<Rightarrow> nat \<Rightarrow> bool" where
  "in_use p bs x \<longleftrightarrow> (\<exists>(a, l)\<in>set (live p bs). a \<le> x \<and> x < a + l)"

lemma in_use_simps [simp]:
  "\<not> in_use p [] x"
  "in_use p (b # bs) x \<longleftrightarrow> fst b \<and> p + 16 \<le> x \<and> x < p + 16 + (snd b - 16) \<or> in_use (p + snd b) bs x"
  "in_use p (xs @ ys) x \<longleftrightarrow> in_use p xs x \<or> in_use (p + blen xs) ys x"
  by (auto simp: in_use_def)

lemma in_use_bounds: "in_use p bs x \<Longrightarrow> wf_blks bs \<Longrightarrow> p + 16 \<le> x \<and> x < p + blen bs"
  by (auto simp: in_use_def dest!: live_bounds)

definition same_on :: "(nat \<Rightarrow> bool) \<Rightarrow> (nat \<Rightarrow> u8) \<Rightarrow> (nat \<Rightarrow> u8) \<Rightarrow> bool" where
  "same_on P m m' \<longleftrightarrow> (\<forall>x. P x \<longrightarrow> m' x = m x)"

lemma same_on_refl [simp]: "same_on P m m"
  by (simp add: same_on_def)

lemma same_on_trans: "same_on P m m1 \<Longrightarrow> same_on P m1 m2 \<Longrightarrow> same_on P m m2"
  by (simp add: same_on_def)

lemma same_on_poke: "same_on P m m' \<Longrightarrow> (\<And>x. P x \<Longrightarrow> x < a \<or> a + length bs \<le> x) \<Longrightarrow> same_on P m (poke a bs m')"
  by (fastforce simp: same_on_def poke_out)

text \<open>A write to the header of a block touches nothing in use.\<close>

lemma same_on_header:
  assumes "same_on (in_use H (as @ cs)) m m'" "wf_blks (as @ cs)" "H + blen as \<le> a" "a + length xs \<le> H + blen as + 16"
  shows "same_on (in_use H (as @ cs)) m (poke a xs m')"
proof (rule same_on_poke [OF assms(1)])
  fix x
  assume "in_use H (as @ cs) x"
  then consider "in_use H as x" | "in_use (H + blen as) cs x" by auto
  then show "x < a \<or> a + length xs \<le> x"
    by cases (use assms(2-4) in \<open>auto dest!: in_use_bounds\<close>)
qed

section \<open>Merging free blocks\<close>

definition join_next :: "nat \<Rightarrow> blk list \<Rightarrow> blk list" where
  "join_next k cs = (case cs of (False, n) # cs' \<Rightarrow> (False, k + n) # cs' | _ \<Rightarrow> (False, k) # cs)"

definition join_prev :: "blk list \<Rightarrow> blk list \<Rightarrow> blk list" where
  "join_prev as cs = (case cs of (False, k) # cs' \<Rightarrow>
     if as \<noteq> [] \<and> \<not> fst (last as) then butlast as @ (False, snd (last as) + k) # cs' else as @ cs | _ \<Rightarrow> as @ cs)"

lemma join_next_facts [simp]:
  "blen (join_next k cs) = k + blen cs" "live p (join_next k cs) = live (p + k) cs"
  "filter fst (join_next k cs) = filter fst cs" "in_use p (join_next k cs) = in_use (p + k) cs"
  by (auto simp: join_next_def in_use_def add.assoc split: list.splits bool.splits intro!: ext)

lemma join_prev_facts [simp]:
  "blen (join_prev as cs) = blen as + blen cs" "live p (join_prev as cs) = live p (as @ cs)"
  "filter fst (join_prev as cs) = filter fst (as @ cs)"
proof -
  have a: "as = butlast as @ [last as]" if "as \<noteq> []" using that by simp
  have "blen as = blen (butlast as) + snd (last as)" if "as \<noteq> []" using arg_cong [OF a [OF that], of blen] by simp
  then show "blen (join_prev as cs) = blen as + blen cs" by (auto simp: join_prev_def split: list.splits bool.splits)
  have "live p as = live p (butlast as)" "blen as = blen (butlast as) + snd (last as)" if "as \<noteq> []" "\<not> fst (last as)"
    using arg_cong [OF a [OF that(1)], of blen] arg_cong [OF a [OF that(1)], of "live p"] that(2) by simp_all
  then show "live p (join_prev as cs) = live p (as @ cs)" by (auto simp: join_prev_def add.assoc split: list.splits bool.splits)
  have "filter fst as = filter fst (butlast as)" if "as \<noteq> []" "\<not> fst (last as)"
    using arg_cong [OF a [OF that(1)], of "filter fst"] that(2) by simp
  then show "filter fst (join_prev as cs) = filter fst (as @ cs)" by (auto simp: join_prev_def split: list.splits bool.splits)
qed

section \<open>The invariant\<close>

text \<open>
  The state agrees with the list of blocks: the headers form the chain, \<open>lfree\<close> points to a free
  block or to the end, \<open>used_mem\<close> counts the blocks in use.
\<close>

definition heap_rep :: "heap \<Rightarrow> blk list \<Rightarrow> bool" where
  "heap_rep h bs \<longleftrightarrow> layout (ram h) (heap_ptr h) bs \<and> blen bs = mem_size_aligned h + 16 \<and> heap_end h = heap_ptr h + blen bs \<and>
     8 dvd heap_ptr h \<and> 0 < heap_ptr h \<and> 16 \<le> mem_size_aligned h \<and> lfree h \<in> insert (heap_end h) (set (frees (heap_ptr h) bs)) \<and>
     used_mem h = blen (filter fst bs) \<and> used_mem h \<le> max_mem h"

text \<open>No two free blocks are neighbours.\<close>

definition tight :: "blk list \<Rightarrow> bool" where
  "tight bs \<longleftrightarrow> successively (\<lambda>a b. fst a \<or> fst b) bs"

definition heap_inv :: "heap \<Rightarrow> blk list \<Rightarrow> bool" where
  "heap_inv h bs \<longleftrightarrow> heap_rep h bs \<and> tight bs"

definition same_heap :: "heap \<Rightarrow> heap \<Rightarrow> bool" where
  "same_heap h h' \<longleftrightarrow> heap_ptr h' = heap_ptr h \<and> heap_end h' = heap_end h \<and> mem_size_aligned h' = mem_size_aligned h"

lemma heap_rep_reads:
  assumes "heap_rep h (as @ b # cs)"
  shows "h_magic h (heap_ptr h + blen as) = HEAP_MAGIC" "h_used h (heap_ptr h + blen as) = of_bool (fst b)"
    "h_next h (heap_ptr h + blen as) = blen as + snd b" "h_prev h (heap_ptr h + blen as) = last_pos 0 0 as"
  using assms layout_reads [of h "heap_ptr h" as b cs] by (auto simp: heap_rep_def)

lemma heap_rep_sizes:
  assumes "heap_rep h (as @ b # cs)"
  shows "24 \<le> snd b" "8 dvd snd b" "heap_ptr h + (blen as + (snd b + blen cs)) + 16 \<le> 4294967296" "wf_blks as" "wf_blks cs"
  using assms by (auto simp: heap_rep_def layout_after after_def)

lemma heap_rep_end_used: "heap_rep h bs \<Longrightarrow> h_used h (heap_ptr h + blen bs) = 1"
  unfolding heap_rep_def by (blast intro: layout_end_used)

section \<open>plug_holes\<close>

text \<open>What merging the free block behind the blocks \<open>as\<close> with the next one does.\<close>

definition merged :: "blk list \<Rightarrow> nat \<Rightarrow> nat \<Rightarrow> heap \<Rightarrow> heap" where
  "merged as k n h = h\<lparr>lfree := (if lfree h = heap_ptr h + (blen as + k) then heap_ptr h + blen as else lfree h),
     ram := poke (heap_ptr h + (blen as + (k + n)) + 8) (u32_bytes (blen as)) (poke (heap_ptr h + blen as + 4) (u32_bytes (blen as + (k + n))) (ram h))\<rparr>"

lemma merged_rep:
  assumes "heap_rep h (as @ (False, k) # (False, n) # cs)"
  shows "heap_rep (merged as k n h) (as @ (False, k + n) # cs)"
    and "same_on (in_use (heap_ptr h) (as @ (False, k) # (False, n) # cs)) (ram h) (ram (merged as k n h))"
proof -
  let ?H = "heap_ptr h"
  have "layout (ram h) ?H (as @ (False, k) # (False, n) # cs)" using assms by (simp add: heap_rep_def)
  from layout_merge [OF this] show "heap_rep (merged as k n h) (as @ (False, k + n) # cs)"
    using assms by (auto simp: heap_rep_def merged_def add.assoc)
  have s: "24 \<le> k" "24 \<le> n" "8 dvd k" "8 dvd n" "wf_blks as" "wf_blks cs"
    using heap_rep_sizes [OF assms] by auto
  have f: "same_on (in_use ?H (as @ (False, k) # (False, n) # cs)) (ram h) (poke (?H + blen as + 4) (u32_bytes (blen as + (k + n))) (ram h))"
    by (rule same_on_header) (use s in auto)
  have "same_on (in_use ?H ((as @ [(False, k), (False, n)]) @ cs)) (ram h)
      (poke (?H + (blen as + (k + n)) + 8) (u32_bytes (blen as)) (poke (?H + blen as + 4) (u32_bytes (blen as + (k + n))) (ram h)))"
    by (rule same_on_header) (use s f in auto)
  then show "same_on (in_use ?H (as @ (False, k) # (False, n) # cs)) (ram h) (ram (merged as k n h))" by (simp add: merged_def)
qed

lemma merged_same [simp]: "same_heap h (merged as k n h)" "used_mem (merged as k n h) = used_mem h" "max_mem (merged as k n h) = max_mem h"
  by (simp_all add: merged_def same_heap_def)

lemma merged_reads:
  assumes "heap_rep h (as @ (False, k) # (False, n) # cs)"
  shows "h_used h (heap_ptr h + blen as) = 0" "h_next h (heap_ptr h + blen as) = blen as + k"
    "h_used h (heap_ptr h + (blen as + k)) = 0" "h_next h (heap_ptr h + (blen as + k)) = blen as + (k + n)"
    "h_prev h (heap_ptr h + (blen as + k)) = blen as"
    "u32_at (poke (heap_ptr h + blen as + 4) (u32_bytes x) (ram h)) (heap_ptr h + (blen as + k) + 4) = blen as + (k + n)"
    "0 < k" "0 < n" "heap_end h = heap_ptr h + (blen as + (k + (n + blen cs)))"
proof -
  have as2: "heap_rep h ((as @ [(False, k)]) @ (False, n) # cs)" using assms by simp
  note r = heap_rep_reads [OF assms] heap_rep_reads [OF as2] heap_rep_sizes [OF assms] heap_rep_sizes [OF as2]
  show "h_used h (heap_ptr h + blen as) = 0" "h_next h (heap_ptr h + blen as) = blen as + k"
    "h_used h (heap_ptr h + (blen as + k)) = 0" "0 < k" "0 < n" using r by (auto simp: add.assoc)
  show n: "h_next h (heap_ptr h + (blen as + k)) = blen as + (k + n)" "h_prev h (heap_ptr h + (blen as + k)) = blen as"
    using r by (auto simp: add.assoc last_pos_def)
  show "u32_at (poke (heap_ptr h + blen as + 4) (u32_bytes x) (ram h)) (heap_ptr h + (blen as + k) + 4) = blen as + (k + n)"
    using n(1) r by (simp add: h_next_def u32_poke_out)
  show "heap_end h = heap_ptr h + (blen as + (k + (n + blen cs)))" using assms by (simp add: heap_rep_def)
qed

lemma plug_next_merge:
  assumes "heap_rep h (as @ (False, k) # (False, n) # cs)"
  shows "plug_next (heap_ptr h + blen as) h = merged as k n h"
  using merged_reads [OF assms] by (cases h) (simp add: plug_next_def merged_def Let_def set_defs h_next_def add.assoc)

lemma plug_prev_merge:
  assumes "heap_rep h (as @ (False, k) # (False, n) # cs)"
  shows "plug_prev (heap_ptr h + (blen as + k)) h = merged as k n h"
  using merged_reads [OF assms] by (cases h) (simp add: plug_prev_def merged_def Let_def set_defs h_next_def add.assoc)

lemma plug_next_none:
  assumes "heap_rep h (as @ (False, k) # cs)" "cs = [] \<or> fst (hd cs)"
  shows "plug_next (heap_ptr h + blen as) h = h"
proof (cases cs)
  case Nil
  then show ?thesis using heap_rep_reads [OF assms(1)] heap_rep_end_used [OF assms(1)]
    by (simp add: plug_next_def)
next
  case (Cons c cs')
  then have "heap_rep h ((as @ [(False, k)]) @ c # cs')" using assms(1) by simp
  from heap_rep_reads(2) [OF this] show ?thesis using heap_rep_reads [OF assms(1)] assms(2) Cons by (simp add: plug_next_def add.assoc)
qed

lemma plug_prev_none:
  assumes "heap_rep h (as @ (False, k) # cs)" "as = [] \<or> fst (last as)"
  shows "plug_prev (heap_ptr h + blen as) h = h"
proof (cases as rule: rev_cases)
  case Nil
  then show ?thesis using heap_rep_reads [OF assms(1)] by (simp add: plug_prev_def last_pos_def)
next
  case (snoc as' b)
  then have "heap_rep h (as' @ b # (False, k) # cs)" using assms(1) by simp
  from heap_rep_reads(2) [OF this] show ?thesis using heap_rep_reads [OF assms(1)] assms(2) snoc by (simp add: plug_prev_def last_pos_def)
qed

text \<open>The header of the block itself stays marked as free, also when the block disappears in another one.\<close>

lemma plug_prev_mark:
  assumes r: "heap_rep h (as @ (False, k) # cs)"
  shows "h_used (plug_prev (heap_ptr h + blen as) h) (heap_ptr h + blen as) = 0"
proof (cases "as = [] \<or> fst (last as)")
  case True
  then show ?thesis using plug_prev_none [OF r] heap_rep_reads(2) [OF r] by simp
next
  case False
  then obtain as' j where as: "as = as' @ [(False, j)]" by (cases as rule: rev_cases) auto
  have "24 \<le> j" "24 \<le> k" using heap_rep_sizes [OF r] as by auto
  with plug_prev_merge [of h as' j k cs] r heap_rep_reads(2) [OF r] as show ?thesis
    by (simp add: merged_def h_used_def u16_poke_out)
qed

text \<open>A free block between blocks that are merged already.\<close>

lemma plug_holes_rep:
  assumes "heap_rep h (as @ (False, k) # cs)" "tight as" "tight cs"
  shows "\<exists>h' bs'. plug_holes (heap_ptr h + blen as) h = Some h' \<and> heap_inv h' bs' \<and> live (heap_ptr h) bs' = live (heap_ptr h) (as @ (False, k) # cs) \<and>
    same_on (in_use (heap_ptr h) (as @ (False, k) # cs)) (ram h) (ram h') \<and> same_heap h h' \<and>
    bs' = join_prev as (join_next k cs) \<and> h_used h' (heap_ptr h + blen as) = 0"
proof -
  let ?H = "heap_ptr h" and ?h1 = "plug_next (heap_ptr h + blen as) h"
  have "\<exists>k1 cs1. join_next k cs = (False, k1) # cs1 \<and> heap_rep ?h1 (as @ (False, k1) # cs1) \<and> tight cs1 \<and> (cs1 = [] \<or> fst (hd cs1)) \<and> same_heap h ?h1 \<and>
      same_on (in_use ?H (as @ (False, k) # cs)) (ram h) (ram ?h1)"
  proof (cases "cs = [] \<or> fst (hd cs)")
    case True
    then show ?thesis using plug_next_none [OF assms(1)] assms
      by (auto simp: join_next_def same_heap_def split: list.splits bool.splits)
  next
    case False
    then obtain n cs1 where cs: "cs = (False, n) # cs1" by (cases cs) auto
    with assms(1) have r: "heap_rep h (as @ (False, k) # (False, n) # cs1)" by simp
    show ?thesis using plug_next_merge [OF r] merged_rep [OF r] assms(3) cs
      by (cases cs1) (auto simp: join_next_def tight_def)
  qed
  then obtain k1 cs1 where 1: "join_next k cs = (False, k1) # cs1" "heap_rep ?h1 (as @ (False, k1) # cs1)" "tight cs1" "cs1 = [] \<or> fst (hd cs1)"
    "same_heap h ?h1" "same_on (in_use ?H (as @ (False, k) # cs)) (ram h) (ram ?h1)" by blast
  let ?h2 = "plug_prev (heap_ptr h + blen as) ?h1"
  have e: "heap_ptr ?h1 = ?H" using 1(5) by (simp add: same_heap_def)
  have use1: "in_use ?H (as @ (False, k1) # cs1) = in_use ?H (as @ (False, k) # cs)"
    using arg_cong [OF 1(1), of "in_use (?H + blen as)"] by (auto intro!: ext simp: fun_eq_iff)
  have "heap_inv ?h2 (join_prev as (join_next k cs)) \<and> same_heap ?h1 ?h2 \<and> same_on (in_use ?H (as @ (False, k) # cs)) (ram ?h1) (ram ?h2)"
  proof (cases "as = [] \<or> fst (last as)")
    case True
    moreover have "tight (as @ (False, k1) # cs1)" using True assms(2) 1(3,4) by (cases cs1) (auto simp: tight_def successively_append_iff)
    ultimately show ?thesis using plug_prev_none [OF 1(2)] 1 e by (auto simp: heap_inv_def join_prev_def same_heap_def)
  next
    case False
    then obtain as1 j where as: "as = as1 @ [(False, j)]" by (cases as rule: rev_cases) auto
    with 1(2) have r: "heap_rep ?h1 (as1 @ (False, j) # (False, k1) # cs1)" by simp
    have "as1 = [] \<or> fst (last as1)" "tight as1" using assms(2) as by (auto simp: tight_def successively_append_iff)
    then have "tight (as1 @ (False, j + k1) # cs1)" using 1(3,4) by (cases cs1) (auto simp: tight_def successively_append_iff)
    then show ?thesis using plug_prev_merge [OF r] merged_rep [OF r] e 1(1) as use1
      by (simp add: heap_inv_def join_prev_def)
  qed
  moreover have "h_used ?h2 (?H + blen as) = 0" using plug_prev_mark [OF 1(2)] e by simp
  moreover have "plug_holes (?H + blen as) h = Some ?h2"
    using heap_rep_reads [OF assms(1)] heap_rep_sizes [OF assms(1)] assms(1) by (simp add: plug_holes_def heap_rep_def)
  ultimately show ?thesis using 1(5,6) by (auto simp: same_heap_def intro: same_on_trans)
qed

section \<open>rt_free\<close>

lemma tight_parts: "tight (as @ b # cs) \<Longrightarrow> tight as \<and> tight cs"
  by (cases cs) (auto simp: tight_def successively_append_iff)

lemma heap_inv_at:
  assumes "heap_inv h bs" "(a, l) \<in> set (live (heap_ptr h) bs)"
  obtains as k cs where "bs = as @ (True, k) # cs" "a = heap_ptr h + blen as + 16" "l = k - 16"
    "heap_rep h (as @ (True, k) # cs)" "tight as" "tight cs"
  using assms live_split [OF assms(2)] tight_parts unfolding heap_inv_def by blast

lemma same_heap_in_use: "same_heap h h' \<Longrightarrow> heap_ptr h' = heap_ptr h"
  by (simp add: same_heap_def)

lemma live_remove1:
  assumes "wf_blks (as @ (True, k) # cs)"
  shows "set (live H (as @ (False, k) # cs)) = set (live H (as @ (True, k) # cs)) - {(H + blen as + 16, k - 16)}"
proof -
  have "(H + blen as + 16, k - 16) \<notin> set (live H as)" "(H + blen as + 16, k - 16) \<notin> set (live (H + blen as + k) cs)"
    using assms live_bounds [of "H + blen as + 16" "k - 16" H as] live_bounds [of "H + blen as + 16" "k - 16" "H + blen as + k" cs] by auto
  then show ?thesis by auto
qed

text \<open>Freeing a block in use: the header is marked and the holes are plugged.\<close>

lemma rt_free_rep:
  assumes r: "heap_rep h (as @ (True, k) # cs)" and t: "tight as" "tight cs"
  shows "\<exists>h'. rt_free (heap_ptr h + blen as + 16) h = Some h' \<and> heap_inv h' (join_prev as (join_next k cs)) \<and> same_heap h h' \<and>
    same_on (in_use (heap_ptr h) (as @ (False, k) # cs)) (ram h) (ram h') \<and> h_used h' (heap_ptr h + blen as) = 0"
proof -
  let ?H = "heap_ptr h" and ?mem = "heap_ptr h + blen as"
  define m1 where "m1 = poke ?mem (u16_bytes HEAP_MAGIC) (poke (?mem + 2) (u16_bytes 0) (ram h))"
  define h1 where "h1 = h\<lparr>ram := m1, lfree := (if ?mem < lfree h then ?mem else lfree h), used_mem := used_mem h - k\<rparr>"
  note rd = heap_rep_reads [OF r] and sz = heap_rep_sizes [OF r]
  have l: "layout (ram h) ?H (as @ (True, k) # cs)" "heap_end h = ?H + blen (as @ (True, k) # cs)" "8 dvd ?H" "0 < ?H"
    using r by (auto simp: heap_rep_def)
  have as8: "8 dvd blen as" using sz(4) by (induction as) auto
  have u: "used_mem h = blen (filter fst as) + k + blen (filter fst cs)" using r by (simp add: heap_rep_def)
  have fl: "blen (filter fst xs) \<le> blen xs" for xs by (induction xs) auto
  have ul: "used_mem h < 2 ^ 32" using u fl [of as] fl [of cs] sz by simp
  have m1: "layout m1 ?H (as @ (False, k) # cs)"
    unfolding m1_def using layout_magic [OF layout_used [OF l(1), of False]] by simp
  have n1: "u32_at m1 (?mem + 4) = blen as + k" using layoutD(1) [OF m1] by (simp add: hdr_def)
  have sub: "sub32 (?mem + 16) 16 = ?mem" "sub32 ?mem ?H = blen as" "sub32 (blen as + k) (blen as) = k"
    "sub32 (used_mem h) k = used_mem h - k"
    using sz u ul by (subst sub32_le; simp)+
  have al: "(?mem + 16) mod 8 = 0" using as8 l(3) by presburger
  have "rt_free (?mem + 16) h = plug_holes ?mem h1"
    using rd sz l al n1 sub unfolding rt_free_def h1_def m1_def
    by (cases h) (auto simp: Let_def set_defs get_defs)
  moreover have r1: "heap_rep h1 (as @ (False, k) # cs)" using r m1 u fl unfolding h1_def by (auto simp: heap_rep_def)
  have s0: "same_on (in_use ?H (as @ (False, k) # cs)) (ram h) m1"
    unfolding m1_def by (intro same_on_header same_on_refl) (use sz in auto)
  from plug_holes_rep [OF r1 t] s0 show ?thesis unfolding calculation
    by (auto simp: h1_def same_heap_def intro: same_on_trans)
qed

section \<open>rt_malloc\<close>

lemma lfree_loop_rep:
  assumes "layout (ram h) (heap_ptr h) (as @ cs)" "heap_end h = heap_ptr h + blen (as @ cs)" "lfree h = heap_ptr h + blen as"
  shows "lfree_loop h = Some (h\<lparr>lfree := heap_ptr h + (blen as + blen (takeWhile fst cs))\<rparr>)"
  using assms
proof (induction cs arbitrary: as h)
  case Nil
  then show ?case by (subst lfree_loop.simps) simp
next
  case (Cons c cs)
  note rd = layout_reads [OF Cons.prems(1)] layoutD [OF Cons.prems(1)]
  show ?case
  proof (cases "fst c")
    case True
    let ?h = "h\<lparr>lfree := heap_ptr h + (blen as + snd c)\<rparr>"
    have "lfree_loop h = lfree_loop ?h" using rd Cons.prems True by (subst lfree_loop.simps) simp
    also have "\<dots> = Some (?h\<lparr>lfree := heap_ptr ?h + (blen (as @ [c]) + blen (takeWhile fst cs))\<rparr>)"
      by (rule Cons.IH) (use Cons.prems in auto)
    finally show ?thesis using True by (simp add: add.assoc)
  next
    case False
    then show ?thesis using rd Cons.prems by (subst lfree_loop.simps) simp
  qed
qed

text \<open>The blocks after a free block of length \<open>k\<close> was used for \<open>n\<close> bytes.\<close>

definition taken :: "nat \<Rightarrow> nat \<Rightarrow> blk list" where
  "taken n k = (if n + 48 \<le> k then [(True, n + 16), (False, k - (n + 16))] else [(True, k)])"

lemma blen_taken [simp]: "n + 16 \<le> k \<Longrightarrow> blen (taken n k) = k"
  by (simp add: taken_def)

lemma count_used_facts [simp]:
  "ram (count_used n h) = ram h" "heap_ptr (count_used n h) = heap_ptr h" "heap_end (count_used n h) = heap_end h" "lfree (count_used n h) = lfree h"
  "mem_size_aligned (count_used n h) = mem_size_aligned h" "used_mem (count_used n h) = (used_mem h + n) mod 2 ^ 32"
  "used_mem (count_used n h) \<le> max_mem (count_used n h)"
  by (simp_all add: count_used_def Let_def)

text \<open>Cutting a block: the header of the rest, the link to it, and the link back from the next block.\<close>

definition cut_rest :: "nat \<Rightarrow> blk list \<Rightarrow> nat \<Rightarrow> nat \<Rightarrow> (nat \<Rightarrow> u8) \<Rightarrow> nat \<Rightarrow> u8" where
  "cut_rest H as n k m = poke (H + blen as + 4) (u32_bytes (blen as + (n + 16)))
     (poke (H + (blen as + (n + 16)) + 8) (u32_bytes (blen as)) (poke (H + (blen as + (n + 16)) + 4) (u32_bytes (blen as + k))
       (poke (H + (blen as + (n + 16)) + 2) (u16_bytes 0) (poke (H + (blen as + (n + 16))) (u16_bytes HEAP_MAGIC) m))))"

definition cut_back :: "nat \<Rightarrow> blk list \<Rightarrow> nat \<Rightarrow> nat \<Rightarrow> blk list \<Rightarrow> (nat \<Rightarrow> u8) \<Rightarrow> nat \<Rightarrow> u8" where
  "cut_back H as n k cs m = (if cs \<noteq> [] then poke (H + (blen as + k) + 8) (u32_bytes (blen as + (n + 16))) m else m)"

lemma cut_facts:
  assumes l: "layout m H (as @ (u, k) # cs)" and n: "n + 48 \<le> k" "8 \<le> n" "8 dvd n"
  shows "layout (cut_back H as n k cs (cut_rest H as n k m)) H (as @ (u, n + 16) # (False, k - (n + 16)) # cs)"
    and "same_on (in_use H (as @ (u, n + 16) # (False, k - (n + 16)) # cs)) m (cut_back H as n k cs (cut_rest H as n k m))"
    and "u32_at (cut_rest H as n k m) (H + (blen as + (n + 16)) + 4) = blen as + k"
proof -
  show "layout (cut_back H as n k cs (cut_rest H as n k m)) H (as @ (u, n + 16) # (False, k - (n + 16)) # cs)"
    by (rule layout_split [OF l _ _ _ refl refl]) (use n in \<open>auto simp: cut_rest_def cut_back_def\<close>)
  have w: "wf_blks as" "wf_blks cs" "H + blen as + k + blen cs + 16 \<le> 4294967296" using l by (auto simp: layout_def)
  have "same_on (in_use H (as @ (u, n + 16) # (False, k - (n + 16)) # cs)) m (cut_rest H as n k m)"
    unfolding cut_rest_def by (intro same_on_poke same_on_refl) (use w n in \<open>auto dest!: in_use_bounds\<close>)
  then show "same_on (in_use H (as @ (u, n + 16) # (False, k - (n + 16)) # cs)) m (cut_back H as n k cs (cut_rest H as n k m))"
    unfolding cut_back_def by (auto intro!: same_on_poke) (use w n in \<open>auto dest!: in_use_bounds\<close>)
  show "u32_at (cut_rest H as n k m) (H + (blen as + (n + 16)) + 4) = blen as + k"
    unfolding cut_rest_def using w by (simp add: u32_poke_out u32_poke)
qed

lemma malloc_mark_rep:
  assumes r: "heap_rep h (as @ (False, k) # cs)" and n: "n + 16 \<le> k" "8 \<le> n" "8 dvd n"
  shows "layout (ram (malloc_mark (blen as) n h)) (heap_ptr h) (as @ taken n k @ cs)"
    and "same_on (in_use (heap_ptr h) (as @ (False, k) # cs)) (ram h) (ram (malloc_mark (blen as) n h))"
    and "used_mem (malloc_mark (blen as) n h) = used_mem h + blen (filter fst (taken n k))"
    and "used_mem (malloc_mark (blen as) n h) \<le> max_mem (malloc_mark (blen as) n h)"
    and "same_heap h (malloc_mark (blen as) n h)" "lfree (malloc_mark (blen as) n h) = lfree h"
proof -
  let ?H = "heap_ptr h" and ?mem = "heap_ptr h + blen as"
  note rd = heap_rep_reads [OF r] and sz = heap_rep_sizes [OF r]
  have l: "layout (ram h) ?H (as @ (False, k) # cs)" "mem_size_aligned h + 16 = blen as + (k + blen cs)"
    using r by (auto simp: heap_rep_def)
  have sub: "sub32 (blen as + k) (blen as + 16) = k - 16" "sub32 (blen as + k) (blen as) = k"
    using sz by (subst sub32_le; simp)+
  have fl: "blen (filter fst xs) \<le> blen xs" for xs by (induction xs) auto
  have u: "used_mem h + k < 2 ^ 32" using r fl [of as] fl [of cs] sz by (simp add: heap_rep_def)
  show "same_heap h (malloc_mark (blen as) n h)" "lfree (malloc_mark (blen as) n h) = lfree h"
    "used_mem (malloc_mark (blen as) n h) \<le> max_mem (malloc_mark (blen as) n h)"
    by (auto simp: malloc_mark_def set_defs Let_def same_heap_def count_used_def)
  show "used_mem (malloc_mark (blen as) n h) = used_mem h + blen (filter fst (taken n k))"
    using rd sub u n by (auto simp: malloc_mark_def set_defs Let_def taken_def h_next_def u32_poke_out)
  have "layout (ram (malloc_mark (blen as) n h)) ?H (as @ taken n k @ cs) \<and>
    same_on (in_use ?H (as @ (False, k) # cs)) (ram h) (ram (malloc_mark (blen as) n h))"
  proof (cases "n + 48 \<le> k")
    case True
    let ?m3 = "cut_rest ?H as n k (ram h)" and ?m4 = "cut_back ?H as n k cs (cut_rest ?H as n k (ram h))"
    note c = cut_facts [OF l(1) True n(2,3)]
    have "u32_at (poke (?mem + 2) (u16_bytes 1) ?m3) (?H + (blen as + (n + 16)) + 4) = blen as + k"
      using c(3) by (simp add: u32_poke_out)
    moreover have "(blen as + k \<noteq> mem_size_aligned h + 16) = (cs \<noteq> [])" using l(2) sz by (cases cs) auto
    moreover have "poke (?H + (blen as + k) + 8) (u32_bytes (blen as + (n + 16))) (poke (?mem + 2) (u16_bytes 1) ?m3) =
        poke (?mem + 2) (u16_bytes 1) (poke (?H + (blen as + k) + 8) (u32_bytes (blen as + (n + 16))) ?m3)"
      by (rule poke_commute) (use True in simp)
    moreover have "n + 32 \<le> k - 16" using True by simp
    ultimately have e: "ram (malloc_mark (blen as) n h) = poke ?mem (u16_bytes HEAP_MAGIC) (poke (?mem + 2) (u16_bytes 1) ?m4)"
      using rd sub True unfolding malloc_mark_def cut_back_def cut_rest_def
      by (simp add: Let_def set_defs h_next_def ac_simps)
    have "in_use ?H (as @ (False, n + 16) # (False, k - (n + 16)) # cs) = in_use ?H (as @ (False, k) # cs)"
      using True by (auto simp: fun_eq_iff add.assoc)
    with c(2) have "same_on (in_use ?H (as @ (False, k) # cs)) (ram h) ?m4" by simp
    then have "same_on (in_use ?H (as @ (False, k) # cs)) (ram h) (ram (malloc_mark (blen as) n h))"
      unfolding e by (intro same_on_header) (use sz in auto)
    then show ?thesis using layout_magic [OF layout_used [OF c(1), of True]] True
      unfolding e by (simp add: taken_def)
  next
    case False
    then have "\<not> n + 16 + 16 \<le> k - 16" by simp
    then have e: "ram (malloc_mark (blen as) n h) = poke ?mem (u16_bytes HEAP_MAGIC) (poke (?mem + 2) (u16_bytes 1) (ram h))"
      using rd sub by (simp add: malloc_mark_def Let_def set_defs)
    show ?thesis using layout_magic [OF layout_used [OF l(1), of True]] sz False
      unfolding e by (auto simp: taken_def intro!: same_on_header)
  qed
  then show "layout (ram (malloc_mark (blen as) n h)) ?H (as @ taken n k @ cs)"
    "same_on (in_use ?H (as @ (False, k) # cs)) (ram h) (ram (malloc_mark (blen as) n h))" by auto
qed

lemma blen_dvd: "wf_blks bs \<Longrightarrow> 8 dvd blen bs"
  by (induction bs) auto

lemma blen_mono: "blen (filter P bs) \<le> blen bs" "blen (takeWhile P bs) \<le> blen bs"
  by (induction bs) auto

text \<open>The first free block of a list.\<close>

lemma first_free: "p + blen (takeWhile fst bs) = p + blen bs \<or> p + blen (takeWhile fst bs) \<in> set (frees p bs)"
proof (induction bs arbitrary: p)
  case (Cons b bs)
  then show ?case using Cons.IH [of "p + snd b"] by (auto simp: add.assoc)
qed simp

lemma first_free_used:
  assumes "layout (ram h) H (as @ cs)"
  shows "blen (takeWhile fst cs) = blen cs \<or> h_used h (H + (blen as + blen (takeWhile fst cs))) = 0"
proof (cases "dropWhile fst cs")
  case Nil
  then have "takeWhile fst cs = cs" by (simp add: dropWhile_eq_Nil_conv takeWhile_eq_all_conv)
  then show ?thesis by metis
next
  case (Cons b ds)
  then have "cs = takeWhile fst cs @ b # ds" "\<not> fst b" using takeWhile_dropWhile_id [of fst cs] hd_dropWhile [of fst cs] by auto
  moreover from this assms have "layout (ram h) H ((as @ takeWhile fst cs) @ b # ds)" by (metis append.assoc)
  ultimately show ?thesis using layout_reads(2) [of h H "as @ takeWhile fst cs" b ds] by simp
qed

lemma malloc_take_rep:
  assumes r: "heap_rep h (as @ (False, k) # cs)" and n: "n + 16 \<le> k" "8 \<le> n" "8 dvd n" and t: "tight (as @ (False, k) # cs)"
  shows "\<exists>h'. malloc_take (blen as) n h = Some (heap_ptr h + blen as + 16, h') \<and> heap_inv h' (as @ taken n k @ cs) \<and> same_heap h h' \<and>
    same_on (in_use (heap_ptr h) (as @ (False, k) # cs)) (ram h) (ram h') \<and>
    lfree h' = (if lfree h = heap_ptr h + blen as then heap_ptr h + (blen as + blen (takeWhile fst (taken n k @ cs))) else lfree h)"
proof -
  let ?H = "heap_ptr h" and ?h1 = "malloc_mark (blen as) n h" and ?bs = "as @ taken n k @ cs"
  note m = malloc_mark_rep [OF r n] and sz = heap_rep_sizes [OF r]
  have l: "heap_end h = ?H + blen ?bs" "8 dvd ?H" "blen (taken n k) = k" using r n by (auto simp: heap_rep_def)
  have e1: "heap_ptr ?h1 = ?H" "heap_end ?h1 = heap_end h" "mem_size_aligned ?h1 = mem_size_aligned h" using m(5) by (auto simp: same_heap_def)
  have tight': "tight ?bs" using t n by (cases cs; cases as rule: rev_cases) (auto simp: tight_def taken_def successively_append_iff)
  have chk: "?H + blen as + 16 + n \<le> heap_end h" "(?H + blen as + 16) mod 8 = 0" "(?H + blen as) mod 8 = 0"
    using l n blen_dvd [OF sz(4)] by (simp, presburger+)
  have rep: "heap_rep (?h1\<lparr>lfree := x\<rparr>) ?bs" if "x \<in> insert (heap_end h) (set (frees ?H ?bs))" for x
    using r m(1,3,4) e1 that l(3) by (auto simp: heap_rep_def)
  have fr: "lfree h \<in> insert (heap_end h) (set (frees ?H (as @ (False, k) # cs)))" using r unfolding heap_rep_def by blast
  show ?thesis
  proof (cases "lfree h = ?H + blen as")
    case True
    let ?x = "?H + (blen as + blen (takeWhile fst (taken n k @ cs)))"
    have x: "lfree_loop ?h1 = Some (?h1\<lparr>lfree := ?x\<rparr>)"
      using lfree_loop_rep [of ?h1 as "taken n k @ cs"] m(1,6) e1 l(1) True by simp
    have "h_used (?h1\<lparr>lfree := ?x\<rparr>) ?x = 0 \<or> ?x = heap_end h"
      using first_free_used [of ?h1 ?H as "taken n k @ cs"] m(1) l by (auto simp: h_used_def)
    then have "malloc_take (blen as) n h = Some (?H + blen as + 16, ?h1\<lparr>lfree := ?x\<rparr>)"
      unfolding malloc_take_def Let_def m(6) using x chk e1 True by auto
    moreover have "heap_rep (?h1\<lparr>lfree := ?x\<rparr>) ?bs"
      using first_free [of "?H + blen as" "taken n k @ cs"] l(1) by (intro rep) (auto simp: add.assoc)
    ultimately show ?thesis using tight' m(2,5) True by (auto simp: heap_inv_def same_heap_def)
  next
    case False
    have "malloc_take (blen as) n h = Some (?H + blen as + 16, ?h1)"
      unfolding malloc_take_def Let_def m(6) using chk e1 False by auto
    moreover have h1: "?h1\<lparr>lfree := lfree h\<rparr> = ?h1" using m(6) by (cases ?h1) simp
    moreover have "lfree h \<in> insert (heap_end h) (set (frees ?H ?bs))" using fr False n by (auto simp: taken_def)
    ultimately show ?thesis using rep [of "lfree h"] tight' m(2,5,6) False unfolding h1 heap_inv_def by auto
  qed
qed

text \<open>The search: the first free block that is large enough, but the last block only if it is larger than needed.\<close>

definition fits :: "nat \<Rightarrow> nat \<Rightarrow> nat \<Rightarrow> blk \<Rightarrow> bool" where
  "fits lim p n b \<longleftrightarrow> \<not> fst b \<and> n + 16 \<le> snd b \<and> p + n < lim"

primrec first_fit :: "nat \<Rightarrow> nat \<Rightarrow> nat \<Rightarrow> blk list \<Rightarrow> nat option" where
  "first_fit lim n p [] = None"
| "first_fit lim n p (b # bs) = (if fits lim p n b then Some p else first_fit lim n (p + snd b) bs)"

lemma first_fit_far: "lim \<le> p + n \<Longrightarrow> first_fit lim n p bs = None"
  by (induction bs arbitrary: p) (auto simp: fits_def)

lemma first_fit_Some:
  "first_fit lim n p bs = Some o' \<Longrightarrow> \<exists>as k cs. bs = as @ (False, k) # cs \<and> o' = p + blen as \<and> n + 16 \<le> k"
proof (induction bs arbitrary: p)
  case (Cons b bs)
  show ?case
  proof (cases "fits lim p n b")
    case True
    then show ?thesis using Cons.prems by (intro exI [of _ "[]"] exI [of _ "snd b"] exI [of _ bs]) (cases b, simp add: fits_def)
  next
    case False
    with Cons obtain as k cs where "bs = as @ (False, k) # cs" "o' = p + snd b + blen as" "n + 16 \<le> k" by fastforce
    then show ?thesis by (intro exI [of _ "b # as"]) auto
  qed
qed simp

lemma malloc_loop_rep:
  assumes "heap_rep h (as @ cs)" "n \<le> mem_size_aligned h"
  shows "malloc_loop (blen as) n h =
    (case first_fit (mem_size_aligned h) n (blen as) cs of None \<Rightarrow> Some (0, h) | Some p \<Rightarrow> malloc_take p n h)"
  using assms
proof (induction cs arbitrary: as)
  case Nil
  have s: "sub32 (mem_size_aligned h) n = mem_size_aligned h - n"
    using Nil by (intro sub32_le) (auto simp: heap_rep_def layout_def)
  have "\<not> blen as < mem_size_aligned h - n" using Nil by (simp add: heap_rep_def)
  then show ?case by (subst malloc_loop.simps) (simp add: s)
next
  case (Cons b cs)
  note rd = heap_rep_reads [OF Cons.prems(1)] and sz = heap_rep_sizes [OF Cons.prems(1)]
  have s: "sub32 (mem_size_aligned h) n = mem_size_aligned h - n"
    using Cons.prems sz by (intro sub32_le) (auto simp: heap_rep_def)
  have s2: "sub32 (blen as + snd b) (blen as + 16) = snd b - 16" using sz by (subst sub32_le) auto
  have IH: "malloc_loop (blen as + snd b) n h =
      (case first_fit (mem_size_aligned h) n (blen as + snd b) cs of None \<Rightarrow> Some (0, h) | Some p \<Rightarrow> malloc_take p n h)"
    using Cons.IH [of "as @ [b]"] Cons.prems by simp
  show ?case
  proof (cases "blen as < mem_size_aligned h - n")
    case True
    then show ?thesis using rd s s2 sz(1) by (subst malloc_loop.simps) (auto simp: fits_def IH)
  next
    case False
    then have "first_fit (mem_size_aligned h) n (blen as) (b # cs) = None" by (intro first_fit_far) simp
    then show ?thesis using False s by (subst malloc_loop.simps) simp
  qed
qed

end
