(* ===== verification/CallSeq.thy ===== *)
theory CallSeq
  imports Prelude
begin

text \<open>
  Services that are called many times: sequences of calls, the sequences that keep to the rules of a
  service, and the contract that such a sequence never fails. A call returns its result with the new
  state, or \<open>None\<close> when it fails an assertion or does not return.
\<close>

fun run_calls :: "('c \<Rightarrow> 's \<Rightarrow> ('r \<times> 's) option) \<Rightarrow> 'c list \<Rightarrow> 's \<Rightarrow> 's option" where
  "run_calls call [] s = Some s"
| "run_calls call (c # cs) s = (case call c s of None \<Rightarrow> None | Some (r, s') \<Rightarrow> run_calls call cs s')"

fun legal_calls :: "('c \<Rightarrow> 's \<Rightarrow> ('r \<times> 's) option) \<Rightarrow> ('s \<Rightarrow> 'c \<Rightarrow> bool) \<Rightarrow> 'c list \<Rightarrow> 's \<Rightarrow> bool" where
  "legal_calls call legal [] s \<longleftrightarrow> True"
| "legal_calls call legal (c # cs) s \<longleftrightarrow> legal s c \<and> (case call c s of None \<Rightarrow> True | Some (r, s') \<Rightarrow> legal_calls call legal cs s')"

locale call_service =
  fixes ok :: "'s \<Rightarrow> bool"
    and call :: "'c \<Rightarrow> 's \<Rightarrow> ('r \<times> 's) option"
    and legal :: "'s \<Rightarrow> 'c \<Rightarrow> bool"
  assumes call_ok: "ok s \<Longrightarrow> legal s c \<Longrightarrow> \<exists>r s'. call c s = Some (r, s') \<and> ok s'"
begin

lemma calls_ok: "ok s \<Longrightarrow> legal_calls call legal cs s \<Longrightarrow> \<exists>s'. run_calls call cs s = Some s' \<and> ok s'"
proof (induction cs arbitrary: s)
  case (Cons c cs)
  then obtain r s1 where "call c s = Some (r, s1)" "ok s1" using call_ok [of s c] by auto
  then show ?case using Cons.IH [of s1] Cons.prems(2) by auto
qed simp

end

end
