(* ===== verification/RtMemProps.thy ===== *)
theory RtMemProps
  imports RtMemRep CallSeq
begin

text \<open>
  What the kernel's heap promises: every call on an intact heap returns, keeps it intact, never
  hands out memory twice and never touches the contents of a block in use.
\<close>

section \<open>The blocks, read from the headers\<close>

text \<open>Walking along the chain; every block has at least one byte, so its length is enough fuel.\<close>

primrec walk :: "nat \<Rightarrow> heap \<Rightarrow> nat \<Rightarrow> blk list" where
  "walk 0 h p = []"
| "walk (Suc f) h p =
     (if heap_ptr h + p < heap_end h
      then (h_used h (heap_ptr h + p) \<noteq> 0, h_next h (heap_ptr h + p) - p) # walk f h (h_next h (heap_ptr h + p)) else [])"

definition heap_blocks :: "heap \<Rightarrow> blk list" where
  "heap_blocks h = walk (heap_end h - heap_ptr h) h 0"

definition heap_ok :: "heap \<Rightarrow> bool" where
  "heap_ok h \<longleftrightarrow> heap_inv h (heap_blocks h)"

definition owned :: "heap \<Rightarrow> (nat \<times> nat) set" where
  "owned h = set (live (heap_ptr h) (heap_blocks h))"

lemma walk_rep:
  assumes "layout (ram h) (heap_ptr h) (as @ cs)" "heap_end h = heap_ptr h + blen (as @ cs)" "length cs \<le> f"
  shows "walk f h (blen as) = cs"
  using assms
proof (induction cs arbitrary: as f)
  case Nil
  then show ?case by (cases f) auto
next
  case (Cons c cs)
  then obtain f' where f: "f = Suc f'" "length cs \<le> f'" by (cases f) auto
  note rd = layout_reads [OF Cons.prems(1)] layoutD [OF Cons.prems(1)]
  have "walk f' h (blen as + snd c) = cs" using Cons.IH [of "as @ [c]" f'] Cons.prems f by simp
  then show ?case using rd f(1) Cons.prems(2) by (cases c) simp
qed

lemma length_blen: "wf_blks bs \<Longrightarrow> length bs \<le> blen bs"
  by (induction bs) auto

lemma heap_rep_blocks: "heap_rep h bs \<Longrightarrow> heap_blocks h = bs"
proof -
  assume r: "heap_rep h bs"
  then have e: "heap_end h = heap_ptr h + blen bs" and l: "layout (ram h) (heap_ptr h) bs" by (auto simp: heap_rep_def)
  then have "length bs \<le> blen bs" by (intro length_blen) (simp add: layout_def)
  then show ?thesis using walk_rep [of h "[]" bs "blen bs"] e l unfolding heap_blocks_def by simp
qed

lemma heap_inv_blocks: "heap_inv h bs \<Longrightarrow> heap_blocks h = bs"
  by (simp add: heap_inv_def heap_rep_blocks)

lemma heap_okI: "heap_inv h bs \<Longrightarrow> heap_ok h \<and> owned h = set (live (heap_ptr h) bs) \<and> heap_blocks h = bs"
  using heap_inv_blocks [of h bs] by (simp add: heap_ok_def owned_def)

lemma heap_ok_facts:
  assumes "heap_ok h"
  shows "heap_rep h (heap_blocks h)" "tight (heap_blocks h)" "wf_blks (heap_blocks h)"
    "0 < heap_ptr h" "8 dvd heap_ptr h" "heap_end h = heap_ptr h + blen (heap_blocks h)" "heap_end h + 16 \<le> 2 ^ 32"
    "mem_size_aligned h + 16 = blen (heap_blocks h)" "16 \<le> mem_size_aligned h"
  using assms by (auto simp: heap_ok_def heap_inv_def heap_rep_def layout_def)

section \<open>Blocks handed out do not overlap\<close>

lemma live_apart:
  assumes "wf_blks bs" "(a, l) \<in> set (live p bs)" "(b, m) \<in> set (live p bs)"
  shows "(a, l) = (b, m) \<or> a + l + 16 \<le> b \<or> b + m + 16 \<le> a"
  using assms
proof (induction bs arbitrary: p)
  case (Cons c bs)
  then show ?case using Cons.IH [of "p + snd c"] live_bounds [of a l "p + snd c" bs] live_bounds [of b m "p + snd c" bs]
    by (auto split: if_splits)
qed simp

lemma live_aligned:
  "wf_blks bs \<Longrightarrow> 8 dvd p \<Longrightarrow> (a, l) \<in> set (live p bs) \<Longrightarrow> 8 dvd a \<and> 8 dvd l"
proof (induction bs arbitrary: p)
  case (Cons c bs)
  then consider "a = p + 16" "l = snd c - 16" | "(a, l) \<in> set (live (p + snd c) bs)" by (auto split: if_splits)
  then show ?case
  proof cases
    case 1
    moreover have "8 dvd snd c - 16" using Cons.prems(1) by (simp add: dvd_diff_nat)
    ultimately show ?thesis using Cons.prems(2) by simp
  next
    case 2
    then show ?thesis using Cons.prems(1,2) by (intro Cons.IH [of "p + snd c"]) auto
  qed
qed simp

lemma owned_facts:
  assumes "heap_ok h" "(a, l) \<in> owned h"
  shows "heap_ptr h + 16 \<le> a" "a + l \<le> heap_end h" "8 \<le> l" "8 dvd a" "8 dvd l"
    "(b, m) \<in> owned h \<Longrightarrow> (a, l) = (b, m) \<or> a + l + 16 \<le> b \<or> b + m + 16 \<le> a"
  using heap_ok_facts [OF assms(1)] assms(2) live_bounds [of a l "heap_ptr h" "heap_blocks h"]
    live_aligned [of "heap_blocks h" "heap_ptr h" a l] live_apart [of "heap_blocks h" a l "heap_ptr h" b m]
  by (auto simp: owned_def)

text \<open>Equal contents of all blocks in a set.\<close>

definition same_bytes :: "(nat \<times> nat) set \<Rightarrow> heap \<Rightarrow> heap \<Rightarrow> bool" where
  "same_bytes B h h' \<longleftrightarrow> (\<forall>(a, l)\<in>B. \<forall>x. a \<le> x \<and> x < a + l \<longrightarrow> ram h' x = ram h x)"

lemma same_on_bytes: "same_on (in_use p bs) (ram h) (ram h') \<longleftrightarrow> same_bytes (set (live p bs)) h h'"
  by (fastforce simp: same_on_def in_use_def same_bytes_def)

lemma same_bytes_refl [simp]: "same_bytes B h h"
  by (simp add: same_bytes_def)

lemma same_bytesD: "same_bytes B h h' \<Longrightarrow> (a, l) \<in> B \<Longrightarrow> a \<le> x \<Longrightarrow> x < a + l \<Longrightarrow> ram h' x = ram h x"
  by (auto simp: same_bytes_def)

lemma same_bytes_mono: "same_bytes B h h' \<Longrightarrow> C \<subseteq> B \<Longrightarrow> same_bytes C h h'"
  by (auto simp: same_bytes_def)

lemma same_bytes_trans: "same_bytes B h h1 \<Longrightarrow> same_bytes B h1 h2 \<Longrightarrow> same_bytes B h h2"
  by (fastforce simp: same_bytes_def)

section \<open>The operations on an intact heap\<close>

lemma rt_free_ok:
  assumes "heap_ok h" "(a, l) \<in> owned h"
  shows "\<exists>h'. rt_free a h = Some h' \<and> heap_ok h' \<and> same_heap h h' \<and> owned h' = owned h - {(a, l)} \<and> same_bytes (owned h - {(a, l)}) h h' \<and>
    h_used h' (a - 16) = 0"
proof -
  obtain as k cs where bs: "heap_blocks h = as @ (True, k) # cs" "a = heap_ptr h + blen as + 16" "l = k - 16"
    and r: "heap_rep h (as @ (True, k) # cs)" "tight as" "tight cs"
    using heap_inv_at [of h "heap_blocks h" a l] assms by (metis heap_ok_def owned_def)
  from rt_free_rep [OF r] obtain h' where h': "rt_free (heap_ptr h + blen as + 16) h = Some h'" "heap_inv h' (join_prev as (join_next k cs))"
    "same_heap h h'" "same_on (in_use (heap_ptr h) (as @ (False, k) # cs)) (ram h) (ram h')" "h_used h' (heap_ptr h + blen as) = 0" by blast
  have o: "set (live (heap_ptr h) (as @ (False, k) # cs)) = owned h - {(a, l)}"
    using live_remove1 [of as k cs "heap_ptr h"] heap_ok_facts(3) [OF assms(1)] bs by (simp add: owned_def)
  have "owned h' = owned h - {(a, l)}" using heap_okI [OF h'(2)] h'(3) o by (simp add: same_heap_def)
  then show ?thesis using h' heap_okI [OF h'(2)] bs(2) o by (simp add: same_on_bytes)
qed

definition req :: "nat \<Rightarrow> nat" where
  "req n = (if RT_ALIGN n < 16 then 16 else RT_ALIGN n)"

lemma req_facts: "8 dvd req n" "16 \<le> req n" "n \<le> 0xFFFFFFF8 \<Longrightarrow> n \<le> req n \<and> n \<le> RT_ALIGN n" "RT_ALIGN n \<le> req n" "8 dvd RT_ALIGN n"
proof -
  show "n \<le> 0xFFFFFFF8 \<Longrightarrow> n \<le> req n \<and> n \<le> RT_ALIGN n" unfolding req_def RT_ALIGN_def
    by (subst mod_less, simp)+ presburger
qed (auto simp: req_def RT_ALIGN_def)

lemma frees_split: "x \<in> set (frees p bs) \<Longrightarrow> \<exists>as k cs. bs = as @ (False, k) # cs \<and> x = p + blen as"
proof (induction bs arbitrary: p)
  case (Cons b bs)
  show ?case
  proof (cases "\<not> fst b \<and> x = p")
    case True
    then show ?thesis by (intro exI [of _ "[]"] exI [of _ "snd b"] exI [of _ bs]) (cases b, simp)
  next
    case False
    with Cons.prems have "x \<in> set (frees (p + snd b) bs)" by (auto split: if_splits)
    from Cons.IH [OF this] obtain as k cs where "bs = as @ (False, k) # cs" "x = p + snd b + blen as" by blast
    then show ?thesis by (intro exI [of _ "b # as"]) auto
  qed
qed simp

lemma lfree_at:
  assumes "heap_rep h bs"
  obtains as cs where "bs = as @ cs" "lfree h = heap_ptr h + blen as" "cs = [] \<or> \<not> fst (hd cs)"
proof -
  consider "lfree h = heap_end h" | "lfree h \<in> set (frees (heap_ptr h) bs)" using assms unfolding heap_rep_def by blast
  then show thesis
  proof cases
    case 1
    with assms that [of bs "[]"] show thesis by (simp add: heap_rep_def)
  next
    case 2
    from frees_split [OF this] that show thesis by fastforce
  qed
qed

lemma live_taken:
  assumes "n + 16 \<le> k"
  shows "\<exists>l\<ge>n. \<forall>p. live p (taken n k) = [(p + 16, l)]"
  using assms by (auto simp: taken_def)

lemma rt_malloc_search:
  assumes "heap_ok h" "0 < n" "RT_ALIGN n \<le> mem_size_aligned h" "heap_blocks h = as @ cs" "lfree h = heap_ptr h + blen as"
  shows "rt_malloc n h = (case first_fit (mem_size_aligned h) (req n) (blen as) cs of None \<Rightarrow> Some (0, h) | Some p \<Rightarrow> malloc_take p (req n) h)"
proof -
  note f = heap_ok_facts [OF assms(1)]
  have "sub32 (lfree h) (heap_ptr h) = blen as" using f(6,7) assms(4,5) by (subst sub32_le) auto
  moreover have "req n \<le> mem_size_aligned h" using assms(3) f(9) by (simp add: req_def)
  ultimately show ?thesis using assms(2,3) malloc_loop_rep [of h as cs "req n"] f(1) assms(4)
    by (simp add: rt_malloc_def Let_def req_def)
qed

lemma rt_malloc_ok:
  assumes "heap_ok h"
  shows "\<exists>p h'. rt_malloc n h = Some (p, h') \<and> heap_ok h' \<and> same_heap h h' \<and> same_bytes (owned h) h h' \<and>
    (p = 0 \<and> h' = h \<or> p \<noteq> 0 \<and> (\<exists>l\<ge>req n. (p, l) \<notin> owned h \<and> owned h' = insert (p, l) (owned h)))"
proof (cases "n = 0 \<or> mem_size_aligned h < RT_ALIGN n")
  case True
  then show ?thesis using assms by (auto simp: rt_malloc_def Let_def same_heap_def)
next
  case False
  note f = heap_ok_facts [OF assms]
  from lfree_at [OF f(1)] obtain as0 cs0 where b0: "heap_blocks h = as0 @ cs0" "lfree h = heap_ptr h + blen as0" by metis
  note e = rt_malloc_search [OF assms _ _ b0, of n]
  show ?thesis
  proof (cases "first_fit (mem_size_aligned h) (req n) (blen as0) cs0")
    case None
    then show ?thesis using assms e False by (auto simp: same_heap_def)
  next
    case (Some p)
    from first_fit_Some [OF this] obtain as1 k cs where s: "cs0 = as1 @ (False, k) # cs" "p = blen (as0 @ as1)" "req n + 16 \<le> k" by auto
    let ?as = "as0 @ as1"
    have bs: "heap_blocks h = ?as @ (False, k) # cs" using b0 s(1) by simp
    have "8 \<le> req n" using req_facts(2) [of n] by simp
    with malloc_take_rep [of h ?as k cs "req n"] f(1,2) bs s(3) req_facts(1) obtain h'
      where h': "malloc_take p (req n) h = Some (heap_ptr h + p + 16, h')" "heap_inv h' (?as @ taken (req n) k @ cs)" "same_heap h h'"
        "same_on (in_use (heap_ptr h) (?as @ (False, k) # cs)) (ram h) (ram h')" unfolding s(2) by metis
    obtain l where l: "req n \<le> l" "\<And>p. live p (taken (req n) k) = [(p + 16, l)]" using live_taken [OF s(3)] by blast
    have o: "owned h' = insert (heap_ptr h + p + 16, l) (owned h)"
      using heap_okI [OF h'(2)] h'(3) bs l(2) s(2,3) by (auto simp: same_heap_def owned_def add.assoc)
    have "(heap_ptr h + p + 16, l) \<notin> owned h"
      using live_bounds [of "heap_ptr h + p + 16" l "heap_ptr h" ?as] live_bounds [of "heap_ptr h + p + 16" l "heap_ptr h + blen ?as + k" cs]
        f(3) bs s(2) by (auto simp: owned_def add.assoc)
    moreover have "rt_malloc n h = Some (heap_ptr h + p + 16, h')" using e False Some h'(1) by simp
    ultimately show ?thesis using heap_okI [OF h'(2)] h'(3,4) o l(1) bs by (auto simp: same_on_bytes owned_def)
  qed
qed

text \<open>Writes to memory that was handed out.\<close>

lemma layout_user:
  assumes "layout m H (as @ (True, k) # cs)" "H + blen as + 16 \<le> a" "a + length xs \<le> H + blen as + k"
  shows "layout (poke a xs m) H (as @ (True, k) # cs)"
  using assms unfolding layout_after by (auto intro!: chain_out hdr_out after_out)

lemma write_ok:
  assumes "heap_ok h" "(p, l) \<in> owned h" "p \<le> a" "a + length xs \<le> p + l" and h': "h' = h\<lparr>ram := poke a xs (ram h)\<rparr>"
  shows "heap_ok h'" "owned h' = owned h" "same_heap h h'" "same_bytes (owned h - {(p, l)}) h h'"
proof -
  obtain as k cs where bs: "heap_blocks h = as @ (True, k) # cs" "p = heap_ptr h + blen as + 16" "l = k - 16"
    and r: "heap_rep h (as @ (True, k) # cs)" "tight as" "tight cs"
    using heap_inv_at [of h "heap_blocks h" p l] assms by (metis heap_ok_def owned_def)
  have "heap_rep h' (heap_blocks h)"
    unfolding bs(1) h' using r(1) assms(3,4) bs(2,3) heap_rep_sizes(1) [OF r(1)]
    by (auto simp: heap_rep_def intro: layout_user)
  then have "heap_inv h' (heap_blocks h)" using heap_ok_facts(2) [OF assms(1)] by (simp add: heap_inv_def)
  from heap_okI [OF this] show "heap_ok h'" "owned h' = owned h" by (auto simp: h' owned_def)
  show "same_heap h h'" by (simp add: h' same_heap_def)
  show "same_bytes (owned h - {(p, l)}) h h'"
    using owned_facts(6) [OF assms(1,2)] assms(3,4) by (fastforce simp: same_bytes_def h' poke_def)
qed

section \<open>rt_system_heap_init\<close>

lemma align_facts:
  assumes "b + 64 \<le> e" "e < 4294967296"
  shows "8 dvd RT_ALIGN b" "8 dvd RT_ALIGN_DOWN e" "b \<le> RT_ALIGN b" "RT_ALIGN_DOWN e \<le> e" "RT_ALIGN b + 48 \<le> RT_ALIGN_DOWN e"
proof -
  have "RT_ALIGN b = (b + 7) div 8 * 8" unfolding RT_ALIGN_def using assms by (subst mod_less) auto
  then show "b \<le> RT_ALIGN b" "RT_ALIGN b + 48 \<le> RT_ALIGN_DOWN e"
    unfolding RT_ALIGN_DOWN_def
    using assms(1) div_mult_mod_eq [of "b + 7" 8] div_mult_mod_eq [of e 8] mod_less_divisor [of 8 "b + 7"] mod_less_divisor [of 8 e]
    by linarith+
qed (simp_all add: RT_ALIGN_def RT_ALIGN_DOWN_def)

lemma rt_system_heap_init_ok:
  assumes "0 < begin_addr" "begin_addr + 64 \<le> end_addr" "end_addr < 2 ^ 32" "used_mem h = 0"
  shows "heap_inv (rt_system_heap_init begin_addr end_addr h) [(False, RT_ALIGN_DOWN end_addr - RT_ALIGN begin_addr - 16)]"
proof -
  define b e where "b = RT_ALIGN begin_addr" and "e = RT_ALIGN_DOWN end_addr"
  have al: "8 dvd b" "8 dvd e" "begin_addr \<le> b" "e \<le> end_addr" "b + 48 \<le> e"
    using align_facts [OF assms(2)] assms(3) by (simp_all add: b_def e_def)
  then obtain n where n: "e - b = n + 32" "16 \<le> n" "8 dvd n"
    using that [of "e - b - 32"] by (auto simp: dvd_diff_nat)
  have le: "b + (n + 32) = e" using n(1) al(5) by linarith
  have h: "rt_system_heap_init begin_addr end_addr h = h\<lparr>mem_size_aligned := n, heap_ptr := b, heap_end := b + (n + 16), lfree := b,
      ram := poke (b + (n + 16) + 8) (u32_bytes (n + 16)) (poke (b + (n + 16) + 4) (u32_bytes (n + 16))
        (poke (b + (n + 16) + 2) (u16_bytes 1) (poke (b + (n + 16)) (u16_bytes HEAP_MAGIC)
          (poke (b + 2) (u16_bytes 0) (poke (b + 8) (u32_bytes 0) (poke (b + 4) (u32_bytes (n + 16)) (poke b (u16_bytes HEAP_MAGIC) (ram h))))))))\<rparr>"
    (is "_ = h\<lparr>mem_size_aligned := n, heap_ptr := b, heap_end := _, lfree := b, ram := ?m\<rparr>")
    unfolding rt_system_heap_init_def b_def [symmetric] e_def [symmetric] Let_def
    using al(5) n by (cases h) (auto simp: set_defs)
  have "hdr ?m b False (n + 16) 0" "hdr ?m (b + (n + 16)) True (n + 16) (n + 16)"
    using le al(4) assms(3) n(2) by (simp_all add: hdr_def u32_poke_out u16_poke_out u32_poke u16_poke)
  then have "layout ?m b [(False, n + 16)]" using n le al(4) assms(3) by (auto simp: layout_def)
  then have "heap_inv (h\<lparr>mem_size_aligned := n, heap_ptr := b, heap_end := b + (n + 16), lfree := b, ram := ?m\<rparr>) [(False, n + 16)]"
    using n(2) al(1,3) assms(1,4) unfolding heap_inv_def heap_rep_def tight_def by simp
  moreover have "e - b - 16 = n + 16" using n(1) by simp
  ultimately show ?thesis unfolding h b_def [symmetric] e_def [symmetric] by metis
qed

section \<open>rt_realloc\<close>

lemma RT_ALIGN_idem: "RT_ALIGN (RT_ALIGN n) = RT_ALIGN n"
proof -
  define q where "q = (n + 7) mod 4294967296 div 8"
  have "q \<le> 536870911" unfolding q_def by (rule less_Suc_eq_le [THEN iffD1]) (simp add: less_mult_imp_div_less)
  then have "(q * 8 + 7) mod 4294967296 = q * 8 + 7" by (intro mod_less) simp
  then have "(q * 8 + 7) mod 4294967296 div 8 = q" by simp
  then show ?thesis unfolding RT_ALIGN_def by (simp add: q_def)
qed

text \<open>Shrinking in place.\<close>

lemma realloc_cut:
  assumes "heap_ok h" "(a, l) \<in> owned h" "m = RT_ALIGN n" "0 < m" "m + 28 < l"
  obtains as k cs h1 where "heap_blocks h = as @ (True, k) # cs" "a = heap_ptr h + blen as + 16" "l = k - 16" "tight as" "tight cs" "m + 48 \<le> k"
    "rt_realloc a n h = map_option (Pair a) (plug_holes (heap_ptr h + (blen as + (m + 16))) h1)"
    "heap_rep h1 (as @ (True, m + 16) # (False, k - (m + 16)) # cs)" "same_heap h h1" "lfree h1 = lfree h"
    "same_on (in_use (heap_ptr h) (as @ (True, m + 16) # (False, k - (m + 16)) # cs)) (ram h) (ram h1)"
proof -
  obtain as k cs where bs: "heap_blocks h = as @ (True, k) # cs" "a = heap_ptr h + blen as + 16" "l = k - 16"
    and r: "heap_rep h (as @ (True, k) # cs)" "tight as" "tight cs"
    using heap_inv_at [of h "heap_blocks h" a l] assms(1,2) by (metis heap_ok_def owned_def)
  let ?H = "heap_ptr h" and ?bs = "as @ (True, m + 16) # (False, k - (m + 16)) # cs"
  note rd = heap_rep_reads [OF r(1)] and sz = heap_rep_sizes [OF r(1)]
  have k8: "8 dvd k" "8 dvd m" using sz req_facts(5) [of n] assms(3) by auto
  then have m: "m + 48 \<le> k" "8 \<le> m" "8 dvd m" using assms(4,5) bs(3) by presburger+
  have l: "layout (ram h) ?H (as @ (True, k) # cs)" "mem_size_aligned h + 16 = blen as + (k + blen cs)"
    "used_mem h = blen (filter fst as) + k + blen (filter fst cs)" "heap_end h = ?H + (blen as + (k + blen cs))" "used_mem h \<le> max_mem h"
    using r(1) unfolding heap_rep_def by simp_all
  have fr: "lfree h \<in> insert (heap_end h) (set (frees ?H (as @ (True, k) # cs)))"
    using r(1) unfolding heap_rep_def by blast
  note c = cut_facts [OF l(1) m]
  define h1 where "h1 = h\<lparr>used_mem := used_mem h - (k - (m + 16)), ram := cut_back ?H as m k cs (cut_rest ?H as m k (ram h))\<rparr>"
  have ul: "used_mem h < 2 ^ 32" using l(3) blen_mono(1) [of fst as] blen_mono(1) [of fst cs] sz by simp
  have sub: "sub32 a 16 = ?H + blen as" "sub32 (?H + blen as) ?H = blen as" "sub32 (blen as + k) (blen as + 16) = l" "sub32 l m = k - (m + 16)"
    "sub32 (used_mem h) (k - (m + 16)) = used_mem h - (k - (m + 16))"
    using sz bs m l(3) ul by (subst sub32_le; simp)+
  have "(blen as + k \<noteq> mem_size_aligned h + 16) = (cs \<noteq> [])" using l(2) sz by (cases cs) auto
  then have "rt_realloc a n h = map_option (Pair a) (plug_holes (?H + (blen as + (m + 16))) h1)"
    using assms(4,5) rd sub bs l(2,4) c(3) sz m unfolding rt_realloc_def assms(3) [symmetric] h1_def cut_back_def cut_rest_def
    by (simp add: Let_def set_defs h_next_def ac_simps)
  moreover have "heap_rep h1 ?bs"
    using r(1) c(1) m l(3,5) fr unfolding h1_def by (auto simp: heap_rep_def add.assoc)
  moreover have "same_heap h h1" "lfree h1 = lfree h" "same_on (in_use ?H ?bs) (ram h) (ram h1)"
    using c(2) by (simp_all add: h1_def same_heap_def)
  ultimately show thesis using that bs r m by blast
qed

lemma realloc_shrink_ok:
  assumes "heap_ok h" "(a, l) \<in> owned h" "m = RT_ALIGN n" "0 < m" "m + 28 < l"
  shows "\<exists>h'. rt_realloc a n h = Some (a, h') \<and> heap_ok h' \<and> same_heap h h' \<and> owned h' = insert (a, m) (owned h - {(a, l)}) \<and>
    same_bytes (insert (a, m) (owned h - {(a, l)})) h h'"
proof -
  obtain as k cs h1 where bs: "heap_blocks h = as @ (True, k) # cs" "a = heap_ptr h + blen as + 16" "l = k - 16" and t: "tight as" "tight cs"
    and m: "m + 48 \<le> k" and e: "rt_realloc a n h = map_option (Pair a) (plug_holes (heap_ptr h + (blen as + (m + 16))) h1)"
    and r1: "heap_rep h1 (as @ (True, m + 16) # (False, k - (m + 16)) # cs)" "same_heap h h1"
      "same_on (in_use (heap_ptr h) (as @ (True, m + 16) # (False, k - (m + 16)) # cs)) (ram h) (ram h1)"
    using realloc_cut [OF assms] by metis
  let ?H = "heap_ptr h" and ?bs = "as @ (True, m + 16) # (False, k - (m + 16)) # cs"
  have H: "heap_ptr h1 = ?H" using r1(2) by (simp add: same_heap_def)
  have "tight (as @ [(True, m + 16)])" using t(1) by (cases as rule: rev_cases) (auto simp: tight_def successively_append_iff)
  with plug_holes_rep [of h1 "as @ [(True, m + 16)]" "k - (m + 16)" cs] r1(1) t(2) H obtain h' bs' where
    h': "plug_holes (?H + (blen as + (m + 16))) h1 = Some h'" "heap_inv h' bs'" "live ?H bs' = live ?H ?bs"
      "same_on (in_use ?H ?bs) (ram h1) (ram h')" "same_heap h1 h'" by auto
  moreover have "set (live ?H ?bs) = insert (a, m) (owned h - {(a, l)})"
    using live_remove1 [of as k cs ?H] heap_ok_facts(3) [OF assms(1)] bs m by (auto simp: owned_def add.assoc)
  moreover have "same_on (in_use ?H ?bs) (ram h) (ram h')" using r1(3) h'(4) by (auto intro: same_on_trans)
  ultimately show ?thesis using heap_okI [OF h'(2)] e r1(2) by (auto simp: same_heap_def same_on_bytes)
qed

lemma realloc_unfold:
  assumes "heap_ok h" "(a, l) \<in> owned h" "m = RT_ALIGN n" "\<not> m + 28 < l"
  shows "rt_realloc a n h =
    (if m > mem_size_aligned h then Some (0, h) else if m = 0 then map_option (Pair 0) (rt_free a h)
     else if l = m then Some (a, h)
     else (case rt_malloc m h of None \<Rightarrow> None
           | Some (p, h1) \<Rightarrow> if p \<noteq> 0 then map_option (Pair p) (rt_free a (h1\<lparr>ram := rt_memcpy p a (if l < m then l else m) (ram h1)\<rparr>)) else Some (p, h1)))"
proof -
  obtain as k cs where bs: "a = heap_ptr h + blen as + 16" "l = k - 16" and r: "heap_rep h (as @ (True, k) # cs)"
    using heap_inv_at [of h "heap_blocks h" a l] assms(1,2) by (metis heap_ok_def owned_def)
  note rd = heap_rep_reads [OF r] and sz = heap_rep_sizes [OF r]
  have sub: "sub32 a 16 = heap_ptr h + blen as" "sub32 (heap_ptr h + blen as) (heap_ptr h) = blen as" "sub32 (blen as + k) (blen as + 16) = l"
    using sz bs by (subst sub32_le; simp)+
  have s: "sub32 (h_next h (sub32 a 16)) (sub32 (sub32 a 16) (heap_ptr h) + 16) = l" using rd(3) sub by simp
  have "heap_ptr h \<le> a" "a < heap_end h" "a \<noteq> 0" using owned_facts(1-3) [OF assms(1,2)] by auto
  then show ?thesis using assms(4) unfolding rt_realloc_def assms(3) [symmetric] Let_def s by simp
qed

text \<open>Moving to a new block.\<close>

lemma realloc_move_ok:
  assumes "heap_ok h" "(a, l) \<in> owned h" "heap_ok h1" "same_heap h h1" "same_bytes (owned h) h h1"
    and p: "m \<le> l1" "(p, l1) \<notin> owned h" "owned h1 = insert (p, l1) (owned h)"
  shows "\<exists>h'. rt_free a (h1\<lparr>ram := rt_memcpy p a (min l m) (ram h1)\<rparr>) = Some h' \<and> heap_ok h' \<and> same_heap h h' \<and> owned h' = insert (p, l1) (owned h - {(a, l)}) \<and>
    same_bytes (owned h - {(a, l)}) h h' \<and> (\<forall>i<min l m. ram h' (p + i) = ram h (a + i))"
proof -
  let ?h2 = "h1\<lparr>ram := rt_memcpy p a (min l m) (ram h1)\<rparr>"
  have P: "(p, l1) \<in> owned h1" and A: "(a, l) \<in> owned h1" "(a, l) \<noteq> (p, l1)" using p assms(2) by auto
  have "p + min l m \<le> a \<or> a + min l m \<le> p" using owned_facts(6) [OF assms(3) A(1) P] A(2) p(1) by auto
  note cp = rt_memcpy_exact [OF this, of "ram h1"]
  have w: "heap_ok ?h2" "owned ?h2 = owned h1" "same_heap h1 ?h2" "same_bytes (owned h1 - {(p, l1)}) h1 ?h2"
    using write_ok [OF assms(3) P, of p "map (ram h1) [a..<a + min l m]" ?h2] p(1) by (auto simp: cp)
  from rt_free_ok [OF w(1), of a l] A w(2) obtain h' where h': "rt_free a ?h2 = Some h'" "heap_ok h'" "same_heap ?h2 h'"
    "owned h' = owned h1 - {(a, l)}" "same_bytes (owned h1 - {(a, l)}) ?h2 h'" by auto
  have "same_bytes (owned h - {(a, l)}) h h1" "same_bytes (owned h - {(a, l)}) h1 ?h2" "same_bytes (owned h - {(a, l)}) ?h2 h'"
    by (rule same_bytes_mono [OF assms(5)], blast, rule same_bytes_mono [OF w(4)], use p(2,3) in blast,
        rule same_bytes_mono [OF h'(5)], use p(3) in blast)
  then have "same_bytes (owned h - {(a, l)}) h h'" by (rule same_bytes_trans [OF same_bytes_trans])
  moreover have "ram h' (p + i) = ram h (a + i)" if i: "i < min l m" for i
  proof -
    have "ram h' (p + i) = ram ?h2 (p + i)" by (rule same_bytesD [OF h'(5), of p l1]) (use P A i p(1) in auto)
    also have "\<dots> = ram h1 (a + i)" using i by (simp add: cp poke_def)
    also have "\<dots> = ram h (a + i)" by (rule same_bytesD [OF assms(5,2)]) (use i in auto)
    finally show ?thesis .
  qed
  moreover have "same_heap h h'" using assms(4) w(3) h'(3) by (simp add: same_heap_def)
  moreover have "owned h' = insert (p, l1) (owned h - {(a, l)})" using h'(4) p(3) A(2) by auto
  ultimately show ?thesis using h'(1,2) by blast
qed

lemma rt_realloc_ok:
  assumes "heap_ok h" "(a, l) \<in> owned h" and m_def: "m = RT_ALIGN n"
  shows "\<exists>p h'. rt_realloc a n h = Some (p, h') \<and> heap_ok h' \<and> same_heap h h' \<and> same_bytes (owned h - {(a, l)}) h h' \<and>
    (if m = 0 then p = 0 \<and> owned h' = owned h - {(a, l)}
     else p = 0 \<and> h' = h \<or>
       p \<noteq> 0 \<and> (\<exists>l'\<ge>m. (p, l') \<notin> owned h - {(a, l)} \<and> owned h' = insert (p, l') (owned h - {(a, l)}) \<and>
         (\<forall>i<min l m. ram h' (p + i) = ram h (a + i))))"
proof -
  note o = owned_facts [OF assms(1,2)] and u = realloc_unfold [OF assms(1,2) m_def]
  have a0: "a \<noteq> 0" using o(1) by auto
  consider "m > mem_size_aligned h" | "m \<le> mem_size_aligned h" "m = 0" | "m \<le> mem_size_aligned h" "m \<noteq> 0" "m + 28 < l"
    | "m \<le> mem_size_aligned h" "m \<noteq> 0" "l = m" | "m \<le> mem_size_aligned h" "m \<noteq> 0" "\<not> m + 28 < l" "l \<noteq> m" by linarith
  then show ?thesis 
  proof cases
    case 1
    then have "rt_realloc a n h = Some (0, h)" by (simp add: rt_realloc_def Let_def m_def)
    then show ?thesis using assms(1) 1 by (auto simp: same_heap_def)
  next
    case 2
    then have "rt_realloc a n h = map_option (Pair 0) (rt_free a h)" by (simp add: rt_realloc_def Let_def m_def)
    then show ?thesis using rt_free_ok [OF assms(1,2)] 2 by auto
  next
    case 3
    then obtain h' where h': "rt_realloc a n h = Some (a, h')" "heap_ok h'" "same_heap h h'" "owned h' = insert (a, m) (owned h - {(a, l)})"
      "same_bytes (insert (a, m) (owned h - {(a, l)})) h h'" using realloc_shrink_ok [OF assms(1,2) m_def] by auto
    have "(a, m) \<notin> owned h" using o(6) [of a m] 3 by auto
    moreover have "same_bytes (owned h - {(a, l)}) h h'" using h'(5) by (rule same_bytes_mono) auto
    moreover have "\<forall>i<min l m. ram h' (a + i) = ram h (a + i)" using h'(5) by (auto simp: same_bytes_def)
    ultimately show ?thesis using h' a0 3 by auto
  next
    case 4
    then have "rt_realloc a n h = Some (a, h)" using u by simp
    then show ?thesis using assms(1,2) a0 4 by (intro exI [of _ a] exI [of _ h]) (auto simp: same_heap_def)
  next
    case 5
    from rt_malloc_ok [OF assms(1), of m] obtain p h1 where h1: "rt_malloc m h = Some (p, h1)" "heap_ok h1" "same_heap h h1" "same_bytes (owned h) h h1"
      and p: "p = 0 \<and> h1 = h \<or> p \<noteq> 0 \<and> (\<exists>l\<ge>req m. (p, l) \<notin> owned h \<and> owned h1 = insert (p, l) (owned h))" by blast
    have e: "rt_realloc a n h = (if p \<noteq> 0 then map_option (Pair p) (rt_free a (h1\<lparr>ram := rt_memcpy p a (min l m) (ram h1)\<rparr>)) else Some (p, h1))"
      using u 5 h1(1) by (simp add: min_def)
    show ?thesis
    proof (cases "p = 0")
      case True
      then show ?thesis using e p assms(1) 5 by (auto simp: same_heap_def)
    next
      case False
      with p obtain l1 where l1: "req m \<le> l1" "(p, l1) \<notin> owned h" "owned h1 = insert (p, l1) (owned h)" by blast
      moreover have "m \<le> l1" using l1(1) req_facts(4) [of m] by (simp add: m_def RT_ALIGN_idem)
      ultimately show ?thesis using realloc_move_ok [OF assms(1,2) h1(2-4), of m l1 p] e False 5 by auto
    qed
  qed
qed

lemma rt_calloc_ok:
  assumes "heap_ok h" and n: "n = c * k mod 2 ^ 32" "n \<le> 0xFFFFFFF8"
  shows "\<exists>p h'. rt_calloc c k h = Some (p, h') \<and> heap_ok h' \<and> same_heap h h' \<and> same_bytes (owned h) h h' \<and>
    (p = 0 \<and> h' = h \<or> p \<noteq> 0 \<and> (\<exists>l\<ge>n. (p, l) \<notin> owned h \<and> owned h' = insert (p, l) (owned h) \<and> (\<forall>i<n. ram h' (p + i) = 0)))"
proof -
  from rt_malloc_ok [OF assms(1), of n] obtain p h1 where h1: "rt_malloc n h = Some (p, h1)" "heap_ok h1" "same_heap h h1" "same_bytes (owned h) h h1"
    and p: "p = 0 \<and> h1 = h \<or> p \<noteq> 0 \<and> (\<exists>l\<ge>req n. (p, l) \<notin> owned h \<and> owned h1 = insert (p, l) (owned h))" by blast
  have e: "rt_calloc c k h = Some (p, if p \<noteq> 0 then h1\<lparr>ram := rt_memset p 0 n (ram h1)\<rparr> else h1)"
    using h1(1) unfolding rt_calloc_def n(1) [symmetric] by simp
  show ?thesis
  proof (cases "p = 0")
    case True
    then show ?thesis using e p assms by (auto simp: same_heap_def)
  next
    case False
    with p obtain l where l: "req n \<le> l" "(p, l) \<notin> owned h" "owned h1 = insert (p, l) (owned h)" by blast
    have nl: "n \<le> l" using l(1) req_facts(3) [OF n(2)] by simp
    let ?h2 = "h1\<lparr>ram := rt_memset p 0 n (ram h1)\<rparr>"
    have w: "heap_ok ?h2" "owned ?h2 = owned h1" "same_heap h1 ?h2" "same_bytes (owned h1 - {(p, l)}) h1 ?h2"
      using write_ok [OF h1(2), of p l p "replicate n 0" ?h2] l nl by (auto simp: rt_memset_exact)
    have "same_bytes (owned h) h1 ?h2" using w(4) l by (auto elim!: same_bytes_mono)
    with h1(4) have "same_bytes (owned h) h ?h2" by (rule same_bytes_trans)
    moreover have "\<forall>i<n. ram ?h2 (p + i) = 0" by (simp add: rt_memset_exact poke_def)
    ultimately show ?thesis using e False w h1(3) l nl by (auto simp: same_heap_def)
  qed
qed

section \<open>The heap as a service\<close>

text \<open>The calls of the tasks, and their writes to memory they own.\<close>

datatype heap_call = Malloc nat | Calloc nat nat | Realloc nat nat | Free nat | Write nat u8

fun heap_do :: "heap_call \<Rightarrow> heap \<Rightarrow> (nat \<times> heap) option" where
  "heap_do (Malloc n) h = rt_malloc n h"
| "heap_do (Calloc c n) h = rt_calloc c n h"
| "heap_do (Realloc p n) h = rt_realloc p n h"
| "heap_do (Free p) h = map_option (Pair 0) (rt_free p h)"
| "heap_do (Write a b) h = Some (0, h\<lparr>ram := poke a [b] (ram h)\<rparr>)"

text \<open>What a task may do: pass pointers it got (or none), write to blocks handed out, and keep products in range.\<close>

fun heap_legal :: "heap \<Rightarrow> heap_call \<Rightarrow> bool" where
  "heap_legal h (Malloc n) \<longleftrightarrow> True"
| "heap_legal h (Calloc c n) \<longleftrightarrow> c * n mod 2 ^ 32 \<le> 0xFFFFFFF8"
| "heap_legal h (Realloc p n) \<longleftrightarrow> p = 0 \<or> p \<in> fst ` owned h"
| "heap_legal h (Free p) \<longleftrightarrow> p = 0 \<or> p \<in> fst ` owned h"
| "heap_legal h (Write a b) \<longleftrightarrow> (\<exists>(p, l)\<in>owned h. p \<le> a \<and> a < p + l)"

fun heap_touches :: "heap_call \<Rightarrow> nat \<times> nat \<Rightarrow> bool" where
  "heap_touches (Realloc p n) b \<longleftrightarrow> p = fst b"
| "heap_touches (Free p) b \<longleftrightarrow> p = fst b"
| "heap_touches (Write a v) b \<longleftrightarrow> fst b \<le> a \<and> a < fst b + snd b"
| "heap_touches _ b \<longleftrightarrow> False"

text \<open>A service that hands out memory keeps what it has handed out.\<close>

locale memory_service = call_service ok call legal
  for ok :: "'s \<Rightarrow> bool" and call :: "'c \<Rightarrow> 's \<Rightarrow> (nat \<times> 's) option" and legal :: "'s \<Rightarrow> 'c \<Rightarrow> bool" +
  fixes blocks :: "'s \<Rightarrow> (nat \<times> nat) set"
    and byte :: "'s \<Rightarrow> nat \<Rightarrow> u8"
    and touches :: "'c \<Rightarrow> nat \<times> nat \<Rightarrow> bool"
  assumes call_keeps: "ok s \<Longrightarrow> legal s c \<Longrightarrow> call c s = Some (r, s') \<Longrightarrow> b \<in> blocks s \<Longrightarrow> \<not> touches c b \<Longrightarrow>
      b \<in> blocks s' \<and> (\<forall>x. fst b \<le> x \<and> x < fst b + snd b \<longrightarrow> byte s' x = byte s x)"
begin

lemma calls_keep:
  "ok s \<Longrightarrow> legal_calls call legal cs s \<Longrightarrow> run_calls call cs s = Some s' \<Longrightarrow> b \<in> blocks s \<Longrightarrow> \<forall>c\<in>set cs. \<not> touches c b \<Longrightarrow>
    b \<in> blocks s' \<and> (\<forall>x. fst b \<le> x \<and> x < fst b + snd b \<longrightarrow> byte s' x = byte s x)"
proof (induction cs arbitrary: s)
  case (Cons c cs)
  then obtain r s1 where s1: "call c s = Some (r, s1)" "ok s1" using call_ok [of s c] by auto
  have k: "b \<in> blocks s1" "\<And>x. fst b \<le> x \<and> x < fst b + snd b \<Longrightarrow> byte s1 x = byte s x"
    using call_keeps [of s c r s1 b] Cons.prems s1 by auto
  then have "b \<in> blocks s' \<and> (\<forall>x. fst b \<le> x \<and> x < fst b + snd b \<longrightarrow> byte s' x = byte s1 x)"
    using Cons.IH [of s1] Cons.prems s1 by auto
  then show ?case using k by auto
qed auto

end

lemma heap_do_ok:
  assumes "heap_ok h" "heap_legal h c"
  shows "\<exists>r h'. heap_do c h = Some (r, h') \<and> heap_ok h' \<and> same_heap h h' \<and>
    (\<forall>b\<in>owned h. \<not> heap_touches c b \<longrightarrow> b \<in> owned h' \<and> same_bytes {b} h h')"
proof -
  have sub: "same_bytes {b} h h'" if "same_bytes B h h'" "b \<in> B" for B b h' using that by (auto intro: same_bytes_mono)
  have free: ?thesis if p: "p \<noteq> 0" "(p, l) \<in> owned h" "c = Free p" for p l
  proof -
    from rt_free_ok [OF assms(1) p(2)] obtain h' where h': "rt_free p h = Some h'" "heap_ok h'" "same_heap h h'"
      "same_bytes (owned h - {(p, l)}) h h'" and o: "owned h - {(p, l)} \<subseteq> owned h'" by auto
    then show ?thesis using p(3) sub [OF h'(4)] by auto
  qed
  have realloc: ?thesis if p: "p \<noteq> 0" "(p, l) \<in> owned h" "c = Realloc p n" for p l n
  proof -
    from rt_realloc_ok [OF assms(1) p(2) refl, of n] obtain q h' where h': "rt_realloc p n h = Some (q, h')" "heap_ok h'" "same_heap h h'"
      "same_bytes (owned h - {(p, l)}) h h'" and o: "owned h - {(p, l)} \<subseteq> owned h'" by (auto split: if_splits)
    then show ?thesis using p(3) sub [OF h'(4)] by auto
  qed
  have alloc: ?thesis if "heap_do c h = Some (q, h')" "heap_ok h'" "same_heap h h'" "same_bytes (owned h) h h'" "owned h \<subseteq> owned h'" for q h'
    using that sub [OF that(4)] by blast
  have m: "\<exists>q h'. rt_malloc n h = Some (q, h') \<and> heap_ok h' \<and> same_heap h h' \<and> same_bytes (owned h) h h' \<and> owned h \<subseteq> owned h'" for n
    using rt_malloc_ok [OF assms(1), of n] by auto
  show ?thesis
  proof (cases c)
    case (Malloc n)
    then show ?thesis using m [of n] alloc by auto
  next
    case (Calloc k n)
    then obtain p h' where h': "rt_calloc k n h = Some (p, h')" "heap_ok h'" "same_heap h h'" "same_bytes (owned h) h h'" "owned h \<subseteq> owned h'"
      using rt_calloc_ok [OF assms(1) refl, of k n] assms(2) by auto
    with Calloc show ?thesis by (intro alloc [of p h']) auto
  next
    case (Realloc p n)
    show ?thesis
    proof (cases "p = 0")
      case True
      have z: "heap_do c h = (if RT_ALIGN n > mem_size_aligned h \<or> RT_ALIGN n = 0 then Some (0, h) else rt_malloc (RT_ALIGN n) h)"
        using Realloc True by (simp add: rt_realloc_def rt_free_def Let_def)
      then show ?thesis
      proof (cases "RT_ALIGN n > mem_size_aligned h \<or> RT_ALIGN n = 0")
        case True
        then show ?thesis using z assms(1) by (intro alloc [of 0 h]) (auto simp: same_heap_def)
      next
        case False
        then show ?thesis using z m [of "RT_ALIGN n"] alloc by auto
      qed
    qed (use assms(2) Realloc realloc in force)
  next
    case (Free p)
    show ?thesis
    proof (cases "p = 0")
      case True
      then show ?thesis using Free assms(1) by (auto simp: rt_free_def same_heap_def)
    qed (use assms(2) Free free in force)
  next
    case (Write a v)
    then obtain p l where p: "(p, l) \<in> owned h" "p \<le> a" "a < p + l" using assms(2) by auto
    note w = write_ok [OF assms(1) p(1,2), of "[v]", OF _ refl]
    have "same_bytes {b} h (h\<lparr>ram := poke a [v] (ram h)\<rparr>)" if "\<not> heap_touches c b" for b
      using that Write by (auto simp: same_bytes_def poke_def)
    then show ?thesis using w p(3) Write by auto
  qed
qed

interpretation rt_heap: memory_service heap_ok heap_do heap_legal owned ram heap_touches
proof
  fix h c
  assume a: "heap_ok h" "heap_legal h c"
  then show "\<exists>r h'. heap_do c h = Some (r, h') \<and> heap_ok h'" using heap_do_ok by blast
  fix r h' b
  assume "heap_do c h = Some (r, h')" "b \<in> owned h" "\<not> heap_touches c b"
  with heap_do_ok [OF a] have "b \<in> owned h'" "same_bytes {b} h h'" by auto
  then show "b \<in> owned h' \<and> (\<forall>x. fst b \<le> x \<and> x < fst b + snd b \<longrightarrow> ram h' x = ram h x)"
    by (cases b) (auto simp: same_bytes_def)
qed

section \<open>When nothing fits\<close>

lemma first_fit_None: "first_fit lim n p (as @ (False, k) # cs) = None \<Longrightarrow> k < n + 16 \<or> lim \<le> p + blen as + n"
proof (induction as arbitrary: p)
  case (Cons b as)
  then show ?case using Cons.IH [of "p + snd b"] by (auto simp: add.assoc split: if_splits)
qed (auto simp: fits_def split: if_splits)

lemma malloc_take_addr: "malloc_take ptr n h = Some (p, h') \<Longrightarrow> p = heap_ptr h + ptr + 16"
  by (auto simp: malloc_take_def Let_def split: option.splits if_splits)

lemma suffix_at:
  assumes "as @ b # cs = xs @ ys" "blen xs \<le> blen as" "0 < snd b"
  shows "\<exists>d. as = xs @ d \<and> ys = d @ b # cs"
  using assms by (auto simp: append_eq_append_conv2 Cons_eq_append_conv)

text \<open>The sizes that are rounded to 0.\<close>

lemma RT_ALIGN_zero:
  assumes "n < 2 ^ 32"
  shows "RT_ALIGN n = 0 \<longleftrightarrow> n = 0 \<or> 0xFFFFFFF8 < n"
proof
  assume "RT_ALIGN n = 0"
  then show "n = 0 \<or> 0xFFFFFFF8 < n" using req_facts(3) [of n] by fastforce
next
  assume "n = 0 \<or> 0xFFFFFFF8 < n"
  then have "(n + 7) mod 4294967296 < 8" using assms by (auto simp: le_mod_geq)
  then show "RT_ALIGN n = 0" by (simp add: RT_ALIGN_def)
qed

section \<open>An example heap\<close>

definition heap0 :: heap where
  "heap0 = \<lparr>ram = (\<lambda>_. 0), heap_ptr = 0, heap_end = 0, lfree = 0, mem_size_aligned = 0, used_mem = 0, max_mem = 0\<rparr>"

text \<open>4 KB at \<open>0x20001000\<close>, then one block of 100 bytes taken from it.\<close>

definition heap1 :: heap where
  "heap1 = rt_system_heap_init 0x20001000 0x20002000 heap0"

definition heap2 :: heap where
  "heap2 = snd (the (rt_malloc 100 heap1))"

lemma heap1_inv: "heap_inv heap1 [(False, 4080)]" "heap_ptr heap1 = 0x20001000" "lfree heap1 = 0x20001000" "mem_size_aligned heap1 = 4064"
proof -
  have b: "RT_ALIGN 0x20001000 = 0x20001000" "RT_ALIGN_DOWN 0x20002000 = 0x20002000" by (simp_all add: RT_ALIGN_def RT_ALIGN_DOWN_def)
  show "heap_inv heap1 [(False, 4080)]"
    using rt_system_heap_init_ok [of "0x20001000" "0x20002000" heap0] b by (simp add: heap1_def heap0_def)
  show "heap_ptr heap1 = 0x20001000" "lfree heap1 = 0x20001000" "mem_size_aligned heap1 = 4064"
    by (simp_all add: heap1_def rt_system_heap_init_def b Let_def set_defs)
qed

lemma heap2_inv: "rt_malloc 100 heap1 = Some (0x20001010, heap2)" "heap_inv heap2 [(True, 120), (False, 3960)]" "heap_ptr heap2 = 0x20001000"
  "lfree heap2 = 0x20001078" "mem_size_aligned heap2 = 4064"
proof -
  note o = heap_okI [OF heap1_inv(1)]
  have q: "req 100 = 104" "RT_ALIGN 100 = 104" by (simp_all add: req_def RT_ALIGN_def)
  have "rt_malloc 100 heap1 = malloc_take 0 104 heap1"
    using rt_malloc_search [of heap1 100 "[]" "[(False, 4080)]"] o q heap1_inv by (simp add: fits_def)
  with malloc_take_rep [of heap1 "[]" 4080 "[]" 104] heap1_inv obtain h' where "rt_malloc 100 heap1 = Some (0x20001010, h')"
    "heap_inv h' (taken 104 4080)" "same_heap heap1 h'" "lfree h' = 0x20001000 + blen (takeWhile fst (taken 104 4080))" by (auto simp: heap_inv_def)
  then show "rt_malloc 100 heap1 = Some (0x20001010, heap2)" "heap_inv heap2 [(True, 120), (False, 3960)]" "heap_ptr heap2 = 0x20001000"
    "lfree heap2 = 0x20001078" "mem_size_aligned heap2 = 4064"
    using heap1_inv(2,4) by (simp_all add: heap2_def taken_def same_heap_def)
qed

lemma heap2_owned: "heap_ok heap2" "owned heap2 = {(0x20001010, 104)}"
  using heap_okI [OF heap2_inv(2)] heap2_inv(3) by simp_all

text \<open>The rest taken too.\<close>

definition heap3 :: heap where
  "heap3 = snd (the (rt_malloc 3920 heap2))"

lemma heap3_owned: "heap_ok heap3" "lfree heap3 = heap_end heap3" "owned heap3 = {(0x20001010, 104), (0x20001088, 3944)}"
proof -
  have q: "req 3920 = 3920" "RT_ALIGN 3920 = 3920" by (simp_all add: req_def RT_ALIGN_def)
  have "rt_malloc 3920 heap2 = malloc_take 120 3920 heap2"
    using rt_malloc_search [of heap2 3920 "[(True, 120)]" "[(False, 3960)]"] heap_okI [OF heap2_inv(2)] q heap2_inv by (simp add: fits_def)
  with malloc_take_rep [of heap2 "[(True, 120)]" 3960 "[]" 3920] heap2_inv have
    i: "heap_inv heap3 [(True, 120), (True, 3960)]" "same_heap heap2 heap3" by (auto simp: heap_inv_def taken_def heap3_def)
  then show "lfree heap3 = heap_end heap3" by (simp add: heap_inv_def heap_rep_def)
  show "heap_ok heap3" "owned heap3 = {(0x20001010, 104), (0x20001088, 3944)}"
    using heap_okI [OF i(1)] i(2) heap2_inv(3) by (simp_all add: same_heap_def)
qed

section \<open>What the heap promises\<close>

text \<open>
  C9. Once \<open>rt_system_heap_init\<close> was given a region of at least 64 bytes (and \<open>used_mem\<close> is 0, as after
  reset), any sequence of calls to \<open>rt_malloc\<close>, \<open>rt_calloc\<close>, \<open>rt_realloc\<close> and \<open>rt_free\<close> and of writes
  returns (no assertion fails and no loop runs on) and leaves the heap intact, provided that every call
  keeps to three rules: a pointer passed to \<open>rt_realloc\<close> or \<open>rt_free\<close> is \<open>RT_NULL\<close> or was handed out and
  not freed since; a write goes to a byte of a block handed out; and the product of the arguments of
  \<open>rt_calloc\<close>, modulo \<open>2 ^ 32\<close>, is at most \<open>0xFFFFFFF8\<close>. Sizes are arbitrary otherwise. Intact means: the
  headers form one chain from \<open>heap_ptr\<close> to \<open>heap_end\<close>, no two free blocks are neighbours, \<open>lfree\<close> points
  to a free block or the end, and \<open>used_mem\<close> counts the blocks in use.
\<close>

theorem heap_calls_safe:
  assumes "0 < begin_addr" "begin_addr + 64 \<le> end_addr" "end_addr < 2 ^ 32" "used_mem h = 0"
    and "legal_calls heap_do heap_legal cs (rt_system_heap_init begin_addr end_addr h)"
  shows "\<exists>h'. run_calls heap_do cs (rt_system_heap_init begin_addr end_addr h) = Some h' \<and> heap_ok h'"
  using heap_okI [OF rt_system_heap_init_ok [OF assms(1-4)]] assms(5) by (intro rt_heap.calls_ok) auto

theorem heap_calls_safe_witness:
  "\<exists>h'. run_calls heap_do [Malloc 100, Free 0x20001010, Realloc 0 5] (rt_system_heap_init 0x20001000 0x20002000 heap0) = Some h' \<and> heap_ok h'"
proof -
  have "legal_calls heap_do heap_legal [Malloc 100, Free 0x20001010, Realloc 0 5] (rt_system_heap_init 0x20001000 0x20002000 heap0)"
    unfolding heap1_def [symmetric] using heap2_inv heap2_owned by (auto split: option.splits)
  then show ?thesis by (intro heap_calls_safe) (simp_all add: heap0_def)
qed

text \<open>
  C23. Isolation: take any sequence of calls and writes that keeps to the rules of the heap (pointers
  that were handed out, writes only to bytes of blocks handed out, products of \<open>rt_calloc\<close> that are, modulo
  \<open>2 ^ 32\<close>, at most \<open>0xFFFFFFF8\<close>). A block that was handed out stays handed out and every byte of it keeps its
  value, as long as the block itself is not freed, resized or written to.
\<close>

theorem heap_isolation:
  assumes "heap_ok h" "legal_calls heap_do heap_legal cs h" "run_calls heap_do cs h = Some h'"
    and "(a, l) \<in> owned h" "\<forall>c\<in>set cs. \<not> heap_touches c (a, l)"
  shows "(a, l) \<in> owned h' \<and> (\<forall>x. a \<le> x \<and> x < a + l \<longrightarrow> ram h' x = ram h x)"
  using rt_heap.calls_keep [OF assms] by simp

theorem heap_isolation_witness:
  "\<exists>h'. run_calls heap_do [Malloc 16, Calloc 3 8] heap2 = Some h' \<and> (0x20001010, 104) \<in> owned h' \<and>
     ram h' 0x20001010 = ram heap2 0x20001010 \<and> ram h' 0x20001077 = ram heap2 0x20001077"
proof -
  have l: "legal_calls heap_do heap_legal [Malloc 16, Calloc 3 8] heap2" by (auto split: option.splits)
  obtain h' where h': "run_calls heap_do [Malloc 16, Calloc 3 8] heap2 = Some h'" using rt_heap.calls_ok [OF heap2_owned(1) l] by blast
  from heap_isolation [OF heap2_owned(1) l h', of "0x20001010" 104] heap2_owned
  have k: "(0x20001010, 104) \<in> owned h'" "\<And>x. 0x20001010 \<le> x \<and> x < 0x20001010 + 104 \<Longrightarrow> ram h' x = ram heap2 x" by auto
  show ?thesis using h' k(1) k(2) [of "0x20001010"] k(2) [of "0x20001077"] by auto
qed

text \<open>
  C24. \<open>rt_malloc\<close> on an intact heap always returns, leaves the heap intact, and the blocks in use keep
  their contents. It returns \<open>RT_NULL\<close> and changes nothing, which it always does for size 0, or it returns
  a new block: aligned to 8, inside the heap, and at least a header away from every block already handed
  out. The block has at least \<open>req n\<close> bytes, the size rounded up to a multiple of 8 and at least 16, and
  so at least the size asked for when that is at most \<open>0xFFFFFFF8\<close>; the rounding of a larger size wraps
  around to 0.
\<close>

theorem rt_malloc_correct:
  assumes "heap_ok h"
  shows "\<exists>p h'. rt_malloc n h = Some (p, h') \<and> heap_ok h' \<and> same_bytes (owned h) h h' \<and> (n = 0 \<longrightarrow> p = 0) \<and>
    (p = 0 \<and> h' = h \<or>
     (\<exists>l\<ge>req n. (n \<le> 0xFFFFFFF8 \<longrightarrow> n \<le> l) \<and> owned h' = insert (p, l) (owned h) \<and> 8 dvd p \<and> heap_ptr h + 16 \<le> p \<and> p + l \<le> heap_end h \<and>
       (\<forall>(a, k)\<in>owned h. a + k + 16 \<le> p \<or> p + l + 16 \<le> a)))"
proof -
  from rt_malloc_ok [OF assms, of n] obtain p h' where h': "rt_malloc n h = Some (p, h')" "heap_ok h'" "same_heap h h'" "same_bytes (owned h) h h'"
    and p: "p = 0 \<and> h' = h \<or> p \<noteq> 0 \<and> (\<exists>l\<ge>req n. (p, l) \<notin> owned h \<and> owned h' = insert (p, l) (owned h))" by blast
  have "\<exists>l\<ge>req n. (n \<le> 0xFFFFFFF8 \<longrightarrow> n \<le> l) \<and> owned h' = insert (p, l) (owned h) \<and> 8 dvd p \<and> heap_ptr h + 16 \<le> p \<and> p + l \<le> heap_end h \<and>
       (\<forall>(a, k)\<in>owned h. a + k + 16 \<le> p \<or> p + l + 16 \<le> a)" if "\<not> (p = 0 \<and> h' = h)"
  proof -
    from that p obtain l where l: "req n \<le> l" "(p, l) \<notin> owned h" "owned h' = insert (p, l) (owned h)" by blast
    then have P: "(p, l) \<in> owned h'" by simp
    note f = owned_facts [OF h'(2) P]
    have "a + k + 16 \<le> p \<or> p + l + 16 \<le> a" if "(a, k) \<in> owned h" for a k
      using f(6) [of a k] that l(2,3) by auto
    moreover have "n \<le> 0xFFFFFFF8 \<longrightarrow> n \<le> l" using l(1) req_facts(3) [of n] by auto
    ultimately show ?thesis using l f(1,2,4) h'(3) by (intro exI [of _ l]) (auto simp: same_heap_def)
  qed
  moreover have "n = 0 \<longrightarrow> p = 0" using h'(1) by (auto simp: rt_malloc_def)
  ultimately show ?thesis using h' by blast
qed

theorem rt_malloc_correct_witness:
  "\<exists>p h'. rt_malloc 40 heap2 = Some (p, h') \<and> heap_ok h' \<and> same_bytes (owned heap2) heap2 h' \<and>
    (p = 0 \<and> h' = heap2 \<or>
     (\<exists>l\<ge>40. owned h' = insert (p, l) (owned heap2) \<and> 8 dvd p \<and> heap_ptr heap2 + 16 \<le> p \<and> p + l \<le> heap_end heap2 \<and>
       (\<forall>(a, k)\<in>owned heap2. a + k + 16 \<le> p \<or> p + l + 16 \<le> a)))"
proof -
  have "req 40 = 40" by (simp add: req_def RT_ALIGN_def)
  then show ?thesis using rt_malloc_correct [OF heap2_owned(1), of 40] by force
qed

text \<open>A fresh heap refuses the largest size it has: the search stops before the last place of an exact fit.\<close>

lemma rt_malloc_whole_refused:
  assumes "heap_inv h [(False, k)]"
  shows "rt_malloc (mem_size_aligned h) h = Some (0, h)"
proof -
  note o = heap_okI [OF assms] 
  note f = heap_ok_facts [OF conjunct1 [OF o]]
  have b: "heap_blocks h = [(False, k)]" and m: "mem_size_aligned h + 16 = k" using o f(8) by auto
  have k: "8 dvd mem_size_aligned h" "k + 16 < 2 ^ 32" using f(3,4,6,7) b m by (auto simp: dvd_add_left_iff)
  then have q: "RT_ALIGN (mem_size_aligned h) = mem_size_aligned h" using m unfolding RT_ALIGN_def by (subst mod_less) (auto elim!: dvdE)
  have e: "heap_end h = heap_ptr h + k" using f(6) b by simp
  from lfree_at [OF f(1)] obtain as cs where l: "heap_blocks h = as @ cs" "lfree h = heap_ptr h + blen as" by metis
  have "first_fit (mem_size_aligned h) (req (mem_size_aligned h)) (blen as) cs = None"
    using f(9) by (intro first_fit_far) (simp add: req_def q)
  then show ?thesis using rt_malloc_search [OF conjunct1 [OF o] _ _ l, of "mem_size_aligned h"] q f(9) by simp
qed

text \<open>
  C25. \<open>rt_malloc\<close> of \<open>n > 0\<close> bytes looks for \<open>req n\<close> bytes: \<open>n\<close> rounded up to a multiple of 8 (in 32 bits)
  and at least 16. When it returns \<open>RT_NULL\<close>, every free block at \<open>lfree\<close> or above it has less than
  \<open>req n\<close> bytes behind its header; the only exception is a block at the very end of the heap with exactly
  \<open>req n\<close> bytes.
\<close>

theorem rt_malloc_null:
  assumes "heap_ok h" "0 < n" "rt_malloc n h = Some (0, h')"
    and b: "heap_blocks h = as @ (False, k) # cs" "lfree h \<le> heap_ptr h + blen as"
  shows "k - 16 < req n \<or> k - 16 = req n \<and> cs = []"
proof (cases "RT_ALIGN n > mem_size_aligned h")
  case True
  then show ?thesis using heap_ok_facts(8) [OF assms(1)] b(1) req_facts(4) [of n] by auto
next
  case False
  note f = heap_ok_facts [OF assms(1)]
  from lfree_at [OF f(1)] obtain as0 cs0 where b0: "heap_blocks h = as0 @ cs0" "lfree h = heap_ptr h + blen as0" by metis
  note e = rt_malloc_search [OF assms(1,2) _ b0]
  have "24 \<le> k" using f(3) b(1) by simp
  then obtain d where d: "as = as0 @ d" "cs0 = d @ (False, k) # cs"
    using suffix_at [of as "(False, k)" cs as0 cs0] b b0 by auto
  have "first_fit (mem_size_aligned h) (req n) (blen as0) cs0 = None"
    using e False assms(3) malloc_take_addr [of _ "req n" h 0 h'] by (auto split: option.splits)
  from first_fit_None [OF this [unfolded d(2)]] have "k < req n + 16 \<or> mem_size_aligned h \<le> blen as + req n" using d(1) by (simp add: add.assoc)
  moreover have "mem_size_aligned h + 16 = blen as + (k + blen cs)" using f(8) b(1) by simp
  moreover have "cs = [] \<or> 24 \<le> blen cs" using f(3) b(1) by (cases cs) auto
  ultimately show ?thesis using \<open>24 \<le> k\<close> by auto
qed

theorem rt_malloc_null_witness:
  "rt_malloc 4064 heap1 = Some (0, heap1) \<and> heap_blocks heap1 = [(False, 4080)] \<and> (4080 - 16 < req 4064 \<or> (4080 :: nat) - 16 = req 4064)"
proof -
  have r: "rt_malloc 4064 heap1 = Some (0, heap1)" using rt_malloc_whole_refused [OF heap1_inv(1)] heap1_inv(4) by simp
  have b: "heap_ok heap1" "heap_blocks heap1 = [(False, 4080)]" using heap_okI [OF heap1_inv(1)] by auto
  from rt_malloc_null [OF b(1) _ r, of "[]" 4080 "[]"] b(2) heap1_inv(2,3) r show ?thesis by auto
qed

text \<open>
  C26. \<open>rt_free\<close> of a block handed out always returns, takes exactly this block back and leaves the
  contents of all others as they are; freeing the same pointer a second time is caught by the
  assertion on the used mark.
\<close>

theorem rt_free_correct:
  assumes "heap_ok h" "(a, l) \<in> owned h"
  shows "\<exists>h'. rt_free a h = Some h' \<and> heap_ok h' \<and> owned h' = owned h - {(a, l)} \<and> same_bytes (owned h - {(a, l)}) h h' \<and>
    rt_free a h' = None"
proof -
  from rt_free_ok [OF assms] obtain h' where h': "rt_free a h = Some h'" "heap_ok h'" "same_heap h h'" "owned h' = owned h - {(a, l)}"
    "same_bytes (owned h - {(a, l)}) h h'" "h_used h' (a - 16) = 0" by blast
  have "a < 2 ^ 32" "16 \<le> a" using owned_facts(1,2) [OF assms] heap_ok_facts(7) [OF assms(1)] by auto
  then have "sub32 a 16 = a - 16" by (intro sub32_le) auto
  then have "rt_free a h' = None" using h'(6) \<open>16 \<le> a\<close> by (simp add: rt_free_def Let_def)
  then show ?thesis using h' by blast
qed

theorem rt_free_correct_witness:
  "\<exists>h'. rt_free 0x20001010 heap2 = Some h' \<and> heap_ok h' \<and> owned h' = {} \<and> rt_free 0x20001010 h' = None"
  using rt_free_correct [of heap2 "0x20001010" 104] heap2_owned by auto

text \<open>
  C27. \<open>rt_realloc\<close> of a block handed out always returns, leaves the heap intact, and the contents of all
  other blocks are kept. For the size 0 (and for the sizes above \<open>0xFFFFFFF8\<close>, which are rounded to 0) it
  frees the block and returns \<open>RT_NULL\<close>. For the other sizes it returns \<open>RT_NULL\<close> and changes nothing, or
  a block of at least the new size, in the same place or a new one, that starts with the contents of the
  old block, which is no longer handed out.
\<close>

theorem rt_realloc_correct:
  assumes "heap_ok h" "(a, l) \<in> owned h" "n < 2 ^ 32"
  shows "\<exists>p h'. rt_realloc a n h = Some (p, h') \<and> heap_ok h' \<and> same_bytes (owned h - {(a, l)}) h h' \<and>
    (if n = 0 \<or> 0xFFFFFFF8 < n then p = 0 \<and> owned h' = owned h - {(a, l)}
     else p = 0 \<and> h' = h \<or>
       p \<noteq> 0 \<and> (\<exists>l'\<ge>n. (p, l') \<notin> owned h - {(a, l)} \<and> owned h' = insert (p, l') (owned h - {(a, l)}) \<and>
         (\<forall>i<min l n. ram h' (p + i) = ram h (a + i))))"
proof (cases "n = 0 \<or> 0xFFFFFFF8 < n")
  case True
  then show ?thesis using rt_realloc_ok [OF assms(1,2) refl, of n] RT_ALIGN_zero [OF assms(3)] by auto
next
  case False
  then have n: "n \<le> RT_ALIGN n" "RT_ALIGN n \<noteq> 0" using req_facts(3) [of n] RT_ALIGN_zero [OF assms(3)] by auto
  with rt_realloc_ok [OF assms(1,2) refl, of n] obtain p h' where h': "rt_realloc a n h = Some (p, h')" "heap_ok h'"
    "same_bytes (owned h - {(a, l)}) h h'" and p: "p = 0 \<and> h' = h \<or>
       p \<noteq> 0 \<and> (\<exists>l'\<ge>RT_ALIGN n. (p, l') \<notin> owned h - {(a, l)} \<and> owned h' = insert (p, l') (owned h - {(a, l)}) \<and>
         (\<forall>i<min l (RT_ALIGN n). ram h' (p + i) = ram h (a + i)))" by auto
  have "\<exists>l'\<ge>n. (p, l') \<notin> owned h - {(a, l)} \<and> owned h' = insert (p, l') (owned h - {(a, l)}) \<and> (\<forall>i<min l n. ram h' (p + i) = ram h (a + i))"
    if "p \<noteq> 0"
  proof -
    from p that obtain l' where "RT_ALIGN n \<le> l'" "(p, l') \<notin> owned h - {(a, l)}" "owned h' = insert (p, l') (owned h - {(a, l)})"
      "\<forall>i<min l (RT_ALIGN n). ram h' (p + i) = ram h (a + i)" by blast
    then show ?thesis using n by (intro exI [of _ l']) auto
  qed
  then show ?thesis using False h' p by auto
qed

theorem rt_realloc_correct_witness:
  "(\<exists>p h'. rt_realloc 0x20001010 200 heap2 = Some (p, h') \<and> heap_ok h' \<and> same_bytes (owned heap2 - {(0x20001010, 104)}) heap2 h' \<and>
    (p = 0 \<and> h' = heap2 \<or>
     p \<noteq> 0 \<and> (\<exists>l'\<ge>200. (p, l') \<notin> owned heap2 - {(0x20001010, 104)} \<and> owned h' = insert (p, l') (owned heap2 - {(0x20001010, 104)}) \<and>
       (\<forall>i<min 104 200. ram h' (p + i) = ram heap2 (0x20001010 + i))))) \<and>
   (\<exists>h'. rt_realloc 0x20001010 0 heap2 = Some (0, h') \<and> heap_ok h' \<and> owned h' = {})"
proof
  show "\<exists>p h'. rt_realloc 0x20001010 200 heap2 = Some (p, h') \<and> heap_ok h' \<and> same_bytes (owned heap2 - {(0x20001010, 104)}) heap2 h' \<and>
    (p = 0 \<and> h' = heap2 \<or>
     p \<noteq> 0 \<and> (\<exists>l'\<ge>200. (p, l') \<notin> owned heap2 - {(0x20001010, 104)} \<and> owned h' = insert (p, l') (owned heap2 - {(0x20001010, 104)}) \<and>
       (\<forall>i<min 104 200. ram h' (p + i) = ram heap2 (0x20001010 + i))))"
    using rt_realloc_correct [OF heap2_owned(1), of "0x20001010" 104 200] heap2_owned(2) by simp
  show "\<exists>h'. rt_realloc 0x20001010 0 heap2 = Some (0, h') \<and> heap_ok h' \<and> owned h' = {}"
    using rt_realloc_correct [OF heap2_owned(1), of "0x20001010" 104 0] heap2_owned(2) by auto
qed

section \<open>Memory that cannot be had\<close>

text \<open>A size in the last seven of the range wraps around to 0 and is served with 16 bytes.\<close>

lemma rt_malloc_wraps:
  assumes "0xFFFFFFF8 < n" "n < 2 ^ 32"
  shows "rt_malloc n h = rt_malloc 16 h \<or> mem_size_aligned h < 16"
  using assms(1) RT_ALIGN_zero [OF assms(2)] by (auto simp: rt_malloc_def RT_ALIGN_def Let_def)

text \<open>
  \<open>rt_calloc\<close> clears the size that was asked for, not the size it got: for \<open>0xFFFFFFF9\<close> bytes it takes a
  block of 16 and then writes over nearly 4 GB that follow.
\<close>

lemma rt_calloc_overruns:
  assumes "heap_ok h" "16 \<le> mem_size_aligned h" "rt_malloc 16 h = Some (p, h1)" "p \<noteq> 0"
  shows "\<exists>h'. rt_calloc 1 0xFFFFFFF9 h = Some (p, h') \<and> (\<forall>x. p \<le> x \<and> x < p + 0xFFFFFFF9 \<longrightarrow> ram h' x = 0)"
proof -
  have "rt_malloc 0xFFFFFFF9 h = Some (p, h1)" using rt_malloc_wraps [of "0xFFFFFFF9" h] assms(2,3) by auto
  then show ?thesis using assms(4) by (auto simp: rt_calloc_def rt_memset_exact poke_def intro!: nth_replicate)
qed

text \<open>
  \<open>rt_realloc\<close> to a smaller size does not lower \<open>lfree\<close>. When the heap is full and a block
  between two others in use is shrunk, the freed rest, although merged into the chain as a free
  block of any size, cannot be allocated: every \<open>rt_malloc\<close> still returns \<open>RT_NULL\<close>.
\<close>

theorem realloc_rest_lost:
  assumes "heap_ok h" "lfree h = heap_end h" "(a, l) \<in> owned h" "(a + l + 16, l') \<in> owned h"
    and "m = RT_ALIGN n" "0 < m" "m + 28 < l"
  shows "\<exists>h'. rt_realloc a n h = Some (a, h') \<and> (False, l - m) \<in> set (heap_blocks h') \<and> (\<forall>k. rt_malloc k h' = Some (0, h'))"
proof -
  obtain as k cs h1 where bs: "heap_blocks h = as @ (True, k) # cs" "a = heap_ptr h + blen as + 16" "l = k - 16"
    and m: "m + 48 \<le> k" and e: "rt_realloc a n h = map_option (Pair a) (plug_holes (heap_ptr h + (blen as + (m + 16))) h1)"
    and r1: "heap_rep h1 (as @ (True, m + 16) # (False, k - (m + 16)) # cs)" "same_heap h h1" "lfree h1 = lfree h"
    using realloc_cut [OF assms(1,3,5-7)] by metis
  let ?as = "as @ [(True, m + 16)]"
  have H: "heap_ptr h1 = heap_ptr h" "heap_end h1 = heap_end h" using r1(2) by (simp_all add: same_heap_def)
  note f = heap_ok_facts [OF assms(1)]
  have cs: "cs = [] \<or> fst (hd cs)"
  proof (rule ccontr)
    assume "\<not> ?thesis"
    then obtain j ds where cs: "cs = (False, j) # ds" by (cases cs) auto
    have "(a + l + 16, l') \<in> set (live (heap_ptr h) (heap_blocks h))" using assms(4) by (simp add: owned_def)
    then show False using bs cs f(3) live_bounds [of "a + l + 16" l' "heap_ptr h" as] m
        live_bounds [of "a + l + 16" l' "heap_ptr h + (blen as + (k + j))" ds] by (auto simp: add.assoc)
  qed
  have R: "heap_rep h1 (?as @ (False, k - (m + 16)) # cs)" using r1(1) by simp
  have "plug_holes (heap_ptr h + blen ?as) h1 = Some h1"
  proof -
    have "heap_end h1 = heap_ptr h + (blen ?as + (k - (m + 16) + blen cs))" using R H(1) by (simp add: heap_rep_def)
    then show ?thesis using plug_next_none [OF R cs] plug_prev_none [OF R] heap_rep_reads(2) [OF R] heap_rep_sizes(1) [OF R] H(1)
      by (simp add: plug_holes_def)
  qed
  then have h1: "rt_realloc a n h = Some (a, h1)" using e by simp
  then have ok: "heap_ok h1" using realloc_shrink_ok [OF assms(1,3,5-7)] by auto
  have "lfree h1 = heap_ptr h1 + blen (heap_blocks h1)" using r1(3) assms(2) H heap_ok_facts(6) [OF ok] by simp
  then have "rt_malloc j h1 = Some (0, h1)" for j
    using rt_malloc_search [OF ok, of j "heap_blocks h1" "[]"] by (cases "j = 0") (auto simp: rt_malloc_def Let_def)
  moreover have "(False, l - m) \<in> set (heap_blocks h1)" using heap_rep_blocks [OF R] bs(3) by (simp add: add.commute)
  ultimately show ?thesis using h1 by blast
qed

theorem realloc_rest_lost_witness:
  "\<exists>h'. rt_realloc 0x20001010 40 heap3 = Some (0x20001010, h') \<and> (False, 64) \<in> set (heap_blocks h') \<and> (\<forall>k. rt_malloc k h' = Some (0, h'))"
proof -
  have "RT_ALIGN 40 = 40" by (simp add: RT_ALIGN_def)
  then show ?thesis using realloc_rest_lost [of heap3 "0x20001010" 104 3944 40 40] heap3_owned by simp
qed

end
