(* ===== verification/Kernel.thy ===== *)
theory Kernel
  imports Rtos "HOL-Library.Monad_Syntax"
begin

text \<open>
  The core of the RT-Thread kernel in its single-core configuration with 32 priorities:
  \<open>rt-thread/src/scheduler.c\<close>, \<open>thread.c\<close>, \<open>clock.c\<close>, the thread timers of \<open>timer.c\<close> and the
  blocking semaphores and mutexes of \<open>ipc.c\<close>.

  Threads are numbered. The node \<open>tlist\<close> of a thread links it into at most one list: the ready list
  of a priority, the waiting list of a semaphore or mutex, or the list of dead threads;
  \<open>rt_list_remove\<close> takes it out of whichever list it is in. Interrupts are disabled in the bodies,
  so that a call is one step. A call that fails an assertion or reads through a null pointer is
  \<open>None\<close>. A call that waits returns when its thread is current again: its result is \<open>None\<close> while
  another thread runs, and then what \<open>t_error\<close> holds. Stacks, names and hooks are not modelled.
\<close>

unbundle bit_operations_syntax

abbreviation (input) RT_THREAD_INIT :: u8 where "RT_THREAD_INIT \<equiv> 0"
abbreviation (input) RT_THREAD_READY :: u8 where "RT_THREAD_READY \<equiv> 1"
abbreviation (input) RT_THREAD_SUSPEND :: u8 where "RT_THREAD_SUSPEND \<equiv> 2"
abbreviation (input) RT_THREAD_RUNNING :: u8 where "RT_THREAD_RUNNING \<equiv> 3"
abbreviation (input) RT_THREAD_CLOSE :: u8 where "RT_THREAD_CLOSE \<equiv> 4"
abbreviation (input) RT_THREAD_STAT_MASK :: u8 where "RT_THREAD_STAT_MASK \<equiv> 7"
abbreviation (input) RT_THREAD_STAT_YIELD :: u8 where "RT_THREAD_STAT_YIELD \<equiv> 8"
abbreviation (input) RT_THREAD_PRIORITY_MAX :: nat where "RT_THREAD_PRIORITY_MAX \<equiv> 32"

section \<open>State\<close>

record rt_thread =
  init_priority :: nat
  current_priority :: nat
  number_mask :: u32
  slice :: u32
  remaining_tick :: u32
  stat :: u8
  t_error :: int
  tmr_init :: u32
  tmr_timeout :: u32
  tmr_active :: bool

datatype list_head = Ready nat | SemWait nat | MutexWait nat | Defunct

record ksem =
  ks_value :: u16
  ks_flag :: ipc_flag

record rt_mutex =
  m_value :: u16
  m_owner :: "nat option"
  original_priority :: nat
  hold :: u8
  m_flag :: ipc_flag

record kernel =
  thr :: "nat \<Rightarrow> rt_thread"
  tlist :: "list_head \<Rightarrow> nat list"
  rt_thread_ready_priority_group :: u32
  rt_scheduler_lock_nest :: u16
  rt_current_thread :: "nat option"
  rt_current_priority :: nat
  rt_interrupt_nest :: u8
  rt_tick :: u32
  rt_timer_list :: "nat list"
  ksems :: "nat \<Rightarrow> ksem"
  kmutexes :: "nat \<Rightarrow> rt_mutex"

definition upd_thread :: "nat \<Rightarrow> (rt_thread \<Rightarrow> rt_thread) \<Rightarrow> kernel \<Rightarrow> kernel" where
  "upd_thread t f k = k\<lparr>thr := (thr k)(t := f (thr k t))\<rparr>"

text \<open>The state of a thread without and with the new value; the flags above it are kept.\<close>

definition state_of :: "kernel \<Rightarrow> nat \<Rightarrow> u8" where
  "state_of k t = stat (thr k t) AND RT_THREAD_STAT_MASK"

definition set_state :: "u8 \<Rightarrow> nat \<Rightarrow> kernel \<Rightarrow> kernel" where
  "set_state v t = upd_thread t (\<lambda>x. x\<lparr>stat := v OR (stat x AND NOT RT_THREAD_STAT_MASK)\<rparr>)"

definition prio :: "kernel \<Rightarrow> nat \<Rightarrow> nat" where
  "prio k t = current_priority (thr k t)"

definition rt_list_remove :: "nat \<Rightarrow> kernel \<Rightarrow> kernel" where
  "rt_list_remove t k = k\<lparr>tlist := (\<lambda>l. removeAll t (tlist k l))\<rparr>"

definition list_append :: "list_head \<Rightarrow> nat \<Rightarrow> kernel \<Rightarrow> kernel" where
  "list_append l t k = k\<lparr>tlist := (tlist k)(l := tlist k l @ [t])\<rparr>"

section \<open>scheduler.c\<close>

text \<open>\<open>RBIT\<close>, \<open>CLZ\<close> and \<open>ADDS 1\<close>: one more than the index of the lowest bit that is set, 0 for 0.\<close>

definition rt_ffs :: "u32 \<Rightarrow> nat" where
  "rt_ffs v = (case filter (bit v) [0..<32] of [] \<Rightarrow> 0 | i # _ \<Rightarrow> i + 1)"

definition get_highest_priority_thread :: "kernel \<Rightarrow> nat \<times> nat" where
  "get_highest_priority_thread k =
     (let p = rt_ffs (rt_thread_ready_priority_group k) - 1 in (hd (tlist k (Ready p)), p))"

definition rt_schedule_insert_thread :: "nat \<Rightarrow> kernel \<Rightarrow> kernel" where
  "rt_schedule_insert_thread t k =
     (if rt_current_thread k = Some t then set_state RT_THREAD_RUNNING t k
      else
        let k = set_state RT_THREAD_READY t k;
            k = list_append (Ready (prio k t)) t k
        in k\<lparr>rt_thread_ready_priority_group := rt_thread_ready_priority_group k OR number_mask (thr k t)\<rparr>)"

definition rt_schedule_remove_thread :: "nat \<Rightarrow> kernel \<Rightarrow> kernel" where
  "rt_schedule_remove_thread t k =
     (let k = rt_list_remove t k
      in if tlist k (Ready (prio k t)) = []
         then k\<lparr>rt_thread_ready_priority_group := rt_thread_ready_priority_group k AND NOT (number_mask (thr k t))\<rparr> else k)"

definition rt_schedule :: "kernel \<Rightarrow> kernel option" where
  "rt_schedule k =
     (if rt_scheduler_lock_nest k = 0 \<and> rt_thread_ready_priority_group k \<noteq> 0 then
        do {
          cur \<leftarrow> rt_current_thread k;
          let (hi, hp) = get_highest_priority_thread k;
          let running = (state_of k cur = RT_THREAD_RUNNING);
          let stay = (running \<and> (prio k cur < hp \<or> prio k cur = hp \<and> stat (thr k cur) AND RT_THREAD_STAT_YIELD = 0));
          let need_insert_from_thread = (running \<and> \<not> stay);
          let to_thread = (if stay then cur else hi);
          let k = (if need_insert_from_thread then upd_thread cur (\<lambda>x. x\<lparr>stat := stat x AND NOT RT_THREAD_STAT_YIELD\<rparr>) k else k);
          Some (if to_thread \<noteq> cur then
                  let k = k\<lparr>rt_current_priority := hp, rt_current_thread := Some to_thread\<rparr>;
                      k = (if need_insert_from_thread then rt_schedule_insert_thread cur k else k)
                  in set_state RT_THREAD_RUNNING to_thread (rt_schedule_remove_thread to_thread k)
                else set_state RT_THREAD_RUNNING cur (rt_schedule_remove_thread cur k))
        }
      else Some k)"

definition rt_system_scheduler_init :: "kernel \<Rightarrow> kernel" where
  "rt_system_scheduler_init k =
     k\<lparr>rt_scheduler_lock_nest := 0,
       tlist := (\<lambda>l. case l of Ready p \<Rightarrow> (if p < RT_THREAD_PRIORITY_MAX then [] else tlist k l) | Defunct \<Rightarrow> [] | _ \<Rightarrow> tlist k l),
       rt_thread_ready_priority_group := 0\<rparr>"

text \<open>Without a ready thread the table is read in front of its first entry.\<close>

definition rt_system_scheduler_start :: "kernel \<Rightarrow> kernel option" where
  "rt_system_scheduler_start k =
     (if rt_thread_ready_priority_group k = 0 then None
      else
        let to_thread = fst (get_highest_priority_thread k);
            k = rt_schedule_remove_thread to_thread (k\<lparr>rt_current_thread := Some to_thread\<rparr>)
        in Some (upd_thread to_thread (\<lambda>x. x\<lparr>stat := RT_THREAD_RUNNING\<rparr>) k))"

definition rt_enter_critical :: "kernel \<Rightarrow> kernel" where
  "rt_enter_critical k = k\<lparr>rt_scheduler_lock_nest := rt_scheduler_lock_nest k + 1\<rparr>"

definition rt_exit_critical :: "kernel \<Rightarrow> kernel option" where
  "rt_exit_critical k =
     (let k = k\<lparr>rt_scheduler_lock_nest := rt_scheduler_lock_nest k - 1\<rparr>
      in if sint (rt_scheduler_lock_nest k) \<le> 0 then
           let k = k\<lparr>rt_scheduler_lock_nest := 0\<rparr>
           in if rt_current_thread k \<noteq> None then rt_schedule k else Some k
         else Some k)"

section \<open>The timers of threads, timer.c\<close>

definition rt_timer_stop_k :: "nat \<Rightarrow> kernel \<Rightarrow> kernel" where
  "rt_timer_stop_k t k =
     (if tmr_active (thr k t)
      then upd_thread t (\<lambda>x. x\<lparr>tmr_active := False\<rparr>) (k\<lparr>rt_timer_list := removeAll t (rt_timer_list k)\<rparr>) else k)"

definition rt_timer_set_time_k :: "nat \<Rightarrow> u32 \<Rightarrow> kernel \<Rightarrow> kernel" where
  "rt_timer_set_time_k t n = upd_thread t (\<lambda>x. x\<lparr>tmr_init := n\<rparr>)"

definition rt_timer_start_k :: "nat \<Rightarrow> kernel \<Rightarrow> kernel option" where
  "rt_timer_start_k t k =
     (if tmr_init (thr k t) < RT_TICK_MAX div 2 then
        let k = upd_thread t (\<lambda>x. x\<lparr>tmr_timeout := rt_tick k + tmr_init x, tmr_active := True\<rparr>) k
        in Some (k\<lparr>rt_timer_list := timer_insert (\<lambda>u. tmr_timeout (thr k u)) t (removeAll t (rt_timer_list k))\<rparr>)
      else None)"

section \<open>thread.c\<close>

definition rt_thread_init :: "nat \<Rightarrow> nat \<Rightarrow> u32 \<Rightarrow> kernel \<Rightarrow> kernel option" where
  "rt_thread_init t priority tick k =
     (if priority < RT_THREAD_PRIORITY_MAX then
        Some (k\<lparr>thr := (thr k)(t := \<lparr>init_priority = priority, current_priority = priority, number_mask = 0, slice = tick,
          remaining_tick = tick, stat = RT_THREAD_INIT, t_error = RT_EOK, tmr_init = 0, tmr_timeout = 0, tmr_active = False\<rparr>)\<rparr>)
      else None)"

definition rt_thread_suspend :: "nat \<Rightarrow> kernel \<Rightarrow> (int \<times> kernel) option" where
  "rt_thread_suspend t k =
     (if state_of k t \<noteq> RT_THREAD_READY \<and> state_of k t \<noteq> RT_THREAD_RUNNING then Some (- RT_ERROR, k)
      else if state_of k t = RT_THREAD_RUNNING \<and> rt_current_thread k \<noteq> Some t then None
      else Some (RT_EOK, rt_timer_stop_k t (set_state RT_THREAD_SUSPEND t (rt_schedule_remove_thread t k))))"

definition rt_thread_resume :: "nat \<Rightarrow> kernel \<Rightarrow> int \<times> kernel" where
  "rt_thread_resume t k =
     (if state_of k t \<noteq> RT_THREAD_SUSPEND then (- RT_ERROR, k)
      else (RT_EOK, rt_schedule_insert_thread t (rt_timer_stop_k t (rt_list_remove t k))))"

definition rt_thread_startup :: "nat \<Rightarrow> kernel \<Rightarrow> kernel option" where
  "rt_thread_startup t k =
     (if state_of k t = RT_THREAD_INIT then
        let k = upd_thread t (\<lambda>x. x\<lparr>current_priority := init_priority x, number_mask := push_bit (init_priority x) 1, stat := RT_THREAD_SUSPEND\<rparr>) k;
            k = snd (rt_thread_resume t k)
        in if rt_current_thread k \<noteq> None then rt_schedule k else Some k
      else None)"

definition rt_thread_yield :: "kernel \<Rightarrow> kernel option" where
  "rt_thread_yield k = rt_schedule k"

text \<open>What follows the call of \<open>rt_schedule\<close> in a thread that waits happens when the thread is current again.\<close>

definition when_back :: "nat \<Rightarrow> (kernel \<Rightarrow> 'a \<times> kernel) \<Rightarrow> kernel \<Rightarrow> 'a option \<times> kernel" where
  "when_back t f k = (if rt_current_thread k = Some t then (case f k of (r, k) \<Rightarrow> (Some r, k)) else (None, k))"

definition sleep_over :: "nat \<Rightarrow> kernel \<Rightarrow> int \<times> kernel" where
  "sleep_over t k = (RT_EOK, if t_error (thr k t) = - RT_ETIMEOUT then upd_thread t (\<lambda>x. x\<lparr>t_error := RT_EOK\<rparr>) k else k)"

definition sleep_for :: "nat \<Rightarrow> u32 \<Rightarrow> kernel \<Rightarrow> kernel option" where
  "sleep_for t tick k = do {
     (_, k) \<leftarrow> rt_thread_suspend t k;
     k \<leftarrow> rt_timer_start_k t (rt_timer_set_time_k t tick k);
     rt_schedule k
   }"

definition rt_thread_sleep :: "u32 \<Rightarrow> kernel \<Rightarrow> (int option \<times> kernel) option" where
  "rt_thread_sleep tick k = do {
     t \<leftarrow> rt_current_thread k;
     k \<leftarrow> sleep_for t tick k;
     Some (when_back t (sleep_over t) k)
   }"

text \<open>The second component of the result is what is left in the variable of the caller.\<close>

definition rt_thread_delay_until :: "u32 \<Rightarrow> u32 \<Rightarrow> kernel \<Rightarrow> ((int \<times> u32) option \<times> kernel) option" where
  "rt_thread_delay_until tick inc k = do {
     t \<leftarrow> rt_current_thread k;
     if rt_tick k - tick < inc then do {
       k \<leftarrow> sleep_for t (rt_tick k - tick + inc) k;
       Some (when_back t (\<lambda>k. case sleep_over t k of (r, k) \<Rightarrow> ((r, rt_tick k), k)) k)
     } else Some (Some (RT_EOK, rt_tick k), k)
   }"

text \<open>\<open>rt_thread_control\<close> with \<open>RT_THREAD_CTRL_CHANGE_PRIORITY\<close>.\<close>

definition set_prio :: "nat \<Rightarrow> nat \<Rightarrow> kernel \<Rightarrow> kernel" where
  "set_prio t p = upd_thread t (\<lambda>x. x\<lparr>current_priority := p, number_mask := push_bit p 1\<rparr>)"

definition change_priority :: "nat \<Rightarrow> nat \<Rightarrow> kernel \<Rightarrow> kernel" where
  "change_priority t p k =
     (if state_of k t = RT_THREAD_READY
      then rt_schedule_insert_thread t (set_prio t p (rt_schedule_remove_thread t k))
      else set_prio t p k)"

text \<open>\<open>rt_timer_detach\<close> takes the timer out of its list and does not clear its flag; then the end of a thread that was created on the heap.\<close>

definition rt_timer_detach_k :: "nat \<Rightarrow> kernel \<Rightarrow> kernel" where
  "rt_timer_detach_k t k = k\<lparr>rt_timer_list := removeAll t (rt_timer_list k)\<rparr>"

definition bury :: "nat \<Rightarrow> kernel \<Rightarrow> kernel" where
  "bury t k = k\<lparr>tlist := (tlist k)(Defunct := t # tlist k Defunct)\<rparr>"

definition rt_thread_delete :: "nat \<Rightarrow> kernel \<Rightarrow> kernel" where
  "rt_thread_delete t k =
     (let k = (if state_of k t \<noteq> RT_THREAD_INIT then rt_schedule_remove_thread t k else k);
          k = rt_timer_detach_k t k;
          k = upd_thread t (\<lambda>x. x\<lparr>stat := RT_THREAD_CLOSE\<rparr>) k
      in bury t k)"

text \<open>A thread that is not on the heap (\<open>systemobject\<close>) and has no clean-up function is only detached from the table of objects.\<close>

definition rt_thread_exit :: "bool \<Rightarrow> kernel \<Rightarrow> kernel option" where
  "rt_thread_exit systemobject k = do {
     t \<leftarrow> rt_current_thread k;
     let k = rt_schedule_remove_thread t k;
     let k = upd_thread t (\<lambda>x. x\<lparr>stat := RT_THREAD_CLOSE\<rparr>) k;
     let k = rt_timer_detach_k t k;
     rt_schedule (if systemobject then k else bury t k)
   }"

definition rt_thread_timeout :: "nat \<Rightarrow> kernel \<Rightarrow> kernel option" where
  "rt_thread_timeout t k =
     (if state_of k t = RT_THREAD_SUSPEND then
        let k = upd_thread t (\<lambda>x. x\<lparr>t_error := - RT_ETIMEOUT\<rparr>) k
        in rt_schedule (rt_schedule_insert_thread t (rt_list_remove t k))
      else None)"

section \<open>clock.c\<close>

text \<open>\<open>rt_timer_check\<close>: the head of the list as long as it is due.\<close>

partial_function (option) rt_timer_check :: "kernel \<Rightarrow> kernel option" where
  [code]: "rt_timer_check k =
     (case rt_timer_list k of [] \<Rightarrow> Some k
      | t # ts \<Rightarrow>
          if rt_tick k - tmr_timeout (thr k t) < RT_TICK_MAX div 2 then do {
            k \<leftarrow> rt_thread_timeout t (k\<lparr>rt_timer_list := ts\<rparr>);
            rt_timer_check (upd_thread t (\<lambda>x. x\<lparr>tmr_active := False\<rparr>) k)
          } else Some k)"

definition rt_tick_increase :: "kernel \<Rightarrow> kernel option" where
  "rt_tick_increase k = do {
     let k = k\<lparr>rt_tick := rt_tick k + 1\<rparr>;
     t \<leftarrow> rt_current_thread k;
     let k = upd_thread t (\<lambda>x. x\<lparr>remaining_tick := remaining_tick x - 1\<rparr>) k;
     k \<leftarrow> (if remaining_tick (thr k t) = 0
           then rt_thread_yield (upd_thread t (\<lambda>x. x\<lparr>remaining_tick := slice x, stat := stat x OR RT_THREAD_STAT_YIELD\<rparr>) k)
           else Some k);
     rt_timer_check k
   }"

section \<open>ipc.c\<close>

fun prio_place :: "(nat \<Rightarrow> nat) \<Rightarrow> nat \<Rightarrow> nat list \<Rightarrow> nat list" where
  "prio_place pr t [] = [t]"
| "prio_place pr t (s # ss) = (if pr t < pr s then t # s # ss else s # prio_place pr t ss)"

definition rt_ipc_list_suspend_k :: "list_head \<Rightarrow> nat \<Rightarrow> ipc_flag \<Rightarrow> kernel \<Rightarrow> kernel option" where
  "rt_ipc_list_suspend_k l t flag k = do {
     (_, k) \<leftarrow> rt_thread_suspend t k;
     Some (case flag of
        RT_IPC_FLAG_FIFO \<Rightarrow> list_append l t k
      | RT_IPC_FLAG_PRIO \<Rightarrow> k\<lparr>tlist := (tlist k)(l := prio_place (prio k) t (tlist k l))\<rparr>)
   }"

definition rt_ipc_list_resume :: "list_head \<Rightarrow> kernel \<Rightarrow> kernel" where
  "rt_ipc_list_resume l k = snd (rt_thread_resume (hd (tlist k l)) k)"

partial_function (option) rt_ipc_list_resume_all :: "list_head \<Rightarrow> kernel \<Rightarrow> kernel option" where
  [code]: "rt_ipc_list_resume_all l k =
     (case tlist k l of [] \<Rightarrow> Some k
      | t # _ \<Rightarrow> rt_ipc_list_resume_all l (snd (rt_thread_resume t (upd_thread t (\<lambda>x. x\<lparr>t_error := - RT_ERROR\<rparr>) k))))"

text \<open>\<open>RT_DEBUG_IN_THREAD_CONTEXT\<close>.\<close>

definition in_thread :: "kernel \<Rightarrow> bool" where
  "in_thread k \<longleftrightarrow> rt_current_thread k \<noteq> None \<and> rt_interrupt_nest k = 0"

text \<open>The timer of the waiting thread is started for a positive time.\<close>

definition wait_time :: "nat \<Rightarrow> int \<Rightarrow> kernel \<Rightarrow> kernel option" where
  "wait_time t time k = (if time > 0 then rt_timer_start_k t (rt_timer_set_time_k t (of_int time) k) else Some k)"

definition upd_sem :: "nat \<Rightarrow> (ksem \<Rightarrow> ksem) \<Rightarrow> kernel \<Rightarrow> kernel" where
  "upd_sem s f k = k\<lparr>ksems := (ksems k)(s := f (ksems k s))\<rparr>"

definition rt_sem_init_k :: "nat \<Rightarrow> u32 \<Rightarrow> ipc_flag \<Rightarrow> kernel \<Rightarrow> kernel option" where
  "rt_sem_init_k s v flag k =
     (if v < 0x10000 then Some (k\<lparr>ksems := (ksems k)(s := \<lparr>ks_value = ucast v, ks_flag = flag\<rparr>), tlist := (tlist k)(SemWait s := [])\<rparr>)
      else None)"

definition rt_sem_take_k :: "nat \<Rightarrow> int \<Rightarrow> kernel \<Rightarrow> (int option \<times> kernel) option" where
  "rt_sem_take_k s time k =
     (if ks_value (ksems k s) > 0 then Some (Some RT_EOK, upd_sem s (\<lambda>x. x\<lparr>ks_value := ks_value x - 1\<rparr>) k)
      else if time = 0 then Some (Some (- RT_ETIMEOUT), k)
      else if \<not> in_thread k then None
      else do {
        t \<leftarrow> rt_current_thread k;
        let k = upd_thread t (\<lambda>x. x\<lparr>t_error := RT_EOK\<rparr>) k;
        k \<leftarrow> rt_ipc_list_suspend_k (SemWait s) t (ks_flag (ksems k s)) k;
        k \<leftarrow> wait_time t time k;
        k \<leftarrow> rt_schedule k;
        Some (when_back t (\<lambda>k. (t_error (thr k t), k)) k)
      })"

definition rt_sem_release_k :: "nat \<Rightarrow> kernel \<Rightarrow> kernel option" where
  "rt_sem_release_k s k =
     (if tlist k (SemWait s) \<noteq> [] then rt_schedule (rt_ipc_list_resume (SemWait s) k)
      else Some (upd_sem s (\<lambda>x. x\<lparr>ks_value := ks_value x + 1\<rparr>) k))"

definition rt_sem_reset_k :: "nat \<Rightarrow> u32 \<Rightarrow> kernel \<Rightarrow> kernel option" where
  "rt_sem_reset_k s v k = do {
     k \<leftarrow> rt_ipc_list_resume_all (SemWait s) k;
     rt_schedule (upd_sem s (\<lambda>x. x\<lparr>ks_value := ucast v\<rparr>) k)
   }"

definition upd_mutex :: "nat \<Rightarrow> (rt_mutex \<Rightarrow> rt_mutex) \<Rightarrow> kernel \<Rightarrow> kernel" where
  "upd_mutex m f k = k\<lparr>kmutexes := (kmutexes k)(m := f (kmutexes k m))\<rparr>"

definition rt_mutex_init :: "nat \<Rightarrow> ipc_flag \<Rightarrow> kernel \<Rightarrow> kernel" where
  "rt_mutex_init m flag k =
     k\<lparr>kmutexes := (kmutexes k)(m := \<lparr>m_value = 1, m_owner = None, original_priority = 0xFF, hold = 0, m_flag = flag\<rparr>),
       tlist := (tlist k)(MutexWait m := [])\<rparr>"

text \<open>
  The take is not repeated on \<open>- RT_EINTR\<close>: only a signal sets this error of a waiting thread, and signals
  are not part of the configuration.
\<close>

definition rt_mutex_take :: "nat \<Rightarrow> int \<Rightarrow> kernel \<Rightarrow> (int option \<times> kernel) option" where
  "rt_mutex_take m time k =
     (if \<not> in_thread k then None
      else do {
        t \<leftarrow> rt_current_thread k;
        let k = upd_thread t (\<lambda>x. x\<lparr>t_error := RT_EOK\<rparr>) k;
        if m_owner (kmutexes k m) = Some t then Some (Some RT_EOK, upd_mutex m (\<lambda>x. x\<lparr>hold := hold x + 1\<rparr>) k)
        else if m_value (kmutexes k m) > 0 then
          Some (Some RT_EOK,
            upd_mutex m (\<lambda>x. x\<lparr>m_value := m_value x - 1, m_owner := Some t, original_priority := prio k t, hold := hold x + 1\<rparr>) k)
        else if time = 0 then Some (Some (- RT_ETIMEOUT), upd_thread t (\<lambda>x. x\<lparr>t_error := - RT_ETIMEOUT\<rparr>) k)
        else do {
          ow \<leftarrow> m_owner (kmutexes k m);
          let k = (if prio k t < prio k ow then change_priority ow (prio k t) k else k);
          k \<leftarrow> rt_ipc_list_suspend_k (MutexWait m) t (m_flag (kmutexes k m)) k;
          k \<leftarrow> wait_time t time k;
          k \<leftarrow> rt_schedule k;
          Some (when_back t (\<lambda>k. (t_error (thr k t), k)) k)
        }
      })"

definition rt_mutex_release :: "nat \<Rightarrow> kernel \<Rightarrow> (int \<times> kernel) option" where
  "rt_mutex_release m k =
     (if \<not> in_thread k then None
      else do {
        t \<leftarrow> rt_current_thread k;
        if m_owner (kmutexes k m) \<noteq> Some t then Some (- RT_ERROR, upd_thread t (\<lambda>x. x\<lparr>t_error := - RT_ERROR\<rparr>) k)
        else do {
          let k = upd_mutex m (\<lambda>x. x\<lparr>hold := hold x - 1\<rparr>) k;
          if hold (kmutexes k m) = 0 then do {
            let k = (if original_priority (kmutexes k m) \<noteq> prio k t then change_priority t (original_priority (kmutexes k m)) k else k);
            if tlist k (MutexWait m) \<noteq> [] then do {
              let w = hd (tlist k (MutexWait m));
              let k = upd_mutex m (\<lambda>x. x\<lparr>m_owner := Some w, original_priority := prio k w, hold := hold x + 1\<rparr>) k;
              k \<leftarrow> rt_schedule (rt_ipc_list_resume (MutexWait m) k);
              Some (RT_EOK, k)
            } else
              Some (RT_EOK, upd_mutex m (\<lambda>x. x\<lparr>m_value := m_value x + 1, m_owner := None, original_priority := 0xFF\<rparr>) k)
          } else Some (RT_EOK, k)
        }
      })"

section \<open>Starting the system, components.c, timer.c and idle.c\<close>

text \<open>
  The threads \<open>main\<close>, \<open>timer\<close> and idle are given by their numbers. The thread \<open>main\<close> is created on the
  heap, which at this time has room for it.
\<close>

definition rt_application_init :: "nat \<Rightarrow> kernel \<Rightarrow> kernel option" where
  "rt_application_init t k = do { k \<leftarrow> rt_thread_init t 10 20 k; rt_thread_startup t k }"

definition rt_system_timer_thread_init :: "nat \<Rightarrow> kernel \<Rightarrow> kernel option" where
  "rt_system_timer_thread_init t k = do { k \<leftarrow> rt_thread_init t 4 10 k; rt_thread_startup t k }"

definition rt_thread_idle_init :: "nat \<Rightarrow> kernel \<Rightarrow> kernel option" where
  "rt_thread_idle_init t k = do { k \<leftarrow> rt_thread_init t (RT_THREAD_PRIORITY_MAX - 1) 32 k; rt_thread_startup t k }"

definition rt_system_timer_init :: "kernel \<Rightarrow> kernel" where
  "rt_system_timer_init k = k\<lparr>rt_timer_list := []\<rparr>"

definition rtthread_startup :: "nat \<Rightarrow> nat \<Rightarrow> nat \<Rightarrow> kernel \<Rightarrow> kernel option" where
  "rtthread_startup main_thread timer_thread idle k = do {
     let k = rt_system_scheduler_init (rt_system_timer_init k);
     k \<leftarrow> rt_application_init main_thread k;
     k \<leftarrow> rt_system_timer_thread_init timer_thread k;
     k \<leftarrow> rt_thread_idle_init idle k;
     rt_system_scheduler_start k
   }"

end
