(* ===== verification/KernelProps.thy ===== *)
theory KernelProps
  imports Kernel
begin

text \<open>
  The invariant of the kernel: every thread is in the list its state asks for, the bit map of ready
  priorities agrees with the lists, and the scheduler always picks a thread of the highest priority.
\<close>

unbundle bit_operations_syntax

section \<open>Words\<close>

lemma not_words: "NOT (7 :: u8) = - 8" "NOT (8 :: u8) = - 9"
  by simp_all

lemma mask_set [simp]: "((v :: u8) OR (s AND - 8)) AND 7 = v AND 7"
  unfolding not_words(1) [symmetric] by (simp only: bit.conj_disj_distrib2 and.assoc) simp

lemma mask_yield [simp]: "(s :: u8) AND - 9 AND 7 = s AND 7" "((s :: u8) OR 8) AND 7 = s AND 7"
  unfolding not_words(2) [symmetric] by (simp_all only: and.assoc bit.conj_disj_distrib2) simp_all

lemma same_state: "(s :: u8) AND 7 = v \<Longrightarrow> v OR (s AND - 8) = s"
  unfolding not_words(1) [symmetric] by (auto simp: bit_eq_iff bit_simps simp del: bit.compl_eq_compl_iff)

lemma rt_ffs_0: "rt_ffs 0 = 0"
  by (simp add: rt_ffs_def)

lemma rt_ffs_lowest:
  assumes "v \<noteq> 0"
  shows "bit v (rt_ffs v - 1)" "rt_ffs v - 1 < 32" "\<And>i. bit v i \<Longrightarrow> rt_ffs v - 1 \<le> i"
proof -
  obtain j where j: "bit v j" "j < 32" using assms by (auto simp: bit_eq_iff dest: bit_imp_le_length)
  then obtain i rest where f: "filter (bit v) [0..<32] = i # rest" by (cases "filter (bit v) [0..<32]") (auto simp: filter_empty_conv)
  then have "i \<in> set (filter (bit v) [0..<32])" by simp
  then have i: "bit v i" "i < 32" by simp_all
  have e: "rt_ffs v - 1 = i" using f by (simp add: rt_ffs_def)
  show "bit v (rt_ffs v - 1)" "rt_ffs v - 1 < 32" using i e by simp_all
  fix j
  assume "bit v j"
  then have "j \<in> set (filter (bit v) [0..<32])" by (auto dest: bit_imp_le_length)
  moreover have "sorted (i # rest)" using f sorted_upt sorted_wrt_filter [of "(\<le>)" "[0..<32]" "bit v"] by metis
  ultimately show "rt_ffs v - 1 \<le> j" using f e by auto
qed

section \<open>Reading an updated state\<close>

lemma thr_upd [simp]: "thr (upd_thread t f k) = (thr k)(t := f (thr k t))"
  by (simp add: upd_thread_def)

lemma upd_thread_other [simp]:
  "tlist (upd_thread t f k) = tlist k" "rt_thread_ready_priority_group (upd_thread t f k) = rt_thread_ready_priority_group k"
  "rt_scheduler_lock_nest (upd_thread t f k) = rt_scheduler_lock_nest k" "rt_current_thread (upd_thread t f k) = rt_current_thread k"
  "rt_interrupt_nest (upd_thread t f k) = rt_interrupt_nest k" "rt_tick (upd_thread t f k) = rt_tick k"
  "rt_timer_list (upd_thread t f k) = rt_timer_list k" "ksems (upd_thread t f k) = ksems k" "kmutexes (upd_thread t f k) = kmutexes k"
  by (simp_all add: upd_thread_def)

lemma thr_list [simp]: "thr (rt_list_remove t k) = thr k" "thr (list_append l t k) = thr k"
  by (simp_all add: rt_list_remove_def list_append_def)

lemma list_other [simp]:
  "rt_thread_ready_priority_group (rt_list_remove t k) = rt_thread_ready_priority_group k" "rt_current_thread (rt_list_remove t k) = rt_current_thread k"
  "rt_scheduler_lock_nest (rt_list_remove t k) = rt_scheduler_lock_nest k" "rt_timer_list (rt_list_remove t k) = rt_timer_list k"
  "rt_thread_ready_priority_group (list_append l t k) = rt_thread_ready_priority_group k" "rt_current_thread (list_append l t k) = rt_current_thread k"
  "rt_scheduler_lock_nest (list_append l t k) = rt_scheduler_lock_nest k" "rt_timer_list (list_append l t k) = rt_timer_list k"
  "rt_interrupt_nest (rt_list_remove t k) = rt_interrupt_nest k" "rt_tick (rt_list_remove t k) = rt_tick k" "ksems (rt_list_remove t k) = ksems k"
  "kmutexes (rt_list_remove t k) = kmutexes k" "rt_interrupt_nest (list_append l t k) = rt_interrupt_nest k" "rt_tick (list_append l t k) = rt_tick k"
  "ksems (list_append l t k) = ksems k" "kmutexes (list_append l t k) = kmutexes k"
  by (simp_all add: rt_list_remove_def list_append_def)

lemma tlist_list [simp]:
  "tlist (rt_list_remove t k) l = removeAll t (tlist k l)"
  "tlist (list_append l' t k) l = (if l = l' then tlist k l @ [t] else tlist k l)"
  by (simp_all add: rt_list_remove_def list_append_def)

lemma thread_reads [simp]:
  "state_of (k\<lparr>rt_thread_ready_priority_group := g\<rparr>) = state_of k" "prio (k\<lparr>rt_thread_ready_priority_group := g\<rparr>) = prio k"
  "state_of (k\<lparr>rt_current_thread := c\<rparr>) = state_of k" "prio (k\<lparr>rt_current_thread := c\<rparr>) = prio k"
  "state_of (k\<lparr>rt_current_priority := p\<rparr>) = state_of k" "prio (k\<lparr>rt_current_priority := p\<rparr>) = prio k"
  "state_of (k\<lparr>rt_scheduler_lock_nest := n\<rparr>) = state_of k" "prio (k\<lparr>rt_scheduler_lock_nest := n\<rparr>) = prio k"
  "state_of (k\<lparr>rt_tick := n'\<rparr>) = state_of k" "prio (k\<lparr>rt_tick := n'\<rparr>) = prio k"
  "state_of (k\<lparr>rt_timer_list := ts\<rparr>) = state_of k" "prio (k\<lparr>rt_timer_list := ts\<rparr>) = prio k"
  "state_of (k\<lparr>tlist := q\<rparr>) = state_of k" "prio (k\<lparr>tlist := q\<rparr>) = prio k"
  "state_of (k\<lparr>ksems := ss\<rparr>) = state_of k" "prio (k\<lparr>ksems := ss\<rparr>) = prio k"
  "state_of (k\<lparr>kmutexes := ms\<rparr>) = state_of k" "prio (k\<lparr>kmutexes := ms\<rparr>) = prio k"
  "state_of (rt_list_remove t k) = state_of k" "prio (rt_list_remove t k) = prio k"
  "state_of (list_append l t k) = state_of k" "prio (list_append l t k) = prio k"
  by (simp_all add: state_of_def prio_def fun_eq_iff)

section \<open>The invariant\<close>

definition in_list :: "kernel \<Rightarrow> list_head \<Rightarrow> nat \<Rightarrow> bool" where
  "in_list k l t \<longleftrightarrow> t \<in> set (tlist k l)"

definition alive :: "kernel \<Rightarrow> nat \<Rightarrow> bool" where
  "alive k t \<longleftrightarrow> state_of k t \<in> {RT_THREAD_READY, RT_THREAD_SUSPEND, RT_THREAD_RUNNING}"

text \<open>What holds of one thread.\<close>

definition thread_ok :: "kernel \<Rightarrow> nat \<Rightarrow> bool" where
  "thread_ok k t \<longleftrightarrow>
     (\<forall>l l'. in_list k l t \<and> in_list k l' t \<longrightarrow> l = l') \<and>
     (\<forall>p. in_list k (Ready p) t \<longleftrightarrow> state_of k t = RT_THREAD_READY \<and> prio k t = p) \<and>
     (\<forall>s. in_list k (SemWait s) t \<longrightarrow> state_of k t = RT_THREAD_SUSPEND) \<and>
     (\<forall>m. in_list k (MutexWait m) t \<longrightarrow> state_of k t = RT_THREAD_SUSPEND) \<and>
     (in_list k Defunct t \<longrightarrow> state_of k t = RT_THREAD_CLOSE) \<and>
     (alive k t \<longrightarrow> prio k t < 32 \<and> number_mask (thr k t) = push_bit (prio k t) 1) \<and>
     (t \<in> set (rt_timer_list k) \<longrightarrow> state_of k t = RT_THREAD_SUSPEND \<and> tmr_active (thr k t))"

text \<open>The current thread.\<close>

definition current_ok :: "kernel \<Rightarrow> bool" where
  "current_ok k \<longleftrightarrow> (\<forall>t. state_of k t = RT_THREAD_RUNNING \<longrightarrow> rt_current_thread k = Some t) \<and>
     (\<forall>t. rt_current_thread k = Some t \<longrightarrow> state_of k t \<noteq> RT_THREAD_READY)"

text \<open>What holds of the lists.\<close>

definition lists_ok :: "kernel \<Rightarrow> bool" where
  "lists_ok k \<longleftrightarrow> (\<forall>l. distinct (tlist k l)) \<and> distinct (rt_timer_list k) \<and>
     (\<forall>p<32. bit (rt_thread_ready_priority_group k) p \<longleftrightarrow> tlist k (Ready p) \<noteq> []) \<and>
     (\<forall>s. tlist k (SemWait s) \<noteq> [] \<longrightarrow> ks_value (ksems k s) = 0) \<and>
     (\<forall>m. tlist k (MutexWait m) \<noteq> [] \<longrightarrow> m_owner (kmutexes k m) \<noteq> None)"

definition kernel_inv :: "kernel \<Rightarrow> bool" where
  "kernel_inv k \<longleftrightarrow> (\<forall>t. thread_ok k t) \<and> current_ok k \<and> lists_ok k"

section \<open>Steps that concern one thread\<close>

definition only :: "nat \<Rightarrow> kernel \<Rightarrow> kernel \<Rightarrow> bool" where
  "only u k k' \<longleftrightarrow> (\<forall>t. t \<noteq> u \<longrightarrow> thr k' t = thr k t \<and> (\<forall>l. in_list k' l t \<longleftrightarrow> in_list k l t) \<and>
     (t \<in> set (rt_timer_list k') \<longleftrightarrow> t \<in> set (rt_timer_list k)))"

lemma only_refl [simp]: "only u k k"
  by (simp add: only_def)

lemma only_trans: "only u k k1 \<Longrightarrow> only u k1 k2 \<Longrightarrow> only u k k2"
  by (simp add: only_def)

lemma only_thread_ok: "only u k k' \<Longrightarrow> t \<noteq> u \<Longrightarrow> thread_ok k' t \<longleftrightarrow> thread_ok k t"
  by (simp add: only_def thread_ok_def alive_def state_of_def prio_def)

lemma only_reads: "only u k k' \<Longrightarrow> t \<noteq> u \<Longrightarrow> state_of k' t = state_of k t \<and> prio k' t = prio k t"
  by (simp add: only_def state_of_def prio_def)

lemma only_steps [intro]:
  "only t k (upd_thread t f k)" "only t k (rt_list_remove t k)" "only t k (list_append l t k)" "only t k (set_state v t k)"
  "only t k (k\<lparr>rt_thread_ready_priority_group := g\<rparr>)" "only t k (k\<lparr>rt_timer_list := removeAll t (rt_timer_list k)\<rparr>)"
  by (auto simp: only_def in_list_def set_state_def)

lemma only_remove: "only t k (rt_schedule_remove_thread t k)"
  unfolding rt_schedule_remove_thread_def Let_def by (auto intro: only_trans)

lemma only_insert: "only t k (rt_schedule_insert_thread t k)"
  by (auto simp: rt_schedule_insert_thread_def Let_def only_def in_list_def set_state_def)

lemma only_timer_stop: "only t k (rt_timer_stop_k t k)"
  unfolding rt_timer_stop_k_def by (auto intro: only_trans)

lemma kernel_inv_only:
  assumes "only u k k'" "\<And>t. t \<noteq> u \<Longrightarrow> thread_ok k t" "thread_ok k' u" "current_ok k'" "lists_ok k'"
  shows "kernel_inv k'"
  using assms only_thread_ok [OF assms(1)] unfolding kernel_inv_def by metis

lemma set_state_reads [simp]:
  "state_of (set_state v t k) u = (if u = t then v AND 7 else state_of k u)" "prio (set_state v t k) u = prio k u"
  "tlist (set_state v t k) = tlist k" "rt_current_thread (set_state v t k) = rt_current_thread k" "rt_timer_list (set_state v t k) = rt_timer_list k"
  "number_mask (thr (set_state v t k) u) = number_mask (thr k u)" "tmr_active (thr (set_state v t k) u) = tmr_active (thr k u)"
  "rt_thread_ready_priority_group (set_state v t k) = rt_thread_ready_priority_group k" "ksems (set_state v t k) = ksems k"
  "rt_scheduler_lock_nest (set_state v t k) = rt_scheduler_lock_nest k" "rt_interrupt_nest (set_state v t k) = rt_interrupt_nest k"
  "kmutexes (set_state v t k) = kmutexes k" "rt_tick (set_state v t k) = rt_tick k" "t_error (thr (set_state v t k) u) = t_error (thr k u)"
  by (simp_all add: set_state_def state_of_def prio_def)

lemma lists_ok_set_state [simp]: "lists_ok (set_state v t k) = lists_ok k"
  by (simp add: lists_ok_def)

lemma remove_reads [simp]:
  "thr (rt_schedule_remove_thread t k) = thr k" "tlist (rt_schedule_remove_thread t k) l = removeAll t (tlist k l)"
  "rt_current_thread (rt_schedule_remove_thread t k) = rt_current_thread k" "rt_timer_list (rt_schedule_remove_thread t k) = rt_timer_list k"
  "rt_scheduler_lock_nest (rt_schedule_remove_thread t k) = rt_scheduler_lock_nest k" "ksems (rt_schedule_remove_thread t k) = ksems k"
  "kmutexes (rt_schedule_remove_thread t k) = kmutexes k" "rt_interrupt_nest (rt_schedule_remove_thread t k) = rt_interrupt_nest k"
  "rt_tick (rt_schedule_remove_thread t k) = rt_tick k"
  by (simp_all add: rt_schedule_remove_thread_def Let_def)

lemma remove_state [simp]: "state_of (rt_schedule_remove_thread t k) u = state_of k u" "prio (rt_schedule_remove_thread t k) u = prio k u"
  by (simp_all add: state_of_def prio_def)

lemma bit_push_one: "p < 32 \<Longrightarrow> bit (push_bit p 1 :: u32) q \<longleftrightarrow> q = p"
  by (auto simp: bit_simps)

lemma remove_lists:
  assumes "lists_ok k" "thread_ok k t" "alive k t"
  shows "lists_ok (rt_schedule_remove_thread t k)"
proof -
  let ?k = "rt_schedule_remove_thread t k" and ?p = "prio k t"
  have m: "?p < 32" "number_mask (thr k t) = push_bit ?p 1" using assms(2,3) by (auto simp: thread_ok_def)
  have g: "rt_thread_ready_priority_group ?k =
      (if removeAll t (tlist k (Ready ?p)) = [] then rt_thread_ready_priority_group k AND NOT (push_bit ?p 1) else rt_thread_ready_priority_group k)"
    using m(2) by (simp add: rt_schedule_remove_thread_def Let_def prio_def)
  have b: "bit (rt_thread_ready_priority_group ?k) p \<longleftrightarrow> removeAll t (tlist k (Ready p)) \<noteq> []" if p: "p < 32" for p
  proof (cases "p = ?p")
    case True
    then show ?thesis using assms(1) p m(1) unfolding g by (auto simp: lists_ok_def bit_simps bit_push_one)
  next
    case False
    then have "t \<notin> set (tlist k (Ready p))" using assms(2) by (auto simp: thread_ok_def in_list_def)
    then show ?thesis using assms(1) p m(1) False unfolding g by (auto simp: lists_ok_def bit_simps bit_push_one removeAll_id)
  qed
  moreover have "ks_value (ksems k s) = 0" if "removeAll t (tlist k (SemWait s)) \<noteq> []" for s
    using assms(1) that by (cases "tlist k (SemWait s)") (auto simp: lists_ok_def)
  moreover have "m_owner (kmutexes k s) \<noteq> None" if "removeAll t (tlist k (MutexWait s)) \<noteq> []" for s
    using assms(1) that by (cases "tlist k (MutexWait s)") (auto simp: lists_ok_def)
  ultimately show ?thesis using assms(1) by (auto simp: lists_ok_def distinct_removeAll)
qed

lemma insert_reads:
  assumes "rt_current_thread k \<noteq> Some t"
  shows "tlist (rt_schedule_insert_thread t k) l = (if l = Ready (prio k t) then tlist k l @ [t] else tlist k l)"
    "state_of (rt_schedule_insert_thread t k) u = (if u = t then RT_THREAD_READY else state_of k u)"
    "rt_thread_ready_priority_group (rt_schedule_insert_thread t k) = rt_thread_ready_priority_group k OR number_mask (thr k t)"
  using assms by (simp_all add: rt_schedule_insert_thread_def Let_def)

lemma insert_frame [simp]:
  "prio (rt_schedule_insert_thread t k) u = prio k u" "number_mask (thr (rt_schedule_insert_thread t k) u) = number_mask (thr k u)"
  "tmr_active (thr (rt_schedule_insert_thread t k) u) = tmr_active (thr k u)" "t_error (thr (rt_schedule_insert_thread t k) u) = t_error (thr k u)"
  "rt_current_thread (rt_schedule_insert_thread t k) = rt_current_thread k" "rt_timer_list (rt_schedule_insert_thread t k) = rt_timer_list k"
  "rt_scheduler_lock_nest (rt_schedule_insert_thread t k) = rt_scheduler_lock_nest k" "ksems (rt_schedule_insert_thread t k) = ksems k"
  "kmutexes (rt_schedule_insert_thread t k) = kmutexes k" "rt_interrupt_nest (rt_schedule_insert_thread t k) = rt_interrupt_nest k"
  "rt_tick (rt_schedule_insert_thread t k) = rt_tick k"
  by (simp_all add: rt_schedule_insert_thread_def Let_def prio_def set_state_def)

lemma insert_lists:
  assumes "lists_ok k" "\<And>l. t \<notin> set (tlist k l)" "prio k t < 32" "number_mask (thr k t) = push_bit (prio k t) 1" "rt_current_thread k \<noteq> Some t"
  shows "lists_ok (rt_schedule_insert_thread t k)"
  using assms(1-4) by (auto simp: lists_ok_def insert_reads [OF assms(5)] bit_simps bit_push_one)

lemma insert_thread_ok:
  assumes "\<And>l. t \<notin> set (tlist k l)" "prio k t < 32" "number_mask (thr k t) = push_bit (prio k t) 1" "rt_current_thread k \<noteq> Some t" "t \<notin> set (rt_timer_list k)"
  shows "thread_ok (rt_schedule_insert_thread t k) t"
  using assms(1-3,5) by (auto simp: thread_ok_def in_list_def insert_reads [OF assms(4)] alive_def)

section \<open>rt_schedule\<close>

definition runs_highest :: "kernel \<Rightarrow> bool" where
  "runs_highest k \<longleftrightarrow> (\<exists>c. rt_current_thread k = Some c \<and> state_of k c = RT_THREAD_RUNNING \<and>
     (\<forall>t. state_of k t = RT_THREAD_READY \<longrightarrow> prio k c \<le> prio k t))"

lemma highest_ready:
  assumes "kernel_inv k" "rt_thread_ready_priority_group k \<noteq> 0" "get_highest_priority_thread k = (hi, hp)"
  shows "state_of k hi = RT_THREAD_READY" "prio k hi = hp" "hp < 32" "tlist k (Ready hp) = hi # tl (tlist k (Ready hp))"
    "\<And>t. state_of k t = RT_THREAD_READY \<Longrightarrow> hp \<le> prio k t"
proof -
  note f = rt_ffs_lowest [OF assms(2)]
  have hp: "hp = rt_ffs (rt_thread_ready_priority_group k) - 1" "hi = hd (tlist k (Ready hp))"
    using assms(3) by (auto simp: get_highest_priority_thread_def Let_def)
  show "hp < 32" using f(2) hp by simp
  have l: "lists_ok k" and th: "\<And>t. thread_ok k t" using assms(1) by (auto simp: kernel_inv_def)
  have "tlist k (Ready hp) \<noteq> []" using l f(1,2) hp by (auto simp: lists_ok_def)
  then show "tlist k (Ready hp) = hi # tl (tlist k (Ready hp))" using hp(2) by simp
  then have "in_list k (Ready hp) hi" by (metis in_list_def list.set_intros(1))
  then show "state_of k hi = RT_THREAD_READY" "prio k hi = hp" using th [of hi] by (auto simp: thread_ok_def)
  fix t
  assume t: "state_of k t = RT_THREAD_READY"
  then have "in_list k (Ready (prio k t)) t" "prio k t < 32" using th [of t] by (auto simp: thread_ok_def alive_def)
  then have "bit (rt_thread_ready_priority_group k) (prio k t)" using l by (auto simp: lists_ok_def in_list_def)
  then show "hp \<le> prio k t" using f(3) hp by simp
qed

lemma none_ready:
  assumes "kernel_inv k" "rt_thread_ready_priority_group k = 0"
  shows "state_of k t \<noteq> RT_THREAD_READY"
proof
  assume "state_of k t = RT_THREAD_READY"
  moreover have "thread_ok k t" "lists_ok k" using assms(1) by (auto simp: kernel_inv_def)
  ultimately have "t \<in> set (tlist k (Ready (prio k t)))" "prio k t < 32" by (auto simp: thread_ok_def alive_def in_list_def)
  then show False using \<open>lists_ok k\<close> assms(2) by (auto simp: lists_ok_def)
qed

text \<open>Taking the first thread of a list and making it the current one.\<close>

lemma switch_to:
  assumes "kernel_inv k" "state_of k hi = RT_THREAD_READY" "rt_current_thread k \<noteq> None \<Longrightarrow> state_of k (the (rt_current_thread k)) \<noteq> RT_THREAD_RUNNING"
  shows "kernel_inv (set_state RT_THREAD_RUNNING hi (rt_schedule_remove_thread hi (k\<lparr>rt_current_priority := hp, rt_current_thread := Some hi\<rparr>)))"
    (is "kernel_inv ?k2")
proof -
  let ?k1 = "k\<lparr>rt_current_priority := hp, rt_current_thread := Some hi\<rparr>"
  have th: "\<And>t. thread_ok k t" and l: "lists_ok k" and c: "current_ok k" using assms(1) by (auto simp: kernel_inv_def)
  have k1: "thread_ok ?k1 t = thread_ok k t" "alive ?k1 t = alive k t" "lists_ok ?k1 = lists_ok k" for t
    by (simp_all add: thread_ok_def alive_def lists_ok_def in_list_def state_of_def prio_def)
  have a: "alive k hi" using assms(2) by (simp add: alive_def)
  have o: "only hi ?k1 ?k2" by (rule only_trans [OF only_remove only_steps(4)])
  show ?thesis
  proof (rule kernel_inv_only [OF o])
    show "thread_ok ?k1 t" for t using th k1 by simp
    show "thread_ok ?k2 hi" using th [of hi] assms(2)
      by (auto simp: thread_ok_def in_list_def alive_def)
    show "lists_ok ?k2" using remove_lists [of ?k1 hi] l th a k1 by simp
    show "current_ok ?k2" using c assms(3) by (auto simp: current_ok_def split: if_splits)
  qed
qed

text \<open>Putting the current thread back behind the threads of its priority.\<close>

lemma requeue:
  assumes "kernel_inv k" "rt_current_thread k = Some c" "state_of k c = RT_THREAD_RUNNING" "hi \<noteq> c"
    and k1: "k1 = upd_thread c (\<lambda>x. x\<lparr>stat := stat x AND NOT RT_THREAD_STAT_YIELD\<rparr>) k\<lparr>rt_current_priority := hp, rt_current_thread := Some hi\<rparr>"
  shows "kernel_inv (rt_schedule_insert_thread c k1\<lparr>rt_current_thread := None\<rparr>)" "only c k (rt_schedule_insert_thread c k1)"
    "state_of (rt_schedule_insert_thread c k1) c = RT_THREAD_READY" "prio (rt_schedule_insert_thread c k1) c = prio k c"
proof -
  have th: "\<And>t. thread_ok k t" and l: "lists_ok k" and cu: "current_ok k" using assms(1) by (auto simp: kernel_inv_def)
  have nin: "\<And>l. c \<notin> set (tlist k l)" "c \<notin> set (rt_timer_list k)"
  proof -
    show "c \<notin> set (tlist k l)" for l using th [of c] assms(3) by (cases l) (auto simp: thread_ok_def in_list_def)
    show "c \<notin> set (rt_timer_list k)" using th [of c] assms(3) by (auto simp: thread_ok_def)
  qed
  have m: "prio k c < 32" "number_mask (thr k c) = push_bit (prio k c) 1" using th [of c] assms(3) by (auto simp: thread_ok_def alive_def)
  have p1: "prio k1 c = prio k c" "number_mask (thr k1 c) = number_mask (thr k c)" "tlist k1 = tlist k" "rt_timer_list k1 = rt_timer_list k"
    "rt_current_thread k1 = Some hi" "lists_ok k1 = lists_ok k"
    by (simp_all add: k1 prio_def lists_ok_def)
  have o1: "only c k k1" by (auto simp: k1 only_def in_list_def)
  then show o: "only c k (rt_schedule_insert_thread c k1)" using only_insert by (rule only_trans)
  have c1: "rt_current_thread k1 \<noteq> Some c" using assms(4) p1 by simp
  let ?k2 = "rt_schedule_insert_thread c k1"
  show "state_of ?k2 c = RT_THREAD_READY" "prio ?k2 c = prio k c" using insert_reads(2) [OF c1] p1 by simp_all
  have N: "thread_ok (?k2\<lparr>rt_current_thread := None\<rparr>) t = thread_ok ?k2 t" "lists_ok (?k2\<lparr>rt_current_thread := None\<rparr>) = lists_ok ?k2" for t
    by (simp_all add: thread_ok_def lists_ok_def in_list_def alive_def)
  have o': "only c k (?k2\<lparr>rt_current_thread := None\<rparr>)" using o by (simp add: only_def in_list_def)
  show "kernel_inv (?k2\<lparr>rt_current_thread := None\<rparr>)"
  proof (rule kernel_inv_only [OF o'])
    show "thread_ok (?k2\<lparr>rt_current_thread := None\<rparr>) c" unfolding N by (rule insert_thread_ok) (use nin m p1 c1 in auto)
    show "lists_ok (?k2\<lparr>rt_current_thread := None\<rparr>)" unfolding N by (rule insert_lists) (use l nin m p1 c1 in auto)
    have "state_of k t = RT_THREAD_RUNNING \<longrightarrow> t = c" for t using cu assms(2) by (auto simp: current_ok_def)
    then show "current_ok (?k2\<lparr>rt_current_thread := None\<rparr>)"
      using only_reads [OF o] insert_reads(2) [OF c1] by (auto simp: current_ok_def)
  qed (use th in auto)
qed

lemma stay_same:
  assumes "kernel_inv k" "state_of k c = RT_THREAD_RUNNING"
  shows "set_state RT_THREAD_RUNNING c (rt_schedule_remove_thread c k) = k"
proof -
  have th: "thread_ok k c" and l: "lists_ok k" using assms(1) by (auto simp: kernel_inv_def)
  have nin: "c \<notin> set (tlist k l)" for l using th assms(2) by (cases l) (auto simp: thread_ok_def in_list_def)
  have m: "prio k c < 32" "number_mask (thr k c) = push_bit (prio k c) 1" using th assms(2) by (auto simp: thread_ok_def alive_def)
  have r: "rt_list_remove c k = k" using nin by (cases k) (simp add: rt_list_remove_def)
  have "rt_thread_ready_priority_group k AND NOT (push_bit (prio k c) 1) = rt_thread_ready_priority_group k" if "tlist k (Ready (prio k c)) = []"
    by (rule bit_word_eqI) (use l that m(1) in \<open>auto simp: lists_ok_def bit_simps bit_push_one\<close>)
  then have "rt_schedule_remove_thread c k = k" unfolding rt_schedule_remove_thread_def r Let_def m(2) by auto
  moreover have "set_state RT_THREAD_RUNNING c k = k" using same_state [of "stat (thr k c)" 3] assms(2)
    by (cases k) (simp add: set_state_def upd_thread_def state_of_def)
  ultimately show ?thesis by simp
qed

text \<open>What scheduling leaves alone.\<close>

definition sched_frame :: "kernel \<Rightarrow> kernel \<Rightarrow> bool" where
  "sched_frame k k' \<longleftrightarrow> rt_scheduler_lock_nest k' = rt_scheduler_lock_nest k \<and> ksems k' = ksems k \<and> kmutexes k' = kmutexes k \<and>
     rt_timer_list k' = rt_timer_list k \<and> rt_tick k' = rt_tick k \<and> rt_interrupt_nest k' = rt_interrupt_nest k \<and>
     (\<forall>t. thr k' t = thr k t\<lparr>stat := stat (thr k' t)\<rparr>) \<and>
     (\<forall>l. (\<forall>p. l \<noteq> Ready p) \<longrightarrow> tlist k' l = tlist k l) \<and>
     (\<forall>t. state_of k t \<notin> {RT_THREAD_READY, RT_THREAD_RUNNING} \<longrightarrow> state_of k' t = state_of k t) \<and>
     (\<forall>t. state_of k t \<in> {RT_THREAD_READY, RT_THREAD_RUNNING} \<longrightarrow> state_of k' t \<in> {RT_THREAD_READY, RT_THREAD_RUNNING})"

lemma sched_frame_refl [simp]: "sched_frame k k"
  by (simp add: sched_frame_def)

lemma sched_frame_reads:
  assumes "sched_frame k k'"
  shows "prio k' t = prio k t" "t_error (thr k' t) = t_error (thr k t)" "tmr_active (thr k' t) = tmr_active (thr k t)"
    "tmr_timeout (thr k' t) = tmr_timeout (thr k t)" "number_mask (thr k' t) = number_mask (thr k t)"
    "state_of k' t = RT_THREAD_SUSPEND \<longleftrightarrow> state_of k t = RT_THREAD_SUSPEND"
proof -
  have v: "thr k' t = thr k t\<lparr>stat := stat (thr k' t)\<rparr>" using assms by (simp add: sched_frame_def)
  show "prio k' t = prio k t" "t_error (thr k' t) = t_error (thr k t)" "tmr_active (thr k' t) = tmr_active (thr k t)"
    "tmr_timeout (thr k' t) = tmr_timeout (thr k t)" "number_mask (thr k' t) = number_mask (thr k t)" unfolding prio_def by (subst v, simp)+
  have "state_of k t \<notin> {RT_THREAD_READY, RT_THREAD_RUNNING} \<Longrightarrow> state_of k' t = state_of k t"
    "state_of k t \<in> {RT_THREAD_READY, RT_THREAD_RUNNING} \<Longrightarrow> state_of k' t \<in> {RT_THREAD_READY, RT_THREAD_RUNNING}"
    using assms unfolding sched_frame_def by blast+
  then show "state_of k' t = RT_THREAD_SUSPEND \<longleftrightarrow> state_of k t = RT_THREAD_SUSPEND"
    by (cases "state_of k t \<in> {RT_THREAD_READY, RT_THREAD_RUNNING}") auto
qed

lemma wait_list_frame:
  assumes "kernel_inv k" "state_of k t \<in> {RT_THREAD_READY, RT_THREAD_RUNNING}" "\<forall>p. l \<noteq> Ready p"
  shows "t \<notin> set (tlist k l)"
  using assms by (cases l) (auto simp: kernel_inv_def thread_ok_def in_list_def)

lemma sched_switch_frame:
  assumes "kernel_inv k" "state_of k hi = RT_THREAD_READY"
  shows "sched_frame k (set_state RT_THREAD_RUNNING hi (rt_schedule_remove_thread hi (k\<lparr>rt_current_priority := hp, rt_current_thread := Some hi\<rparr>)))"
    (is "sched_frame k ?k")
proof -
  have "removeAll hi (tlist k l) = tlist k l" if "\<forall>p. l \<noteq> Ready p" for l
    using wait_list_frame [OF assms(1) _ that] assms(2) by (intro removeAll_id) auto
  moreover have "thr ?k t = thr k t\<lparr>stat := stat (thr ?k t)\<rparr>" for t
    by (simp add: set_state_def)
  ultimately show ?thesis using assms(2) unfolding sched_frame_def by auto
qed

lemma requeue_frame:
  assumes "kernel_inv k" "rt_current_thread k = Some c" "state_of k c = RT_THREAD_RUNNING" "hi \<noteq> c"
    and k1: "k1 = upd_thread c (\<lambda>x. x\<lparr>stat := stat x AND NOT RT_THREAD_STAT_YIELD\<rparr>) k\<lparr>rt_current_priority := hp, rt_current_thread := Some hi\<rparr>"
  shows "sched_frame k (rt_schedule_insert_thread c k1)"
proof -
  have c1: "rt_current_thread k1 \<noteq> Some c" using assms(4) by (simp add: k1)
  have "thr (rt_schedule_insert_thread c k1) t = thr k t\<lparr>stat := stat (thr (rt_schedule_insert_thread c k1) t)\<rparr>" for t
    using c1 by (auto simp: rt_schedule_insert_thread_def Let_def set_state_def k1)
  moreover have "state_of (rt_schedule_insert_thread c k1) t = (if t = c then RT_THREAD_READY else state_of k t)" for t
    using insert_reads(2) [OF c1] by (simp add: k1 state_of_def)
  ultimately show ?thesis using insert_reads(1) [OF c1] assms(3) unfolding sched_frame_def by (auto simp: k1)
qed

lemma sched_frame_trans: "sched_frame k k1 \<Longrightarrow> sched_frame k1 k2 \<Longrightarrow> sched_frame k k2"
proof -
  assume a: "sched_frame k k1" "sched_frame k1 k2"
  have "thr k2 t = thr k t\<lparr>stat := stat (thr k2 t)\<rparr>" for t
  proof -
    have "thr k2 t = thr k1 t\<lparr>stat := stat (thr k2 t)\<rparr>" "thr k1 t = thr k t\<lparr>stat := stat (thr k1 t)\<rparr>" using a by (auto simp: sched_frame_def)
    then have "thr k2 t = thr k t\<lparr>stat := stat (thr k1 t)\<rparr>\<lparr>stat := stat (thr k2 t)\<rparr>" by metis
    then show ?thesis by simp
  qed
  moreover have "state_of k2 t = state_of k t" if "state_of k t \<notin> {RT_THREAD_READY, RT_THREAD_RUNNING}" for t
    using a that by (auto simp: sched_frame_def)
  moreover have "state_of k2 t \<in> {RT_THREAD_READY, RT_THREAD_RUNNING}" if "state_of k t \<in> {RT_THREAD_READY, RT_THREAD_RUNNING}" for t
    using a that unfolding sched_frame_def by blast
  moreover have "tlist k2 l = tlist k l" if "\<forall>p. l \<noteq> Ready p" for l using a that by (simp add: sched_frame_def)
  ultimately show ?thesis using a unfolding sched_frame_def by simp
qed

text \<open>The three ways \<open>rt_schedule\<close> ends.\<close>

lemma rt_schedule_cases:
  assumes "rt_current_thread k = Some c"
  obtains "rt_scheduler_lock_nest k \<noteq> 0 \<or> rt_thread_ready_priority_group k = 0" "rt_schedule k = Some k"
  | hi hp where "rt_scheduler_lock_nest k = 0" "rt_thread_ready_priority_group k \<noteq> 0" "get_highest_priority_thread k = (hi, hp)"
      "state_of k c = RT_THREAD_RUNNING" "prio k c \<le> hp"
      "rt_schedule k = Some (set_state RT_THREAD_RUNNING c (rt_schedule_remove_thread c k))"
  | hi hp where "rt_scheduler_lock_nest k = 0" "rt_thread_ready_priority_group k \<noteq> 0" "get_highest_priority_thread k = (hi, hp)"
      "state_of k c \<noteq> RT_THREAD_RUNNING" "hi = c" "rt_schedule k = Some (set_state RT_THREAD_RUNNING c (rt_schedule_remove_thread c k))"
  | hi hp where "rt_scheduler_lock_nest k = 0" "rt_thread_ready_priority_group k \<noteq> 0" "get_highest_priority_thread k = (hi, hp)"
      "state_of k c \<noteq> RT_THREAD_RUNNING" "hi \<noteq> c"
      "rt_schedule k = Some (set_state RT_THREAD_RUNNING hi (rt_schedule_remove_thread hi (k\<lparr>rt_current_priority := hp, rt_current_thread := Some hi\<rparr>)))"
  | hi hp k1 where "rt_scheduler_lock_nest k = 0" "rt_thread_ready_priority_group k \<noteq> 0" "get_highest_priority_thread k = (hi, hp)"
      "state_of k c = RT_THREAD_RUNNING" "hp \<le> prio k c"
      "hi \<noteq> c \<Longrightarrow> k1 = upd_thread c (\<lambda>x. x\<lparr>stat := stat x AND NOT RT_THREAD_STAT_YIELD\<rparr>) k\<lparr>rt_current_priority := hp, rt_current_thread := Some hi\<rparr>"
      "hi \<noteq> c \<Longrightarrow> rt_schedule k = Some (set_state RT_THREAD_RUNNING hi (rt_schedule_remove_thread hi (rt_schedule_insert_thread c k1)))"
proof -
  obtain hi hp where g: "get_highest_priority_thread k = (hi, hp)" by fastforce
  consider "rt_scheduler_lock_nest k \<noteq> 0 \<or> rt_thread_ready_priority_group k = 0"
    | "rt_scheduler_lock_nest k = 0" "rt_thread_ready_priority_group k \<noteq> 0" "state_of k c = RT_THREAD_RUNNING"
      "prio k c < hp \<or> prio k c = hp \<and> stat (thr k c) AND RT_THREAD_STAT_YIELD = 0"
    | "rt_scheduler_lock_nest k = 0" "rt_thread_ready_priority_group k \<noteq> 0" "state_of k c \<noteq> RT_THREAD_RUNNING"
    | "rt_scheduler_lock_nest k = 0" "rt_thread_ready_priority_group k \<noteq> 0" "state_of k c = RT_THREAD_RUNNING"
      "\<not> (prio k c < hp \<or> prio k c = hp \<and> stat (thr k c) AND RT_THREAD_STAT_YIELD = 0)" by blast
  then show thesis
  proof cases
    case 1
    then show ?thesis by (intro that(1)) (auto simp: rt_schedule_def)
  next
    case 2
    then show ?thesis using g assms by (intro that(2) [of hi hp]) (auto simp: rt_schedule_def Let_def)
  next
    case 3
    show ?thesis
    proof (cases "hi = c")
      case True
      then show ?thesis using 3 g assms by (intro that(3) [of hi hp]) (auto simp: rt_schedule_def Let_def)
    next
      case False
      then show ?thesis using 3 g assms by (intro that(4) [of hi hp]) (auto simp: rt_schedule_def Let_def)
    qed
  next
    case 4
    then have "rt_schedule k = Some (set_state RT_THREAD_RUNNING hi (rt_schedule_remove_thread hi (rt_schedule_insert_thread c
        (upd_thread c (\<lambda>x. x\<lparr>stat := stat x AND NOT RT_THREAD_STAT_YIELD\<rparr>) k\<lparr>rt_current_priority := hp, rt_current_thread := Some hi\<rparr>))))"
      if "hi \<noteq> c" using that g assms by (auto simp: rt_schedule_def Let_def)
    then show ?thesis using 4 g by (intro that(5) [of hi hp]) auto
  qed
qed

lemma rt_schedule_ok:
  assumes "kernel_inv k" "rt_current_thread k = Some c"
  shows "\<exists>k'. rt_schedule k = Some k' \<and> kernel_inv k' \<and> sched_frame k k' \<and> rt_current_thread k' \<noteq> None \<and>
    (rt_scheduler_lock_nest k = 0 \<and> (state_of k c = RT_THREAD_RUNNING \<or> rt_thread_ready_priority_group k \<noteq> 0) \<longrightarrow> runs_highest k')"
  using assms(2)
proof (cases rule: rt_schedule_cases)
  case 1
  have "runs_highest k" if "rt_thread_ready_priority_group k = 0" "state_of k c = RT_THREAD_RUNNING"
    using that none_ready [OF assms(1)] assms(2) by (auto simp: runs_highest_def)
  then show ?thesis using 1 assms by auto
next
  case (2 hi hp)
  have "runs_highest k" using highest_ready(5) [OF assms(1) 2(2,3)] 2(4,5) assms(2) by (force simp: runs_highest_def)
  then show ?thesis using 2 stay_same [OF assms(1) 2(4)] assms by auto
next
  case (3 hi hp)
  then show ?thesis using highest_ready(1) [OF assms(1) 3(2,3)] assms by (auto simp: kernel_inv_def current_ok_def)
next
  case (4 hi hp)
  note h = highest_ready [OF assms(1) 4(2,3)]
  let ?k = "set_state RT_THREAD_RUNNING hi (rt_schedule_remove_thread hi (k\<lparr>rt_current_priority := hp, rt_current_thread := Some hi\<rparr>))"
  have "kernel_inv ?k" by (rule switch_to) (use assms h(1) 4(4) in auto)
  moreover have "runs_highest ?k" using h(2,5) by (auto simp: runs_highest_def)
  ultimately show ?thesis using 4(6) sched_switch_frame [OF assms(1) h(1)] by auto
next
  case (5 hi hp k1)
  note h = highest_ready [OF assms(1) 5(2,3)]
  have hc: "hi \<noteq> c" using h(1) 5(4) by auto
  note k1 = 5(6) [OF hc] and r = requeue [OF assms 5(4) hc 5(6) [OF hc]]
  let ?k2 = "rt_schedule_insert_thread c k1" and ?kn = "rt_schedule_insert_thread c k1\<lparr>rt_current_thread := None\<rparr>"
  have e: "?kn\<lparr>rt_current_priority := hp, rt_current_thread := Some hi\<rparr> = ?k2"
    using hc by (simp add: rt_schedule_insert_thread_def k1 Let_def set_state_def list_append_def upd_thread_def)
  have hi2: "state_of ?k2 hi = RT_THREAD_READY" "prio ?k2 hi = hp" using only_reads [OF r(2), of hi] hc h(1,2) by auto
  let ?k = "set_state RT_THREAD_RUNNING hi (rt_schedule_remove_thread hi ?k2)"
  have "kernel_inv ?k" using switch_to [of ?kn hi hp, unfolded e] r(1) hi2 by simp
  moreover have "prio ?k2 hi \<le> prio ?k2 t" if "state_of ?k2 t = RT_THREAD_READY" for t
    using that h(5) [of t] 5(5) only_reads [OF r(2), of t] r(4) hi2(2) by (cases "t = c") auto
  then have "runs_highest ?k" using k1 by (auto simp: runs_highest_def)
  moreover have "sched_frame ?kn ?k" using sched_switch_frame [of ?kn hi hp, unfolded e] r(1) hi2 by simp
  then have "sched_frame ?k2 ?k" by (simp add: sched_frame_def)
  then have "sched_frame k ?k" using requeue_frame [OF assms 5(4) hc k1] sched_frame_trans by blast
  moreover have "rt_current_thread ?k = Some hi" using k1 by simp
  ultimately show ?thesis using 5(7) [OF hc] by auto
qed

section \<open>Suspending and resuming\<close>

text \<open>Changes of a thread that the invariant does not speak about.\<close>

definition harmless :: "(rt_thread \<Rightarrow> rt_thread) \<Rightarrow> bool" where
  "harmless f \<longleftrightarrow> (\<forall>x. stat (f x) AND 7 = stat x AND 7 \<and> current_priority (f x) = current_priority x \<and>
     number_mask (f x) = number_mask x \<and> tmr_active (f x) = tmr_active x)"

lemma harmless_upd [simp]:
  "harmless (\<lambda>x. x\<lparr>t_error := e\<rparr>)" "harmless (\<lambda>x. x\<lparr>tmr_init := n\<rparr>)" "harmless (\<lambda>x. x\<lparr>remaining_tick := remaining_tick x - 1\<rparr>)"
  "harmless (\<lambda>x. x\<lparr>remaining_tick := slice x, stat := stat x OR RT_THREAD_STAT_YIELD\<rparr>)"
  by (simp_all add: harmless_def)

lemma harmless_reads:
  assumes "harmless f"
  shows "state_of (upd_thread t f k) = state_of k" "prio (upd_thread t f k) = prio k" "number_mask (thr (upd_thread t f k) u) = number_mask (thr k u)"
    "tmr_active (thr (upd_thread t f k) u) = tmr_active (thr k u)"
  using assms by (auto simp: harmless_def state_of_def prio_def)

lemma harmless_inv:
  assumes "harmless f"
  shows "kernel_inv (upd_thread t f k) = kernel_inv k" "runs_highest (upd_thread t f k) = runs_highest k"
  unfolding kernel_inv_def thread_ok_def current_ok_def lists_ok_def alive_def in_list_def runs_highest_def
  by (simp_all only: harmless_reads [OF assms] upd_thread_other)

lemma timer_stop_reads [simp]:
  "state_of (rt_timer_stop_k t k) = state_of k" "prio (rt_timer_stop_k t k) = prio k" "tlist (rt_timer_stop_k t k) = tlist k"
  "rt_current_thread (rt_timer_stop_k t k) = rt_current_thread k" "number_mask (thr (rt_timer_stop_k t k) u) = number_mask (thr k u)"
  "rt_thread_ready_priority_group (rt_timer_stop_k t k) = rt_thread_ready_priority_group k" "ksems (rt_timer_stop_k t k) = ksems k"
  "rt_scheduler_lock_nest (rt_timer_stop_k t k) = rt_scheduler_lock_nest k" "kmutexes (rt_timer_stop_k t k) = kmutexes k"
  "rt_interrupt_nest (rt_timer_stop_k t k) = rt_interrupt_nest k" "rt_tick (rt_timer_stop_k t k) = rt_tick k"
  "t_error (thr (rt_timer_stop_k t k) u) = t_error (thr k u)"
  by (auto simp: rt_timer_stop_k_def state_of_def prio_def fun_eq_iff)

lemma timer_stop_list:
  assumes "t \<in> set (rt_timer_list k) \<Longrightarrow> tmr_active (thr k t)"
  shows "rt_timer_list (rt_timer_stop_k t k) = removeAll t (rt_timer_list k)"
  using assms by (cases "t \<in> set (rt_timer_list k)") (auto simp: rt_timer_stop_k_def removeAll_id)

lemma thread_ok_timer: "thread_ok k t \<Longrightarrow> t \<in> set (rt_timer_list k) \<Longrightarrow> tmr_active (thr k t)"
  by (simp add: thread_ok_def)

text \<open>A thread that is in no list, suspended and without a timer.\<close>

definition parked :: "kernel \<Rightarrow> nat \<Rightarrow> bool" where
  "parked k t \<longleftrightarrow> state_of k t = RT_THREAD_SUSPEND \<and> (\<forall>l. t \<notin> set (tlist k l)) \<and> t \<notin> set (rt_timer_list k)"

lemma suspend_ok:
  assumes "kernel_inv k" "rt_current_thread k = Some t" "state_of k t = RT_THREAD_RUNNING"
  shows "\<exists>k'. rt_thread_suspend t k = Some (RT_EOK, k') \<and> kernel_inv k' \<and> parked k' t \<and> only t k k' \<and> rt_current_thread k' = Some t \<and>
    prio k' = prio k \<and> kmutexes k' = kmutexes k \<and> ksems k' = ksems k \<and> rt_scheduler_lock_nest k' = rt_scheduler_lock_nest k \<and> rt_tick k' = rt_tick k \<and>
    rt_interrupt_nest k' = rt_interrupt_nest k \<and> t_error (thr k' t) = t_error (thr k t) \<and>
    (\<forall>l. tlist k' l = tlist k l) \<and> rt_timer_list k' = rt_timer_list k"
proof -
  let ?k = "rt_timer_stop_k t (set_state RT_THREAD_SUSPEND t (rt_schedule_remove_thread t k))"
  have th: "\<And>t. thread_ok k t" and l: "lists_ok k" and cu: "current_ok k" using assms(1) by (auto simp: kernel_inv_def)
  have nin: "\<And>l. t \<notin> set (tlist k l)" "t \<notin> set (rt_timer_list k)"
  proof -
    show "t \<notin> set (tlist k l)" for l using th [of t] assms(3) by (cases l) (auto simp: thread_ok_def in_list_def)
    show "t \<notin> set (rt_timer_list k)" using th [of t] assms(3) by (auto simp: thread_ok_def)
  qed
  have tl: "rt_timer_list ?k = rt_timer_list k" using nin(2) timer_stop_list [of t "set_state RT_THREAD_SUSPEND t (rt_schedule_remove_thread t k)"] by (simp add: removeAll_id)
  have e: "rt_thread_suspend t k = Some (RT_EOK, ?k)" using assms(2,3) by (simp add: rt_thread_suspend_def)
  have o: "only t k ?k" by (rule only_trans [OF only_trans [OF only_remove only_steps(4)] only_timer_stop])
  have "alive k t" using assms(3) by (simp add: alive_def)
  then have "lists_ok (rt_schedule_remove_thread t k)" using remove_lists l th by blast
  then have "lists_ok ?k" using tl by (auto simp: lists_ok_def)
  moreover have "thread_ok ?k t" using th [of t] nin tl assms(3) by (auto simp: thread_ok_def alive_def in_list_def)
  moreover have "u = t" if "state_of k u = RT_THREAD_RUNNING" for u using cu assms(2) that by (simp add: current_ok_def)
  then have "current_ok ?k" unfolding current_ok_def using assms(2) by auto
  ultimately have "kernel_inv ?k" using kernel_inv_only [OF o] th by blast
  then show ?thesis using e o nin tl assms(2,3) by (auto simp: parked_def fun_eq_iff)
qed

lemma waiting_ok:
  assumes "kernel_inv k" "parked k t" "set q = insert t (set (tlist k l))" "distinct q"
    and "l = SemWait s \<and> ks_value (ksems k s) = 0 \<or> l = MutexWait m \<and> m_owner (kmutexes k m) \<noteq> None"
  shows "kernel_inv (k\<lparr>tlist := (tlist k)(l := q)\<rparr>)"
proof -
  let ?k = "k\<lparr>tlist := (tlist k)(l := q)\<rparr>"
  have o: "only t k ?k" using assms(3) by (auto simp: only_def in_list_def)
  have th: "\<And>t. thread_ok k t" and ls: "lists_ok k" and cu: "current_ok k" using assms(1) by (auto simp: kernel_inv_def)
  have "in_list ?k l' t \<longleftrightarrow> l' = l" for l' using assms(2,3) by (auto simp: in_list_def parked_def)
  then have "thread_ok ?k t" using th [of t] assms(2,5) by (auto simp: thread_ok_def parked_def alive_def)
  moreover have "lists_ok ?k" using ls assms(4,5) by (auto simp: lists_ok_def)
  moreover have "current_ok ?k" using cu by (simp add: current_ok_def)
  ultimately show ?thesis using kernel_inv_only [OF o] th by blast
qed

lemma timer_start_ok:
  assumes "kernel_inv k" "state_of k t = RT_THREAD_SUSPEND" "tmr_init (thr k t) < RT_TICK_MAX div 2"
  shows "\<exists>k'. rt_timer_start_k t k = Some k' \<and> kernel_inv k' \<and> only t k k' \<and> tlist k' = tlist k \<and> state_of k' = state_of k \<and> prio k' = prio k \<and>
    rt_current_thread k' = rt_current_thread k \<and> rt_scheduler_lock_nest k' = rt_scheduler_lock_nest k \<and> ksems k' = ksems k \<and> kmutexes k' = kmutexes k \<and>
    rt_thread_ready_priority_group k' = rt_thread_ready_priority_group k \<and> t_error (thr k' t) = t_error (thr k t) \<and>
    tmr_timeout (thr k' t) = rt_tick k + tmr_init (thr k t) \<and> t \<in> set (rt_timer_list k')"
proof -
  define k1 where "k1 = upd_thread t (\<lambda>x. x\<lparr>tmr_timeout := rt_tick k + tmr_init x, tmr_active := True\<rparr>) k"
  let ?k = "k1\<lparr>rt_timer_list := timer_insert (\<lambda>u. tmr_timeout (thr k1 u)) t (removeAll t (rt_timer_list k))\<rparr>"
  have e: "rt_timer_start_k t k = Some ?k" using assms(3) by (simp add: rt_timer_start_k_def k1_def Let_def)
  have o: "only t k ?k" by (auto simp: only_def in_list_def k1_def)
  have r: "state_of ?k = state_of k" "prio ?k = prio k" by (auto simp: k1_def state_of_def prio_def fun_eq_iff)
  have th: "\<And>t. thread_ok k t" and ls: "lists_ok k" and cu: "current_ok k" using assms(1) by (auto simp: kernel_inv_def)
  have "thread_ok ?k t" using th [of t] assms(2) unfolding thread_ok_def alive_def r in_list_def by (auto simp: k1_def)
  moreover have "lists_ok ?k" using ls by (auto simp: lists_ok_def k1_def distinct_removeAll)
  moreover have "current_ok ?k" using cu unfolding current_ok_def r by (simp add: k1_def)
  ultimately have "kernel_inv ?k" using kernel_inv_only [OF o] th by blast
  then show ?thesis using e o r by (auto simp: k1_def)
qed

text \<open>Putting a suspended thread back, from whatever list it waits in; the current thread just runs on.\<close>

lemma ready_again:
  assumes "kernel_inv k" "state_of k t = RT_THREAD_SUSPEND" and k0: "only t k k0" "rt_current_thread k0 = rt_current_thread k" "ksems k0 = ksems k"
    "rt_thread_ready_priority_group k0 = rt_thread_ready_priority_group k" "\<And>l. tlist k0 l = removeAll t (tlist k l)" "distinct (rt_timer_list k0)"
    "t \<notin> set (rt_timer_list k0)" "prio k0 t = prio k t" "number_mask (thr k0 t) = number_mask (thr k t)" "state_of k0 t = RT_THREAD_SUSPEND"
    "kmutexes k0 = kmutexes k"
  shows "kernel_inv (rt_schedule_insert_thread t k0)"
    and "state_of (rt_schedule_insert_thread t k0) t = (if rt_current_thread k = Some t then RT_THREAD_RUNNING else RT_THREAD_READY)"
proof -
  have th: "\<And>t. thread_ok k t" and ls: "lists_ok k" and cu: "current_ok k" using assms(1) by (auto simp: kernel_inv_def)
  have o: "only t k (rt_schedule_insert_thread t k0)" by (rule only_trans [OF k0(1) only_insert])
  have m: "prio k t < 32" "number_mask (thr k t) = push_bit (prio k t) 1" using th [of t] assms(2) by (auto simp: thread_ok_def alive_def)
  have nin: "t \<notin> set (tlist k0 l)" for l using k0(5) by simp
  have "t \<notin> set (tlist k (Ready p))" for p using th [of t] assms(2) by (auto simp: thread_ok_def in_list_def)
  then have rd: "tlist k0 (Ready p) = tlist k (Ready p)" for p using k0(5) by (simp add: removeAll_id)
  have "ks_value (ksems k s) = 0" if "removeAll t (tlist k (SemWait s)) \<noteq> []" for s
    using ls that by (cases "tlist k (SemWait s)") (auto simp: lists_ok_def)
  moreover have "m_owner (kmutexes k s) \<noteq> None" if "removeAll t (tlist k (MutexWait s)) \<noteq> []" for s
    using ls that by (cases "tlist k (MutexWait s)") (auto simp: lists_ok_def)
  ultimately have l0: "lists_ok k0" using ls k0(3-6,11) rd by (auto simp: lists_ok_def distinct_removeAll)
  have st: "state_of k0 u = state_of k u" for u using only_reads [OF k0(1), of u] k0(10) assms(2) by (cases "u = t") auto
  show "state_of (rt_schedule_insert_thread t k0) t = (if rt_current_thread k = Some t then RT_THREAD_RUNNING else RT_THREAD_READY)"
    using insert_reads(2) [of k0 t t] k0(2) by (simp add: rt_schedule_insert_thread_def)
  show "kernel_inv (rt_schedule_insert_thread t k0)"
  proof (cases "rt_current_thread k = Some t")
    case True
    then have i: "rt_schedule_insert_thread t k0 = set_state RT_THREAD_RUNNING t k0" using k0(2) by (simp add: rt_schedule_insert_thread_def)
    have "thread_ok (set_state RT_THREAD_RUNNING t k0) t" using nin m k0(7-9) by (auto simp: thread_ok_def in_list_def alive_def)
    moreover have "current_ok (set_state RT_THREAD_RUNNING t k0)" using cu True k0(2) st by (auto simp: current_ok_def split: if_splits)
    ultimately show ?thesis using kernel_inv_only [OF o th] l0 i by simp
  next
    case False
    then have c: "rt_current_thread k0 \<noteq> Some t" using k0(2) by simp
    have "thread_ok (rt_schedule_insert_thread t k0) t" by (rule insert_thread_ok) (use nin m k0 c in auto)
    moreover have "lists_ok (rt_schedule_insert_thread t k0)" by (rule insert_lists) (use l0 nin m k0 c in auto)
    moreover have "current_ok (rt_schedule_insert_thread t k0)" using cu False k0(2) insert_reads(2) [OF c] st by (auto simp: current_ok_def)
    ultimately show ?thesis using kernel_inv_only [OF o th] by blast
  qed
qed

lemma resume_ok:
  assumes "kernel_inv k" "state_of k t = RT_THREAD_SUSPEND" "k' = snd (rt_thread_resume t k)"
  shows "kernel_inv k'" "only t k k'" "state_of k' t = (if rt_current_thread k = Some t then RT_THREAD_RUNNING else RT_THREAD_READY)"
    "rt_current_thread k' = rt_current_thread k" "rt_scheduler_lock_nest k' = rt_scheduler_lock_nest k" "ksems k' = ksems k" "kmutexes k' = kmutexes k"
    "\<And>u. prio k' u = prio k u" "\<And>u. t_error (thr k' u) = t_error (thr k u)" "rt_tick k' = rt_tick k" "rt_interrupt_nest k' = rt_interrupt_nest k"
    "\<And>l. \<forall>p. l \<noteq> Ready p \<Longrightarrow> tlist k' l = removeAll t (tlist k l)"
proof -
  let ?k0 = "rt_timer_stop_k t (rt_list_remove t k)"
  have th: "thread_ok k t" and ls: "lists_ok k" using assms(1) by (auto simp: kernel_inv_def)
  have e: "k' = rt_schedule_insert_thread t ?k0" using assms(2,3) by (simp add: rt_thread_resume_def)
  have tl: "rt_timer_list ?k0 = removeAll t (rt_timer_list k)" using thread_ok_timer [OF th] timer_stop_list [of t "rt_list_remove t k"] by simp
  have o: "only t k ?k0" by (rule only_trans [OF only_steps(2) only_timer_stop])
  have "kernel_inv k' \<and> state_of k' t = (if rt_current_thread k = Some t then RT_THREAD_RUNNING else RT_THREAD_READY)"
    unfolding e using ready_again [OF assms(1,2) o] tl ls assms(2) by (simp add: lists_ok_def distinct_removeAll)
  then show "kernel_inv k'" "state_of k' t = (if rt_current_thread k = Some t then RT_THREAD_RUNNING else RT_THREAD_READY)" by auto
  show "only t k k'" unfolding e by (rule only_trans [OF o only_insert])
  show "\<And>l. \<forall>p. l \<noteq> Ready p \<Longrightarrow> tlist k' l = removeAll t (tlist k l)"
    by (cases "rt_current_thread k = Some t") (auto simp: e insert_reads rt_schedule_insert_thread_def)
qed (use assms(2,3) in \<open>simp_all add: rt_thread_resume_def\<close>)

end
