(* ===== verification/KernelCalls.thy ===== *)
theory KernelCalls
  imports KernelProps
begin

text \<open>
  The calls of the kernel on a running system: each of them returns and leaves a running system. If the
  current thread was of the highest priority before, it is so afterwards.
\<close>

unbundle bit_operations_syntax

section \<open>A running system\<close>

text \<open>
  Between two calls: the kernel is intact, the scheduler is not locked, the current thread runs, and
  the idle thread \<open>i\<close> is ready or running.
\<close>

definition in_order :: "nat \<Rightarrow> kernel \<Rightarrow> bool" where
  "in_order i k \<longleftrightarrow> kernel_inv k \<and> rt_scheduler_lock_nest k = 0 \<and> state_of k i \<in> {RT_THREAD_READY, RT_THREAD_RUNNING} \<and>
     (\<exists>c. rt_current_thread k = Some c \<and> state_of k c = RT_THREAD_RUNNING)"

text \<open>
  The same with the promise, where \<open>b\<close> asks for it, that the current thread is of the highest priority.
  The lemmas on the calls hold with and without it: a call that schedules establishes the promise, and a
  call that does not schedule keeps what it finds.
\<close>

definition sys_okb :: "bool \<Rightarrow> nat \<Rightarrow> kernel \<Rightarrow> bool" where
  "sys_okb b i k \<longleftrightarrow> in_order i k \<and> (b \<longrightarrow> runs_highest k)"

abbreviation sys_ok :: "nat \<Rightarrow> kernel \<Rightarrow> bool" where
  "sys_ok \<equiv> sys_okb True"

lemma sys_okD:
  assumes "sys_okb b i k"
  obtains c where "kernel_inv k" "rt_scheduler_lock_nest k = 0" "rt_current_thread k = Some c" "state_of k c = RT_THREAD_RUNNING"
    "state_of k i \<in> {RT_THREAD_READY, RT_THREAD_RUNNING}" "\<And>t. b \<Longrightarrow> state_of k t = RT_THREAD_READY \<Longrightarrow> prio k c \<le> prio k t"
  using assms by (auto simp: sys_okb_def in_order_def runs_highest_def)

lemma sys_okI:
  assumes "kernel_inv k" "rt_scheduler_lock_nest k = 0" "state_of k i \<in> {RT_THREAD_READY, RT_THREAD_RUNNING}" "runs_highest k"
  shows "sys_okb b i k"
  using assms by (auto simp: sys_okb_def in_order_def runs_highest_def)

lemma sys_in_order: "sys_okb b i k \<Longrightarrow> in_order i k"
  by (simp add: sys_okb_def in_order_def)

lemma schedule_sys:
  assumes "kernel_inv k" "rt_current_thread k \<noteq> None" "rt_scheduler_lock_nest k = 0" "state_of k i \<in> {RT_THREAD_READY, RT_THREAD_RUNNING}"
  shows "\<exists>k'. rt_schedule k = Some k' \<and> sys_okb b i k' \<and> sched_frame k k'"
proof -
  obtain c where c: "rt_current_thread k = Some c" using assms(2) by auto
  have "state_of k c = RT_THREAD_RUNNING \<or> rt_thread_ready_priority_group k \<noteq> 0"
  proof (rule ccontr)
    assume n: "\<not> ?thesis"
    then have "state_of k i \<noteq> RT_THREAD_READY" using none_ready [OF assms(1)] by auto
    then have "rt_current_thread k = Some i" "state_of k i = RT_THREAD_RUNNING" using assms(1,4) by (auto simp: kernel_inv_def current_ok_def)
    then show False using n c by auto
  qed
  with rt_schedule_ok [OF assms(1) c] assms(3) obtain k' where k': "rt_schedule k = Some k'" "kernel_inv k'" "sched_frame k k'" "runs_highest k'" by auto
  have "state_of k' i \<in> {RT_THREAD_READY, RT_THREAD_RUNNING}"
    using k'(3) assms(4) unfolding sched_frame_def by blast
  moreover have "rt_scheduler_lock_nest k' = 0" using k'(3) assms(3) by (simp add: sched_frame_def)
  ultimately show ?thesis using k' sys_okI by blast
qed

text \<open>A thread that runs or is ready stays so, and any other state stays as it is.\<close>

definition kept :: "kernel \<Rightarrow> kernel \<Rightarrow> nat \<Rightarrow> bool" where
  "kept k k' t \<longleftrightarrow> (if state_of k t \<in> {RT_THREAD_READY, RT_THREAD_RUNNING} then state_of k' t \<in> {RT_THREAD_READY, RT_THREAD_RUNNING}
     else state_of k' t = state_of k t)"

lemma sched_frame_kept: "sched_frame k k' \<Longrightarrow> kept k k' t"
  unfolding sched_frame_def kept_def by meson

lemma kept_refl [simp]: "kept k k t"
  by (simp add: kept_def)

lemma kept_trans: "kept k k1 t \<Longrightarrow> kept k1 k2 t \<Longrightarrow> kept k k2 t"
  by (auto simp: kept_def split: if_splits)

lemma only_idle: "only t k k' \<Longrightarrow> i \<noteq> t \<Longrightarrow> state_of k' i = state_of k i"
  by (simp add: only_reads)

subsection \<open>Sleeping\<close>

lemma sleep_for_ok:
  assumes "sys_okb b i k" "rt_current_thread k = Some t" "t \<noteq> i" "n < RT_TICK_MAX div 2"
  shows "\<exists>k'. sleep_for t n k = Some k' \<and> sys_okb b i k' \<and> rt_current_thread k' \<noteq> Some t \<and> state_of k' t = RT_THREAD_SUSPEND \<and>
    t \<in> set (rt_timer_list k') \<and> tmr_timeout (thr k' t) = rt_tick k + n"
proof -
  from assms(1,2) have k: "kernel_inv k" "rt_scheduler_lock_nest k = 0" "state_of k t = RT_THREAD_RUNNING" "state_of k i \<in> {RT_THREAD_READY, RT_THREAD_RUNNING}"
    by (auto elim!: sys_okD)
  from suspend_ok [OF k(1) assms(2) k(3)] obtain k1 where k1: "rt_thread_suspend t k = Some (RT_EOK, k1)" "kernel_inv k1" "parked k1 t" "only t k k1"
    "rt_current_thread k1 = Some t" "rt_scheduler_lock_nest k1 = 0" "rt_tick k1 = rt_tick k" using k(2) by auto
  let ?k2 = "rt_timer_set_time_k t n k1"
  have k2: "kernel_inv ?k2" "state_of ?k2 t = RT_THREAD_SUSPEND" "tmr_init (thr ?k2 t) = n" "only t k1 ?k2" "rt_current_thread ?k2 = Some t"
    "rt_scheduler_lock_nest ?k2 = 0" "rt_tick ?k2 = rt_tick k"
    using k1(2,3,5-7) unfolding rt_timer_set_time_k_def by (auto simp: harmless_inv harmless_reads parked_def)
  from timer_start_ok [OF k2(1,2)] k2(3) assms(4) obtain k3 where k3: "rt_timer_start_k t ?k2 = Some k3" "kernel_inv k3" "only t ?k2 k3"
    "state_of k3 = state_of ?k2" "rt_current_thread k3 = Some t" "rt_scheduler_lock_nest k3 = 0" "tmr_timeout (thr k3 t) = rt_tick k + n" "t \<in> set (rt_timer_list k3)"
    using k2(5-7) by auto
  have "only t k k3" using k1(4) k2(4) k3(3) by (metis only_trans)
  then have "state_of k3 i = state_of k i" using assms(3) only_idle by metis
  with schedule_sys [OF k3(2), of i] k3(5,6) k(4) obtain k' where k': "rt_schedule k3 = Some k'" "sys_okb b i k'" "sched_frame k3 k'" by auto
  have s: "state_of k' t = RT_THREAD_SUSPEND" using sched_frame_reads(6) [OF k'(3)] k3(4) k2(2) by simp
  have "rt_current_thread k' \<noteq> Some t" using k'(2) s by (auto elim!: sys_okD)
  moreover have "tmr_timeout (thr k' t) = rt_tick k + n" "t \<in> set (rt_timer_list k')"
    using sched_frame_reads(4) [OF k'(3)] k3(7,8) k'(3) by (auto simp: sched_frame_def)
  ultimately show ?thesis using k1(1) k3(1) k'(1,2) s by (auto simp: sleep_for_def)
qed

subsection \<open>Waiting lists\<close>

lemma prio_place_facts [simp]: "set (prio_place pr t ts) = insert t (set ts)" "distinct (prio_place pr t ts) \<longleftrightarrow> t \<notin> set ts \<and> distinct ts"
  by (induction ts) auto

definition enqueued :: "(nat \<Rightarrow> nat) \<Rightarrow> ipc_flag \<Rightarrow> nat \<Rightarrow> nat list \<Rightarrow> nat list" where
  "enqueued pr flag t q = (case flag of RT_IPC_FLAG_FIFO \<Rightarrow> q @ [t] | RT_IPC_FLAG_PRIO \<Rightarrow> prio_place pr t q)"

text \<open>The current thread goes to a waiting list.\<close>

lemma ipc_suspend_ok:
  assumes "kernel_inv k" "rt_current_thread k = Some t" "state_of k t = RT_THREAD_RUNNING"
    and l: "l = SemWait s \<and> ks_value (ksems k s) = 0 \<or> l = MutexWait m \<and> m_owner (kmutexes k m) \<noteq> None"
  shows "\<exists>k'. rt_ipc_list_suspend_k l t flag k = Some k' \<and> kernel_inv k' \<and> only t k k' \<and> rt_current_thread k' = Some t \<and> state_of k' t = RT_THREAD_SUSPEND \<and>
    (\<forall>l'. tlist k' l' = (if l' = l then enqueued (prio k) flag t (tlist k l) else tlist k l')) \<and> t \<notin> set (rt_timer_list k') \<and>
    prio k' = prio k \<and> kmutexes k' = kmutexes k \<and> ksems k' = ksems k \<and> rt_scheduler_lock_nest k' = rt_scheduler_lock_nest k \<and> rt_tick k' = rt_tick k \<and>
    rt_interrupt_nest k' = rt_interrupt_nest k \<and> t_error (thr k' t) = t_error (thr k t)"
proof -
  from suspend_ok [OF assms(1-3)] obtain k1 where k1: "rt_thread_suspend t k = Some (RT_EOK, k1)" "kernel_inv k1" "parked k1 t" "only t k k1"
    "rt_current_thread k1 = Some t" "prio k1 = prio k" "kmutexes k1 = kmutexes k" "ksems k1 = ksems k" "rt_scheduler_lock_nest k1 = rt_scheduler_lock_nest k"
    "rt_tick k1 = rt_tick k" "rt_interrupt_nest k1 = rt_interrupt_nest k" "t_error (thr k1 t) = t_error (thr k t)" "\<And>l. tlist k1 l = tlist k l" by auto
  let ?q = "enqueued (prio k) flag t (tlist k l)" and ?k = "k1\<lparr>tlist := (tlist k1)(l := enqueued (prio k) flag t (tlist k l))\<rparr>"
  have nt: "t \<notin> set (tlist k l)" "t \<notin> set (rt_timer_list k1)" "state_of k1 t = RT_THREAD_SUSPEND" using k1(3,13) by (auto simp: parked_def)
  have "distinct (tlist k l)" using assms(1) by (simp add: kernel_inv_def lists_ok_def)
  then have q: "set ?q = insert t (set (tlist k1 l))" "distinct ?q" using nt(1) k1(13) by (auto simp: enqueued_def split: ipc_flag.splits)
  have e: "rt_ipc_list_suspend_k l t flag k = Some ?k"
    using k1(1,6,13) by (auto simp: rt_ipc_list_suspend_k_def list_append_def enqueued_def split: ipc_flag.splits)
  have "kernel_inv ?k" using waiting_ok [OF k1(2,3) q, of s m] l k1(7,8) by auto
  moreover have "only t k ?k" by (rule only_trans [OF k1(4)]) (use q in \<open>auto simp: only_def in_list_def\<close>)
  ultimately show ?thesis using e k1 nt by (intro exI [of _ ?k]) auto
qed

lemma wait_time_ok:
  assumes "kernel_inv k" "state_of k t = RT_THREAD_SUSPEND" "time < 0x7FFFFFFF"
  shows "\<exists>k'. wait_time t time k = Some k' \<and> kernel_inv k' \<and> only t k k' \<and> tlist k' = tlist k \<and> state_of k' = state_of k \<and> prio k' = prio k \<and>
    rt_current_thread k' = rt_current_thread k \<and> rt_scheduler_lock_nest k' = rt_scheduler_lock_nest k \<and> ksems k' = ksems k \<and> kmutexes k' = kmutexes k \<and>
    t_error (thr k' t) = t_error (thr k t)"
proof (cases "time > 0")
  case True
  let ?k = "rt_timer_set_time_k t (of_int time) k"
  have "unat (of_int time :: u32) = nat time"
    using True assms(3) by (simp add: unat_eq_nat_uint uint_word_of_int_eq take_bit_int_eq_self)
  then have w: "(of_int time :: u32) < RT_TICK_MAX div 2" using assms(3) True by (simp add: word_less_nat_alt)
  have k: "kernel_inv ?k" "state_of ?k = state_of k" "prio ?k = prio k" "tlist ?k = tlist k" "only t k ?k"
    using assms(1) by (auto simp: rt_timer_set_time_k_def harmless_inv harmless_reads)
  from timer_start_ok [of ?k t] k w assms(2) obtain k' where "rt_timer_start_k t ?k = Some k'" "kernel_inv k'" "only t ?k k'" "tlist k' = tlist k"
    "state_of k' = state_of k" "prio k' = prio k" "rt_current_thread k' = rt_current_thread k" "rt_scheduler_lock_nest k' = rt_scheduler_lock_nest k"
    "ksems k' = ksems k" "kmutexes k' = kmutexes k" "t_error (thr k' t) = t_error (thr k t)" by (auto simp: rt_timer_set_time_k_def)
  then show ?thesis using True only_trans [OF k(5)] by (auto simp: wait_time_def)
qed (use assms in \<open>auto simp: wait_time_def\<close>)

text \<open>The whole of a call that blocks: into the list, the timer, the next thread.\<close>

lemma block_ok:
  assumes "sys_okb b i k" "rt_current_thread k = Some t" "t \<noteq> i" "time < 0x7FFFFFFF"
    and l: "l = SemWait s \<and> ks_value (ksems k s) = 0 \<or> l = MutexWait m \<and> m_owner (kmutexes k m) \<noteq> None"
  shows "\<exists>k1 k2 k'. rt_ipc_list_suspend_k l t flag k = Some k1 \<and> wait_time t time k1 = Some k2 \<and> rt_schedule k2 = Some k' \<and>
    sys_okb b i k' \<and> rt_current_thread k' \<noteq> Some t \<and> state_of k' t = RT_THREAD_SUSPEND \<and> tlist k' l = enqueued (prio k) flag t (tlist k l) \<and>
    kmutexes k' = kmutexes k \<and> ksems k' = ksems k \<and> (\<forall>u. prio k' u = prio k u) \<and> t_error (thr k' t) = t_error (thr k t)"
proof -
  from assms(1,2) have k: "kernel_inv k" "rt_scheduler_lock_nest k = 0" "state_of k t = RT_THREAD_RUNNING" "state_of k i \<in> {RT_THREAD_READY, RT_THREAD_RUNNING}"
    by (auto elim!: sys_okD)
  from ipc_suspend_ok [OF k(1) assms(2) k(3) l, of flag] obtain k1 where k1: "rt_ipc_list_suspend_k l t flag k = Some k1" "kernel_inv k1" "only t k k1"
    "rt_current_thread k1 = Some t" "state_of k1 t = RT_THREAD_SUSPEND" "tlist k1 l = enqueued (prio k) flag t (tlist k l)" "prio k1 = prio k"
    "kmutexes k1 = kmutexes k" "ksems k1 = ksems k" "rt_scheduler_lock_nest k1 = 0" "t_error (thr k1 t) = t_error (thr k t)" using k(2) by auto
  from wait_time_ok [OF k1(2,5) assms(4)] obtain k2 where k2: "wait_time t time k1 = Some k2" "kernel_inv k2" "only t k1 k2" "tlist k2 = tlist k1"
    "state_of k2 = state_of k1" "prio k2 = prio k1" "rt_current_thread k2 = Some t" "rt_scheduler_lock_nest k2 = 0" "ksems k2 = ksems k" "kmutexes k2 = kmutexes k"
    "t_error (thr k2 t) = t_error (thr k t)" using k1(4,8-11) by auto
  have "state_of k2 i = state_of k i" using only_idle [OF only_trans [OF k1(3) k2(3)]] assms(3) by simp
  with schedule_sys [OF k2(2), of i] k2(7,8) k(4) obtain k' where k': "rt_schedule k2 = Some k'" "sys_okb b i k'" "sched_frame k2 k'" by auto
  have s: "state_of k' t = RT_THREAD_SUSPEND" using sched_frame_reads(6) [OF k'(3)] k2(5) k1(5) by simp
  have "rt_current_thread k' \<noteq> Some t" using k'(2) s by (auto elim!: sys_okD)
  moreover have "tlist k' l = tlist k2 l" "ksems k' = ksems k" "kmutexes k' = kmutexes k" using k'(3) l k2(9,10) by (auto simp: sched_frame_def)
  ultimately show ?thesis using k1(1,6,7) k2(1,4,6,11) k'(1,2) s sched_frame_reads(1,2) [OF k'(3)] by auto
qed

subsection \<open>Semaphores\<close>

lemma upd_sem_reads [simp]:
  "thr (upd_sem s f k) = thr k" "tlist (upd_sem s f k) = tlist k" "rt_current_thread (upd_sem s f k) = rt_current_thread k"
  "rt_scheduler_lock_nest (upd_sem s f k) = rt_scheduler_lock_nest k" "state_of (upd_sem s f k) = state_of k" "prio (upd_sem s f k) = prio k"
  "ksems (upd_sem s f k) = (ksems k)(s := f (ksems k s))" "kmutexes (upd_sem s f k) = kmutexes k" "rt_timer_list (upd_sem s f k) = rt_timer_list k"
  "rt_thread_ready_priority_group (upd_sem s f k) = rt_thread_ready_priority_group k"
  by (simp_all add: upd_sem_def)

lemma upd_sem_sys:
  assumes "sys_okb b i k" "tlist k (SemWait s) = []"
  shows "sys_okb b i (upd_sem s f k)"
  using assms unfolding sys_okb_def in_order_def kernel_inv_def thread_ok_def current_ok_def lists_ok_def alive_def in_list_def runs_highest_def
  by (simp add: fun_upd_def)

text \<open>A semaphore of the kernel as the application sees it.\<close>

definition sem_abs :: "kernel \<Rightarrow> nat \<Rightarrow> rt_semaphore" where
  "sem_abs k s = \<lparr>sem_value = ks_value (ksems k s), sem_flag = ks_flag (ksems k s),
     suspend_thread = map (\<lambda>t. mk_waiter t (prio k t)) (tlist k (SemWait s))\<rparr>"

lemma prio_place_map: "map (\<lambda>t. mk_waiter t (pr t)) (prio_place pr t q) = prio_insert (mk_waiter t (pr t)) (map (\<lambda>t. mk_waiter t (pr t)) q)"
  by (induction q) (auto simp: mk_waiter_def)

lemma enqueued_map:
  "map (\<lambda>t. mk_waiter t (pr t)) (enqueued pr flag t q) = rt_ipc_list_suspend (map (\<lambda>t. mk_waiter t (pr t)) q) (mk_waiter t (pr t)) flag"
  by (simp add: enqueued_def rt_ipc_list_suspend_def prio_place_map split: ipc_flag.splits)

lemma sem_take_ok:
  assumes "sys_okb b i k" "rt_current_thread k = Some t" "t \<noteq> i" "rt_interrupt_nest k = 0" "time < 0x7FFFFFFF"
  shows "\<exists>r k'. rt_sem_take_k s time k = Some (r, k') \<and> sys_okb b i k' \<and> (r, sem_abs k' s) = rt_sem_take (mk_waiter t (prio k t)) time (sem_abs k s) \<and>
    (r = None \<longrightarrow> rt_current_thread k' \<noteq> Some t \<and> state_of k' t = RT_THREAD_SUSPEND \<and> t_error (thr k' t) = RT_EOK)"
proof -
  have e: "lists_ok k" using assms(1) by (simp add: sys_okb_def in_order_def kernel_inv_def)
  consider "ks_value (ksems k s) > 0" | "ks_value (ksems k s) = 0" "time = 0" | "ks_value (ksems k s) = 0" "time \<noteq> 0" by (cases "time = 0") (auto simp: word_gt_0)
  then show ?thesis
  proof cases
    case 1
    then have "tlist k (SemWait s) = []" using e by (auto simp: lists_ok_def)
    then show ?thesis using 1 upd_sem_sys [OF assms(1)] by (auto simp: rt_sem_take_k_def rt_sem_take_def sem_abs_def)
  next
    case 2
    then show ?thesis using assms(1) by (auto simp: rt_sem_take_k_def rt_sem_take_def sem_abs_def)
  next
    case 3
    let ?k = "upd_thread t (\<lambda>x. x\<lparr>t_error := RT_EOK\<rparr>) k"
    have k0: "sys_okb b i ?k" "rt_current_thread ?k = Some t" "prio ?k = prio k" "ksems ?k = ksems k"
      using assms(1,2) by (auto simp: sys_okb_def in_order_def harmless_inv harmless_reads)
    from block_ok [OF k0(1,2) assms(3,5), of "SemWait s" s 0 "ks_flag (ksems k s)"] 3(1) k0(3,4) obtain k1 k2 k' where k':
      "rt_ipc_list_suspend_k (SemWait s) t (ks_flag (ksems k s)) ?k = Some k1" "wait_time t time k1 = Some k2" "rt_schedule k2 = Some k'"
      "sys_okb b i k'" "rt_current_thread k' \<noteq> Some t" "state_of k' t = RT_THREAD_SUSPEND" "tlist k' (SemWait s) = enqueued (prio k) (ks_flag (ksems k s)) t (tlist k (SemWait s))"
      "ksems k' = ksems k" "\<And>u. prio k' u = prio k u" "t_error (thr k' t) = RT_EOK" by auto
    then have "rt_sem_take_k s time k = Some (None, k')" using 3 assms(2,4) by (auto simp: rt_sem_take_k_def in_thread_def when_back_def Let_def)
    then show ?thesis using k' 3 by (auto simp: rt_sem_take_def sem_abs_def enqueued_map)
  qed
qed

text \<open>Resuming the first of a waiting list.\<close>

lemma resume_first_sys:
  assumes "in_order i k" "tlist k l = w # ws" "l = SemWait s \<or> l = MutexWait m"
  shows "\<exists>k'. rt_schedule (rt_ipc_list_resume l k) = Some k' \<and> sys_okb b i k' \<and> tlist k' l = ws \<and> state_of k' w \<in> {RT_THREAD_READY, RT_THREAD_RUNNING} \<and>
    ksems k' = ksems k \<and> kmutexes k' = kmutexes k \<and> (\<forall>u. prio k' u = prio k u) \<and> (\<forall>u. t_error (thr k' u) = t_error (thr k u))"
proof -
  from assms(1) obtain c where k: "kernel_inv k" "rt_scheduler_lock_nest k = 0" "rt_current_thread k = Some c" "state_of k c = RT_THREAD_RUNNING"
    "state_of k i \<in> {RT_THREAD_READY, RT_THREAD_RUNNING}" by (auto simp: in_order_def)
  have w: "state_of k w = RT_THREAD_SUSPEND"   proof -
    have "in_list k l w" "thread_ok k w" using k(1) assms(2) by (auto simp: kernel_inv_def in_list_def)
    then show ?thesis using assms(3) by (auto simp: thread_ok_def)
  qed
  let ?k = "snd (rt_thread_resume w k)"
  have rk: "rt_ipc_list_resume l k = ?k" using assms(2) by (simp add: rt_ipc_list_resume_def)
  note r = resume_ok [OF k(1) w refl]
  have wc: "w \<noteq> c" "w \<noteq> i" using w k(4,5) by auto
  have "distinct (w # ws)" using k(1) assms(2) unfolding kernel_inv_def lists_ok_def by metis
  then have ws: "tlist ?k l = ws" using r(12) [of l] assms(2,3) by (auto simp: removeAll_id)
  have "state_of ?k i = state_of k i" using only_idle [OF r(2)] wc by auto
  with schedule_sys [OF r(1), of i] r(4,5) k(2,3,5) obtain k' where k': "rt_schedule ?k = Some k'" "sys_okb b i k'" "sched_frame ?k k'" by auto
  have "state_of ?k w = RT_THREAD_READY" using r(3) k(3) wc by auto
  then have "state_of k' w \<in> {RT_THREAD_READY, RT_THREAD_RUNNING}" using k'(3) unfolding sched_frame_def by blast
  moreover have "tlist k' l = ws" "ksems k' = ksems k" "kmutexes k' = kmutexes k" using k'(3) ws assms(3) r(6,7) by (auto simp: sched_frame_def)
  ultimately show ?thesis using k' rk sched_frame_reads(1,2) [OF k'(3)] r(8,9) by auto
qed

lemma sem_release_ok:
  assumes "sys_okb b i k"
  shows "\<exists>k'. rt_sem_release_k s k = Some k' \<and> sys_okb b i k' \<and> sem_abs k' s = snd (rt_sem_release (sem_abs k s)) \<and>
    (\<forall>w. fst (rt_sem_release (sem_abs k s)) = Some w \<longrightarrow> state_of k' w \<in> {RT_THREAD_READY, RT_THREAD_RUNNING} \<and> t_error (thr k' w) = t_error (thr k w))"
proof (cases "tlist k (SemWait s)")
  case Nil
  then show ?thesis using upd_sem_sys [OF assms Nil] by (auto simp: rt_sem_release_k_def rt_sem_release_def sem_abs_def)
next
  case (Cons w ws)
  from resume_first_sys [where b = b, OF sys_in_order [OF assms] Cons, of s 0] obtain k' where "rt_schedule (rt_ipc_list_resume (SemWait s) k) = Some k'" "sys_okb b i k'" "tlist k' (SemWait s) = ws"
    "state_of k' w \<in> {RT_THREAD_READY, RT_THREAD_RUNNING}" "ksems k' = ksems k" "\<And>u. prio k' u = prio k u" "\<And>u. t_error (thr k' u) = t_error (thr k u)" by auto
  then show ?thesis using Cons by (auto simp: rt_sem_release_k_def rt_sem_release_def sem_abs_def mk_waiter_def)
qed

subsection \<open>Starting a thread\<close>

lemma startup_resumed:
  assumes "kernel_inv k" "state_of k t = RT_THREAD_INIT" "init_priority (thr k t) < 32"
    and k1: "k1 = upd_thread t (\<lambda>x. x\<lparr>current_priority := init_priority x, number_mask := push_bit (init_priority x) 1, stat := RT_THREAD_SUSPEND\<rparr>) k"
    and k2: "k2 = snd (rt_thread_resume t k1)"
  shows "kernel_inv k2" "only t k k2" "state_of k2 t = (if rt_current_thread k = Some t then RT_THREAD_RUNNING else RT_THREAD_READY)"
    "rt_current_thread k2 = rt_current_thread k" "rt_scheduler_lock_nest k2 = rt_scheduler_lock_nest k" "prio k2 t = init_priority (thr k t)"
proof -
  let ?p = "init_priority (thr k t)"
  have th: "\<And>t. thread_ok k t" and ls: "lists_ok k" and cu: "current_ok k" using assms(1) by (auto simp: kernel_inv_def)
  have nin: "\<not> in_list k l t" for l using th [of t] assms(2) by (cases l) (auto simp: thread_ok_def)
  have st: "state_of k1 u = (if u = t then RT_THREAD_SUSPEND else state_of k u)" "prio k1 t = ?p" "number_mask (thr k1 t) = push_bit ?p 1" "tlist k1 = tlist k"
    "rt_timer_list k1 = rt_timer_list k" "rt_current_thread k1 = rt_current_thread k" "rt_scheduler_lock_nest k1 = rt_scheduler_lock_nest k"
    and o1: "only t k k1" and l1: "lists_ok k1 = lists_ok k" for u
    by (auto simp: k1 state_of_def prio_def lists_ok_def)
  have "kernel_inv k1"
  proof (rule kernel_inv_only [OF o1])
    have "t \<notin> set (rt_timer_list k)" using th [of t] assms(2) by (auto simp: thread_ok_def)
    then show "thread_ok k1 t" using nin assms(3) by (auto simp: thread_ok_def alive_def st in_list_def)
    show "lists_ok k1" using ls l1 by simp
    show "current_ok k1" using cu by (auto simp: current_ok_def st split: if_splits)
  qed (use th in auto)
  note r = resume_ok [OF this _ k2, unfolded st(1), simplified]
  show "kernel_inv k2" "state_of k2 t = (if rt_current_thread k = Some t then RT_THREAD_RUNNING else RT_THREAD_READY)"
    "rt_current_thread k2 = rt_current_thread k" "rt_scheduler_lock_nest k2 = rt_scheduler_lock_nest k" "prio k2 t = ?p"
    using r(1,3,4,5,8) st(2,6,7) by auto
  show "only t k k2" using only_trans [OF o1 r(2)] .
qed

lemma thread_startup_ok:
  assumes "sys_okb b i k" "state_of k t = RT_THREAD_INIT" "init_priority (thr k t) < 32"
  shows "\<exists>k'. rt_thread_startup t k = Some k' \<and> sys_okb b i k' \<and> state_of k' t \<in> {RT_THREAD_READY, RT_THREAD_RUNNING} \<and> prio k' t = init_priority (thr k t)"
proof -
  from assms(1) obtain c where k: "kernel_inv k" "rt_scheduler_lock_nest k = 0" "rt_current_thread k = Some c" "state_of k c = RT_THREAD_RUNNING"
    "state_of k i \<in> {RT_THREAD_READY, RT_THREAD_RUNNING}" by (auto elim!: sys_okD)
  define k1 where "k1 = upd_thread t (\<lambda>x. x\<lparr>current_priority := init_priority x, number_mask := push_bit (init_priority x) 1, stat := RT_THREAD_SUSPEND\<rparr>) k"
  let ?k2 = "snd (rt_thread_resume t k1)"
  note r = startup_resumed [OF k(1) assms(2,3) k1_def refl]
  have tc: "t \<noteq> c" "t \<noteq> i" using assms(2) k(4,5) by auto
  have i2: "state_of ?k2 i = state_of k i" using only_idle [OF r(2), of i] tc by simp
  with schedule_sys [OF r(1), of i] r(4,5) k(2,3,5) obtain k' where k': "rt_schedule ?k2 = Some k'" "sys_okb b i k'" "sched_frame ?k2 k'" by auto
  have "state_of ?k2 t = RT_THREAD_READY" using r(3) k(3) tc by auto
  then have "state_of k' t \<in> {RT_THREAD_READY, RT_THREAD_RUNNING}" using k'(3) unfolding sched_frame_def by blast
  moreover have "prio k' t = init_priority (thr k t)" using sched_frame_reads(1) [OF k'(3)] r(6) by simp
  moreover have "rt_thread_startup t k = rt_schedule ?k2" unfolding rt_thread_startup_def Let_def k1_def [symmetric] using assms(2) r(4) k(3) by simp
  ultimately show ?thesis using k' by simp
qed

subsection \<open>Timeouts and ticks\<close>

text \<open>The time that is left on the timer of a thread, and timers in order.\<close>

definition left :: "kernel \<Rightarrow> nat \<Rightarrow> nat" where
  "left k t = unat (tmr_timeout (thr k t) - rt_tick k)"

definition deadlines_ok :: "kernel \<Rightarrow> bool" where
  "deadlines_ok k \<longleftrightarrow> sorted (map (left k) (rt_timer_list k)) \<and> (\<forall>t\<in>set (rt_timer_list k). left k t < 0x7FFFFFFF)"

lemma thread_timeout_ok:
  assumes "kernel_inv k" "rt_scheduler_lock_nest k = 0" "rt_current_thread k = Some c" "state_of k i \<in> {RT_THREAD_READY, RT_THREAD_RUNNING}"
    and t: "rt_timer_list k = t # ts"
  shows "\<exists>k'. rt_thread_timeout t (k\<lparr>rt_timer_list := ts\<rparr>) = Some k' \<and> sys_okb b i k' \<and> rt_timer_list k' = ts \<and> rt_tick k' = rt_tick k \<and>
    state_of k' t \<in> {RT_THREAD_READY, RT_THREAD_RUNNING} \<and> t_error (thr k' t) = - RT_ETIMEOUT \<and>
    (\<forall>u. u \<noteq> t \<longrightarrow> t_error (thr k' u) = t_error (thr k u) \<and> kept k k' u) \<and>
    (\<forall>u. tmr_timeout (thr k' u) = tmr_timeout (thr k u))"
proof -
  have th: "thread_ok k t" and ls: "lists_ok k" using assms(1) by (auto simp: kernel_inv_def)
  have s: "state_of k t = RT_THREAD_SUSPEND" using th t by (simp add: thread_ok_def)
  have d: "t \<notin> set ts" "distinct ts" using ls t by (auto simp: lists_ok_def)
  define k0 where "k0 = rt_list_remove t (upd_thread t (\<lambda>x. x\<lparr>t_error := - RT_ETIMEOUT\<rparr>) (k\<lparr>rt_timer_list := ts\<rparr>))"
  have k0: "only t k k0" "rt_current_thread k0 = rt_current_thread k" "ksems k0 = ksems k" "rt_thread_ready_priority_group k0 = rt_thread_ready_priority_group k"
    "\<And>l. tlist k0 l = removeAll t (tlist k l)" "distinct (rt_timer_list k0)" "t \<notin> set (rt_timer_list k0)" "prio k0 t = prio k t"
    "number_mask (thr k0 t) = number_mask (thr k t)" "state_of k0 t = RT_THREAD_SUSPEND" "kmutexes k0 = kmutexes k"
    using d s t by (auto simp: k0_def only_def in_list_def prio_def state_of_def)
  note r = ready_again [OF assms(1) s k0]
  let ?k1 = "rt_schedule_insert_thread t k0"
  have it: "i \<noteq> t" using s assms(4) by auto
  have o: "only t k ?k1" by (rule only_trans [OF k0(1) only_insert])
  have i1: "state_of ?k1 i = state_of k i" using only_idle [OF o it] .
  have "rt_scheduler_lock_nest ?k1 = 0" using assms(2) by (simp add: k0_def)
  with schedule_sys [OF r(1), of i] k0(2) assms(3,4) i1 obtain k' where k': "rt_schedule ?k1 = Some k'" "sys_okb b i k'" "sched_frame ?k1 k'" by auto
  have "rt_thread_timeout t (k\<lparr>rt_timer_list := ts\<rparr>) = Some k'" using k'(1) s by (simp add: rt_thread_timeout_def k0_def Let_def)
  moreover have "state_of ?k1 t \<in> {RT_THREAD_READY, RT_THREAD_RUNNING}" using r(2) by simp
  then have "state_of k' t \<in> {RT_THREAD_READY, RT_THREAD_RUNNING}" using k'(3) unfolding sched_frame_def by blast
  moreover have "rt_timer_list k' = ts" "rt_tick k' = rt_tick k" using k'(3) by (auto simp: sched_frame_def k0_def)
  moreover have "t_error (thr k' t) = - RT_ETIMEOUT" using sched_frame_reads(2) [OF k'(3), of t] by (simp add: k0_def)
  moreover have "t_error (thr k' u) = t_error (thr k u) \<and> kept k k' u" if "u \<noteq> t" for u
  proof -
    have "thr ?k1 u = thr k u" using o that by (simp add: only_def)
    then have "t_error (thr k' u) = t_error (thr k u)" using sched_frame_reads(2) [OF k'(3), of u] by simp
    moreover have "kept k k' u" using sched_frame_kept [OF k'(3), of u] only_reads [OF o that] by (simp only: kept_def)
    ultimately show ?thesis ..
  qed
  moreover have "tmr_timeout (thr k' u) = tmr_timeout (thr k u)" for u
  proof -
    have "tmr_timeout (thr ?k1 u) = tmr_timeout (thr k u)" by (simp add: rt_schedule_insert_thread_def Let_def set_state_def k0_def)
    then show ?thesis using sched_frame_reads(4) [OF k'(3), of u] by simp
  qed
  ultimately show ?thesis using k'(2) by blast
qed

lemma deactivate_sys:
  assumes "sys_okb b i k" "t \<notin> set (rt_timer_list k)"
  shows "sys_okb b i (upd_thread t (\<lambda>x. x\<lparr>tmr_active := False\<rparr>) k)"
proof -
  let ?k = "upd_thread t (\<lambda>x. x\<lparr>tmr_active := False\<rparr>) k"
  have s: "state_of ?k = state_of k" "prio ?k = prio k" by (auto simp: state_of_def prio_def)
  have th: "\<And>t. thread_ok k t" using assms(1) by (auto simp: sys_okb_def in_order_def kernel_inv_def)
  have "thread_ok ?k t" using th [of t] assms(2) unfolding thread_ok_def alive_def in_list_def s by simp
  moreover have "lists_ok ?k" "current_ok ?k" using assms(1) unfolding sys_okb_def in_order_def kernel_inv_def lists_ok_def current_ok_def s by simp_all
  ultimately have "kernel_inv ?k" using kernel_inv_only [OF only_steps(1)] th by blast
  then show ?thesis using assms(1) unfolding sys_okb_def in_order_def runs_highest_def s by simp
qed

text \<open>A timer is due when no time is left, or when it should have fired already.\<close>

lemma due_left:
  assumes "rt_tick k' = rt_tick k + 1" "tmr_timeout (thr k' t) = tmr_timeout (thr k t)" "left k t < 0x7FFFFFFF"
  shows "rt_tick k' - tmr_timeout (thr k' t) < RT_TICK_MAX div 2 \<longleftrightarrow> left k t \<le> 1" "1 \<le> left k t \<Longrightarrow> left k' t = left k t - 1"
proof -
  define x where "x = tmr_timeout (thr k t) - rt_tick k"
  have x: "unat x < 0x7FFFFFFF" "left k t = unat x" using assms(3) by (auto simp: left_def x_def)
  have d: "rt_tick k' - tmr_timeout (thr k' t) = 1 - x" "tmr_timeout (thr k' t) - rt_tick k' = x - 1" using assms(1,2) by (simp_all add: x_def)
  have "unat (x - 1) = unat x - 1" if "1 \<le> unat x" using that by (simp add: unat_sub word_le_nat_alt)
  then show "1 \<le> left k t \<Longrightarrow> left k' t = left k t - 1" using x d by (simp add: left_def)
  show "rt_tick k' - tmr_timeout (thr k' t) < RT_TICK_MAX div 2 \<longleftrightarrow> left k t \<le> 1"
    using tick_order [of "tmr_timeout (thr k t)" "rt_tick k" "rt_tick k'"] assms by (simp add: left_def)
qed

text \<open>One pass over the timer list: the due ones in front wake their threads, the others stay.\<close>

lemma timer_check_ok:
  assumes "sys_okb b i k" "rt_timer_list k = as @ bs"
    and "\<And>t. t \<in> set as \<Longrightarrow> rt_tick k - tmr_timeout (thr k t) < RT_TICK_MAX div 2"
    and "\<And>t. t \<in> set bs \<Longrightarrow> \<not> rt_tick k - tmr_timeout (thr k t) < RT_TICK_MAX div 2"
  shows "\<exists>k'. rt_timer_check k = Some k' \<and> sys_okb b i k' \<and> rt_timer_list k' = bs \<and> rt_tick k' = rt_tick k \<and>
    (\<forall>t\<in>set as. state_of k' t \<in> {RT_THREAD_READY, RT_THREAD_RUNNING} \<and> t_error (thr k' t) = - RT_ETIMEOUT) \<and>
    (\<forall>u. u \<notin> set as \<longrightarrow> t_error (thr k' u) = t_error (thr k u) \<and> kept k k' u) \<and>
    (\<forall>u. tmr_timeout (thr k' u) = tmr_timeout (thr k u))"
  using assms
proof (induction as arbitrary: k)
  case Nil
  then have "rt_timer_check k = Some k" by (subst rt_timer_check.simps) (auto split: list.splits)
  then show ?case using Nil by auto
next
  case (Cons t as)
  from Cons.prems(1) obtain c where k: "kernel_inv k" "rt_scheduler_lock_nest k = 0" "rt_current_thread k = Some c"
    "state_of k i \<in> {RT_THREAD_READY, RT_THREAD_RUNNING}" by (auto elim!: sys_okD)
  have tl: "rt_timer_list k = t # as @ bs" using Cons.prems(2) by simp
  from thread_timeout_ok [OF k tl] obtain k1 where k1: "rt_thread_timeout t (k\<lparr>rt_timer_list := as @ bs\<rparr>) = Some k1" "sys_okb b i k1" "rt_timer_list k1 = as @ bs"
    "rt_tick k1 = rt_tick k" "state_of k1 t \<in> {RT_THREAD_READY, RT_THREAD_RUNNING}" "t_error (thr k1 t) = - RT_ETIMEOUT"
    "\<And>u. u \<noteq> t \<Longrightarrow> t_error (thr k1 u) = t_error (thr k u) \<and> kept k k1 u"
    "\<And>u. tmr_timeout (thr k1 u) = tmr_timeout (thr k u)" by blast
  define k2 where "k2 = upd_thread t (\<lambda>x. x\<lparr>tmr_active := False\<rparr>) k1"
  have r2: "state_of k2 = state_of k1" "tmr_timeout (thr k2 u) = tmr_timeout (thr k u)" "t_error (thr k2 u) = t_error (thr k1 u)"
    "rt_timer_list k2 = as @ bs" "rt_tick k2 = rt_tick k" for u using k1(3,4,8) by (auto simp: k2_def state_of_def)
  have d: "t \<notin> set (as @ bs)" "distinct (as @ bs)" using k(1) tl by (auto simp: kernel_inv_def lists_ok_def)
  have kc: "kept k2 k' u = kept k1 k' u" for k' u by (simp add: kept_def r2(1))
  have k2: "sys_okb b i k2" using deactivate_sys [OF k1(2)] d(1) k1(3) by (simp add: k2_def)
  have "rt_timer_check k = rt_timer_check k2"
    using Cons.prems(3) [of t] k1(1) tl by (subst rt_timer_check.simps) (simp add: Option.bind_def k2_def)
  moreover from Cons.IH [OF k2 r2(4)] r2(2,5) Cons.prems(3,4) obtain k' where k': "rt_timer_check k2 = Some k'" "sys_okb b i k'" "rt_timer_list k' = bs"
    "rt_tick k' = rt_tick k" "\<And>u. u \<in> set as \<Longrightarrow> state_of k' u \<in> {RT_THREAD_READY, RT_THREAD_RUNNING} \<and> t_error (thr k' u) = - RT_ETIMEOUT"
    "\<And>u. u \<notin> set as \<Longrightarrow> t_error (thr k' u) = t_error (thr k1 u) \<and> kept k1 k' u"
    "\<And>u. tmr_timeout (thr k' u) = tmr_timeout (thr k u)" by (auto simp: r2(3) kc)
  moreover have "state_of k' t \<in> {RT_THREAD_READY, RT_THREAD_RUNNING}" "t_error (thr k' t) = - RT_ETIMEOUT"
    using k'(6) [of t] k1(5,6) d(1) by (auto simp: kept_def)
  moreover have "t_error (thr k' u) = t_error (thr k u) \<and> kept k k' u" if "u \<notin> set (t # as)" for u
    using that k'(6) [of u] k1(7) [of u] kept_trans by auto
  ultimately show ?case by simp
qed

lemma tick_sys [simp]: "sys_okb b i (k\<lparr>rt_tick := n\<rparr>) = sys_okb b i k"
  by (simp add: sys_okb_def in_order_def kernel_inv_def thread_ok_def current_ok_def lists_ok_def alive_def in_list_def runs_highest_def)

lemma harmless_sys: "harmless f \<Longrightarrow> sys_okb b i (upd_thread t f k) = sys_okb b i k"
  by (simp add: sys_okb_def in_order_def harmless_inv harmless_reads)

text \<open>The part of the tick before the timers: the time slice.\<close>

lemma tick_increase_eq:
  assumes "rt_current_thread k = Some c" and k1: "k1 = upd_thread c (\<lambda>x. x\<lparr>remaining_tick := remaining_tick x - 1\<rparr>) (k\<lparr>rt_tick := rt_tick k + 1\<rparr>)"
  shows "rt_tick_increase k = (if remaining_tick (thr k1 c) = 0
      then rt_thread_yield (upd_thread c (\<lambda>x. x\<lparr>remaining_tick := slice x, stat := stat x OR RT_THREAD_STAT_YIELD\<rparr>) k1) else Some k1) \<bind> rt_timer_check"
  using assms(1) unfolding rt_tick_increase_def k1 by (simp add: Let_def)

lemma slice_ok:
  assumes "sys_okb b i k"
  shows "\<exists>k'. rt_tick_increase k = rt_timer_check k' \<and> sys_okb b i k' \<and> rt_timer_list k' = rt_timer_list k \<and> rt_tick k' = rt_tick k + 1 \<and>
    (\<forall>u. kept k k' u \<and> t_error (thr k' u) = t_error (thr k u) \<and> tmr_timeout (thr k' u) = tmr_timeout (thr k u))"
proof -
  from assms obtain c where c: "rt_current_thread k = Some c" by (auto elim!: sys_okD)
  define k1 where "k1 = upd_thread c (\<lambda>x. x\<lparr>remaining_tick := remaining_tick x - 1\<rparr>) (k\<lparr>rt_tick := rt_tick k + 1\<rparr>)"
  have k1: "sys_okb b i k1" "rt_current_thread k1 = Some c" "rt_timer_list k1 = rt_timer_list k" "rt_tick k1 = rt_tick k + 1" "state_of k1 = state_of k"
    "t_error (thr k1 u) = t_error (thr k u)" "tmr_timeout (thr k1 u) = tmr_timeout (thr k u)" for u
    using assms c by (auto simp: k1_def harmless_sys harmless_reads)
  note e = tick_increase_eq [OF c k1_def]
  show ?thesis
  proof (cases "remaining_tick (thr k1 c) = 0")
    case True
    define k2 where "k2 = upd_thread c (\<lambda>x. x\<lparr>remaining_tick := slice x, stat := stat x OR RT_THREAD_STAT_YIELD\<rparr>) k1"
    have k2: "sys_okb b i k2" "rt_timer_list k2 = rt_timer_list k" "rt_tick k2 = rt_tick k + 1" "state_of k2 = state_of k"
      "t_error (thr k2 u) = t_error (thr k u)" "tmr_timeout (thr k2 u) = tmr_timeout (thr k u)" for u
      using k1 by (auto simp: k2_def harmless_sys harmless_reads)
    from k2(1) have "kernel_inv k2" "rt_current_thread k2 \<noteq> None" "rt_scheduler_lock_nest k2 = 0" "state_of k2 i \<in> {RT_THREAD_READY, RT_THREAD_RUNNING}"
      by (auto elim!: sys_okD)
    from schedule_sys [OF this] obtain k' where k': "rt_schedule k2 = Some k'" "sys_okb b i k'" "sched_frame k2 k'" by blast
    have "rt_tick_increase k = rt_timer_check k'" using e True k'(1) by (simp add: rt_thread_yield_def flip: k2_def)
    moreover have "kept k k' u" for u using sched_frame_kept [OF k'(3), of u] k2(4) by (simp only: kept_def)
    moreover have "rt_timer_list k' = rt_timer_list k" "rt_tick k' = rt_tick k + 1" using k'(3) k2(2,3) by (auto simp: sched_frame_def)
    ultimately show ?thesis using k'(2) sched_frame_reads(2,4) [OF k'(3)] k2(5,6) by auto
  next
    case False
    then show ?thesis using e k1 by (auto simp: kept_def)
  qed
qed

lemma sorted_split:
  assumes "sorted (map f xs)"
  shows "\<forall>x\<in>set (dropWhile (\<lambda>x. f x \<le> (n :: nat)) xs). n < f x"
proof (cases "dropWhile (\<lambda>x. f x \<le> n) xs")
  case Nil
  show ?thesis unfolding Nil by simp
next
  case (Cons y ys)
  then have "n < f y" using hd_dropWhile [of "\<lambda>x. f x \<le> n" xs] by (metis list.discI list.sel(1) not_le)
  moreover have "sorted (map f (takeWhile (\<lambda>x. f x \<le> n) xs @ y # ys))" using assms Cons takeWhile_dropWhile_id [of "\<lambda>x. f x \<le> n" xs] by simp
  ultimately show ?thesis unfolding Cons by (auto simp: sorted_append)
qed

text \<open>A tick wakes exactly the threads whose time is up.\<close>

lemma tick_increase_ok:
  assumes "sys_okb b i k" "deadlines_ok k"
  shows "\<exists>k'. rt_tick_increase k = Some k' \<and> sys_okb b i k' \<and> deadlines_ok k' \<and> rt_tick k' = rt_tick k + 1 \<and>
    (\<forall>t. if t \<in> set (rt_timer_list k) \<and> left k t \<le> 1
      then state_of k' t \<in> {RT_THREAD_READY, RT_THREAD_RUNNING} \<and> t_error (thr k' t) = - RT_ETIMEOUT \<and> t \<notin> set (rt_timer_list k')
      else kept k k' t \<and> t_error (thr k' t) = t_error (thr k t) \<and>
        (t \<in> set (rt_timer_list k) \<longrightarrow> t \<in> set (rt_timer_list k') \<and> left k' t = left k t - 1))"
proof -
  from slice_ok [OF assms(1)] obtain k1 where e: "rt_tick_increase k = rt_timer_check k1" and k1: "sys_okb b i k1" "rt_timer_list k1 = rt_timer_list k" "rt_tick k1 = rt_tick k + 1"
    "\<And>u. kept k k1 u" "\<And>u. t_error (thr k1 u) = t_error (thr k u)" "\<And>u. tmr_timeout (thr k1 u) = tmr_timeout (thr k u)" by blast
  let ?P = "\<lambda>t. left k t \<le> 1"
  define as bs where ab: "as = takeWhile ?P (rt_timer_list k)" "bs = dropWhile ?P (rt_timer_list k)"
  have l: "rt_timer_list k = as @ bs" "\<And>t. t \<in> set (rt_timer_list k) \<Longrightarrow> left k t < 0x7FFFFFFF" "sorted (map (left k) (rt_timer_list k))"
    using assms(2) by (auto simp: ab deadlines_ok_def)
  have A: "left k t \<le> 1" if "t \<in> set as" for t using that by (auto simp: ab dest: set_takeWhileD)
  have B: "1 < left k t" if "t \<in> set bs" for t using sorted_split [OF l(3), of 1] that by (auto simp: ab)
  have d: "distinct (as @ bs)" using assms(1) l(1) by (auto simp: sys_okb_def in_order_def kernel_inv_def lists_ok_def)
  have due: "rt_tick k1 - tmr_timeout (thr k1 t) < RT_TICK_MAX div 2 \<longleftrightarrow> left k t \<le> 1" if "t \<in> set (as @ bs)" for t
    using due_left(1) [OF k1(3,6)] l(1,2) that by simp
  from timer_check_ok [OF k1(1) _ , of as bs] k1(2) l(1) due A B obtain k' where k': "rt_timer_check k1 = Some k'" "sys_okb b i k'" "rt_timer_list k' = bs" "rt_tick k' = rt_tick k1"
    "\<And>t. t \<in> set as \<Longrightarrow> state_of k' t \<in> {RT_THREAD_READY, RT_THREAD_RUNNING} \<and> t_error (thr k' t) = - RT_ETIMEOUT"
    "\<And>u. u \<notin> set as \<Longrightarrow> t_error (thr k' u) = t_error (thr k1 u) \<and> kept k1 k' u" "\<And>u. tmr_timeout (thr k' u) = tmr_timeout (thr k1 u)"
    by (metis (no_types, lifting) Un_iff not_le set_append)
  have left': "left k' t = left k t - 1" if "t \<in> set bs" for t
    using due_left(2) [of k' k t] k'(4,7) k1(3,6) B [OF that] l(1,2) that by simp
  have "sorted (map (left k) bs)" using l(1,3) by (simp add: sorted_append)
  then have "sorted (map (\<lambda>t. left k t - 1) bs)" unfolding sorted_map by (rule sorted_wrt_mono_rel [rotated]) auto
  moreover have "map (left k') bs = map (\<lambda>t. left k t - 1) bs" using left' by simp
  moreover have "left k' t < 0x7FFFFFFF" if "t \<in> set bs" for t using left' [OF that] l(2) [of t] l(1) that by simp
  ultimately have "deadlines_ok k'" unfolding deadlines_ok_def k'(3) by metis
  moreover have "t \<in> set (rt_timer_list k) \<and> left k t \<le> 1 \<longleftrightarrow> t \<in> set as" for t using l(1) A B by fastforce
  moreover have "kept k k' t \<and> t_error (thr k' t) = t_error (thr k t)" if "t \<notin> set as" for t using k'(6) [OF that] k1(4,5) kept_trans by metis
  ultimately show ?thesis using e k' k1(3) d l(1) left' by auto
qed

end
