(* ===== verification/KernelTime.thy ===== *)
theory KernelTime
  imports KernelCalls
begin

text \<open>
  The timers of the threads: which calls leave them alone, that a started timer is put in its place,
  and that a thread sleeps for as many ticks as it asked for.
\<close>

section \<open>Calls that leave the timers alone\<close>

text \<open>The clock stands still, no timer is moved; timers may be taken out of the list.\<close>

definition quiet :: "kernel \<Rightarrow> kernel \<Rightarrow> bool" where
  "quiet k k' \<longleftrightarrow> rt_tick k' = rt_tick k \<and> rt_interrupt_nest k' = rt_interrupt_nest k \<and>
     (\<forall>u. tmr_timeout (thr k' u) = tmr_timeout (thr k u)) \<and> (\<exists>P. rt_timer_list k' = filter P (rt_timer_list k))"

lemma quietI:
  assumes "rt_tick k' = rt_tick k" "rt_interrupt_nest k' = rt_interrupt_nest k" "\<And>u. tmr_timeout (thr k' u) = tmr_timeout (thr k u)"
    "rt_timer_list k' = rt_timer_list k"
  shows "quiet k k'"
  using assms unfolding quiet_def by (auto intro: exI [of _ "\<lambda>_. True"])

lemma quiet_refl [simp]: "quiet k k"
  by (rule quietI) simp_all

lemma quiet_trans:
  assumes "quiet k k1" "quiet k1 k2"
  shows "quiet k k2"
proof -
  obtain P Q where "rt_timer_list k1 = filter P (rt_timer_list k)" "rt_timer_list k2 = filter Q (rt_timer_list k1)" using assms by (auto simp: quiet_def)
  then have "rt_timer_list k2 = filter (\<lambda>x. P x \<and> Q x) (rt_timer_list k)" by (simp add: conj_commute)
  then show ?thesis using assms unfolding quiet_def by auto
qed

lemma quiet_timers:
  assumes "quiet k k'" "deadlines_ok k"
  shows "deadlines_ok k'"
proof -
  have e: "left k' = left k" using assms(1) by (simp add: quiet_def left_def fun_eq_iff)
  obtain P where "rt_timer_list k' = filter P (rt_timer_list k)" using assms(1) by (auto simp: quiet_def)
  then show ?thesis using assms(2) unfolding deadlines_ok_def e by (auto intro: sorted_filter)
qed

lemma quiet_nest: "quiet k k' \<Longrightarrow> rt_interrupt_nest k' = rt_interrupt_nest k"
  by (simp add: quiet_def)

lemma sched_frame_quiet: "sched_frame k k' \<Longrightarrow> quiet k k'"
  by (rule quietI) (simp_all only: sched_frame_reads(4), simp_all only: sched_frame_def)

lemma quiet_thread: "(\<And>x. tmr_timeout (f x) = tmr_timeout x) \<Longrightarrow> quiet k (upd_thread t f k)"
  by (rule quietI) auto

lemma quiet_set_state: "quiet k (set_state v t k)"
  unfolding set_state_def by (rule quiet_thread) simp

lemma quiet_lists:
  "quiet k (rt_list_remove t k)" "quiet k (list_append l t k)" "quiet k (k\<lparr>tlist := q\<rparr>)" "quiet k (k\<lparr>rt_thread_ready_priority_group := g\<rparr>)"
  "quiet k (k\<lparr>ksems := ss\<rparr>)" "quiet k (k\<lparr>kmutexes := ms\<rparr>)"
  by (rule quietI; simp)+

lemma quiet_remove: "quiet k (rt_schedule_remove_thread t k)"
  by (rule quietI) simp_all

lemma quiet_insert: "quiet k (rt_schedule_insert_thread t k)"
  by (rule quietI) (simp_all add: rt_schedule_insert_thread_def Let_def set_state_def)

lemma quiet_stop: "quiet k (rt_timer_stop_k t k)"
  unfolding quiet_def rt_timer_stop_k_def
  by (auto simp: removeAll_filter_not_eq intro: exI [of _ "\<lambda>_. True"])

lemma quiet_suspend: "rt_thread_suspend t k = Some (r, k') \<Longrightarrow> quiet k k'"
  unfolding rt_thread_suspend_def
  by (auto split: if_splits intro: quiet_trans [OF quiet_trans [OF quiet_remove quiet_set_state] quiet_stop])

lemma quiet_resume: "quiet k (snd (rt_thread_resume t k))"
  unfolding rt_thread_resume_def
  by (auto intro: quiet_trans [OF quiet_trans [OF quiet_lists(1) quiet_stop] quiet_insert])

lemma quiet_schedule:
  assumes "rt_schedule k = Some k'"
  shows "quiet k k'"
proof (rule quietI)
  show "rt_tick k' = rt_tick k" "rt_interrupt_nest k' = rt_interrupt_nest k" "rt_timer_list k' = rt_timer_list k"
    using assms by (auto simp: rt_schedule_def Let_def split: bind_splits prod.splits if_splits)
  show "tmr_timeout (thr k' u) = tmr_timeout (thr k u)" for u
    using assms by (auto simp: rt_schedule_def rt_schedule_insert_thread_def set_state_def Let_def split: bind_splits prod.splits if_splits)
qed

lemma quiet_change_priority: "quiet k (change_priority t p k)"
proof -
  have s: "quiet k (set_prio t p k)" for k unfolding set_prio_def by (rule quiet_thread) simp
  show ?thesis unfolding change_priority_def by (auto intro: s quiet_trans [OF quiet_trans [OF quiet_remove s] quiet_insert])
qed

lemma quiet_ipc_suspend: "rt_ipc_list_suspend_k l t flag k = Some k' \<Longrightarrow> quiet k k'"
  unfolding rt_ipc_list_suspend_k_def
  by (auto split: bind_splits ipc_flag.splits intro: quiet_trans [OF quiet_suspend quiet_lists(2)] quiet_trans [OF quiet_suspend quiet_lists(3)])

section \<open>Starting a timer\<close>

lemma timer_start_timers:
  assumes "deadlines_ok k" "t \<notin> set (rt_timer_list k)" "rt_timer_start_k t k = Some k'"
  shows "deadlines_ok k'" "left k' t = unat (tmr_init (thr k t))" "t \<in> set (rt_timer_list k')" "rt_interrupt_nest k' = rt_interrupt_nest k"
proof -
  let ?tk = "(\<lambda>u. tmr_timeout (thr k u))(t := rt_tick k + tmr_init (thr k t))"
  have i: "tmr_init (thr k t) < RT_TICK_MAX div 2" using assms(3) by (simp add: rt_timer_start_k_def split: if_splits)
  have k': "rt_timer_list k' = timer_insert ?tk t (rt_timer_list k)" "left k' u = time_left (rt_tick k) ?tk u" "rt_interrupt_nest k' = rt_interrupt_nest k" for u
    using assms(2,3) i by (auto simp: rt_timer_start_k_def Let_def removeAll_id left_def time_left_def fun_upd_def if_distrib cong: if_cong)
  have l: "time_left (rt_tick k) ?tk u = left k u" if "u \<in> set (rt_timer_list k)" for u using that assms(2) by (auto simp: time_left_def left_def)
  have t: "time_left (rt_tick k) ?tk t = unat (tmr_init (thr k t))" by (simp add: time_left_def)
  have "map (time_left (rt_tick k) ?tk) (rt_timer_list k) = map (left k) (rt_timer_list k)" using l by simp
  then have "sorted (map (time_left (rt_tick k) ?tk) (rt_timer_list k))" using assms(1) by (simp only: deadlines_ok_def)
  moreover have b: "\<forall>u\<in>insert t (set (rt_timer_list k)). time_left (rt_tick k) ?tk u < 0x7FFFFFFF"
    using assms(1) i l t by (auto simp: deadlines_ok_def word_less_nat_alt)
  ultimately have "sorted (map (time_left (rt_tick k) ?tk) (rt_timer_list k'))" using timer_insert_sorted k'(1) by metis
  then show "deadlines_ok k'" unfolding deadlines_ok_def using k'(1,2) b by (auto cong: map_cong)
  show "left k' t = unat (tmr_init (thr k t))" using k'(2) t by simp
  show "t \<in> set (rt_timer_list k')" "rt_interrupt_nest k' = rt_interrupt_nest k" using k'(1,3) by simp_all
qed

lemma set_time_timers:
  assumes "deadlines_ok k" "t \<notin> set (rt_timer_list k)" "rt_timer_start_k t (rt_timer_set_time_k t n k) = Some k'"
  shows "deadlines_ok k'" "left k' t = unat n" "t \<in> set (rt_timer_list k')" "rt_interrupt_nest k' = rt_interrupt_nest k"
proof -
  have "quiet k (rt_timer_set_time_k t n k)" unfolding rt_timer_set_time_k_def by (rule quiet_thread) simp
  then have "deadlines_ok (rt_timer_set_time_k t n k)" using quiet_timers assms(1) by blast
  note s = timer_start_timers [OF this _ assms(3)]
  show "deadlines_ok k'" "left k' t = unat n" "t \<in> set (rt_timer_list k')" "rt_interrupt_nest k' = rt_interrupt_nest k"
    using s assms(2) by (simp_all add: rt_timer_set_time_k_def)
qed

lemma running_no_timer: "sys_okb b i k \<Longrightarrow> rt_current_thread k = Some t \<Longrightarrow> t \<notin> set (rt_timer_list k)"
  by (auto simp: kernel_inv_def thread_ok_def elim!: sys_okD)

lemma quiet_no_timer: "quiet k k' \<Longrightarrow> t \<notin> set (rt_timer_list k) \<Longrightarrow> t \<notin> set (rt_timer_list k')"
  by (auto simp: quiet_def)

lemma sleep_for_timers:
  assumes "sys_okb b i k" "deadlines_ok k" "rt_current_thread k = Some t" "sleep_for t n k = Some k'"
  shows "deadlines_ok k'" "left k' t = unat n" "rt_interrupt_nest k' = rt_interrupt_nest k"
proof -
  obtain r k1 k2 where k: "rt_thread_suspend t k = Some (r, k1)" "rt_timer_start_k t (rt_timer_set_time_k t n k1) = Some k2" "rt_schedule k2 = Some k'"
    using assms(4) by (auto simp: sleep_for_def split: bind_splits)
  note q = quiet_suspend [OF k(1)]
  note s = set_time_timers [OF quiet_timers [OF q assms(2)] quiet_no_timer [OF q running_no_timer [OF assms(1,3)]] k(2)]
  have q': "quiet k2 k'" using k(3) by (rule quiet_schedule)
  then show "deadlines_ok k'" using s(1) by (rule quiet_timers)
  show "left k' t = unat n" "rt_interrupt_nest k' = rt_interrupt_nest k" using q q' s by (auto simp: quiet_def left_def)
qed

text \<open>A call that blocks, with or without a time limit.\<close>

lemma block_timers:
  assumes "sys_okb b i k" "deadlines_ok k" "rt_current_thread k = Some t"
    and k: "rt_ipc_list_suspend_k l t flag k = Some k1" "wait_time t time k1 = Some k2" "rt_schedule k2 = Some k'"
  shows "deadlines_ok k'" "rt_interrupt_nest k' = rt_interrupt_nest k"
proof -
  note q = quiet_ipc_suspend [OF k(1)]
  have t1: "deadlines_ok k1" using q assms(2) by (rule quiet_timers)
  have n1: "t \<notin> set (rt_timer_list k1)" using q running_no_timer [OF assms(1,3)] by (rule quiet_no_timer)
  have "deadlines_ok k2 \<and> rt_interrupt_nest k2 = rt_interrupt_nest k1"
    using k(2) set_time_timers(1,4) [OF t1 n1] t1 by (auto simp: wait_time_def split: if_splits)
  moreover have q': "quiet k2 k'" using k(3) by (rule quiet_schedule)
  ultimately show "deadlines_ok k'" using quiet_timers by blast
  show "rt_interrupt_nest k' = rt_interrupt_nest k" using q q' \<open>deadlines_ok k2 \<and> rt_interrupt_nest k2 = rt_interrupt_nest k1\<close> by (simp add: quiet_def)
qed

section \<open>Ticks\<close>

primrec run_ticks :: "nat \<Rightarrow> kernel \<Rightarrow> kernel option" where
  "run_ticks 0 k = Some k"
| "run_ticks (Suc n) k = run_ticks n k \<bind> rt_tick_increase"

text \<open>A thread with \<open>left k t\<close> ticks to go waits for all but the last of them.\<close>

lemma ticks_waiting:
  assumes "sys_okb b i k" "deadlines_ok k" "t \<in> set (rt_timer_list k)" "j < left k t"
  shows "\<exists>k'. run_ticks j k = Some k' \<and> sys_okb b i k' \<and> deadlines_ok k' \<and> t \<in> set (rt_timer_list k') \<and> left k' t = left k t - j \<and>
    state_of k' t = RT_THREAD_SUSPEND \<and> rt_tick k' = rt_tick k + of_nat j"
  using assms(4)
proof (induction j)
  case 0
  have "state_of k t = RT_THREAD_SUSPEND" using assms(1,3) by (auto simp: sys_okb_def in_order_def kernel_inv_def thread_ok_def)
  then show ?case using assms(1-3) by simp
next
  case (Suc j)
  then obtain k' where k': "run_ticks j k = Some k'" "sys_okb b i k'" "deadlines_ok k'" "t \<in> set (rt_timer_list k')" "left k' t = left k t - j"
    "rt_tick k' = rt_tick k + of_nat j" by auto
  from tick_increase_ok [OF k'(2,3)] obtain k'' where k'': "rt_tick_increase k' = Some k''" "sys_okb b i k''" "deadlines_ok k''" "rt_tick k'' = rt_tick k' + 1"
    "if t \<in> set (rt_timer_list k') \<and> left k' t \<le> 1 then True
      else t \<in> set (rt_timer_list k') \<longrightarrow> t \<in> set (rt_timer_list k'') \<and> left k'' t = left k' t - 1" by metis
  have l: "t \<in> set (rt_timer_list k'')" "left k'' t = left k t - Suc j" using k''(5) k'(4,5) Suc.prems by auto
  have "state_of k'' t = RT_THREAD_SUSPEND" using k''(2) l(1) by (auto simp: sys_okb_def in_order_def kernel_inv_def thread_ok_def)
  then show ?case using k' k'' l by (auto simp: algebra_simps)
qed

lemma ticks_awake:
  assumes "sys_okb b i k" "deadlines_ok k" "t \<in> set (rt_timer_list k)" "0 < left k t"
  shows "\<exists>k'. run_ticks (left k t) k = Some k' \<and> sys_okb b i k' \<and> deadlines_ok k' \<and> t \<notin> set (rt_timer_list k') \<and>
    state_of k' t \<in> {RT_THREAD_READY, RT_THREAD_RUNNING} \<and> t_error (thr k' t) = - RT_ETIMEOUT"
proof -
  obtain j where j: "left k t = Suc j" using assms(4) by (cases "left k t") auto
  from ticks_waiting [OF assms(1-3), of j] j obtain k' where k': "run_ticks j k = Some k'" "sys_okb b i k'" "deadlines_ok k'" "t \<in> set (rt_timer_list k')" "left k' t = 1" by auto
  from tick_increase_ok [OF k'(2,3)] k'(4,5) obtain k'' where "rt_tick_increase k' = Some k''" "sys_okb b i k''" "deadlines_ok k''"
    "state_of k'' t \<in> {RT_THREAD_READY, RT_THREAD_RUNNING}" "t_error (thr k'' t) = - RT_ETIMEOUT" "t \<notin> set (rt_timer_list k'')" by (metis order_refl)
  then show ?thesis using k'(1) j by auto
qed

end
