(* ===== verification/KernelMutex.thy ===== *)
theory KernelMutex
  imports KernelTime
begin

text \<open>
  The mutexes: a mutex is held by one thread, the owner runs with at least the priority of a thread
  that waits, and a release hands the mutex to the first that waits.
\<close>

unbundle bit_operations_syntax

section \<open>Changing the priority of a thread\<close>

lemma set_prio_reads [simp]:
  "state_of (set_prio t p k) = state_of k" "prio (set_prio t p k) u = (if u = t then p else prio k u)" "tlist (set_prio t p k) = tlist k"
  "rt_current_thread (set_prio t p k) = rt_current_thread k" "rt_timer_list (set_prio t p k) = rt_timer_list k" "ksems (set_prio t p k) = ksems k"
  "rt_thread_ready_priority_group (set_prio t p k) = rt_thread_ready_priority_group k" "kmutexes (set_prio t p k) = kmutexes k"
  "rt_scheduler_lock_nest (set_prio t p k) = rt_scheduler_lock_nest k" "rt_interrupt_nest (set_prio t p k) = rt_interrupt_nest k"
  "number_mask (thr (set_prio t p k) t) = push_bit p 1" "t_error (thr (set_prio t p k) u) = t_error (thr k u)"
  "tmr_active (thr (set_prio t p k) u) = tmr_active (thr k u)"
  by (auto simp: set_prio_def state_of_def prio_def)

lemma set_prio_inv:
  assumes "kernel_inv k" "state_of k t \<noteq> RT_THREAD_READY" "p < 32"
  shows "kernel_inv (set_prio t p k)"
proof (rule kernel_inv_only)
  show "only t k (set_prio t p k)" unfolding set_prio_def by (rule only_steps)
  have "thread_ok k t" using assms(1) by (simp add: kernel_inv_def)
  then show "thread_ok (set_prio t p k) t" using assms(2,3) unfolding thread_ok_def alive_def in_list_def by simp
  show "current_ok (set_prio t p k)" "lists_ok (set_prio t p k)" "\<And>t. thread_ok k t" using assms(1) by (auto simp: kernel_inv_def current_ok_def lists_ok_def)
qed

lemma change_priority_inv:
  assumes "kernel_inv k" "rt_current_thread k \<noteq> Some t" "p < 32"
  shows "kernel_inv (change_priority t p k)"
proof (cases "state_of k t = RT_THREAD_READY")
  case True
  define k1 where "k1 = set_prio t p (rt_schedule_remove_thread t k)"
  have e: "change_priority t p k = rt_schedule_insert_thread t k1" using True by (simp add: change_priority_def k1_def)
  have th: "\<And>t. thread_ok k t" and ls: "lists_ok k" and cu: "current_ok k" using assms(1) by (auto simp: kernel_inv_def)
  have a: "alive k t" using True by (simp add: alive_def)
  have nt: "t \<notin> set (rt_timer_list k)" using th [of t] True by (auto simp: thread_ok_def)
  have k1: "\<And>l. t \<notin> set (tlist k1 l)" "prio k1 t = p" "number_mask (thr k1 t) = push_bit p 1" "rt_current_thread k1 \<noteq> Some t" "t \<notin> set (rt_timer_list k1)"
    "lists_ok k1" using assms(2) nt remove_lists [OF ls th a] by (auto simp: k1_def lists_ok_def)
  have o: "only t k (rt_schedule_insert_thread t k1)" unfolding k1_def set_prio_def
    by (rule only_trans [OF only_trans [OF only_remove only_steps(1)] only_insert])
  show ?thesis unfolding e
  proof (rule kernel_inv_only [OF o])
    show "thread_ok (rt_schedule_insert_thread t k1) t" by (rule insert_thread_ok) (use k1 assms(3) in auto)
    show "lists_ok (rt_schedule_insert_thread t k1)" by (rule insert_lists) (use k1 assms(3) in auto)
    have "state_of (rt_schedule_insert_thread t k1) u = state_of k u" for u using insert_reads(2) [OF k1(4)] True by (auto simp: k1_def)
    then show "current_ok (rt_schedule_insert_thread t k1)" using cu by (simp add: current_ok_def k1_def)
  qed (use th in auto)
next
  case False
  then show ?thesis using set_prio_inv [OF assms(1) False assms(3)] by (simp add: change_priority_def)
qed

lemma change_priority_reads:
  assumes "kernel_inv k" "rt_current_thread k \<noteq> Some t"
  shows "prio (change_priority t p k) u = (if u = t then p else prio k u)" "state_of (change_priority t p k) u = state_of k u"
    "rt_current_thread (change_priority t p k) = rt_current_thread k" "rt_scheduler_lock_nest (change_priority t p k) = rt_scheduler_lock_nest k"
    "ksems (change_priority t p k) = ksems k" "kmutexes (change_priority t p k) = kmutexes k" "t_error (thr (change_priority t p k) u) = t_error (thr k u)"
    "\<forall>p. l \<noteq> Ready p \<Longrightarrow> tlist (change_priority t p k) l = tlist k l"
proof -
  show "prio (change_priority t p k) u = (if u = t then p else prio k u)" "rt_current_thread (change_priority t p k) = rt_current_thread k"
    "rt_scheduler_lock_nest (change_priority t p k) = rt_scheduler_lock_nest k" "ksems (change_priority t p k) = ksems k"
    "kmutexes (change_priority t p k) = kmutexes k" "t_error (thr (change_priority t p k) u) = t_error (thr k u)"
    by (auto simp: change_priority_def)
  have c: "rt_current_thread (set_prio t p (rt_schedule_remove_thread t k)) \<noteq> Some t" using assms(2) by simp
  show "state_of (change_priority t p k) u = state_of k u" using insert_reads(2) [OF c] by (auto simp: change_priority_def)
  assume l: "\<forall>p. l \<noteq> Ready p"
  have "t \<notin> set (tlist k l)" if "state_of k t = RT_THREAD_READY" using wait_list_frame [OF assms(1) _ l] that by simp
  then show "tlist (change_priority t p k) l = tlist k l" using insert_reads(1) [OF c] l by (auto simp: change_priority_def removeAll_id)
qed

text \<open>Another thread that is raised to no more than the priority of the current one.\<close>

lemma change_priority_sys:
  assumes "sys_okb b i k" "rt_current_thread k = Some t" "u \<noteq> t" "prio k t \<le> p" "p < 32"
  shows "sys_okb b i (change_priority u p k)"
proof -
  have k: "kernel_inv k" "rt_current_thread k \<noteq> Some u" using assms(1-3) by (auto simp: sys_okb_def in_order_def)
  note r = change_priority_reads [OF k]
  show ?thesis using assms change_priority_inv [OF k assms(5)] unfolding sys_okb_def in_order_def runs_highest_def r by auto
qed

section \<open>Taking\<close>

definition mutex_ok :: "rt_mutex \<Rightarrow> bool" where
  "mutex_ok x \<longleftrightarrow> (case m_owner x of None \<Rightarrow> m_value x = 1 \<and> hold x = 0
     | Some _ \<Rightarrow> m_value x = 0 \<and> hold x > 0 \<and> original_priority x < 32)"

lemma upd_mutex_reads [simp]:
  "thr (upd_mutex s f k) = thr k" "tlist (upd_mutex s f k) = tlist k" "rt_current_thread (upd_mutex s f k) = rt_current_thread k"
  "rt_scheduler_lock_nest (upd_mutex s f k) = rt_scheduler_lock_nest k" "state_of (upd_mutex s f k) = state_of k" "prio (upd_mutex s f k) = prio k"
  "kmutexes (upd_mutex s f k) = (kmutexes k)(s := f (kmutexes k s))" "ksems (upd_mutex s f k) = ksems k" "rt_timer_list (upd_mutex s f k) = rt_timer_list k"
  "rt_thread_ready_priority_group (upd_mutex s f k) = rt_thread_ready_priority_group k" "rt_interrupt_nest (upd_mutex s f k) = rt_interrupt_nest k"
  by (simp_all add: upd_mutex_def)

lemma upd_mutex_inv:
  assumes "kernel_inv k" "tlist k (MutexWait m) \<noteq> [] \<Longrightarrow> m_owner (f (kmutexes k m)) \<noteq> None"
  shows "kernel_inv (upd_mutex m f k)"
  using assms unfolding kernel_inv_def thread_ok_def current_ok_def lists_ok_def alive_def in_list_def by (simp add: fun_upd_def)

lemma upd_mutex_sys:
  assumes "sys_okb b i k" "tlist k (MutexWait m) \<noteq> [] \<Longrightarrow> m_owner (f (kmutexes k m)) \<noteq> None"
  shows "sys_okb b i (upd_mutex m f k)"
  using assms upd_mutex_inv [of k m f] unfolding sys_okb_def in_order_def runs_highest_def by simp

lemma current_prio:
  assumes "sys_okb b i k" "rt_current_thread k = Some t"
  shows "prio k t < 32" "state_of k t = RT_THREAD_RUNNING"
  using assms by (auto simp: kernel_inv_def thread_ok_def alive_def elim!: sys_okD)

text \<open>The owner as it runs while \<open>t\<close> waits.\<close>

definition inherited :: "nat \<Rightarrow> nat \<Rightarrow> kernel \<Rightarrow> kernel" where
  "inherited ow t k = (if prio k t < prio k ow then change_priority ow (prio k t) k else k)"

lemma inherited_ok:
  assumes "sys_okb b i k" "rt_current_thread k = Some t" "ow \<noteq> t"
  shows "sys_okb b i (inherited ow t k)" "prio (inherited ow t k) u = (if u = ow then min (prio k ow) (prio k t) else prio k u)"
    "rt_current_thread (inherited ow t k) = Some t" "ksems (inherited ow t k) = ksems k" "kmutexes (inherited ow t k) = kmutexes k"
    "t_error (thr (inherited ow t k) u) = t_error (thr k u)" "tlist (inherited ow t k) (MutexWait m) = tlist k (MutexWait m)" "quiet k (inherited ow t k)"
proof -
  have k: "kernel_inv k" "rt_current_thread k \<noteq> Some ow" using assms by (auto simp: sys_okb_def in_order_def)
  note r = change_priority_reads [OF k] and p = current_prio [OF assms(1,2)]
  show "sys_okb b i (inherited ow t k)" using change_priority_sys [OF assms] p assms(1) by (auto simp: inherited_def)
  show "quiet k (inherited ow t k)" by (auto simp: inherited_def intro: quiet_change_priority)
qed (use assms(2) change_priority_reads [of k ow] assms in \<open>auto simp: inherited_def sys_okb_def in_order_def\<close>)

lemma mutex_wait_ok:
  assumes "sys_okb b i k" "rt_current_thread k = Some t" "t \<noteq> i" "rt_interrupt_nest k = 0" "time < 0x7FFFFFFF"
    and m: "m_owner (kmutexes k m) = Some ow" "ow \<noteq> t" "m_value (kmutexes k m) = 0" "time \<noteq> 0"
  shows "\<exists>k'. rt_mutex_take m time k = Some (None, k') \<and> sys_okb b i k' \<and> state_of k' t = RT_THREAD_SUSPEND \<and>
    tlist k' (MutexWait m) = enqueued (prio k') (m_flag (kmutexes k m)) t (tlist k (MutexWait m)) \<and> kmutexes k' = kmutexes k \<and>
    prio k' ow = min (prio k ow) (prio k t) \<and> (deadlines_ok k \<longrightarrow> deadlines_ok k' \<and> rt_interrupt_nest k' = 0)"
proof -
  let ?k = "upd_thread t (\<lambda>x. x\<lparr>t_error := RT_EOK\<rparr>) k"
  have k0: "sys_okb b i ?k" "rt_current_thread ?k = Some t" "prio ?k = prio k"
    using assms(1,2) by (auto simp: sys_okb_def in_order_def harmless_inv harmless_reads)
  note h = inherited_ok [OF k0(1,2) m(2)]
  let ?k1 = "inherited ow t ?k" and ?fl = "m_flag (kmutexes k m)"
  from block_ok [OF h(1,3) assms(3,5), of "MutexWait m" 0 m ?fl] h(5) m(1) obtain k1 k2 k' where k':
    "rt_ipc_list_suspend_k (MutexWait m) t ?fl ?k1 = Some k1" "wait_time t time k1 = Some k2" "rt_schedule k2 = Some k'" "sys_okb b i k'"
    "rt_current_thread k' \<noteq> Some t" "state_of k' t = RT_THREAD_SUSPEND" "tlist k' (MutexWait m) = enqueued (prio ?k1) ?fl t (tlist k (MutexWait m))"
    "kmutexes k' = kmutexes k" "prio k' = prio ?k1" using h(7) by (auto simp: fun_eq_iff)
  have "rt_mutex_take m time k = Some (None, k')"
    using m assms(2,4) k'(1-3,5) h(5) by (simp add: rt_mutex_take_def in_thread_def Let_def inherited_def [symmetric] when_back_def)
  moreover have "prio k' ow = min (prio k ow) (prio k t)" unfolding k'(9) using h(2) [of ow] k0(3) by simp
  moreover have q: "quiet k ?k1" using quiet_trans [OF quiet_thread h(8)] by simp
  then have "deadlines_ok k' \<and> rt_interrupt_nest k' = 0" if "deadlines_ok k"
    using block_timers [OF h(1) quiet_timers [OF q that] h(3) k'(1-3)] assms(4) by (simp add: quiet_def)
  ultimately show ?thesis using k' by auto
qed

lemma mutex_take_ok:
  assumes "sys_okb b i k" "rt_current_thread k = Some t" "t \<noteq> i" "rt_interrupt_nest k = 0" "time < 0x7FFFFFFF" "mutex_ok (kmutexes k m)"
  shows "\<exists>r k' x. rt_mutex_take m time k = Some (r, k') \<and> sys_okb b i k' \<and> kmutexes k' = (kmutexes k)(m := x) \<and>
    (case m_owner (kmutexes k m) of
       None \<Rightarrow> r = Some RT_EOK \<and> x = (kmutexes k m)\<lparr>m_value := 0, m_owner := Some t, original_priority := prio k t, hold := 1\<rparr>
     | Some ow \<Rightarrow>
         if ow = t then r = Some RT_EOK \<and> x = (kmutexes k m)\<lparr>hold := hold (kmutexes k m) + 1\<rparr>
         else x = kmutexes k m \<and>
           (if time = 0 then r = Some (- RT_ETIMEOUT)
            else r = None \<and> state_of k' t = RT_THREAD_SUSPEND \<and> prio k' ow = min (prio k ow) (prio k t) \<and>
              tlist k' (MutexWait m) = enqueued (prio k') (m_flag (kmutexes k m)) t (tlist k (MutexWait m))))"
proof -
  let ?k = "upd_thread t (\<lambda>x. x\<lparr>t_error := RT_EOK\<rparr>) k"
  have k0: "sys_okb b i ?k" "rt_current_thread ?k = Some t" "prio ?k = prio k" "kmutexes ?k = kmutexes k" "tlist ?k = tlist k"
    using assms(1,2) by (auto simp: sys_okb_def in_order_def harmless_inv harmless_reads)
  have it: "in_thread k" using assms(2,4) by (simp add: in_thread_def)
  have ls: "lists_ok k" using assms(1) by (simp add: sys_okb_def in_order_def kernel_inv_def)
  show ?thesis
  proof (cases "m_owner (kmutexes k m)")
    case None
    then have v: "m_value (kmutexes k m) = 1" "hold (kmutexes k m) = 0" using assms(6) by (simp_all add: mutex_ok_def)
    let ?f = "\<lambda>x. x\<lparr>m_value := m_value x - 1, m_owner := Some t, original_priority := prio ?k t, hold := hold x + 1\<rparr>"
    have "rt_mutex_take m time k = Some (Some RT_EOK, upd_mutex m ?f ?k)"
      using None v it assms(2) by (simp add: rt_mutex_take_def Let_def)
    moreover have "sys_okb b i (upd_mutex m ?f ?k)" by (rule upd_mutex_sys [OF k0(1)]) simp
    ultimately show ?thesis using None v k0(3) by auto
  next
    case (Some ow)
    then have v: "m_value (kmutexes k m) = 0" using assms(6) by (simp add: mutex_ok_def)
    show ?thesis
    proof (cases "ow = t")
      case True
      let ?f = "\<lambda>x :: rt_mutex. x\<lparr>hold := hold x + 1\<rparr>"
      have "rt_mutex_take m time k = Some (Some RT_EOK, upd_mutex m ?f ?k)" using Some True it assms(2) by (simp add: rt_mutex_take_def Let_def)
      moreover have "sys_okb b i (upd_mutex m ?f ?k)" by (rule upd_mutex_sys [OF k0(1)]) (use Some in simp)
      ultimately show ?thesis using Some True by auto
    next
      case ne: False
      show ?thesis
      proof (cases "time = 0")
        case True
        let ?k' = "upd_thread t (\<lambda>x. x\<lparr>t_error := - RT_ETIMEOUT\<rparr>) ?k"
        have "rt_mutex_take m time k = Some (Some (- RT_ETIMEOUT), ?k')" using Some ne True v it assms(2) by (simp add: rt_mutex_take_def Let_def)
        moreover have "sys_okb b i ?k'" using k0(1) by (simp add: harmless_sys)
        ultimately show ?thesis using Some ne True by auto
      next
        case False
        from mutex_wait_ok [OF assms(1-5) Some ne _ False] v obtain k' where "rt_mutex_take m time k = Some (None, k')" "sys_okb b i k'"
          "state_of k' t = RT_THREAD_SUSPEND" "tlist k' (MutexWait m) = enqueued (prio k') (m_flag (kmutexes k m)) t (tlist k (MutexWait m))"
          "kmutexes k' = kmutexes k" "prio k' ow = min (prio k ow) (prio k t)" by auto
        then show ?thesis using Some ne False by (auto simp: fun_upd_idem)
      qed
    qed
  qed
qed

lemma mutex_take_timers:
  assumes "sys_okb b i k" "rt_current_thread k = Some t" "t \<noteq> i" "rt_interrupt_nest k = 0" "time < 0x7FFFFFFF" "mutex_ok (kmutexes k m)"
    and "deadlines_ok k" "rt_mutex_take m time k = Some (r, k')"
  shows "deadlines_ok k' \<and> rt_interrupt_nest k' = 0"
proof (cases "\<exists>ow. m_owner (kmutexes k m) = Some ow \<and> ow \<noteq> t \<and> time \<noteq> 0")
  case True
  then obtain ow where m: "m_owner (kmutexes k m) = Some ow" "ow \<noteq> t" "time \<noteq> 0" by auto
  then show ?thesis using mutex_wait_ok [OF assms(1-5) m(1,2) _ m(3)] assms(6-8) by (auto simp: mutex_ok_def)
next
  case False
  have q: "quiet k (upd_thread t (\<lambda>x. x\<lparr>t_error := e\<rparr>) k)" for e k by (rule quiet_thread) simp
  have "quiet k k'" using assms(8,2,6) False
    by (auto simp: rt_mutex_take_def Let_def upd_mutex_def in_thread_def when_back_def mutex_ok_def split: if_splits bind_splits option.splits
        intro: q quiet_trans [OF q q] quiet_trans [OF q quiet_lists(6)])
  then show ?thesis using quiet_timers quiet_nest assms(4,7) by auto
qed

section \<open>Releasing\<close>

lemma set_prio_order:
  assumes "sys_okb b i k" "rt_current_thread k = Some t" "p < 32"
  shows "in_order i (set_prio t p k)"
  using assms set_prio_inv [OF _ _ assms(3), of k t] by (auto simp: in_order_def elim!: sys_okD)

text \<open>The state before the mutex is passed on: the holder is back at its own priority.\<close>

lemma mutex_release_last:
  assumes "sys_okb b i k" "rt_current_thread k = Some t" "rt_interrupt_nest k = 0" "mutex_ok (kmutexes k m)" "m_owner (kmutexes k m) = Some t" "hold (kmutexes k m) = 1"
  obtains k1 where "in_order i k1" "rt_current_thread k1 = Some t" "prio k1 = (prio k)(t := original_priority (kmutexes k m))" "state_of k1 = state_of k"
    "tlist k1 = tlist k" "quiet k k1" "kmutexes k1 = (kmutexes k)(m := (kmutexes k m)\<lparr>hold := 0\<rparr>)" "ksems k1 = ksems k"
    "rt_mutex_release m k = (if tlist k (MutexWait m) \<noteq> [] then do {
        let w = hd (tlist k (MutexWait m));
        k \<leftarrow> rt_schedule (rt_ipc_list_resume (MutexWait m) (upd_mutex m (\<lambda>x. x\<lparr>m_owner := Some w, original_priority := prio k1 w, hold := hold x + 1\<rparr>) k1));
        Some (RT_EOK, k)
      } else Some (RT_EOK, upd_mutex m (\<lambda>x. x\<lparr>m_value := m_value x + 1, m_owner := None, original_priority := 0xFF\<rparr>) k1))"
proof -
  let ?op = "original_priority (kmutexes k m)"
  define k0 where "k0 = upd_mutex m (\<lambda>x. x\<lparr>hold := hold x - 1\<rparr>) k"
  define k1 where "k1 = (if ?op \<noteq> prio k t then set_prio t ?op k0 else k0)"
  have op: "?op < 32" using assms(4,5) by (simp add: mutex_ok_def)
  have s: "state_of k t = RT_THREAD_RUNNING" using current_prio [OF assms(1,2)] by simp
  have k0: "sys_okb b i k0" unfolding k0_def by (rule upd_mutex_sys [OF assms(1)]) (use assms(5) in simp)
  have r0: "rt_current_thread k0 = Some t" "prio k0 = prio k" "state_of k0 = state_of k" "tlist k0 = tlist k" "ksems k0 = ksems k"
    "kmutexes k0 = (kmutexes k)(m := (kmutexes k m)\<lparr>hold := 0\<rparr>)" "quiet k k0"
    using assms(2,6) quiet_lists(6) by (auto simp: k0_def upd_mutex_def)
  have c: "change_priority t p k0 = set_prio t p k0" for p using s r0(3) by (simp add: change_priority_def)
  show thesis
  proof (rule that)
    show "in_order i k1" using set_prio_order [OF k0 r0(1) op] sys_in_order [OF k0] by (simp add: k1_def)
    show "rt_current_thread k1 = Some t" "prio k1 = (prio k)(t := ?op)" "state_of k1 = state_of k" "tlist k1 = tlist k" "ksems k1 = ksems k"
      "kmutexes k1 = (kmutexes k)(m := (kmutexes k m)\<lparr>hold := 0\<rparr>)" using r0 by (auto simp: k1_def fun_eq_iff)
    show "quiet k k1" using r0(7) quiet_trans [OF r0(7) quiet_thread] by (auto simp: k1_def set_prio_def)
  qed (use assms(2,3,5,6) r0 c in \<open>simp add: rt_mutex_release_def in_thread_def k1_def Let_def flip: k0_def\<close>)
qed

text \<open>With threads that wait, the first of them gets the mutex; the thread of the highest priority runs on.\<close>

lemma mutex_handover:
  assumes "sys_okb b i k" "rt_current_thread k = Some t" "rt_interrupt_nest k = 0" "mutex_ok (kmutexes k m)" "m_owner (kmutexes k m) = Some t" "hold (kmutexes k m) = 1"
    and q: "tlist k (MutexWait m) = w # ws"
  shows "\<exists>k'. rt_mutex_release m k = Some (RT_EOK, k') \<and> sys_okb b i k' \<and> prio k' = (prio k)(t := original_priority (kmutexes k m)) \<and>
    tlist k' (MutexWait m) = ws \<and> state_of k' w \<in> {RT_THREAD_READY, RT_THREAD_RUNNING} \<and> prio k w < 32 \<and> quiet k k' \<and>
    kmutexes k' = (kmutexes k)(m := (kmutexes k m)\<lparr>m_owner := Some w, original_priority := prio k w, hold := 1\<rparr>)"
proof -
  obtain k1 where k1: "in_order i k1" "rt_current_thread k1 = Some t" "prio k1 = (prio k)(t := original_priority (kmutexes k m))" "state_of k1 = state_of k"
    "tlist k1 = tlist k" "quiet k k1" "kmutexes k1 = (kmutexes k)(m := (kmutexes k m)\<lparr>hold := 0\<rparr>)"
    and e: "rt_mutex_release m k = do {
        k \<leftarrow> rt_schedule (rt_ipc_list_resume (MutexWait m) (upd_mutex m (\<lambda>x. x\<lparr>m_owner := Some w, original_priority := prio k1 w, hold := hold x + 1\<rparr>) k1));
        Some (RT_EOK, k)
      }" using q by (auto intro: mutex_release_last [OF assms(1-6)])
  let ?k2 = "upd_mutex m (\<lambda>x. x\<lparr>m_owner := Some w, original_priority := prio k1 w, hold := hold x + 1\<rparr>) k1"
  have "thread_ok k w" "in_list k (MutexWait m) w" using assms(1) q by (auto simp: sys_okb_def in_order_def kernel_inv_def in_list_def)
  then have w: "state_of k w = RT_THREAD_SUSPEND" "prio k w < 32" by (auto simp: thread_ok_def alive_def)
  then have wt: "w \<noteq> t" using current_prio [OF assms(1,2)] by auto
  have o2: "in_order i ?k2" using k1(1) upd_mutex_inv [of k1 m] by (auto simp: in_order_def)
  have q2: "tlist ?k2 (MutexWait m) = w # ws" using q k1(5) by simp
  from resume_first_sys [where b = b, OF o2 q2] obtain k' where k': "rt_schedule (rt_ipc_list_resume (MutexWait m) ?k2) = Some k'" "sys_okb b i k'" "tlist k' (MutexWait m) = ws"
    "state_of k' w \<in> {RT_THREAD_READY, RT_THREAD_RUNNING}" "kmutexes k' = kmutexes ?k2" "prio k' = prio ?k2" by (auto simp: fun_eq_iff)
  have "quiet k ?k2" unfolding upd_mutex_def by (rule quiet_trans [OF k1(6) quiet_lists(6)])
  moreover have "quiet ?k2 k'" using quiet_trans [OF quiet_resume quiet_schedule [OF k'(1)[unfolded rt_ipc_list_resume_def]]] .
  ultimately have "quiet k k'" by (rule quiet_trans)
  then show ?thesis using e k' k1(3,7) w(2) wt by auto
qed

text \<open>Without, the mutex is free. The thread keeps the processor, whatever its own priority is.\<close>

lemma mutex_freed:
  assumes "sys_okb b i k" "rt_current_thread k = Some t" "rt_interrupt_nest k = 0" "mutex_ok (kmutexes k m)" "m_owner (kmutexes k m) = Some t" "hold (kmutexes k m) = 1"
    and q: "tlist k (MutexWait m) = []"
  shows "\<exists>k'. rt_mutex_release m k = Some (RT_EOK, k') \<and> in_order i k' \<and> prio k' = (prio k)(t := original_priority (kmutexes k m)) \<and>
    rt_current_thread k' = Some t \<and> state_of k' = state_of k \<and> quiet k k' \<and>
    kmutexes k' = (kmutexes k)(m := (kmutexes k m)\<lparr>m_value := 1, m_owner := None, original_priority := 0xFF, hold := 0\<rparr>)"
proof -
  obtain k1 where k1: "in_order i k1" "rt_current_thread k1 = Some t" "prio k1 = (prio k)(t := original_priority (kmutexes k m))" "state_of k1 = state_of k"
    "tlist k1 = tlist k" "quiet k k1" "kmutexes k1 = (kmutexes k)(m := (kmutexes k m)\<lparr>hold := 0\<rparr>)"
    and e: "rt_mutex_release m k = Some (RT_EOK, upd_mutex m (\<lambda>x. x\<lparr>m_value := m_value x + 1, m_owner := None, original_priority := 0xFF\<rparr>) k1)"
    using q by (auto intro: mutex_release_last [OF assms(1-6)])
  let ?k = "upd_mutex m (\<lambda>x. x\<lparr>m_value := m_value x + 1, m_owner := None, original_priority := 0xFF\<rparr>) k1"
  have "m_value (kmutexes k m) = 0" using assms(4,5) by (simp add: mutex_ok_def)
  moreover have "in_order i ?k" using k1(1,5) q upd_mutex_inv [of k1 m] by (auto simp: in_order_def)
  moreover have "quiet k ?k" unfolding upd_mutex_def by (rule quiet_trans [OF k1(6) quiet_lists(6)])
  ultimately show ?thesis using e k1 by auto
qed

lemma in_order_sys:
  assumes "in_order i k" "rt_current_thread k = Some t" "\<And>u. b \<Longrightarrow> state_of k u = RT_THREAD_READY \<Longrightarrow> prio k t \<le> prio k u"
  shows "sys_okb b i k"
  using assms by (auto simp: sys_okb_def in_order_def runs_highest_def)

end
