(* ===== verification/KernelSpec.thy ===== *)
theory KernelSpec
  imports KernelMutex CallSeq
begin

text \<open>
  The kernel as its tasks see it: how it is started, and any sequence of its calls.
\<close>

unbundle bit_operations_syntax

section \<open>Calls that leave the mutexes alone\<close>

lemma schedule_mutexes: "rt_schedule k = Some k' \<Longrightarrow> kmutexes k' = kmutexes k"
  by (auto simp: rt_schedule_def rt_schedule_insert_thread_def Let_def split: bind_splits prod.splits if_splits)

lemma suspend_mutexes: "rt_thread_suspend t k = Some (r, k') \<Longrightarrow> kmutexes k' = kmutexes k"
  by (auto simp: rt_thread_suspend_def split: if_splits)

lemma timer_start_mutexes: "rt_timer_start_k t k = Some k' \<Longrightarrow> kmutexes k' = kmutexes k"
  by (auto simp: rt_timer_start_k_def Let_def split: if_splits)

lemma resume_mutexes: "kmutexes (snd (rt_thread_resume t k)) = kmutexes k"
  by (simp add: rt_thread_resume_def)

lemma wait_time_mutexes: "wait_time t time k = Some k' \<Longrightarrow> kmutexes k' = kmutexes k"
  using timer_start_mutexes by (fastforce simp: wait_time_def rt_timer_set_time_k_def split: if_splits)

lemma ipc_suspend_mutexes: "rt_ipc_list_suspend_k l t flag k = Some k' \<Longrightarrow> kmutexes k' = kmutexes k"
  using suspend_mutexes by (fastforce simp: rt_ipc_list_suspend_k_def split: bind_splits ipc_flag.splits)

lemma sleep_for_mutexes: "sleep_for t n k = Some k' \<Longrightarrow> kmutexes k' = kmutexes k"
  using suspend_mutexes timer_start_mutexes schedule_mutexes
  by (fastforce simp: sleep_for_def rt_timer_set_time_k_def split: bind_splits)

text \<open>The tick interrupt keeps the mutexes and the nesting of interrupts.\<close>

lemma timeout_keeps:
  assumes "rt_thread_timeout t k = Some k'"
  shows "kmutexes k' = kmutexes k \<and> rt_interrupt_nest k' = rt_interrupt_nest k"
proof -
  have "rt_schedule (rt_schedule_insert_thread t (rt_list_remove t (upd_thread t (\<lambda>x. x\<lparr>t_error := - RT_ETIMEOUT\<rparr>) k))) = Some k'"
    using assms by (simp add: rt_thread_timeout_def Let_def split: if_splits)
  from schedule_mutexes [OF this] quiet_nest [OF quiet_schedule [OF this]] show ?thesis by simp
qed

lemma timer_check_step:
  assumes IH: "\<And>k k'. f k = Some k' \<Longrightarrow> kmutexes k' = kmutexes k \<and> rt_interrupt_nest k' = rt_interrupt_nest k"
    and e: "(case rt_timer_list k of [] \<Rightarrow> Some k
      | t # ts \<Rightarrow>
          if rt_tick k - tmr_timeout (thr k t) < RT_TICK_MAX div 2 then do {
            k \<leftarrow> rt_thread_timeout t (k\<lparr>rt_timer_list := ts\<rparr>);
            f (upd_thread t (\<lambda>x. x\<lparr>tmr_active := False\<rparr>) k)
          } else Some k) = Some k'"
  shows "kmutexes k' = kmutexes k \<and> rt_interrupt_nest k' = rt_interrupt_nest k"
proof (cases "k' = k")
  case False
  then obtain t ts k1 where "rt_thread_timeout t (k\<lparr>rt_timer_list := ts\<rparr>) = Some k1" "f (upd_thread t (\<lambda>x. x\<lparr>tmr_active := False\<rparr>) k1) = Some k'"
    using e by (auto split: list.splits if_splits bind_splits)
  from timeout_keeps [OF this(1)] IH [OF this(2)] show ?thesis by simp
qed simp

lemma timer_check_keeps:
  assumes "rt_timer_check k = Some k'"
  shows "kmutexes k' = kmutexes k \<and> rt_interrupt_nest k' = rt_interrupt_nest k"
  using timer_check_step assms by (rule rt_timer_check.raw_induct)

lemma tick_keeps:
  assumes "rt_tick_increase k = Some k'"
  shows "kmutexes k' = kmutexes k \<and> rt_interrupt_nest k' = rt_interrupt_nest k"
proof -
  obtain c where c: "rt_current_thread k = Some c" using assms by (auto simp: rt_tick_increase_def Let_def split: bind_splits)
  define k1 where "k1 = upd_thread c (\<lambda>x. x\<lparr>remaining_tick := remaining_tick x - 1\<rparr>) (k\<lparr>rt_tick := rt_tick k + 1\<rparr>)"
  obtain k2 where k2: "(if remaining_tick (thr k1 c) = 0
      then rt_schedule (upd_thread c (\<lambda>x. x\<lparr>remaining_tick := slice x, stat := stat x OR RT_THREAD_STAT_YIELD\<rparr>) k1) else Some k1) = Some k2"
    "rt_timer_check k2 = Some k'"
    using assms unfolding tick_increase_eq [OF c k1_def] rt_thread_yield_def by (auto simp: bind_eq_Some_conv)
  have "kmutexes k2 = kmutexes k1 \<and> rt_interrupt_nest k2 = rt_interrupt_nest k1"
    using k2(1) schedule_mutexes quiet_nest [OF quiet_schedule] by (fastforce split: if_splits)
  then show ?thesis using timer_check_keeps [OF k2(2)] by (simp add: k1_def)
qed

section \<open>Any sequence of calls\<close>

datatype kernel_call = Sleep u32 | SemTake nat int | SemRelease nat | MutexTake nat int | MutexRelease nat | Startup nat | Tick

text \<open>What the current thread calls, and the tick interrupt; the result is \<open>None\<close> while the thread waits.\<close>

fun kernel_do :: "kernel_call \<Rightarrow> kernel \<Rightarrow> (int option \<times> kernel) option" where
  "kernel_do (Sleep n) k = rt_thread_sleep n k"
| "kernel_do (SemTake s time) k = rt_sem_take_k s time k"
| "kernel_do (SemRelease s) k = map_option (Pair (Some RT_EOK)) (rt_sem_release_k s k)"
| "kernel_do (MutexTake m time) k = rt_mutex_take m time k"
| "kernel_do (MutexRelease m) k = map_option (\<lambda>(r, k). (Some r, k)) (rt_mutex_release m k)"
| "kernel_do (Startup t) k = map_option (Pair (Some RT_EOK)) (rt_thread_startup t k)"
| "kernel_do Tick k = map_option (Pair (Some RT_EOK)) (rt_tick_increase k)"

text \<open>
  The rules of the calls: the idle thread \<open>i\<close> does not wait, a wait is shorter than half the range of
  the clock, a mutex is taken at most 255 times in a row by its holder, and a thread is started once,
  with a priority below 32. There is no rule for giving a mutex back. With \<open>b\<close> there is one more, which
  the code needs for its scheduling: when no other thread waits for the mutex, its holder does not have
  a raised priority.
\<close>

fun kernel_legalb :: "bool \<Rightarrow> nat \<Rightarrow> kernel \<Rightarrow> kernel_call \<Rightarrow> bool" where
  "kernel_legalb b i k (Sleep n) \<longleftrightarrow> rt_current_thread k \<noteq> Some i \<and> n < RT_TICK_MAX div 2"
| "kernel_legalb b i k (SemTake s time) \<longleftrightarrow> rt_current_thread k \<noteq> Some i \<and> time < 0x7FFFFFFF"
| "kernel_legalb b i k (SemRelease s) \<longleftrightarrow> True"
| "kernel_legalb b i k (MutexTake m time) \<longleftrightarrow> rt_current_thread k \<noteq> Some i \<and> time < 0x7FFFFFFF \<and>
     (m_owner (kmutexes k m) = rt_current_thread k \<longrightarrow> hold (kmutexes k m) < 0xFF)"
| "kernel_legalb b i k (MutexRelease m) \<longleftrightarrow>
     (b \<and> m_owner (kmutexes k m) = rt_current_thread k \<and> hold (kmutexes k m) = 1 \<and> tlist k (MutexWait m) = [] \<longrightarrow>
     original_priority (kmutexes k m) \<le> prio k (the (rt_current_thread k)))"
| "kernel_legalb b i k (Startup t) \<longleftrightarrow> state_of k t = RT_THREAD_INIT \<and> init_priority (thr k t) < 32"
| "kernel_legalb b i k Tick \<longleftrightarrow> True"

definition kernel_runsb :: "bool \<Rightarrow> nat \<Rightarrow> kernel \<Rightarrow> bool" where
  "kernel_runsb b i k \<longleftrightarrow> sys_okb b i k \<and> deadlines_ok k \<and> rt_interrupt_nest k = 0 \<and> (\<forall>m. mutex_ok (kmutexes k m))"

text \<open>An intact system, one in which a thread of the highest priority runs, and the rules for each.\<close>

abbreviation kernel_intact :: "nat \<Rightarrow> kernel \<Rightarrow> bool" where
  "kernel_intact \<equiv> kernel_runsb False"

abbreviation kernel_runs :: "nat \<Rightarrow> kernel \<Rightarrow> bool" where
  "kernel_runs \<equiv> kernel_runsb True"

abbreviation kernel_legal :: "nat \<Rightarrow> kernel \<Rightarrow> kernel_call \<Rightarrow> bool" where
  "kernel_legal \<equiv> kernel_legalb False"

abbreviation kernel_legal_sched :: "nat \<Rightarrow> kernel \<Rightarrow> kernel_call \<Rightarrow> bool" where
  "kernel_legal_sched \<equiv> kernel_legalb True"

lemma kernel_runs_intact: "kernel_runs i k \<Longrightarrow> kernel_intact i k"
  by (simp add: kernel_runsb_def sys_okb_def)

lemma kernel_runsI:
  assumes "sys_okb b i k'" "deadlines_ok k'" "rt_interrupt_nest k' = 0" "kmutexes k' = (kmutexes k)(m := x)" "mutex_ok x" "kernel_runsb b i k"
  shows "kernel_runsb b i k'"
  using assms by (auto simp: kernel_runsb_def)

lemma kernel_runs_same:
  assumes "sys_okb b i k'" "deadlines_ok k'" "rt_interrupt_nest k' = 0" "kmutexes k' = kmutexes k" "kernel_runsb b i k"
  shows "kernel_runsb b i k'"
  using assms by (auto simp: kernel_runsb_def)

lemma kernel_runsD:
  assumes "kernel_runsb b i k"
  obtains t where "sys_okb b i k" "deadlines_ok k" "rt_interrupt_nest k = 0" "\<And>m. mutex_ok (kmutexes k m)" "rt_current_thread k = Some t" "state_of k t = RT_THREAD_RUNNING"
  using assms by (auto simp: kernel_runsb_def elim!: sys_okD)

lemma sleep_runs:
  assumes "kernel_runsb b i k" "kernel_legalb b i k (Sleep n)"
  shows "\<exists>k'. rt_thread_sleep n k = Some (None, k') \<and> kernel_runsb b i k'"
proof -
  obtain t where k: "sys_okb b i k" "deadlines_ok k" "rt_interrupt_nest k = 0" "rt_current_thread k = Some t" using assms(1) by (auto elim!: kernel_runsD)
  from sleep_for_ok [OF k(1,4)] assms(2) k(4) obtain k' where k': "sleep_for t n k = Some k'" "sys_okb b i k'" "rt_current_thread k' \<noteq> Some t" by auto
  note s = sleep_for_timers [OF k(1,2,4) k'(1)]
  have "kernel_runsb b i k'" by (rule kernel_runs_same [OF k'(2) s(1) _ sleep_for_mutexes [OF k'(1)] assms(1)]) (simp add: s(3) k(3))
  then show ?thesis using k(4) k' by (simp add: rt_thread_sleep_def when_back_def)
qed

lemma sem_take_timers:
  assumes "sys_okb b i k" "deadlines_ok k" "rt_interrupt_nest k = 0" "rt_current_thread k = Some t" "rt_sem_take_k s time k = Some (r, k')"
  shows "deadlines_ok k' \<and> rt_interrupt_nest k' = 0 \<and> kmutexes k' = kmutexes k"
proof (cases "ks_value (ksems k s) > 0 \<or> time = 0")
  case True
  have "quiet k k' \<and> kmutexes k' = kmutexes k" using True assms(5) by (auto simp: rt_sem_take_k_def upd_sem_def intro: quiet_lists split: if_splits)
  then show ?thesis using quiet_timers quiet_nest assms(2,3) by auto
next
  case False
  let ?k = "upd_thread t (\<lambda>x. x\<lparr>t_error := RT_EOK\<rparr>) k"
  obtain k1 k2 where k': "rt_ipc_list_suspend_k (SemWait s) t (ks_flag (ksems k s)) ?k = Some k1" "wait_time t time k1 = Some k2" "rt_schedule k2 = Some k'"
    using False assms(4,5) by (auto simp: rt_sem_take_k_def Let_def in_thread_def when_back_def split: bind_splits if_splits)
  have q: "quiet k ?k" by (rule quiet_thread) simp
  have "sys_okb b i ?k" "rt_current_thread ?k = Some t" using assms(1,4) by (auto simp: harmless_sys)
  from block_timers [OF this(1) quiet_timers [OF q assms(2)] this(2) k'] have "deadlines_ok k' \<and> rt_interrupt_nest k' = 0" using assms(3) by simp
  then show ?thesis using ipc_suspend_mutexes [OF k'(1)] wait_time_mutexes [OF k'(2)] schedule_mutexes [OF k'(3)] by simp
qed

lemma sem_take_runs:
  assumes "kernel_runsb b i k" "kernel_legalb b i k (SemTake s time)"
  shows "\<exists>r k'. rt_sem_take_k s time k = Some (r, k') \<and> kernel_runsb b i k'"
proof -
  obtain t where k: "sys_okb b i k" "deadlines_ok k" "rt_interrupt_nest k = 0" "rt_current_thread k = Some t" using assms(1) by (auto elim!: kernel_runsD)
  from sem_take_ok [OF k(1,4) _ k(3)] assms(2) k(4) obtain r k' where k': "rt_sem_take_k s time k = Some (r, k')" "sys_okb b i k'" by fastforce
  then show ?thesis using sem_take_timers [OF k k'(1)] assms(1) kernel_runs_same by blast
qed

lemma sem_release_runs:
  assumes "kernel_runsb b i k"
  shows "\<exists>k'. rt_sem_release_k s k = Some k' \<and> kernel_runsb b i k'"
proof -
  have k: "sys_okb b i k" "deadlines_ok k" "rt_interrupt_nest k = 0" using assms by (auto elim!: kernel_runsD)
  from sem_release_ok [OF k(1)] obtain k' where k': "rt_sem_release_k s k = Some k'" "sys_okb b i k'" by blast
  have "quiet k k' \<and> kmutexes k' = kmutexes k"
  proof (cases "tlist k (SemWait s) = []")
    case True
    then show ?thesis using k'(1) by (auto simp: rt_sem_release_k_def upd_sem_def intro: quiet_lists)
  next
    case False
    then have "rt_schedule (snd (rt_thread_resume (hd (tlist k (SemWait s))) k)) = Some k'" using k'(1) by (simp add: rt_sem_release_k_def rt_ipc_list_resume_def)
    from quiet_trans [OF quiet_resume quiet_schedule [OF this]] schedule_mutexes [OF this] show ?thesis by (simp add: resume_mutexes)
  qed
  then have "deadlines_ok k'" "rt_interrupt_nest k' = 0" "kmutexes k' = kmutexes k" using quiet_timers [of k k'] quiet_nest [of k k'] k by auto
  then show ?thesis using k' assms kernel_runs_same by blast
qed

lemma mutex_take_runs:
  assumes "kernel_runsb b i k" "kernel_legalb b i k (MutexTake m time)"
  shows "\<exists>r k'. rt_mutex_take m time k = Some (r, k') \<and> kernel_runsb b i k'"
proof -
  obtain t where k: "sys_okb b i k" "deadlines_ok k" "rt_interrupt_nest k = 0" "rt_current_thread k = Some t" and mx: "mutex_ok (kmutexes k m)"
    using assms(1) by (auto elim!: kernel_runsD)
  have l: "t \<noteq> i" "time < 0x7FFFFFFF" "m_owner (kmutexes k m) = Some t \<Longrightarrow> hold (kmutexes k m) < 0xFF" using assms(2) k(4) by auto
  note pre = k(1,4) l(1) k(3) l(2) mx
  let ?X = "\<lambda>x. x = (kmutexes k m)\<lparr>m_value := 0, m_owner := Some t, original_priority := prio k t, hold := 1\<rparr> \<or>
      m_owner (kmutexes k m) = Some t \<and> x = (kmutexes k m)\<lparr>hold := hold (kmutexes k m) + 1\<rparr> \<or> x = kmutexes k m"
  have "\<exists>r k' x. rt_mutex_take m time k = Some (r, k') \<and> sys_okb b i k' \<and> kmutexes k' = (kmutexes k)(m := x) \<and> ?X x"
    using mutex_take_ok [OF pre] by (elim exE, intro exI) (auto split: option.splits if_splits)
  then obtain r k' x where k': "rt_mutex_take m time k = Some (r, k')" "sys_okb b i k'" "kmutexes k' = (kmutexes k)(m := x)" and x: "?X x" by blast
  have "0 < hold (kmutexes k m) + 1" if "m_owner (kmutexes k m) = Some t" using l(3) [OF that]
    by (simp add: word_less_nat_alt unat_add_lem [THEN iffD1])
  then have "mutex_ok x" using x mx current_prio(1) [OF k(1,4)] by (auto simp: mutex_ok_def)
  moreover have "deadlines_ok k' \<and> rt_interrupt_nest k' = 0" using mutex_take_timers [OF pre k(2) k'(1)] .
  ultimately have "kernel_runsb b i k'" using kernel_runsI k'(2,3) assms(1) by blast
  then show ?thesis using k'(1) by blast
qed

lemma mutex_release_runs:
  assumes "kernel_runsb b i k" "kernel_legalb b i k (MutexRelease m)"
  shows "\<exists>r k'. rt_mutex_release m k = Some (r, k') \<and> kernel_runsb b i k'"
proof -
  obtain t where k: "sys_okb b i k" "deadlines_ok k" "rt_interrupt_nest k = 0" "rt_current_thread k = Some t" and mx: "mutex_ok (kmutexes k m)"
    using assms(1) by (auto elim!: kernel_runsD)
  have run: "kernel_runsb b i k'" if "sys_okb b i k'" "quiet k k'" "kmutexes k' = (kmutexes k)(m := x)" "mutex_ok x" for k' x
    using kernel_runsI [OF that(1) quiet_timers [OF that(2) k(2)] _ that(3,4) assms(1)] quiet_nest [OF that(2)] k(3) by simp
  consider "m_owner (kmutexes k m) \<noteq> Some t" | "m_owner (kmutexes k m) = Some t" "hold (kmutexes k m) \<noteq> 1"
    | "m_owner (kmutexes k m) = Some t" "hold (kmutexes k m) = 1" by blast
  then show ?thesis
  proof cases
    case 1
    let ?k = "upd_thread t (\<lambda>x. x\<lparr>t_error := - RT_ERROR\<rparr>) k"
    have "rt_mutex_release m k = Some (- RT_ERROR, ?k)" using 1 k(3,4) by (simp add: rt_mutex_release_def in_thread_def)
    moreover have "kernel_runsb b i ?k" by (rule run [of _ "kmutexes k m"]) (use k(1) mx in \<open>auto simp: harmless_sys intro: quiet_thread\<close>)
    ultimately show ?thesis by blast
  next
    case 2
    let ?k = "upd_mutex m (\<lambda>x. x\<lparr>hold := hold x - 1\<rparr>) k"
    have h: "hold (kmutexes k m) - 1 \<noteq> 0" using 2(2) by simp
    have "rt_mutex_release m k = Some (RT_EOK, ?k)" using 2(1) h k(3,4) by (simp add: rt_mutex_release_def in_thread_def Let_def)
    moreover have "sys_okb b i ?k" by (rule upd_mutex_sys [OF k(1)]) (use 2 in simp)
    then have "kernel_runsb b i ?k" by (rule run) (use h mx 2 in \<open>auto simp: upd_mutex_def mutex_ok_def word_gt_0 intro: quiet_lists\<close>)
    ultimately show ?thesis by blast
  next
    case 3
    note pre = k(1,4,3) mx 3
    show ?thesis
    proof (cases "tlist k (MutexWait m)")
      case Nil
      from mutex_freed [OF pre Nil] obtain k' where k': "rt_mutex_release m k = Some (RT_EOK, k')" "in_order i k'"
        "prio k' = (prio k)(t := original_priority (kmutexes k m))" "rt_current_thread k' = Some t" "state_of k' = state_of k" "quiet k k'"
        "kmutexes k' = (kmutexes k)(m := (kmutexes k m)\<lparr>m_value := 1, m_owner := None, original_priority := 0xFF, hold := 0\<rparr>)" by blast
      have "b \<Longrightarrow> original_priority (kmutexes k m) \<le> prio k t" using assms(2) Nil 3 k(4) by simp
      then have "prio k' t \<le> prio k' u" if b "state_of k' u = RT_THREAD_READY" for u
        using that k'(3,5) k(1,4) by (auto simp: sys_okb_def runs_highest_def intro: order_trans)
      then have "sys_okb b i k'" using in_order_sys [OF k'(2,4)] by blast
      then have "kernel_runsb b i k'" using run [OF _ k'(6,7)] by (simp add: mutex_ok_def)
      then show ?thesis using k'(1) by blast
    next
      case (Cons w ws)
      from mutex_handover [OF pre Cons] obtain k' where k': "rt_mutex_release m k = Some (RT_EOK, k')" "sys_okb b i k'" "prio k w < 32" "quiet k k'"
        "kmutexes k' = (kmutexes k)(m := (kmutexes k m)\<lparr>m_owner := Some w, original_priority := prio k w, hold := 1\<rparr>)" by blast
      then have "kernel_runsb b i k'" using run [OF k'(2,4,5)] mx 3(1) by (simp add: mutex_ok_def)
      then show ?thesis using k'(1) by blast
    qed
  qed
qed

lemma startup_runs:
  assumes "kernel_runsb b i k" "kernel_legalb b i k (Startup t)"
  shows "\<exists>k'. rt_thread_startup t k = Some k' \<and> kernel_runsb b i k'"
proof -
  have k: "sys_okb b i k" "deadlines_ok k" "rt_interrupt_nest k = 0" "rt_current_thread k \<noteq> None" using assms(1) by (auto elim!: kernel_runsD)
  from thread_startup_ok [OF k(1)] assms(2) obtain k' where k': "rt_thread_startup t k = Some k'" "sys_okb b i k'" by auto
  let ?k1 = "upd_thread t (\<lambda>x. x\<lparr>current_priority := init_priority x, number_mask := push_bit (init_priority x) 1, stat := RT_THREAD_SUSPEND\<rparr>) k"
  let ?k2 = "snd (rt_thread_resume t ?k1)"
  have "rt_current_thread ?k2 \<noteq> None" using k(4) by (simp add: rt_thread_resume_def)
  then have e: "rt_schedule ?k2 = Some k'" using k'(1) assms(2) by (simp add: rt_thread_startup_def Let_def)
  have "quiet k ?k1" by (rule quiet_thread) simp
  then have q: "quiet k k'" using quiet_trans [OF _ quiet_trans [OF quiet_resume quiet_schedule [OF e]]] by blast
  have "kmutexes k' = kmutexes k" using schedule_mutexes [OF e] by (simp add: resume_mutexes)
  then show ?thesis using kernel_runs_same [OF k'(2) quiet_timers [OF q k(2)] _ _ assms(1)] quiet_nest [OF q] k(3) k'(1) by simp
qed

lemma tick_runs:
  assumes "kernel_runsb b i k"
  shows "\<exists>k'. rt_tick_increase k = Some k' \<and> kernel_runsb b i k'"
proof -
  have k: "sys_okb b i k" "deadlines_ok k" "rt_interrupt_nest k = 0" using assms by (auto elim!: kernel_runsD)
  from tick_increase_ok [OF k(1,2)] obtain k' where k': "rt_tick_increase k = Some k'" "sys_okb b i k'" "deadlines_ok k'" by blast
  then show ?thesis using tick_keeps [OF k'(1)] kernel_runs_same [OF k'(2,3) _ _ assms] k(3) by simp
qed

interpretation rt_kernel: call_service "kernel_runsb b i" kernel_do "kernel_legalb b i" for b i
proof
  fix k c
  assume a: "kernel_runsb b i k" "kernel_legalb b i k c"
  show "\<exists>r k'. kernel_do c k = Some (r, k') \<and> kernel_runsb b i k'"
  proof (cases c)
    case (Sleep n)
    then show ?thesis using sleep_runs a by fastforce
  next
    case (SemTake s time)
    then show ?thesis using sem_take_runs a by fastforce
  next
    case (SemRelease s)
    then show ?thesis using sem_release_runs [OF a(1), of s] by fastforce
  next
    case (MutexTake m time)
    then show ?thesis using mutex_take_runs a by fastforce
  next
    case (MutexRelease m)
    then show ?thesis using mutex_release_runs [OF a(1), of m] a(2) by fastforce
  next
    case (Startup t)
    then show ?thesis using startup_runs [OF a(1), of t] a(2) by fastforce
  next
    case Tick
    then show ?thesis using tick_runs [OF a(1)] by fastforce
  qed
qed

section \<open>Starting the system\<close>

text \<open>Memory after a reset: no thread was ever started, no thread waits, the mutexes are free.\<close>

definition reset_state :: "kernel \<Rightarrow> bool" where
  "reset_state k \<longleftrightarrow> (\<forall>t. state_of k t = RT_THREAD_INIT) \<and> (\<forall>p\<ge>32. tlist k (Ready p) = []) \<and> (\<forall>s. tlist k (SemWait s) = []) \<and>
     (\<forall>m. tlist k (MutexWait m) = []) \<and> rt_current_thread k = None \<and> rt_interrupt_nest k = 0 \<and>
     (\<forall>m. m_value (kmutexes k m) = 1 \<and> m_owner (kmutexes k m) = None \<and> hold (kmutexes k m) = 0)"

lemma scheduler_init_inv:
  assumes "reset_state k" "k' = rt_system_scheduler_init (rt_system_timer_init k)"
  shows "kernel_inv k'" "rt_current_thread k' = None" "rt_scheduler_lock_nest k' = 0" "state_of k' t = RT_THREAD_INIT" "rt_timer_list k' = []"
    "rt_interrupt_nest k' = 0" "mutex_ok (kmutexes k' m)"
proof -
  have e: "tlist k' l = []" for l using assms by (cases l) (auto simp: rt_system_scheduler_init_def rt_system_timer_init_def reset_state_def)
  have r: "state_of k' t = RT_THREAD_INIT" "rt_current_thread k' = None" "rt_timer_list k' = []" "rt_thread_ready_priority_group k' = 0" for t
    using assms by (auto simp: rt_system_scheduler_init_def rt_system_timer_init_def reset_state_def state_of_def)
  show "kernel_inv k'" using e r by (simp add: kernel_inv_def thread_ok_def lists_ok_def current_ok_def in_list_def alive_def)
  show "rt_current_thread k' = None" "rt_scheduler_lock_nest k' = 0" "state_of k' t = RT_THREAD_INIT" "rt_timer_list k' = []" "rt_interrupt_nest k' = 0"
    "mutex_ok (kmutexes k' m)"
    using assms r by (auto simp: rt_system_scheduler_init_def rt_system_timer_init_def reset_state_def mutex_ok_def)
qed

text \<open>A thread that is made and started before the scheduler runs.\<close>

lemma make_thread:
  assumes "kernel_inv k" "rt_current_thread k = None" "state_of k t = RT_THREAD_INIT" "p < 32"
  obtains k' where "rt_thread_init t p n k \<bind> rt_thread_startup t = Some k'" "kernel_inv k'" "rt_current_thread k' = None" "only t k k'"
    "state_of k' t = RT_THREAD_READY" "prio k' t = p" "rt_scheduler_lock_nest k' = rt_scheduler_lock_nest k"
    "kmutexes k' = kmutexes k" "rt_interrupt_nest k' = rt_interrupt_nest k" "rt_timer_list k' = removeAll t (rt_timer_list k)"
proof -
  let ?x = "\<lparr>init_priority = p, current_priority = p, number_mask = 0, slice = n, remaining_tick = n, stat = RT_THREAD_INIT, t_error = RT_EOK,
    tmr_init = 0, tmr_timeout = 0, tmr_active = False\<rparr>"
  define k0 where "k0 = k\<lparr>thr := (thr k)(t := ?x)\<rparr>"
  have i: "rt_thread_init t p n k = Some k0" using assms(4) by (simp add: rt_thread_init_def k0_def)
  have o: "only t k k0" by (simp add: k0_def only_def in_list_def)
  have s: "state_of k0 = state_of k" "tlist k0 = tlist k" "rt_timer_list k0 = rt_timer_list k" "rt_current_thread k0 = None" "init_priority (thr k0 t) = p"
    using assms(2,3) by (auto simp: k0_def state_of_def)
  have th: "thread_ok k t" using assms(1) by (simp add: kernel_inv_def)
  then have nt: "t \<notin> set (rt_timer_list k)" using assms(3) by (auto simp: thread_ok_def)
  have "kernel_inv k0"
  proof (rule kernel_inv_only [OF o])
    show "thread_ok k0 t" using th assms(3) nt unfolding thread_ok_def in_list_def alive_def s by simp
    show "current_ok k0" "lists_ok k0" "\<And>t. thread_ok k t" using assms(1) unfolding kernel_inv_def current_ok_def lists_ok_def s by (auto simp: k0_def assms(2))
  qed
  note r = startup_resumed [OF this _ _ refl refl, of t, unfolded s, OF assms(3,4)]
  let ?k2 = "snd (rt_thread_resume t (upd_thread t (\<lambda>x. x\<lparr>current_priority := init_priority x, number_mask := push_bit (init_priority x) 1, stat := RT_THREAD_SUSPEND\<rparr>) k0))"
  have st: "rt_thread_startup t k0 = Some ?k2" using r(4) s(1) assms(3) by (simp add: rt_thread_startup_def Let_def)
  have "rt_interrupt_nest ?k2 = rt_interrupt_nest k" using quiet_nest [OF quiet_resume] by (simp add: k0_def)
  moreover have "rt_timer_list ?k2 = removeAll t (rt_timer_list k)" using nt by (simp add: rt_thread_resume_def rt_timer_stop_k_def removeAll_id k0_def)
  ultimately show thesis using that [of ?k2] i st r only_trans [OF o r(2)] by (simp add: resume_mutexes k0_def)
qed

text \<open>The first thread of the highest priority starts.\<close>

lemma scheduler_start_ok:
  assumes "kernel_inv k" "rt_current_thread k = None" "rt_scheduler_lock_nest k = 0" "state_of k i = RT_THREAD_READY"
  obtains k' c where "rt_system_scheduler_start k = Some k'" "sys_okb b i k'" "rt_current_thread k' = Some c" "state_of k c = RT_THREAD_READY" "prio k' = prio k"
    "\<And>t. t \<noteq> c \<Longrightarrow> state_of k' t = state_of k t" "kmutexes k' = kmutexes k" "rt_interrupt_nest k' = rt_interrupt_nest k" "rt_timer_list k' = rt_timer_list k"
proof -
  have g: "rt_thread_ready_priority_group k \<noteq> 0" using none_ready [OF assms(1)] assms(4) by auto
  obtain c p where hp: "get_highest_priority_thread k = (c, p)" by fastforce
  note h = highest_ready [OF assms(1) g hp]
  let ?k1 = "rt_schedule_remove_thread c (k\<lparr>rt_current_thread := Some c\<rparr>)"
  let ?k = "upd_thread c (\<lambda>x. x\<lparr>stat := RT_THREAD_RUNNING\<rparr>) ?k1"
  have th: "\<And>t. thread_ok k t" and ls: "lists_ok k" and cu: "current_ok k" using assms(1) by (auto simp: kernel_inv_def)
  have s: "state_of ?k u = (if u = c then RT_THREAD_RUNNING else state_of k u)" "prio ?k u = prio k u" for u by (auto simp: state_of_def prio_def)
  have k0: "thread_ok (k\<lparr>rt_current_thread := Some c\<rparr>) t = thread_ok k t" "lists_ok (k\<lparr>rt_current_thread := Some c\<rparr>) = lists_ok k"
    "alive (k\<lparr>rt_current_thread := Some c\<rparr>) c" for t
    using h(1) by (simp_all add: thread_ok_def alive_def lists_ok_def in_list_def)
  have "kernel_inv ?k"
  proof (rule kernel_inv_only)
    show "only c (k\<lparr>rt_current_thread := Some c\<rparr>) ?k" by (rule only_trans [OF only_remove only_steps(1)])
    show "thread_ok (k\<lparr>rt_current_thread := Some c\<rparr>) t" for t using th k0 by simp
    show "thread_ok ?k c" using th [of c] h(1) unfolding thread_ok_def in_list_def alive_def s by auto
    have "lists_ok ?k1" by (rule remove_lists) (use k0 th ls in simp_all)
    then show "lists_ok ?k" unfolding lists_ok_def upd_thread_other .
    show "current_ok ?k" using cu assms(2) unfolding current_ok_def s by auto
  qed
  moreover have "rt_system_scheduler_start k = Some ?k" using g hp by (simp add: rt_system_scheduler_start_def)
  moreover have "prio ?k = prio k" using s(2) by (simp add: fun_eq_iff)
  moreover have "runs_highest ?k" unfolding runs_highest_def s using h(2,5) by auto
  moreover have "rt_scheduler_lock_nest ?k = 0" "state_of ?k i \<in> {RT_THREAD_READY, RT_THREAD_RUNNING}" using assms(3,4) by (simp_all add: s)
  ultimately show thesis using h(1) by (intro that [of ?k c] sys_okI) (simp_all add: s)
qed

end
