(* ===== verification/KernelClaims.thy ===== *)
theory KernelClaims
  imports KernelSpec
begin

text \<open>
  The properties of the kernel core, with a small system as the example: the three threads the kernel
  starts itself.
\<close>

unbundle bit_operations_syntax

section \<open>The start\<close>

lemma rtthread_startup_runs:
  assumes "reset_state k" "distinct [m, t, i]"
  shows "\<exists>k'. rtthread_startup m t i k = Some k' \<and> kernel_runs i k' \<and> rt_current_thread k' = Some t \<and>
    state_of k' m = RT_THREAD_READY \<and> state_of k' i = RT_THREAD_READY \<and> prio k' m = 10 \<and> prio k' t = 4 \<and> prio k' i = 31 \<and> rt_timer_list k' = []"
proof -
  define k0 where "k0 = rt_system_scheduler_init (rt_system_timer_init k)"
  note i0 = scheduler_init_inv [OF assms(1) k0_def]
  obtain k1 where k1: "rt_application_init m k0 = Some k1" "kernel_inv k1" "rt_current_thread k1 = None" "only m k0 k1" "state_of k1 m = RT_THREAD_READY" "prio k1 m = 10"
    "rt_scheduler_lock_nest k1 = 0" "kmutexes k1 = kmutexes k0" "rt_interrupt_nest k1 = 0" "rt_timer_list k1 = []"
    using i0 by (auto simp: rt_application_init_def intro: make_thread [OF i0(1,2,4), of 10 m 20])
  have s1: "state_of k1 u = RT_THREAD_INIT" if "u \<noteq> m" for u using only_reads [OF k1(4) that] i0(4) by simp
  obtain k2 where k2: "rt_system_timer_thread_init t k1 = Some k2" "kernel_inv k2" "rt_current_thread k2 = None" "only t k1 k2" "state_of k2 t = RT_THREAD_READY" "prio k2 t = 4"
    "rt_scheduler_lock_nest k2 = 0" "kmutexes k2 = kmutexes k0" "rt_interrupt_nest k2 = 0" "rt_timer_list k2 = []"
    using k1 s1 [of t] assms(2) by (auto simp: rt_system_timer_thread_init_def intro: make_thread [OF k1(2,3), of t 4 10])
  have s2: "state_of k2 u = RT_THREAD_INIT" if "u \<noteq> m" "u \<noteq> t" for u using only_reads [OF k2(4) that(2)] s1 [OF that(1)] by simp
  obtain k3 where k3: "rt_thread_idle_init i k2 = Some k3" "kernel_inv k3" "rt_current_thread k3 = None" "only i k2 k3" "state_of k3 i = RT_THREAD_READY" "prio k3 i = 31"
    "rt_scheduler_lock_nest k3 = 0" "kmutexes k3 = kmutexes k0" "rt_interrupt_nest k3 = 0" "rt_timer_list k3 = []"
    using k2 s2 [of i] assms(2) by (auto simp: rt_thread_idle_init_def intro: make_thread [OF k2(2,3), of i 31 32])
  have s3: "state_of k3 u = (if u \<in> {m, t, i} then RT_THREAD_READY else RT_THREAD_INIT)" "prio k3 m = 10" "prio k3 t = 4" for u
    using only_reads [OF k3(4), of u] only_reads [OF k2(4), of u] only_reads [OF k3(4), of m] only_reads [OF k2(4), of m] only_reads [OF k3(4), of t]
      s2 [of u] k1(5,6) k2(5,6) k3(5) assms(2) by auto
  obtain k' c where k': "rt_system_scheduler_start k3 = Some k'" "sys_ok i k'" "rt_current_thread k' = Some c" "state_of k3 c = RT_THREAD_READY" "prio k' = prio k3"
    "\<And>t. t \<noteq> c \<Longrightarrow> state_of k' t = state_of k3 t" "kmutexes k' = kmutexes k3" "rt_interrupt_nest k' = rt_interrupt_nest k3" "rt_timer_list k' = rt_timer_list k3"
    by (rule scheduler_start_ok [OF k3(2,3,7,5)]) blast
  have c: "c = t"
  proof (rule ccontr)
    assume "c \<noteq> t"
    then have "prio k' c \<le> 4" using k'(2,3) k'(6) [of t] s3 k'(5) by (auto simp: sys_okb_def in_order_def runs_highest_def)
    then show False using \<open>c \<noteq> t\<close> k'(4,5) s3 k3(6) by (auto split: if_splits)
  qed
  have "rtthread_startup m t i k = Some k'" using k1(1) k2(1) k3(1) k'(1) by (simp add: rtthread_startup_def Let_def flip: k0_def)
  moreover have "kernel_runs i k'" using k'(2,7,8,9) k3(8,9,10) i0(7) by (simp add: kernel_runsb_def deadlines_ok_def)
  ultimately show ?thesis using k' c s3 k3(6,10) assms(2) by auto
qed

section \<open>A system to look at\<close>

definition no_thread :: rt_thread where
  "no_thread = \<lparr>init_priority = 0, current_priority = 0, number_mask = 0, slice = 0, remaining_tick = 0, stat = 0, t_error = 0,
     tmr_init = 0, tmr_timeout = 0, tmr_active = False\<rparr>"

definition kernel0 :: kernel where
  "kernel0 = \<lparr>thr = (\<lambda>_. no_thread), tlist = (\<lambda>_. []), rt_thread_ready_priority_group = 0, rt_scheduler_lock_nest = 0, rt_current_thread = None,
     rt_current_priority = 0, rt_interrupt_nest = 0, rt_tick = 0, rt_timer_list = [], ksems = (\<lambda>_. \<lparr>ks_value = 0, ks_flag = RT_IPC_FLAG_FIFO\<rparr>),
     kmutexes = (\<lambda>_. \<lparr>m_value = 1, m_owner = None, original_priority = 0xFF, hold = 0, m_flag = RT_IPC_FLAG_PRIO\<rparr>)\<rparr>"

definition kernel1 :: kernel where
  "kernel1 = the (rtthread_startup 0 1 2 kernel0)"

text \<open>
  The thread \<open>timer\<close> sleeps, \<open>main\<close> takes a mutex, a tick wakes \<open>timer\<close>; then \<open>timer\<close> waits for the mutex.
\<close>

definition calls2 :: "kernel_call list" where
  "calls2 = [Sleep 1, MutexTake 0 (- 1), Tick]"

definition calls3 :: "kernel_call list" where
  "calls3 = calls2 @ [MutexTake 0 (- 1)]"

text \<open>Or it waits for one tick only, in vain, and \<open>main\<close> gives the mutex back afterwards.\<close>

definition calls4 :: "kernel_call list" where
  "calls4 = calls2 @ [MutexTake 0 1, Tick, MutexRelease 0]"

definition kernel2 :: kernel where
  "kernel2 = the (run_calls kernel_do calls2 kernel1)"

definition kernel3 :: kernel where
  "kernel3 = the (run_calls kernel_do calls3 kernel1)"

lemma kernel0_reset: "reset_state kernel0"
  by (simp add: reset_state_def kernel0_def state_of_def no_thread_def)

lemma kernel1_runs: "kernel_runs 2 kernel1" "rt_current_thread kernel1 = Some 1" "rt_timer_list kernel1 = []"
  using rtthread_startup_runs [OF kernel0_reset, of 0 1 2] by (auto simp: kernel1_def)

lemma kernel2_legal: "legal_calls kernel_do (kernel_legal_sched 2) calls2 kernel1"
  by code_simp

lemma kernel3_legal: "legal_calls kernel_do (kernel_legal_sched 2) calls3 kernel1"
  by code_simp

lemma kernel4_legal: "legal_calls kernel_do (kernel_legal 2) calls4 kernel1"
  by code_simp

lemma kernel2_runs: "kernel_runs 2 kernel2"
  using rt_kernel.calls_ok [OF kernel1_runs(1) kernel2_legal] by (auto simp: kernel2_def)

lemma kernel3_runs: "kernel_runs 2 kernel3"
  using rt_kernel.calls_ok [OF kernel1_runs(1) kernel3_legal] by (auto simp: kernel3_def)

lemma kernel2_mutex: "rt_current_thread kernel2 = Some 1 \<and> m_owner (kmutexes kernel2 0) = Some 0 \<and> prio kernel2 0 = 10 \<and> prio kernel2 1 = 4"
  by code_simp

lemma kernel3_mutex: "rt_current_thread kernel3 = Some 0 \<and> m_owner (kmutexes kernel3 0) = Some 0 \<and> hold (kmutexes kernel3 0) = 1 \<and>
    tlist kernel3 (MutexWait 0) = [1] \<and> prio kernel3 0 = 4 \<and> original_priority (kmutexes kernel3 0) = 10"
  by code_simp

section \<open>Properties\<close>

text \<open>
  C8. From reset, \<open>rtthread_startup\<close> starts the scheduler with the thread \<open>timer\<close>, which is the most
  urgent one. From then on, take any sequence of \<open>rt_thread_sleep\<close>, \<open>rt_sem_take\<close>, \<open>rt_sem_release\<close>,
  \<open>rt_mutex_take\<close>, \<open>rt_mutex_release\<close>, \<open>rt_thread_startup\<close> of the current threads, with ticks in
  between, in which the idle thread does not wait, a wait is shorter than half the range of the clock,
  no holder takes its mutex more than 255 times, and only threads that were not started yet are
  started, with a priority below 32. Every call returns without a failed assertion and the system stays intact: every thread is
  in the list its state asks for, the bit map of the ready priorities is right, the timers are in
  order, the current thread runs and the idle thread can. A thread of the highest priority runs
  after the sequence, provided that no thread with a raised priority gave back a mutex for which no other
  thread was waiting (after such a release the code does not schedule).
\<close>

theorem kernel_calls_safe:
  assumes "reset_state k" "distinct [m, t, i]"
  shows "\<exists>k'. rtthread_startup m t i k = Some k' \<and> kernel_runs i k' \<and> rt_current_thread k' = Some t \<and>
    (legal_calls kernel_do (kernel_legal i) cs k' \<longrightarrow> (\<exists>k''. run_calls kernel_do cs k' = Some k'' \<and> kernel_intact i k'')) \<and>
    (legal_calls kernel_do (kernel_legal_sched i) cs k' \<longrightarrow> (\<exists>k''. run_calls kernel_do cs k' = Some k'' \<and> kernel_runs i k''))"
  using rtthread_startup_runs [OF assms] rt_kernel.calls_ok kernel_runs_intact by blast

text \<open>
  The witness has both: a sequence after which \<open>main\<close> holds a mutex with a raised priority, and the longer
  one in which \<open>timer\<close> stops waiting and \<open>main\<close> gives the mutex back.
\<close>

theorem kernel_calls_safe_witness:
  "\<exists>k'. rtthread_startup 0 1 2 kernel0 = Some k' \<and> kernel_runs 2 k' \<and> rt_current_thread k' = Some 1 \<and>
    (\<exists>k''. run_calls kernel_do calls3 k' = Some k'' \<and> kernel_runs 2 k'') \<and>
    (\<exists>k''. run_calls kernel_do calls4 k' = Some k'' \<and> kernel_intact 2 k'')"
proof -
  have s: "rtthread_startup 0 1 2 kernel0 = Some kernel1"
    using rtthread_startup_runs [OF kernel0_reset, of 0 1 2] by (auto simp: kernel1_def)
  note c = kernel_calls_safe [OF kernel0_reset, of 0 1 2, simplified s]
  show ?thesis using s c [of calls3] c [of calls4] kernel3_legal kernel4_legal by simp
qed

text \<open>
  C10. The blocking semaphores of the kernel implement the semaphores the application model uses: a
  take returns, times out or waits exactly when the abstract one does, with the same queue, and while
  it waits another thread runs; a release gives the same value and queue and makes the thread that
  the abstract release picks ready. Both leave a running system.
\<close>

theorem semaphores_refine:
  assumes "kernel_runs i k" "rt_current_thread k = Some t" "t \<noteq> i" "time < 0x7FFFFFFF"
  shows "(\<exists>r k'. rt_sem_take_k s time k = Some (r, k') \<and> kernel_runs i k' \<and> (r, sem_abs k' s) = rt_sem_take (mk_waiter t (prio k t)) time (sem_abs k s) \<and>
      (r = None \<longrightarrow> rt_current_thread k' \<noteq> Some t \<and> state_of k' t = RT_THREAD_SUSPEND)) \<and>
    (\<exists>k'. rt_sem_release_k s k = Some k' \<and> kernel_runs i k' \<and> sem_abs k' s = snd (rt_sem_release (sem_abs k s)) \<and>
      (\<forall>w. fst (rt_sem_release (sem_abs k s)) = Some w \<longrightarrow> state_of k' w \<in> {RT_THREAD_READY, RT_THREAD_RUNNING}))"
proof
  have k: "sys_ok i k" "rt_interrupt_nest k = 0" using assms(1) by (auto simp: kernel_runsb_def)
  have "kernel_legalb True i k (SemTake s time)" using assms(2-4) by simp
  from sem_take_runs [OF assms(1) this] sem_take_ok [OF k(1) assms(2,3) k(2) assms(4), of s]
  show "\<exists>r k'. rt_sem_take_k s time k = Some (r, k') \<and> kernel_runs i k' \<and> (r, sem_abs k' s) = rt_sem_take (mk_waiter t (prio k t)) time (sem_abs k s) \<and>
    (r = None \<longrightarrow> rt_current_thread k' \<noteq> Some t \<and> state_of k' t = RT_THREAD_SUSPEND)" by auto
  from sem_release_runs [OF assms(1), of s] sem_release_ok [OF k(1), of s]
  show "\<exists>k'. rt_sem_release_k s k = Some k' \<and> kernel_runs i k' \<and> sem_abs k' s = snd (rt_sem_release (sem_abs k s)) \<and>
    (\<forall>w. fst (rt_sem_release (sem_abs k s)) = Some w \<longrightarrow> state_of k' w \<in> {RT_THREAD_READY, RT_THREAD_RUNNING})" by auto
qed

theorem semaphores_refine_witness:
  "(\<exists>r k'. rt_sem_take_k 5 100 kernel1 = Some (r, k') \<and> kernel_runs 2 k' \<and>
     (r, sem_abs k' 5) = rt_sem_take (mk_waiter 1 (prio kernel1 1)) 100 (sem_abs kernel1 5)) \<and>
   (\<exists>k'. rt_sem_release_k 5 kernel1 = Some k' \<and> kernel_runs 2 k' \<and> sem_abs k' 5 = snd (rt_sem_release (sem_abs kernel1 5)))"
  using semaphores_refine [OF kernel1_runs(1,2), of 100 5] by fastforce

text \<open>
  C21. A thread that calls \<open>rt_thread_sleep\<close> for \<open>n\<close> ticks gives up the processor, is suspended after
  every one of the next \<open>n - 1\<close> ticks, and can run again after the \<open>n\<close>th, even when the tick counter
  wraps around. When it runs again, the call returns
  \<open>RT_EOK\<close>.
\<close>

theorem sleep_exact:
  assumes "kernel_runs i k" "rt_current_thread k = Some t" "t \<noteq> i" "0 < n" "n < RT_TICK_MAX div 2"
  shows "\<exists>k'. rt_thread_sleep n k = Some (None, k') \<and> kernel_runs i k' \<and> rt_current_thread k' \<noteq> Some t \<and>
    (\<forall>j<unat n. \<exists>kj. run_ticks j k' = Some kj \<and> sys_ok i kj \<and> state_of kj t = RT_THREAD_SUSPEND) \<and>
    (\<exists>kn. run_ticks (unat n) k' = Some kn \<and> sys_ok i kn \<and> state_of kn t \<in> {RT_THREAD_READY, RT_THREAD_RUNNING} \<and>
      fst (sleep_over t kn) = RT_EOK \<and> t_error (thr (snd (sleep_over t kn)) t) = RT_EOK)"
proof -
  have k: "sys_ok i k" "deadlines_ok k" using assms(1) by (auto simp: kernel_runsb_def)
  from sleep_for_ok [OF k(1) assms(2,3,5)] obtain k' where k': "sleep_for t n k = Some k'" "sys_ok i k'" "rt_current_thread k' \<noteq> Some t" "t \<in> set (rt_timer_list k')" by blast
  have e: "rt_thread_sleep n k = Some (None, k')" using k'(1,3) assms(2) by (simp add: rt_thread_sleep_def when_back_def)
  have "kernel_legalb True i k (Sleep n)" using assms(2,3,5) by simp
  with sleep_runs [OF assms(1) this] e have r: "kernel_runs i k'" by simp
  note l = sleep_for_timers [OF k assms(2) k'(1)]
  have p: "0 < left k' t" using l(2) assms(4) by (simp add: unat_gt_0)
  have "\<exists>kj. run_ticks j k' = Some kj \<and> sys_ok i kj \<and> state_of kj t = RT_THREAD_SUSPEND" if "j < unat n" for j
    using ticks_waiting [OF k'(2) l(1) k'(4), of j] that l(2) by auto
  moreover from ticks_awake [OF k'(2) l(1) k'(4) p] l(2) obtain kn where "run_ticks (unat n) k' = Some kn" "sys_ok i kn"
    "state_of kn t \<in> {RT_THREAD_READY, RT_THREAD_RUNNING}" "t_error (thr kn t) = - RT_ETIMEOUT" by auto
  ultimately show ?thesis using e r k'(3) by (auto simp: sleep_over_def)
qed

theorem sleep_exact_witness:
  "\<exists>k'. rt_thread_sleep 3 kernel1 = Some (None, k') \<and> kernel_runs 2 k' \<and> rt_current_thread k' \<noteq> Some 1 \<and>
    (\<exists>kn. run_ticks 2 k' = Some kn \<and> sys_ok 2 kn \<and> state_of kn 1 = RT_THREAD_SUSPEND) \<and>
    (\<exists>kn. run_ticks 3 k' = Some kn \<and> sys_ok 2 kn \<and> state_of kn 1 \<in> {RT_THREAD_READY, RT_THREAD_RUNNING})"
proof -
  have u: "unat (3 :: u32) = 3" by simp
  from sleep_exact [OF kernel1_runs(1,2), of 3, unfolded u] obtain k' where k': "rt_thread_sleep 3 kernel1 = Some (None, k')" "kernel_runs 2 k'"
    "rt_current_thread k' \<noteq> Some 1" "\<And>j. j < 3 \<Longrightarrow> \<exists>kj. run_ticks j k' = Some kj \<and> sys_ok 2 kj \<and> state_of kj 1 = RT_THREAD_SUSPEND"
    "\<exists>kn. run_ticks 3 k' = Some kn \<and> sys_ok 2 kn \<and> state_of kn 1 \<in> {RT_THREAD_READY, RT_THREAD_RUNNING}" by auto
  show ?thesis using k'(1,2,3,5) k'(4) [of 2] by auto
qed

text \<open>
  C11. Priority inheritance. A thread other than the idle thread that takes a mutex another thread holds,
  and is willing to wait (for ever or for less than half the range of the clock), is suspended, queued by
  the rule of the mutex, and gives up the processor. In the state right after the call the holder has
  the higher one of its own priority and the priority of the thread that waits. The mutex itself does
  not change.
\<close>

theorem mutex_inheritance:
  assumes "kernel_runs i k" "rt_current_thread k = Some t" "t \<noteq> i" "m_owner (kmutexes k m) = Some ow" "ow \<noteq> t" "time \<noteq> 0" "time < 0x7FFFFFFF"
  shows "\<exists>k'. rt_mutex_take m time k = Some (None, k') \<and> kernel_runs i k' \<and> rt_current_thread k' \<noteq> Some t \<and> state_of k' t = RT_THREAD_SUSPEND \<and>
    tlist k' (MutexWait m) = enqueued (prio k') (m_flag (kmutexes k m)) t (tlist k (MutexWait m)) \<and> kmutexes k' = kmutexes k \<and>
    prio k' ow = min (prio k ow) (prio k t)"
proof -
  have k: "sys_ok i k" "rt_interrupt_nest k = 0" "mutex_ok (kmutexes k m)" using assms(1) by (auto simp: kernel_runsb_def)
  have "m_value (kmutexes k m) = 0" using k(3) assms(4) by (simp add: mutex_ok_def)
  with mutex_wait_ok [OF k(1) assms(2,3) k(2) assms(7,4,5) _ assms(6)] obtain k' where k': "rt_mutex_take m time k = Some (None, k')"
    "state_of k' t = RT_THREAD_SUSPEND" "tlist k' (MutexWait m) = enqueued (prio k') (m_flag (kmutexes k m)) t (tlist k (MutexWait m))"
    "kmutexes k' = kmutexes k" "prio k' ow = min (prio k ow) (prio k t)" by auto
  have "kernel_runs i k'" using mutex_take_runs [OF assms(1), of m time] k'(1) assms(2-5,7) by auto
  moreover from this have "rt_current_thread k' \<noteq> Some t" using k'(2) by (auto elim!: kernel_runsD)
  ultimately show ?thesis using k' by blast
qed

theorem mutex_inheritance_witness:
  "\<exists>k'. rt_mutex_take 0 100 kernel2 = Some (None, k') \<and> kernel_runs 2 k' \<and> state_of k' 1 = RT_THREAD_SUSPEND \<and> prio kernel2 0 = 10 \<and> prio k' 0 = 4"
proof -
  have m: "m_owner (kmutexes kernel2 0) = Some 0" "rt_current_thread kernel2 = Some 1" "prio kernel2 0 = 10" "prio kernel2 1 = 4" using kernel2_mutex by auto
  from mutex_inheritance [OF kernel2_runs m(2) _ m(1), of 100] m show ?thesis by auto
qed

text \<open>
  C22. The last release of a mutex for which threads wait: the thread that held it is back at the
  priority it had when it took the mutex, the first thread of the queue owns the mutex, with its own
  priority on record, and can run; then a thread of the highest priority runs.
\<close>

theorem mutex_handed_over:
  assumes "kernel_runs i k" "rt_current_thread k = Some t" "m_owner (kmutexes k m) = Some t" "hold (kmutexes k m) = 1" "tlist k (MutexWait m) = w # ws"
  shows "\<exists>k'. rt_mutex_release m k = Some (RT_EOK, k') \<and> kernel_runs i k' \<and> prio k' = (prio k)(t := original_priority (kmutexes k m)) \<and>
    tlist k' (MutexWait m) = ws \<and> state_of k' w \<in> {RT_THREAD_READY, RT_THREAD_RUNNING} \<and>
    kmutexes k' = (kmutexes k)(m := (kmutexes k m)\<lparr>m_owner := Some w, original_priority := prio k w, hold := 1\<rparr>)"
proof -
  have k: "sys_ok i k" "rt_interrupt_nest k = 0" "mutex_ok (kmutexes k m)" using assms(1) by (auto simp: kernel_runsb_def)
  note h = mutex_handover [OF k(1) assms(2) k(2,3) assms(3,4,5)]
  have "kernel_legalb True i k (MutexRelease m)" using assms(5) by simp
  with mutex_release_runs [OF assms(1) this] h show ?thesis by auto
qed

theorem mutex_handed_over_witness:
  "\<exists>k'. rt_mutex_release 0 kernel3 = Some (RT_EOK, k') \<and> kernel_runs 2 k' \<and> prio k' 0 = 10 \<and> m_owner (kmutexes k' 0) = Some 1 \<and>
    state_of k' 1 \<in> {RT_THREAD_READY, RT_THREAD_RUNNING}"
proof -
  have m: "rt_current_thread kernel3 = Some 0" "m_owner (kmutexes kernel3 0) = Some 0" "hold (kmutexes kernel3 0) = 1" "tlist kernel3 (MutexWait 0) = [1]"
    "original_priority (kmutexes kernel3 0) = 10" using kernel3_mutex by auto
  from mutex_handed_over [OF kernel3_runs m(1-4)] m(5) show ?thesis by auto
qed

section \<open>Where the code differs from its documentation\<close>

text \<open>
  \<open>rt_thread_yield\<close> only calls \<open>rt_schedule\<close>, without the flag that makes the scheduler prefer another
  thread of the same priority: outside of the tick interrupt it changes nothing at all.
\<close>

lemma yield_changes_nothing:
  assumes "kernel_runs i k" "rt_current_thread k = Some t" "stat (thr k t) AND RT_THREAD_STAT_YIELD = 0"
  shows "rt_thread_yield k = Some k"
proof -
  have k: "sys_ok i k" "kernel_inv k" "state_of k t = RT_THREAD_RUNNING" "\<And>u. state_of k u = RT_THREAD_READY \<Longrightarrow> prio k t \<le> prio k u"
    using assms(1,2) by (auto simp: kernel_runsb_def sys_okb_def in_order_def runs_highest_def)
  show ?thesis
  proof (cases "rt_thread_ready_priority_group k = 0")
    case True
    then show ?thesis by (simp add: rt_thread_yield_def rt_schedule_def)
  next
    case False
    obtain hi hp where g: "get_highest_priority_thread k = (hi, hp)" by fastforce
    have "prio k t \<le> hp" using highest_ready(1,2) [OF k(2) False g] k(4) by auto
    then show ?thesis using False g k(1,3) assms(2,3) stay_same [OF k(2,3)] by (auto simp: rt_thread_yield_def rt_schedule_def sys_okb_def in_order_def Let_def)
  qed
qed

text \<open>
  \<open>rt_thread_delay_until\<close> is called with the tick of the last period and the length of a period. It waits
  for the time that has passed since then and a whole period, so that the thread wakes late by twice
  the time it worked, and not at the next multiple of the period.
\<close>

lemma delay_until_late:
  assumes "kernel_runs i k" "rt_current_thread k = Some t" "t \<noteq> i" "rt_tick k - tick < inc" "rt_tick k - tick + inc < RT_TICK_MAX div 2"
  shows "\<exists>k'. rt_thread_delay_until tick inc k = Some (None, k') \<and> tmr_timeout (thr k' t) = (tick + inc) + 2 * (rt_tick k - tick)"
proof -
  have "sys_ok i k" using assms(1) by (simp add: kernel_runsb_def)
  from sleep_for_ok [OF this assms(2,3,5)] obtain k' where "sleep_for t (rt_tick k - tick + inc) k = Some k'" "rt_current_thread k' \<noteq> Some t"
    "tmr_timeout (thr k' t) = rt_tick k + (rt_tick k - tick + inc)" by blast
  then show ?thesis using assms(2,4) by (simp add: rt_thread_delay_until_def when_back_def algebra_simps)
qed

text \<open>
  A release without a waiting thread gives the holder its own priority back and does not schedule:
  when the thread that raised the priority has timed out in the meantime, it is ready and more
  urgent, and still does not run.
\<close>

lemma release_not_scheduled:
  assumes "kernel_runs i k" "rt_current_thread k = Some t" "m_owner (kmutexes k m) = Some t" "hold (kmutexes k m) = 1" "tlist k (MutexWait m) = []"
    and "state_of k u = RT_THREAD_READY" "prio k u < original_priority (kmutexes k m)"
  shows "\<exists>k'. rt_mutex_release m k = Some (RT_EOK, k') \<and> rt_current_thread k' = Some t \<and> state_of k' u = RT_THREAD_READY \<and> prio k' u < prio k' t"
proof -
  have k: "sys_ok i k" "rt_interrupt_nest k = 0" "mutex_ok (kmutexes k m)" "state_of k t = RT_THREAD_RUNNING"
    using assms(1,2) by (auto simp: kernel_runsb_def elim!: sys_okD)
  have "u \<noteq> t" using k(4) assms(6) by auto
  then show ?thesis using mutex_freed [OF k(1) assms(2) k(2,3) assms(3,4,5)] assms(6,7) by auto
qed

text \<open>It happens: \<open>main\<close> holds the mutex, \<open>timer\<close> waits for it for one tick and in vain.\<close>

lemma release_not_scheduled_happens:
  "map_option (\<lambda>k. (rt_current_thread k, prio k 0, state_of k 1, prio k 1)) (run_calls kernel_do calls4 kernel1) =
    Some (Some 0, 10, RT_THREAD_READY, 4)"
  by code_simp

text \<open>
  The priority a holder got from a waiting thread is lost when it gives back another mutex. \<open>main\<close> holds
  the mutexes 0 and 1, \<open>timer\<close> waits for mutex 0, so that \<open>main\<close> runs with priority 4. The release of
  mutex 1 puts \<open>main\<close> back to priority 10, although it still holds mutex 0 and \<open>timer\<close> still waits for it.
\<close>

definition calls5 :: "kernel_call list" where
  "calls5 = [Sleep 1, MutexTake 0 (- 1), MutexTake 1 (- 1), Tick, MutexTake 0 (- 1)]"

lemma nested_mutex_raised:
  "map_option (\<lambda>k. (rt_current_thread k, m_owner (kmutexes k 0), tlist k (MutexWait 0), prio k 0)) (run_calls kernel_do calls5 kernel1) =
    Some (Some 0, Some 0, [1], 4)"
  by code_simp

lemma nested_mutex_loses_priority:
  "map_option (\<lambda>k. (rt_current_thread k, m_owner (kmutexes k 0), tlist k (MutexWait 0), prio k 0)) (run_calls kernel_do (calls5 @ [MutexRelease 1]) kernel1) =
    Some (Some 0, Some 0, [1], 10)"
  by code_simp

end
