(* ===== verification/Spec2Isabelle.thy ===== *)
theory Spec2Isabelle
  imports Display Safety Saved TimerProps ClockProps SleepProps FrameProps EfProps EfPower Sfud RtMemProps KernelClaims
begin

text \<open>
  Verification library of the SYR BFC firmware: the controller of a backwash filter, on an
  STM32L431 with RT-Thread. A motor opens and closes the backwash valve; a display with three
  keys, a battery, a water hardness sensor, an hourly clock and a differential pressure switch
  surround it; the settings are kept in a serial flash.

  \<^bold>\<open>The program and its model\<close>

  The state is the record \<open>sys\<close> of theory \<open>State\<close>: one field per group of C globals, with
  the names of the C variables, plus the kernel objects and the environment (input pins, ADC
  readings, ticks, flash contents). A C function body is a state transformer, written with the
  statement combinators of \<open>Prelude\<close> (\<open>block\<close>, \<open>ifS\<close>, \<open>whenS\<close>, \<open>switchS\<close>), so that it
  can be read beside the source. Integers have their C width. A write or read outside an array,
  a \<open>sprintf\<close> longer than its buffer and a failed kernel assertion are recorded in \<open>faults\<close>;
  a write through a null pointer ends the start sequence with \<open>None\<close>. After a recorded fault the model goes on
  as if the write had stayed in its array, while in C the neighbours are overwritten: what the model says
  of a state with a fault in it is not what the device does. The windows of the two periods always record one
  (\<open>period_windows_overflow\<close> of \<open>Settings\<close>).

  \<^item> \<open>CLib\<close>: decimal printing and \<open>atol\<close>, with their round trip.
  \<^item> \<open>Rtos\<close>: semaphores, event sets and soft timers of \<open>rt-thread/src/ipc.c\<close> and \<open>timer.c\<close>.
  \<^item> \<open>Board\<close>: pins, LEDs, ADC, screen timers (\<open>device/DeviceInit.c\<close>, \<open>device/AdcWork.c\<close>)
    and the display driver \<open>lcd/12864.c\<close> down to the single pin write.
  \<^item> \<open>FrameBuffer\<close>: frame buffer, lines, rectangles, bitmaps, text and font (lkdGui,
    \<open>lcd/ASCII12864.c\<close>).
  \<^item> \<open>FlashWork\<close>: \<open>device/FlashWork.c\<close> over the string API of EasyFlash. The interface of the
    store is the locale \<open>env_store\<close>.
  \<^item> \<open>EfUtils\<close>, \<open>EfEnv\<close>: EasyFlash itself, \<open>ef_utils.c\<close> and \<open>ef_env.c\<close>, on the bytes of the
    serial flash: checksum, status tables, caches, scanning, allocation, garbage collection,
    get, set, delete, default set and start.
  \<^item> \<open>Sfud\<close>: the serial flash driver \<open>sfud.c\<close> below the port \<open>device/ef_sfud_port.c\<close>; the SPI
    bus with the chip is a parameter, its data sheet the locale \<open>spi_nor\<close>.
  \<^item> \<open>KService\<close>, \<open>RtMem\<close>: the heap of the kernel, \<open>rt-thread/src/mem.c\<close>, on the bytes of the RAM, with
    the copy and fill routines of \<open>kservice.c\<close> (\<open>Bytes\<close> holds words in byte-addressed memory).
  \<^item> \<open>Kernel\<close>: the core of the kernel, \<open>scheduler.c\<close>, \<open>thread.c\<close>, \<open>clock.c\<close>, the thread timers of
    \<open>timer.c\<close>, the blocking semaphores and mutexes of \<open>ipc.c\<close> and the start in \<open>components.c\<close>. Its
    semaphores implement those of \<open>Rtos\<close>, on which the model of the application rests.
  \<^item> \<open>Services\<close>: requests to the display task, reading the settings, water sensor
    (\<open>device/TdsWork.c\<close>), clock (\<open>device/RTCWork.c\<close>), battery (\<open>device/Battery.c\<close>).
  \<^item> \<open>MotoControl\<close>: \<open>device/MotoControl.c\<close>.
  \<^item> \<open>LkdGui\<close>: buttons, scroll bar and window stack.
  \<^item> \<open>Windows1\<close>, \<open>Windows2\<close>, \<open>Windows3\<close>: the 27 window functions of \<open>lcd/lcd_display.c\<close>.
  \<^item> \<open>LcdTask\<close>: the display task, the jumps between windows, the key callbacks, the sleep
    sequence of \<open>device/LowPower.c\<close> and the timer callbacks.
  \<^item> \<open>Button\<close>: the key driver \<open>packages/button-v1.0.1/button.c\<close>.
  \<^item> \<open>System\<close>: \<open>main\<close>, the step relation of the whole firmware and its reachable states. A step is
    one turn of a task loop, one expired timer, an interrupt, a shell command or a change of the
    environment; steps come in any order.

  \<^bold>\<open>Interfaces\<close>

  Invariants are proved once for all through locales. \<open>draw_part\<close> says what a property must
  survive to be kept by drawing; \<open>gui_part\<close> adds controls and the window stack;
  \<open>effects_base\<close>, \<open>window_effects\<close>, \<open>window_part\<close> and \<open>task_part\<close> the window functions and the display
  task (\<open>effects_part\<close> is \<open>window_effects\<close> for a property that survives every write to the flash);
  \<open>prim_part\<close> the primitive effects of the other tasks; \<open>firmware_part\<close> gives the
  property in every reachable state. \<open>window_free\<close> and \<open>firmware_free\<close> are the cases that do
  not look at the settings. They are interpreted on the properties of \<open>Display\<close>,
  \<open>Safety\<close>, \<open>Settings\<close>, \<open>Saved\<close> and \<open>SleepProps\<close>.

  \<open>kv_store\<close> is the contract of a parameter store: which answers a sequence of calls gives.
  It is interpreted on the string API of \<open>FlashWork\<close> and, through \<open>flash_names\<close>, on the
  operations of \<open>EfEnv\<close> with the names of the firmware, so that both give the same
  answers. \<open>call_service\<close> of \<open>CallSeq\<close> is the contract of a service that never fails when it is
  called by its rules, interpreted on the calls of \<open>Kernel\<close>; \<open>memory_service\<close> extends it by blocks
  that stay as they are, and is interpreted on \<open>RtMem\<close>. \<open>spi_nor\<close> is what the driver relies on of the chip, interpreted on a chip
  written after the data sheet.

  \<^bold>\<open>What is shown\<close>

  \<^item> \<open>Safety\<close>: in every reachable state, that is between two turns, the motor bridge is never driven both
    ways and is off when the motor is idle; the window stack stays within its array and its table; the
    sensor buffer has room; the timer list is well formed. Inside the turn that starts a back stroke both
    inputs of the bridge can be high (\<open>back_stroke_overlap\<close>).
  \<^item> \<open>MotoProps\<close>: the backwash goes out and back; it is refused on an empty battery; an
    overload stops the motor in the same turn; and the case in which the return stroke is lost.
  \<^item> \<open>Display\<close>: the nested calls of \<open>GuiWinDisplay\<close> end. The model bounds their depth by the
    number of waiting key presses plus one; the result does not depend on what stands at the bottom of
    the bounded recursion, so the bound is never met.
  \<^item> \<open>Settings\<close>: the editing windows keep the settings that have a range in it; two string buffers are
    too small. \<open>Saved\<close>: the settings in use are the settings in the flash after every turn, so that a
    restart restores them; a restart after a factory reset.
  \<^item> \<open>TimerProps\<close>: the sorted timer list with its 32-bit ticks fires as an unbounded clock would.
  \<^item> \<open>Params\<close>, \<open>Boot\<close>: flash round trip, ranges after start, start on a written and on a fresh flash.
  \<^item> \<open>ClockProps\<close>: the automatic backwash comes exactly once per period; battery hysteresis.
  \<^item> \<open>SleepProps\<close>: keys on a dark display, the long press, the board in and after stop mode, and
    a sleep in the middle of a backwash.
  \<^item> \<open>FrameProps\<close>: rectangles and characters pixel by pixel, text within the buffer, and the
    transfer of the buffer as a receiver on the pins sees it.
  \<^item> \<open>EfUtils\<close>: the table-driven checksum is the bit-serial CRC-32.
  \<^item> \<open>EfRep\<close> (the bytes of a sector as a list of nodes), \<open>EfCache\<close>, \<open>EfScan\<close>, \<open>EfAlloc\<close>,
    \<open>EfWrite\<close>, \<open>EfGc\<close>, \<open>EfStore\<close>, \<open>EfStart\<close>, \<open>EfNames\<close>: layer by layer, what the routines of
    \<open>ef_env.c\<close> do to such sectors. \<open>EfProps\<close>: any sequence of calls on the flash gives the
    answers of a map, garbage collections included; a restart keeps the map; the first start on an
    empty chip stores the default set; deletion. \<open>EfPower\<close>: a replaced value survives a loss of power
    before and after its new node is written; a value that does not fit is refused without loss.
  \<^item> \<open>Sfud\<close>: writes of any length and erases of whole sectors, as the driver cuts them into
    commands, do on the chip what the port is modelled to do.
  \<^item> \<open>KService\<close>: the word-wise copy and fill routines agree with loops over bytes. \<open>RtMemRep\<close> (the
    chain of headers as a list of blocks), \<open>RtMemProps\<close>: any sequence of calls keeps the heap intact
    and leaves the blocks in use alone; what \<open>rt_malloc\<close>, \<open>rt_realloc\<close> and \<open>rt_free\<close> do, a double free
    included, for every size; and the cases in which they fall short. The rules of the calls are
    \<open>heap_legal\<close>: pointers that were handed out, writes only to blocks handed out, and no product of
    \<open>rt_calloc\<close> in the last seven values of its range.
  \<^item> \<open>KernelProps\<close> (the invariant of the kernel, \<open>rt_schedule\<close>), \<open>KernelCalls\<close> (semaphores, starting a
    thread, the tick), \<open>KernelTime\<close> (the timers of the threads), \<open>KernelMutex\<close>, \<open>KernelSpec\<close> (any
    sequence of calls, the start). \<open>KernelClaims\<close>: from reset on no call fails and the
    kernel stays intact (\<open>kernel_intact\<close>), by the rules \<open>kernel_legal\<close>; a thread of the highest priority
    runs (\<open>kernel_runs\<close>) unless a thread with a raised priority gives back a mutex nobody waits for; the semaphores refine those of \<open>Rtos\<close>; a sleep takes exactly its ticks;
    priority inheritance at the moment of the call and the passing on of a mutex; and where the code
    and its documentation differ, among them how an inherited priority is lost.
  \<^item> \<open>Button\<close>: which events a press of any length raises.

  \<^bold>\<open>Bounds\<close>

  \<open>GuiWinDisplay\<close> and the walk over the sectors of \<open>EfEnv\<close> are the fuelled definitions: the walk has
  eight turns for two sectors, and running out is recorded in \<open>hung\<close>, which the theorems exclude. The
  retry loop at the start of EasyFlash and the loops of \<open>Sfud\<close>, \<open>RtMem\<close> and \<open>Kernel\<close> that need not end
  are partial functions whose results the theorems give. The store is shown correct as long as the live nodes fit in \<open>ENV_CAPACITY\<close>, 3928
  bytes of one sector; the parameters of the firmware need less. The line loop of the frame buffer ends by a
  measure; an interval of 0, and a rectangle whose lower edge is the largest 32-bit number, for which the loops
  of the code do not end, are recorded as the fault \<open>Endless\<close>. The floating point products in
  \<open>GuiVScroll\<close> and \<open>data_parsing\<close> are integer quotients for all operands that occur; the
  definitions say so where they stand.

  \<^bold>\<open>Not modelled\<close>

  The preemption of a turn of the application: there any interleaving of turns is allowed and a turn
  is not interrupted, while \<open>Kernel\<close> has the scheduler without the code of the tasks. Of the kernel:
  mailboxes, message queues, the waiting of events, names and objects, stacks, the context switch,
  and the idle thread that frees dead threads. The
  device drivers and vendor libraries, the probing of the flash chip, a power failure while a
  node of EasyFlash is being written or a sector collected (the bytes are then not nodes, and the
  representation of \<open>EfRep\<close> does not cover them), the busy waits, log output, and functions of
  the packages that the application does not call. In \<open>rt_soft_timer_check\<close> each turn looks at the head of the list again, where the C loop keeps the
  successor it has read before the callback; periodic timers, which the firmware does not create, are left
  out. \<open>rt_mutex_take\<close> has no repetition after a signal, since signals are not configured.

  \<^bold>\<open>Next\<close>

  The indices of \<open>tButton\<close> in every window, the string buffers, and the recovery of EasyFlash after
  a power failure inside a node or a collection.
\<close>

end
